(* ===== verification/Prelude.thy ===== *)
theory Prelude
  imports "HOL-Library.Word"
begin

text \<open>Shared vocabulary of the development: the machine integers of the C code
  as words, the named collections of rewrite rules, and the generic facts on
  masks, bit fields and byte composition that the component theories use.\<close>

unbundle bit_operations_syntax

type_synonym u8 = "8 word"
type_synonym u16 = "16 word"
type_synonym u32 = "32 word"
type_synonym u64 = "64 word"

named_theorems mask_simps
  \<open>rewriting of masks and bit fields into take_bit and drop_bit\<close>

section \<open>Bits of numerals\<close>

lemma bit_numeral_1 [simp]: "bit (1::'a::len word) n \<longleftrightarrow> n = 0"
  by (cases n) auto

lemma nat_less_8_cases:
  "n < (8::nat) \<Longrightarrow> n = 0 \<or> n = 1 \<or> n = 2 \<or> n = 3 \<or> n = 4 \<or> n = 5 \<or> n = 6 \<or> n = 7"
  by linarith

section \<open>Masks\<close>

lemma and_1_take_bit [mask_simps]: "(w::u32) AND 1 = take_bit 1 w"
  by (simp add: take_bit_eq_mask)

lemma and_3_take_bit [mask_simps]: "(w::u32) AND 3 = take_bit 2 w"
  by (simp add: take_bit_eq_mask mask_eq_exp_minus_1)

lemma and_7_take_bit [mask_simps]: "(w::u32) AND 7 = take_bit 3 w"
  by (simp add: take_bit_eq_mask mask_eq_exp_minus_1)

lemma and_0xF_take_bit [mask_simps]: "(w::u32) AND 0xF = take_bit 4 w"
  by (simp add: take_bit_eq_mask mask_eq_exp_minus_1)

lemma and_0x1F_take_bit [mask_simps]: "(w::u32) AND 0x1F = take_bit 5 w"
  by (simp add: take_bit_eq_mask mask_eq_exp_minus_1)

lemma and_0xFF_take_bit [mask_simps]: "(w::u32) AND 0xFF = take_bit 8 w"
  by (simp add: take_bit_eq_mask mask_eq_exp_minus_1)

lemma and_0xFFFF_take_bit [mask_simps]: "(w::u32) AND 0xFFFF = take_bit 16 w"
  by (simp add: take_bit_eq_mask mask_eq_exp_minus_1)

lemma and_0xFFFFF_take_bit [mask_simps]: "(w::u32) AND 0xFFFFF = take_bit 20 w"
  by (simp add: take_bit_eq_mask mask_eq_exp_minus_1)

lemma take_bit_small [simp]:
  fixes w :: "'a::len word"
  assumes "unat w < 2 ^ n"
  shows "take_bit n w = w"
proof -
  have "unat (take_bit n w) = unat w"
    using assms by (simp add: unsigned_take_bit_eq take_bit_nat_eq_self)
  then show ?thesis by (simp only: word_unat_eq_iff)
qed

lemma unat_take_bit_less [simp]:
  "unat (take_bit n (w::'a::len word)) < 2 ^ n"
  by (simp add: unsigned_take_bit_eq)

lemma bit_small: "unat (w::'a::len word) < 2 ^ n \<Longrightarrow> bit w m \<Longrightarrow> m < n"
  by (metis bit_take_bit_iff take_bit_small)

lemma unat_less_bits:
  fixes w :: "'a::len word"
  assumes "\<And>m. bit w m \<Longrightarrow> m < n"
  shows "unat w < 2 ^ n"
proof -
  have "take_bit n w = w"
    using assms by (auto intro!: bit_word_eqI simp: bit_take_bit_iff)
  then show ?thesis by (metis unat_take_bit_less)
qed

section \<open>Words equal by their bits\<close>

lemma word_eqI_small:
  fixes v w :: "'a::len word"
  assumes "unat w < 2 ^ k" "\<And>n. bit v n \<Longrightarrow> n < k" "\<forall>n<k. bit v n = bit w n"
  shows "v = w"
  by (rule bit_word_eqI) (metis assms bit_small)

lemma word_eqI_1:
  fixes v w :: "'a::len word"
  assumes "unat w < 2" "\<And>n. bit v n \<Longrightarrow> n = 0" "bit v 0 = bit w 0"
  shows "v = w"
  using assms by (intro word_eqI_small[of w 1]) auto

lemma word_eqI_2:
  fixes v w :: "'a::len word"
  assumes "unat w < 4" "\<And>n. bit v n \<Longrightarrow> n < 2" "bit v 0 = bit w 0" "bit v 1 = bit w 1"
  shows "v = w"
  using assms by (intro word_eqI_small[of w 2]) (auto simp: less_2_cases_iff)

lemma all_less_8:
  "(\<forall>n<8::nat. P n) \<longleftrightarrow> P 0 \<and> P 1 \<and> P 2 \<and> P 3 \<and> P 4 \<and> P 5 \<and> P 6 \<and> P 7"
  by (auto dest!: nat_less_8_cases)

lemma byte_eqI:
  fixes v w :: u8
  assumes "\<forall>n<8. bit v n = bit w n"
  shows "v = w"
  using assms by (auto intro: bit_word_eqI)

lemma bit_3_iff [simp]: "bit (3::u32) n \<longleftrightarrow> n < 2"
  using bit_mask_iff[of 2 n, where 'a="32 word"] by (auto simp: mask_eq_exp_minus_1)

text \<open>The rules that push \<^verbatim>\<open>bit\<close> to the atoms of a word expression; used with
  \<^verbatim>\<open>simp only\<close>, so that masks and shifts are not rewritten to arithmetic first.\<close>

lemmas bit_norm = bit_or_iff bit_and_iff bit_xor_iff bit_push_bit_iff bit_drop_bit_eq
  comp_def bit_unsigned_iff bit_take_bit_iff possible_bit_word bit_3_iff bit_numeral_1

lemma recompose_u16 [mask_simps]:
  "take_bit 8 v OR push_bit 8 (take_bit 8 (drop_bit 8 v)) = take_bit 16 (v::u32)"
  by (rule bit_word_eqI) (auto simp: bit_norm)

section \<open>Words as numbers\<close>

lemma unat_take_bit: "unat (take_bit n (w::'a::len word)) = unat w mod 2 ^ n"
  by (simp only: unsigned_take_bit_eq) (simp only: take_bit_eq_mod)

lemma unat_drop_bit: "unat (drop_bit n (w::'a::len word)) = unat w div 2 ^ n"
  by (simp only: unat_drop_bit_eq) (simp only: drop_bit_eq_div)

lemma unat_push_bit: "unat (push_bit n (w::'a::len word)) = (2 ^ n * unat w) mod 2 ^ LENGTH('a)"
  by (simp only: unsigned_push_bit_eq) (simp add: take_bit_eq_mod push_bit_eq_mult mult.commute)

lemma unat_push_bit_small:
  fixes w :: "'a::len word"
  assumes "unat w < 2 ^ k" "k + n \<le> LENGTH('a)"
  shows "unat (push_bit n w) = 2 ^ n * unat w"
proof -
  have "2 ^ n * unat w < 2 ^ n * 2 ^ k" using assms(1) by simp
  also have "\<dots> \<le> 2 ^ LENGTH('a)" using assms(2) by (simp flip: power_add add: add.commute)
  finally show ?thesis by (simp only: unat_push_bit mod_less)
qed

lemma unat_or_disjoint:
  fixes v w :: "'a::len word"
  assumes "unat v < 2 ^ n" "\<And>m. bit w m \<Longrightarrow> n \<le> m"
  shows "unat (v OR w) = unat v + unat w"
proof -
  have d: "v AND w = 0"
    using assms bit_small[OF assms(1)] by (auto intro!: bit_word_eqI simp: bit_and_iff) (meson leD)
  have "unat (v OR w) = unat v OR unat w" by (simp add: unsigned_or_eq)
  moreover have "unat v AND unat w = 0" using d by (metis unsigned_and_eq unsigned_0)
  ultimately show ?thesis by (metis disjunctive_add_eq_or)
qed

lemma unat_compose_u16:
  "unat (take_bit 8 a OR push_bit 8 (take_bit 8 b) :: u32) = unat a mod 256 + 256 * (unat b mod 256)"
  by (subst unat_or_disjoint[of _ 8])
    (simp_all add: unat_push_bit_small[of _ 8] unat_take_bit, simp add: bit_norm)

lemma unat_compose_u16_less: "unat (take_bit 8 a OR push_bit 8 (take_bit 8 b) :: u32) < 65536"
  unfolding unat_compose_u16 using mod_less_divisor[of 256 "unat a"] mod_less_divisor[of 256 "unat b"] by linarith

lemma unat_hi_lo:
  fixes p :: u32
  shows "unat (p AND 0xFFFF) + 65536 * unat (drop_bit 16 p AND 0xFFFF) = unat p"
  using unsigned_less[of p, where ?'a = nat]
  by (simp add: mask_simps unat_take_bit unat_drop_bit)

section \<open>Signed arithmetic and recomposition\<close>

lemma unat_ucast_u64: "unat (ucast (x::u32) :: u64) = unat x"
  using unsigned_less[of x, where ?'a = nat] by (simp add: unsigned_ucast_eq take_bit_nat_eq_self)

lemma sint_scast_u16: "sint (scast (h::u16) :: u32) = sint h"
  by (simp add: sint_up_scast is_up)

lemma sint_u16_bounds: "- 32768 \<le> sint (h::u16)" "sint (h::u16) \<le> 32767"
  using sint_greater_eq[of h] sint_less[of h] by simp_all

lemma sint_mult_u16:
  fixes a b :: u16
  shows "sint (scast a * scast b :: u32) = sint a * sint b"
proof -
  have "\<bar>sint a\<bar> \<le> 32768" "\<bar>sint b\<bar> \<le> 32768"
    using sint_u16_bounds[of a] sint_u16_bounds[of b] by linarith+
  then have "\<bar>sint a * sint b\<bar> \<le> 32768 * 32768"
    unfolding abs_mult by (rule mult_mono) simp_all
  then show ?thesis
    by (simp add: sint_word_ariths sint_scast_u16 signed_take_bit_int_eq_self)
qed

lemma sign_bit_iff: "bit (x::u32) 31 \<longleftrightarrow> sint x < 0"
  using bit_last_iff[of x] by simp

lemma drop_bit_31_and_1: "drop_bit 31 (x::u32) AND 1 = (if bit x 31 then 1 else 0)"
proof (rule bit_word_eqI)
  fix n
  show "bit (drop_bit 31 x AND 1) n = bit (if bit x 31 then 1 else (0::u32)) n"
    by (cases "n = 0") (simp_all add: bit_norm)
qed

lemma sint_add_wrap:
  fixes x y :: u32
  shows "sint (x + y) = (if sint x + sint y < - (2 ^ 31) then sint x + sint y + 2 ^ 32
     else if sint x + sint y \<ge> 2 ^ 31 then sint x + sint y - 2 ^ 32 else sint x + sint y)"
proof -
  have b: "- (2 ^ 31) \<le> sint x" "sint x < 2 ^ 31" "- (2 ^ 31) \<le> sint y" "sint y < 2 ^ 31"
    using sint_greater_eq[of x] sint_less[of x] sint_greater_eq[of y] sint_less[of y] by simp_all
  have "sint (x + y) = (sint x + sint y + 2 ^ 31) mod 2 ^ 32 - 2 ^ 31"
    by (simp add: sint_word_ariths signed_take_bit_eq_take_bit_shift take_bit_eq_mod)
  moreover have "(sint x + sint y + 2 ^ 31) mod 2 ^ 32 = sint x + sint y + 2 ^ 31 + 2 ^ 32"
    if "sint x + sint y < - (2 ^ 31)"
    using that b mod_add_self2[of "sint x + sint y + 2 ^ 31" "2 ^ 32"]
    by (simp add: mod_pos_pos_trivial)
  moreover have "(sint x + sint y + 2 ^ 31) mod 2 ^ 32 = sint x + sint y + 2 ^ 31 - 2 ^ 32"
    if "2 ^ 31 \<le> sint x + sint y"
    using that b minus_mod_self2[of "sint x + sint y + 2 ^ 31" "2 ^ 32"]
    by (simp add: mod_pos_pos_trivial)
  ultimately show ?thesis using b by (simp add: mod_pos_pos_trivial)
qed

lemma signed_overflow_bit:
  fixes x y :: u32
  shows "drop_bit 31 ((x XOR (x + y)) AND (y XOR (x + y))) AND 1 =
     (if - (2 ^ 31) \<le> sint x + sint y \<and> sint x + sint y < 2 ^ 31 then 0 else 1)"
proof -
  have b: "- (2 ^ 31) \<le> sint x" "sint x < 2 ^ 31" "- (2 ^ 31) \<le> sint y" "sint y < 2 ^ 31"
    using sint_greater_eq[of x] sint_less[of x] sint_greater_eq[of y] sint_less[of y] by simp_all
  then show ?thesis
    by (simp only: drop_bit_31_and_1 bit_and_iff bit_xor_iff) (auto simp: sign_bit_iff sint_add_wrap)
qed

lemma recompose_u32: "take_bit 16 p OR push_bit 16 (take_bit 16 (drop_bit 16 p)) = (p::u32)"
    by (rule bit_word_eqI) (auto simp: bit_norm)

lemma bit_mask_numerals:
  "bit (0xFF00::u32) n \<longleftrightarrow> 8 \<le> n \<and> n < 16"
  "bit (0xFFFE::u32) n \<longleftrightarrow> 1 \<le> n \<and> n < 16"
  "bit (0xFE::u32) n \<longleftrightarrow> 1 \<le> n \<and> n < 8"
proof -
  have "(0xFF00::u32) = push_bit 8 (mask 8)" "(0xFFFE::u32) = push_bit 1 (mask 15)" "(0xFE::u32) = push_bit 1 (mask 7)"
    by (simp_all add: mask_eq_exp_minus_1)
  then show "bit (0xFF00::u32) n \<longleftrightarrow> 8 \<le> n \<and> n < 16"
  "bit (0xFFFE::u32) n \<longleftrightarrow> 1 \<le> n \<and> n < 16"
  "bit (0xFE::u32) n \<longleftrightarrow> 1 \<le> n \<and> n < 8"
    by (auto simp only: bit_push_bit_iff bit_mask_iff possible_bit_word) simp_all
qed

lemma ucast_u8_norm: "(ucast (take_bit 8 v) :: u8) = ucast (v::u32)" 
 "(ucast (take_bit 8 (take_bit 16 v)) :: u8) = ucast (v::u32)" 
 "(ucast (take_bit 8 (drop_bit 8 (take_bit 16 v))) :: u8) = ucast (drop_bit 8 (v::u32))" 
 "(ucast (take_bit 16 v) :: u8) = ucast (v::u32)" 
 "(ucast (drop_bit 8 (take_bit 16 v)) :: u8) = ucast (drop_bit 8 (v::u32))" 
    by (rule byte_eqI; simp add: bit_norm)+

lemma unat_and_1: "unat ((w::u32) AND 1) < 2"
  using unat_take_bit_less[of 1 w] by (simp only: mask_simps power_one_right)


lemma ucast_u8_id: "(ucast (ucast (w AND 0xFF) :: u8) :: u32) = w AND 0xFF"  "(ucast (w AND 0xFF) :: u8) = ucast (w::u32)"
  "(ucast (ucast (b::u8) :: u32) :: u8) = b" "ucast (ucast (ucast (w::u32) :: u8) :: u32) = (ucast w :: u8)"
     apply (rule bit_word_eqI; simp add: mask_simps bit_norm)
    apply (rule byte_eqI; simp add: mask_simps bit_norm)+
  done

lemma sint_eq_int_unat:
  fixes w :: u32
  assumes "unat w < 2 ^ 31"
  shows "sint w = int (unat w)"
proof -
  have u: "uint w = int (unat w)" by (rule uint_nat)
  have "signed_take_bit 31 (int (unat w)) = int (unat w)"
  proof (rule signed_take_bit_int_eq_self)
    have "- (2 ^ 31) \<le> (0::int)" by simp
    then show "- (2 ^ 31) \<le> int (unat w)" by linarith
    show "int (unat w) < 2 ^ 31" using assms by (metis of_nat_less_iff of_nat_numeral of_nat_power)
  qed
  then show ?thesis unfolding sint_uint u by simp
qed

section \<open>Iterating a partial step\<close>

primrec steps :: "('a \<Rightarrow> 'a option) \<Rightarrow> nat \<Rightarrow> 'a \<Rightarrow> 'a option" where
  "steps f 0 x = Some x"
| "steps f (Suc n) x = Option.bind (f x) (steps f n)"

end
