(* ===== verification/RL78_CPU.thy ===== *)
theory RL78_CPU
  imports Prelude
begin

text \<open>The architectural state of the RL78 target (\<^verbatim>\<open>src/arch/rl78/cpu.h\<close>,
  \<^verbatim>\<open>src/arch/rl78/cpu_registers.c\<close>): the program status word kept as six 32-bit
  fields, four banks of eight byte registers, the control registers, and the
  guest memory seen through the \<^verbatim>\<open>*_phys\<close> accessors of \<^verbatim>\<open>src/exec.c\<close>.
  The invariant \<^verbatim>\<open>cpu_ok\<close> says that every field is inside its architectural
  width; every operation of the later theories is shown to keep it.\<close>

section \<open>Registers\<close>

datatype RL78ByteRegister = REG_X | REG_A | REG_C | REG_B | REG_E | REG_D | REG_L | REG_H

datatype RL78WordRegister = REG_AX | REG_BC | REG_DE | REG_HL

fun byte_reg_num :: "RL78ByteRegister \<Rightarrow> nat" where
  "byte_reg_num REG_X = 0"
| "byte_reg_num REG_A = 1"
| "byte_reg_num REG_C = 2"
| "byte_reg_num REG_B = 3"
| "byte_reg_num REG_E = 4"
| "byte_reg_num REG_D = 5"
| "byte_reg_num REG_L = 6"
| "byte_reg_num REG_H = 7"

fun word_reg_num :: "RL78WordRegister \<Rightarrow> nat" where
  "word_reg_num REG_AX = 0"
| "word_reg_num REG_BC = 1"
| "word_reg_num REG_DE = 2"
| "word_reg_num REG_HL = 3"

lemma byte_reg_num_less [simp]: "byte_reg_num r < 8"
  by (cases r) simp_all

lemma word_reg_num_less [simp]: "word_reg_num r < 4"
  by (cases r) simp_all

lemma byte_reg_num_inject [simp]: "byte_reg_num r = byte_reg_num r' \<longleftrightarrow> r = r'"
  by (cases r; cases r') simp_all

lemma word_reg_num_inject [simp]: "word_reg_num r = word_reg_num r' \<longleftrightarrow> r = r'"
  by (cases r; cases r') simp_all

section \<open>Processor state\<close>

record RL78PSW =
  psw_cy :: u32
  psw_isp :: u32
  psw_rbs :: u32
  psw_ac :: u32
  psw_z :: u32
  psw_ie :: u32

text \<open>\<^verbatim>\<open>irq_index\<close> and \<^verbatim>\<open>exception_index\<close> are C \<^verbatim>\<open>int32_t\<close>/\<^verbatim>\<open>int\<close>: the word is read
  with \<^verbatim>\<open>sint\<close>. The last four fields come from \<^verbatim>\<open>CPU_COMMON\<close>
  (\<^verbatim>\<open>src/include/cpu-defs.h\<close>). A register bank is a function of the bank number
  and the byte register number.\<close>

record CPUState =
  env_psw :: RL78PSW
  env_regs :: "nat \<Rightarrow> nat \<Rightarrow> u32"
  env_sp :: u32
  env_pc :: u32
  env_pmc :: u32
  env_mem :: u32
  env_es :: u32
  env_cs :: u32
  env_macr :: u32
  env_skip_en :: u32
  env_skip_req :: u32
  env_irq_index :: u32
  env_irq_priority :: u8
  env_exception_index :: u32
  env_interrupt_request :: u32
  env_exit_request :: u32
  env_wfi :: u32

definition REGISTER_BANK_NUM :: nat where "REGISTER_BANK_NUM = 4"

definition CPU_INTERRUPT_HARD :: u32 where "CPU_INTERRUPT_HARD = 2"

definition TB_FLAG_SKIP :: u32 where "TB_FLAG_SKIP = 1"

text \<open>The machine: the CPU, the guest memory as a byte map over 32-bit physical
  addresses, and the acknowledgements handed to the host through
  \<^verbatim>\<open>tlib_on_rl78_irq_ack\<close>, oldest first.\<close>

record machine =
  cpu :: CPUState
  ram :: "u32 \<Rightarrow> u8"
  irq_acks :: "u32 list"

section \<open>Program status word\<close>

definition rl78_cpu_pack_psw :: "RL78PSW \<Rightarrow> u8" where
  "rl78_cpu_pack_psw p = ucast (
     (psw_cy p AND 1) OR push_bit 1 (psw_isp p AND 3) OR push_bit 3 (psw_rbs p AND 1) OR
     push_bit 4 (psw_ac p AND 1) OR push_bit 5 (drop_bit 1 (psw_rbs p) AND 1) OR
     push_bit 6 (psw_z p AND 1) OR push_bit 7 (psw_ie p AND 1))"

definition rl78_cpu_unpack_psw :: "u8 \<Rightarrow> RL78PSW" where
  "rl78_cpu_unpack_psw b = (let v = (ucast b :: u32) in
     \<lparr>psw_cy = v AND 1,
      psw_isp = drop_bit 1 v AND 3,
      psw_rbs = (drop_bit 3 v AND 1) OR push_bit 1 (drop_bit 5 v AND 1),
      psw_ac = drop_bit 4 v AND 1,
      psw_z = drop_bit 6 v AND 1,
      psw_ie = drop_bit 7 v AND 1\<rparr>)"

definition psw_ok :: "RL78PSW \<Rightarrow> bool" where
  "psw_ok p \<longleftrightarrow> unat (psw_cy p) < 2 \<and> unat (psw_isp p) < 4 \<and> unat (psw_rbs p) < 4 \<and>
     unat (psw_ac p) < 2 \<and> unat (psw_z p) < 2 \<and> unat (psw_ie p) < 2"

lemma unpack_psw_ok [simp]: "psw_ok (rl78_cpu_unpack_psw b)"
  apply (unfold psw_ok_def rl78_cpu_unpack_psw_def Let_def RL78PSW.simps)
  apply (intro conjI)
       apply (rule unat_less_bits[where n=1, simplified] unat_less_bits[where n=2, simplified];
              simp only: bit_norm; auto)+
  done

lemma pack_unpack_psw [simp]: "rl78_cpu_pack_psw (rl78_cpu_unpack_psw b) = b"
  apply (rule byte_eqI)
  apply (unfold all_less_8)
  apply (intro conjI)
         apply (unfold rl78_cpu_pack_psw_def rl78_cpu_unpack_psw_def Let_def RL78PSW.simps)
         apply (simp_all add: bit_norm numeral_2_eq_2 del: push_bit_Suc)
  done

lemma unpack_pack_psw [simp]:
  assumes "psw_ok p"
  shows "rl78_cpu_unpack_psw (rl78_cpu_pack_psw p) = p"
  using assms
  apply (intro RL78PSW.equality)
        apply (unfold psw_ok_def rl78_cpu_pack_psw_def rl78_cpu_unpack_psw_def Let_def RL78PSW.simps)
        apply (elim conjE, erule word_eqI_1 word_eqI_2; simp only: bit_norm; (simp; fail | force))+
  apply simp
  done

section \<open>Errors and results\<close>

text \<open>\<^verbatim>\<open>tlib_abortf\<close> does not return; the operations that can reach it return the
  reason on the left of a sum.\<close>

datatype tlib_error =
    Abort_undefined_register int
  | Abort_unaligned u32

section \<open>Guest memory\<close>

definition ldub_phys :: "machine \<Rightarrow> u32 \<Rightarrow> u32" where
  "ldub_phys m addr = ucast (ram m addr)"

definition stb_phys :: "machine \<Rightarrow> u32 \<Rightarrow> u32 \<Rightarrow> machine" where
  "stb_phys m addr val = m\<lparr>ram := (ram m)(addr := ucast val)\<rparr>"

definition lduw_phys :: "machine \<Rightarrow> u32 \<Rightarrow> tlib_error + u32" where
  "lduw_phys m addr =
     (if addr mod 2 \<noteq> 0 then Inl (Abort_unaligned addr)
      else Inr (ldub_phys m addr OR push_bit 8 (ldub_phys m (addr + 1))))"

lemma stb_phys_simps [simp]:
  "cpu (stb_phys m a v) = cpu m"
  "irq_acks (stb_phys m a v) = irq_acks m"
  "ram (stb_phys m a v) = (ram m)(a := ucast v)"
  by (simp_all add: stb_phys_def)

section \<open>Invariant\<close>

definition cpu_ok :: "CPUState \<Rightarrow> bool" where
  "cpu_ok c \<longleftrightarrow> psw_ok (env_psw c) \<and> (\<forall>b<REGISTER_BANK_NUM. \<forall>r<8. unat (env_regs c b r) < 256) \<and>
     unat (env_es c) < 256 \<and> unat (env_cs c) < 16"

lemma cpu_okD:
  assumes "cpu_ok c"
  shows "psw_ok (env_psw c)" "unat (env_es c) < 256" "unat (env_cs c) < 16"
    "b < 4 \<Longrightarrow> r < 8 \<Longrightarrow> unat (env_regs c b r) < 256"
    "unat (psw_rbs (env_psw c)) < 4"
  using assms by (auto simp: cpu_ok_def REGISTER_BANK_NUM_def psw_ok_def)

section \<open>Translation-block state and scheduling predicate\<close>

definition cpu_mmu_index :: "CPUState \<Rightarrow> int" where
  "cpu_mmu_index env = 0"

text \<open>The triple (pc, cs\_base, flags) that selects a translation block.\<close>

definition cpu_get_tb_cpu_state :: "CPUState \<Rightarrow> u32 \<times> u32 \<times> u32" where
  "cpu_get_tb_cpu_state env =
     (env_pc env, 0, if env_skip_en env \<noteq> 0 then TB_FLAG_SKIP else 0)"

definition cpu_has_work :: "CPUState \<Rightarrow> bool \<times> CPUState" where
  "cpu_has_work env =
     (let env = (if env_interrupt_request env AND CPU_INTERRUPT_HARD \<noteq> 0
                 then env\<lparr>env_wfi := 0\<rparr> else env)
      in (env_wfi env = 0, env))"

definition cpu_pc_from_tb :: "CPUState \<Rightarrow> u32 \<Rightarrow> CPUState" where
  "cpu_pc_from_tb env tb_pc = env\<lparr>env_pc := tb_pc\<rparr>"

section \<open>Register interface of the host\<close>

text \<open>A 32-bit field of \<^verbatim>\<open>CPUState\<close>. \<^verbatim>\<open>get_reg_pointer_32\<close> returns the address of one, or
  \<^verbatim>\<open>NULL\<close>; the translator reaches them by their offset. A bank number of 4 or more
  can only come from a host that writes PSW\_RBS.\<close>

datatype reg_ref = Ref_bank nat nat | Ref_pc | Ref_sp | Ref_es | Ref_cs
  | Ref_cy | Ref_isp | Ref_rbs | Ref_ac | Ref_z | Ref_ie
  | Ref_pmc | Ref_mem | Ref_macr | Ref_skip_en | Ref_skip_req

text \<open>Byte offset of a field in \<^verbatim>\<open>struct CPUState\<close>, and the field at an offset: six words of
  PSW, the 4 x 8 register words, then the control and segment registers. The generated code and the register interface of the host
  reach the fields through them.\<close>

definition ENV_REGS_OFFSET :: nat where "ENV_REGS_OFFSET = 24"

fun ref_offset :: "reg_ref \<Rightarrow> nat" where
  "ref_offset Ref_cy = 0"
| "ref_offset Ref_isp = 4"
| "ref_offset Ref_rbs = 8"
| "ref_offset Ref_ac = 12"
| "ref_offset Ref_z = 16"
| "ref_offset Ref_ie = 20"
| "ref_offset (Ref_bank b r) = ENV_REGS_OFFSET + b * 32 + r * 4"
| "ref_offset Ref_sp = 152"
| "ref_offset Ref_pc = 156"
| "ref_offset Ref_pmc = 160"
| "ref_offset Ref_mem = 164"
| "ref_offset Ref_es = 168"
| "ref_offset Ref_cs = 172"
| "ref_offset Ref_macr = 176"
| "ref_offset Ref_skip_en = 180"
| "ref_offset Ref_skip_req = 184"

definition ref_at :: "nat \<Rightarrow> reg_ref option" where
  "ref_at off =
     (if off mod 4 \<noteq> 0 \<or> 184 < off then None
      else if off < 24 then Some ([Ref_cy, Ref_isp, Ref_rbs, Ref_ac, Ref_z, Ref_ie] ! (off div 4))
      else if off < 152 then Some (Ref_bank ((off - 24) div 32) ((off - 24) mod 32 div 4))
      else Some ([Ref_sp, Ref_pc, Ref_pmc, Ref_mem, Ref_es, Ref_cs, Ref_macr, Ref_skip_en,
                  Ref_skip_req] ! ((off - 152) div 4)))"

lemma ref_at_bank:
  assumes "b < 4" "r < 8"
  shows "ref_at (24 + b * 32 + r * 4) = Some (Ref_bank b r)"
proof -
  have "b \<in> {0,1,2,3}" "r \<in> {0,1,2,3,4,5,6,7}" using assms by auto
  then show ?thesis by (auto simp: ref_at_def)
qed

lemma ref_at_offset:
  assumes "\<And>b r. p = Ref_bank b r \<Longrightarrow> b < 4 \<and> r < 8"
  shows "ref_at (ref_offset p) = Some p"
proof (cases p)
  case (Ref_bank b r)
  then show ?thesis using assms ref_at_bank by (simp add: ENV_REGS_OFFSET_def)
qed (simp_all add: ref_at_def)

text \<open>\<^verbatim>\<open>&cpu->regs[rbs][r]\<close>: with a bank selector below 4 a register of that bank, beyond it
  whatever field lies there (bank 4 starts at SP), and past the last field a word of the rest of the structure.\<close>

definition bank_pointer :: "nat \<Rightarrow> nat \<Rightarrow> reg_ref" where
  "bank_pointer b r = (case ref_at (ENV_REGS_OFFSET + b * 32 + r * 4) of Some f \<Rightarrow> f | None \<Rightarrow> Ref_bank b r)"

lemma bank_pointer_in [simp]: "b < 4 \<Longrightarrow> r < 8 \<Longrightarrow> bank_pointer b r = Ref_bank b r"
  by (simp add: bank_pointer_def ENV_REGS_OFFSET_def ref_at_bank)

lemma bank_pointer_aliases: "bank_pointer 4 0 = Ref_sp"
  by (simp add: bank_pointer_def ENV_REGS_OFFSET_def ref_at_def)

definition get_reg_pointer_32 :: "CPUState \<Rightarrow> int \<Rightarrow> reg_ref option" where
  "get_reg_pointer_32 env reg =
     (if 0 \<le> reg \<and> reg \<le> 7 then Some (bank_pointer (unat (psw_rbs (env_psw env))) (nat reg))
      else if reg = 8 then Some Ref_pc
      else if reg = 9 then Some Ref_sp
      else if reg = 10 then Some Ref_es
      else if reg = 11 then Some Ref_cs
      else if reg = 12 then Some Ref_cy
      else if reg = 13 then Some Ref_isp
      else if reg = 14 then Some Ref_rbs
      else if reg = 15 then Some Ref_ac
      else if reg = 16 then Some Ref_z
      else if reg = 17 then Some Ref_ie
      else None)"

fun read_ref :: "CPUState \<Rightarrow> reg_ref \<Rightarrow> u32" where
  "read_ref env (Ref_bank b r) = env_regs env b r"
| "read_ref env Ref_pc = env_pc env"
| "read_ref env Ref_sp = env_sp env"
| "read_ref env Ref_es = env_es env"
| "read_ref env Ref_cs = env_cs env"
| "read_ref env Ref_cy = psw_cy (env_psw env)"
| "read_ref env Ref_isp = psw_isp (env_psw env)"
| "read_ref env Ref_rbs = psw_rbs (env_psw env)"
| "read_ref env Ref_ac = psw_ac (env_psw env)"
| "read_ref env Ref_z = psw_z (env_psw env)"
| "read_ref env Ref_ie = psw_ie (env_psw env)"
| "read_ref env Ref_pmc = env_pmc env"
| "read_ref env Ref_mem = env_mem env"
| "read_ref env Ref_macr = env_macr env"
| "read_ref env Ref_skip_en = env_skip_en env"
| "read_ref env Ref_skip_req = env_skip_req env"

definition set_reg :: "nat \<Rightarrow> nat \<Rightarrow> u32 \<Rightarrow> CPUState \<Rightarrow> CPUState" where
  "set_reg b r v env = env\<lparr>env_regs := (env_regs env)(b := (env_regs env b)(r := v))\<rparr>"

fun write_ref :: "reg_ref \<Rightarrow> u32 \<Rightarrow> CPUState \<Rightarrow> CPUState" where
  "write_ref (Ref_bank b r) v env = set_reg b r v env"
| "write_ref Ref_pc v env = env\<lparr>env_pc := v\<rparr>"
| "write_ref Ref_sp v env = env\<lparr>env_sp := v\<rparr>"
| "write_ref Ref_es v env = env\<lparr>env_es := v\<rparr>"
| "write_ref Ref_cs v env = env\<lparr>env_cs := v\<rparr>"
| "write_ref Ref_cy v env = env\<lparr>env_psw := (env_psw env)\<lparr>psw_cy := v\<rparr>\<rparr>"
| "write_ref Ref_isp v env = env\<lparr>env_psw := (env_psw env)\<lparr>psw_isp := v\<rparr>\<rparr>"
| "write_ref Ref_rbs v env = env\<lparr>env_psw := (env_psw env)\<lparr>psw_rbs := v\<rparr>\<rparr>"
| "write_ref Ref_ac v env = env\<lparr>env_psw := (env_psw env)\<lparr>psw_ac := v\<rparr>\<rparr>"
| "write_ref Ref_z v env = env\<lparr>env_psw := (env_psw env)\<lparr>psw_z := v\<rparr>\<rparr>"
| "write_ref Ref_ie v env = env\<lparr>env_psw := (env_psw env)\<lparr>psw_ie := v\<rparr>\<rparr>"
| "write_ref Ref_pmc v env = env\<lparr>env_pmc := v\<rparr>"
| "write_ref Ref_mem v env = env\<lparr>env_mem := v\<rparr>"
| "write_ref Ref_macr v env = env\<lparr>env_macr := v\<rparr>"
| "write_ref Ref_skip_en v env = env\<lparr>env_skip_en := v\<rparr>"
| "write_ref Ref_skip_req v env = env\<lparr>env_skip_req := v\<rparr>"

definition tlib_get_register_value_32 :: "CPUState \<Rightarrow> int \<Rightarrow> tlib_error + u32" where
  "tlib_get_register_value_32 env reg =
     (case get_reg_pointer_32 env reg of
        None \<Rightarrow> Inl (Abort_undefined_register reg)
      | Some p \<Rightarrow> Inr (read_ref env p))"

definition tlib_set_register_value_32 :: "CPUState \<Rightarrow> int \<Rightarrow> u32 \<Rightarrow> tlib_error + CPUState" where
  "tlib_set_register_value_32 env reg v =
     (case get_reg_pointer_32 env reg of
        None \<Rightarrow> Inl (Abort_undefined_register reg)
      | Some p \<Rightarrow> Inr (write_ref p v env))"

lemma read_write_ref [simp]: "read_ref (write_ref p v env) p = v"
  by (cases p) (simp_all add: set_reg_def)

lemma read_write_ref_other:
  assumes "p \<noteq> q"
  shows "read_ref (write_ref p v env) q = read_ref env q"
  using assms by (cases p; cases q) (simp_all add: set_reg_def, auto)

lemma set_reg_simps [simp]:
  "env_psw (set_reg b r v c) = env_psw c" "env_sp (set_reg b r v c) = env_sp c"
  "env_pc (set_reg b r v c) = env_pc c" "env_es (set_reg b r v c) = env_es c"
  "env_cs (set_reg b r v c) = env_cs c" "env_skip_en (set_reg b r v c) = env_skip_en c"
  "env_skip_req (set_reg b r v c) = env_skip_req c"
  "env_regs (set_reg b r v c) b' r' = (if b' = b \<and> r' = r then v else env_regs c b' r')"
  by (simp_all add: set_reg_def)

text \<open>A write through the host interface to any register but the bank selector is
  read back, and leaves every other register number as it was, as long as the selected bank exists.\<close>

lemma register_roundtrip:
  assumes "tlib_set_register_value_32 env reg v = Inr env'"
    and "reg \<noteq> 14" "unat (psw_rbs (env_psw env)) < REGISTER_BANK_NUM"
  shows "tlib_get_register_value_32 env' reg = Inr v"
    and "reg' \<noteq> reg \<Longrightarrow> tlib_get_register_value_32 env' reg' = tlib_get_register_value_32 env reg'"
proof -
  have b: "bank_pointer (unat (psw_rbs (env_psw env))) (nat k) = Ref_bank (unat (psw_rbs (env_psw env))) (nat k)" if "0 \<le> k" "k \<le> 7" for k
    using assms(3) that by (simp add: REGISTER_BANK_NUM_def)
  obtain p where p: "get_reg_pointer_32 env reg = Some p" and env': "env' = write_ref p v env"
    using assms(1) by (auto simp: tlib_set_register_value_32_def split: option.splits)
  have same: "get_reg_pointer_32 (write_ref p v env) k = get_reg_pointer_32 env k" for k
    using p assms(2) by (cases p) (auto simp: get_reg_pointer_32_def b split: if_splits)
  show "tlib_get_register_value_32 env' reg = Inr v"
    using p by (simp add: tlib_get_register_value_32_def same env')
  show "tlib_get_register_value_32 env' reg' = tlib_get_register_value_32 env reg'" if "reg' \<noteq> reg"
  proof (cases "get_reg_pointer_32 env reg'")
    case (Some q)
    have "p \<noteq> q" using that p Some by (auto simp: get_reg_pointer_32_def b split: if_splits)
    then show ?thesis
      using Some same[of reg'] by (simp add: tlib_get_register_value_32_def env' read_write_ref_other)
  qed (use same[of reg'] in \<open>simp add: tlib_get_register_value_32_def env'\<close>)
qed

end
