(* ===== verification/RL78_Insn.thy ===== *)
theory RL78_Insn
  imports RL78_CPU
begin

text \<open>The instruction representation of \<^verbatim>\<open>src/arch/rl78/decode.h\<close>: mnemonics, the
  operand as a tagged union, and an instruction as a mnemonic with two operands.
  A constructor of \<^verbatim>\<open>RL78Operand\<close> is an operand kind together with the union member
  that kind uses.\<close>

datatype RL78Mnemonic =
    INSN_MOV | INSN_XCH | INSN_ONEB | INSN_CLRB | INSN_MOVW | INSN_XCHW
  | INSN_ONEW | INSN_CLRW | INSN_ADD | INSN_ADDC | INSN_SUB | INSN_SUBC
  | INSN_AND | INSN_OR | INSN_XOR | INSN_CMP | INSN_CMP0 | INSN_CMPS
  | INSN_MOVS | INSN_ADDW | INSN_SUBW | INSN_CMPW | INSN_MULU | INSN_INC
  | INSN_DEC | INSN_INCW | INSN_DECW | INSN_SHR | INSN_SHRW | INSN_SHL
  | INSN_SHLW | INSN_SAR | INSN_SARW | INSN_ROR | INSN_ROL | INSN_RORC
  | INSN_ROLC | INSN_ROLWC | INSN_MOV1 | INSN_AND1 | INSN_OR1 | INSN_XOR1
  | INSN_SET1 | INSN_CLR1 | INSN_NOT1 | INSN_CALL | INSN_CALLT | INSN_BRK
  | INSN_RET | INSN_RETI | INSN_RETB | INSN_PUSH | INSN_POP | INSN_BR
  | INSN_BC | INSN_BNC | INSN_BZ | INSN_BNZ | INSN_BH | INSN_BNH
  | INSN_BT | INSN_BF | INSN_BTCLR | INSN_SKC | INSN_SKNC | INSN_SKZ
  | INSN_SKNZ | INSN_SKH | INSN_SKNH | INSN_SEL | INSN_NOP | INSN_HALT
  | INSN_STOP | INSN_UNKNOWN

datatype RL78BitOpKind =
    BITOP_SADDR | BITOP_SFR | BITOP_REG_A | BITOP_ABS16 | BITOP_IND_HL | BITOP_CY

fun bitop_kind_num :: "RL78BitOpKind \<Rightarrow> u32" where
  "bitop_kind_num BITOP_SADDR = 0"
| "bitop_kind_num BITOP_SFR = 1"
| "bitop_kind_num BITOP_REG_A = 2"
| "bitop_kind_num BITOP_ABS16 = 3"
| "bitop_kind_num BITOP_IND_HL = 4"
| "bitop_kind_num BITOP_CY = 5"

record RL78OperandBit =
  bit_kind :: RL78BitOpKind
  bit_bit :: u32
  bit_addr :: u32

datatype RL78Operand =
    OP_NONE
  | OP_BYTE_REG RL78ByteRegister
  | OP_WORD_REG RL78WordRegister
  | OP_PSW
  | OP_SP
  | OP_ES
  | OP_CY
  | OP_BIT RL78OperandBit
  | OP_IMM8 u32
  | OP_IMM16 u32
  | OP_ABS16 u32
  | OP_ABS20 u32
  | OP_SADDR u32
  | OP_SFR u32
  | OP_IND_REG_REG RL78WordRegister RL78ByteRegister
  | OP_IND_REG_IMM RL78WordRegister u32
  | OP_IND_REG RL78WordRegister
  | OP_IND_SP_IMM u32
  | OP_IND_BASE_BYTE u32 RL78ByteRegister
  | OP_IND_BASE_WORD u32 RL78WordRegister
  | OP_SHAMT u32
  | OP_REL8 u32
  | OP_REL16 u32
  | OP_CALLT u32
  | OP_SEL_RB u32

record RL78Instruction =
  mnemonic :: RL78Mnemonic
  operand0 :: RL78Operand
  operand1 :: RL78Operand

end
