(* ===== verification/RL78_Decode_Tables.thy ===== *)
theory RL78_Decode_Tables
  imports RL78_Insn
begin

text \<open>The four opcode maps of \<^verbatim>\<open>src/arch/rl78/decode.c\<close>. Maps 1 and 2 are written out
  row by row (sixteen entries each, in opcode order); maps 3 and 4 are built from the
  same parameterised rows as the macros of the source.\<close>

abbreviation ENTRY :: "RL78Mnemonic \<Rightarrow> RL78Operand \<Rightarrow> RL78Operand \<Rightarrow> RL78Instruction" where
  "ENTRY insn op0 op1 \<equiv> \<lparr>mnemonic = insn, operand0 = op0, operand1 = op1\<rparr>"

abbreviation BIT_OP :: "RL78BitOpKind \<Rightarrow> u32 \<Rightarrow> RL78Operand" where
  "BIT_OP k b \<equiv> OP_BIT \<lparr>bit_kind = k, bit_bit = b, bit_addr = 0\<rparr>"

section \<open>Map 1\<close>

definition map1_row_0 :: "RL78Instruction list" where
  "map1_row_0 = [
    ENTRY INSN_NOP OP_NONE OP_NONE,
    ENTRY INSN_ADDW (OP_WORD_REG REG_AX) (OP_WORD_REG REG_AX),
    ENTRY INSN_ADDW (OP_WORD_REG REG_AX) (OP_ABS16 0),
    ENTRY INSN_ADDW (OP_WORD_REG REG_AX) (OP_WORD_REG REG_BC),
    ENTRY INSN_ADDW (OP_WORD_REG REG_AX) (OP_IMM16 0),
    ENTRY INSN_ADDW (OP_WORD_REG REG_AX) (OP_WORD_REG REG_DE),
    ENTRY INSN_ADDW (OP_WORD_REG REG_AX) (OP_SADDR 0),
    ENTRY INSN_ADDW (OP_WORD_REG REG_AX) (OP_WORD_REG REG_HL),
    ENTRY INSN_XCH (OP_BYTE_REG REG_A) (OP_BYTE_REG REG_X),
    ENTRY INSN_MOV (OP_BYTE_REG REG_A) (OP_IND_BASE_BYTE 0 REG_B),
    ENTRY INSN_ADD (OP_SADDR 0) (OP_IMM8 0),
    ENTRY INSN_ADD (OP_BYTE_REG REG_A) (OP_SADDR 0),
    ENTRY INSN_ADD (OP_BYTE_REG REG_A) (OP_IMM8 0),
    ENTRY INSN_ADD (OP_BYTE_REG REG_A) (OP_IND_REG REG_HL),
    ENTRY INSN_ADD (OP_BYTE_REG REG_A) (OP_IND_REG_IMM REG_HL 0),
    ENTRY INSN_ADD (OP_BYTE_REG REG_A) (OP_ABS16 0)]"

definition map1_row_1 :: "RL78Instruction list" where
  "map1_row_1 = [
    ENTRY INSN_ADDW OP_SP (OP_IMM8 0),
    ENTRY INSN_UNKNOWN OP_NONE OP_NONE,
    ENTRY INSN_MOVW (OP_WORD_REG REG_BC) (OP_WORD_REG REG_AX),
    ENTRY INSN_MOVW (OP_WORD_REG REG_AX) (OP_WORD_REG REG_BC),
    ENTRY INSN_MOVW (OP_WORD_REG REG_DE) (OP_WORD_REG REG_AX),
    ENTRY INSN_MOVW (OP_WORD_REG REG_AX) (OP_WORD_REG REG_DE),
    ENTRY INSN_MOVW (OP_WORD_REG REG_HL) (OP_WORD_REG REG_AX),
    ENTRY INSN_MOVW (OP_WORD_REG REG_AX) (OP_WORD_REG REG_HL),
    ENTRY INSN_MOV (OP_IND_BASE_BYTE 0 REG_B) (OP_BYTE_REG REG_A),
    ENTRY INSN_MOV (OP_IND_BASE_BYTE 0 REG_B) (OP_IMM8 0),
    ENTRY INSN_ADDC (OP_SADDR 0) (OP_IMM8 0),
    ENTRY INSN_ADDC (OP_BYTE_REG REG_A) (OP_SADDR 0),
    ENTRY INSN_ADDC (OP_BYTE_REG REG_A) (OP_IMM8 0),
    ENTRY INSN_ADDC (OP_BYTE_REG REG_A) (OP_IND_REG REG_HL),
    ENTRY INSN_ADDC (OP_BYTE_REG REG_A) (OP_IND_REG_IMM REG_HL 0),
    ENTRY INSN_ADDC (OP_BYTE_REG REG_A) (OP_ABS16 0)]"

definition map1_row_2 :: "RL78Instruction list" where
  "map1_row_2 = [
    ENTRY INSN_SUBW OP_SP (OP_IMM8 0),
    ENTRY INSN_UNKNOWN OP_NONE OP_NONE,
    ENTRY INSN_SUBW (OP_WORD_REG REG_AX) (OP_ABS16 0),
    ENTRY INSN_SUBW (OP_WORD_REG REG_AX) (OP_WORD_REG REG_BC),
    ENTRY INSN_SUBW (OP_WORD_REG REG_AX) (OP_IMM16 0),
    ENTRY INSN_SUBW (OP_WORD_REG REG_AX) (OP_WORD_REG REG_DE),
    ENTRY INSN_SUBW (OP_WORD_REG REG_AX) (OP_SADDR 0),
    ENTRY INSN_SUBW (OP_WORD_REG REG_AX) (OP_WORD_REG REG_HL),
    ENTRY INSN_MOV (OP_IND_BASE_BYTE 0 REG_C) (OP_BYTE_REG REG_A),
    ENTRY INSN_MOV (OP_BYTE_REG REG_A) (OP_IND_BASE_BYTE 0 REG_C),
    ENTRY INSN_SUB (OP_SADDR 0) (OP_IMM8 0),
    ENTRY INSN_SUB (OP_BYTE_REG REG_A) (OP_SADDR 0),
    ENTRY INSN_SUB (OP_BYTE_REG REG_A) (OP_IMM8 0),
    ENTRY INSN_SUB (OP_BYTE_REG REG_A) (OP_IND_REG REG_HL),
    ENTRY INSN_SUB (OP_BYTE_REG REG_A) (OP_IND_REG_IMM REG_HL 0),
    ENTRY INSN_SUB (OP_BYTE_REG REG_A) (OP_ABS16 0)]"

definition map1_row_3 :: "RL78Instruction list" where
  "map1_row_3 = [
    ENTRY INSN_MOVW (OP_WORD_REG REG_AX) (OP_IMM16 0),
    ENTRY INSN_UNKNOWN OP_NONE OP_NONE,
    ENTRY INSN_MOVW (OP_WORD_REG REG_BC) (OP_IMM16 0),
    ENTRY INSN_XCHW (OP_WORD_REG REG_AX) (OP_WORD_REG REG_BC),
    ENTRY INSN_MOVW (OP_WORD_REG REG_DE) (OP_IMM16 0),
    ENTRY INSN_XCHW (OP_WORD_REG REG_AX) (OP_WORD_REG REG_DE),
    ENTRY INSN_MOVW (OP_WORD_REG REG_HL) (OP_IMM16 0),
    ENTRY INSN_XCHW (OP_WORD_REG REG_AX) (OP_WORD_REG REG_HL),
    ENTRY INSN_MOV (OP_IND_BASE_BYTE 0 REG_C) (OP_IMM8 0),
    ENTRY INSN_MOV (OP_IND_BASE_WORD 0 REG_BC) (OP_IMM8 0),
    ENTRY INSN_SUBC (OP_SADDR 0) (OP_IMM8 0),
    ENTRY INSN_SUBC (OP_BYTE_REG REG_A) (OP_SADDR 0),
    ENTRY INSN_SUBC (OP_BYTE_REG REG_A) (OP_IMM8 0),
    ENTRY INSN_SUBC (OP_BYTE_REG REG_A) (OP_IND_REG REG_HL),
    ENTRY INSN_SUBC (OP_BYTE_REG REG_A) (OP_IND_REG_IMM REG_HL 0),
    ENTRY INSN_SUBC (OP_BYTE_REG REG_A) (OP_ABS16 0)]"

definition map1_row_4 :: "RL78Instruction list" where
  "map1_row_4 = [
    ENTRY INSN_CMP (OP_ABS16 0) (OP_IMM8 0),
    ENTRY INSN_MOV OP_ES (OP_IMM8 0),
    ENTRY INSN_CMPW (OP_WORD_REG REG_AX) (OP_ABS16 0),
    ENTRY INSN_CMPW (OP_WORD_REG REG_AX) (OP_WORD_REG REG_BC),
    ENTRY INSN_CMPW (OP_WORD_REG REG_AX) (OP_IMM16 0),
    ENTRY INSN_CMPW (OP_WORD_REG REG_AX) (OP_WORD_REG REG_DE),
    ENTRY INSN_CMPW (OP_WORD_REG REG_AX) (OP_SADDR 0),
    ENTRY INSN_CMPW (OP_WORD_REG REG_AX) (OP_WORD_REG REG_HL),
    ENTRY INSN_MOV (OP_IND_BASE_WORD 0 REG_BC) (OP_BYTE_REG REG_A),
    ENTRY INSN_MOV (OP_BYTE_REG REG_A) (OP_IND_BASE_WORD 0 REG_BC),
    ENTRY INSN_CMP (OP_SADDR 0) (OP_IMM8 0),
    ENTRY INSN_CMP (OP_BYTE_REG REG_A) (OP_SADDR 0),
    ENTRY INSN_CMP (OP_BYTE_REG REG_A) (OP_IMM8 0),
    ENTRY INSN_CMP (OP_BYTE_REG REG_A) (OP_IND_REG REG_HL),
    ENTRY INSN_CMP (OP_BYTE_REG REG_A) (OP_IND_REG_IMM REG_HL 0),
    ENTRY INSN_CMP (OP_BYTE_REG REG_A) (OP_ABS16 0)]"

definition map1_row_5 :: "RL78Instruction list" where
  "map1_row_5 = [
    ENTRY INSN_MOV (OP_BYTE_REG REG_X) (OP_IMM8 0),
    ENTRY INSN_MOV (OP_BYTE_REG REG_A) (OP_IMM8 0),
    ENTRY INSN_MOV (OP_BYTE_REG REG_C) (OP_IMM8 0),
    ENTRY INSN_MOV (OP_BYTE_REG REG_B) (OP_IMM8 0),
    ENTRY INSN_MOV (OP_BYTE_REG REG_E) (OP_IMM8 0),
    ENTRY INSN_MOV (OP_BYTE_REG REG_D) (OP_IMM8 0),
    ENTRY INSN_MOV (OP_BYTE_REG REG_L) (OP_IMM8 0),
    ENTRY INSN_MOV (OP_BYTE_REG REG_H) (OP_IMM8 0),
    ENTRY INSN_MOVW (OP_IND_BASE_BYTE 0 REG_B) (OP_WORD_REG REG_AX),
    ENTRY INSN_MOVW (OP_WORD_REG REG_AX) (OP_IND_BASE_BYTE 0 REG_B),
    ENTRY INSN_AND (OP_SADDR 0) (OP_IMM8 0),
    ENTRY INSN_AND (OP_BYTE_REG REG_A) (OP_SADDR 0),
    ENTRY INSN_AND (OP_BYTE_REG REG_A) (OP_IMM8 0),
    ENTRY INSN_AND (OP_BYTE_REG REG_A) (OP_IND_REG REG_HL),
    ENTRY INSN_AND (OP_BYTE_REG REG_A) (OP_IND_REG_IMM REG_HL 0),
    ENTRY INSN_AND (OP_BYTE_REG REG_A) (OP_ABS16 0)]"

definition map1_row_6 :: "RL78Instruction list" where
  "map1_row_6 = [
    ENTRY INSN_MOV (OP_BYTE_REG REG_A) (OP_BYTE_REG REG_X),
    ENTRY INSN_UNKNOWN OP_NONE OP_NONE,
    ENTRY INSN_MOV (OP_BYTE_REG REG_A) (OP_BYTE_REG REG_C),
    ENTRY INSN_MOV (OP_BYTE_REG REG_A) (OP_BYTE_REG REG_B),
    ENTRY INSN_MOV (OP_BYTE_REG REG_A) (OP_BYTE_REG REG_E),
    ENTRY INSN_MOV (OP_BYTE_REG REG_A) (OP_BYTE_REG REG_D),
    ENTRY INSN_MOV (OP_BYTE_REG REG_A) (OP_BYTE_REG REG_L),
    ENTRY INSN_MOV (OP_BYTE_REG REG_A) (OP_BYTE_REG REG_H),
    ENTRY INSN_MOVW (OP_IND_BASE_BYTE 0 REG_C) (OP_WORD_REG REG_AX),
    ENTRY INSN_MOVW (OP_WORD_REG REG_AX) (OP_IND_BASE_BYTE 0 REG_C),
    ENTRY INSN_OR (OP_SADDR 0) (OP_IMM8 0),
    ENTRY INSN_OR (OP_BYTE_REG REG_A) (OP_SADDR 0),
    ENTRY INSN_OR (OP_BYTE_REG REG_A) (OP_IMM8 0),
    ENTRY INSN_OR (OP_BYTE_REG REG_A) (OP_IND_REG REG_HL),
    ENTRY INSN_OR (OP_BYTE_REG REG_A) (OP_IND_REG_IMM REG_HL 0),
    ENTRY INSN_OR (OP_BYTE_REG REG_A) (OP_ABS16 0)]"

definition map1_row_7 :: "RL78Instruction list" where
  "map1_row_7 = [
    ENTRY INSN_MOV (OP_BYTE_REG REG_X) (OP_BYTE_REG REG_A),
    ENTRY INSN_UNKNOWN OP_NONE OP_NONE,
    ENTRY INSN_MOV (OP_BYTE_REG REG_C) (OP_BYTE_REG REG_A),
    ENTRY INSN_MOV (OP_BYTE_REG REG_B) (OP_BYTE_REG REG_A),
    ENTRY INSN_MOV (OP_BYTE_REG REG_E) (OP_BYTE_REG REG_A),
    ENTRY INSN_MOV (OP_BYTE_REG REG_D) (OP_BYTE_REG REG_A),
    ENTRY INSN_MOV (OP_BYTE_REG REG_L) (OP_BYTE_REG REG_A),
    ENTRY INSN_MOV (OP_BYTE_REG REG_H) (OP_BYTE_REG REG_A),
    ENTRY INSN_MOVW (OP_IND_BASE_WORD 0 REG_BC) (OP_WORD_REG REG_AX),
    ENTRY INSN_MOVW (OP_WORD_REG REG_AX) (OP_IND_BASE_WORD 0 REG_BC),
    ENTRY INSN_XOR (OP_SADDR 0) (OP_IMM8 0),
    ENTRY INSN_XOR (OP_BYTE_REG REG_A) (OP_SADDR 0),
    ENTRY INSN_XOR (OP_BYTE_REG REG_A) (OP_IMM8 0),
    ENTRY INSN_XOR (OP_BYTE_REG REG_A) (OP_IND_REG REG_HL),
    ENTRY INSN_XOR (OP_BYTE_REG REG_A) (OP_IND_REG_IMM REG_HL 0),
    ENTRY INSN_XOR (OP_BYTE_REG REG_A) (OP_ABS16 0)]"

definition map1_row_8 :: "RL78Instruction list" where
  "map1_row_8 = [
    ENTRY INSN_INC (OP_BYTE_REG REG_X) OP_NONE,
    ENTRY INSN_INC (OP_BYTE_REG REG_A) OP_NONE,
    ENTRY INSN_INC (OP_BYTE_REG REG_C) OP_NONE,
    ENTRY INSN_INC (OP_BYTE_REG REG_B) OP_NONE,
    ENTRY INSN_INC (OP_BYTE_REG REG_E) OP_NONE,
    ENTRY INSN_INC (OP_BYTE_REG REG_D) OP_NONE,
    ENTRY INSN_INC (OP_BYTE_REG REG_L) OP_NONE,
    ENTRY INSN_INC (OP_BYTE_REG REG_H) OP_NONE,
    ENTRY INSN_MOV (OP_BYTE_REG REG_A) (OP_IND_SP_IMM 0),
    ENTRY INSN_MOV (OP_BYTE_REG REG_A) (OP_IND_REG REG_DE),
    ENTRY INSN_MOV (OP_BYTE_REG REG_A) (OP_IND_REG_IMM REG_DE 0),
    ENTRY INSN_MOV (OP_BYTE_REG REG_A) (OP_IND_REG REG_HL),
    ENTRY INSN_MOV (OP_BYTE_REG REG_A) (OP_IND_REG_IMM REG_HL 0),
    ENTRY INSN_MOV (OP_BYTE_REG REG_A) (OP_SADDR 0),
    ENTRY INSN_MOV (OP_BYTE_REG REG_A) (OP_SFR 0),
    ENTRY INSN_MOV (OP_BYTE_REG REG_A) (OP_ABS16 0)]"

definition map1_row_9 :: "RL78Instruction list" where
  "map1_row_9 = [
    ENTRY INSN_DEC (OP_BYTE_REG REG_X) OP_NONE,
    ENTRY INSN_DEC (OP_BYTE_REG REG_A) OP_NONE,
    ENTRY INSN_DEC (OP_BYTE_REG REG_C) OP_NONE,
    ENTRY INSN_DEC (OP_BYTE_REG REG_B) OP_NONE,
    ENTRY INSN_DEC (OP_BYTE_REG REG_E) OP_NONE,
    ENTRY INSN_DEC (OP_BYTE_REG REG_D) OP_NONE,
    ENTRY INSN_DEC (OP_BYTE_REG REG_L) OP_NONE,
    ENTRY INSN_DEC (OP_BYTE_REG REG_H) OP_NONE,
    ENTRY INSN_MOV (OP_IND_SP_IMM 0) (OP_BYTE_REG REG_A),
    ENTRY INSN_MOV (OP_IND_REG REG_DE) (OP_BYTE_REG REG_A),
    ENTRY INSN_MOV (OP_IND_REG_IMM REG_DE 0) (OP_BYTE_REG REG_A),
    ENTRY INSN_MOV (OP_IND_REG REG_HL) (OP_BYTE_REG REG_A),
    ENTRY INSN_MOV (OP_IND_REG_IMM REG_HL 0) (OP_BYTE_REG REG_A),
    ENTRY INSN_MOV (OP_SADDR 0) (OP_BYTE_REG REG_A),
    ENTRY INSN_MOV (OP_SFR 0) (OP_BYTE_REG REG_A),
    ENTRY INSN_MOV (OP_ABS16 0) (OP_BYTE_REG REG_A)]"

definition map1_row_A :: "RL78Instruction list" where
  "map1_row_A = [
    ENTRY INSN_INCW (OP_ABS16 0) OP_NONE,
    ENTRY INSN_INCW (OP_WORD_REG REG_AX) OP_NONE,
    ENTRY INSN_INCW (OP_ABS16 0) OP_NONE,
    ENTRY INSN_INCW (OP_WORD_REG REG_BC) OP_NONE,
    ENTRY INSN_INC (OP_SADDR 0) OP_NONE,
    ENTRY INSN_INCW (OP_WORD_REG REG_DE) OP_NONE,
    ENTRY INSN_INCW (OP_SADDR 0) OP_NONE,
    ENTRY INSN_INCW (OP_WORD_REG REG_HL) OP_NONE,
    ENTRY INSN_MOVW (OP_WORD_REG REG_AX) (OP_IND_SP_IMM 0),
    ENTRY INSN_MOVW (OP_WORD_REG REG_AX) (OP_IND_REG REG_DE),
    ENTRY INSN_MOVW (OP_WORD_REG REG_AX) (OP_IND_REG_IMM REG_DE 0),
    ENTRY INSN_MOVW (OP_WORD_REG REG_AX) (OP_IND_REG REG_HL),
    ENTRY INSN_MOVW (OP_WORD_REG REG_AX) (OP_IND_REG_IMM REG_HL 0),
    ENTRY INSN_MOVW (OP_WORD_REG REG_AX) (OP_SADDR 0),
    ENTRY INSN_MOVW (OP_WORD_REG REG_AX) (OP_SFR 0),
    ENTRY INSN_MOVW (OP_WORD_REG REG_AX) (OP_ABS16 0)]"

definition map1_row_B :: "RL78Instruction list" where
  "map1_row_B = [
    ENTRY INSN_DECW (OP_ABS16 0) OP_NONE,
    ENTRY INSN_DECW (OP_WORD_REG REG_AX) OP_NONE,
    ENTRY INSN_DECW (OP_ABS16 0) OP_NONE,
    ENTRY INSN_DECW (OP_WORD_REG REG_BC) OP_NONE,
    ENTRY INSN_DEC (OP_SADDR 0) OP_NONE,
    ENTRY INSN_DECW (OP_WORD_REG REG_DE) OP_NONE,
    ENTRY INSN_DECW (OP_SADDR 0) OP_NONE,
    ENTRY INSN_DECW (OP_WORD_REG REG_HL) OP_NONE,
    ENTRY INSN_MOVW (OP_IND_SP_IMM 0) (OP_WORD_REG REG_AX),
    ENTRY INSN_MOVW (OP_IND_REG REG_DE) (OP_WORD_REG REG_AX),
    ENTRY INSN_MOVW (OP_IND_REG_IMM REG_DE 0) (OP_WORD_REG REG_AX),
    ENTRY INSN_MOVW (OP_IND_REG REG_HL) (OP_WORD_REG REG_AX),
    ENTRY INSN_MOVW (OP_IND_REG_IMM REG_HL 0) (OP_WORD_REG REG_AX),
    ENTRY INSN_MOVW (OP_SADDR 0) (OP_WORD_REG REG_AX),
    ENTRY INSN_MOVW (OP_SFR 0) (OP_WORD_REG REG_AX),
    ENTRY INSN_MOVW (OP_ABS16 0) (OP_WORD_REG REG_AX)]"

definition map1_row_C :: "RL78Instruction list" where
  "map1_row_C = [
    ENTRY INSN_POP (OP_WORD_REG REG_AX) OP_NONE,
    ENTRY INSN_PUSH (OP_WORD_REG REG_AX) OP_NONE,
    ENTRY INSN_POP (OP_WORD_REG REG_BC) OP_NONE,
    ENTRY INSN_PUSH (OP_WORD_REG REG_BC) OP_NONE,
    ENTRY INSN_POP (OP_WORD_REG REG_DE) OP_NONE,
    ENTRY INSN_PUSH (OP_WORD_REG REG_DE) OP_NONE,
    ENTRY INSN_POP (OP_WORD_REG REG_HL) OP_NONE,
    ENTRY INSN_PUSH (OP_WORD_REG REG_HL) OP_NONE,
    ENTRY INSN_MOV (OP_IND_SP_IMM 0) (OP_IMM8 0),
    ENTRY INSN_MOVW (OP_SADDR 0) (OP_IMM16 0),
    ENTRY INSN_MOV (OP_IND_REG_IMM REG_DE 0) (OP_IMM8 0),
    ENTRY INSN_MOVW (OP_SFR 0) (OP_IMM16 0),
    ENTRY INSN_MOV (OP_IND_REG_IMM REG_HL 0) (OP_IMM8 0),
    ENTRY INSN_MOV (OP_SADDR 0) (OP_IMM8 0),
    ENTRY INSN_MOV (OP_SFR 0) (OP_IMM8 0),
    ENTRY INSN_MOV (OP_ABS16 0) (OP_IMM8 0)]"

definition map1_row_D :: "RL78Instruction list" where
  "map1_row_D = [
    ENTRY INSN_CMP0 (OP_BYTE_REG REG_X) OP_NONE,
    ENTRY INSN_CMP0 (OP_BYTE_REG REG_A) OP_NONE,
    ENTRY INSN_CMP0 (OP_BYTE_REG REG_C) OP_NONE,
    ENTRY INSN_CMP0 (OP_BYTE_REG REG_B) OP_NONE,
    ENTRY INSN_CMP0 (OP_SADDR 0) OP_NONE,
    ENTRY INSN_CMP0 (OP_ABS16 0) OP_NONE,
    ENTRY INSN_MULU (OP_BYTE_REG REG_X) OP_NONE,
    ENTRY INSN_RET OP_NONE OP_NONE,
    ENTRY INSN_MOV (OP_BYTE_REG REG_X) (OP_SADDR 0),
    ENTRY INSN_MOV (OP_BYTE_REG REG_X) (OP_ABS16 0),
    ENTRY INSN_MOVW (OP_WORD_REG REG_BC) (OP_SADDR 0),
    ENTRY INSN_MOVW (OP_WORD_REG REG_BC) (OP_ABS16 0),
    ENTRY INSN_BC (OP_REL8 0) OP_NONE,
    ENTRY INSN_BZ (OP_REL8 0) OP_NONE,
    ENTRY INSN_BNC (OP_REL8 0) OP_NONE,
    ENTRY INSN_BNZ (OP_REL8 0) OP_NONE]"

definition map1_row_E :: "RL78Instruction list" where
  "map1_row_E = [
    ENTRY INSN_ONEB (OP_BYTE_REG REG_X) OP_NONE,
    ENTRY INSN_ONEB (OP_BYTE_REG REG_A) OP_NONE,
    ENTRY INSN_ONEB (OP_BYTE_REG REG_C) OP_NONE,
    ENTRY INSN_ONEB (OP_BYTE_REG REG_B) OP_NONE,
    ENTRY INSN_ONEB (OP_SADDR 0) OP_NONE,
    ENTRY INSN_ONEB (OP_ABS16 0) OP_NONE,
    ENTRY INSN_ONEW (OP_WORD_REG REG_AX) OP_NONE,
    ENTRY INSN_ONEW (OP_WORD_REG REG_BC) OP_NONE,
    ENTRY INSN_MOV (OP_BYTE_REG REG_B) (OP_SADDR 0),
    ENTRY INSN_MOV (OP_BYTE_REG REG_B) (OP_ABS16 0),
    ENTRY INSN_MOVW (OP_WORD_REG REG_DE) (OP_SADDR 0),
    ENTRY INSN_MOVW (OP_WORD_REG REG_DE) (OP_ABS16 0),
    ENTRY INSN_BR (OP_ABS20 0) OP_NONE,
    ENTRY INSN_BR (OP_ABS16 0) OP_NONE,
    ENTRY INSN_BR (OP_REL16 0) OP_NONE,
    ENTRY INSN_BR (OP_REL8 0) OP_NONE]"

definition map1_row_F :: "RL78Instruction list" where
  "map1_row_F = [
    ENTRY INSN_CLRB (OP_BYTE_REG REG_X) OP_NONE,
    ENTRY INSN_CLRB (OP_BYTE_REG REG_A) OP_NONE,
    ENTRY INSN_CLRB (OP_BYTE_REG REG_C) OP_NONE,
    ENTRY INSN_CLRB (OP_BYTE_REG REG_B) OP_NONE,
    ENTRY INSN_CLRB (OP_SADDR 0) OP_NONE,
    ENTRY INSN_CLRB (OP_ABS16 0) OP_NONE,
    ENTRY INSN_CLRW (OP_WORD_REG REG_AX) OP_NONE,
    ENTRY INSN_CLRW (OP_WORD_REG REG_BC) OP_NONE,
    ENTRY INSN_MOV (OP_BYTE_REG REG_C) (OP_SADDR 0),
    ENTRY INSN_MOV (OP_BYTE_REG REG_C) (OP_ABS16 0),
    ENTRY INSN_MOVW (OP_WORD_REG REG_HL) (OP_SADDR 0),
    ENTRY INSN_MOVW (OP_WORD_REG REG_HL) (OP_ABS16 0),
    ENTRY INSN_CALL (OP_ABS20 0) OP_NONE,
    ENTRY INSN_CALL (OP_ABS16 0) OP_NONE,
    ENTRY INSN_CALL (OP_REL16 0) OP_NONE,
    ENTRY INSN_UNKNOWN OP_NONE OP_NONE]"

lemmas map1_rows = map1_row_0_def map1_row_1_def map1_row_2_def map1_row_3_def map1_row_4_def map1_row_5_def map1_row_6_def map1_row_7_def
  map1_row_8_def map1_row_9_def map1_row_A_def map1_row_B_def map1_row_C_def map1_row_D_def map1_row_E_def map1_row_F_def

definition decode_table_1st_map :: "RL78Instruction list" where
  "decode_table_1st_map =
     map1_row_0 @ map1_row_1 @ map1_row_2 @ map1_row_3 @
     map1_row_4 @ map1_row_5 @ map1_row_6 @ map1_row_7 @
     map1_row_8 @ map1_row_9 @ map1_row_A @ map1_row_B @
     map1_row_C @ map1_row_D @ map1_row_E @ map1_row_F"

section \<open>Map 2\<close>

definition map2_row_0 :: "RL78Instruction list" where
  "map2_row_0 = [
    ENTRY INSN_ADD (OP_BYTE_REG REG_X) (OP_BYTE_REG REG_A),
    ENTRY INSN_ADD (OP_BYTE_REG REG_A) (OP_BYTE_REG REG_A),
    ENTRY INSN_ADD (OP_BYTE_REG REG_C) (OP_BYTE_REG REG_A),
    ENTRY INSN_ADD (OP_BYTE_REG REG_B) (OP_BYTE_REG REG_A),
    ENTRY INSN_ADD (OP_BYTE_REG REG_E) (OP_BYTE_REG REG_A),
    ENTRY INSN_ADD (OP_BYTE_REG REG_D) (OP_BYTE_REG REG_A),
    ENTRY INSN_ADD (OP_BYTE_REG REG_L) (OP_BYTE_REG REG_A),
    ENTRY INSN_ADD (OP_BYTE_REG REG_H) (OP_BYTE_REG REG_A),
    ENTRY INSN_ADD (OP_BYTE_REG REG_A) (OP_BYTE_REG REG_X),
    ENTRY INSN_ADDW (OP_WORD_REG REG_AX) (OP_IND_REG_IMM REG_HL 0),
    ENTRY INSN_ADD (OP_BYTE_REG REG_A) (OP_BYTE_REG REG_C),
    ENTRY INSN_ADD (OP_BYTE_REG REG_A) (OP_BYTE_REG REG_B),
    ENTRY INSN_ADD (OP_BYTE_REG REG_A) (OP_BYTE_REG REG_E),
    ENTRY INSN_ADD (OP_BYTE_REG REG_A) (OP_BYTE_REG REG_D),
    ENTRY INSN_ADD (OP_BYTE_REG REG_A) (OP_BYTE_REG REG_L),
    ENTRY INSN_ADD (OP_BYTE_REG REG_A) (OP_BYTE_REG REG_H)]"

definition map2_row_1 :: "RL78Instruction list" where
  "map2_row_1 = [
    ENTRY INSN_ADDC (OP_BYTE_REG REG_X) (OP_BYTE_REG REG_A),
    ENTRY INSN_ADDC (OP_BYTE_REG REG_A) (OP_BYTE_REG REG_A),
    ENTRY INSN_ADDC (OP_BYTE_REG REG_C) (OP_BYTE_REG REG_A),
    ENTRY INSN_ADDC (OP_BYTE_REG REG_B) (OP_BYTE_REG REG_A),
    ENTRY INSN_ADDC (OP_BYTE_REG REG_E) (OP_BYTE_REG REG_A),
    ENTRY INSN_ADDC (OP_BYTE_REG REG_D) (OP_BYTE_REG REG_A),
    ENTRY INSN_ADDC (OP_BYTE_REG REG_L) (OP_BYTE_REG REG_A),
    ENTRY INSN_ADDC (OP_BYTE_REG REG_H) (OP_BYTE_REG REG_A),
    ENTRY INSN_ADDC (OP_BYTE_REG REG_A) (OP_BYTE_REG REG_X),
    ENTRY INSN_UNKNOWN OP_NONE OP_NONE,
    ENTRY INSN_ADDC (OP_BYTE_REG REG_A) (OP_BYTE_REG REG_C),
    ENTRY INSN_ADDC (OP_BYTE_REG REG_A) (OP_BYTE_REG REG_B),
    ENTRY INSN_ADDC (OP_BYTE_REG REG_A) (OP_BYTE_REG REG_E),
    ENTRY INSN_ADDC (OP_BYTE_REG REG_A) (OP_BYTE_REG REG_D),
    ENTRY INSN_ADDC (OP_BYTE_REG REG_A) (OP_BYTE_REG REG_L),
    ENTRY INSN_ADDC (OP_BYTE_REG REG_A) (OP_BYTE_REG REG_H)]"

definition map2_row_2 :: "RL78Instruction list" where
  "map2_row_2 = [
    ENTRY INSN_SUB (OP_BYTE_REG REG_X) (OP_BYTE_REG REG_A),
    ENTRY INSN_SUB (OP_BYTE_REG REG_A) (OP_BYTE_REG REG_A),
    ENTRY INSN_SUB (OP_BYTE_REG REG_C) (OP_BYTE_REG REG_A),
    ENTRY INSN_SUB (OP_BYTE_REG REG_B) (OP_BYTE_REG REG_A),
    ENTRY INSN_SUB (OP_BYTE_REG REG_E) (OP_BYTE_REG REG_A),
    ENTRY INSN_SUB (OP_BYTE_REG REG_D) (OP_BYTE_REG REG_A),
    ENTRY INSN_SUB (OP_BYTE_REG REG_L) (OP_BYTE_REG REG_A),
    ENTRY INSN_SUB (OP_BYTE_REG REG_H) (OP_BYTE_REG REG_A),
    ENTRY INSN_SUB (OP_BYTE_REG REG_A) (OP_BYTE_REG REG_X),
    ENTRY INSN_SUBW (OP_WORD_REG REG_AX) (OP_IND_REG_IMM REG_HL 0),
    ENTRY INSN_SUB (OP_BYTE_REG REG_A) (OP_BYTE_REG REG_C),
    ENTRY INSN_SUB (OP_BYTE_REG REG_A) (OP_BYTE_REG REG_B),
    ENTRY INSN_SUB (OP_BYTE_REG REG_A) (OP_BYTE_REG REG_E),
    ENTRY INSN_SUB (OP_BYTE_REG REG_A) (OP_BYTE_REG REG_D),
    ENTRY INSN_SUB (OP_BYTE_REG REG_A) (OP_BYTE_REG REG_L),
    ENTRY INSN_SUB (OP_BYTE_REG REG_A) (OP_BYTE_REG REG_H)]"

definition map2_row_3 :: "RL78Instruction list" where
  "map2_row_3 = [
    ENTRY INSN_SUBC (OP_BYTE_REG REG_X) (OP_BYTE_REG REG_A),
    ENTRY INSN_SUBC (OP_BYTE_REG REG_A) (OP_BYTE_REG REG_A),
    ENTRY INSN_SUBC (OP_BYTE_REG REG_C) (OP_BYTE_REG REG_A),
    ENTRY INSN_SUBC (OP_BYTE_REG REG_B) (OP_BYTE_REG REG_A),
    ENTRY INSN_SUBC (OP_BYTE_REG REG_E) (OP_BYTE_REG REG_A),
    ENTRY INSN_SUBC (OP_BYTE_REG REG_D) (OP_BYTE_REG REG_A),
    ENTRY INSN_SUBC (OP_BYTE_REG REG_L) (OP_BYTE_REG REG_A),
    ENTRY INSN_SUBC (OP_BYTE_REG REG_H) (OP_BYTE_REG REG_A),
    ENTRY INSN_SUBC (OP_BYTE_REG REG_A) (OP_BYTE_REG REG_X),
    ENTRY INSN_UNKNOWN OP_NONE OP_NONE,
    ENTRY INSN_SUBC (OP_BYTE_REG REG_A) (OP_BYTE_REG REG_C),
    ENTRY INSN_SUBC (OP_BYTE_REG REG_A) (OP_BYTE_REG REG_B),
    ENTRY INSN_SUBC (OP_BYTE_REG REG_A) (OP_BYTE_REG REG_E),
    ENTRY INSN_SUBC (OP_BYTE_REG REG_A) (OP_BYTE_REG REG_D),
    ENTRY INSN_SUBC (OP_BYTE_REG REG_A) (OP_BYTE_REG REG_L),
    ENTRY INSN_SUBC (OP_BYTE_REG REG_A) (OP_BYTE_REG REG_H)]"

definition map2_row_4 :: "RL78Instruction list" where
  "map2_row_4 = [
    ENTRY INSN_CMP (OP_BYTE_REG REG_X) (OP_BYTE_REG REG_A),
    ENTRY INSN_CMP (OP_BYTE_REG REG_A) (OP_BYTE_REG REG_A),
    ENTRY INSN_CMP (OP_BYTE_REG REG_C) (OP_BYTE_REG REG_A),
    ENTRY INSN_CMP (OP_BYTE_REG REG_B) (OP_BYTE_REG REG_A),
    ENTRY INSN_CMP (OP_BYTE_REG REG_E) (OP_BYTE_REG REG_A),
    ENTRY INSN_CMP (OP_BYTE_REG REG_D) (OP_BYTE_REG REG_A),
    ENTRY INSN_CMP (OP_BYTE_REG REG_L) (OP_BYTE_REG REG_A),
    ENTRY INSN_CMP (OP_BYTE_REG REG_H) (OP_BYTE_REG REG_A),
    ENTRY INSN_CMP (OP_BYTE_REG REG_A) (OP_BYTE_REG REG_X),
    ENTRY INSN_CMPW (OP_WORD_REG REG_AX) (OP_IND_REG_IMM REG_HL 0),
    ENTRY INSN_CMP (OP_BYTE_REG REG_A) (OP_BYTE_REG REG_C),
    ENTRY INSN_CMP (OP_BYTE_REG REG_A) (OP_BYTE_REG REG_B),
    ENTRY INSN_CMP (OP_BYTE_REG REG_A) (OP_BYTE_REG REG_E),
    ENTRY INSN_CMP (OP_BYTE_REG REG_A) (OP_BYTE_REG REG_D),
    ENTRY INSN_CMP (OP_BYTE_REG REG_A) (OP_BYTE_REG REG_L),
    ENTRY INSN_CMP (OP_BYTE_REG REG_A) (OP_BYTE_REG REG_H)]"

definition map2_row_5 :: "RL78Instruction list" where
  "map2_row_5 = [
    ENTRY INSN_AND (OP_BYTE_REG REG_X) (OP_BYTE_REG REG_A),
    ENTRY INSN_AND (OP_BYTE_REG REG_A) (OP_BYTE_REG REG_A),
    ENTRY INSN_AND (OP_BYTE_REG REG_C) (OP_BYTE_REG REG_A),
    ENTRY INSN_AND (OP_BYTE_REG REG_B) (OP_BYTE_REG REG_A),
    ENTRY INSN_AND (OP_BYTE_REG REG_E) (OP_BYTE_REG REG_A),
    ENTRY INSN_AND (OP_BYTE_REG REG_D) (OP_BYTE_REG REG_A),
    ENTRY INSN_AND (OP_BYTE_REG REG_L) (OP_BYTE_REG REG_A),
    ENTRY INSN_AND (OP_BYTE_REG REG_H) (OP_BYTE_REG REG_A),
    ENTRY INSN_AND (OP_BYTE_REG REG_A) (OP_BYTE_REG REG_X),
    ENTRY INSN_INC (OP_IND_REG_IMM REG_HL 0) OP_NONE,
    ENTRY INSN_AND (OP_BYTE_REG REG_A) (OP_BYTE_REG REG_C),
    ENTRY INSN_AND (OP_BYTE_REG REG_A) (OP_BYTE_REG REG_B),
    ENTRY INSN_AND (OP_BYTE_REG REG_A) (OP_BYTE_REG REG_E),
    ENTRY INSN_AND (OP_BYTE_REG REG_A) (OP_BYTE_REG REG_D),
    ENTRY INSN_AND (OP_BYTE_REG REG_A) (OP_BYTE_REG REG_L),
    ENTRY INSN_AND (OP_BYTE_REG REG_A) (OP_BYTE_REG REG_H)]"

definition map2_row_6 :: "RL78Instruction list" where
  "map2_row_6 = [
    ENTRY INSN_OR (OP_BYTE_REG REG_X) (OP_BYTE_REG REG_A),
    ENTRY INSN_OR (OP_BYTE_REG REG_A) (OP_BYTE_REG REG_A),
    ENTRY INSN_OR (OP_BYTE_REG REG_C) (OP_BYTE_REG REG_A),
    ENTRY INSN_OR (OP_BYTE_REG REG_B) (OP_BYTE_REG REG_A),
    ENTRY INSN_OR (OP_BYTE_REG REG_E) (OP_BYTE_REG REG_A),
    ENTRY INSN_OR (OP_BYTE_REG REG_D) (OP_BYTE_REG REG_A),
    ENTRY INSN_OR (OP_BYTE_REG REG_L) (OP_BYTE_REG REG_A),
    ENTRY INSN_OR (OP_BYTE_REG REG_H) (OP_BYTE_REG REG_A),
    ENTRY INSN_OR (OP_BYTE_REG REG_A) (OP_BYTE_REG REG_X),
    ENTRY INSN_DEC (OP_IND_REG_IMM REG_HL 0) OP_NONE,
    ENTRY INSN_OR (OP_BYTE_REG REG_A) (OP_BYTE_REG REG_C),
    ENTRY INSN_OR (OP_BYTE_REG REG_A) (OP_BYTE_REG REG_B),
    ENTRY INSN_OR (OP_BYTE_REG REG_A) (OP_BYTE_REG REG_E),
    ENTRY INSN_OR (OP_BYTE_REG REG_A) (OP_BYTE_REG REG_D),
    ENTRY INSN_OR (OP_BYTE_REG REG_A) (OP_BYTE_REG REG_L),
    ENTRY INSN_OR (OP_BYTE_REG REG_A) (OP_BYTE_REG REG_H)]"

definition map2_row_7 :: "RL78Instruction list" where
  "map2_row_7 = [
    ENTRY INSN_XOR (OP_BYTE_REG REG_X) (OP_BYTE_REG REG_A),
    ENTRY INSN_XOR (OP_BYTE_REG REG_A) (OP_BYTE_REG REG_A),
    ENTRY INSN_XOR (OP_BYTE_REG REG_C) (OP_BYTE_REG REG_A),
    ENTRY INSN_XOR (OP_BYTE_REG REG_B) (OP_BYTE_REG REG_A),
    ENTRY INSN_XOR (OP_BYTE_REG REG_E) (OP_BYTE_REG REG_A),
    ENTRY INSN_XOR (OP_BYTE_REG REG_D) (OP_BYTE_REG REG_A),
    ENTRY INSN_XOR (OP_BYTE_REG REG_L) (OP_BYTE_REG REG_A),
    ENTRY INSN_XOR (OP_BYTE_REG REG_H) (OP_BYTE_REG REG_A),
    ENTRY INSN_XOR (OP_BYTE_REG REG_A) (OP_BYTE_REG REG_X),
    ENTRY INSN_INCW (OP_IND_REG_IMM REG_HL 0) OP_NONE,
    ENTRY INSN_XOR (OP_BYTE_REG REG_A) (OP_BYTE_REG REG_C),
    ENTRY INSN_XOR (OP_BYTE_REG REG_A) (OP_BYTE_REG REG_B),
    ENTRY INSN_XOR (OP_BYTE_REG REG_A) (OP_BYTE_REG REG_E),
    ENTRY INSN_XOR (OP_BYTE_REG REG_A) (OP_BYTE_REG REG_D),
    ENTRY INSN_XOR (OP_BYTE_REG REG_A) (OP_BYTE_REG REG_L),
    ENTRY INSN_XOR (OP_BYTE_REG REG_A) (OP_BYTE_REG REG_H)]"

definition map2_row_8 :: "RL78Instruction list" where
  "map2_row_8 = [
    ENTRY INSN_ADD (OP_BYTE_REG REG_A) (OP_IND_REG_REG REG_HL REG_B),
    ENTRY INSN_UNKNOWN OP_NONE OP_NONE,
    ENTRY INSN_ADD (OP_BYTE_REG REG_A) (OP_IND_REG_REG REG_HL REG_C),
    ENTRY INSN_UNKNOWN OP_NONE OP_NONE,
    ENTRY INSN_CALLT (OP_CALLT 0x80) OP_NONE,
    ENTRY INSN_CALLT (OP_CALLT 0x90) OP_NONE,
    ENTRY INSN_CALLT (OP_CALLT 0xa0) OP_NONE,
    ENTRY INSN_CALLT (OP_CALLT 0xb0) OP_NONE,
    ENTRY INSN_UNKNOWN OP_NONE OP_NONE,
    ENTRY INSN_DECW (OP_IND_REG_IMM REG_HL 0) OP_NONE,
    ENTRY INSN_XCH (OP_BYTE_REG REG_A) (OP_BYTE_REG REG_C),
    ENTRY INSN_XCH (OP_BYTE_REG REG_A) (OP_BYTE_REG REG_B),
    ENTRY INSN_XCH (OP_BYTE_REG REG_A) (OP_BYTE_REG REG_E),
    ENTRY INSN_XCH (OP_BYTE_REG REG_A) (OP_BYTE_REG REG_D),
    ENTRY INSN_XCH (OP_BYTE_REG REG_A) (OP_BYTE_REG REG_L),
    ENTRY INSN_XCH (OP_BYTE_REG REG_A) (OP_BYTE_REG REG_H)]"

definition map2_row_9 :: "RL78Instruction list" where
  "map2_row_9 = [
    ENTRY INSN_ADDC (OP_BYTE_REG REG_A) (OP_IND_REG_REG REG_HL REG_B),
    ENTRY INSN_UNKNOWN OP_NONE OP_NONE,
    ENTRY INSN_ADDC (OP_BYTE_REG REG_A) (OP_IND_REG_REG REG_HL REG_C),
    ENTRY INSN_UNKNOWN OP_NONE OP_NONE,
    ENTRY INSN_CALLT (OP_CALLT 0x82) OP_NONE,
    ENTRY INSN_CALLT (OP_CALLT 0x92) OP_NONE,
    ENTRY INSN_CALLT (OP_CALLT 0xa2) OP_NONE,
    ENTRY INSN_CALLT (OP_CALLT 0xb2) OP_NONE,
    ENTRY INSN_UNKNOWN OP_NONE OP_NONE,
    ENTRY INSN_UNKNOWN OP_NONE OP_NONE,
    ENTRY INSN_UNKNOWN OP_NONE OP_NONE,
    ENTRY INSN_UNKNOWN OP_NONE OP_NONE,
    ENTRY INSN_UNKNOWN OP_NONE OP_NONE,
    ENTRY INSN_UNKNOWN OP_NONE OP_NONE,
    ENTRY INSN_UNKNOWN OP_NONE OP_NONE,
    ENTRY INSN_UNKNOWN OP_NONE OP_NONE]"

definition map2_row_A :: "RL78Instruction list" where
  "map2_row_A = [
    ENTRY INSN_SUB (OP_BYTE_REG REG_A) (OP_IND_REG_REG REG_HL REG_B),
    ENTRY INSN_UNKNOWN OP_NONE OP_NONE,
    ENTRY INSN_SUB (OP_BYTE_REG REG_A) (OP_IND_REG_REG REG_HL REG_C),
    ENTRY INSN_UNKNOWN OP_NONE OP_NONE,
    ENTRY INSN_CALLT (OP_CALLT 0x84) OP_NONE,
    ENTRY INSN_CALLT (OP_CALLT 0x94) OP_NONE,
    ENTRY INSN_CALLT (OP_CALLT 0xa4) OP_NONE,
    ENTRY INSN_CALLT (OP_CALLT 0xb4) OP_NONE,
    ENTRY INSN_XCH (OP_BYTE_REG REG_A) (OP_SADDR 0),
    ENTRY INSN_XCH (OP_BYTE_REG REG_A) (OP_IND_REG_REG REG_HL REG_C),
    ENTRY INSN_XCH (OP_BYTE_REG REG_A) (OP_ABS16 0),
    ENTRY INSN_XCH (OP_BYTE_REG REG_A) (OP_SFR 0),
    ENTRY INSN_XCH (OP_BYTE_REG REG_A) (OP_IND_REG REG_HL),
    ENTRY INSN_XCH (OP_BYTE_REG REG_A) (OP_IND_REG_IMM REG_HL 0),
    ENTRY INSN_XCH (OP_BYTE_REG REG_A) (OP_IND_REG REG_DE),
    ENTRY INSN_XCH (OP_BYTE_REG REG_A) (OP_IND_REG_IMM REG_DE 0)]"

definition map2_row_B :: "RL78Instruction list" where
  "map2_row_B = [
    ENTRY INSN_SUBC (OP_BYTE_REG REG_A) (OP_IND_REG_REG REG_HL REG_B),
    ENTRY INSN_UNKNOWN OP_NONE OP_NONE,
    ENTRY INSN_SUBC (OP_BYTE_REG REG_A) (OP_IND_REG_REG REG_HL REG_C),
    ENTRY INSN_UNKNOWN OP_NONE OP_NONE,
    ENTRY INSN_CALLT (OP_CALLT 0x86) OP_NONE,
    ENTRY INSN_CALLT (OP_CALLT 0x96) OP_NONE,
    ENTRY INSN_CALLT (OP_CALLT 0xa6) OP_NONE,
    ENTRY INSN_CALLT (OP_CALLT 0xb6) OP_NONE,
    ENTRY INSN_MOV OP_ES (OP_SADDR 0),
    ENTRY INSN_XCH (OP_BYTE_REG REG_A) (OP_IND_REG_REG REG_HL REG_B),
    ENTRY INSN_UNKNOWN OP_NONE OP_NONE,
    ENTRY INSN_UNKNOWN OP_NONE OP_NONE,
    ENTRY INSN_UNKNOWN OP_NONE OP_NONE,
    ENTRY INSN_UNKNOWN OP_NONE OP_NONE,
    ENTRY INSN_UNKNOWN OP_NONE OP_NONE,
    ENTRY INSN_UNKNOWN OP_NONE OP_NONE]"

definition map2_row_C :: "RL78Instruction list" where
  "map2_row_C = [
    ENTRY INSN_CMP (OP_BYTE_REG REG_A) (OP_IND_REG_REG REG_HL REG_B),
    ENTRY INSN_UNKNOWN OP_NONE OP_NONE,
    ENTRY INSN_CMP (OP_BYTE_REG REG_A) (OP_IND_REG_REG REG_HL REG_C),
    ENTRY INSN_BH (OP_REL8 0) OP_NONE,
    ENTRY INSN_CALLT (OP_CALLT 0x88) OP_NONE,
    ENTRY INSN_CALLT (OP_CALLT 0x98) OP_NONE,
    ENTRY INSN_CALLT (OP_CALLT 0xa8) OP_NONE,
    ENTRY INSN_CALLT (OP_CALLT 0xb8) OP_NONE,
    ENTRY INSN_SKC OP_NONE OP_NONE,
    ENTRY INSN_MOV (OP_BYTE_REG REG_A) (OP_IND_REG_REG REG_HL REG_B),
    ENTRY INSN_CALL (OP_WORD_REG REG_AX) OP_NONE,
    ENTRY INSN_BR (OP_WORD_REG REG_AX) OP_NONE,
    ENTRY INSN_BRK OP_NONE OP_NONE,
    ENTRY INSN_POP OP_PSW OP_NONE,
    ENTRY INSN_MOVS (OP_IND_REG_IMM REG_HL 0) (OP_BYTE_REG REG_X),
    ENTRY INSN_SEL (OP_SEL_RB 0) OP_NONE]"

definition map2_row_D :: "RL78Instruction list" where
  "map2_row_D = [
    ENTRY INSN_AND (OP_BYTE_REG REG_A) (OP_IND_REG_REG REG_HL REG_B),
    ENTRY INSN_UNKNOWN OP_NONE OP_NONE,
    ENTRY INSN_AND (OP_BYTE_REG REG_A) (OP_IND_REG_REG REG_HL REG_C),
    ENTRY INSN_BNH (OP_REL8 0) OP_NONE,
    ENTRY INSN_CALLT (OP_CALLT 0x8a) OP_NONE,
    ENTRY INSN_CALLT (OP_CALLT 0x9a) OP_NONE,
    ENTRY INSN_CALLT (OP_CALLT 0xaa) OP_NONE,
    ENTRY INSN_CALLT (OP_CALLT 0xba) OP_NONE,
    ENTRY INSN_SKNC OP_NONE OP_NONE,
    ENTRY INSN_MOV (OP_IND_REG_REG REG_HL REG_B) (OP_BYTE_REG REG_A),
    ENTRY INSN_CALL (OP_WORD_REG REG_BC) OP_NONE,
    ENTRY INSN_ROR (OP_BYTE_REG REG_A) OP_NONE,
    ENTRY INSN_ROLC (OP_BYTE_REG REG_A) OP_NONE,
    ENTRY INSN_PUSH OP_PSW OP_NONE,
    ENTRY INSN_CMPS (OP_BYTE_REG REG_X) (OP_IND_REG_IMM REG_HL 0),
    ENTRY INSN_SEL (OP_SEL_RB 1) OP_NONE]"

definition map2_row_E :: "RL78Instruction list" where
  "map2_row_E = [
    ENTRY INSN_OR (OP_BYTE_REG REG_A) (OP_IND_REG_REG REG_HL REG_B),
    ENTRY INSN_UNKNOWN OP_NONE OP_NONE,
    ENTRY INSN_OR (OP_BYTE_REG REG_A) (OP_IND_REG_REG REG_HL REG_C),
    ENTRY INSN_SKH OP_NONE OP_NONE,
    ENTRY INSN_CALLT (OP_CALLT 0x8c) OP_NONE,
    ENTRY INSN_CALLT (OP_CALLT 0x9c) OP_NONE,
    ENTRY INSN_CALLT (OP_CALLT 0xac) OP_NONE,
    ENTRY INSN_CALLT (OP_CALLT 0xbc) OP_NONE,
    ENTRY INSN_SKZ OP_NONE OP_NONE,
    ENTRY INSN_MOV (OP_BYTE_REG REG_A) (OP_IND_REG_REG REG_HL REG_C),
    ENTRY INSN_CALL (OP_WORD_REG REG_DE) OP_NONE,
    ENTRY INSN_ROL (OP_BYTE_REG REG_A) OP_NONE,
    ENTRY INSN_RETB OP_NONE OP_NONE,
    ENTRY INSN_HALT OP_NONE OP_NONE,
    ENTRY INSN_ROLWC (OP_WORD_REG REG_AX) OP_NONE,
    ENTRY INSN_SEL (OP_SEL_RB 2) OP_NONE]"

definition map2_row_F :: "RL78Instruction list" where
  "map2_row_F = [
    ENTRY INSN_XOR (OP_BYTE_REG REG_A) (OP_IND_REG_REG REG_HL REG_B),
    ENTRY INSN_UNKNOWN OP_NONE OP_NONE,
    ENTRY INSN_XOR (OP_BYTE_REG REG_A) (OP_IND_REG_REG REG_HL REG_C),
    ENTRY INSN_SKNH OP_NONE OP_NONE,
    ENTRY INSN_CALLT (OP_CALLT 0x8e) OP_NONE,
    ENTRY INSN_CALLT (OP_CALLT 0x9e) OP_NONE,
    ENTRY INSN_CALLT (OP_CALLT 0xae) OP_NONE,
    ENTRY INSN_CALLT (OP_CALLT 0xbe) OP_NONE,
    ENTRY INSN_SKNZ OP_NONE OP_NONE,
    ENTRY INSN_MOV (OP_IND_REG_REG REG_HL REG_C) (OP_BYTE_REG REG_A),
    ENTRY INSN_CALL (OP_WORD_REG REG_HL) OP_NONE,
    ENTRY INSN_RORC (OP_BYTE_REG REG_A) OP_NONE,
    ENTRY INSN_RETI OP_NONE OP_NONE,
    ENTRY INSN_STOP OP_NONE OP_NONE,
    ENTRY INSN_ROLWC (OP_WORD_REG REG_BC) OP_NONE,
    ENTRY INSN_SEL (OP_SEL_RB 3) OP_NONE]"

lemmas map2_rows = map2_row_0_def map2_row_1_def map2_row_2_def map2_row_3_def map2_row_4_def map2_row_5_def map2_row_6_def map2_row_7_def
  map2_row_8_def map2_row_9_def map2_row_A_def map2_row_B_def map2_row_C_def map2_row_D_def map2_row_E_def map2_row_F_def

definition decode_table_2nd_map :: "RL78Instruction list" where
  "decode_table_2nd_map =
     map2_row_0 @ map2_row_1 @ map2_row_2 @ map2_row_3 @
     map2_row_4 @ map2_row_5 @ map2_row_6 @ map2_row_7 @
     map2_row_8 @ map2_row_9 @ map2_row_A @ map2_row_B @
     map2_row_C @ map2_row_D @ map2_row_E @ map2_row_F"

section \<open>Map 3\<close>

definition MAP_3RD_00_7F :: "u32 \<Rightarrow> RL78Instruction list" where
  "MAP_3RD_00_7F n = [
    ENTRY INSN_SET1 (BIT_OP BITOP_ABS16 n) OP_NONE,
    ENTRY INSN_MOV1 (BIT_OP BITOP_SADDR n) (BIT_OP BITOP_CY 0),
    ENTRY INSN_SET1 (BIT_OP BITOP_SADDR n) OP_NONE,
    ENTRY INSN_CLR1 (BIT_OP BITOP_SADDR n) OP_NONE,
    ENTRY INSN_MOV1 (BIT_OP BITOP_CY 0) (BIT_OP BITOP_SADDR n),
    ENTRY INSN_AND1 (BIT_OP BITOP_CY 0) (BIT_OP BITOP_SADDR n),
    ENTRY INSN_OR1 (BIT_OP BITOP_CY 0) (BIT_OP BITOP_SADDR n),
    ENTRY INSN_XOR1 (BIT_OP BITOP_CY 0) (BIT_OP BITOP_SADDR n),
    ENTRY INSN_CLR1 (BIT_OP BITOP_ABS16 n) OP_NONE,
    ENTRY INSN_MOV1 (BIT_OP BITOP_SFR n) (BIT_OP BITOP_CY 0),
    ENTRY INSN_SET1 (BIT_OP BITOP_SFR n) OP_NONE,
    ENTRY INSN_CLR1 (BIT_OP BITOP_SFR n) OP_NONE,
    ENTRY INSN_MOV1 (BIT_OP BITOP_CY 0) (BIT_OP BITOP_SFR n),
    ENTRY INSN_AND1 (BIT_OP BITOP_CY 0) (BIT_OP BITOP_SFR n),
    ENTRY INSN_OR1 (BIT_OP BITOP_CY 0) (BIT_OP BITOP_SFR n),
    ENTRY INSN_XOR1 (BIT_OP BITOP_CY 0) (BIT_OP BITOP_SFR n)]"

text \<open>The macro leaves columns 0 and 8 to explicit entries of the table.\<close>

definition MAP_3RD_80_FF :: "u32 \<Rightarrow> RL78Instruction \<Rightarrow> RL78Instruction \<Rightarrow> RL78Instruction list" where
  "MAP_3RD_80_FF n col0 col8 =
    [col0,
    ENTRY INSN_MOV1 (BIT_OP BITOP_IND_HL n) (BIT_OP BITOP_CY 0),
    ENTRY INSN_SET1 (BIT_OP BITOP_IND_HL n) OP_NONE,
    ENTRY INSN_CLR1 (BIT_OP BITOP_IND_HL n) OP_NONE,
    ENTRY INSN_MOV1 (BIT_OP BITOP_CY 0) (BIT_OP BITOP_IND_HL n),
    ENTRY INSN_AND1 (BIT_OP BITOP_CY 0) (BIT_OP BITOP_IND_HL n),
    ENTRY INSN_OR1 (BIT_OP BITOP_CY 0) (BIT_OP BITOP_IND_HL n),
    ENTRY INSN_XOR1 (BIT_OP BITOP_CY 0) (BIT_OP BITOP_IND_HL n),
     col8,
    ENTRY INSN_MOV1 (BIT_OP BITOP_REG_A n) (BIT_OP BITOP_CY 0),
    ENTRY INSN_SET1 (BIT_OP BITOP_REG_A n) OP_NONE,
    ENTRY INSN_CLR1 (BIT_OP BITOP_REG_A n) OP_NONE,
    ENTRY INSN_MOV1 (BIT_OP BITOP_CY 0) (BIT_OP BITOP_REG_A n),
    ENTRY INSN_AND1 (BIT_OP BITOP_CY 0) (BIT_OP BITOP_REG_A n),
    ENTRY INSN_OR1 (BIT_OP BITOP_CY 0) (BIT_OP BITOP_REG_A n),
    ENTRY INSN_XOR1 (BIT_OP BITOP_CY 0) (BIT_OP BITOP_REG_A n)]"

abbreviation UNKNOWN_ENTRY :: RL78Instruction where
  "UNKNOWN_ENTRY \<equiv> ENTRY INSN_UNKNOWN OP_NONE OP_NONE"

definition decode_table_3rd_map :: "RL78Instruction list" where
  "decode_table_3rd_map =
     MAP_3RD_00_7F 0 @ MAP_3RD_00_7F 1 @ MAP_3RD_00_7F 2 @ MAP_3RD_00_7F 3 @
     MAP_3RD_00_7F 4 @ MAP_3RD_00_7F 5 @ MAP_3RD_00_7F 6 @ MAP_3RD_00_7F 7 @
     MAP_3RD_80_FF 0 (ENTRY INSN_SET1 (BIT_OP BITOP_CY 0) OP_NONE)
                     (ENTRY INSN_CLR1 (BIT_OP BITOP_CY 0) OP_NONE) @
     MAP_3RD_80_FF 1 UNKNOWN_ENTRY UNKNOWN_ENTRY @
     MAP_3RD_80_FF 2 UNKNOWN_ENTRY UNKNOWN_ENTRY @
     MAP_3RD_80_FF 3 UNKNOWN_ENTRY UNKNOWN_ENTRY @
     MAP_3RD_80_FF 4 (ENTRY INSN_NOT1 (BIT_OP BITOP_CY 0) OP_NONE) UNKNOWN_ENTRY @
     MAP_3RD_80_FF 5 UNKNOWN_ENTRY UNKNOWN_ENTRY @
     MAP_3RD_80_FF 6 UNKNOWN_ENTRY UNKNOWN_ENTRY @
     MAP_3RD_80_FF 7 UNKNOWN_ENTRY UNKNOWN_ENTRY"

section \<open>Map 4\<close>

definition MAP_4TH_00_75 :: "u32 \<Rightarrow> RL78Instruction list" where
  "MAP_4TH_00_75 n = [
    ENTRY INSN_BTCLR (BIT_OP BITOP_SADDR n) (OP_REL8 0),
    ENTRY INSN_BTCLR (BIT_OP BITOP_REG_A n) (OP_REL8 0),
    ENTRY INSN_BT (BIT_OP BITOP_SADDR n) (OP_REL8 0),
    ENTRY INSN_BT (BIT_OP BITOP_REG_A n) (OP_REL8 0),
    ENTRY INSN_BF (BIT_OP BITOP_SADDR n) (OP_REL8 0),
    ENTRY INSN_BF (BIT_OP BITOP_REG_A n) (OP_REL8 0)]"

definition MAP_4TH_17_7B :: "u32 \<Rightarrow> RL78Instruction list" where
  "MAP_4TH_17_7B n = [
    ENTRY INSN_SHL (OP_BYTE_REG REG_C) (OP_SHAMT n),
    ENTRY INSN_SHL (OP_BYTE_REG REG_B) (OP_SHAMT n),
    ENTRY INSN_SHL (OP_BYTE_REG REG_A) (OP_SHAMT n),
    ENTRY INSN_SHR (OP_BYTE_REG REG_A) (OP_SHAMT n),
    ENTRY INSN_SAR (OP_BYTE_REG REG_A) (OP_SHAMT n)]"

definition MAP_4TH_1C_FF :: "u32 \<Rightarrow> RL78Instruction list" where
  "MAP_4TH_1C_FF n = [
    ENTRY INSN_SHLW (OP_WORD_REG REG_BC) (OP_SHAMT n),
    ENTRY INSN_SHLW (OP_WORD_REG REG_AX) (OP_SHAMT n),
    ENTRY INSN_SHRW (OP_WORD_REG REG_AX) (OP_SHAMT n),
    ENTRY INSN_SARW (OP_WORD_REG REG_AX) (OP_SHAMT n)]"

definition MAP_4TH_80_F5 :: "u32 \<Rightarrow> RL78Instruction list" where
  "MAP_4TH_80_F5 n = [
    ENTRY INSN_BTCLR (BIT_OP BITOP_SFR n) (OP_REL8 0),
    ENTRY INSN_BTCLR (BIT_OP BITOP_IND_HL n) (OP_REL8 0),
    ENTRY INSN_BT (BIT_OP BITOP_SFR n) (OP_REL8 0),
    ENTRY INSN_BT (BIT_OP BITOP_IND_HL n) (OP_REL8 0),
    ENTRY INSN_BF (BIT_OP BITOP_SFR n) (OP_REL8 0),
    ENTRY INSN_BF (BIT_OP BITOP_IND_HL n) (OP_REL8 0)]"

text \<open>The explicit entries of the table fill the gaps between the macro groups with
  UNKNOWN: columns 6 to 15 of row 0, column 6 of rows 1 to 7, columns 6 to 11 of
  rows 8 to 15.\<close>

definition decode_table_4th_map :: "RL78Instruction list" where
  "decode_table_4th_map =
     MAP_4TH_00_75 0 @ replicate 10 UNKNOWN_ENTRY @
     concat (map (\<lambda>n. MAP_4TH_00_75 n @ [UNKNOWN_ENTRY] @ MAP_4TH_17_7B n @ MAP_4TH_1C_FF n)
       [1, 2, 3, 4, 5, 6, 7]) @
     concat (map (\<lambda>n. MAP_4TH_80_F5 n @ replicate 6 UNKNOWN_ENTRY @ MAP_4TH_1C_FF (n + 8))
       [0, 1, 2, 3, 4, 5, 6, 7])"

end
