(* ===== verification/RL78_Decode.thy ===== *)
theory RL78_Decode
  imports RL78_Decode_Tables
begin

text \<open>The instruction decoder of \<^verbatim>\<open>src/arch/rl78/decode.c\<close>. The handler's \<^verbatim>\<open>load_byte\<close> is
  the parameter \<^verbatim>\<open>load\<close> (guest code by address); \<^verbatim>\<open>get_pc\<close>/\<^verbatim>\<open>set_pc\<close> and \<^verbatim>\<open>set_es\<close> become the
  program counter and the prefix flag that are passed along. The call of the
  translation handler at the end of \<^verbatim>\<open>decode\<close> is in theory \<^verbatim>\<open>RL78_Translate\<close>.\<close>

section \<open>Operands\<close>

text \<open>\<^verbatim>\<open>operand.const_op = imm\<close>: the union member shared by the kinds with one constant.\<close>

fun set_const_op :: "RL78Operand \<Rightarrow> u32 \<Rightarrow> RL78Operand" where
  "set_const_op (OP_IMM8 _) v = OP_IMM8 v"
| "set_const_op (OP_IMM16 _) v = OP_IMM16 v"
| "set_const_op (OP_ABS16 _) v = OP_ABS16 v"
| "set_const_op (OP_ABS20 _) v = OP_ABS20 v"
| "set_const_op (OP_SADDR _) v = OP_SADDR v"
| "set_const_op (OP_SFR _) v = OP_SFR v"
| "set_const_op (OP_SHAMT _) v = OP_SHAMT v"
| "set_const_op (OP_REL8 _) v = OP_REL8 v"
| "set_const_op (OP_REL16 _) v = OP_REL16 v"
| "set_const_op (OP_CALLT _) v = OP_CALLT v"
| "set_const_op (OP_SEL_RB _) v = OP_SEL_RB v"
| "set_const_op op v = op"

definition decode_dummy_op :: "(u32 \<Rightarrow> u8) \<Rightarrow> u32 \<Rightarrow> RL78Operand \<Rightarrow> RL78Operand \<times> u32" where
  "decode_dummy_op load pc op = (op, pc)"

definition decode_byte_op :: "(u32 \<Rightarrow> u8) \<Rightarrow> u32 \<Rightarrow> RL78Operand \<Rightarrow> RL78Operand \<times> u32" where
  "decode_byte_op load pc op = (let imm = ucast (load pc) in (set_const_op op imm, pc + 1))"

definition decode_word_op :: "(u32 \<Rightarrow> u8) \<Rightarrow> u32 \<Rightarrow> RL78Operand \<Rightarrow> RL78Operand \<times> u32" where
  "decode_word_op load pc op =
     (let imml = ucast (load (pc + 0)); immh = ucast (load (pc + 1));
          imm = push_bit 8 immh OR imml
      in (set_const_op op imm, pc + 2))"

definition decode_20bit_op :: "(u32 \<Rightarrow> u8) \<Rightarrow> u32 \<Rightarrow> RL78Operand \<Rightarrow> RL78Operand \<times> u32" where
  "decode_20bit_op load pc op =
     (let datal = ucast (load (pc + 0)); datah = ucast (load (pc + 1)); datas = ucast (load (pc + 2));
          data = push_bit 16 datas OR push_bit 8 datah OR datal
      in (set_const_op op data, pc + 3))"

definition decode_ind_reg_imm :: "(u32 \<Rightarrow> u8) \<Rightarrow> u32 \<Rightarrow> RL78WordRegister \<Rightarrow> RL78Operand \<times> u32" where
  "decode_ind_reg_imm load pc base = (OP_IND_REG_IMM base (ucast (load pc)), pc + 1)"

definition decode_ind_sp_imm :: "(u32 \<Rightarrow> u8) \<Rightarrow> u32 \<Rightarrow> RL78Operand \<times> u32" where
  "decode_ind_sp_imm load pc = (OP_IND_SP_IMM (ucast (load pc)), pc + 1)"

definition decode_ind_base_byte :: "(u32 \<Rightarrow> u8) \<Rightarrow> u32 \<Rightarrow> RL78ByteRegister \<Rightarrow> RL78Operand \<times> u32" where
  "decode_ind_base_byte load pc idx =
     (let basel = ucast (load (pc + 0)); baseh = ucast (load (pc + 1));
          base = push_bit 8 baseh OR basel
      in (OP_IND_BASE_BYTE base idx, pc + 2))"

definition decode_ind_base_word :: "(u32 \<Rightarrow> u8) \<Rightarrow> u32 \<Rightarrow> RL78WordRegister \<Rightarrow> RL78Operand \<times> u32" where
  "decode_ind_base_word load pc idx =
     (let basel = ucast (load (pc + 0)); baseh = ucast (load (pc + 1));
          base = push_bit 8 baseh OR basel
      in (OP_IND_BASE_WORD base idx, pc + 2))"

definition decode_bit_op :: "(u32 \<Rightarrow> u8) \<Rightarrow> u32 \<Rightarrow> RL78OperandBit \<Rightarrow> RL78Operand \<times> u32" where
  "decode_bit_op load pc op =
     (case bit_kind op of
        BITOP_ABS16 \<Rightarrow>
          (OP_BIT (op\<lparr>bit_addr := ucast (load pc) OR push_bit 8 (ucast (load (pc + 1)))\<rparr>), pc + 2)
      | BITOP_SADDR \<Rightarrow> (OP_BIT (op\<lparr>bit_addr := ucast (load pc)\<rparr>), pc + 1)
      | BITOP_SFR \<Rightarrow> (OP_BIT (op\<lparr>bit_addr := ucast (load pc)\<rparr>), pc + 1)
      | _ \<Rightarrow> (OP_BIT (op\<lparr>bit_addr := 0\<rparr>), pc))"

text \<open>\<^verbatim>\<open>decode_operand_table\<close>, indexed by the operand kind.\<close>

fun decode_operand :: "(u32 \<Rightarrow> u8) \<Rightarrow> u32 \<Rightarrow> RL78Operand \<Rightarrow> RL78Operand \<times> u32" where
  "decode_operand load pc (OP_BIT b) = decode_bit_op load pc b"
| "decode_operand load pc (OP_IMM8 v) = decode_byte_op load pc (OP_IMM8 v)"
| "decode_operand load pc (OP_IMM16 v) = decode_word_op load pc (OP_IMM16 v)"
| "decode_operand load pc (OP_ABS16 v) = decode_word_op load pc (OP_ABS16 v)"
| "decode_operand load pc (OP_ABS20 v) = decode_20bit_op load pc (OP_ABS20 v)"
| "decode_operand load pc (OP_SADDR v) = decode_byte_op load pc (OP_SADDR v)"
| "decode_operand load pc (OP_SFR v) = decode_byte_op load pc (OP_SFR v)"
| "decode_operand load pc (OP_IND_REG_IMM r v) = decode_ind_reg_imm load pc r"
| "decode_operand load pc (OP_IND_SP_IMM v) = decode_ind_sp_imm load pc"
| "decode_operand load pc (OP_IND_BASE_BYTE v r) = decode_ind_base_byte load pc r"
| "decode_operand load pc (OP_IND_BASE_WORD v r) = decode_ind_base_word load pc r"
| "decode_operand load pc (OP_REL8 v) = decode_byte_op load pc (OP_REL8 v)"
| "decode_operand load pc (OP_REL16 v) = decode_word_op load pc (OP_REL16 v)"
| "decode_operand load pc op = decode_dummy_op load pc op"

section \<open>Opcode bytes\<close>

datatype UnknownHandlerResult = UNKNOWN_INSN | USE_MAP2 | USE_MAP3 | USE_MAP4 | USE_PREFIX

datatype decode_map = MAP_1ST | MAP_2ND | MAP_3RD | MAP_4TH

fun decode_table :: "decode_map \<Rightarrow> RL78Instruction list" where
  "decode_table MAP_1ST = decode_table_1st_map"
| "decode_table MAP_2ND = decode_table_2nd_map"
| "decode_table MAP_3RD = decode_table_3rd_map"
| "decode_table MAP_4TH = decode_table_4th_map"

definition unknown_handler :: "decode_map \<Rightarrow> u8 \<Rightarrow> bool \<Rightarrow> UnknownHandlerResult" where
  "unknown_handler tab byte is_first_byte =
     (if tab = MAP_1ST \<and> is_first_byte \<and> byte = 0x11 then USE_PREFIX
      else if tab = MAP_1ST \<and> byte = 0x31 then USE_MAP4
      else if tab = MAP_1ST \<and> byte = 0x61 then USE_MAP2
      else if tab = MAP_1ST \<and> byte = 0x71 then USE_MAP3
      else UNKNOWN_INSN)"

text \<open>The \<^verbatim>\<open>while (true)\<close> loop of \<^verbatim>\<open>decode\<close>: the instruction found in the tables, or None for
  \<^verbatim>\<open>return false\<close>, with the program counter and the prefix flag at that point.\<close>

function decode_opcode ::
  "(u32 \<Rightarrow> u8) \<Rightarrow> decode_map \<Rightarrow> bool \<Rightarrow> u32 \<Rightarrow> bool \<Rightarrow> RL78Instruction option \<times> u32 \<times> bool" where
  "decode_opcode load tab is_first_byte pc es =
     (let byte = load pc; insn = decode_table tab ! unat byte in
      if mnemonic insn \<noteq> INSN_UNKNOWN then (Some insn, pc + 1, es)
      else case unknown_handler tab byte is_first_byte of
          USE_MAP2 \<Rightarrow> decode_opcode load MAP_2ND False (pc + 1) es
        | USE_MAP3 \<Rightarrow> decode_opcode load MAP_3RD False (pc + 1) es
        | USE_MAP4 \<Rightarrow> decode_opcode load MAP_4TH False (pc + 1) es
        | USE_PREFIX \<Rightarrow> decode_opcode load tab False (pc + 1) True
        | UNKNOWN_INSN \<Rightarrow> (None, pc, es))"
  by pat_completeness auto

text \<open>A prefix is only taken on the first byte, and maps 2 to 4 are only entered from
  map 1, so the loop runs at most three times.\<close>

termination
  by (relation "measure (\<lambda>(_, tab, first, _, _).
        if tab = MAP_1ST then (if first then 2 else 1) else 0)")
     (auto simp: unknown_handler_def split: if_splits)

declare decode_opcode.simps [simp del]

text \<open>The whole of \<^verbatim>\<open>decode\<close> up to the call of the handler.\<close>

definition decode_insn :: "(u32 \<Rightarrow> u8) \<Rightarrow> u32 \<Rightarrow> bool \<Rightarrow> RL78Instruction option \<times> u32 \<times> bool" where
  "decode_insn load pc es =
     (case decode_opcode load MAP_1ST True pc es of
        (None, pc, es) \<Rightarrow> (None, pc, es)
      | (Some insn, pc, es) \<Rightarrow>
          (let (o0, pc) = decode_operand load pc (operand0 insn);
               (o1, pc) = decode_operand load pc (operand1 insn)
           in (Some (insn\<lparr>operand0 := o0, operand1 := o1\<rparr>), pc, es)))"

section \<open>Extent of an instruction\<close>

fun op_len :: "RL78Operand \<Rightarrow> nat" where
  "op_len (OP_BIT b) = (case bit_kind b of BITOP_ABS16 \<Rightarrow> 2 | BITOP_SADDR \<Rightarrow> 1 | BITOP_SFR \<Rightarrow> 1 | _ \<Rightarrow> 0)"
| "op_len (OP_IMM8 v) = 1" | "op_len (OP_IMM16 v) = 2" | "op_len (OP_ABS16 v) = 2" | "op_len (OP_ABS20 v) = 3"
| "op_len (OP_SADDR v) = 1" | "op_len (OP_SFR v) = 1" | "op_len (OP_IND_REG_IMM r v) = 1" | "op_len (OP_IND_SP_IMM v) = 1"
| "op_len (OP_IND_BASE_BYTE v r) = 2" | "op_len (OP_IND_BASE_WORD v r) = 2" | "op_len (OP_REL8 v) = 1" | "op_len (OP_REL16 v) = 2"
| "op_len _ = 0"

lemmas decode_operand_defs = decode_dummy_op_def decode_byte_op_def decode_word_op_def decode_20bit_op_def
  decode_ind_reg_imm_def decode_ind_sp_imm_def decode_ind_base_byte_def decode_ind_base_word_def decode_bit_op_def

lemma decode_operand_len: "snd (decode_operand load pc op) = pc + of_nat (op_len op)"
  by (cases op) (auto simp: decode_operand_defs Let_def split: RL78BitOpKind.split)

lemma decode_operand_local:
  assumes "\<And>i. i < op_len op \<Longrightarrow> load' (pc + of_nat i) = load (pc + of_nat i)"
  shows "decode_operand load' pc op = decode_operand load pc op"
  using assms[of 0] assms[of 1] assms[of 2]
  by (cases op) (auto simp: decode_operand_defs Let_def split: RL78BitOpKind.splits)

definition insn_len :: "RL78Instruction \<Rightarrow> nat" where
  "insn_len i = op_len (operand0 i) + op_len (operand1 i)"

lemma map1_len: "list_all (\<lambda>i. insn_len i \<le> 3) decode_table_1st_map"
  by code_simp
lemma map2_len: "list_all (\<lambda>i. insn_len i \<le> 2) decode_table_2nd_map"
  by code_simp
lemma map3_len: "list_all (\<lambda>i. insn_len i \<le> 2) decode_table_3rd_map"
  by code_simp
lemma map4_len: "list_all (\<lambda>i. insn_len i \<le> 2) decode_table_4th_map"
  by code_simp
lemma table_length: "length (decode_table t) = 256"
  by (cases t; simp; code_simp)
definition opcode_bound :: "decode_map \<Rightarrow> bool \<Rightarrow> nat" where
  "opcode_bound tab first = (if tab = MAP_1ST then (if first then 5 else 4) else 3)"

lemma table_entry_len:
  "insn_len (decode_table tab ! unat (b::u8)) + 1 \<le> (if tab = MAP_1ST then 4 else 3)"
proof -
  have "unat b < length (decode_table tab)" using unsigned_less[of b, where ?'a = nat] by (simp add: table_length)
  then have "decode_table tab ! unat b \<in> set (decode_table tab)" by (rule nth_mem)
  then show ?thesis
    using map1_len map2_len map3_len map4_len by (cases tab) (fastforce simp: list_all_iff)+
qed

text \<open>What a successful run of the loop establishes: it read \<^verbatim>\<open>k\<close> bytes, the entry with
  its operands fits the bound, and the outcome depends on those bytes only.\<close>

definition dec_reads where
  "dec_reads load tab first pc es i pc' es' \<longleftrightarrow> (\<exists>k. 1 \<le> k \<and> k + insn_len i \<le> opcode_bound tab first \<and>
     pc' = pc + of_nat k \<and> mnemonic i \<noteq> INSN_UNKNOWN \<and>
     (\<exists>t b. i = decode_table t ! unat (b::u8)) \<and>
     (\<forall>load'. (\<forall>j<k. load' (pc + of_nat j) = load (pc + of_nat j)) \<longrightarrow>
        decode_opcode load' tab first pc es = (Some i, pc', es')))"

lemma dec_reads_step:
  assumes "dec_reads load tab' False (pc + 1) ez i pc' es'"
    and bound: "opcode_bound tab' False + 1 \<le> opcode_bound tab first"
    and step: "\<And>load'. load' pc = load pc \<Longrightarrow>
      decode_opcode load' tab first pc es = decode_opcode load' tab' False (pc + 1) ez"
  shows "dec_reads load tab first pc es i pc' es'"
proof -
  obtain k where k: "1 \<le> k" "k + insn_len i \<le> opcode_bound tab' False" "pc' = pc + 1 + of_nat k"
     "mnemonic i \<noteq> INSN_UNKNOWN" "\<exists>t b. i = decode_table t ! unat (b::u8)"
    and loc: "\<And>load'. (\<forall>j<k. load' (pc + 1 + of_nat j) = load (pc + 1 + of_nat j)) \<Longrightarrow>
        decode_opcode load' tab' False (pc + 1) ez = (Some i, pc', es')"
    using assms(1) by (auto simp: dec_reads_def)
  have "decode_opcode load' tab first pc es = (Some i, pc', es')"
    if a: "\<forall>j<k + 1. load' (pc + of_nat j) = load (pc + of_nat j)" for load'
  proof -
    have "load' (pc + 1 + of_nat j) = load (pc + 1 + of_nat j)" if "j < k" for j
      using a[rule_format, of "j + 1"] that by (simp add: add.assoc add.commute[of 1])
    then show ?thesis using loc[of load'] step[of load'] a[rule_format, of 0] by simp
  qed
  then show ?thesis unfolding dec_reads_def using k bound
    by (intro exI[of _ "k + 1"]) (auto simp: ac_simps)
qed

lemma decode_opcode_found:
  assumes "mnemonic (decode_table tab ! unat (load pc)) \<noteq> INSN_UNKNOWN"
  shows "decode_opcode load tab first pc es = (Some (decode_table tab ! unat (load pc)), pc + 1, es)"
  using assms by (subst decode_opcode.simps) (simp add: Let_def)

fun next_map :: "UnknownHandlerResult \<Rightarrow> decode_map \<Rightarrow> decode_map" where
  "next_map USE_MAP2 tab = MAP_2ND" | "next_map USE_MAP3 tab = MAP_3RD" | "next_map USE_MAP4 tab = MAP_4TH" | "next_map _ tab = tab"

lemma decode_opcode_next:
  assumes "mnemonic (decode_table tab ! unat (load pc)) = INSN_UNKNOWN"
    and "unknown_handler tab (load pc) first = h"
  shows "decode_opcode load tab first pc es =
     (if h = UNKNOWN_INSN then (None, pc, es)
      else decode_opcode load (next_map h tab) False (pc + 1) (es \<or> h = USE_PREFIX))"
  using assms by (subst decode_opcode.simps) (cases h; simp add: Let_def)

lemma next_map_bound:
  assumes "unknown_handler tab b first = h" "h \<noteq> UNKNOWN_INSN"
  shows "opcode_bound (next_map h tab) False + 1 \<le> opcode_bound tab first"
  using assms by (auto simp: unknown_handler_def opcode_bound_def split: if_splits)

lemma decode_opcode_Some:
  assumes "decode_opcode load tab first pc es = (Some i, pc', es')"
  shows "dec_reads load tab first pc es i pc' es'"
  using assms
proof (induction "if tab = MAP_1ST then (if first then 2 else 1) else (0::nat)"
    arbitrary: tab first pc es rule: less_induct)
  case less
  let ?i = "decode_table tab ! unat (load pc)"
  show ?case
  proof (cases "mnemonic ?i = INSN_UNKNOWN")
    case False
    then have e: "i = ?i" "pc' = pc + 1" "es' = es"
      using less.prems by (simp_all add: decode_opcode_found)
    have "1 + insn_len ?i \<le> opcode_bound tab first"
      using table_entry_len[of tab "load pc"] by (auto simp: opcode_bound_def split: if_splits)
    then show ?thesis using False unfolding dec_reads_def e
      by (intro exI[of _ 1]) (auto simp: decode_opcode_found)
  next
    case True
    define h where "h = unknown_handler tab (load pc) first"
    have h: "h \<noteq> UNKNOWN_INSN"
      using less.prems decode_opcode_next[where load = load, OF True h_def[symmetric], of es] by auto
    have "dec_reads load (next_map h tab) False (pc + 1) (es \<or> h = USE_PREFIX) i pc' es'"
    proof (rule less.hyps)
      show "(if next_map h tab = MAP_1ST then if False then 2 else 1 else 0)
        < (if tab = MAP_1ST then if first then 2 else 1 else (0::nat))"
        using h by (auto simp: h_def unknown_handler_def split: if_splits)
      show "decode_opcode load (next_map h tab) False (pc + 1) (es \<or> h = USE_PREFIX) = (Some i, pc', es')"
        using less.prems decode_opcode_next[where load = load, OF True h_def[symmetric], of es] h by simp
    qed
    then show ?thesis
    proof (rule dec_reads_step)
      show "opcode_bound (next_map h tab) False + 1 \<le> opcode_bound tab first"
        by (rule next_map_bound[OF h_def[symmetric] h])
      show "decode_opcode load' tab first pc es = decode_opcode load' (next_map h tab) False (pc + 1) (es \<or> h = USE_PREFIX)"
        if "load' pc = load pc" for load'
        using decode_opcode_next[where load = load', of tab pc first h es] True h that by (simp add: h_def)
    qed
  qed
qed

section \<open>Shape of the decoded instructions\<close>

text \<open>The operand kinds each mnemonic can have, and the values their fields can take.
  The translator's handlers rely on exactly this.\<close>

fun mem_loc :: "RL78Operand \<Rightarrow> bool" where
  "mem_loc (OP_ABS16 _) = True" | "mem_loc (OP_SADDR _) = True" | "mem_loc (OP_SFR _) = True"
| "mem_loc (OP_IND_REG_REG _ _) = True" | "mem_loc (OP_IND_REG_IMM _ _) = True" | "mem_loc (OP_IND_REG _) = True"
| "mem_loc (OP_IND_SP_IMM _) = True" | "mem_loc (OP_IND_BASE_BYTE _ _) = True" | "mem_loc (OP_IND_BASE_WORD _ _) = True"
| "mem_loc _ = False"

fun is_byte_reg :: "RL78Operand \<Rightarrow> bool" where
  "is_byte_reg (OP_BYTE_REG _) = True" | "is_byte_reg _ = False"
fun is_word_reg :: "RL78Operand \<Rightarrow> bool" where
  "is_word_reg (OP_WORD_REG _) = True" | "is_word_reg _ = False"
fun is_imm8 :: "RL78Operand \<Rightarrow> bool" where
  "is_imm8 (OP_IMM8 _) = True" | "is_imm8 _ = False"
fun is_imm16 :: "RL78Operand \<Rightarrow> bool" where
  "is_imm16 (OP_IMM16 _) = True" | "is_imm16 _ = False"
fun is_bit :: "RL78Operand \<Rightarrow> bool" where
  "is_bit (OP_BIT _) = True" | "is_bit _ = False"
fun is_rel8 :: "RL78Operand \<Rightarrow> bool" where
  "is_rel8 (OP_REL8 _) = True" | "is_rel8 _ = False"
fun is_shamt :: "RL78Operand \<Rightarrow> bool" where
  "is_shamt (OP_SHAMT _) = True" | "is_shamt _ = False"
fun is_jump_target :: "RL78Operand \<Rightarrow> bool" where
  "is_jump_target (OP_WORD_REG _) = True" | "is_jump_target (OP_ABS16 _) = True" | "is_jump_target (OP_ABS20 _) = True"
| "is_jump_target (OP_REL8 _) = True" | "is_jump_target (OP_REL16 _) = True" | "is_jump_target _ = False"
fun is_callt :: "RL78Operand \<Rightarrow> bool" where
  "is_callt (OP_CALLT _) = True" | "is_callt _ = False"
fun is_sel_rb :: "RL78Operand \<Rightarrow> bool" where
  "is_sel_rb (OP_SEL_RB _) = True" | "is_sel_rb _ = False"

definition byte_loc :: "RL78Operand \<Rightarrow> bool" where "byte_loc op \<longleftrightarrow> is_byte_reg op \<or> mem_loc op"
definition word_loc :: "RL78Operand \<Rightarrow> bool" where "word_loc op \<longleftrightarrow> is_word_reg op \<or> op = OP_SP \<or> mem_loc op"

fun insn_shape :: "RL78Mnemonic \<Rightarrow> RL78Operand \<Rightarrow> RL78Operand \<Rightarrow> bool" where
  "insn_shape INSN_MOV a b = ((byte_loc a \<or> a = OP_ES) \<and> (byte_loc b \<or> is_imm8 b))"
| "insn_shape INSN_XCH a b = (byte_loc a \<and> byte_loc b)"
| "insn_shape INSN_ONEB a b = byte_loc a"
| "insn_shape INSN_CLRB a b = byte_loc a"
| "insn_shape INSN_MOVW a b = (word_loc a \<and> (word_loc b \<or> is_imm16 b))"
| "insn_shape INSN_XCHW a b = (word_loc a \<and> word_loc b)"
| "insn_shape INSN_ONEW a b = word_loc a"
| "insn_shape INSN_CLRW a b = word_loc a"
| "insn_shape INSN_ADD a b = (byte_loc a \<and> (byte_loc b \<or> is_imm8 b))"
| "insn_shape INSN_ADDC a b = (byte_loc a \<and> (byte_loc b \<or> is_imm8 b))"
| "insn_shape INSN_SUB a b = (byte_loc a \<and> (byte_loc b \<or> is_imm8 b))"
| "insn_shape INSN_SUBC a b = (byte_loc a \<and> (byte_loc b \<or> is_imm8 b))"
| "insn_shape INSN_AND a b = (byte_loc a \<and> (byte_loc b \<or> is_imm8 b))"
| "insn_shape INSN_OR a b = (byte_loc a \<and> (byte_loc b \<or> is_imm8 b))"
| "insn_shape INSN_XOR a b = (byte_loc a \<and> (byte_loc b \<or> is_imm8 b))"
| "insn_shape INSN_CMP a b = (byte_loc a \<and> (byte_loc b \<or> is_imm8 b))"
| "insn_shape INSN_CMP0 a b = byte_loc a"
| "insn_shape INSN_CMPS a b = (byte_loc a \<and> byte_loc b)"
| "insn_shape INSN_MOVS a b = (byte_loc a \<and> byte_loc b)"
| "insn_shape INSN_ADDW a b = (word_loc a \<and> (word_loc b \<or> is_imm16 b \<or> is_imm8 b))"
| "insn_shape INSN_SUBW a b = (word_loc a \<and> (word_loc b \<or> is_imm16 b \<or> is_imm8 b))"
| "insn_shape INSN_CMPW a b = (word_loc a \<and> (word_loc b \<or> is_imm16 b))"
| "insn_shape INSN_MULU a b = True"
| "insn_shape INSN_INC a b = byte_loc a"
| "insn_shape INSN_DEC a b = byte_loc a"
| "insn_shape INSN_INCW a b = word_loc a"
| "insn_shape INSN_DECW a b = word_loc a"
| "insn_shape INSN_SHR a b = (is_byte_reg a \<and> is_shamt b)"
| "insn_shape INSN_SHRW a b = (is_word_reg a \<and> is_shamt b)"
| "insn_shape INSN_SHL a b = (is_byte_reg a \<and> is_shamt b)"
| "insn_shape INSN_SHLW a b = (is_word_reg a \<and> is_shamt b)"
| "insn_shape INSN_SAR a b = (is_byte_reg a \<and> is_shamt b)"
| "insn_shape INSN_SARW a b = (is_word_reg a \<and> is_shamt b)"
| "insn_shape INSN_ROR a b = is_byte_reg a"
| "insn_shape INSN_ROL a b = is_byte_reg a"
| "insn_shape INSN_RORC a b = (a = OP_BYTE_REG REG_A)"
| "insn_shape INSN_ROLC a b = (a = OP_BYTE_REG REG_A)"
| "insn_shape INSN_ROLWC a b = is_word_reg a"
| "insn_shape INSN_MOV1 a b = (is_bit a \<and> is_bit b)"
| "insn_shape INSN_AND1 a b = (is_bit a \<and> is_bit b)"
| "insn_shape INSN_OR1 a b = (is_bit a \<and> is_bit b)"
| "insn_shape INSN_XOR1 a b = (is_bit a \<and> is_bit b)"
| "insn_shape INSN_SET1 a b = is_bit a"
| "insn_shape INSN_CLR1 a b = is_bit a"
| "insn_shape INSN_NOT1 a b = is_bit a"
| "insn_shape INSN_CALL a b = (is_jump_target a \<and> \<not> is_rel8 a)"
| "insn_shape INSN_CALLT a b = is_callt a"
| "insn_shape INSN_PUSH a b = (is_word_reg a \<or> a = OP_PSW)"
| "insn_shape INSN_POP a b = (is_word_reg a \<or> a = OP_PSW)"
| "insn_shape INSN_BR a b = is_jump_target a"
| "insn_shape INSN_BC a b = is_rel8 a"
| "insn_shape INSN_BNC a b = is_rel8 a"
| "insn_shape INSN_BZ a b = is_rel8 a"
| "insn_shape INSN_BNZ a b = is_rel8 a"
| "insn_shape INSN_BH a b = is_rel8 a"
| "insn_shape INSN_BNH a b = is_rel8 a"
| "insn_shape INSN_BT a b = (is_bit a \<and> is_rel8 b)"
| "insn_shape INSN_BF a b = (is_bit a \<and> is_rel8 b)"
| "insn_shape INSN_BTCLR a b = (is_bit a \<and> is_rel8 b)"
| "insn_shape INSN_SEL a b = is_sel_rb a"
| "insn_shape INSN_UNKNOWN a b = False"
| "insn_shape _ a b = True"

text \<open>Constants that come from the tables themselves.\<close>

fun entry_ok :: "RL78Operand \<Rightarrow> bool" where
  "entry_ok (OP_SHAMT v) = (unat v < 16)"
| "entry_ok (OP_CALLT v) = (0x80 \<le> unat v \<and> unat v \<le> 0xBE \<and> even (unat v))"
| "entry_ok (OP_SEL_RB v) = (unat v < 4)"
| "entry_ok (OP_BIT b) = (unat (bit_bit b) < 8 \<and> (bit_kind b = BITOP_CY \<longrightarrow> bit_bit b = 0))"
| "entry_ok _ = True"

definition table_entry_ok :: "RL78Instruction \<Rightarrow> bool" where
  "table_entry_ok i \<longleftrightarrow> mnemonic i = INSN_UNKNOWN \<or>
     (insn_shape (mnemonic i) (operand0 i) (operand1 i) \<and> entry_ok (operand0 i) \<and> entry_ok (operand1 i))"

lemma tables_ok: "list_all table_entry_ok (decode_table t)"
  by (cases t; simp; code_simp)

text \<open>Ranges of the decoded operands.\<close>

fun operand_ok :: "RL78Operand \<Rightarrow> bool" where
  "operand_ok (OP_IMM8 v) = (unat v < 256)" | "operand_ok (OP_IMM16 v) = (unat v < 65536)"
| "operand_ok (OP_ABS16 v) = (unat v < 65536)" | "operand_ok (OP_ABS20 v) = (unat v < 2 ^ 24)"
| "operand_ok (OP_SADDR v) = (unat v < 256)" | "operand_ok (OP_SFR v) = (unat v < 256)"
| "operand_ok (OP_IND_REG_IMM r v) = (unat v < 256)" | "operand_ok (OP_IND_SP_IMM v) = (unat v < 256)"
| "operand_ok (OP_IND_BASE_BYTE v r) = (unat v < 65536)" | "operand_ok (OP_IND_BASE_WORD v r) = (unat v < 65536)"
| "operand_ok (OP_REL8 v) = (unat v < 256)" | "operand_ok (OP_REL16 v) = (unat v < 65536)"
| "operand_ok (OP_BIT b) = (unat (bit_bit b) < 8 \<and> (bit_kind b = BITOP_CY \<longrightarrow> bit_bit b = 0) \<and> unat (bit_addr b) < (if bit_kind b = BITOP_ABS16 then 65536 else 256))"
| "operand_ok op = entry_ok op"

definition insn_ok :: "RL78Instruction \<Rightarrow> bool" where
  "insn_ok i \<longleftrightarrow> insn_shape (mnemonic i) (operand0 i) (operand1 i) \<and> operand_ok (operand0 i) \<and> operand_ok (operand1 i)"

lemma unat_byte [simp]: "unat (ucast (b::u8) :: u32) < 256"
  using unsigned_less[of b, where ?'a = nat] by (simp add: unsigned_ucast_eq take_bit_eq_mod)

lemma bit_u8_less: "bit (b::u8) n \<Longrightarrow> n < 8"
  by (drule bit_imp_le_length) simp

lemma unat_two_bytes [simp]: "unat (ucast (a::u8) OR push_bit 8 (ucast (b::u8)) :: u32) < 65536"
  "unat (push_bit 8 (ucast (b::u8)) OR ucast (a::u8) :: u32) < 65536"
proof -
  show "unat (ucast (a::u8) OR push_bit 8 (ucast (b::u8)) :: u32) < 65536"
    by (rule unat_less_bits[of _ 16, simplified]) (auto simp: bit_norm dest!: bit_u8_less)
  then show "unat (push_bit 8 (ucast (b::u8)) OR ucast (a::u8) :: u32) < 65536" by (simp add: or.commute)
qed

lemma unat_three_bytes [simp]: "unat (push_bit 16 (ucast (c::u8)) OR push_bit 8 (ucast (b::u8)) OR ucast (a::u8) :: u32) < 16777216"
  by (rule unat_less_bits[of _ 24, simplified]) (auto simp: bit_norm dest!: bit_u8_less)

lemma decode_operand_ok: "entry_ok op \<Longrightarrow> operand_ok (fst (decode_operand load pc op))"
  by (cases op) (auto simp: decode_operand_defs Let_def simp del: of_nat_numeral split: RL78BitOpKind.split)

lemma decode_operand_shape:
  "insn_shape m (fst (decode_operand load pc a)) (fst (decode_operand load' pc' b)) = insn_shape m a b"
proof -
  have k: "mem_loc (fst (decode_operand l p x)) = mem_loc x" "is_byte_reg (fst (decode_operand l p x)) = is_byte_reg x"
    "is_word_reg (fst (decode_operand l p x)) = is_word_reg x" "is_imm8 (fst (decode_operand l p x)) = is_imm8 x"
    "is_imm16 (fst (decode_operand l p x)) = is_imm16 x" "is_bit (fst (decode_operand l p x)) = is_bit x"
    "is_rel8 (fst (decode_operand l p x)) = is_rel8 x" "is_shamt (fst (decode_operand l p x)) = is_shamt x"
    "is_jump_target (fst (decode_operand l p x)) = is_jump_target x" "is_callt (fst (decode_operand l p x)) = is_callt x"
    "is_sel_rb (fst (decode_operand l p x)) = is_sel_rb x"
    "fst (decode_operand l p x) = OP_ES \<longleftrightarrow> x = OP_ES" "fst (decode_operand l p x) = OP_SP \<longleftrightarrow> x = OP_SP" 
    "fst (decode_operand l p x) = OP_PSW \<longleftrightarrow> x = OP_PSW" "fst (decode_operand l p x) = OP_BYTE_REG REG_A \<longleftrightarrow> x = OP_BYTE_REG REG_A"  for l p x
    by (cases x; simp add: decode_operand_defs Let_def split: RL78BitOpKind.split)+
  show ?thesis by (cases m) (simp_all add: k byte_loc_def word_loc_def)
qed

lemma nth_table_ok: "mnemonic (decode_table t ! unat (b::u8)) \<noteq> INSN_UNKNOWN \<Longrightarrow>
   insn_shape (mnemonic (decode_table t ! unat b)) (operand0 (decode_table t ! unat b)) (operand1 (decode_table t ! unat b)) \<and>
   entry_ok (operand0 (decode_table t ! unat b)) \<and> entry_ok (operand1 (decode_table t ! unat b))"
proof -
  have "unat b < length (decode_table t)" using unsigned_less[of b, where ?'a = nat] by (simp add: table_length)
  then have "table_entry_ok (decode_table t ! unat b)" using tables_ok[of t] nth_mem by (auto simp: list_all_iff)
  then show "mnemonic (decode_table t ! unat (b::u8)) \<noteq> INSN_UNKNOWN \<Longrightarrow>
   insn_shape (mnemonic (decode_table t ! unat b)) (operand0 (decode_table t ! unat b)) (operand1 (decode_table t ! unat b)) \<and>
   entry_ok (operand0 (decode_table t ! unat b)) \<and> entry_ok (operand1 (decode_table t ! unat b))"
    by (auto simp: table_entry_ok_def)
qed

lemma decode_insn_alt:
  "decode_insn load pc es = (case decode_opcode load MAP_1ST True pc es of
      (None, p, e) \<Rightarrow> (None, p, e)
    | (Some i, p, e) \<Rightarrow>
        (Some (i\<lparr>operand0 := fst (decode_operand load p (operand0 i)),
            operand1 := fst (decode_operand load (p + of_nat (op_len (operand0 i))) (operand1 i))\<rparr>),
         p + of_nat (insn_len i), e))"
  by (simp add: decode_insn_def case_prod_beta decode_operand_len insn_len_def add.assoc Let_def
      split: option.split)

lemma decode_insn_SomeE:
  assumes "decode_insn load pc es = (Some i, pc', es')"
  obtains i0 p1 where "decode_opcode load MAP_1ST True pc es = (Some i0, p1, es')"
    and "i = i0\<lparr>operand0 := fst (decode_operand load p1 (operand0 i0)),
              operand1 := fst (decode_operand load (p1 + of_nat (op_len (operand0 i0))) (operand1 i0))\<rparr>"
    and "pc' = p1 + of_nat (insn_len i0)"
  using assms by (auto simp: decode_insn_alt split: prod.splits option.splits)

lemma decode_insn_wf:
  assumes "decode_insn load pc es = (Some i, pc', es')"
  shows "insn_ok i"
  using assms
proof (rule decode_insn_SomeE)
  fix i0 p1
  assume d: "decode_opcode load MAP_1ST True pc es = (Some i0, p1, es')"
    and i: "i = i0\<lparr>operand0 := fst (decode_operand load p1 (operand0 i0)),
              operand1 := fst (decode_operand load (p1 + of_nat (op_len (operand0 i0))) (operand1 i0))\<rparr>"
  obtain t b where "i0 = decode_table t ! unat (b::u8)" "mnemonic i0 \<noteq> INSN_UNKNOWN"
    using decode_opcode_Some[OF d] by (auto simp: dec_reads_def)
  then show "insn_ok i"
    using nth_table_ok[of t b] by (simp add: i insn_ok_def decode_operand_shape decode_operand_ok)
qed

lemma decode_insn_extent:
  assumes "decode_insn load pc es = (Some i, pc', es')"
  shows "\<exists>n. 1 \<le> n \<and> n \<le> 5 \<and> pc' = pc + of_nat n \<and>
    (\<forall>load'. (\<forall>j<n. load' (pc + of_nat j) = load (pc + of_nat j)) \<longrightarrow> decode_insn load' pc es = (Some i, pc', es'))"
  using assms
proof (rule decode_insn_SomeE)
  fix i0 p1
  assume d: "decode_opcode load MAP_1ST True pc es = (Some i0, p1, es')"
    and i: "i = i0\<lparr>operand0 := fst (decode_operand load p1 (operand0 i0)),
              operand1 := fst (decode_operand load (p1 + of_nat (op_len (operand0 i0))) (operand1 i0))\<rparr>"
    and pc': "pc' = p1 + of_nat (insn_len i0)"
  obtain k where k: "1 \<le> k" "k + insn_len i0 \<le> 5" "p1 = pc + of_nat k"
    and loc: "\<And>load'. (\<forall>j<k. load' (pc + of_nat j) = load (pc + of_nat j)) \<Longrightarrow>
        decode_opcode load' MAP_1ST True pc es = (Some i0, p1, es')"
    using decode_opcode_Some[OF d] by (auto simp: dec_reads_def opcode_bound_def)
  have "decode_insn load' pc es = (Some i, pc', es')"
    if a: "\<forall>j<k + insn_len i0. load' (pc + of_nat j) = load (pc + of_nat j)" for load'
  proof -
    have rest: "load' (p1 + of_nat j) = load (p1 + of_nat j)" if "j < insn_len i0" for j
      using a[rule_format, of "k + j"] that by (simp add: k(3) add.assoc)
    have o0: "decode_operand load' p1 (operand0 i0) = decode_operand load p1 (operand0 i0)"
      by (rule decode_operand_local) (simp add: rest insn_len_def)
    have o1: "decode_operand load' (p1 + of_nat (op_len (operand0 i0))) (operand1 i0) =
        decode_operand load (p1 + of_nat (op_len (operand0 i0))) (operand1 i0)"
      using rest[of "op_len (operand0 i0) + j" for j]
      by (intro decode_operand_local) (simp add: insn_len_def add.assoc)
    show ?thesis using loc[of load'] a o0 o1 by (simp add: decode_insn_alt i pc')
  qed
  then show ?thesis using k pc' by (intro exI[of _ "k + insn_len i0"]) (simp add: add.assoc)
qed

lemma prefix_entry_unknown: "mnemonic (decode_table_1st_map ! 0x11) = INSN_UNKNOWN"
  by code_simp

lemma decode_opcode_es:
  "decode_opcode load tab first pc es = (r, pc', es') \<Longrightarrow>
     es' = (es \<or> (tab = MAP_1ST \<and> first \<and> load pc = 0x11))"
proof (induction "if tab = MAP_1ST then (if first then 2 else 1) else (0::nat)"
    arbitrary: tab first pc es rule: less_induct)
  case less
  show ?case
  proof (cases "mnemonic (decode_table tab ! unat (load pc)) = INSN_UNKNOWN")
    case False
    moreover have "\<not> (tab = MAP_1ST \<and> load pc = 0x11)"
      using False prefix_entry_unknown by auto
    ultimately show ?thesis using less.prems by (auto simp: decode_opcode_found)
  next
    case True
    define h where "h = unknown_handler tab (load pc) first"
    note nx = decode_opcode_next[where load = load, OF True h_def[symmetric], of es]
    show ?thesis
    proof (cases "h = UNKNOWN_INSN")
      case True
      then show ?thesis using less.prems nx by (auto simp: h_def unknown_handler_def split: if_splits)
    next
      case False
      have "es' = ((es \<or> h = USE_PREFIX) \<or> (next_map h tab = MAP_1ST \<and> False \<and> load (pc + 1) = 0x11))"
      proof (rule less.hyps)
        show "(if next_map h tab = MAP_1ST then if False then 2 else 1 else 0)
          < (if tab = MAP_1ST then if first then 2 else 1 else (0::nat))"
          using False by (auto simp: h_def unknown_handler_def split: if_splits)
        show "decode_opcode load (next_map h tab) False (pc + 1) (es \<or> h = USE_PREFIX) = (r, pc', es')"
          using less.prems nx False by simp
      qed
      then show ?thesis using False by (auto simp: h_def unknown_handler_def split: if_splits)
    qed
  qed
qed

lemma decode_insn_es:
  assumes "decode_insn load pc es = (Some i, pc', es')"
  shows "es' = (es \<or> load pc = 0x11)"
proof -
  obtain r pc1 es1 where o: "decode_opcode load MAP_1ST True pc es = (r, pc1, es1)" by (metis prod_cases3)
  then have "es' = es1" using assms by (auto simp: decode_insn_def Let_def split: option.splits prod.splits)
  then show ?thesis using decode_opcode_es[OF o] by simp
qed

end
