(* ===== verification/RL78_Op_Helper.thy ===== *)
theory RL78_Op_Helper
  imports RL78_Insn
begin

text \<open>The run-time helpers of \<^verbatim>\<open>src/arch/rl78/op_helper.c\<close>: byte access to the
  memory-mapped CPU registers, test-and-clear of a bit, and the multiply / divide /
  accumulate unit commanded through address 0xFFFFB.

  \<^verbatim>\<open>tlib_guest_offset_to_host_ptr\<close> belongs to the host application; the parameter
  \<^verbatim>\<open>host_ptr\<close> says for which addresses it returns a pointer (which then points at the
  same guest byte that \<^verbatim>\<open>ldub_phys\<close> reads through \<^verbatim>\<open>get_ram_ptr\<close>).\<close>

section \<open>Register pairs\<close>

definition rl78_get_rp :: "CPUState \<Rightarrow> RL78WordRegister \<Rightarrow> u32" where
  "rl78_get_rp env rp =
     (let bank = unat (psw_rbs (env_psw env) AND 3);
          lo = env_regs env bank (word_reg_num rp * 2) AND 0xFF;
          hi = env_regs env bank (word_reg_num rp * 2 + 1) AND 0xFF
      in lo OR push_bit 8 hi)"

definition rl78_set_rp :: "CPUState \<Rightarrow> RL78WordRegister \<Rightarrow> u32 \<Rightarrow> CPUState" where
  "rl78_set_rp env rp value =
     (let bank = unat (psw_rbs (env_psw env) AND 3)
      in set_reg bank (word_reg_num rp * 2 + 1) (drop_bit 8 value AND 0xFF)
           (set_reg bank (word_reg_num rp * 2) (value AND 0xFF) env))"

definition rl78_reg_hl :: "CPUState \<Rightarrow> u32" where
  "rl78_reg_hl env =
     (let bank = unat (psw_rbs (env_psw env) AND 3);
          l = env_regs env bank (byte_reg_num REG_L) AND 0xFF;
          h = env_regs env bank (byte_reg_num REG_H) AND 0xFF
      in l OR push_bit 8 h)"

lemma rl78_reg_hl_rp: "rl78_reg_hl env = rl78_get_rp env REG_HL"
  by (simp add: rl78_reg_hl_def rl78_get_rp_def)

lemma get_set_rp [simp]:
  "rl78_get_rp (rl78_set_rp env rp v) rp' =
     (if rp' = rp then v AND 0xFFFF else rl78_get_rp env rp')"
  by (cases rp; cases rp') (simp_all add: rl78_get_rp_def rl78_set_rp_def Let_def mask_simps)

lemma unat_get_rp_less: "unat (rl78_get_rp env rp) < 65536"
  by (simp add: rl78_get_rp_def Let_def mask_simps unat_compose_u16_less)

lemma set_rp_simps [simp]:
  "env_psw (rl78_set_rp c rp v) = env_psw c" "env_sp (rl78_set_rp c rp v) = env_sp c"
  "env_pc (rl78_set_rp c rp v) = env_pc c" "env_es (rl78_set_rp c rp v) = env_es c"
  "env_cs (rl78_set_rp c rp v) = env_cs c"
  by (simp_all add: rl78_set_rp_def Let_def)

section \<open>Byte access with the memory-mapped registers\<close>

definition rl78_read_byte :: "(u32 \<Rightarrow> bool) \<Rightarrow> machine \<Rightarrow> u32 \<Rightarrow> u32" where
  "rl78_read_byte host_ptr m paddr =
     (if paddr = 0xFFFF8 then env_sp (cpu m) AND 0xFF
      else if paddr = 0xFFFF9 then drop_bit 8 (env_sp (cpu m)) AND 0xFF
      else if paddr = 0xFFFFA then ucast (rl78_cpu_pack_psw (env_psw (cpu m)))
      else if paddr = 0xFFFFC then env_cs (cpu m) AND 0x0F
      else if paddr = 0xFFFFD then env_es (cpu m) AND 0x0F
      else if host_ptr paddr then ucast (ram m paddr)
      else ldub_phys m paddr)"

definition rl78_read_u16 :: "(u32 \<Rightarrow> bool) \<Rightarrow> machine \<Rightarrow> u32 \<Rightarrow> u32" where
  "rl78_read_u16 host_ptr m paddr =
     rl78_read_byte host_ptr m paddr OR push_bit 8 (rl78_read_byte host_ptr m (paddr + 1))"

definition RL78_MACRL_PADDR :: u32 where "RL78_MACRL_PADDR = 0xFFFF0"
definition RL78_MACRH_PADDR :: u32 where "RL78_MACRH_PADDR = 0xFFFF2"

definition rl78_load_macr :: "(u32 \<Rightarrow> bool) \<Rightarrow> machine \<Rightarrow> u32" where
  "rl78_load_macr host_ptr m =
     (let lo = rl78_read_u16 host_ptr m RL78_MACRL_PADDR;
          hi = rl78_read_u16 host_ptr m RL78_MACRH_PADDR
      in lo OR push_bit 16 hi)"

section \<open>Byte writes and the multiply / divide / accumulate unit\<close>

text \<open>\<^verbatim>\<open>rl78_write_byte\<close> and \<^verbatim>\<open>helper_rl78_mdu_cmd\<close> call each other: a byte written to
  0xFFFFB is a command, and the accumulate commands write their result through
  \<^verbatim>\<open>rl78_write_byte\<close> at 0xFFFF0..0xFFFF3. The measure counts the calls that can
  still follow; the recursion ends because those four addresses are plain memory.\<close>

definition mdu_mulhu :: "CPUState \<Rightarrow> CPUState" where
  "mdu_mulhu env =
     (let ax = rl78_get_rp env REG_AX; bc = rl78_get_rp env REG_BC;
          product = ax * bc;
          env = rl78_set_rp env REG_AX (product AND 0xFFFF)
      in rl78_set_rp env REG_BC (drop_bit 16 product AND 0xFFFF))"

definition mdu_mulh :: "CPUState \<Rightarrow> CPUState" where
  "mdu_mulh env =
     (let ax = (scast (ucast (rl78_get_rp env REG_AX) :: u16) :: u32);
          bc = (scast (ucast (rl78_get_rp env REG_BC) :: u16) :: u32);
          product = ax * bc;
          env = rl78_set_rp env REG_AX (product AND 0xFFFF)
      in rl78_set_rp env REG_BC (drop_bit 16 product AND 0xFFFF))"

definition mdu_divhu :: "CPUState \<Rightarrow> CPUState" where
  "mdu_divhu env =
     (let ax = rl78_get_rp env REG_AX; de = rl78_get_rp env REG_DE
      in if de = 0
         then rl78_set_rp (rl78_set_rp env REG_AX 0xFFFF) REG_DE ax
         else rl78_set_rp (rl78_set_rp env REG_AX (ax div de)) REG_DE (ax mod de))"

definition mdu_divwu :: "CPUState \<Rightarrow> CPUState" where
  "mdu_divwu env =
     (let ax = rl78_get_rp env REG_AX; bc = rl78_get_rp env REG_BC;
          de = rl78_get_rp env REG_DE; hl = rl78_get_rp env REG_HL;
          dividend = ax OR push_bit 16 bc;
          divisor = de OR push_bit 16 hl
      in if divisor = 0
         then rl78_set_rp (rl78_set_rp (rl78_set_rp (rl78_set_rp env REG_AX 0xFFFF) REG_BC 0xFFFF)
                REG_DE ax) REG_HL bc
         else let quot = dividend div divisor; rem = dividend mod divisor
              in rl78_set_rp (rl78_set_rp (rl78_set_rp (rl78_set_rp env
                   REG_AX (quot AND 0xFFFF)) REG_BC (drop_bit 16 quot AND 0xFFFF))
                   REG_DE (rem AND 0xFFFF)) REG_HL (drop_bit 16 rem AND 0xFFFF))"

definition set_flags :: "u32 \<Rightarrow> u32 \<Rightarrow> u32 \<Rightarrow> machine \<Rightarrow> machine" where
  "set_flags cy ac z m =
     m\<lparr>cpu := (cpu m)\<lparr>env_psw := (env_psw (cpu m))\<lparr>psw_cy := cy, psw_ac := ac, psw_z := z\<rparr>\<rparr>\<rparr>"

function (sequential)
  rl78_write_byte :: "(u32 \<Rightarrow> bool) \<Rightarrow> machine \<Rightarrow> u32 \<Rightarrow> u32 \<Rightarrow> machine" and
  rl78_write_u16 :: "(u32 \<Rightarrow> bool) \<Rightarrow> machine \<Rightarrow> u32 \<Rightarrow> u32 \<Rightarrow> machine" and
  rl78_store_macr :: "(u32 \<Rightarrow> bool) \<Rightarrow> machine \<Rightarrow> u32 \<Rightarrow> machine" and
  helper_rl78_mdu_cmd :: "(u32 \<Rightarrow> bool) \<Rightarrow> machine \<Rightarrow> u32 \<Rightarrow> machine"
where
  "rl78_write_byte host_ptr m paddr data0 =
     (let data = data0 AND 0xFF in
      if paddr = 0xFFFF8 then
        (let sp = (env_sp (cpu m) AND 0xFF00) OR data
         in m\<lparr>cpu := (cpu m)\<lparr>env_sp := sp AND 0xFFFE\<rparr>\<rparr>)
      else if paddr = 0xFFFF9 then
        (let sp = (env_sp (cpu m) AND 0x00FF) OR push_bit 8 data
         in m\<lparr>cpu := (cpu m)\<lparr>env_sp := sp AND 0xFFFE\<rparr>\<rparr>)
      else if paddr = 0xFFFFA then m\<lparr>cpu := (cpu m)\<lparr>env_psw := rl78_cpu_unpack_psw (ucast data)\<rparr>\<rparr>
      else if paddr = 0xFFFFB then helper_rl78_mdu_cmd host_ptr m data
      else if paddr = 0xFFFFC then m\<lparr>cpu := (cpu m)\<lparr>env_cs := data AND 0x0F\<rparr>\<rparr>
      else if paddr = 0xFFFFD then m\<lparr>cpu := (cpu m)\<lparr>env_es := data AND 0x0F\<rparr>\<rparr>
      else if host_ptr paddr then m\<lparr>ram := (ram m)(paddr := ucast data)\<rparr>
      else stb_phys m paddr data)"
| "rl78_write_u16 host_ptr m paddr value =
     (let m = rl78_write_byte host_ptr m paddr (value AND 0xFF)
      in rl78_write_byte host_ptr m (paddr + 1) (drop_bit 8 value AND 0xFF))"
| "rl78_store_macr host_ptr m macr =
     (let m = rl78_write_u16 host_ptr m RL78_MACRL_PADDR (macr AND 0xFFFF)
      in rl78_write_u16 host_ptr m RL78_MACRH_PADDR (drop_bit 16 macr AND 0xFFFF))"
| "helper_rl78_mdu_cmd host_ptr m cmd =
     (let c = cmd AND 0xFF in
      if c = 0x01 then m\<lparr>cpu := mdu_mulhu (cpu m)\<rparr>
      else if c = 0x02 then m\<lparr>cpu := mdu_mulh (cpu m)\<rparr>
      else if c = 0x03 then m\<lparr>cpu := mdu_divhu (cpu m)\<rparr>
      else if c = 0x0B then m\<lparr>cpu := mdu_divwu (cpu m)\<rparr>
      else if c = 0x05 then
        (let ax = rl78_get_rp (cpu m) REG_AX; bc = rl78_get_rp (cpu m) REG_BC;
             macr = rl78_load_macr host_ptr m;
             product = (ucast ax :: u64) * ucast bc;
             sum = ucast macr + product;
             m = rl78_store_macr host_ptr m (ucast sum)
         in set_flags (if sum > 0xFFFFFFFF then 1 else 0) 0 0 m)
      else if c = 0x06 then
        (let ax = (scast (ucast (rl78_get_rp (cpu m) REG_AX) :: u16) :: u32);
             bc = (scast (ucast (rl78_get_rp (cpu m) REG_BC) :: u16) :: u32);
             macr = rl78_load_macr host_ptr m;
             product = ax * bc;
             result = macr + product;
             ov = drop_bit 31 ((macr XOR result) AND (product XOR result));
             m = rl78_store_macr host_ptr m result
         in set_flags (ov AND 1) (drop_bit 31 result AND 1) 0 m)
      else m)"
  by pat_completeness auto
termination
  apply (relation "measure (\<lambda>x. case x of
         Inl (Inl (_, _, a, _)) \<Rightarrow> if a = 0xFFFFB then 4 else 0
       | Inl (Inr (_, _, a, _)) \<Rightarrow> if a = 0xFFFFB \<or> a + 1 = 0xFFFFB then 5 else 1
       | Inr (Inl _) \<Rightarrow> 2
       | Inr (Inr _) \<Rightarrow> 3)")
         apply simp_all
   apply (simp_all only: RL78_MACRL_PADDR_def RL78_MACRH_PADDR_def)
   apply simp_all
  done

declare rl78_write_byte.simps [simp del] rl78_write_u16.simps [simp del]
  rl78_store_macr.simps [simp del] helper_rl78_mdu_cmd.simps [simp del]

definition helper_rl78_stb :: "(u32 \<Rightarrow> bool) \<Rightarrow> machine \<Rightarrow> u32 \<Rightarrow> u32 \<Rightarrow> machine" where
  "helper_rl78_stb host_ptr m paddr data = rl78_write_byte host_ptr m paddr data"

section \<open>Test and clear a bit\<close>

definition helper_rl78_btclr_paddr ::
  "(u32 \<Rightarrow> bool) \<Rightarrow> machine \<Rightarrow> u32 \<Rightarrow> u32 \<Rightarrow> u32 \<times> machine" where
  "helper_rl78_btclr_paddr host_ptr m paddr bitno =
     (let mask = push_bit (unat (bitno AND 7)) 1;
          byte = rl78_read_byte host_ptr m paddr
      in if byte AND mask = 0 then (0, m)
         else (1, rl78_write_byte host_ptr m paddr (byte AND NOT mask)))"

definition helper_rl78_btclr ::
  "(u32 \<Rightarrow> bool) \<Rightarrow> machine \<Rightarrow> u32 \<Rightarrow> u32 \<Rightarrow> u32 \<Rightarrow> u32 \<Rightarrow> u32 \<times> machine" where
  "helper_rl78_btclr host_ptr m kind addr bitno use_es =
     (let env = cpu m; bank = unat (psw_rbs (env_psw env) AND 3) in
      if kind = 5 then
        (if psw_cy (env_psw env) AND 1 = 0 then (0, m)
         else (1, m\<lparr>cpu := env\<lparr>env_psw := (env_psw env)\<lparr>psw_cy := 0\<rparr>\<rparr>\<rparr>))
      else if kind = 2 then
        (let mask = push_bit (unat (bitno AND 7)) 1;
             byte = env_regs env bank (byte_reg_num REG_A) AND 0xFF
         in if byte AND mask = 0 then (0, m)
            else (1, m\<lparr>cpu := set_reg bank (byte_reg_num REG_A) (byte AND NOT mask) env\<rparr>))
      else if kind = 0 then
        helper_rl78_btclr_paddr host_ptr m
          ((if addr < 0x20 then 0xFFF00 else 0xFFE00) + (addr AND 0xFF)) bitno
      else if kind = 1 then
        helper_rl78_btclr_paddr host_ptr m (0xFFF00 + (addr AND 0xFF)) bitno
      else if kind = 3 then
        helper_rl78_btclr_paddr host_ptr m
          (if use_es \<noteq> 0 then push_bit 16 (env_es env AND 0x0F) OR (addr AND 0xFFFF)
           else (addr AND 0xFFFF) OR 0xF0000) bitno
      else if kind = 4 then
        helper_rl78_btclr_paddr host_ptr m
          (if use_es \<noteq> 0 then push_bit 16 (env_es env AND 0x0F) OR rl78_reg_hl env
           else rl78_reg_hl env OR 0xF0000) bitno
      else (0, m))"

section \<open>Reads and writes\<close>

lemma write_byte_plain:
  assumes "paddr < 0xFFFF8 \<or> 0xFFFFD < paddr"
  shows "rl78_write_byte host_ptr m paddr data = m\<lparr>ram := (ram m)(paddr := ucast data)\<rparr>"
proof -
  have "ucast (take_bit 8 data) = (ucast data :: u8)"
    by (rule byte_eqI) (simp add: bit_norm)
  moreover have "paddr \<notin> {0xFFFF8, 0xFFFF9, 0xFFFFA, 0xFFFFB, 0xFFFFC, 0xFFFFD}" using assms by auto
  ultimately show ?thesis
    by (subst rl78_write_byte.simps) (simp add: stb_phys_def Let_def mask_simps)
qed
lemma read_byte_plain:
  assumes "paddr < 0xFFFF8 \<or> 0xFFFFD < paddr"
  shows "rl78_read_byte host_ptr m paddr = ucast (ram m paddr)"
  using assms by (auto simp: rl78_read_byte_def ldub_phys_def)

text \<open>The 32-bit accumulator in the four bytes at 0xFFFF0.\<close>

definition macr_val :: "machine \<Rightarrow> u32" where
  "macr_val m = ucast (ram m 0xFFFF0) OR push_bit 8 (ucast (ram m 0xFFFF1)) OR
     push_bit 16 (ucast (ram m 0xFFFF2)) OR push_bit 24 (ucast (ram m 0xFFFF3))"

lemma load_macr_val: "rl78_load_macr hp m = macr_val m"
  by (simp add: rl78_load_macr_def rl78_read_u16_def RL78_MACRL_PADDR_def RL78_MACRH_PADDR_def
     read_byte_plain Let_def macr_val_def or.assoc)

lemma store_macr_eq:
  "rl78_store_macr hp m v = m\<lparr>ram := (ram m)(0xFFFF0 := ucast v, 0xFFFF1 := ucast (drop_bit 8 v),
     0xFFFF2 := ucast (drop_bit 16 v), 0xFFFF3 := ucast (drop_bit 24 v))\<rparr>"
  by (simp add: rl78_store_macr.simps rl78_write_u16.simps Let_def RL78_MACRL_PADDR_def RL78_MACRH_PADDR_def
     write_byte_plain mask_simps ucast_u8_norm)

lemma macr_val_store [simp]: "macr_val (rl78_store_macr hp m v) = v"
proof -
  have "(ucast (ucast v :: u8) :: u32) OR push_bit 8 (ucast (ucast (drop_bit 8 v) :: u8)) OR
     push_bit 16 (ucast (ucast (drop_bit 16 v) :: u8)) OR push_bit 24 (ucast (ucast (drop_bit 24 v) :: u8)) = v"
  proof (rule bit_word_eqI)
    fix n assume "n < LENGTH(32)"
    then consider "n < 8" | "8 \<le> n" "n < 16" | "16 \<le> n" "n < 24" | "24 \<le> n" "n < 32"
      by force
    then show "bit ((ucast (ucast v :: u8) :: u32) OR push_bit 8 (ucast (ucast (drop_bit 8 v) :: u8)) OR
     push_bit 16 (ucast (ucast (drop_bit 16 v) :: u8)) OR push_bit 24 (ucast (ucast (drop_bit 24 v) :: u8))) n = bit v n"
      by cases (auto simp: bit_norm)
  qed
  then show ?thesis by (simp add: macr_val_def store_macr_eq)
qed
lemma cpu_store_macr [simp]: "cpu (rl78_store_macr hp m v) = cpu m"
  by (simp add: store_macr_eq)
lemma macr_val_set_flags [simp]: "macr_val (set_flags a b c m) = macr_val m"
  by (simp add: set_flags_def macr_val_def)

text \<open>The bits a byte write keeps: bit 0 of SP and the upper nibbles of CS and ES
  are not stored.\<close>

definition writable_mask :: "u32 \<Rightarrow> u32" where
  "writable_mask paddr = (if paddr = 0xFFFF8 then 0xFE else if paddr = 0xFFFFC \<or> paddr = 0xFFFFD then 0x0F else 0xFF)"

lemma read_write_byte:
  assumes "paddr \<noteq> 0xFFFFB"
  shows "rl78_read_byte hp (rl78_write_byte hp m paddr v) paddr = v AND writable_mask paddr"
proof -
  have n: "ucast (ucast (v AND 0xFF) :: u8) = v AND 0xFF" "ucast (ucast (v) :: u8) = v AND 0xFF"
    by (rule bit_word_eqI; simp add: mask_simps bit_norm; fail)+
  have sp0: "((w AND 0xFF00 OR (v AND 0xFF)) AND 0xFFFE) AND 0xFF = v AND 0xFE" for w
    by (rule bit_word_eqI) (simp only: mask_simps bit_norm bit_mask_numerals, auto)
  have sp1: "drop_bit 8 ((w AND 0xFF OR push_bit 8 (v AND 0xFF)) AND 0xFFFE) AND 0xFF = v AND 0xFF" for w
    by (rule bit_word_eqI) (simp only: mask_simps bit_norm bit_mask_numerals, auto)
  have c4: "((v AND 0xFF) AND 0x0F) AND 0x0F = v AND 0x0F"
    by (rule bit_word_eqI) (simp only: mask_simps bit_norm, auto)
  consider "paddr = 0xFFFF8" | "paddr = 0xFFFF9" | "paddr = 0xFFFFA" | "paddr = 0xFFFFC" | "paddr = 0xFFFFD"
    | "paddr \<notin> {0xFFFF8, 0xFFFF9, 0xFFFFA, 0xFFFFB, 0xFFFFC, 0xFFFFD}" using assms by auto
  then show ?thesis
  proof cases
    case 1
    define s' where "s' = (env_sp (cpu m) AND 0xFF00 OR (v AND 0xFF)) AND 0xFFFE"
    have "s' AND 0xFF = v AND 0xFE" unfolding s'_def by (rule sp0)
    moreover have "rl78_write_byte hp m paddr v = m\<lparr>cpu := (cpu m)\<lparr>env_sp := s'\<rparr>\<rparr>"
      by (simp add: 1 s'_def rl78_write_byte.simps Let_def)
    ultimately show ?thesis by (simp add: 1 writable_mask_def rl78_read_byte_def)
  next
    case 2
    define s' where "s' = (env_sp (cpu m) AND 0xFF OR push_bit 8 (v AND 0xFF)) AND 0xFFFE"
    have "drop_bit 8 s' AND 0xFF = v AND 0xFF" unfolding s'_def by (rule sp1)
    moreover have "rl78_write_byte hp m paddr v = m\<lparr>cpu := (cpu m)\<lparr>env_sp := s'\<rparr>\<rparr>"
      by (simp add: 2 s'_def rl78_write_byte.simps Let_def)
    ultimately show ?thesis by (simp add: 2 writable_mask_def rl78_read_byte_def)
  next
    case 3 then show ?thesis
      by (simp add: writable_mask_def rl78_read_byte_def rl78_write_byte.simps Let_def n)
  next
    case 4 then show ?thesis using c4
      by (simp add: writable_mask_def rl78_read_byte_def rl78_write_byte.simps Let_def)
  next
    case 5 then show ?thesis using c4
      by (simp add: writable_mask_def rl78_read_byte_def rl78_write_byte.simps Let_def)
  next
    case 6 then show ?thesis 
      by (simp add: writable_mask_def rl78_read_byte_def rl78_write_byte.simps Let_def n ldub_phys_def)
  qed
qed


section \<open>The unit computes products, quotients and accumulations\<close>

lemma mdu_mulhu_product:
  "unat (rl78_get_rp (mdu_mulhu env) REG_AX) + 65536 * unat (rl78_get_rp (mdu_mulhu env) REG_BC) =
   unat (rl78_get_rp env REG_AX) * unat (rl78_get_rp env REG_BC)"
proof -
  have "unat (rl78_get_rp env REG_AX) * unat (rl78_get_rp env REG_BC) \<le> 65535 * 65535"
    using unat_get_rp_less by (intro mult_le_mono) (simp_all add: less_Suc_eq_le[symmetric])
  then have "unat (rl78_get_rp env REG_AX * rl78_get_rp env REG_BC) =
      unat (rl78_get_rp env REG_AX) * unat (rl78_get_rp env REG_BC)"
    by (simp add: unat_mult_lem[THEN iffD1])
  then show ?thesis
    using unat_hi_lo[of "rl78_get_rp env REG_AX * rl78_get_rp env REG_BC"]
    by (simp add: mdu_mulhu_def Let_def mask_simps)
qed

lemma mdu_mulh_product:
  fixes env
  defines "a \<equiv> sint (ucast (rl78_get_rp env REG_AX) :: u16)"
    and "b \<equiv> sint (ucast (rl78_get_rp env REG_BC) :: u16)"
  shows "sint (rl78_get_rp (mdu_mulh env) REG_AX OR push_bit 16 (rl78_get_rp (mdu_mulh env) REG_BC)) = a * b"
  unfolding a_def b_def sint_mult_u16[symmetric]
  by (simp add: mdu_mulh_def Let_def mask_simps recompose_u32)

lemma mdu_divhu_result:
  assumes "rl78_get_rp env REG_DE \<noteq> 0"
  shows "unat (rl78_get_rp (mdu_divhu env) REG_AX) =
           unat (rl78_get_rp env REG_AX) div unat (rl78_get_rp env REG_DE)"
    and "unat (rl78_get_rp (mdu_divhu env) REG_DE) =
           unat (rl78_get_rp env REG_AX) mod unat (rl78_get_rp env REG_DE)"
proof -
  have "unat (rl78_get_rp env REG_AX) div unat (rl78_get_rp env REG_DE) < 65536"
    "unat (rl78_get_rp env REG_AX) mod unat (rl78_get_rp env REG_DE) < 65536"
    using unat_get_rp_less[of env REG_AX] le_less_trans[OF div_le_dividend]
      le_less_trans[OF mod_less_eq_dividend] by blast+
  then show "unat (rl78_get_rp (mdu_divhu env) REG_AX) =
           unat (rl78_get_rp env REG_AX) div unat (rl78_get_rp env REG_DE)"
    and "unat (rl78_get_rp (mdu_divhu env) REG_DE) =
           unat (rl78_get_rp env REG_AX) mod unat (rl78_get_rp env REG_DE)"
    using assms by (simp_all add: mdu_divhu_def Let_def mask_simps unat_take_bit unat_div unat_mod)
qed

lemma mdu_divhu_zero:
  assumes "rl78_get_rp env REG_DE = 0"
  shows "rl78_get_rp (mdu_divhu env) REG_AX = 0xFFFF"
   and "rl78_get_rp (mdu_divhu env) REG_DE = rl78_get_rp env REG_AX"
  using assms unat_get_rp_less[of env REG_AX] 
  by (simp_all add: mdu_divhu_def Let_def mask_simps)

definition rp32 :: "CPUState \<Rightarrow> RL78WordRegister \<Rightarrow> RL78WordRegister \<Rightarrow> u32" where
  "rp32 env lo hi = rl78_get_rp env lo OR push_bit 16 (rl78_get_rp env hi)"
lemma mdu_divwu_result:
  assumes "rp32 env REG_DE REG_HL \<noteq> 0"
  shows "rp32 (mdu_divwu env) REG_AX REG_BC = rp32 env REG_AX REG_BC div rp32 env REG_DE REG_HL"
   and "rp32 (mdu_divwu env) REG_DE REG_HL = rp32 env REG_AX REG_BC mod rp32 env REG_DE REG_HL"
  using assms
  by (simp_all add: mdu_divwu_def rp32_def Let_def mask_simps recompose_u32)

lemma mdu_divwu_zero:
  assumes "rp32 env REG_DE REG_HL = 0"
  shows "rp32 (mdu_divwu env) REG_AX REG_BC = - 1" "rp32 (mdu_divwu env) REG_DE REG_HL = rp32 env REG_AX REG_BC"
proof -
  have m: "rl78_get_rp env r AND 0xFFFF = rl78_get_rp env r" for r using unat_get_rp_less[of env r] by (simp add: mask_simps)
  have "(0xFFFF :: u32) OR push_bit 16 0xFFFF = - 1" by simp
  then show "rp32 (mdu_divwu env) REG_AX REG_BC = - 1" "rp32 (mdu_divwu env) REG_DE REG_HL = rp32 env REG_AX REG_BC"
    using assms m by (simp_all add: mdu_divwu_def rp32_def Let_def)
qed

lemma mdu_machu:
  fixes hp m
  defines "m' \<equiv> helper_rl78_mdu_cmd hp m 5"
    and "s \<equiv> unat (macr_val m) + unat (rl78_get_rp (cpu m) REG_AX) * unat (rl78_get_rp (cpu m) REG_BC)"
  shows "unat (macr_val m') = s mod 2 ^ 32"
    and "cpu m' = (cpu m)\<lparr>env_psw := (env_psw (cpu m))\<lparr>psw_cy := (if s < 2 ^ 32 then 0 else 1), psw_ac := 0, psw_z := 0\<rparr>\<rparr>"
proof -
  define sum :: u64 where "sum = ucast (macr_val m) + ucast (rl78_get_rp (cpu m) REG_AX) * ucast (rl78_get_rp (cpu m) REG_BC)"
  have "unat (rl78_get_rp (cpu m) REG_AX) * unat (rl78_get_rp (cpu m) REG_BC) \<le> 65535 * 65535"
    using unat_get_rp_less by (intro mult_le_mono) (simp_all add: less_Suc_eq_le[symmetric])
  moreover have "unat (macr_val m) < 2 ^ 32" using unsigned_less[of "macr_val m", where ?'a = nat] by simp
  ultimately have sum: "unat sum = s"
    by (simp add: sum_def s_def unat_word_ariths unat_ucast_u64)
  have m': "m' = set_flags (if sum > 0xFFFFFFFF then 1 else 0) 0 0 (rl78_store_macr hp m (ucast sum))"
    unfolding m'_def sum_def by (subst helper_rl78_mdu_cmd.simps) (simp add: Let_def load_macr_val)
  show "unat (macr_val m') = s mod 2 ^ 32"
    by (simp add: m' sum[symmetric] unsigned_ucast_eq take_bit_eq_mod)
  have "sum > 0xFFFFFFFF \<longleftrightarrow> s \<ge> 2 ^ 32"
    by (simp add: word_less_nat_alt sum) arith
  then show "cpu m' = (cpu m)\<lparr>env_psw := (env_psw (cpu m))\<lparr>psw_cy := (if s < 2 ^ 32 then 0 else 1), psw_ac := 0, psw_z := 0\<rparr>\<rparr>"
    by (simp add: m' set_flags_def)
qed

lemma mdu_mach:
  fixes hp m
  defines "m' \<equiv> helper_rl78_mdu_cmd hp m 6"
    and "s \<equiv> sint (macr_val m) + sint (ucast (rl78_get_rp (cpu m) REG_AX) :: u16)
                * sint (ucast (rl78_get_rp (cpu m) REG_BC) :: u16)"
  shows "sint (macr_val m') = signed_take_bit 31 s"
    and "cpu m' = (cpu m)\<lparr>env_psw := (env_psw (cpu m))\<lparr>
           psw_cy := (if - (2 ^ 31) \<le> s \<and> s < 2 ^ 31 then 0 else 1),
           psw_ac := (if sint (macr_val m') < 0 then 1 else 0), psw_z := 0\<rparr>\<rparr>"
proof -
  define p :: u32 where "p = scast (ucast (rl78_get_rp (cpu m) REG_AX) :: u16) * scast (ucast (rl78_get_rp (cpu m) REG_BC) :: u16)"
  define r where "r = macr_val m + p"
  have p: "s = sint (macr_val m) + sint p" unfolding s_def p_def sint_mult_u16 ..
  have m': "m' = set_flags (drop_bit 31 ((macr_val m XOR r) AND (p XOR r)) AND 1) (drop_bit 31 r AND 1) 0 (rl78_store_macr hp m r)"
    unfolding m'_def p_def r_def by (subst helper_rl78_mdu_cmd.simps) (simp add: Let_def load_macr_val)
  show "sint (macr_val m') = signed_take_bit 31 s"
    by (simp add: m' p r_def sint_word_ariths)
  have ac: "drop_bit 31 r AND 1 = (if sint r < 0 then 1 else 0)"
    by (simp only: drop_bit_31_and_1 sign_bit_iff)
  have mv: "macr_val m' = r" by (simp add: m')
  have cy: "drop_bit 31 ((macr_val m XOR r) AND (p XOR r)) AND 1 = (if - (2 ^ 31) \<le> s \<and> s < 2 ^ 31 then 0 else 1)"
    unfolding r_def p by (rule signed_overflow_bit)
  show "cpu m' = (cpu m)\<lparr>env_psw := (env_psw (cpu m))\<lparr>
           psw_cy := (if - (2 ^ 31) \<le> s \<and> s < 2 ^ 31 then 0 else 1),
           psw_ac := (if sint (macr_val m') < 0 then 1 else 0), psw_z := 0\<rparr>\<rparr>"
    unfolding mv unfolding m' ac cy by (simp add: set_flags_def)
qed


section \<open>Every helper keeps the invariant\<close>

lemma cpu_ok_set_reg:
  assumes "cpu_ok c" "unat v < 256"
  shows "cpu_ok (set_reg b r v c)"
  using assms by (auto simp: cpu_ok_def)

lemma cpu_ok_set_rp [simp]: "cpu_ok c \<Longrightarrow> cpu_ok (rl78_set_rp c rp v)"
  by (auto simp: rl78_set_rp_def Let_def mask_simps unat_take_bit intro!: cpu_ok_set_reg)

lemma cpu_ok_mdu_alu [simp]:
  assumes "cpu_ok c"
  shows "cpu_ok (mdu_mulhu c)" "cpu_ok (mdu_mulh c)" "cpu_ok (mdu_divhu c)" "cpu_ok (mdu_divwu c)"
  using assms by (simp_all add: mdu_mulhu_def mdu_mulh_def mdu_divhu_def mdu_divwu_def Let_def)

lemma cpu_ok_set_flags:
  assumes "cpu_ok (cpu m)" "unat cy < 2" "unat ac < 2" "unat z < 2"
  shows "cpu_ok (cpu (set_flags cy ac z m))"
  using assms by (simp add: set_flags_def cpu_ok_def psw_ok_def)

lemma mdu_cmd_ok:
  assumes "cpu_ok (cpu m)"
  shows "cpu_ok (cpu (helper_rl78_mdu_cmd hp m cmd))"
  using assms
  by (subst helper_rl78_mdu_cmd.simps) (simp add: Let_def cpu_ok_set_flags unat_and_1 del: drop_bit_and)

lemma write_byte_ok:
  assumes "cpu_ok (cpu m)"
  shows "cpu_ok (cpu (rl78_write_byte hp m paddr data))"
proof -
  have "unat ((data AND 0xFF) AND 0xF) < 16" using unat_take_bit_less[of 4 "data AND 0xFF"] by (simp add: mask_simps)
  with assms mdu_cmd_ok[OF assms] show ?thesis
    by (subst rl78_write_byte.simps) (auto simp: Let_def cpu_ok_def)
qed

lemma btclr_paddr_ok:
  assumes "cpu_ok (cpu m)"
  shows "cpu_ok (cpu (snd (helper_rl78_btclr_paddr hp m paddr b)))"
  using write_byte_ok[OF assms] assms by (simp add: helper_rl78_btclr_paddr_def Let_def)

lemma btclr_ok:
  assumes "cpu_ok (cpu m)"
  shows "cpu_ok (cpu (snd (helper_rl78_btclr hp m kind addr b es)))"
proof -
  have "unat ((v AND 0xFF) AND w) < 256" for v w :: u32
    using unat_less_bits[of "(v AND 0xFF) AND w" 8] by (simp add: mask_simps bit_norm)
  then show ?thesis
    using assms cpu_ok_set_reg[OF assms] btclr_paddr_ok[OF assms]
    by (auto simp: helper_rl78_btclr_def Let_def cpu_ok_def psw_ok_def)
qed

section \<open>Test and clear reports and clears the bit\<close>

lemma btclr_paddr_spec:
  fixes hp m paddr b
  defines "n \<equiv> unat (b AND 7)" and "r \<equiv> fst (helper_rl78_btclr_paddr hp m paddr b)"
    and "m' \<equiv> snd (helper_rl78_btclr_paddr hp m paddr b)" and "old \<equiv> rl78_read_byte hp m paddr"
  assumes "paddr \<noteq> 0xFFFFB"
  shows "r = (if bit old n then 1 else 0)"
    and "rl78_read_byte hp m' paddr = (if bit old n then (old AND NOT (push_bit n 1)) AND writable_mask paddr else old)"
  using assms by (auto simp: helper_rl78_btclr_paddr_def Let_def and_exp_eq_0_iff_not_bit read_write_byte)

end
