(* ===== verification/TCG_Context.thy ===== *)
theory TCG_Context
  imports RL78_Op_Helper "HOL-Library.State_Monad"
begin

text \<open>The code generator's state and its temporaries and labels (\<^verbatim>\<open>src/tcg/tcg.c\<close>): the
  intermediate operations as a datatype, the per-type free lists of temporaries, and the
  generation monad in which \<^verbatim>\<open>src/tcg/tcg-op.h\<close> and \<^verbatim>\<open>src/arch/rl78/translate.c\<close> are
  written. The interface the translator relies on, that a new temporary is none of the
  allocated ones, is the locale \<^verbatim>\<open>temp_allocator\<close>, interpreted on the free lists.\<close>

section \<open>Values and operations\<close>

text \<open>A 32-bit TCG value: a global (a field of \<^verbatim>\<open>CPUState\<close> registered by
  \<^verbatim>\<open>translate_init\<close>), a temporary, or a local temporary, which survives the end of a
  basic block. A 64-bit value is \<^verbatim>\<open>cpu_env\<close>, a temporary, or a 32-bit value viewed as
  64 bits (\<^verbatim>\<open>MAKE_TCGV_I64(GET_TCGV_I32(arg))\<close>), whose upper half is unspecified.\<close>

datatype tcgv = Glob reg_ref | Temp nat | TempL nat

datatype tcgv64 = Env | Temp64 nat | Of32 tcgv

datatype TCGCond = COND_NEVER | COND_ALWAYS | COND_EQ | COND_NE
  | COND_LT | COND_GE | COND_LE | COND_GT | COND_LTU | COND_GEU | COND_LEU | COND_GTU

datatype TCGMemOp = MO_8 | MO_16

datatype alu_op = ADD_I32 | SUB_I32 | AND_I32 | OR_I32 | XOR_I32 | SHL_I32 | SHR_I32 | SAR_I32
  | MUL_I32 | ANDC_I32

datatype un_op = NEG_I32 | NOT_I32 | EXT8U_I32 | EXT16U_I32

datatype tcg_helper = HELPER_rl78_btclr | HELPER_rl78_stb | HELPER_rl78_mdu_cmd
  | HELPER_try_exit_cpu_loop

datatype tcg_op =
    Op_insn_start u32
  | Op_mov_i32 tcgv tcgv
  | Op_movi_i32 tcgv u32
  | Op_un_i32 un_op tcgv tcgv
  | Op_alu_i32 alu_op tcgv tcgv tcgv
  | Op_setcond_i32 tcgv tcgv tcgv TCGCond
  | Op_movcond_i32 tcgv tcgv tcgv tcgv tcgv TCGCond
  | Op_deposit_i32 tcgv tcgv tcgv nat nat
  | Op_extract_i32 tcgv tcgv nat nat
  | Op_brcond_i32 tcgv tcgv TCGCond nat
  | Op_br nat
  | Op_set_label nat
  | Op_ld_i32 tcgv tcgv64 u64
  | Op_st_i32 tcgv tcgv64 u64
  | Op_qemu_ld tcgv tcgv TCGMemOp
  | Op_qemu_st tcgv tcgv TCGMemOp
  | Op_mov_i64 tcgv64 tcgv64
  | Op_movi_i64 tcgv64 u64
  | Op_add_i64 tcgv64 tcgv64 tcgv64
  | Op_shl_i64 tcgv64 tcgv64 tcgv64
  | Op_sar_i64 tcgv64 tcgv64 tcgv64
  | Op_ext32s_i64 tcgv64 tcgv64
  | Op_call tcg_helper "tcgv option" "tcgv list"
  | Op_goto_tb nat
  | Op_exit_tb "nat option"

section \<open>Generator state\<close>

text \<open>\<^verbatim>\<open>DisasContext\<close> with its \<^verbatim>\<open>base\<close>: \<^verbatim>\<open>is_jmp\<close> is one of the \<^verbatim>\<open>DISAS_*\<close> constants of
  \<^verbatim>\<open>src/include/exec-all.h\<close>; of the translation block the translator reads \<^verbatim>\<open>pc\<close> and
  \<^verbatim>\<open>flags\<close> and writes \<^verbatim>\<open>size\<close>.\<close>

datatype disas_jmp = DISAS_NEXT | DISAS_JUMP | DISAS_UPDATE | DISAS_TB_JUMP

record DisasContext =
  base_pc :: u32
  base_is_jmp :: disas_jmp
  base_exit_check :: bool
  tb_pc :: u32
  tb_flags_field :: u32
  tb_size :: u32
  dc_pc :: u32
  dc_tb_flags :: u32
  dc_skip_flag :: bool
  dc_use_es :: bool

datatype gen_error = Abort_load_kind RL78Operand | Abort_store_kind RL78Operand
  | Abort_unimplemented RL78Mnemonic | Abort_decode u32
  | Abort_op_buffer u32 | Abort_many_ops u32 nat

text \<open>The free list of a kind of temporary is the chain from \<^verbatim>\<open>first_free_temp[k]\<close> through
  \<^verbatim>\<open>next_free_temp\<close>. \<^verbatim>\<open>tlib_abortf\<close> and \<^verbatim>\<open>tcg_abort\<close> end the process; the model keeps the
  first reason in \<^verbatim>\<open>gen_abort\<close> and the overrun of the TCG tables in \<^verbatim>\<open>tcg_overrun\<close>, and goes
  on, so that a state without them is one the C code reaches.\<close>

text \<open>What the host back end supports (\<^verbatim>\<open>TCG_TARGET_HAS_*\<close> and \<^verbatim>\<open>TCG_TARGET_*_valid\<close> of
  \<^verbatim>\<open>src/tcg/*/tcg-target.h\<close>, 64-bit hosts), and the addresses of the helper functions.
  Every statement of the development holds for an arbitrary host.\<close>

record tcg_target =
  HAS_deposit_i32 :: bool
  deposit_i32_valid :: "nat \<Rightarrow> nat \<Rightarrow> bool"
  HAS_extract_i32 :: bool
  extract_i32_valid :: "nat \<Rightarrow> nat \<Rightarrow> bool"
  HAS_ext8u_i32 :: bool
  HAS_ext16u_i32 :: bool
  HAS_movcond_i32 :: bool
  HAS_neg_i32 :: bool
  HAS_not_i32 :: bool
  HAS_andc_i32 :: bool
  HAS_ext32s_i64 :: bool
  helper_ptr :: "tcg_helper \<Rightarrow> u64"

datatype temp_kind = K_I32 | K_I64 | K_I32_LOCAL

record gen_state =
  host :: tcg_target
  dc :: DisasContext
  nb_temps :: nat
  free_temps :: "temp_kind \<Rightarrow> nat list"
  temp_allocated :: "nat \<Rightarrow> bool"
  temp_kinds :: "nat \<Rightarrow> temp_kind"
  nb_labels :: nat
  code :: "tcg_op list"
  gen_abort :: "gen_error option"
  tcg_overrun :: bool

type_synonym 'a gen = "(gen_state, 'a) state"

definition emit :: "tcg_op \<Rightarrow> unit gen" where
  "emit op = State_Monad.update (\<lambda>s. s\<lparr>code := code s @ [op]\<rparr>)"

definition get_dc :: "DisasContext gen" where
  "get_dc = State (\<lambda>s. (dc s, s))"

definition ops_used :: "nat gen" where
  "ops_used = State (\<lambda>s. (length (code s), s))"

definition get_host :: "tcg_target gen" where
  "get_host = State (\<lambda>s. (host s, s))"

definition upd_dc :: "(DisasContext \<Rightarrow> DisasContext) \<Rightarrow> unit gen" where
  "upd_dc f = State_Monad.update (\<lambda>s. s\<lparr>dc := f (dc s)\<rparr>)"

definition tlib_abortf :: "gen_error \<Rightarrow> unit gen" where
  "tlib_abortf e =
     State_Monad.update (\<lambda>s. s\<lparr>gen_abort := (if gen_abort s = None then Some e else gen_abort s)\<rparr>)"

section \<open>Labels and temporaries\<close>

definition TCG_MAX_TEMPS :: nat where "TCG_MAX_TEMPS = 512"
definition TCG_MAX_LABELS :: nat where "TCG_MAX_LABELS = 512"

text \<open>\<^verbatim>\<open>cpu_env\<close> and the globals of \<^verbatim>\<open>translate_init\<close>.\<close>

definition nb_globals :: nat where "nb_globals = 1 + 32 + 6 + 4 + 2"

definition gen_new_label :: "nat gen" where
  "gen_new_label = State (\<lambda>s.
     (nb_labels s,
      s\<lparr>nb_labels := nb_labels s + 1,
        tcg_overrun := tcg_overrun s \<or> TCG_MAX_LABELS \<le> nb_labels s\<rparr>))"

definition tcg_temp_new_internal :: "temp_kind \<Rightarrow> gen_state \<Rightarrow> nat \<times> gen_state" where
  "tcg_temp_new_internal k s =
     (case free_temps s k of
        idx # rest \<Rightarrow>
          (idx, s\<lparr>free_temps := (free_temps s)(k := rest),
                  temp_allocated := (temp_allocated s)(idx := True)\<rparr>)
      | [] \<Rightarrow>
          (nb_temps s,
           s\<lparr>nb_temps := nb_temps s + 1,
             tcg_overrun := tcg_overrun s \<or> TCG_MAX_TEMPS < nb_temps s + 1,
             temp_allocated := (temp_allocated s)(nb_temps s := True),
             temp_kinds := (temp_kinds s)(nb_temps s := k)\<rparr>))"

definition tcg_temp_free_internal :: "nat \<Rightarrow> gen_state \<Rightarrow> gen_state" where
  "tcg_temp_free_internal idx s =
     (let k = temp_kinds s idx
      in s\<lparr>temp_allocated := (temp_allocated s)(idx := False),
           free_temps := (free_temps s)(k := idx # free_temps s k)\<rparr>)"

definition tcg_temp_new_i32 :: "tcgv gen" where
  "tcg_temp_new_i32 = State (\<lambda>s. map_prod Temp id (tcg_temp_new_internal K_I32 s))"

definition tcg_temp_local_new_i32 :: "tcgv gen" where
  "tcg_temp_local_new_i32 = State (\<lambda>s. map_prod TempL id (tcg_temp_new_internal K_I32_LOCAL s))"

definition tcg_temp_new_i64 :: "tcgv64 gen" where
  "tcg_temp_new_i64 = State (\<lambda>s. map_prod Temp64 id (tcg_temp_new_internal K_I64 s))"

fun tcg_temp_free_i32 :: "tcgv \<Rightarrow> unit gen" where
  "tcg_temp_free_i32 (Temp n) = State_Monad.update (tcg_temp_free_internal n)"
| "tcg_temp_free_i32 (TempL n) = State_Monad.update (tcg_temp_free_internal n)"
| "tcg_temp_free_i32 (Glob _) = State_Monad.return ()"

fun tcg_temp_free_i64 :: "tcgv64 \<Rightarrow> unit gen" where
  "tcg_temp_free_i64 (Temp64 n) = State_Monad.update (tcg_temp_free_internal n)"
| "tcg_temp_free_i64 _ = State_Monad.return ()"

section \<open>The allocator interface\<close>

locale temp_allocator =
  fixes alloc :: "'k \<Rightarrow> 's \<Rightarrow> nat \<times> 's"
    and release :: "nat \<Rightarrow> 's \<Rightarrow> 's"
    and live :: "'s \<Rightarrow> 'k \<Rightarrow> nat set"
    and inv :: "'s \<Rightarrow> bool"
  assumes alloc_fresh: "inv s \<Longrightarrow> alloc k s = (t, s') \<Longrightarrow> t \<notin> live s k'"
    and alloc_live: "inv s \<Longrightarrow> alloc k s = (t, s') \<Longrightarrow>
           live s' k' = (if k' = k then insert t (live s k) else live s k')"
    and alloc_inv: "inv s \<Longrightarrow> alloc k s = (t, s') \<Longrightarrow> inv s'"
    and release_live: "inv s \<Longrightarrow> t \<in> live s k \<Longrightarrow> live (release t s) k' = live s k' - {t}"
    and release_inv: "inv s \<Longrightarrow> t \<in> live s k \<Longrightarrow> inv (release t s)"
begin

text \<open>Two allocations with nothing released in between never alias, and giving back the
  temporary just allocated restores the set of live ones.\<close>

lemma alloc_alloc_distinct:
  assumes "inv s" "alloc k s = (t, s')" "alloc k' s' = (t', s'')"
  shows "t \<noteq> t'" "t \<in> live s'' k" "t' \<in> live s'' k'"
proof -
  have i: "inv s'" by (rule alloc_inv[OF assms(1,2)])
  have t: "t \<in> live s' k" by (simp add: alloc_live[OF assms(1,2)])
  then show "t \<noteq> t'" using alloc_fresh[OF i assms(3), of k] by auto
  show "t \<in> live s'' k" "t' \<in> live s'' k'" using t alloc_live[OF i assms(3)] by auto
qed

lemma alloc_release_same:
  assumes "inv s" "alloc k s = (t, s')"
  shows "live (release t s') k' = live s k'"
  using release_live[OF alloc_inv[OF assms], of t k k'] alloc_live[OF assms] alloc_fresh[OF assms]
  by auto

end

text \<open>The free lists implement the interface: the lists hold distinct, unallocated
  indices of their own kind, and every allocated index is below \<^verbatim>\<open>nb_temps\<close>.\<close>

definition live_temps :: "gen_state \<Rightarrow> temp_kind \<Rightarrow> nat set" where
  "live_temps s k = {t. temp_allocated s t \<and> temp_kinds s t = k}"

definition temps_wf :: "gen_state \<Rightarrow> bool" where
  "temps_wf s \<longleftrightarrow>
     (\<forall>k. distinct (free_temps s k) \<and>
        (\<forall>t\<in>set (free_temps s k). t < nb_temps s \<and> \<not> temp_allocated s t \<and> temp_kinds s t = k)) \<and>
     (\<forall>t. temp_allocated s t \<longrightarrow> t < nb_temps s)"

interpretation ta: temp_allocator tcg_temp_new_internal tcg_temp_free_internal live_temps temps_wf
proof
  fix s s' :: gen_state and k k' t
  assume wf: "temps_wf s" and a: "tcg_temp_new_internal k s = (t, s')"
  show "t \<notin> live_temps s k'"
  proof (cases "free_temps s k")
    case (Cons x xs)
    then have "\<not> temp_allocated s x" using wf unfolding temps_wf_def by (metis list.set_intros(1))
    then show ?thesis using Cons a by (auto simp: tcg_temp_new_internal_def live_temps_def)
  qed (use wf a in \<open>auto simp: temps_wf_def tcg_temp_new_internal_def live_temps_def\<close>)
  show "live_temps s' k' = (if k' = k then insert t (live_temps s k) else live_temps s k')"
  proof (cases "free_temps s k")
    case Nil
    then have "\<not> temp_allocated s (nb_temps s)" using wf by (auto simp: temps_wf_def)
    then show ?thesis
      using Nil a by (auto simp: tcg_temp_new_internal_def live_temps_def split: if_splits)
  next
    case (Cons x xs)
    then have "temp_kinds s x = k" using wf by (auto simp: temps_wf_def)
    then show ?thesis
      using Cons a by (auto simp: tcg_temp_new_internal_def live_temps_def split: if_splits)
  qed
  show "temps_wf s'"
  proof (cases "free_temps s k")
    case Nil
    then show ?thesis using wf a
      by (auto simp: temps_wf_def tcg_temp_new_internal_def) (metis less_irrefl less_Suc_eq)+
  next
    case (Cons x xs)
    then have "x \<notin> set (free_temps s k'')" if "k'' \<noteq> k" for k'' using wf that
      unfolding temps_wf_def by (metis list.set_intros(1))
    then show ?thesis using Cons wf a
      by (auto simp: temps_wf_def tcg_temp_new_internal_def)  (metis distinct.simps(2) list.set_intros)+
  qed
next
  fix s :: gen_state and k k' t
  assume wf: "temps_wf s" and t: "t \<in> live_temps s k"
  show "live_temps (tcg_temp_free_internal t s) k' = live_temps s k' - {t}"
    by (auto simp: live_temps_def tcg_temp_free_internal_def Let_def)
  show "temps_wf (tcg_temp_free_internal t s)"
    using wf t by (auto simp: temps_wf_def live_temps_def tcg_temp_free_internal_def Let_def)
qed

end
