(* ===== verification/TCG_Op.thy ===== *)
theory TCG_Op
  imports TCG_Context "HOL-Library.Monad_Syntax"
begin

text \<open>The operation generators of \<^verbatim>\<open>src/tcg/tcg-op.h\<close> that the RL78 translator uses, with
  the special cases and the expansions for hosts that lack an operation. Guest stores
  call the store-table hooks, which do nothing while a single CPU is registered
  (\<^verbatim>\<open>are_multiple_cpus_registered\<close>, \<^verbatim>\<open>src/hash-table-store-test.c\<close>); this is the configuration
  modelled.\<close>

section \<open>Moves, arithmetic, branches\<close>

definition gen_set_label :: "nat \<Rightarrow> unit gen" where
  "gen_set_label n = emit (Op_set_label n)"

definition tcg_gen_br :: "nat \<Rightarrow> unit gen" where
  "tcg_gen_br label = emit (Op_br label)"

definition tcg_gen_mov_i32 :: "tcgv \<Rightarrow> tcgv \<Rightarrow> unit gen" where
  "tcg_gen_mov_i32 ret arg = (if ret \<noteq> arg then emit (Op_mov_i32 ret arg) else State_Monad.return ())"

definition tcg_gen_movi_i32 :: "tcgv \<Rightarrow> u32 \<Rightarrow> unit gen" where
  "tcg_gen_movi_i32 ret arg = emit (Op_movi_i32 ret arg)"

definition tcg_const_i32 :: "u32 \<Rightarrow> tcgv gen" where
  "tcg_const_i32 val = do {
     t0 \<leftarrow> tcg_temp_new_i32;
     tcg_gen_movi_i32 t0 val;
     State_Monad.return t0 }"

definition tcg_gen_ld_i32 :: "tcgv \<Rightarrow> tcgv64 \<Rightarrow> u64 \<Rightarrow> unit gen" where
  "tcg_gen_ld_i32 ret arg2 offset = emit (Op_ld_i32 ret arg2 offset)"

definition tcg_gen_st_i32 :: "tcgv \<Rightarrow> tcgv64 \<Rightarrow> u64 \<Rightarrow> unit gen" where
  "tcg_gen_st_i32 arg1 arg2 offset = emit (Op_st_i32 arg1 arg2 offset)"

definition tcg_gen_add_i32 :: "tcgv \<Rightarrow> tcgv \<Rightarrow> tcgv \<Rightarrow> unit gen" where
  "tcg_gen_add_i32 ret arg1 arg2 = emit (Op_alu_i32 ADD_I32 ret arg1 arg2)"

definition tcg_gen_addi_i32 :: "tcgv \<Rightarrow> tcgv \<Rightarrow> u32 \<Rightarrow> unit gen" where
  "tcg_gen_addi_i32 ret arg1 arg2 =
     (if arg2 = 0 then tcg_gen_mov_i32 ret arg1
      else do {
        t0 \<leftarrow> tcg_const_i32 arg2;
        tcg_gen_add_i32 ret arg1 t0;
        tcg_temp_free_i32 t0 })"

definition tcg_gen_sub_i32 :: "tcgv \<Rightarrow> tcgv \<Rightarrow> tcgv \<Rightarrow> unit gen" where
  "tcg_gen_sub_i32 ret arg1 arg2 = emit (Op_alu_i32 SUB_I32 ret arg1 arg2)"

definition tcg_gen_subi_i32 :: "tcgv \<Rightarrow> tcgv \<Rightarrow> u32 \<Rightarrow> unit gen" where
  "tcg_gen_subi_i32 ret arg1 arg2 =
     (if arg2 = 0 then tcg_gen_mov_i32 ret arg1
      else do {
        t0 \<leftarrow> tcg_const_i32 arg2;
        tcg_gen_sub_i32 ret arg1 t0;
        tcg_temp_free_i32 t0 })"

definition tcg_gen_and_i32 :: "tcgv \<Rightarrow> tcgv \<Rightarrow> tcgv \<Rightarrow> unit gen" where
  "tcg_gen_and_i32 ret arg1 arg2 =
     (if arg1 = arg2 then tcg_gen_mov_i32 ret arg1 else emit (Op_alu_i32 AND_I32 ret arg1 arg2))"

definition tcg_gen_andi_i32 :: "tcgv \<Rightarrow> tcgv \<Rightarrow> u32 \<Rightarrow> unit gen" where
  "tcg_gen_andi_i32 ret arg1 arg2 =
     (if arg2 = 0 then tcg_gen_movi_i32 ret 0
      else if arg2 = 0xFFFFFFFF then tcg_gen_mov_i32 ret arg1
      else do {
        t0 \<leftarrow> tcg_const_i32 arg2;
        tcg_gen_and_i32 ret arg1 t0;
        tcg_temp_free_i32 t0 })"

definition tcg_gen_or_i32 :: "tcgv \<Rightarrow> tcgv \<Rightarrow> tcgv \<Rightarrow> unit gen" where
  "tcg_gen_or_i32 ret arg1 arg2 =
     (if arg1 = arg2 then tcg_gen_mov_i32 ret arg1 else emit (Op_alu_i32 OR_I32 ret arg1 arg2))"

definition tcg_gen_xor_i32 :: "tcgv \<Rightarrow> tcgv \<Rightarrow> tcgv \<Rightarrow> unit gen" where
  "tcg_gen_xor_i32 ret arg1 arg2 =
     (if arg1 = arg2 then tcg_gen_movi_i32 ret 0 else emit (Op_alu_i32 XOR_I32 ret arg1 arg2))"

definition tcg_gen_xori_i32 :: "tcgv \<Rightarrow> tcgv \<Rightarrow> u32 \<Rightarrow> unit gen" where
  "tcg_gen_xori_i32 ret arg1 arg2 =
     (if arg2 = 0 then tcg_gen_mov_i32 ret arg1
      else do {
        t0 \<leftarrow> tcg_const_i32 arg2;
        tcg_gen_xor_i32 ret arg1 t0;
        tcg_temp_free_i32 t0 })"

definition tcg_gen_shl_i32 :: "tcgv \<Rightarrow> tcgv \<Rightarrow> tcgv \<Rightarrow> unit gen" where
  "tcg_gen_shl_i32 ret arg1 arg2 = emit (Op_alu_i32 SHL_I32 ret arg1 arg2)"

definition tcg_gen_shli_i32 :: "tcgv \<Rightarrow> tcgv \<Rightarrow> u32 \<Rightarrow> unit gen" where
  "tcg_gen_shli_i32 ret arg1 arg2 =
     (if arg2 = 0 then tcg_gen_mov_i32 ret arg1
      else do {
        t0 \<leftarrow> tcg_const_i32 arg2;
        tcg_gen_shl_i32 ret arg1 t0;
        tcg_temp_free_i32 t0 })"

definition tcg_gen_shr_i32 :: "tcgv \<Rightarrow> tcgv \<Rightarrow> tcgv \<Rightarrow> unit gen" where
  "tcg_gen_shr_i32 ret arg1 arg2 = emit (Op_alu_i32 SHR_I32 ret arg1 arg2)"

definition tcg_gen_shri_i32 :: "tcgv \<Rightarrow> tcgv \<Rightarrow> u32 \<Rightarrow> unit gen" where
  "tcg_gen_shri_i32 ret arg1 arg2 =
     (if arg2 = 0 then tcg_gen_mov_i32 ret arg1
      else do {
        t0 \<leftarrow> tcg_const_i32 arg2;
        tcg_gen_shr_i32 ret arg1 t0;
        tcg_temp_free_i32 t0 })"

definition tcg_gen_sar_i32 :: "tcgv \<Rightarrow> tcgv \<Rightarrow> tcgv \<Rightarrow> unit gen" where
  "tcg_gen_sar_i32 ret arg1 arg2 = emit (Op_alu_i32 SAR_I32 ret arg1 arg2)"

definition tcg_gen_mul_i32 :: "tcgv \<Rightarrow> tcgv \<Rightarrow> tcgv \<Rightarrow> unit gen" where
  "tcg_gen_mul_i32 ret arg1 arg2 = emit (Op_alu_i32 MUL_I32 ret arg1 arg2)"

definition tcg_gen_brcond_i32 :: "TCGCond \<Rightarrow> tcgv \<Rightarrow> tcgv \<Rightarrow> nat \<Rightarrow> unit gen" where
  "tcg_gen_brcond_i32 cond arg1 arg2 label_index = emit (Op_brcond_i32 arg1 arg2 cond label_index)"

definition tcg_gen_brcondi_i32 :: "TCGCond \<Rightarrow> tcgv \<Rightarrow> u32 \<Rightarrow> nat \<Rightarrow> unit gen" where
  "tcg_gen_brcondi_i32 cond arg1 arg2 label_index = do {
     t0 \<leftarrow> tcg_const_i32 arg2;
     tcg_gen_brcond_i32 cond arg1 t0 label_index;
     tcg_temp_free_i32 t0 }"

definition tcg_gen_setcond_i32 :: "TCGCond \<Rightarrow> tcgv \<Rightarrow> tcgv \<Rightarrow> tcgv \<Rightarrow> unit gen" where
  "tcg_gen_setcond_i32 cond ret arg1 arg2 = emit (Op_setcond_i32 ret arg1 arg2 cond)"

section \<open>Operations a host may lack\<close>

definition tcg_gen_ext8u_i32 :: "tcgv \<Rightarrow> tcgv \<Rightarrow> unit gen" where
  "tcg_gen_ext8u_i32 ret arg = do {
     h \<leftarrow> get_host;
     if HAS_ext8u_i32 h then emit (Op_un_i32 EXT8U_I32 ret arg) else tcg_gen_andi_i32 ret arg 0xFF }"

definition tcg_gen_ext16u_i32 :: "tcgv \<Rightarrow> tcgv \<Rightarrow> unit gen" where
  "tcg_gen_ext16u_i32 ret arg = do {
     h \<leftarrow> get_host;
     if HAS_ext16u_i32 h then emit (Op_un_i32 EXT16U_I32 ret arg) else tcg_gen_andi_i32 ret arg 0xFFFF }"

definition tcg_gen_neg_i32 :: "tcgv \<Rightarrow> tcgv \<Rightarrow> unit gen" where
  "tcg_gen_neg_i32 ret arg = do {
     h \<leftarrow> get_host;
     if HAS_neg_i32 h then emit (Op_un_i32 NEG_I32 ret arg)
     else do {
       t0 \<leftarrow> tcg_const_i32 0;
       tcg_gen_sub_i32 ret t0 arg;
       tcg_temp_free_i32 t0 } }"

definition tcg_gen_not_i32 :: "tcgv \<Rightarrow> tcgv \<Rightarrow> unit gen" where
  "tcg_gen_not_i32 ret arg = do {
     h \<leftarrow> get_host;
     if HAS_not_i32 h then emit (Op_un_i32 NOT_I32 ret arg) else tcg_gen_xori_i32 ret arg (- 1) }"

definition tcg_gen_andc_i32 :: "tcgv \<Rightarrow> tcgv \<Rightarrow> tcgv \<Rightarrow> unit gen" where
  "tcg_gen_andc_i32 ret arg1 arg2 = do {
     h \<leftarrow> get_host;
     if HAS_andc_i32 h then emit (Op_alu_i32 ANDC_I32 ret arg1 arg2)
     else do {
       t0 \<leftarrow> tcg_temp_new_i32;
       tcg_gen_not_i32 t0 arg2;
       tcg_gen_and_i32 ret arg1 t0;
       tcg_temp_free_i32 t0 } }"

definition tcg_gen_deposit_i32 :: "tcgv \<Rightarrow> tcgv \<Rightarrow> tcgv \<Rightarrow> nat \<Rightarrow> nat \<Rightarrow> unit gen" where
  "tcg_gen_deposit_i32 ret arg1 arg2 ofs len = do {
     h \<leftarrow> get_host;
     if ofs = 0 \<and> len = 32 then tcg_gen_mov_i32 ret arg2
     else if HAS_deposit_i32 h \<and> deposit_i32_valid h ofs len
     then emit (Op_deposit_i32 ret arg1 arg2 ofs len)
     else do {
       let msk = push_bit len 1 - 1;
       t1 \<leftarrow> tcg_temp_new_i32;
       (if ofs + len < 32 then do {
          tcg_gen_andi_i32 t1 arg2 msk;
          tcg_gen_shli_i32 t1 t1 (of_nat ofs) }
        else tcg_gen_shli_i32 t1 arg2 (of_nat ofs));
       tcg_gen_andi_i32 ret arg1 (NOT (push_bit ofs msk));
       tcg_gen_or_i32 ret ret t1;
       tcg_temp_free_i32 t1 } }"

definition tcg_gen_extract_i32 :: "tcgv \<Rightarrow> tcgv \<Rightarrow> nat \<Rightarrow> nat \<Rightarrow> unit gen" where
  "tcg_gen_extract_i32 ret arg ofs len = do {
     h \<leftarrow> get_host;
     if ofs + len = 32 then tcg_gen_shri_i32 ret arg (of_nat (32 - len))
     else if ofs = 0 then tcg_gen_andi_i32 ret arg (push_bit len 1 - 1)
     else if HAS_extract_i32 h \<and> extract_i32_valid h ofs len
     then emit (Op_extract_i32 ret arg ofs len)
     else if ofs + len = 16 \<and> HAS_ext16u_i32 h then do {
       tcg_gen_ext16u_i32 ret arg;
       tcg_gen_shri_i32 ret ret (of_nat ofs) }
     else if ofs + len = 8 \<and> HAS_ext8u_i32 h then do {
       tcg_gen_ext8u_i32 ret arg;
       tcg_gen_shri_i32 ret ret (of_nat ofs) }
     else if (1 \<le> len \<and> len \<le> 8) \<or> len = 16 then do {
       tcg_gen_shri_i32 ret arg (of_nat ofs);
       tcg_gen_andi_i32 ret ret (push_bit len 1 - 1) }
     else do {
       tcg_gen_shli_i32 ret arg (of_nat (32 - len - ofs));
       tcg_gen_shri_i32 ret ret (of_nat (32 - len)) } }"

definition tcg_gen_movcond_i32 ::
  "TCGCond \<Rightarrow> tcgv \<Rightarrow> tcgv \<Rightarrow> tcgv \<Rightarrow> tcgv \<Rightarrow> tcgv \<Rightarrow> unit gen" where
  "tcg_gen_movcond_i32 cond ret c1 c2 v1 v2 = do {
     h \<leftarrow> get_host;
     if cond = COND_ALWAYS then tcg_gen_mov_i32 ret v1
     else if cond = COND_NEVER then tcg_gen_mov_i32 ret v2
     else if HAS_movcond_i32 h then emit (Op_movcond_i32 ret c1 c2 v1 v2 cond)
     else do {
       t0 \<leftarrow> tcg_temp_new_i32;
       t1 \<leftarrow> tcg_temp_new_i32;
       tcg_gen_setcond_i32 cond t0 c1 c2;
       tcg_gen_neg_i32 t0 t0;
       tcg_gen_and_i32 t1 v1 t0;
       tcg_gen_andc_i32 ret v2 t0;
       tcg_gen_or_i32 ret ret t1;
       tcg_temp_free_i32 t0;
       tcg_temp_free_i32 t1 } }"

section \<open>64-bit operations for host pointers\<close>

definition tcg_gen_mov_i64 :: "tcgv64 \<Rightarrow> tcgv64 \<Rightarrow> unit gen" where
  "tcg_gen_mov_i64 ret arg = (if ret \<noteq> arg then emit (Op_mov_i64 ret arg) else State_Monad.return ())"

definition tcg_const_i64 :: "u64 \<Rightarrow> tcgv64 gen" where
  "tcg_const_i64 val = do {
     t0 \<leftarrow> tcg_temp_new_i64;
     emit (Op_movi_i64 t0 val);
     State_Monad.return t0 }"

definition tcg_gen_add_i64 :: "tcgv64 \<Rightarrow> tcgv64 \<Rightarrow> tcgv64 \<Rightarrow> unit gen" where
  "tcg_gen_add_i64 ret arg1 arg2 = emit (Op_add_i64 ret arg1 arg2)"

definition tcg_gen_addi_i64 :: "tcgv64 \<Rightarrow> tcgv64 \<Rightarrow> u64 \<Rightarrow> unit gen" where
  "tcg_gen_addi_i64 ret arg1 arg2 =
     (if arg2 = 0 then tcg_gen_mov_i64 ret arg1
      else do {
        t0 \<leftarrow> tcg_const_i64 arg2;
        tcg_gen_add_i64 ret arg1 t0;
        tcg_temp_free_i64 t0 })"

definition tcg_gen_shli_i64 :: "tcgv64 \<Rightarrow> tcgv64 \<Rightarrow> u64 \<Rightarrow> unit gen" where
  "tcg_gen_shli_i64 ret arg1 arg2 =
     (if arg2 = 0 then tcg_gen_mov_i64 ret arg1
      else do {
        t0 \<leftarrow> tcg_const_i64 arg2;
        emit (Op_shl_i64 ret arg1 t0);
        tcg_temp_free_i64 t0 })"

definition tcg_gen_sari_i64 :: "tcgv64 \<Rightarrow> tcgv64 \<Rightarrow> u64 \<Rightarrow> unit gen" where
  "tcg_gen_sari_i64 ret arg1 arg2 =
     (if arg2 = 0 then tcg_gen_mov_i64 ret arg1
      else do {
        t0 \<leftarrow> tcg_const_i64 arg2;
        emit (Op_sar_i64 ret arg1 t0);
        tcg_temp_free_i64 t0 })"

definition tcg_gen_ext32s_i64 :: "tcgv64 \<Rightarrow> tcgv64 \<Rightarrow> unit gen" where
  "tcg_gen_ext32s_i64 ret arg = do {
     h \<leftarrow> get_host;
     if HAS_ext32s_i64 h then emit (Op_ext32s_i64 ret arg)
     else do {
       tcg_gen_shli_i64 ret arg 32;
       tcg_gen_sari_i64 ret ret 32 } }"

definition tcg_gen_ext_i32_i64 :: "tcgv64 \<Rightarrow> tcgv \<Rightarrow> unit gen" where
  "tcg_gen_ext_i32_i64 ret arg = tcg_gen_ext32s_i64 ret (Of32 arg)"

section \<open>Guest memory, helpers, block exits\<close>

definition tcg_gen_qemu_ld_i32 :: "tcgv \<Rightarrow> tcgv \<Rightarrow> TCGMemOp \<Rightarrow> unit gen" where
  "tcg_gen_qemu_ld_i32 val addr memop = emit (Op_qemu_ld val addr memop)"

definition tcg_request_block_interrupt_check :: "unit gen" where
  "tcg_request_block_interrupt_check = upd_dc (\<lambda>d. d\<lparr>base_exit_check := True\<rparr>)"

definition tcg_gen_st_op_i32 :: "TCGMemOp \<Rightarrow> tcgv \<Rightarrow> tcgv \<Rightarrow> unit gen" where
  "tcg_gen_st_op_i32 memop arg addr = do {
     tcg_request_block_interrupt_check;
     emit (Op_qemu_st arg addr memop) }"

definition tcg_gen_qemu_st_i32 :: "tcgv \<Rightarrow> tcgv \<Rightarrow> TCGMemOp \<Rightarrow> unit gen" where
  "tcg_gen_qemu_st_i32 val addr memop = do {
     tcg_request_block_interrupt_check;
     tcg_gen_st_op_i32 memop val addr }"

definition tcg_gen_helperN :: "tcg_helper \<Rightarrow> tcgv option \<Rightarrow> tcgv list \<Rightarrow> unit gen" where
  "tcg_gen_helperN func ret args = do {
     h \<leftarrow> get_host;
     fn \<leftarrow> tcg_const_i64 (helper_ptr h func);
     emit (Op_call func ret args);
     tcg_temp_free_i64 fn }"

definition tcg_gen_insn_start :: "u32 \<Rightarrow> unit gen" where
  "tcg_gen_insn_start pc = emit (Op_insn_start pc)"

definition tcg_gen_goto_tb :: "nat \<Rightarrow> unit gen" where
  "tcg_gen_goto_tb idx = emit (Op_goto_tb idx)"

definition tcg_gen_exit_tb :: "nat option \<Rightarrow> unit gen" where
  "tcg_gen_exit_tb val = emit (Op_exit_tb val)"

end
