(* ===== verification/RL78_Interrupt.thy ===== *)
theory RL78_Interrupt
  imports RL78_Op_Helper
begin

text \<open>Reset and interrupts: \<^verbatim>\<open>src/arch/rl78/helper.c\<close>, the host's interrupt line
  \<^verbatim>\<open>src/arch/rl78/arch_exports.c\<close>, and the pending-interrupt word of
  \<^verbatim>\<open>src/exec.c\<close>.\<close>

section \<open>Pending interrupts\<close>

definition is_interrupt_pending :: "CPUState \<Rightarrow> u32 \<Rightarrow> bool" where
  "is_interrupt_pending env msk = (env_interrupt_request env AND msk \<noteq> 0)"

definition set_interrupt_pending :: "CPUState \<Rightarrow> u32 \<Rightarrow> CPUState" where
  "set_interrupt_pending env msk =
     env\<lparr>env_interrupt_request := env_interrupt_request env OR msk\<rparr>"

definition clear_interrupt_pending :: "CPUState \<Rightarrow> u32 \<Rightarrow> CPUState" where
  "clear_interrupt_pending env msk =
     env\<lparr>env_interrupt_request := env_interrupt_request env AND NOT msk\<rparr>"

text \<open>\<^verbatim>\<open>cpu_interrupt\<close> calls the installed handler, \<^verbatim>\<open>handle_interrupt\<close>.\<close>

definition handle_interrupt :: "CPUState \<Rightarrow> u32 \<Rightarrow> CPUState" where
  "handle_interrupt env msk = (set_interrupt_pending env msk)\<lparr>env_exit_request := 1\<rparr>"

definition cpu_reset_interrupt :: "CPUState \<Rightarrow> u32 \<Rightarrow> CPUState" where
  "cpu_reset_interrupt env msk = clear_interrupt_pending env msk"

section \<open>Reset\<close>

definition reset_psw :: RL78PSW where
  "reset_psw = \<lparr>psw_cy = 0, psw_isp = 3, psw_rbs = 0, psw_ac = 0, psw_z = 0, psw_ie = 0\<rparr>"

definition cpu_reset :: "machine \<Rightarrow> tlib_error + machine" where
  "cpu_reset m =
     (let env = (cpu m)\<lparr>env_regs := (\<lambda>_ _. 0), env_psw := reset_psw, env_sp := 0, env_pmc := 0,
            env_mem := 0, env_es := 0x0F, env_cs := 0x00, env_macr := 0, env_skip_en := 0,
            env_skip_req := 0, env_irq_index := - 1, env_irq_priority := 0, env_wfi := 0\<rparr>;
          m = m\<lparr>cpu := env\<rparr>
      in case lduw_phys m 0 of
           Inl e \<Rightarrow> Inl e
         | Inr pc \<Rightarrow> Inr (m\<lparr>cpu := (cpu m)\<lparr>env_pc := pc\<rparr>\<rparr>))"

definition cpu_init :: "machine \<Rightarrow> tlib_error + int \<times> machine" where
  "cpu_init m = (case cpu_reset m of Inl e \<Rightarrow> Inl e | Inr m' \<Rightarrow> Inr (0, m'))"

section \<open>Acceptance\<close>

definition do_interrupt :: "machine \<Rightarrow> tlib_error + machine" where
  "do_interrupt m =
     (let env = cpu m;
          irq_index = env_irq_index env;
          psw = rl78_cpu_pack_psw (env_psw env);
          pc_l = (ucast (env_pc env AND 0xFF) :: u8);
          pc_h = (ucast (drop_bit 8 (env_pc env) AND 0xFF) :: u8);
          pc_s = (ucast (drop_bit 16 (env_pc env) AND 0xFF) :: u8);
          sp' = env_sp env - 4;
          m = m\<lparr>cpu := env\<lparr>env_sp := sp'\<rparr>\<rparr>;
          stack_addr = 0xF0000 OR sp';
          m = stb_phys m (stack_addr + 0) (ucast pc_l);
          m = stb_phys m (stack_addr + 1) (ucast pc_h);
          m = stb_phys m (stack_addr + 2) (ucast pc_s);
          m = stb_phys m (stack_addr + 3) (ucast psw);
          vectbl_addr = env_exception_index env * 2 + 4;
          m = m\<lparr>cpu := (cpu m)\<lparr>env_psw := (env_psw (cpu m))
                 \<lparr>psw_ie := 0, psw_isp := ucast (env_irq_priority env)\<rparr>\<rparr>\<rparr>
      in case lduw_phys m vectbl_addr of
           Inl e \<Rightarrow> Inl e
         | Inr pc \<Rightarrow>
             Inr (m\<lparr>cpu := (cpu m)\<lparr>env_pc := pc, env_irq_index := - 1, env_exception_index := - 1\<rparr>,
                    irq_acks := irq_acks m @ [irq_index]\<rparr>))"

definition process_interrupt :: "u32 \<Rightarrow> machine \<Rightarrow> tlib_error + int \<times> machine" where
  "process_interrupt interrupt_request m =
     (let env = cpu m in
      if interrupt_request AND CPU_INTERRUPT_HARD \<noteq> 0 then
        if psw_ie (env_psw env) = 0 \<or> env_skip_en env \<noteq> 0 then Inr (0, m)
        else if sint (env_irq_index env) < 0 then
          Inr (0, m\<lparr>cpu := cpu_reset_interrupt (env\<lparr>env_exception_index := - 1\<rparr>) CPU_INTERRUPT_HARD\<rparr>)
        else if uint (env_irq_priority env) < sint (psw_isp (env_psw env) + 1) then
          (case do_interrupt (m\<lparr>cpu := env\<lparr>env_exception_index := env_irq_index env\<rparr>\<rparr>) of
             Inl e \<Rightarrow> Inl e | Inr m' \<Rightarrow> Inr (1, m'))
        else Inr (0, m)
      else Inr (0, m))"

definition tlib_set_rl78_irq :: "u32 \<Rightarrow> u32 \<Rightarrow> u32 \<Rightarrow> CPUState \<Rightarrow> CPUState" where
  "tlib_set_rl78_irq index priority enable env =
     (if enable \<noteq> 0
      then handle_interrupt (env\<lparr>env_irq_index := index, env_irq_priority := ucast priority\<rparr>) CPU_INTERRUPT_HARD
      else cpu_reset_interrupt
             (env\<lparr>env_exception_index := - 1, env_irq_index := - 1, env_irq_priority := 0\<rparr>) CPU_INTERRUPT_HARD)"

section \<open>Address translation\<close>

definition TARGET_PAGE_MASK :: u32 where "TARGET_PAGE_MASK = NOT 0xFF"

text \<open>The page handed to \<^verbatim>\<open>tlb_set_page\<close> as (virtual, physical) base, and the
  translated address.\<close>

definition arch_tlb_fill :: "u32 \<Rightarrow> (u32 \<times> u32) \<times> u32" where
  "arch_tlb_fill addr = (let vaddr = addr AND TARGET_PAGE_MASK in ((vaddr, vaddr), addr))"

definition cpu_get_phys_page_debug :: "u32 \<Rightarrow> u32" where
  "cpu_get_phys_page_debug addr = addr"

definition cpu_get_state_for_memory_transaction :: "CPUState \<Rightarrow> u32 \<Rightarrow> u64" where
  "cpu_get_state_for_memory_transaction env addr = 0"

section \<open>What acceptance does\<close>

lemma vector_even: "(x * 2 + 4 :: u32) mod 2 = 0"
proof -
  have "even (x * 2 + 4)" by simp
  then show ?thesis unfolding even_iff_mod_2_eq_zero .
qed

definition vector_at :: "machine \<Rightarrow> u32 \<Rightarrow> u32" where
  "vector_at m addr = ucast (ram m addr) OR push_bit 8 (ucast (ram m (addr + 1)))"

lemma lduw_phys_even: "addr mod 2 = 0 \<Longrightarrow> lduw_phys m addr = Inr (vector_at m addr)"
  by (simp add: lduw_phys_def vector_at_def ldub_phys_def)

definition push_frame :: "(u32 \<Rightarrow> u8) \<Rightarrow> u32 \<Rightarrow> u32 \<Rightarrow> RL78PSW \<Rightarrow> u32 \<Rightarrow> u8" where
  "push_frame r a pc p = r(a := ucast pc, a + 1 := ucast (drop_bit 8 pc),
     a + 2 := ucast (drop_bit 16 pc), a + 3 := rl78_cpu_pack_psw p)"

lemma do_interrupt_eq:
  fixes m
  defines "env \<equiv> cpu m"
  defines "r \<equiv> push_frame (ram m) (0xF0000 OR (env_sp env - 4)) (env_pc env) (env_psw env)"
  shows "do_interrupt m = Inr (m\<lparr>
     cpu := env\<lparr>env_sp := env_sp env - 4,
        env_psw := (env_psw env)\<lparr>psw_ie := 0, psw_isp := ucast (env_irq_priority env)\<rparr>,
        env_pc := vector_at (m\<lparr>ram := r\<rparr>) (env_exception_index env * 2 + 4),
        env_irq_index := - 1, env_exception_index := - 1\<rparr>,
     ram := r, irq_acks := irq_acks m @ [env_irq_index env]\<rparr>)"
  unfolding do_interrupt_def Let_def env_def r_def
  by (simp add: lduw_phys_even vector_even ucast_u8_id push_frame_def vector_at_def stb_phys_def)

lemma hard_cleared: "w AND NOT CPU_INTERRUPT_HARD AND CPU_INTERRUPT_HARD = 0"
  by (simp add: and.assoc)

text \<open>When the code accepts: the line is pending, interrupts are enabled, no skip is
  in flight, a request is latched, and its priority is at least as urgent as the
  in-service priority.\<close>

definition irq_accepts :: "u32 \<Rightarrow> CPUState \<Rightarrow> bool" where
  "irq_accepts req env \<longleftrightarrow> req AND CPU_INTERRUPT_HARD \<noteq> 0 \<and> psw_ie (env_psw env) \<noteq> 0 \<and>
     env_skip_en env = 0 \<and> 0 \<le> sint (env_irq_index env) \<and>
     unat (env_irq_priority env) \<le> unat (psw_isp (env_psw env))"

lemma priority_compare:
  assumes "unat (isp::u32) < 4"
  shows "uint (prio::u8) < sint (isp + 1) \<longleftrightarrow> unat prio \<le> unat isp"
proof -
  have i: "unat (isp + 1) = unat isp + 1" using assms by (simp add: unat_word_ariths)
  then have "sint (isp + 1) = int (unat isp + 1)"
    using assms by (subst sint_eq_int_unat) simp_all
  moreover have "uint prio = int (unat prio)" by (rule uint_nat)
  ultimately show ?thesis by linarith
qed

lemma process_interrupt_accept:
  assumes "psw_ok (env_psw (cpu m))" "irq_accepts req (cpu m)"
  shows "\<exists>m'. process_interrupt req m = Inr (1, m') \<and>
           do_interrupt (m\<lparr>cpu := (cpu m)\<lparr>env_exception_index := env_irq_index (cpu m)\<rparr>\<rparr>) = Inr m'"
  using assms
  by (auto simp: process_interrupt_def irq_accepts_def Let_def psw_ok_def priority_compare do_interrupt_eq)

text \<open>What a poll that takes nothing leaves: the machine as it was, except that a hard interrupt found with nothing
  latched is dropped.\<close>

definition irq_dropped :: "u32 \<Rightarrow> CPUState \<Rightarrow> bool" where
  "irq_dropped req env \<longleftrightarrow> req AND CPU_INTERRUPT_HARD \<noteq> 0 \<and> psw_ie (env_psw env) \<noteq> 0 \<and> env_skip_en env = 0 \<and>
     sint (env_irq_index env) < 0"

lemma process_interrupt_reject:
  assumes "psw_ok (env_psw (cpu m))" "\<not> irq_accepts req (cpu m)"
  shows "process_interrupt req m = Inr (0, if irq_dropped req (cpu m)
     then m\<lparr>cpu := (cpu m)\<lparr>env_exception_index := - 1,
       env_interrupt_request := env_interrupt_request (cpu m) AND NOT CPU_INTERRUPT_HARD\<rparr>\<rparr> else m)"
  using assms
  by (auto simp: process_interrupt_def irq_accepts_def irq_dropped_def Let_def psw_ok_def priority_compare
      cpu_reset_interrupt_def clear_interrupt_pending_def)

lemma cpu_reset_ok: "\<exists>m'. cpu_reset m = Inr m' \<and> cpu_ok (cpu m') \<and> env_pc (cpu m') = vector_at m 0 \<and> ram m' = ram m"
  by (simp add: cpu_reset_def Let_def lduw_phys_even cpu_ok_def psw_ok_def reset_psw_def vector_at_def)

lemma do_interrupt_ok:
  assumes "cpu_ok (cpu m)" "unat (env_irq_priority (cpu m)) < 4" "do_interrupt m = Inr m'"
  shows "cpu_ok (cpu m')"
  using assms by (auto simp: do_interrupt_eq cpu_ok_def psw_ok_def unsigned_ucast_eq take_bit_eq_mod)

lemma process_interrupt_ok:
  assumes "cpu_ok (cpu m)" "process_interrupt req m = Inr (k, m')"
  shows "cpu_ok (cpu m')"
proof (cases "irq_accepts req (cpu m)")
  case True
  note ok = cpu_okD(1)[OF assms(1)]
  with process_interrupt_accept[OF ok True] assms(2)
  have d: "do_interrupt (m\<lparr>cpu := (cpu m)\<lparr>env_exception_index := env_irq_index (cpu m)\<rparr>\<rparr>) = Inr m'" by auto
  have "unat (env_irq_priority (cpu m)) < 4" using True ok by (simp add: irq_accepts_def psw_ok_def)
  then show ?thesis using do_interrupt_ok[OF _ _ d] assms(1) by (simp add: cpu_ok_def)
next
  case False
  then show ?thesis using assms
    by (auto simp: process_interrupt_def Let_def irq_accepts_def cpu_ok_def psw_ok_def priority_compare
        cpu_reset_interrupt_def clear_interrupt_pending_def split: if_splits)
qed

section \<open>The interrupt line as a state machine\<close>

text \<open>The host raises or lowers the line, the execution loop polls it, and guest code
  changes the registers in between. \<^verbatim>\<open>irq_inv\<close> says that a latched request is never
  lost (the hard-interrupt bit stays pending) and that only latched requests were
  acknowledged.\<close>

inductive irq_step :: "machine \<Rightarrow> machine \<Rightarrow> bool" where
  irq_raise: "enable \<noteq> 0 \<Longrightarrow> irq_step m (m\<lparr>cpu := tlib_set_rl78_irq index priority enable (cpu m)\<rparr>)"
| irq_lower: "irq_step m (m\<lparr>cpu := tlib_set_rl78_irq index priority 0 (cpu m)\<rparr>)"
| irq_poll: "process_interrupt (env_interrupt_request (cpu m)) m = Inr (k, m') \<Longrightarrow> irq_step m m'"
| irq_guest: "psw_ok p \<Longrightarrow> irq_step m (m\<lparr>cpu := (cpu m)\<lparr>env_psw := p, env_regs := rs, env_sp := s,
    env_pc := pc, env_skip_en := se, env_skip_req := sr\<rparr>, ram := r\<rparr>)"

definition irq_inv :: "machine \<Rightarrow> bool" where
  "irq_inv m \<longleftrightarrow> psw_ok (env_psw (cpu m)) \<and>
     (0 \<le> sint (env_irq_index (cpu m)) \<longrightarrow> is_interrupt_pending (cpu m) CPU_INTERRUPT_HARD) \<and>
     list_all (\<lambda>i. 0 \<le> sint i) (irq_acks m)"

lemma hard_nonzero [simp]: "CPU_INTERRUPT_HARD \<noteq> 0"
  by (simp add: CPU_INTERRUPT_HARD_def)

lemma hard_pending_set: "(w OR CPU_INTERRUPT_HARD) AND CPU_INTERRUPT_HARD \<noteq> 0"
proof -
  have "(w OR CPU_INTERRUPT_HARD) AND CPU_INTERRUPT_HARD = CPU_INTERRUPT_HARD"
    by (rule bit_word_eqI) (simp only: bit_norm, blast)
  then show ?thesis by (simp add: CPU_INTERRUPT_HARD_def)
qed

lemma irq_inv_poll:
  assumes "irq_inv m" "process_interrupt (env_interrupt_request (cpu m)) m = Inr (k, m')"
  shows "irq_inv m'"
proof (cases "irq_accepts (env_interrupt_request (cpu m)) (cpu m)")
  case True
  note ok = assms(1)[unfolded irq_inv_def, THEN conjunct1]
  with process_interrupt_accept[OF ok True] assms(2)
  have d: "do_interrupt (m\<lparr>cpu := (cpu m)\<lparr>env_exception_index := env_irq_index (cpu m)\<rparr>\<rparr>) = Inr m'" by auto
  have "unat (env_irq_priority (cpu m)) < 4" using True ok by (simp add: irq_accepts_def psw_ok_def)
  then show ?thesis using d assms(1) True
    by (auto simp: do_interrupt_eq irq_inv_def irq_accepts_def psw_ok_def unsigned_ucast_eq take_bit_eq_mod)
next
  case False
  then show ?thesis using assms
    by (auto simp: process_interrupt_def Let_def irq_accepts_def irq_inv_def psw_ok_def priority_compare
        cpu_reset_interrupt_def clear_interrupt_pending_def is_interrupt_pending_def split: if_splits)
qed

lemma irq_inv_step:
  assumes "irq_step m m'" "irq_inv m"
  shows "irq_inv m'"
  using assms
proof (cases rule: irq_step.cases)
  case (irq_poll k)
  then show ?thesis using irq_inv_poll assms(2) by blast
qed (auto simp: irq_inv_def tlib_set_rl78_irq_def handle_interrupt_def set_interrupt_pending_def
    cpu_reset_interrupt_def clear_interrupt_pending_def is_interrupt_pending_def hard_pending_set)

lemma irq_inv_reachable: "irq_step\<^sup>*\<^sup>* m m' \<Longrightarrow> irq_inv m \<Longrightarrow> irq_inv m'"
  by (induction rule: rtranclp_induct) (auto intro: irq_inv_step)

end
