(* ===== verification/RL78_Operand.thy ===== *)
theory RL78_Operand
  imports RL78_Decode TCG_Op RL78_Interrupt
begin

text \<open>Operand access in the translator (\<^verbatim>\<open>src/arch/rl78/translate.c\<close>, first half): the code
  generated to compute an effective address and to load or store a register, a
  control register, the PSW, memory or a single bit. \<^verbatim>\<open>DisasContext *ctx\<close> is the \<^verbatim>\<open>dc\<close> field of the
  generator state. C leaves the order in which the arguments of a call are evaluated
  open; the model evaluates them from left to right.\<close>

abbreviation cpu_psw_cy :: tcgv where "cpu_psw_cy \<equiv> Glob Ref_cy"
abbreviation cpu_psw_isp :: tcgv where "cpu_psw_isp \<equiv> Glob Ref_isp"
abbreviation cpu_psw_rbs :: tcgv where "cpu_psw_rbs \<equiv> Glob Ref_rbs"
abbreviation cpu_psw_ac :: tcgv where "cpu_psw_ac \<equiv> Glob Ref_ac"
abbreviation cpu_psw_z :: tcgv where "cpu_psw_z \<equiv> Glob Ref_z"
abbreviation cpu_psw_ie :: tcgv where "cpu_psw_ie \<equiv> Glob Ref_ie"
abbreviation cpu_pc :: tcgv where "cpu_pc \<equiv> Glob Ref_pc"
abbreviation cpu_sp :: tcgv where "cpu_sp \<equiv> Glob Ref_sp"
abbreviation cpu_es :: tcgv where "cpu_es \<equiv> Glob Ref_es"
abbreviation cpu_cs :: tcgv where "cpu_cs \<equiv> Glob Ref_cs"
abbreviation cpu_skip_en :: tcgv where "cpu_skip_en \<equiv> Glob Ref_skip_en"
abbreviation cpu_skip_req :: tcgv where "cpu_skip_req \<equiv> Glob Ref_skip_req"

text \<open>The globals \<^verbatim>\<open>translate_init\<close> registers, with their offsets in \<^verbatim>\<open>CPUState\<close>, in order.\<close>

definition translate_init :: "(tcgv \<times> nat) list" where
  "translate_init =
     map (\<lambda>r. (Glob r, ref_offset r))
       ([Ref_bank bank r. bank \<leftarrow> [0..<REGISTER_BANK_NUM], r \<leftarrow> [0..<8]] @
        [Ref_cy, Ref_isp, Ref_rbs, Ref_ac, Ref_z, Ref_ie, Ref_pc, Ref_sp, Ref_es, Ref_cs,
         Ref_skip_en, Ref_skip_req])"

definition gen_sync_pc :: "unit gen" where
  "gen_sync_pc = do { d \<leftarrow> get_dc; tcg_gen_movi_i32 cpu_pc (base_pc d) }"

section \<open>Addresses and memory\<close>

definition rl78_gen_addr :: "tcgv \<Rightarrow> tcgv gen" where
  "rl78_gen_addr addr = do {
     ret \<leftarrow> tcg_temp_new_i32;
     es \<leftarrow> tcg_temp_new_i32;
     ctx \<leftarrow> get_dc;
     (if dc_use_es ctx then tcg_gen_shli_i32 es cpu_es 16 else tcg_gen_movi_i32 es 0xF0000);
     tcg_gen_mov_i32 ret addr;
     tcg_gen_or_i32 ret ret es;
     State_Monad.return ret }"

definition rl78_gen_load :: "tcgv \<Rightarrow> TCGMemOp \<Rightarrow> tcgv gen" where
  "rl78_gen_load addr memop = do {
     actual_addr \<leftarrow> tcg_temp_new_i32;
     ret \<leftarrow> tcg_temp_new_i32;
     tcg_gen_mov_i32 actual_addr addr;
     (if memop = MO_16 then tcg_gen_andi_i32 actual_addr actual_addr (NOT 0x01)
      else State_Monad.return ());
     tcg_gen_qemu_ld_i32 ret actual_addr memop;
     State_Monad.return ret }"

definition rl78_gen_store :: "tcgv \<Rightarrow> tcgv \<Rightarrow> TCGMemOp \<Rightarrow> unit gen" where
  "rl78_gen_store addr data memop = do {
     actual_addr \<leftarrow> tcg_temp_new_i32;
     tcg_gen_mov_i32 actual_addr addr;
     (if memop = MO_16 then tcg_gen_andi_i32 actual_addr actual_addr (NOT 0x01)
      else State_Monad.return ());
     tcg_gen_qemu_st_i32 data actual_addr memop }"

definition rl78_gen_lb :: "tcgv \<Rightarrow> tcgv gen" where
  "rl78_gen_lb addr = rl78_gen_load addr MO_8"

definition rl78_gen_lw :: "tcgv \<Rightarrow> tcgv gen" where
  "rl78_gen_lw addr = do {
     access_addr \<leftarrow> tcg_temp_new_i32;
     tcg_gen_andi_i32 access_addr addr (NOT 0x01);
     rl78_gen_load access_addr MO_16 }"

definition rl78_gen_sb :: "tcgv \<Rightarrow> tcgv \<Rightarrow> unit gen" where
  "rl78_gen_sb addr data = rl78_gen_store addr data MO_8"

definition rl78_gen_sw :: "tcgv \<Rightarrow> tcgv \<Rightarrow> unit gen" where
  "rl78_gen_sw addr data = do {
     access_addr \<leftarrow> tcg_temp_new_i32;
     tcg_gen_andi_i32 access_addr addr (NOT 0x01);
     rl78_gen_store access_addr data MO_16 }"

section \<open>Registers\<close>

definition reg_ptr :: "nat \<Rightarrow> tcgv64 gen" where
  "reg_ptr reg = do {
     let regoffset = of_nat reg * 4;
     reg_ptr_base \<leftarrow> tcg_temp_new_i64;
     reg_ptr_offset \<leftarrow> tcg_temp_new_i64;
     reg_offset \<leftarrow> tcg_temp_new_i32;
     tcg_gen_shli_i32 reg_offset cpu_psw_rbs 5;
     tcg_gen_addi_i32 reg_offset reg_offset regoffset;
     tcg_gen_ext_i32_i64 reg_ptr_offset reg_offset;
     tcg_gen_addi_i64 reg_ptr_base Env (of_nat ENV_REGS_OFFSET);
     tcg_gen_add_i64 reg_ptr_base reg_ptr_base reg_ptr_offset;
     State_Monad.return reg_ptr_base }"

definition load_byte_reg :: "RL78ByteRegister \<Rightarrow> tcgv gen" where
  "load_byte_reg reg = do {
     regptr \<leftarrow> reg_ptr (byte_reg_num reg);
     ret \<leftarrow> tcg_temp_new_i32;
     tcg_gen_ld_i32 ret regptr 0;
     tcg_gen_andi_i32 ret ret 0xFF;
     State_Monad.return ret }"

definition load_word_reg :: "RL78WordRegister \<Rightarrow> tcgv gen" where
  "load_word_reg reg = do {
     regptr \<leftarrow> reg_ptr (word_reg_num reg * 2);
     ret_lo \<leftarrow> tcg_temp_new_i32;
     ret_hi \<leftarrow> tcg_temp_new_i32;
     tcg_gen_ld_i32 ret_lo regptr 0;
     tcg_gen_ld_i32 ret_hi regptr 4;
     tcg_gen_shli_i32 ret_hi ret_hi 8;
     tcg_gen_andi_i32 ret_lo ret_lo 0xFF;
     tcg_gen_or_i32 ret_lo ret_lo ret_hi;
     State_Monad.return ret_lo }"

definition store_byte_reg :: "RL78ByteRegister \<Rightarrow> tcgv \<Rightarrow> unit gen" where
  "store_byte_reg reg data = do {
     regptr \<leftarrow> reg_ptr (byte_reg_num reg);
     store_data \<leftarrow> tcg_temp_new_i32;
     tcg_gen_andi_i32 store_data data 0xFF;
     tcg_gen_st_i32 store_data regptr 0 }"

definition store_word_reg :: "RL78WordRegister \<Rightarrow> tcgv \<Rightarrow> unit gen" where
  "store_word_reg reg data = do {
     regptr \<leftarrow> reg_ptr (word_reg_num reg * 2);
     store_data \<leftarrow> tcg_temp_new_i32;
     tcg_gen_andi_i32 store_data data 0xFF;
     tcg_gen_st_i32 store_data regptr 0;
     tcg_gen_shri_i32 store_data data 8;
     tcg_gen_andi_i32 store_data store_data 0xFF;
     tcg_gen_st_i32 store_data regptr 4 }"

definition load_psw :: "tcgv gen" where
  "load_psw = do {
     ret \<leftarrow> tcg_temp_new_i32;
     rbs0 \<leftarrow> tcg_temp_new_i32;
     rbs1 \<leftarrow> tcg_temp_new_i32;
     tcg_gen_extract_i32 rbs0 cpu_psw_rbs 0 1;
     tcg_gen_extract_i32 rbs1 cpu_psw_rbs 1 1;
     tcg_gen_mov_i32 ret cpu_psw_cy;
     tcg_gen_deposit_i32 ret ret cpu_psw_isp 1 2;
     tcg_gen_deposit_i32 ret ret rbs0 3 1;
     tcg_gen_deposit_i32 ret ret cpu_psw_ac 4 1;
     tcg_gen_deposit_i32 ret ret rbs1 5 1;
     tcg_gen_deposit_i32 ret ret cpu_psw_z 6 1;
     tcg_gen_deposit_i32 ret ret cpu_psw_ie 7 1;
     State_Monad.return ret }"

definition store_psw :: "tcgv \<Rightarrow> unit gen" where
  "store_psw psw = do {
     rbs0 \<leftarrow> tcg_temp_new_i32;
     rbs1 \<leftarrow> tcg_temp_new_i32;
     tcg_gen_extract_i32 cpu_psw_cy psw 0 1;
     tcg_gen_extract_i32 cpu_psw_isp psw 1 2;
     tcg_gen_extract_i32 cpu_psw_ac psw 4 1;
     tcg_gen_extract_i32 cpu_psw_z psw 6 1;
     tcg_gen_extract_i32 cpu_psw_ie psw 7 1;
     tcg_gen_movi_i32 cpu_psw_rbs 0;
     tcg_gen_extract_i32 rbs0 psw 3 1;
     tcg_gen_extract_i32 rbs1 psw 5 1;
     tcg_gen_deposit_i32 cpu_psw_rbs cpu_psw_rbs rbs0 0 1;
     tcg_gen_deposit_i32 cpu_psw_rbs cpu_psw_rbs rbs1 1 1;
     upd_dc (\<lambda>ctx. ctx\<lparr>base_is_jmp := DISAS_UPDATE\<rparr>) }"

definition load_sp :: "tcgv gen" where
  "load_sp = do {
     ret \<leftarrow> tcg_temp_new_i32;
     tcg_gen_mov_i32 ret cpu_sp;
     tcg_gen_andi_i32 ret ret 0xFFFE;
     State_Monad.return ret }"

definition store_sp :: "tcgv \<Rightarrow> unit gen" where
  "store_sp sp = do {
     tmp \<leftarrow> tcg_temp_new_i32;
     tcg_gen_andi_i32 tmp sp 0xFFFE;
     tcg_gen_mov_i32 cpu_sp tmp }"

text \<open>The macro \<^verbatim>\<open>control_reg\<close> at \<^verbatim>\<open>es\<close> and \<^verbatim>\<open>psw_cy\<close>.\<close>

definition load_es :: "tcgv gen" where
  "load_es = do { ret \<leftarrow> tcg_temp_new_i32; tcg_gen_mov_i32 ret cpu_es; State_Monad.return ret }"

definition store_es :: "tcgv \<Rightarrow> unit gen" where
  "store_es data = tcg_gen_mov_i32 cpu_es data"

definition load_psw_cy :: "tcgv gen" where
  "load_psw_cy = do { ret \<leftarrow> tcg_temp_new_i32; tcg_gen_mov_i32 ret cpu_psw_cy; State_Monad.return ret }"

definition store_psw_cy :: "tcgv \<Rightarrow> unit gen" where
  "store_psw_cy data = tcg_gen_mov_i32 cpu_psw_cy data"

section \<open>Fixed addresses\<close>

definition load_byte_paddr :: "u32 \<Rightarrow> TCGMemOp \<Rightarrow> tcgv gen" where
  "load_byte_paddr paddr memop =
     (if paddr = 0xFFFF8 then do {
        ret \<leftarrow> tcg_temp_new_i32; sp \<leftarrow> load_sp; tcg_gen_extract_i32 ret sp 0 8; State_Monad.return ret }
      else if paddr = 0xFFFF9 then do {
        ret \<leftarrow> tcg_temp_new_i32; sp \<leftarrow> load_sp; tcg_gen_extract_i32 ret sp 8 8; State_Monad.return ret }
      else if paddr = 0xFFFFA then load_psw
      else if paddr = 0xFFFFC then do {
        ret \<leftarrow> tcg_temp_new_i32; tcg_gen_mov_i32 ret cpu_cs; State_Monad.return ret }
      else if paddr = 0xFFFFD then do {
        ret \<leftarrow> tcg_temp_new_i32; tcg_gen_mov_i32 ret cpu_es; State_Monad.return ret }
      else do { a \<leftarrow> tcg_const_i32 paddr; rl78_gen_load a memop })"

definition load_word_paddr :: "u32 \<Rightarrow> TCGMemOp \<Rightarrow> tcgv gen" where
  "load_word_paddr paddr memop =
     (if paddr = 0xFFFF8 then load_sp
      else do { a \<leftarrow> tcg_const_i32 paddr; rl78_gen_load a memop })"

definition load_paddr :: "u32 \<Rightarrow> TCGMemOp \<Rightarrow> tcgv gen" where
  "load_paddr paddr memop = (case memop of
       MO_8 \<Rightarrow> load_byte_paddr paddr memop
     | MO_16 \<Rightarrow> load_word_paddr paddr memop)"

definition load_abs16 :: "u32 \<Rightarrow> TCGMemOp \<Rightarrow> tcgv gen" where
  "load_abs16 addr memop = do {
     ctx \<leftarrow> get_dc;
     if dc_use_es ctx then do {
       c \<leftarrow> tcg_const_i32 addr; a \<leftarrow> rl78_gen_addr c; rl78_gen_load a memop }
     else load_paddr (addr OR 0xF0000) memop }"

definition store_byte_paddr :: "u32 \<Rightarrow> tcgv \<Rightarrow> TCGMemOp \<Rightarrow> unit gen" where
  "store_byte_paddr paddr data memop =
     (if paddr = 0xFFFF8 then do {
        spl \<leftarrow> tcg_temp_new_i32;
        sp \<leftarrow> tcg_temp_new_i32;
        tcg_gen_extract_i32 spl data 0 8;
        tcg_gen_deposit_i32 sp cpu_sp spl 0 8;
        store_sp sp }
      else if paddr = 0xFFFF9 then do {
        sph \<leftarrow> tcg_temp_new_i32;
        sp \<leftarrow> tcg_temp_new_i32;
        tcg_gen_extract_i32 sph data 0 8;
        tcg_gen_deposit_i32 sp cpu_sp data 8 8;
        store_sp sp }
      else if paddr = 0xFFFFA then store_psw data
      else if paddr = 0xFFFFB then tcg_gen_helperN HELPER_rl78_mdu_cmd None [data]
      else if paddr = 0xFFFFC then tcg_gen_deposit_i32 cpu_cs cpu_cs data 0 4
      else if paddr = 0xFFFFD then tcg_gen_deposit_i32 cpu_es cpu_es data 0 4
      else do { a \<leftarrow> tcg_const_i32 paddr; tcg_gen_helperN HELPER_rl78_stb None [a, data] })"

definition store_word_paddr :: "u32 \<Rightarrow> tcgv \<Rightarrow> TCGMemOp \<Rightarrow> unit gen" where
  "store_word_paddr paddr data memop =
     (if paddr = 0xFFFF8 then store_sp data
      else do { a \<leftarrow> tcg_const_i32 paddr; rl78_gen_store a data memop })"

definition store_paddr :: "u32 \<Rightarrow> tcgv \<Rightarrow> TCGMemOp \<Rightarrow> unit gen" where
  "store_paddr paddr data memop = (case memop of
       MO_8 \<Rightarrow> store_byte_paddr paddr data memop
     | MO_16 \<Rightarrow> store_word_paddr paddr data memop)"

definition store_abs16 :: "u32 \<Rightarrow> tcgv \<Rightarrow> TCGMemOp \<Rightarrow> unit gen" where
  "store_abs16 addr data memop = do {
     ctx \<leftarrow> get_dc;
     if dc_use_es ctx then do {
       c \<leftarrow> tcg_const_i32 addr; a \<leftarrow> rl78_gen_addr c; rl78_gen_store a data memop }
     else store_paddr (addr OR 0xF0000) data memop }"

definition load_saddr :: "u32 \<Rightarrow> TCGMemOp \<Rightarrow> tcgv gen" where
  "load_saddr saddr memop =
     (let base = (if saddr < 0x20 then 0xFFF00 else 0xFFE00); access_addr = base + saddr
      in load_paddr access_addr memop)"

definition store_saddr :: "u32 \<Rightarrow> tcgv \<Rightarrow> TCGMemOp \<Rightarrow> unit gen" where
  "store_saddr saddr data memop =
     (let base = (if saddr < 0x20 then 0xFFF00 else 0xFFE00); access_addr = base + saddr
      in store_paddr access_addr data memop)"

definition load_sfr :: "u32 \<Rightarrow> TCGMemOp \<Rightarrow> tcgv gen" where
  "load_sfr sfr memop = (let access_addr = 0xFFF00 + sfr in load_paddr access_addr memop)"

definition store_sfr :: "u32 \<Rightarrow> tcgv \<Rightarrow> TCGMemOp \<Rightarrow> unit gen" where
  "store_sfr sfr data memop = (let access_addr = 0xFFF00 + sfr in store_paddr access_addr data memop)"

section \<open>Indirect addresses\<close>

definition ind_reg :: "RL78WordRegister \<Rightarrow> tcgv gen" where
  "ind_reg base = do { tcg_base \<leftarrow> load_word_reg base; rl78_gen_addr tcg_base }"

definition load_ind_reg :: "RL78WordRegister \<Rightarrow> TCGMemOp \<Rightarrow> tcgv gen" where
  "load_ind_reg base memop = do { addr \<leftarrow> ind_reg base; rl78_gen_load addr memop }"

definition store_ind_reg :: "RL78WordRegister \<Rightarrow> tcgv \<Rightarrow> TCGMemOp \<Rightarrow> unit gen" where
  "store_ind_reg base data memop = do { addr \<leftarrow> ind_reg base; rl78_gen_store addr data memop }"

definition ind_reg_reg :: "RL78WordRegister \<Rightarrow> RL78ByteRegister \<Rightarrow> tcgv gen" where
  "ind_reg_reg base idx = do {
     tcg_base \<leftarrow> load_word_reg base;
     tcg_idx \<leftarrow> load_byte_reg idx;
     tcg_gen_add_i32 tcg_base tcg_base tcg_idx;
     rl78_gen_addr tcg_base }"

definition load_ind_reg_reg :: "RL78WordRegister \<Rightarrow> RL78ByteRegister \<Rightarrow> TCGMemOp \<Rightarrow> tcgv gen" where
  "load_ind_reg_reg base idx memop = do { addr \<leftarrow> ind_reg_reg base idx; rl78_gen_load addr memop }"

definition store_ind_reg_reg :: "RL78WordRegister \<Rightarrow> RL78ByteRegister \<Rightarrow> tcgv \<Rightarrow> TCGMemOp \<Rightarrow> unit gen" where
  "store_ind_reg_reg base idx data memop = do {
     addr \<leftarrow> ind_reg_reg base idx; rl78_gen_store addr data memop }"

definition ind_reg_imm :: "RL78WordRegister \<Rightarrow> u32 \<Rightarrow> tcgv gen" where
  "ind_reg_imm base imm = do {
     tcg_base \<leftarrow> load_word_reg base;
     tcg_gen_addi_i32 tcg_base tcg_base imm;
     rl78_gen_addr tcg_base }"

definition load_ind_reg_imm :: "RL78WordRegister \<Rightarrow> u32 \<Rightarrow> TCGMemOp \<Rightarrow> tcgv gen" where
  "load_ind_reg_imm base imm memop = do { addr \<leftarrow> ind_reg_imm base imm; rl78_gen_load addr memop }"

definition store_ind_reg_imm :: "RL78WordRegister \<Rightarrow> u32 \<Rightarrow> tcgv \<Rightarrow> TCGMemOp \<Rightarrow> unit gen" where
  "store_ind_reg_imm base imm data memop = do {
     addr \<leftarrow> ind_reg_imm base imm; rl78_gen_store addr data memop }"

definition ind_sp_imm :: "u32 \<Rightarrow> tcgv gen" where
  "ind_sp_imm imm = do {
     sp \<leftarrow> load_sp;
     tcg_gen_addi_i32 sp sp imm;
     rl78_gen_addr sp }"

definition load_ind_sp_imm :: "u32 \<Rightarrow> TCGMemOp \<Rightarrow> tcgv gen" where
  "load_ind_sp_imm imm memop = do { addr \<leftarrow> ind_sp_imm imm; rl78_gen_load addr memop }"

definition store_ind_sp_imm :: "u32 \<Rightarrow> tcgv \<Rightarrow> TCGMemOp \<Rightarrow> unit gen" where
  "store_ind_sp_imm imm data memop = do { addr \<leftarrow> ind_sp_imm imm; rl78_gen_store addr data memop }"

definition ind_base_byte :: "u32 \<Rightarrow> RL78ByteRegister \<Rightarrow> tcgv gen" where
  "ind_base_byte base idx = do {
     tcg_base \<leftarrow> tcg_const_i32 base;
     tcg_addr \<leftarrow> load_byte_reg idx;
     tcg_gen_add_i32 tcg_addr tcg_addr tcg_base;
     rl78_gen_addr tcg_addr }"

definition load_ind_base_byte :: "u32 \<Rightarrow> RL78ByteRegister \<Rightarrow> TCGMemOp \<Rightarrow> tcgv gen" where
  "load_ind_base_byte base idx memop = do { addr \<leftarrow> ind_base_byte base idx; rl78_gen_load addr memop }"

definition store_ind_base_byte :: "u32 \<Rightarrow> RL78ByteRegister \<Rightarrow> tcgv \<Rightarrow> TCGMemOp \<Rightarrow> unit gen" where
  "store_ind_base_byte base idx data memop = do {
     addr \<leftarrow> ind_base_byte base idx; rl78_gen_store addr data memop }"

definition ind_base_word :: "u32 \<Rightarrow> RL78WordRegister \<Rightarrow> tcgv gen" where
  "ind_base_word base idx = do {
     tcg_base \<leftarrow> tcg_const_i32 base;
     tcg_addr \<leftarrow> load_word_reg idx;
     tcg_gen_add_i32 tcg_addr tcg_addr tcg_base;
     rl78_gen_addr tcg_addr }"

definition load_ind_base_word :: "u32 \<Rightarrow> RL78WordRegister \<Rightarrow> TCGMemOp \<Rightarrow> tcgv gen" where
  "load_ind_base_word base idx memop = do { addr \<leftarrow> ind_base_word base idx; rl78_gen_load addr memop }"

definition store_ind_base_word :: "u32 \<Rightarrow> RL78WordRegister \<Rightarrow> tcgv \<Rightarrow> TCGMemOp \<Rightarrow> unit gen" where
  "store_ind_base_word base idx data memop = do {
     addr \<leftarrow> ind_base_word base idx; rl78_gen_store addr data memop }"

section \<open>Bits\<close>

record RL78BitData =
  bd_byte :: tcgv
  bd_bit :: tcgv

definition rl78_gen_load_bit :: "RL78OperandBit \<Rightarrow> RL78BitData gen" where
  "rl78_gen_load_bit op = do {
     b \<leftarrow> tcg_temp_new_i32;
     data \<leftarrow> (case bit_kind op of
         BITOP_SADDR \<Rightarrow> load_saddr (bit_addr op) MO_8
       | BITOP_SFR \<Rightarrow> load_sfr (bit_addr op) MO_8
       | BITOP_REG_A \<Rightarrow> load_byte_reg REG_A
       | BITOP_ABS16 \<Rightarrow> load_abs16 (bit_addr op) MO_8
       | BITOP_IND_HL \<Rightarrow> load_ind_reg_imm REG_HL 0 MO_8
       | BITOP_CY \<Rightarrow> load_psw_cy);
     tcg_gen_shri_i32 b data (bit_bit op);
     tcg_gen_andi_i32 b b 0x01;
     State_Monad.return \<lparr>bd_byte = data, bd_bit = b\<rparr> }"

definition rl78_gen_store_bit :: "RL78OperandBit \<Rightarrow> RL78BitData \<Rightarrow> unit gen" where
  "rl78_gen_store_bit op b = do {
     stored_data \<leftarrow> tcg_temp_new_i32;
     stored_bit \<leftarrow> tcg_temp_new_i32;
     let msk = push_bit (unat (bit_bit op)) 1;
     tcg_gen_mov_i32 stored_data (bd_byte b);
     tcg_gen_andi_i32 stored_data stored_data (NOT msk);
     tcg_gen_shli_i32 stored_bit (bd_bit b) (bit_bit op);
     tcg_gen_or_i32 stored_data stored_data stored_bit;
     (case bit_kind op of
         BITOP_SADDR \<Rightarrow> store_saddr (bit_addr op) stored_data MO_8
       | BITOP_SFR \<Rightarrow> store_sfr (bit_addr op) stored_data MO_8
       | BITOP_REG_A \<Rightarrow> store_byte_reg REG_A stored_data
       | BITOP_ABS16 \<Rightarrow> store_abs16 (bit_addr op) stored_data MO_8
       | BITOP_IND_HL \<Rightarrow> store_ind_reg_imm REG_HL 0 stored_data MO_8
       | BITOP_CY \<Rightarrow> store_psw_cy stored_data) }"

section \<open>Operands\<close>

fun rl78_gen_load_operand :: "RL78Operand \<Rightarrow> TCGMemOp \<Rightarrow> tcgv gen" where
  "rl78_gen_load_operand (OP_BYTE_REG r) memop = load_byte_reg r"
| "rl78_gen_load_operand (OP_WORD_REG r) memop = load_word_reg r"
| "rl78_gen_load_operand OP_PSW memop = load_psw"
| "rl78_gen_load_operand OP_SP memop = load_sp"
| "rl78_gen_load_operand OP_ES memop = load_es"
| "rl78_gen_load_operand OP_CY memop = load_psw_cy"
| "rl78_gen_load_operand (OP_IMM8 v) memop = tcg_const_i32 (v AND 0xFF)"
| "rl78_gen_load_operand (OP_IMM16 v) memop = tcg_const_i32 (v AND 0xFFFF)"
| "rl78_gen_load_operand (OP_ABS16 v) memop = load_abs16 v memop"
| "rl78_gen_load_operand (OP_SADDR v) memop = load_saddr v memop"
| "rl78_gen_load_operand (OP_SFR v) memop = load_sfr v memop"
| "rl78_gen_load_operand (OP_IND_REG r) memop = load_ind_reg r memop"
| "rl78_gen_load_operand (OP_IND_REG_REG r i) memop = load_ind_reg_reg r i memop"
| "rl78_gen_load_operand (OP_IND_REG_IMM r v) memop = load_ind_reg_imm r v memop"
| "rl78_gen_load_operand (OP_IND_SP_IMM v) memop = load_ind_sp_imm v memop"
| "rl78_gen_load_operand (OP_IND_BASE_BYTE v r) memop = load_ind_base_byte v r memop"
| "rl78_gen_load_operand (OP_IND_BASE_WORD v r) memop = load_ind_base_word v r memop"
| "rl78_gen_load_operand (OP_SHAMT v) memop = tcg_const_i32 (v AND 0x1F)"
| "rl78_gen_load_operand (OP_SEL_RB v) memop = tcg_const_i32 (v AND 0x03)"
| "rl78_gen_load_operand op memop = do { tlib_abortf (Abort_load_kind op); tcg_const_i32 0 }"

fun rl78_gen_store_operand :: "RL78Operand \<Rightarrow> tcgv \<Rightarrow> TCGMemOp \<Rightarrow> unit gen" where
  "rl78_gen_store_operand (OP_BYTE_REG r) data memop = store_byte_reg r data"
| "rl78_gen_store_operand (OP_WORD_REG r) data memop = store_word_reg r data"
| "rl78_gen_store_operand OP_PSW data memop = store_psw data"
| "rl78_gen_store_operand OP_SP data memop = store_sp data"
| "rl78_gen_store_operand OP_ES data memop = store_es data"
| "rl78_gen_store_operand OP_CY data memop = store_psw_cy data"
| "rl78_gen_store_operand (OP_ABS16 v) data memop = store_abs16 v data memop"
| "rl78_gen_store_operand (OP_SADDR v) data memop = store_saddr v data memop"
| "rl78_gen_store_operand (OP_SFR v) data memop = store_sfr v data memop"
| "rl78_gen_store_operand (OP_IND_REG r) data memop = store_ind_reg r data memop"
| "rl78_gen_store_operand (OP_IND_REG_REG r i) data memop = store_ind_reg_reg r i data memop"
| "rl78_gen_store_operand (OP_IND_REG_IMM r v) data memop = store_ind_reg_imm r v data memop"
| "rl78_gen_store_operand (OP_IND_SP_IMM v) data memop = store_ind_sp_imm v data memop"
| "rl78_gen_store_operand (OP_IND_BASE_BYTE v r) data memop = store_ind_base_byte v r data memop"
| "rl78_gen_store_operand (OP_IND_BASE_WORD v r) data memop = store_ind_base_word v r data memop"
| "rl78_gen_store_operand op data memop = tlib_abortf (Abort_store_kind op)"

end
