(* ===== verification/RL78_Translate.thy ===== *)
theory RL78_Translate
  imports RL78_Operand
begin

text \<open>The instruction translators (\<^verbatim>\<open>src/arch/rl78/translate.c\<close>, second half), their dispatch
  by \<^verbatim>\<open>decode\<close>, and the generation of one translation block
  (\<^verbatim>\<open>gen_intermediate_code\<close>, its epilogue, and the loop of \<^verbatim>\<open>cpu_gen_code_inner\<close> in
  \<^verbatim>\<open>src/arch/translate-all.c\<close>). An instruction handler returns false only where the C one does.\<close>

section \<open>Block exits\<close>

text \<open>\<^verbatim>\<open>gen_exit_tb\<close> and \<^verbatim>\<open>gen_exit_tb_no_chaining\<close> without a block-finished hook. The value
  \<^verbatim>\<open>(uintptr_t)tb + n\<close> is \<^verbatim>\<open>Some n\<close>, the value 0 is \<^verbatim>\<open>None\<close>.\<close>

definition gen_exit_tb :: "nat \<Rightarrow> unit gen" where
  "gen_exit_tb n = tcg_gen_exit_tb (Some n)"

definition gen_exit_tb_no_chaining :: "unit gen" where
  "gen_exit_tb_no_chaining = tcg_gen_exit_tb None"

definition use_goto_tb :: "DisasContext \<Rightarrow> u32 \<Rightarrow> bool" where
  "use_goto_tb d dest = (tb_pc d AND TARGET_PAGE_MASK = dest AND TARGET_PAGE_MASK)"

definition gen_goto_tb :: "nat \<Rightarrow> u32 \<Rightarrow> unit gen" where
  "gen_goto_tb n dest = do {
     d \<leftarrow> get_dc;
     if use_goto_tb d dest then do {
       tcg_gen_goto_tb n;
       tcg_gen_movi_i32 cpu_pc dest;
       gen_exit_tb n }
     else do {
       tcg_gen_movi_i32 cpu_pc dest;
       gen_exit_tb_no_chaining } }"

definition set_is_jmp :: "disas_jmp \<Rightarrow> unit gen" where
  "set_is_jmp j = upd_dc (\<lambda>ctx. ctx\<lparr>base_is_jmp := j\<rparr>)"

definition rl78_gen_goto_tb :: "nat \<Rightarrow> u32 \<Rightarrow> unit gen" where
  "rl78_gen_goto_tb tb_slot_idx dest = do {
     gen_goto_tb tb_slot_idx dest;
     set_is_jmp DISAS_TB_JUMP }"

type_synonym translate_handler = "RL78Instruction \<Rightarrow> bool gen"

definition trans_unimplemented :: translate_handler where
  "trans_unimplemented insn = do {
     tlib_abortf (Abort_unimplemented (mnemonic insn));
     State_Monad.return False }"

section \<open>Flags\<close>

definition borrow_byte :: "tcgv \<Rightarrow> tcgv gen" where
  "borrow_byte result = do {
     cy \<leftarrow> tcg_temp_new_i32;
     tcg_gen_shri_i32 cy result 8;
     tcg_gen_andi_i32 cy cy 0x01;
     State_Monad.return cy }"

definition carry_byte :: "tcgv \<Rightarrow> tcgv gen" where
  "carry_byte result = do {
     cy \<leftarrow> tcg_temp_new_i32;
     tcg_gen_shri_i32 cy result 8;
     tcg_gen_andi_i32 cy cy 0x01;
     State_Monad.return cy }"

definition zero_byte :: "tcgv \<Rightarrow> tcgv gen" where
  "zero_byte result = do {
     z \<leftarrow> tcg_temp_new_i32;
     tcg_gen_andi_i32 z result 0xFF;
     c0 \<leftarrow> tcg_const_i32 0; v1 \<leftarrow> tcg_const_i32 1; v0 \<leftarrow> tcg_const_i32 0;
     tcg_gen_movcond_i32 COND_EQ z z c0 v1 v0;
     State_Monad.return z }"

definition borrow_word :: "tcgv \<Rightarrow> tcgv gen" where
  "borrow_word result = do {
     cy \<leftarrow> tcg_temp_new_i32;
     tcg_gen_shri_i32 cy result 16;
     tcg_gen_andi_i32 cy cy 0x01;
     State_Monad.return cy }"

definition carry_word :: "tcgv \<Rightarrow> tcgv gen" where
  "carry_word result = do {
     cy \<leftarrow> tcg_temp_new_i32;
     tcg_gen_shri_i32 cy result 16;
     tcg_gen_andi_i32 cy cy 0x01;
     State_Monad.return cy }"

definition zero_word :: "tcgv \<Rightarrow> tcgv gen" where
  "zero_word result = do {
     z \<leftarrow> tcg_temp_new_i32;
     tcg_gen_andi_i32 z result 0xFFFF;
     c0 \<leftarrow> tcg_const_i32 0; v1 \<leftarrow> tcg_const_i32 1; v0 \<leftarrow> tcg_const_i32 0;
     tcg_gen_movcond_i32 COND_EQ z z c0 v1 v0;
     State_Monad.return z }"

definition half_carry :: "tcgv \<Rightarrow> tcgv \<Rightarrow> tcgv \<Rightarrow> tcgv gen" where
  "half_carry op0 op1 result = do {
     tmp \<leftarrow> tcg_temp_new_i32;
     ac \<leftarrow> tcg_temp_new_i32;
     tcg_gen_mov_i32 tmp op0;
     tcg_gen_xor_i32 tmp tmp op1;
     tcg_gen_xor_i32 tmp tmp result;
     tcg_gen_shri_i32 ac tmp 4;
     tcg_gen_andi_i32 ac ac 0x01;
     State_Monad.return ac }"

definition half_borrow :: "tcgv \<Rightarrow> tcgv \<Rightarrow> tcgv \<Rightarrow> tcgv gen" where
  "half_borrow op0 op1 result = do {
     tmp \<leftarrow> tcg_temp_new_i32;
     ac \<leftarrow> tcg_temp_new_i32;
     tcg_gen_xor_i32 tmp op0 op1;
     tcg_gen_xor_i32 tmp tmp result;
     tcg_gen_shri_i32 ac tmp 4;
     tcg_gen_andi_i32 ac ac 0x01;
     State_Monad.return ac }"

section \<open>Jumps, calls, returns, skips\<close>

definition rl78_gen_ind_jump :: "RL78WordRegister \<Rightarrow> unit gen" where
  "rl78_gen_ind_jump reg = do {
     target \<leftarrow> load_word_reg reg;
     pc_s \<leftarrow> tcg_temp_new_i32;
     tcg_gen_mov_i32 pc_s cpu_cs;
     tcg_gen_shli_i32 pc_s pc_s 16;
     tcg_gen_add_i32 pc_s pc_s target;
     tcg_gen_mov_i32 cpu_pc pc_s;
     gen_exit_tb_no_chaining;
     set_is_jmp DISAS_UPDATE }"

definition rl78_gen_abs_jump :: "u32 \<Rightarrow> unit gen" where
  "rl78_gen_abs_jump target = rl78_gen_goto_tb 1 target"

definition rl78_gen_rel_jump :: "u32 \<Rightarrow> unit gen" where
  "rl78_gen_rel_jump rel = do {
     ctx \<leftarrow> get_dc;
     rl78_gen_goto_tb 1 (base_pc ctx + rel) }"

definition rl78_gen_prepare_call :: "bool \<Rightarrow> unit gen" where
  "rl78_gen_prepare_call save_psw = do {
     ctx \<leftarrow> get_dc;
     let ret_pc = base_pc ctx;
     let ret_pcs = drop_bit 16 ret_pc AND 0x0F;
     let ret_pch = drop_bit 8 ret_pc AND 0xFF;
     let ret_pcl = drop_bit 0 ret_pc AND 0xFF;
     tcg_gen_subi_i32 cpu_sp cpu_sp 1;
     (if save_psw then do {
        psw \<leftarrow> load_psw;
        a \<leftarrow> rl78_gen_addr cpu_sp;
        rl78_gen_sb a psw }
      else State_Monad.return ());
     tcg_gen_subi_i32 cpu_sp cpu_sp 1;
     as \<leftarrow> rl78_gen_addr cpu_sp; cs \<leftarrow> tcg_const_i32 ret_pcs; rl78_gen_sb as cs;
     tcg_gen_subi_i32 cpu_sp cpu_sp 1;
     ah \<leftarrow> rl78_gen_addr cpu_sp; ch \<leftarrow> tcg_const_i32 ret_pch; rl78_gen_sb ah ch;
     tcg_gen_subi_i32 cpu_sp cpu_sp 1;
     al \<leftarrow> rl78_gen_addr cpu_sp; cl \<leftarrow> tcg_const_i32 ret_pcl; rl78_gen_sb al cl }"

definition call_ind_reg :: "RL78WordRegister \<Rightarrow> bool gen" where
  "call_ind_reg reg = do {
     target \<leftarrow> load_word_reg reg;
     pc_s \<leftarrow> tcg_temp_new_i32;
     tcg_gen_mov_i32 pc_s cpu_cs;
     tcg_gen_shli_i32 pc_s pc_s 16;
     tcg_gen_add_i32 target target pc_s;
     rl78_gen_prepare_call False;
     tcg_gen_mov_i32 cpu_pc target;
     gen_exit_tb_no_chaining;
     set_is_jmp DISAS_UPDATE;
     State_Monad.return True }"

definition call_abs :: "u32 \<Rightarrow> unit gen" where
  "call_abs target = do {
     rl78_gen_prepare_call False;
     rl78_gen_abs_jump target }"

definition call_rel :: "u32 \<Rightarrow> unit gen" where
  "call_rel rel = do {
     ctx \<leftarrow> get_dc;
     call_abs (base_pc ctx + rel) }"

definition rl78_gen_ret :: "bool \<Rightarrow> unit gen" where
  "rl78_gen_ret restore_psw = do {
     target \<leftarrow> tcg_temp_new_i32;
     al \<leftarrow> rl78_gen_addr cpu_sp; pcl \<leftarrow> rl78_gen_lb al;
     tcg_gen_addi_i32 cpu_sp cpu_sp 1;
     ah \<leftarrow> rl78_gen_addr cpu_sp; pch \<leftarrow> rl78_gen_lb ah;
     tcg_gen_addi_i32 cpu_sp cpu_sp 1;
     as \<leftarrow> rl78_gen_addr cpu_sp; pcs \<leftarrow> rl78_gen_lb as;
     tcg_gen_addi_i32 cpu_sp cpu_sp 1;
     (if restore_psw then do {
        a \<leftarrow> rl78_gen_addr cpu_sp; psw \<leftarrow> rl78_gen_lb a;
        store_psw psw }
      else State_Monad.return ());
     tcg_gen_addi_i32 cpu_sp cpu_sp 1;
     tcg_gen_shli_i32 pch pch 8;
     tcg_gen_shli_i32 pcs pcs 16;
     tcg_gen_mov_i32 target pcl;
     tcg_gen_or_i32 target target pch;
     tcg_gen_or_i32 target target pcs;
     tcg_gen_mov_i32 cpu_pc target;
     gen_exit_tb_no_chaining;
     set_is_jmp DISAS_UPDATE }"

definition rl78_gen_skip :: "TCGCond \<Rightarrow> tcgv \<Rightarrow> unit gen" where
  "rl78_gen_skip cond operand = do {
     upd_dc (\<lambda>ctx. ctx\<lparr>dc_skip_flag := True\<rparr>);
     tcg_gen_movi_i32 cpu_skip_en 1;
     c1 \<leftarrow> tcg_const_i32 1; v1 \<leftarrow> tcg_const_i32 1; v0 \<leftarrow> tcg_const_i32 0;
     tcg_gen_movcond_i32 cond cpu_skip_req operand c1 v1 v0 }"

section \<open>Moves\<close>

definition trans_MOV :: translate_handler where
  "trans_MOV insn = do {
     src \<leftarrow> rl78_gen_load_operand (operand1 insn) MO_8;
     rl78_gen_store_operand (operand0 insn) src MO_8;
     State_Monad.return True }"

definition trans_ONEB :: translate_handler where
  "trans_ONEB insn = do {
     op \<leftarrow> tcg_const_i32 1;
     rl78_gen_store_operand (operand0 insn) op MO_8;
     State_Monad.return True }"

definition trans_XCH :: translate_handler where
  "trans_XCH insn = do {
     op0 \<leftarrow> rl78_gen_load_operand (operand0 insn) MO_8;
     op1 \<leftarrow> rl78_gen_load_operand (operand1 insn) MO_8;
     rl78_gen_store_operand (operand1 insn) op0 MO_8;
     rl78_gen_store_operand (operand0 insn) op1 MO_8;
     State_Monad.return True }"

definition trans_MOVW :: translate_handler where
  "trans_MOVW insn = do {
     src \<leftarrow> rl78_gen_load_operand (operand1 insn) MO_16;
     rl78_gen_store_operand (operand0 insn) src MO_16;
     State_Monad.return True }"

definition trans_CLRB :: translate_handler where
  "trans_CLRB insn = do {
     op \<leftarrow> tcg_const_i32 0;
     rl78_gen_store_operand (operand0 insn) op MO_8;
     State_Monad.return True }"

definition trans_ONEW :: translate_handler where
  "trans_ONEW insn = do {
     op \<leftarrow> tcg_const_i32 1;
     rl78_gen_store_operand (operand0 insn) op MO_16;
     State_Monad.return True }"

definition trans_CLRW :: translate_handler where
  "trans_CLRW insn = do {
     op \<leftarrow> tcg_const_i32 0;
     rl78_gen_store_operand (operand0 insn) op MO_16;
     State_Monad.return True }"

section \<open>Arithmetic and logic\<close>

definition trans_ADD :: translate_handler where
  "trans_ADD insn = do {
     op0 \<leftarrow> rl78_gen_load_operand (operand0 insn) MO_8;
     op1 \<leftarrow> rl78_gen_load_operand (operand1 insn) MO_8;
     result \<leftarrow> tcg_temp_new_i32;
     tcg_gen_add_i32 result op0 op1;
     rl78_gen_store_operand (operand0 insn) result MO_8;
     cy \<leftarrow> carry_byte result; tcg_gen_mov_i32 cpu_psw_cy cy;
     ac \<leftarrow> half_carry op0 op1 result; tcg_gen_mov_i32 cpu_psw_ac ac;
     z \<leftarrow> zero_byte result; tcg_gen_mov_i32 cpu_psw_z z;
     State_Monad.return True }"

definition trans_SUB :: translate_handler where
  "trans_SUB insn = do {
     op0 \<leftarrow> rl78_gen_load_operand (operand0 insn) MO_8;
     op1 \<leftarrow> rl78_gen_load_operand (operand1 insn) MO_8;
     result \<leftarrow> tcg_temp_new_i32;
     tcg_gen_sub_i32 result op0 op1;
     rl78_gen_store_operand (operand0 insn) result MO_8;
     cy \<leftarrow> borrow_byte result; tcg_gen_mov_i32 cpu_psw_cy cy;
     ac \<leftarrow> half_borrow op0 op1 result; tcg_gen_mov_i32 cpu_psw_ac ac;
     z \<leftarrow> zero_byte result; tcg_gen_mov_i32 cpu_psw_z z;
     State_Monad.return True }"

definition trans_SUBC :: translate_handler where
  "trans_SUBC insn = do {
     op0 \<leftarrow> rl78_gen_load_operand (operand0 insn) MO_8;
     op1 \<leftarrow> rl78_gen_load_operand (operand1 insn) MO_8;
     result \<leftarrow> tcg_temp_new_i32;
     tcg_gen_sub_i32 result op0 op1;
     tcg_gen_sub_i32 result result cpu_psw_cy;
     rl78_gen_store_operand (operand0 insn) result MO_8;
     cy \<leftarrow> borrow_byte result; tcg_gen_mov_i32 cpu_psw_cy cy;
     ac \<leftarrow> half_borrow op0 op1 result; tcg_gen_mov_i32 cpu_psw_ac ac;
     z \<leftarrow> zero_byte result; tcg_gen_mov_i32 cpu_psw_z z;
     State_Monad.return True }"

definition trans_XCHW :: translate_handler where
  "trans_XCHW insn = do {
     op0 \<leftarrow> rl78_gen_load_operand (operand0 insn) MO_16;
     op1 \<leftarrow> rl78_gen_load_operand (operand1 insn) MO_16;
     rl78_gen_store_operand (operand1 insn) op0 MO_16;
     rl78_gen_store_operand (operand0 insn) op1 MO_16;
     State_Monad.return True }"

definition trans_MOVS :: translate_handler where
  "trans_MOVS insn = do {
     is_src_zero \<leftarrow> tcg_temp_new_i32;
     is_a_zero \<leftarrow> tcg_temp_new_i32;
     a \<leftarrow> load_byte_reg REG_A;
     src \<leftarrow> rl78_gen_load_operand (operand1 insn) MO_8;
     rl78_gen_store_operand (operand0 insn) src MO_8;
     c0 \<leftarrow> tcg_const_i32 0; v1 \<leftarrow> tcg_const_i32 1; v0 \<leftarrow> tcg_const_i32 0;
     tcg_gen_movcond_i32 COND_EQ is_src_zero src c0 v1 v0;
     c0' \<leftarrow> tcg_const_i32 0; v1' \<leftarrow> tcg_const_i32 1; v0' \<leftarrow> tcg_const_i32 0;
     tcg_gen_movcond_i32 COND_EQ is_a_zero a c0' v1' v0';
     tcg_gen_mov_i32 cpu_psw_z is_src_zero;
     tcg_gen_or_i32 cpu_psw_cy is_src_zero is_a_zero;
     State_Monad.return True }"

definition trans_CMP :: translate_handler where
  "trans_CMP insn = do {
     op0 \<leftarrow> rl78_gen_load_operand (operand0 insn) MO_8;
     op1 \<leftarrow> rl78_gen_load_operand (operand1 insn) MO_8;
     result \<leftarrow> tcg_temp_new_i32;
     tcg_gen_sub_i32 result op0 op1;
     cy \<leftarrow> borrow_byte result; tcg_gen_mov_i32 cpu_psw_cy cy;
     ac \<leftarrow> half_borrow op0 op1 result; tcg_gen_mov_i32 cpu_psw_ac ac;
     z \<leftarrow> zero_byte result; tcg_gen_mov_i32 cpu_psw_z z;
     State_Monad.return True }"

definition trans_CMP0 :: translate_handler where
  "trans_CMP0 insn = do {
     op0 \<leftarrow> rl78_gen_load_operand (operand0 insn) MO_8;
     zero \<leftarrow> tcg_const_i32 0;
     result \<leftarrow> tcg_temp_new_i32;
     tcg_gen_sub_i32 result op0 zero;
     cy \<leftarrow> borrow_byte result; tcg_gen_mov_i32 cpu_psw_cy cy;
     ac \<leftarrow> half_borrow op0 zero result; tcg_gen_mov_i32 cpu_psw_ac ac;
     z \<leftarrow> zero_byte result; tcg_gen_mov_i32 cpu_psw_z z;
     State_Monad.return True }"

definition trans_CMPS :: translate_handler where
  "trans_CMPS insn = do {
     x \<leftarrow> rl78_gen_load_operand (operand0 insn) MO_8;
     op1 \<leftarrow> rl78_gen_load_operand (operand1 insn) MO_8;
     a \<leftarrow> load_byte_reg REG_A;
     result \<leftarrow> tcg_temp_new_i32;
     tcg_gen_sub_i32 result x op1;
     ac \<leftarrow> half_borrow x op1 result; tcg_gen_mov_i32 cpu_psw_ac ac;
     z \<leftarrow> zero_byte result; tcg_gen_mov_i32 cpu_psw_z z;
     is_x_not_op1 \<leftarrow> tcg_temp_new_i32;
     is_a_zero \<leftarrow> tcg_temp_new_i32;
     is_x_zero \<leftarrow> tcg_temp_new_i32;
     tcg_gen_andi_i32 result result 0xFF;
     tcg_gen_setcond_i32 COND_NE is_x_not_op1 x op1;
     c0 \<leftarrow> tcg_const_i32 0;
     tcg_gen_setcond_i32 COND_EQ is_a_zero a c0;
     c0' \<leftarrow> tcg_const_i32 0;
     tcg_gen_setcond_i32 COND_EQ is_x_zero x c0';
     tcg_gen_or_i32 cpu_psw_cy is_x_not_op1 is_a_zero;
     tcg_gen_or_i32 cpu_psw_cy cpu_psw_cy is_x_zero;
     State_Monad.return True }"

definition trans_ADDC :: translate_handler where
  "trans_ADDC insn = do {
     op0 \<leftarrow> rl78_gen_load_operand (operand0 insn) MO_8;
     op1 \<leftarrow> rl78_gen_load_operand (operand1 insn) MO_8;
     result \<leftarrow> tcg_temp_new_i32;
     tcg_gen_add_i32 result op0 op1;
     tcg_gen_add_i32 result result cpu_psw_cy;
     rl78_gen_store_operand (operand0 insn) result MO_8;
     cy \<leftarrow> carry_byte result; tcg_gen_mov_i32 cpu_psw_cy cy;
     ac \<leftarrow> half_carry op0 op1 result; tcg_gen_mov_i32 cpu_psw_ac ac;
     z \<leftarrow> zero_byte result; tcg_gen_mov_i32 cpu_psw_z z;
     State_Monad.return True }"

definition trans_ADDW :: translate_handler where
  "trans_ADDW insn = do {
     op0 \<leftarrow> rl78_gen_load_operand (operand0 insn) MO_16;
     op1 \<leftarrow> rl78_gen_load_operand (operand1 insn) MO_16;
     result \<leftarrow> tcg_temp_new_i32;
     tcg_gen_add_i32 result op0 op1;
     rl78_gen_store_operand (operand0 insn) result MO_16;
     cy \<leftarrow> carry_word result; tcg_gen_mov_i32 cpu_psw_cy cy;
     c0 \<leftarrow> tcg_const_i32 0; tcg_gen_mov_i32 cpu_psw_ac c0;
     z \<leftarrow> zero_word result; tcg_gen_mov_i32 cpu_psw_z z;
     State_Monad.return True }"

definition trans_SUBW :: translate_handler where
  "trans_SUBW insn = do {
     op0 \<leftarrow> rl78_gen_load_operand (operand0 insn) MO_16;
     op1 \<leftarrow> rl78_gen_load_operand (operand1 insn) MO_16;
     result \<leftarrow> tcg_temp_new_i32;
     tcg_gen_sub_i32 result op0 op1;
     rl78_gen_store_operand (operand0 insn) result MO_16;
     cy \<leftarrow> borrow_word result; tcg_gen_mov_i32 cpu_psw_cy cy;
     c0 \<leftarrow> tcg_const_i32 0; tcg_gen_mov_i32 cpu_psw_ac c0;
     z \<leftarrow> zero_word result; tcg_gen_mov_i32 cpu_psw_z z;
     State_Monad.return True }"

definition trans_CMPW :: translate_handler where
  "trans_CMPW insn = do {
     op0 \<leftarrow> rl78_gen_load_operand (operand0 insn) MO_16;
     op1 \<leftarrow> rl78_gen_load_operand (operand1 insn) MO_16;
     result \<leftarrow> tcg_temp_new_i32;
     tcg_gen_sub_i32 result op0 op1;
     cy \<leftarrow> borrow_word result; tcg_gen_mov_i32 cpu_psw_cy cy;
     c0 \<leftarrow> tcg_const_i32 0; tcg_gen_mov_i32 cpu_psw_ac c0;
     z \<leftarrow> zero_word result; tcg_gen_mov_i32 cpu_psw_z z;
     State_Monad.return True }"

definition trans_MULU :: translate_handler where
  "trans_MULU insn = do {
     a \<leftarrow> load_byte_reg REG_A;
     x \<leftarrow> load_byte_reg REG_X;
     result \<leftarrow> tcg_temp_new_i32;
     tcg_gen_mul_i32 result a x;
     tcg_gen_andi_i32 result result 0xFFFF;
     store_word_reg REG_AX result;
     State_Monad.return True }"

definition trans_INC :: translate_handler where
  "trans_INC insn = do {
     src \<leftarrow> rl78_gen_load_operand (operand0 insn) MO_8;
     result \<leftarrow> tcg_temp_new_i32;
     c1 \<leftarrow> tcg_const_i32 1;
     tcg_gen_add_i32 result src c1;
     rl78_gen_store_operand (operand0 insn) result MO_8;
     c1' \<leftarrow> tcg_const_i32 1;
     ac \<leftarrow> half_carry src c1' result; tcg_gen_mov_i32 cpu_psw_ac ac;
     z \<leftarrow> zero_byte result; tcg_gen_mov_i32 cpu_psw_z z;
     State_Monad.return True }"

definition trans_DEC :: translate_handler where
  "trans_DEC insn = do {
     src \<leftarrow> rl78_gen_load_operand (operand0 insn) MO_8;
     result \<leftarrow> tcg_temp_new_i32;
     c1 \<leftarrow> tcg_const_i32 1;
     tcg_gen_sub_i32 result src c1;
     rl78_gen_store_operand (operand0 insn) result MO_8;
     c1' \<leftarrow> tcg_const_i32 1;
     ac \<leftarrow> half_borrow src c1' result; tcg_gen_mov_i32 cpu_psw_ac ac;
     z \<leftarrow> zero_byte result; tcg_gen_mov_i32 cpu_psw_z z;
     State_Monad.return True }"

definition trans_INCW :: translate_handler where
  "trans_INCW insn = do {
     src \<leftarrow> rl78_gen_load_operand (operand0 insn) MO_16;
     result \<leftarrow> tcg_temp_new_i32;
     c1 \<leftarrow> tcg_const_i32 1;
     tcg_gen_add_i32 result src c1;
     rl78_gen_store_operand (operand0 insn) result MO_16;
     State_Monad.return True }"

definition trans_DECW :: translate_handler where
  "trans_DECW insn = do {
     src \<leftarrow> rl78_gen_load_operand (operand0 insn) MO_16;
     result \<leftarrow> tcg_temp_new_i32;
     c1 \<leftarrow> tcg_const_i32 1;
     tcg_gen_sub_i32 result src c1;
     rl78_gen_store_operand (operand0 insn) result MO_16;
     State_Monad.return True }"

definition trans_ROR :: translate_handler where
  "trans_ROR insn = do {
     src \<leftarrow> rl78_gen_load_operand (operand0 insn) MO_8;
     result \<leftarrow> tcg_temp_new_i32;
     tcg_gen_shli_i32 result src 8;
     tcg_gen_or_i32 result result src;
     tcg_gen_shri_i32 result result 1;
     tcg_gen_andi_i32 result result 0xFF;
     tcg_gen_andi_i32 cpu_psw_cy src 0x01;
     rl78_gen_store_operand (operand0 insn) result MO_8;
     State_Monad.return True }"

definition trans_ROL :: translate_handler where
  "trans_ROL insn = do {
     src \<leftarrow> rl78_gen_load_operand (operand0 insn) MO_8;
     result \<leftarrow> tcg_temp_new_i32;
     tcg_gen_shli_i32 result src 8;
     tcg_gen_or_i32 result result src;
     tcg_gen_shli_i32 result result 1;
     tcg_gen_shri_i32 result result 8;
     tcg_gen_andi_i32 result result 0xFF;
     tcg_gen_shri_i32 cpu_psw_cy src 7;
     rl78_gen_store_operand (operand0 insn) result MO_8;
     State_Monad.return True }"

definition trans_RORC :: translate_handler where
  "trans_RORC insn = do {
     src \<leftarrow> load_byte_reg REG_A;
     cy \<leftarrow> tcg_temp_new_i32;
     result \<leftarrow> tcg_temp_new_i32;
     tcg_gen_shli_i32 cy cpu_psw_cy 7;
     tcg_gen_shri_i32 result src 1;
     tcg_gen_or_i32 result result cy;
     tcg_gen_andi_i32 cpu_psw_cy src 0x01;
     store_byte_reg REG_A result;
     State_Monad.return True }"

definition trans_ROLC :: translate_handler where
  "trans_ROLC insn = do {
     src \<leftarrow> load_byte_reg REG_A;
     cy \<leftarrow> tcg_temp_new_i32;
     result \<leftarrow> tcg_temp_new_i32;
     tcg_gen_mov_i32 cy cpu_psw_cy;
     tcg_gen_shli_i32 result src 1;
     tcg_gen_or_i32 result result cy;
     tcg_gen_andi_i32 result result 0xFF;
     tcg_gen_shri_i32 cpu_psw_cy src 7;
     store_byte_reg REG_A result;
     State_Monad.return True }"

definition trans_ROLWC :: translate_handler where
  "trans_ROLWC insn = do {
     src \<leftarrow> rl78_gen_load_operand (operand0 insn) MO_16;
     result \<leftarrow> tcg_temp_new_i32;
     cy \<leftarrow> tcg_temp_new_i32;
     tcg_gen_shli_i32 result src 1;
     tcg_gen_or_i32 result result cpu_psw_cy;
     tcg_gen_andi_i32 result result 0xFFFF;
     tcg_gen_shri_i32 cy src 15;
     tcg_gen_andi_i32 cpu_psw_cy cy 0x01;
     rl78_gen_store_operand (operand0 insn) result MO_16;
     State_Monad.return True }"

definition bitwise :: "RL78Operand \<Rightarrow> RL78Operand \<Rightarrow> (tcgv \<Rightarrow> tcgv \<Rightarrow> tcgv \<Rightarrow> unit gen) \<Rightarrow> bool gen" where
  "bitwise dst src op = do {
     op0 \<leftarrow> rl78_gen_load_operand dst MO_8;
     op1 \<leftarrow> rl78_gen_load_operand src MO_8;
     result \<leftarrow> tcg_temp_new_i32;
     op result op0 op1;
     c0 \<leftarrow> tcg_const_i32 0; v1 \<leftarrow> tcg_const_i32 1; v0 \<leftarrow> tcg_const_i32 0;
     tcg_gen_movcond_i32 COND_EQ cpu_psw_z result c0 v1 v0;
     rl78_gen_store_operand dst result MO_8;
     State_Monad.return True }"

definition trans_XOR :: translate_handler where
  "trans_XOR insn = bitwise (operand0 insn) (operand1 insn) tcg_gen_xor_i32"

definition trans_AND :: translate_handler where
  "trans_AND insn = bitwise (operand0 insn) (operand1 insn) tcg_gen_and_i32"

definition trans_OR :: translate_handler where
  "trans_OR insn = bitwise (operand0 insn) (operand1 insn) tcg_gen_or_i32"

section \<open>Control transfer\<close>

definition sext8 :: "u32 \<Rightarrow> u32" where
  "sext8 v = scast (ucast (v AND 0xFF) :: u8)"

definition sext16 :: "u32 \<Rightarrow> u32" where
  "sext16 v = scast (ucast (v AND 0xFFFF) :: u16)"

text \<open>The member \<^verbatim>\<open>const_op\<close> of the operand union.\<close>

fun const_op :: "RL78Operand \<Rightarrow> u32" where
  "const_op (OP_IMM8 v) = v" | "const_op (OP_IMM16 v) = v" | "const_op (OP_ABS16 v) = v"
| "const_op (OP_ABS20 v) = v" | "const_op (OP_SADDR v) = v" | "const_op (OP_SFR v) = v"
| "const_op (OP_SHAMT v) = v" | "const_op (OP_REL8 v) = v" | "const_op (OP_REL16 v) = v"
| "const_op (OP_CALLT v) = v" | "const_op (OP_SEL_RB v) = v" | "const_op _ = 0"

definition trans_CALL :: translate_handler where
  "trans_CALL insn = do {
     (case operand0 insn of
        OP_WORD_REG r \<Rightarrow> do { call_ind_reg r; State_Monad.return () }
      | OP_ABS16 v \<Rightarrow> call_abs (v AND 0xFFFF)
      | OP_ABS20 v \<Rightarrow> call_abs (v AND 0xFFFFF)
      | OP_REL16 v \<Rightarrow> call_rel (sext16 v)
      | _ \<Rightarrow> State_Monad.return ());
     State_Monad.return True }"

definition trans_CALLT :: translate_handler where
  "trans_CALLT insn = do {
     a \<leftarrow> tcg_const_i32 (const_op (operand0 insn));
     target \<leftarrow> rl78_gen_lw a;
     rl78_gen_prepare_call False;
     tcg_gen_mov_i32 cpu_pc target;
     gen_exit_tb_no_chaining;
     set_is_jmp DISAS_UPDATE;
     State_Monad.return True }"

definition trans_RET :: translate_handler where
  "trans_RET insn = do { rl78_gen_ret False; State_Monad.return True }"

definition trans_RETI :: translate_handler where
  "trans_RETI insn = do { rl78_gen_ret True; State_Monad.return True }"

definition trans_BR :: translate_handler where
  "trans_BR insn = do {
     (case operand0 insn of
        OP_WORD_REG r \<Rightarrow> rl78_gen_ind_jump r
      | OP_ABS16 v \<Rightarrow> rl78_gen_abs_jump (v AND 0xFFFF)
      | OP_ABS20 v \<Rightarrow> rl78_gen_abs_jump (v AND 0xFFFFF)
      | OP_REL8 v \<Rightarrow> rl78_gen_rel_jump (sext8 v)
      | OP_REL16 v \<Rightarrow> rl78_gen_rel_jump (sext16 v)
      | _ \<Rightarrow> State_Monad.return ());
     State_Monad.return True }"

definition rl78_gen_branch :: "u32 \<Rightarrow> TCGCond \<Rightarrow> tcgv \<Rightarrow> unit gen" where
  "rl78_gen_branch op cond operand = do {
     ctx \<leftarrow> get_dc;
     let target = base_pc ctx + sext8 op;
     nobranch \<leftarrow> gen_new_label;
     tcg_gen_brcondi_i32 cond operand 0 nobranch;
     rl78_gen_goto_tb 1 target;
     gen_set_label nobranch }"

definition trans_BC :: translate_handler where
  "trans_BC insn = do { rl78_gen_branch (const_op (operand0 insn)) COND_EQ cpu_psw_cy; State_Monad.return True }"

definition trans_BNC :: translate_handler where
  "trans_BNC insn = do { rl78_gen_branch (const_op (operand0 insn)) COND_NE cpu_psw_cy; State_Monad.return True }"

definition trans_BZ :: translate_handler where
  "trans_BZ insn = do { rl78_gen_branch (const_op (operand0 insn)) COND_EQ cpu_psw_z; State_Monad.return True }"

definition trans_BNZ :: translate_handler where
  "trans_BNZ insn = do { rl78_gen_branch (const_op (operand0 insn)) COND_NE cpu_psw_z; State_Monad.return True }"

definition trans_BH :: translate_handler where
  "trans_BH insn = do {
     operand \<leftarrow> tcg_temp_local_new_i32;
     tcg_gen_mov_i32 operand cpu_psw_z;
     tcg_gen_or_i32 operand operand cpu_psw_cy;
     rl78_gen_branch (const_op (operand0 insn)) COND_NE operand;
     State_Monad.return True }"

definition trans_BNH :: translate_handler where
  "trans_BNH insn = do {
     operand \<leftarrow> tcg_temp_local_new_i32;
     tcg_gen_mov_i32 operand cpu_psw_z;
     tcg_gen_or_i32 operand operand cpu_psw_cy;
     rl78_gen_branch (const_op (operand0 insn)) COND_EQ operand;
     State_Monad.return True }"

text \<open>The member \<^verbatim>\<open>bit\<close> of the operand union.\<close>

fun bit_op :: "RL78Operand \<Rightarrow> RL78OperandBit" where
  "bit_op (OP_BIT b) = b"
| "bit_op _ = \<lparr>bit_kind = BITOP_SADDR, bit_bit = 0, bit_addr = 0\<rparr>"

definition trans_BT :: translate_handler where
  "trans_BT insn = do {
     bd \<leftarrow> rl78_gen_load_bit (bit_op (operand0 insn));
     b \<leftarrow> tcg_temp_local_new_i32;
     tcg_gen_mov_i32 b (bd_bit bd);
     rl78_gen_branch (const_op (operand1 insn)) COND_EQ b;
     State_Monad.return True }"

definition trans_BF :: translate_handler where
  "trans_BF insn = do {
     bd \<leftarrow> rl78_gen_load_bit (bit_op (operand0 insn));
     b \<leftarrow> tcg_temp_local_new_i32;
     tcg_gen_mov_i32 b (bd_bit bd);
     rl78_gen_branch (const_op (operand1 insn)) COND_NE b;
     State_Monad.return True }"

definition trans_BTCLR :: translate_handler where
  "trans_BTCLR insn = do {
     ctx \<leftarrow> get_dc;
     let target = base_pc ctx + sext8 (const_op (operand1 insn));
     let op = bit_op (operand0 insn);
     took \<leftarrow> tcg_temp_local_new_i32;
     dest \<leftarrow> tcg_temp_local_new_i32;
     kind \<leftarrow> tcg_const_i32 (bitop_kind_num (bit_kind op));
     addr \<leftarrow> tcg_const_i32 (bit_addr op);
     bt \<leftarrow> tcg_const_i32 (bit_bit op);
     use_es \<leftarrow> tcg_const_i32 (if dc_use_es ctx then 1 else 0);
     tcg_gen_helperN HELPER_rl78_btclr (Some took) [kind, addr, bt, use_es];
     c0 \<leftarrow> tcg_const_i32 0; v1 \<leftarrow> tcg_const_i32 target; v0 \<leftarrow> tcg_const_i32 (base_pc ctx);
     tcg_gen_movcond_i32 COND_NE dest took c0 v1 v0;
     tcg_gen_mov_i32 cpu_pc dest;
     gen_exit_tb_no_chaining;
     set_is_jmp DISAS_UPDATE;
     State_Monad.return True }"

definition trans_BRK :: translate_handler where
  "trans_BRK insn = do {
     a \<leftarrow> tcg_const_i32 0x0007E;
     target \<leftarrow> rl78_gen_lw a;
     rl78_gen_prepare_call True;
     tcg_gen_movi_i32 cpu_psw_ie 0;
     tcg_gen_mov_i32 cpu_pc target;
     gen_exit_tb_no_chaining;
     set_is_jmp DISAS_UPDATE;
     State_Monad.return True }"

definition trans_RETB :: translate_handler where
  "trans_RETB insn = do { rl78_gen_ret True; State_Monad.return True }"

definition trans_SKZ :: translate_handler where
  "trans_SKZ insn = do { rl78_gen_skip COND_EQ cpu_psw_z; State_Monad.return True }"

definition trans_SKC :: translate_handler where
  "trans_SKC insn = do { rl78_gen_skip COND_EQ cpu_psw_cy; State_Monad.return True }"

definition trans_SKNC :: translate_handler where
  "trans_SKNC insn = do { rl78_gen_skip COND_NE cpu_psw_cy; State_Monad.return True }"

definition trans_SKNZ :: translate_handler where
  "trans_SKNZ insn = do { rl78_gen_skip COND_NE cpu_psw_z; State_Monad.return True }"

definition trans_SKH :: translate_handler where
  "trans_SKH insn = do {
     operand \<leftarrow> tcg_temp_new_i32;
     tcg_gen_mov_i32 operand cpu_psw_z;
     tcg_gen_or_i32 operand operand cpu_psw_cy;
     rl78_gen_skip COND_NE operand;
     State_Monad.return True }"

definition trans_SKNH :: translate_handler where
  "trans_SKNH insn = do {
     operand \<leftarrow> tcg_temp_new_i32;
     tcg_gen_mov_i32 operand cpu_psw_z;
     tcg_gen_or_i32 operand operand cpu_psw_cy;
     rl78_gen_skip COND_EQ operand;
     State_Monad.return True }"

definition trans_SEL :: translate_handler where
  "trans_SEL insn = do {
     let sel = const_op (operand0 insn);
     tcg_gen_movi_i32 cpu_psw_rbs (sel AND 0x03);
     State_Monad.return True }"

definition trans_NOP :: translate_handler where
  "trans_NOP insn = State_Monad.return True"

section \<open>Bit instructions\<close>

definition trans_XOR1 :: translate_handler where
  "trans_XOR1 insn = do {
     dst \<leftarrow> rl78_gen_load_bit (bit_op (operand0 insn));
     src \<leftarrow> rl78_gen_load_bit (bit_op (operand1 insn));
     tcg_gen_xor_i32 (bd_bit dst) (bd_bit dst) (bd_bit src);
     rl78_gen_store_bit (bit_op (operand0 insn)) dst;
     State_Monad.return True }"

definition trans_OR1 :: translate_handler where
  "trans_OR1 insn = do {
     dst \<leftarrow> rl78_gen_load_bit (bit_op (operand0 insn));
     src \<leftarrow> rl78_gen_load_bit (bit_op (operand1 insn));
     tcg_gen_or_i32 (bd_bit dst) (bd_bit dst) (bd_bit src);
     rl78_gen_store_bit (bit_op (operand0 insn)) dst;
     State_Monad.return True }"

definition trans_SET1 :: translate_handler where
  "trans_SET1 insn = do {
     dst \<leftarrow> rl78_gen_load_bit (bit_op (operand0 insn));
     tcg_gen_movi_i32 (bd_bit dst) 1;
     rl78_gen_store_bit (bit_op (operand0 insn)) dst;
     State_Monad.return True }"

definition trans_AND1 :: translate_handler where
  "trans_AND1 insn = do {
     dst \<leftarrow> rl78_gen_load_bit (bit_op (operand0 insn));
     src \<leftarrow> rl78_gen_load_bit (bit_op (operand1 insn));
     tcg_gen_and_i32 (bd_bit dst) (bd_bit dst) (bd_bit src);
     rl78_gen_store_bit (bit_op (operand0 insn)) dst;
     State_Monad.return True }"

definition trans_NOT1 :: translate_handler where
  "trans_NOT1 insn = do {
     dst \<leftarrow> rl78_gen_load_bit (bit_op (operand0 insn));
     tcg_gen_xori_i32 (bd_bit dst) (bd_bit dst) 0x01;
     rl78_gen_store_bit (bit_op (operand0 insn)) dst;
     State_Monad.return True }"

definition trans_CLR1 :: translate_handler where
  "trans_CLR1 insn = do {
     dst \<leftarrow> rl78_gen_load_bit (bit_op (operand0 insn));
     tcg_gen_movi_i32 (bd_bit dst) 0;
     rl78_gen_store_bit (bit_op (operand0 insn)) dst;
     State_Monad.return True }"

definition trans_MOV1 :: translate_handler where
  "trans_MOV1 insn = do {
     src \<leftarrow> rl78_gen_load_bit (bit_op (operand1 insn));
     dst \<leftarrow> rl78_gen_load_bit (bit_op (operand0 insn));
     rl78_gen_store_bit (bit_op (operand0 insn)) (dst\<lparr>bd_bit := bd_bit src\<rparr>);
     State_Monad.return True }"

section \<open>Stack and shifts\<close>

definition trans_PUSH :: translate_handler where
  "trans_PUSH insn = do {
     data0 \<leftarrow> tcg_temp_new_i32;
     data \<leftarrow> (case operand0 insn of
         OP_WORD_REG r \<Rightarrow> load_word_reg r
       | OP_PSW \<Rightarrow> do { d \<leftarrow> load_psw; tcg_gen_shli_i32 d d 8; State_Monad.return d }
       | _ \<Rightarrow> State_Monad.return data0);
     tcg_gen_subi_i32 cpu_sp cpu_sp 2;
     addr \<leftarrow> rl78_gen_addr cpu_sp;
     rl78_gen_sw addr data;
     State_Monad.return True }"

definition trans_POP :: translate_handler where
  "trans_POP insn = do {
     addr \<leftarrow> rl78_gen_addr cpu_sp;
     data \<leftarrow> rl78_gen_lw addr;
     tcg_gen_addi_i32 cpu_sp cpu_sp 2;
     (case operand0 insn of
        OP_WORD_REG r \<Rightarrow> store_word_reg r data
      | OP_PSW \<Rightarrow> do { tcg_gen_shri_i32 data data 8; store_psw data }
      | _ \<Rightarrow> State_Monad.return ());
     State_Monad.return True }"

definition shift_logical_right :: translate_handler where
  "shift_logical_right insn = do {
     src \<leftarrow> rl78_gen_load_operand (operand0 insn) MO_8;
     shamt \<leftarrow> rl78_gen_load_operand (operand1 insn) MO_8;
     result \<leftarrow> tcg_temp_new_i32;
     tcg_gen_shli_i32 result src 1;
     tcg_gen_shr_i32 result result shamt;
     tcg_gen_andi_i32 cpu_psw_cy result 0x01;
     tcg_gen_shri_i32 result result 1;
     rl78_gen_store_operand (operand0 insn) result MO_8;
     State_Monad.return True }"

definition shift_left :: "u32 \<Rightarrow> translate_handler" where
  "shift_left opsize insn = do {
     src \<leftarrow> rl78_gen_load_operand (operand0 insn) MO_8;
     shamt \<leftarrow> rl78_gen_load_operand (operand1 insn) MO_8;
     result \<leftarrow> tcg_temp_new_i32;
     tcg_gen_movi_i32 result 0;
     tcg_gen_shl_i32 result src shamt;
     tcg_gen_shri_i32 cpu_psw_cy result opsize;
     tcg_gen_andi_i32 cpu_psw_cy cpu_psw_cy 0x01;
     rl78_gen_store_operand (operand0 insn) result MO_8;
     State_Monad.return True }"

definition shift_arithmetic_right :: "u32 \<Rightarrow> translate_handler" where
  "shift_arithmetic_right opsize insn = do {
     src \<leftarrow> rl78_gen_load_operand (operand0 insn) MO_8;
     shamt \<leftarrow> rl78_gen_load_operand (operand1 insn) MO_8;
     result \<leftarrow> tcg_temp_new_i32;
     let align_size = 32 - opsize;
     tcg_gen_movi_i32 result 0;
     tcg_gen_shli_i32 result src align_size;
     tcg_gen_sar_i32 result result shamt;
     tcg_gen_mov_i32 cpu_psw_cy result;
     tcg_gen_shri_i32 cpu_psw_cy cpu_psw_cy (align_size - 1);
     tcg_gen_andi_i32 cpu_psw_cy cpu_psw_cy 0x01;
     tcg_gen_shri_i32 result result align_size;
     rl78_gen_store_operand (operand0 insn) result MO_8;
     State_Monad.return True }"

definition trans_SHR :: translate_handler where "trans_SHR insn = shift_logical_right insn"
definition trans_SHRW :: translate_handler where "trans_SHRW insn = shift_logical_right insn"
definition trans_SHL :: translate_handler where "trans_SHL insn = shift_left 8 insn"
definition trans_SHLW :: translate_handler where "trans_SHLW insn = shift_left 16 insn"
definition trans_SAR :: translate_handler where "trans_SAR insn = shift_arithmetic_right 8 insn"
definition trans_SARW :: translate_handler where "trans_SARW insn = shift_arithmetic_right 16 insn"

section \<open>Dispatch\<close>

fun translator_table :: "RL78Mnemonic \<Rightarrow> translate_handler option" where
  "translator_table INSN_MOV = Some trans_MOV"
| "translator_table INSN_XCH = Some trans_XCH"
| "translator_table INSN_ONEB = Some trans_ONEB"
| "translator_table INSN_CLRB = Some trans_CLRB"
| "translator_table INSN_MOVW = Some trans_MOVW"
| "translator_table INSN_XCHW = Some trans_XCHW"
| "translator_table INSN_ONEW = Some trans_ONEW"
| "translator_table INSN_CLRW = Some trans_CLRW"
| "translator_table INSN_ADD = Some trans_ADD"
| "translator_table INSN_ADDC = Some trans_ADDC"
| "translator_table INSN_SUB = Some trans_SUB"
| "translator_table INSN_SUBC = Some trans_SUBC"
| "translator_table INSN_AND = Some trans_AND"
| "translator_table INSN_OR = Some trans_OR"
| "translator_table INSN_XOR = Some trans_XOR"
| "translator_table INSN_CMP = Some trans_CMP"
| "translator_table INSN_CMP0 = Some trans_CMP0"
| "translator_table INSN_CMPS = Some trans_CMPS"
| "translator_table INSN_MOVS = Some trans_MOVS"
| "translator_table INSN_ADDW = Some trans_ADDW"
| "translator_table INSN_SUBW = Some trans_SUBW"
| "translator_table INSN_CMPW = Some trans_CMPW"
| "translator_table INSN_MULU = Some trans_MULU"
| "translator_table INSN_INC = Some trans_INC"
| "translator_table INSN_DEC = Some trans_DEC"
| "translator_table INSN_INCW = Some trans_INCW"
| "translator_table INSN_DECW = Some trans_DECW"
| "translator_table INSN_SHR = Some trans_SHR"
| "translator_table INSN_SHRW = Some trans_SHRW"
| "translator_table INSN_SHL = Some trans_SHL"
| "translator_table INSN_SHLW = Some trans_SHLW"
| "translator_table INSN_SAR = Some trans_SAR"
| "translator_table INSN_SARW = Some trans_SARW"
| "translator_table INSN_ROR = Some trans_ROR"
| "translator_table INSN_ROL = Some trans_ROL"
| "translator_table INSN_RORC = Some trans_RORC"
| "translator_table INSN_ROLC = Some trans_ROLC"
| "translator_table INSN_ROLWC = Some trans_ROLWC"
| "translator_table INSN_MOV1 = Some trans_MOV1"
| "translator_table INSN_AND1 = Some trans_AND1"
| "translator_table INSN_OR1 = Some trans_OR1"
| "translator_table INSN_XOR1 = Some trans_XOR1"
| "translator_table INSN_SET1 = Some trans_SET1"
| "translator_table INSN_CLR1 = Some trans_CLR1"
| "translator_table INSN_NOT1 = Some trans_NOT1"
| "translator_table INSN_CALL = Some trans_CALL"
| "translator_table INSN_CALLT = Some trans_CALLT"
| "translator_table INSN_BRK = Some trans_BRK"
| "translator_table INSN_RET = Some trans_RET"
| "translator_table INSN_RETI = Some trans_RETI"
| "translator_table INSN_RETB = Some trans_RETB"
| "translator_table INSN_PUSH = Some trans_PUSH"
| "translator_table INSN_POP = Some trans_POP"
| "translator_table INSN_BR = Some trans_BR"
| "translator_table INSN_BC = Some trans_BC"
| "translator_table INSN_BNC = Some trans_BNC"
| "translator_table INSN_BZ = Some trans_BZ"
| "translator_table INSN_BNZ = Some trans_BNZ"
| "translator_table INSN_BH = Some trans_BH"
| "translator_table INSN_BNH = Some trans_BNH"
| "translator_table INSN_BT = Some trans_BT"
| "translator_table INSN_BF = Some trans_BF"
| "translator_table INSN_BTCLR = Some trans_BTCLR"
| "translator_table INSN_SKC = Some trans_SKC"
| "translator_table INSN_SKNC = Some trans_SKNC"
| "translator_table INSN_SKZ = Some trans_SKZ"
| "translator_table INSN_SKNZ = Some trans_SKNZ"
| "translator_table INSN_SKH = Some trans_SKH"
| "translator_table INSN_SKNH = Some trans_SKNH"
| "translator_table INSN_SEL = Some trans_SEL"
| "translator_table INSN_NOP = Some trans_NOP"
| "translator_table INSN_HALT = Some trans_unimplemented"
| "translator_table INSN_STOP = Some trans_unimplemented"
| "translator_table INSN_UNKNOWN = None"

text \<open>\<^verbatim>\<open>decode\<close> with its handler: \<^verbatim>\<open>load\<close> is \<^verbatim>\<open>ldub_code\<close>, the program counter and the prefix flag live in
  the context.\<close>

definition decode :: "(u32 \<Rightarrow> u8) \<Rightarrow> bool gen" where
  "decode load = do {
     ctx \<leftarrow> get_dc;
     (case decode_insn load (base_pc ctx) (dc_use_es ctx) of
        (None, pc, es) \<Rightarrow> do {
          upd_dc (\<lambda>c. c\<lparr>base_pc := pc, dc_use_es := es\<rparr>);
          State_Monad.return False }
      | (Some insn, pc, es) \<Rightarrow> do {
          upd_dc (\<lambda>c. c\<lparr>base_pc := pc, dc_use_es := es\<rparr>);
          (case translator_table (mnemonic insn) of
             None \<Rightarrow> State_Monad.return False
           | Some th \<Rightarrow> th insn) }) }"

section \<open>Translation blocks\<close>

definition setup_disas_context :: "unit gen" where
  "setup_disas_context = upd_dc (\<lambda>d. d\<lparr>dc_tb_flags := tb_flags_field d,
     dc_skip_flag := (tb_flags_field d AND TB_FLAG_SKIP \<noteq> 0), dc_use_es := False\<rparr>)"

definition gen_intermediate_code :: "(u32 \<Rightarrow> u8) \<Rightarrow> int gen" where
  "gen_intermediate_code load = do {
     d0 \<leftarrow> get_dc;
     tcg_gen_insn_start (base_pc d0);
     let use_skip = dc_skip_flag d0;
     upd_dc (\<lambda>d. d\<lparr>dc_skip_flag := False\<rparr>);
     skip_label \<leftarrow> (if use_skip then do {
         required_tmp \<leftarrow> tcg_temp_new_i32;
         tcg_gen_movi_i32 cpu_skip_en 0;
         tcg_gen_mov_i32 required_tmp cpu_skip_req;
         tcg_gen_movi_i32 cpu_skip_req 0;
         l \<leftarrow> gen_new_label;
         tcg_gen_brcondi_i32 COND_NE required_tmp 0 l;
         tcg_temp_free_i32 required_tmp;
         State_Monad.return l }
       else State_Monad.return 0);
     upd_dc (\<lambda>d. d\<lparr>dc_pc := base_pc d, dc_use_es := False\<rparr>);
     let head_pc = base_pc d0;
     ok \<leftarrow> decode load;
     (if \<not> ok then tlib_abortf (Abort_decode head_pc) else State_Monad.return ());
     upd_dc (\<lambda>d. d\<lparr>tb_size := tb_size d + (base_pc d - head_pc)\<rparr>);
     (if use_skip then do {
        gen_set_label skip_label;
        d \<leftarrow> get_dc;
        (if base_is_jmp d = DISAS_JUMP then do {
           tcg_gen_movi_i32 cpu_pc (base_pc d);
           gen_exit_tb_no_chaining }
         else if base_is_jmp d = DISAS_UPDATE then gen_goto_tb 0 (base_pc d)
         else State_Monad.return ()) }
      else State_Monad.return ());
     State_Monad.return 0 }"

definition gen_intermediate_code_epilogue :: "unit gen" where
  "gen_intermediate_code_epilogue = do {
     d \<leftarrow> get_dc;
     (case base_is_jmp d of
        DISAS_NEXT \<Rightarrow> gen_goto_tb 0 (base_pc d)
      | DISAS_UPDATE \<Rightarrow> do { gen_sync_pc; gen_exit_tb_no_chaining }
      | DISAS_TB_JUMP \<Rightarrow> gen_goto_tb 0 (base_pc d)
      | DISAS_JUMP \<Rightarrow> State_Monad.return ()) }"

definition gen_breakpoint :: "int gen" where
  "gen_breakpoint = do {
     gen_sync_pc;
     gen_exit_tb_no_chaining;
     State_Monad.return 1 }"

definition restore_state_to_opc :: "CPUState \<Rightarrow> u32 list \<Rightarrow> CPUState" where
  "restore_state_to_opc env data = env\<lparr>env_pc := data ! 0\<rparr>"

text \<open>The loop of \<^verbatim>\<open>cpu_gen_code_inner\<close>, between the block header and the block footer:
  \<^verbatim>\<open>bps\<close> are the breakpoint addresses, \<^verbatim>\<open>sync\<close> says that the program counter is written
  before every instruction, and the result is \<^verbatim>\<open>tb->icount\<close>. The checks of the size of the
  operation buffer are not modelled.\<close>

definition process_breakpoints :: "u32 list \<Rightarrow> u32 \<Rightarrow> u32 option" where
  "process_breakpoints bps pc = List.find (\<lambda>bp. bp = pc) bps"

text \<open>\<^verbatim>\<open>ops_used\<close> is \<^verbatim>\<open>gen_opc_ptr - tcg->gen_opc_buf\<close>; \<^verbatim>\<open>start\<close> is its value at \<^verbatim>\<open>opc_start_ptr\<close>, which the
  code sets at the end of the previous turn. \<^verbatim>\<open>tcg_check_temp_count\<close> is the constant 0.\<close>

definition MAX_OP_PER_INSTR :: nat where
  "MAX_OP_PER_INSTR = 8192"

definition OPC_BUF_SIZE :: nat where
  "OPC_BUF_SIZE = 16384"

definition OPC_MAX_SIZE :: nat where
  "OPC_MAX_SIZE = OPC_BUF_SIZE - MAX_OP_PER_INSTR"

function gen_code_loop :: "(u32 \<Rightarrow> u8) \<Rightarrow> u32 list \<Rightarrow> bool \<Rightarrow> nat \<Rightarrow> nat \<Rightarrow> nat gen" where
  "gen_code_loop load bps sync max_tb_icount icount = do {
     start \<leftarrow> ops_used;
     d \<leftarrow> get_dc;
     stop \<leftarrow> (if bps = [] then State_Monad.return False
              else case process_breakpoints bps (base_pc d) of
                  None \<Rightarrow> State_Monad.return False
                | Some bp \<Rightarrow> do { r \<leftarrow> gen_breakpoint; State_Monad.return (r \<noteq> 0) });
     if stop then State_Monad.return icount
     else do {
       (if sync then gen_sync_pc else State_Monad.return ());
       r \<leftarrow> gen_intermediate_code load;
       d' \<leftarrow> get_dc;
       (if base_exit_check d' then do {
          upd_dc (\<lambda>c. c\<lparr>base_exit_check := False\<rparr>);
          tcg_gen_helperN HELPER_try_exit_cpu_loop None [] }
        else State_Monad.return ());
       if r = 0 then State_Monad.return (icount + 1)
       else if base_is_jmp d' \<noteq> DISAS_NEXT then State_Monad.return (icount + 1)
       else do {
         used \<leftarrow> ops_used;
         (if OPC_BUF_SIZE \<le> used then tlib_abortf (Abort_op_buffer (base_pc d')) else State_Monad.return ());
         (if MAX_OP_PER_INSTR < used - start then tlib_abortf (Abort_many_ops (base_pc d') (used - start))
          else State_Monad.return ());
         if OPC_MAX_SIZE \<le> used then State_Monad.return (icount + 1)
         else if max_tb_icount \<le> icount + 1 then State_Monad.return (icount + 1)
         else gen_code_loop load bps sync max_tb_icount (icount + 1) } } }"
  by pat_completeness auto
termination
  by (relation "measure (\<lambda>(_, _, _, mx, i). mx - i)") auto

declare gen_code_loop.simps [simp del]

text \<open>\<^verbatim>\<open>cpu_gen_code_inner\<close> without header and footer, on a fresh TCG context
  (\<^verbatim>\<open>tcg_func_start\<close>).\<close>

definition tcg_func_start :: "tcg_target \<Rightarrow> u32 \<Rightarrow> u32 \<Rightarrow> gen_state" where
  "tcg_func_start h pc flags =
     \<lparr>host = h,
      dc = \<lparr>base_pc = pc, base_is_jmp = DISAS_NEXT, base_exit_check = False, tb_pc = pc,
            tb_flags_field = flags, tb_size = 0, dc_pc = 0, dc_tb_flags = 0, dc_skip_flag = False,
            dc_use_es = False\<rparr>,
      nb_temps = nb_globals, free_temps = (\<lambda>_. []), temp_allocated = (\<lambda>_. False),
      temp_kinds = (\<lambda>_. K_I32), nb_labels = 0, code = [], gen_abort = None, tcg_overrun = False\<rparr>"

definition cpu_gen_code_inner ::
  "(u32 \<Rightarrow> u8) \<Rightarrow> u32 list \<Rightarrow> bool \<Rightarrow> nat \<Rightarrow> nat gen" where
  "cpu_gen_code_inner load bps sync max_tb_icount = do {
     setup_disas_context;
     n \<leftarrow> gen_code_loop load bps sync max_tb_icount 0;
     gen_intermediate_code_epilogue;
     State_Monad.return n }"

end
