(* ===== verification/TCG_Exec.thy ===== *)
theory TCG_Exec
  imports TCG_Op
begin

text \<open>The meaning of the intermediate operations on a CPU: what the host code generated
  for a translation block does, operation by operation.

  A forward branch is a mode of the single pass over the block: after a taken branch
  operations are skipped up to the label. \<^verbatim>\<open>goto_tb\<close> falls through: a chained block is
  entered with the same state that the exit after it would hand back to the execution
  loop. At a branch, a label and a \<^verbatim>\<open>goto_tb\<close> temporaries that are not local lose their value.\<close>

section \<open>State\<close>

record platform =
  pl_host_ptr :: "u32 \<Rightarrow> bool"
  pl_env_base :: u64
  pl_clobber32 :: "(nat \<Rightarrow> u32) \<Rightarrow> nat \<Rightarrow> u32"
  pl_clobber64 :: "(nat \<Rightarrow> u64) \<Rightarrow> nat \<Rightarrow> u64"
  pl_of32_hi :: u32
  pl_shift_junk :: "u32 \<Rightarrow> u32 \<Rightarrow> u32"

datatype run_mode = Running | Jumping nat | Exited "nat option" | Interrupted | Faulted

record rt_state =
  mach :: machine
  rtemps :: "nat \<Rightarrow> u32"
  ltemps :: "nat \<Rightarrow> u32"
  temps64 :: "nat \<Rightarrow> u64"
  rmode :: run_mode

fun rval :: "rt_state \<Rightarrow> tcgv \<Rightarrow> u32" where
  "rval S (Glob r) = read_ref (cpu (mach S)) r"
| "rval S (Temp n) = rtemps S n"
| "rval S (TempL n) = ltemps S n"

fun rset :: "tcgv \<Rightarrow> u32 \<Rightarrow> rt_state \<Rightarrow> rt_state" where
  "rset (Glob r) x S = S\<lparr>mach := (mach S)\<lparr>cpu := write_ref r x (cpu (mach S))\<rparr>\<rparr>"
| "rset (Temp n) x S = S\<lparr>rtemps := (rtemps S)(n := x)\<rparr>"
| "rset (TempL n) x S = S\<lparr>ltemps := (ltemps S)(n := x)\<rparr>"

fun rval64 :: "platform \<Rightarrow> rt_state \<Rightarrow> tcgv64 \<Rightarrow> u64" where
  "rval64 P S Env = pl_env_base P"
| "rval64 P S (Temp64 n) = temps64 S n"
| "rval64 P S (Of32 v) = push_bit 32 (ucast (pl_of32_hi P)) OR ucast (rval S v)"

fun rset64 :: "tcgv64 \<Rightarrow> u64 \<Rightarrow> rt_state \<Rightarrow> rt_state" where
  "rset64 (Temp64 n) x S = S\<lparr>temps64 := (temps64 S)(n := x)\<rparr>"
| "rset64 _ x S = S\<lparr>rmode := Faulted\<rparr>"

section \<open>Arithmetic\<close>

fun eval_cond :: "TCGCond \<Rightarrow> u32 \<Rightarrow> u32 \<Rightarrow> bool" where
  "eval_cond COND_NEVER x y = False"
| "eval_cond COND_ALWAYS x y = True"
| "eval_cond COND_EQ x y = (x = y)"
| "eval_cond COND_NE x y = (x \<noteq> y)"
| "eval_cond COND_LT x y = (sint x < sint y)"
| "eval_cond COND_GE x y = (sint x \<ge> sint y)"
| "eval_cond COND_LE x y = (sint x \<le> sint y)"
| "eval_cond COND_GT x y = (sint x > sint y)"
| "eval_cond COND_LTU x y = (x < y)"
| "eval_cond COND_GEU x y = (x \<ge> y)"
| "eval_cond COND_LEU x y = (x \<le> y)"
| "eval_cond COND_GTU x y = (x > y)"

text \<open>A shift by 32 or more is unspecified.\<close>

fun eval_alu :: "platform \<Rightarrow> alu_op \<Rightarrow> u32 \<Rightarrow> u32 \<Rightarrow> u32" where
  "eval_alu P ADD_I32 x y = x + y"
| "eval_alu P SUB_I32 x y = x - y"
| "eval_alu P AND_I32 x y = x AND y"
| "eval_alu P OR_I32 x y = x OR y"
| "eval_alu P XOR_I32 x y = x XOR y"
| "eval_alu P SHL_I32 x y = (if unat y < 32 then push_bit (unat y) x else pl_shift_junk P x y)"
| "eval_alu P SHR_I32 x y = (if unat y < 32 then drop_bit (unat y) x else pl_shift_junk P x y)"
| "eval_alu P SAR_I32 x y =
     (if unat y < 32 then signed_drop_bit (unat y) x else pl_shift_junk P x y)"
| "eval_alu P MUL_I32 x y = x * y"
| "eval_alu P ANDC_I32 x y = x AND NOT y"

fun eval_un :: "un_op \<Rightarrow> u32 \<Rightarrow> u32" where
  "eval_un NEG_I32 x = - x"
| "eval_un NOT_I32 x = NOT x"
| "eval_un EXT8U_I32 x = x AND 0xFF"
| "eval_un EXT16U_I32 x = x AND 0xFFFF"

definition deposit32 :: "u32 \<Rightarrow> u32 \<Rightarrow> nat \<Rightarrow> nat \<Rightarrow> u32" where
  "deposit32 x y ofs len =
     (x AND NOT (push_bit ofs (mask len))) OR push_bit ofs (take_bit len y)"

definition extract32 :: "u32 \<Rightarrow> nat \<Rightarrow> nat \<Rightarrow> u32" where
  "extract32 x ofs len = take_bit len (drop_bit ofs x)"

section \<open>Guest memory\<close>

definition ram_ld :: "TCGMemOp \<Rightarrow> machine \<Rightarrow> u32 \<Rightarrow> u32" where
  "ram_ld mo m a = (case mo of
       MO_8 \<Rightarrow> ucast (ram m a)
     | MO_16 \<Rightarrow> ucast (ram m a) OR push_bit 8 (ucast (ram m (a + 1))))"

definition ram_st :: "TCGMemOp \<Rightarrow> u32 \<Rightarrow> u32 \<Rightarrow> machine \<Rightarrow> machine" where
  "ram_st mo a v m = (case mo of
       MO_8 \<Rightarrow> m\<lparr>ram := (ram m)(a := ucast v)\<rparr>
     | MO_16 \<Rightarrow> m\<lparr>ram := (ram m)(a := ucast v, a + 1 := ucast (drop_bit 8 v))\<rparr>)"

section \<open>Helper calls\<close>

fun call_helper :: "platform \<Rightarrow> tcg_helper \<Rightarrow> tcgv option \<Rightarrow> u32 list \<Rightarrow> rt_state \<Rightarrow> rt_state" where
  "call_helper P HELPER_rl78_btclr (Some ret) [kind, addr, bitno, use_es] S =
     (let (r, m) = helper_rl78_btclr (pl_host_ptr P) (mach S) kind addr bitno use_es
      in rset ret r (S\<lparr>mach := m\<rparr>))"
| "call_helper P HELPER_rl78_stb None [paddr, data] S =
     S\<lparr>mach := helper_rl78_stb (pl_host_ptr P) (mach S) paddr data\<rparr>"
| "call_helper P HELPER_rl78_mdu_cmd None [cmd] S =
     S\<lparr>mach := helper_rl78_mdu_cmd (pl_host_ptr P) (mach S) cmd\<rparr>"
| "call_helper P HELPER_try_exit_cpu_loop None [] S =
     (if 0 \<le> sint (env_exception_index (cpu (mach S))) then S\<lparr>rmode := Interrupted\<rparr> else S)"
| "call_helper P _ _ _ S = S\<lparr>rmode := Faulted\<rparr>"

section \<open>Execution\<close>

definition bb_end :: "platform \<Rightarrow> rt_state \<Rightarrow> rt_state" where
  "bb_end P S = S\<lparr>rtemps := pl_clobber32 P (rtemps S), temps64 := pl_clobber64 P (temps64 S)\<rparr>"

fun exec_running :: "platform \<Rightarrow> tcg_op \<Rightarrow> rt_state \<Rightarrow> rt_state" where
  "exec_running P (Op_insn_start pc) S = S"
| "exec_running P (Op_mov_i32 r a) S = rset r (rval S a) S"
| "exec_running P (Op_movi_i32 r c) S = rset r c S"
| "exec_running P (Op_un_i32 f r a) S = rset r (eval_un f (rval S a)) S"
| "exec_running P (Op_alu_i32 f r a b) S = rset r (eval_alu P f (rval S a) (rval S b)) S"
| "exec_running P (Op_setcond_i32 r a b c) S =
     rset r (if eval_cond c (rval S a) (rval S b) then 1 else 0) S"
| "exec_running P (Op_movcond_i32 r c1 c2 v1 v2 c) S =
     rset r (if eval_cond c (rval S c1) (rval S c2) then rval S v1 else rval S v2) S"
| "exec_running P (Op_deposit_i32 r a b ofs len) S =
     rset r (deposit32 (rval S a) (rval S b) ofs len) S"
| "exec_running P (Op_extract_i32 r a ofs len) S = rset r (extract32 (rval S a) ofs len) S"
| "exec_running P (Op_brcond_i32 a b c l) S =
     (if eval_cond c (rval S a) (rval S b) then (bb_end P S)\<lparr>rmode := Jumping l\<rparr> else bb_end P S)"
| "exec_running P (Op_br l) S = (bb_end P S)\<lparr>rmode := Jumping l\<rparr>"
| "exec_running P (Op_set_label l) S = bb_end P S"
| "exec_running P (Op_ld_i32 r p off) S =
     (case ref_at (unat (rval64 P S p + off - pl_env_base P)) of
        Some f \<Rightarrow> rset r (read_ref (cpu (mach S)) f) S
      | None \<Rightarrow> S\<lparr>rmode := Faulted\<rparr>)"
| "exec_running P (Op_st_i32 v p off) S =
     (case ref_at (unat (rval64 P S p + off - pl_env_base P)) of
        Some f \<Rightarrow> S\<lparr>mach := (mach S)\<lparr>cpu := write_ref f (rval S v) (cpu (mach S))\<rparr>\<rparr>
      | None \<Rightarrow> S\<lparr>rmode := Faulted\<rparr>)"
| "exec_running P (Op_qemu_ld r a mo) S = rset r (ram_ld mo (mach S) (rval S a)) S"
| "exec_running P (Op_qemu_st v a mo) S = S\<lparr>mach := ram_st mo (rval S a) (rval S v) (mach S)\<rparr>"
| "exec_running P (Op_mov_i64 r a) S = rset64 r (rval64 P S a) S"
| "exec_running P (Op_movi_i64 r c) S = rset64 r c S"
| "exec_running P (Op_add_i64 r a b) S = rset64 r (rval64 P S a + rval64 P S b) S"
| "exec_running P (Op_shl_i64 r a b) S = rset64 r (push_bit (unat (rval64 P S b)) (rval64 P S a)) S"
| "exec_running P (Op_sar_i64 r a b) S =
     rset64 r (signed_drop_bit (unat (rval64 P S b)) (rval64 P S a)) S"
| "exec_running P (Op_ext32s_i64 r a) S = rset64 r (scast (ucast (rval64 P S a) :: u32)) S"
| "exec_running P (Op_call h r args) S = call_helper P h r (map (rval S) args) S"
| "exec_running P (Op_goto_tb n) S = bb_end P S"
| "exec_running P (Op_exit_tb v) S = S\<lparr>rmode := Exited v\<rparr>"

definition exec_op :: "platform \<Rightarrow> tcg_op \<Rightarrow> rt_state \<Rightarrow> rt_state" where
  "exec_op P op S =
     (case rmode S of
        Running \<Rightarrow> exec_running P op S
      | Jumping l \<Rightarrow> (if op = Op_set_label l then (bb_end P S)\<lparr>rmode := Running\<rparr> else S)
      | _ \<Rightarrow> S)"

definition exec_ops :: "platform \<Rightarrow> tcg_op list \<Rightarrow> rt_state \<Rightarrow> rt_state" where
  "exec_ops P ops S = fold (exec_op P) ops S"

lemma exec_ops_append [simp]: "exec_ops P (xs @ ys) S = exec_ops P ys (exec_ops P xs S)"
  by (simp add: exec_ops_def)

lemma exec_ops_simps [simp]:
  "exec_ops P [] S = S" "exec_ops P (op # ops) S = exec_ops P ops (exec_op P op S)"
  by (simp_all add: exec_ops_def)

lemma exec_op_Running: "rmode S = Running \<Longrightarrow> exec_op P op S = exec_running P op S"
  by (simp add: exec_op_def)

text \<open>A block that is not running stays as it is until its label, and an exited block
  for good.\<close>

lemma exec_ops_Jumping:
  assumes "rmode S = Jumping l" "Op_set_label l \<notin> set ops"
  shows "exec_ops P ops S = S"
  using assms by (induction ops arbitrary: S) (auto simp: exec_op_def)

lemma exec_ops_Exited:
  assumes "rmode S = Exited v"
  shows "exec_ops P ops S = S"
  using assms by (induction ops arbitrary: S) (auto simp: exec_op_def)

end
