(* ===== verification/TCG_Logic.thy ===== *)
theory TCG_Logic
  imports TCG_Exec
begin

text \<open>A logic for generated code. \<^verbatim>\<open>At E c \<Gamma> \<Delta> m s\<close> says of the generator state \<^verbatim>\<open>s\<close> that the
  code emitted so far, run from the fixed start given by \<^verbatim>\<open>E\<close>, is still running, has
  brought the machine to \<^verbatim>\<open>m\<close>, and holds the values \<^verbatim>\<open>\<Gamma>\<close> and \<^verbatim>\<open>\<Delta>\<close> in the allocated 32-bit and
  64-bit temporaries. \<^verbatim>\<open>wp g Q s\<close> says that \<^verbatim>\<open>Q\<close> holds of the result and the generator
  state after running the generator \<^verbatim>\<open>g\<close>. Each generator has one rule, which takes the
  assertion before it to the assertion after it.\<close>

named_theorems wp_rules \<open>rules that step over one generator\<close>

section \<open>Weakest preconditions of generators\<close>

definition wp :: "'a gen \<Rightarrow> ('a \<Rightarrow> gen_state \<Rightarrow> bool) \<Rightarrow> gen_state \<Rightarrow> bool" where
  "wp g Q s = (case run_state g s of (a, s') \<Rightarrow> Q a s')"

lemma wp_return [simp]: "wp (State_Monad.return a) Q s = Q a s"
  by (simp add: wp_def State_Monad.return_def)

lemma wp_bind [simp]: "wp (g \<bind> f) Q s = wp g (\<lambda>a. wp (f a) Q) s"
  by (simp add: wp_def State_Monad.bind_def split: prod.split)

lemma wp_update: "wp (State_Monad.update f) Q s = Q () (f s)"
  by (simp add: wp_def State_Monad.update_def State_Monad.set_def State_Monad.get_def State_Monad.bind_def)

lemma wp_get_host [simp]: "wp get_host Q s = Q (host s) s"
  by (simp add: wp_def get_host_def)

lemma wp_get_dc: "wp get_dc Q s = Q (dc s) s"
  by (simp add: wp_def get_dc_def)

lemma wp_State: "wp (State f) Q s = (case f s of (a, s') \<Rightarrow> Q a s')"
  by (simp add: wp_def)

section \<open>Assertions\<close>

type_synonym run_env = "platform \<times> rt_state"

definition rt_after :: "run_env \<Rightarrow> gen_state \<Rightarrow> rt_state" where
  "rt_after E s = exec_ops (fst E) (code s) (snd E)"

fun live_tcgv :: "gen_state \<Rightarrow> tcgv \<Rightarrow> bool" where
  "live_tcgv s (Glob _) = False"
| "live_tcgv s (Temp n) = (n \<in> live_temps s K_I32)"
| "live_tcgv s (TempL n) = (n \<in> live_temps s K_I32_LOCAL)"

definition holds_in :: "(tcgv \<rightharpoonup> u32) \<Rightarrow> (nat \<rightharpoonup> u64) \<Rightarrow> machine \<Rightarrow> rt_state \<Rightarrow> bool" where
  "holds_in \<Gamma> \<Delta> m S \<longleftrightarrow> rmode S = Running \<and> mach S = m \<and>
     (\<forall>v x. \<Gamma> v = Some x \<longrightarrow> rval S v = x) \<and> (\<forall>n x. \<Delta> n = Some x \<longrightarrow> temps64 S n = x)"

definition At :: "run_env \<Rightarrow> DisasContext \<Rightarrow> (tcgv \<rightharpoonup> u32) \<Rightarrow> (nat \<rightharpoonup> u64) \<Rightarrow> machine \<Rightarrow> gen_state \<Rightarrow> bool" where
  "At E c \<Gamma> \<Delta> m s \<longleftrightarrow> temps_wf s \<and> gen_abort s = None \<and> dc s = c \<and>
     (\<forall>v\<in>dom \<Gamma>. live_tcgv s v) \<and> dom \<Delta> \<subseteq> live_temps s K_I64 \<and> holds_in \<Gamma> \<Delta> m (rt_after E s)"

lemma At_weaken:
  assumes "At E c \<Gamma> \<Delta> m s" "\<Gamma>' \<subseteq>\<^sub>m \<Gamma>" "\<Delta>' \<subseteq>\<^sub>m \<Delta>" "m = m'" "c = c'"
  shows "At E c' \<Gamma>' \<Delta>' m' s"
  using assms unfolding At_def holds_in_def map_le_def by (auto simp: dom_def)

fun look :: "(tcgv \<rightharpoonup> u32) \<Rightarrow> machine \<Rightarrow> tcgv \<Rightarrow> u32 option" where
  "look \<Gamma> m (Glob r) = Some (read_ref (cpu m) r)"
| "look \<Gamma> m (Temp n) = \<Gamma> (Temp n)"
| "look \<Gamma> m (TempL n) = \<Gamma> (TempL n)"

fun writable :: "(tcgv \<rightharpoonup> u32) \<Rightarrow> tcgv \<Rightarrow> bool" where
  "writable \<Gamma> (Glob r) = True"
| "writable \<Gamma> (Temp n) = (\<Gamma> (Temp n) \<noteq> None)"
| "writable \<Gamma> (TempL n) = (\<Gamma> (TempL n) \<noteq> None)"

fun upd_env :: "tcgv \<Rightarrow> u32 \<Rightarrow> (tcgv \<rightharpoonup> u32) \<Rightarrow> (tcgv \<rightharpoonup> u32)" where
  "upd_env (Glob r) x \<Gamma> = \<Gamma>"
| "upd_env (Temp n) x \<Gamma> = \<Gamma>(Temp n \<mapsto> x)"
| "upd_env (TempL n) x \<Gamma> = \<Gamma>(TempL n \<mapsto> x)"

fun upd_mach :: "tcgv \<Rightarrow> u32 \<Rightarrow> machine \<Rightarrow> machine" where
  "upd_mach (Glob r) x m = m\<lparr>cpu := write_ref r x (cpu m)\<rparr>"
| "upd_mach (Temp n) x m = m"
| "upd_mach (TempL n) x m = m"

lemma write_ref_read_ref [simp]: "write_ref r (read_ref c r) c = c"
  by (cases r) (simp_all add: set_reg_def)

lemma upd_look_same:
  "look \<Gamma> m a = Some x \<Longrightarrow> upd_env a x \<Gamma> = \<Gamma>" "look \<Gamma> m a = Some x \<Longrightarrow> upd_mach a x m = m"
  by (cases a; auto)+

lemma look_fresh:
  "look \<Gamma> m a = Some x \<Longrightarrow> \<Gamma> (Temp n) = None \<Longrightarrow> look (\<Gamma>(Temp n \<mapsto> y)) m a = Some x"
  by (cases a) auto

lemma writable_upd [simp]: "writable \<Gamma> a \<Longrightarrow> writable (\<Gamma>(v \<mapsto> y)) a"
  by (cases a) auto

lemma upd_env_fresh_drop:
  assumes "writable \<Gamma> r" "\<Gamma> (Temp n) = None"
  shows "(upd_env r x (\<Gamma>(Temp n \<mapsto> y)))(Temp n := None) = upd_env r x \<Gamma>"
  using assms by (cases r) (auto simp: fun_eq_iff)

lemma upd_env_fresh_known:
  assumes "writable \<Gamma> r" "\<Gamma> (Temp n) = None"
  shows "upd_env r x (\<Gamma>(Temp n \<mapsto> y)) (Temp n) = Some y"
  using assms by (cases r) auto

lemma holds_in_look: "holds_in \<Gamma> \<Delta> m S \<Longrightarrow> look \<Gamma> m a = Some x \<Longrightarrow> rval S a = x"
  by (cases a) (auto simp: holds_in_def, (metis rval.simps)+)

lemma holds_in_rset:
  assumes "holds_in \<Gamma> \<Delta> m S" "\<forall>v\<in>dom \<Gamma>. \<forall>r. v \<noteq> Glob r"
  shows "holds_in (upd_env r x \<Gamma>) \<Delta> (upd_mach r x m) (rset r x S)"
proof -
  have k: "rval (rset r x S) v = rval S v" if "v \<noteq> r" "\<forall>g. v \<noteq> Glob g" for v
    using that by (cases r; cases v) auto
  have "rval (rset r x S) v = y" if u: "upd_env r x \<Gamma> v = Some y" for v y
  proof (cases "v = r \<and> (\<forall>g. r \<noteq> Glob g)")
    case True
    then show ?thesis using u by (cases r) auto
  next
    case False
    then have g: "\<Gamma> v = Some y" using u by (cases r) (auto split: if_splits)
    then have "\<forall>g. v \<noteq> Glob g" using assms(2) by (auto simp: dom_def)
    then show ?thesis using False g assms(1) k[of v] by (auto simp: holds_in_def)
  qed
  moreover have "rmode (rset r x S) = Running" "mach (rset r x S) = upd_mach r x m"
    "temps64 (rset r x S) = temps64 S"
    using assms(1) by (cases r; auto simp: holds_in_def)+
  ultimately show ?thesis using assms(1) by (simp add: holds_in_def)
qed

section \<open>Temporaries\<close>

lemma At_live: "At E c \<Gamma> \<Delta> m s \<Longrightarrow> \<Gamma> v = Some x \<Longrightarrow> live_tcgv s v"
  unfolding At_def by (meson domI)

lemma At_live64: "At E c \<Gamma> \<Delta> m s \<Longrightarrow> \<Delta> n = Some x \<Longrightarrow> n \<in> live_temps s K_I64"
  unfolding At_def by (meson domI subsetD)

lemma live_kinds_disjoint: "t \<in> live_temps s k \<Longrightarrow> t \<in> live_temps s k' \<Longrightarrow> k = k'"
  by (simp add: live_temps_def)

text \<open>An allocated temporary is known under one name only.\<close>

lemma At_one_name:
  assumes "At E c \<Gamma> \<Delta> m s"
  shows "n \<in> live_temps s K_I32 \<Longrightarrow> \<Gamma> (TempL n) = None"
    "n \<in> live_temps s K_I32_LOCAL \<Longrightarrow> \<Gamma> (Temp n) = None"
    "n \<in> live_temps s K_I64 \<Longrightarrow> \<Gamma> (TempL n) = None \<and> \<Gamma> (Temp n) = None"
    "n \<in> live_temps s k \<Longrightarrow> k \<noteq> K_I64 \<Longrightarrow> \<Delta> n = None"
    "\<Gamma> (Glob g) = None"
  using At_live[OF assms, of "TempL n"] At_live[OF assms, of "Temp n"] At_live64[OF assms, of n]
    At_live[OF assms, of "Glob g"] live_kinds_disjoint[of n s]
  by (cases "\<Gamma> (TempL n)"; cases "\<Gamma> (Temp n)"; cases "\<Delta> n"; cases "\<Gamma> (Glob g)"; auto; fail)+

lemma wp_temp_new_i32:
  assumes "At E c \<Gamma> \<Delta> m s"
    and "\<And>n x s'. \<Gamma> (Temp n) = None \<Longrightarrow> At E c (\<Gamma>(Temp n \<mapsto> x)) \<Delta> m s' \<Longrightarrow> Q (Temp n) s'"
  shows "wp tcg_temp_new_i32 Q s"
proof -
  obtain t s' where a: "tcg_temp_new_internal K_I32 s = (t, s')" by fastforce
  have wf: "temps_wf s" using assms(1) by (simp add: At_def)
  have eq: "code s' = code s" "dc s' = dc s" "gen_abort s' = gen_abort s"
    using a by (auto simp: tcg_temp_new_internal_def split: list.splits)
  have fr: "\<Gamma> (Temp t) = None"
    using ta.alloc_fresh[OF wf a, of K_I32] assms(1) by (auto simp: At_def dom_def)
  have lv: "live_tcgv s' v" if "live_tcgv s v \<or> v = Temp t" for v
    using that ta.alloc_live[OF wf a] by (cases v) auto
  have "At E c (\<Gamma>(Temp t \<mapsto> rtemps (rt_after E s) t)) \<Delta> m s'"
    using assms(1) ta.alloc_inv[OF wf a] ta.alloc_live[OF wf a] lv eq
    by (auto simp: At_def holds_in_def rt_after_def)
  then have "Q (Temp t) s'" by (rule assms(2)[OF fr])
  then show ?thesis by (simp add: wp_State tcg_temp_new_i32_def a)
qed

lemma wp_temp_local_new_i32:
  assumes "At E c \<Gamma> \<Delta> m s"
    and "\<And>n x s'. \<Gamma> (TempL n) = None \<Longrightarrow> At E c (\<Gamma>(TempL n \<mapsto> x)) \<Delta> m s' \<Longrightarrow> Q (TempL n) s'"
  shows "wp tcg_temp_local_new_i32 Q s"
proof -
  obtain t s' where a: "tcg_temp_new_internal K_I32_LOCAL s = (t, s')" by fastforce
  have wf: "temps_wf s" using assms(1) by (simp add: At_def)
  have eq: "code s' = code s" "dc s' = dc s" "gen_abort s' = gen_abort s"
    using a by (auto simp: tcg_temp_new_internal_def split: list.splits)
  have fr: "\<Gamma> (TempL t) = None"
    using ta.alloc_fresh[OF wf a, of K_I32_LOCAL] assms(1) by (auto simp: At_def dom_def)
  have lv: "live_tcgv s' v" if "live_tcgv s v \<or> v = TempL t" for v
    using that ta.alloc_live[OF wf a] by (cases v) auto
  have "At E c (\<Gamma>(TempL t \<mapsto> ltemps (rt_after E s) t)) \<Delta> m s'"
    using assms(1) ta.alloc_inv[OF wf a] ta.alloc_live[OF wf a] lv eq
    by (auto simp: At_def holds_in_def rt_after_def)
  then have "Q (TempL t) s'" by (rule assms(2)[OF fr])
  then show ?thesis by (simp add: wp_State tcg_temp_local_new_i32_def a)
qed

lemma wp_temp_new_i64:
  assumes "At E c \<Gamma> \<Delta> m s"
    and "\<And>n x s'. \<Delta> n = None \<Longrightarrow> At E c \<Gamma> (\<Delta>(n \<mapsto> x)) m s' \<Longrightarrow> Q (Temp64 n) s'"
  shows "wp tcg_temp_new_i64 Q s"
proof -
  obtain t s' where a: "tcg_temp_new_internal K_I64 s = (t, s')" by fastforce
  have wf: "temps_wf s" using assms(1) by (simp add: At_def)
  have eq: "code s' = code s" "dc s' = dc s" "gen_abort s' = gen_abort s"
    using a by (auto simp: tcg_temp_new_internal_def split: list.splits)
  have fr: "\<Delta> t = None"
    using ta.alloc_fresh[OF wf a, of K_I64] assms(1) by (auto simp: At_def dom_def)
  have lv: "live_tcgv s' v" if "live_tcgv s v" for v
    using that ta.alloc_live[OF wf a] by (cases v) auto
  have "At E c \<Gamma> (\<Delta>(t \<mapsto> temps64 (rt_after E s) t)) m s'"
    using assms(1) ta.alloc_inv[OF wf a] ta.alloc_live[OF wf a] lv eq
    by (auto simp: At_def holds_in_def rt_after_def)
  then have "Q (Temp64 t) s'" by (rule assms(2)[OF fr])
  then show ?thesis by (simp add: wp_State tcg_temp_new_i64_def a)
qed

lemma At_free:
  assumes "At E c \<Gamma> \<Delta> m s" "t \<in> live_temps s k"
    and "\<Gamma>' \<subseteq>\<^sub>m \<Gamma>" "\<Delta>' \<subseteq>\<^sub>m \<Delta>" "Temp t \<notin> dom \<Gamma>'" "TempL t \<notin> dom \<Gamma>'" "t \<notin> dom \<Delta>'"
  shows "At E c \<Gamma>' \<Delta>' m (tcg_temp_free_internal t s)"
proof -
  have wf: "temps_wf s" using assms(1) by (simp add: At_def)
  have w: "At E c \<Gamma>' \<Delta>' m s" by (rule At_weaken[OF assms(1,3,4) refl refl])
  have eq: "code (tcg_temp_free_internal t s) = code s" "dc (tcg_temp_free_internal t s) = dc s"
    "gen_abort (tcg_temp_free_internal t s) = gen_abort s"
    by (simp_all add: tcg_temp_free_internal_def Let_def)
  have "live_tcgv (tcg_temp_free_internal t s) v" if "v \<in> dom \<Gamma>'" for v
  proof -
    have "live_tcgv s v" using w that by (simp add: At_def)
    then show ?thesis using that assms(5,6) ta.release_live[OF wf assms(2)] by (cases v) auto
  qed
  then show ?thesis
    using w ta.release_inv[OF wf assms(2)] ta.release_live[OF wf assms(2)] assms(7) eq
    by (auto simp: At_def rt_after_def)
qed

lemma wp_temp_free_i32 [wp_rules]:
  assumes "At E c \<Gamma> \<Delta> m s" "\<Gamma> (Temp n) = Some x"
    and "\<And>s'. At E c (\<Gamma>(Temp n := None)) \<Delta> m s' \<Longrightarrow> Q () s'"
  shows "wp (tcg_temp_free_i32 (Temp n)) Q s"
proof -
  have l: "n \<in> live_temps s K_I32" using At_live[OF assms(1,2)] by simp
  have "TempL n \<notin> dom \<Gamma>" "n \<notin> dom \<Delta>"
    using At_one_name(1,4)[OF assms(1) l] by auto
  then have "At E c (\<Gamma>(Temp n := None)) \<Delta> m (tcg_temp_free_internal n s)"
    by (intro At_free[OF assms(1) l]) (auto simp: map_le_def)
  then show ?thesis using assms(3) by (simp add: wp_update)
qed

lemma wp_temp_free_local_i32 [wp_rules]:
  assumes "At E c \<Gamma> \<Delta> m s" "\<Gamma> (TempL n) = Some x"
    and "\<And>s'. At E c (\<Gamma>(TempL n := None)) \<Delta> m s' \<Longrightarrow> Q () s'"
  shows "wp (tcg_temp_free_i32 (TempL n)) Q s"
proof -
  have l: "n \<in> live_temps s K_I32_LOCAL" using At_live[OF assms(1,2)] by simp
  have "Temp n \<notin> dom \<Gamma>" "n \<notin> dom \<Delta>"
    using At_one_name(2,4)[OF assms(1) l] by auto
  then have "At E c (\<Gamma>(TempL n := None)) \<Delta> m (tcg_temp_free_internal n s)"
    by (intro At_free[OF assms(1) l]) (auto simp: map_le_def)
  then show ?thesis using assms(3) by (simp add: wp_update)
qed

lemma wp_temp_free_i64 [wp_rules]:
  assumes "At E c \<Gamma> \<Delta> m s" "\<Delta> n = Some x"
    and "\<And>s'. At E c \<Gamma> (\<Delta>(n := None)) m s' \<Longrightarrow> Q () s'"
  shows "wp (tcg_temp_free_i64 (Temp64 n)) Q s"
proof -
  have l: "n \<in> live_temps s K_I64" by (rule At_live64[OF assms(1,2)])
  have "TempL n \<notin> dom \<Gamma>" "Temp n \<notin> dom \<Gamma>"
    using At_one_name(3)[OF assms(1) l] by auto
  then have "At E c \<Gamma> (\<Delta>(n := None)) m (tcg_temp_free_internal n s)"
    by (intro At_free[OF assms(1) l]) (auto simp: map_le_def)
  then show ?thesis using assms(3) by (simp add: wp_update)
qed

declare tcg_temp_free_i32.simps [simp del] tcg_temp_free_i64.simps [simp del]

section \<open>One operation\<close>

lemma wp_emit:
  assumes "At E c \<Gamma> \<Delta> m s"
    and "\<And>S. holds_in \<Gamma> \<Delta> m S \<Longrightarrow> holds_in \<Gamma>' \<Delta>' m' (exec_running (fst E) op S)"
    and "dom \<Gamma>' \<subseteq> dom \<Gamma>" "dom \<Delta>' \<subseteq> dom \<Delta>"
    and "\<And>s'. At E c \<Gamma>' \<Delta>' m' s' \<Longrightarrow> Q () s'"
  shows "wp (emit op) Q s"
proof -
  let ?s = "s\<lparr>code := code s @ [op]\<rparr>"
  have h: "holds_in \<Gamma> \<Delta> m (rt_after E s)" using assms(1) by (simp add: At_def)
  then have "rt_after E ?s = exec_running (fst E) op (rt_after E s)"
    by (simp add: rt_after_def holds_in_def exec_op_Running)
  then have r: "holds_in \<Gamma>' \<Delta>' m' (rt_after E ?s)" using assms(2)[OF h] by simp
  have lv: "live_temps ?s = live_temps s" "temps_wf ?s = temps_wf s"
    by (simp_all add: live_temps_def fun_eq_iff temps_wf_def)
  have lt: "live_tcgv ?s v = live_tcgv s v" for v by (cases v) (simp_all add: lv)
  have "At E c \<Gamma>' \<Delta>' m' ?s"
    using assms(1,3,4) r unfolding At_def lv lt by (auto simp: subset_iff)
  then show ?thesis using assms(5) by (simp add: emit_def wp_update)
qed

lemma wp_emit_rset:
  assumes a: "At E c \<Gamma> \<Delta> m s"
    and "\<And>S. holds_in \<Gamma> \<Delta> m S \<Longrightarrow> exec_running (fst E) op S = rset r x S"
    and "writable \<Gamma> r"
    and "\<And>s'. At E c (upd_env r x \<Gamma>) \<Delta> (upd_mach r x m) s' \<Longrightarrow> Q () s'"
  shows "wp (emit op) Q s"
proof (rule wp_emit[OF a, where \<Gamma>' = "upd_env r x \<Gamma>" and \<Delta>' = \<Delta> and m' = "upd_mach r x m"])
  have "\<forall>v\<in>dom \<Gamma>. \<forall>g. v \<noteq> Glob g" using At_one_name(5)[OF a] by auto
  then show "holds_in (upd_env r x \<Gamma>) \<Delta> (upd_mach r x m) (exec_running (fst E) op S)"
    if "holds_in \<Gamma> \<Delta> m S" for S
    using holds_in_rset[OF that] assms(2)[OF that] by simp
  show "dom (upd_env r x \<Gamma>) \<subseteq> dom \<Gamma>" using assms(3) by (cases r) auto
qed (use assms(4) in auto)

end
