(* ===== verification/TCG_Rules.thy ===== *)
theory TCG_Rules
  imports TCG_Logic
begin

text \<open>One rule per generator of \<^verbatim>\<open>src/tcg/tcg-op.h\<close>: what the generated operations compute,
  whatever the host supports.\<close>

section \<open>Single operations\<close>

lemma wp_get_dc_At [wp_rules]: "At E c \<Gamma> \<Delta> m s \<Longrightarrow> (At E c \<Gamma> \<Delta> m s \<Longrightarrow> Q c s) \<Longrightarrow> wp get_dc Q s"
  by (simp add: wp_get_dc At_def)

lemma wp_upd_dc [wp_rules]:
  assumes "At E c \<Gamma> \<Delta> m s" "\<And>s'. At E (f c) \<Gamma> \<Delta> m s' \<Longrightarrow> Q () s'"
  shows "wp (upd_dc f) Q s"
proof -
  let ?s = "s\<lparr>dc := f (dc s)\<rparr>"
  have lv: "live_temps ?s = live_temps s" "temps_wf ?s = temps_wf s"
    by (simp_all add: live_temps_def fun_eq_iff temps_wf_def)
  have lt: "live_tcgv ?s v = live_tcgv s v" for v by (cases v) (simp_all add: lv)
  have "At E (f c) \<Gamma> \<Delta> m ?s"
    using assms(1) unfolding At_def lv lt by (simp add: rt_after_def)
  then show ?thesis using assms(2) by (simp add: upd_dc_def wp_update)
qed

lemma wp_mov_i32 [wp_rules]:
  assumes "At E c \<Gamma> \<Delta> m s" "look \<Gamma> m a = Some x" "writable \<Gamma> r"
    "\<And>s'. At E c (upd_env r x \<Gamma>) \<Delta> (upd_mach r x m) s' \<Longrightarrow> Q () s'"
  shows "wp (tcg_gen_mov_i32 r a) Q s"
proof (cases "r = a")
  case True
  have "Q () s" using assms(4)[of s] assms(1) upd_look_same[OF assms(2)] True by simp
  then show ?thesis using True by (simp add: tcg_gen_mov_i32_def)
next
  case False
  have "wp (emit (Op_mov_i32 r a)) Q s"
    by (rule wp_emit_rset[where r = r and x = x, OF assms(1)])
       (simp_all add: holds_in_look[OF _ assms(2)] assms(3,4))
  then show ?thesis using False by (simp add: tcg_gen_mov_i32_def)
qed

lemma wp_movi_i32 [wp_rules]:
  assumes "At E c \<Gamma> \<Delta> m s" "writable \<Gamma> r"
    "\<And>s'. At E c (upd_env r x \<Gamma>) \<Delta> (upd_mach r x m) s' \<Longrightarrow> Q () s'"
  shows "wp (tcg_gen_movi_i32 r x) Q s"
  unfolding tcg_gen_movi_i32_def by (rule wp_emit_rset[where r = r and x = x, OF assms(1)]) (simp_all add: assms(2,3))

lemma wp_alu:
  assumes "At E c \<Gamma> \<Delta> m s" "look \<Gamma> m a = Some x" "look \<Gamma> m b = Some y" "writable \<Gamma> r"
    "\<And>s'. At E c (upd_env r (eval_alu (fst E) f x y) \<Gamma>) \<Delta> (upd_mach r (eval_alu (fst E) f x y) m) s' \<Longrightarrow> Q () s'"
  shows "wp (emit (Op_alu_i32 f r a b)) Q s"
  by (rule wp_emit_rset[where r = r and x = "eval_alu (fst E) f x y", OF assms(1)])
     (simp_all add: holds_in_look[OF _ assms(2)] holds_in_look[OF _ assms(3)] assms(4,5))

lemma wp_un:
  assumes "At E c \<Gamma> \<Delta> m s" "look \<Gamma> m a = Some x" "writable \<Gamma> r"
    "\<And>s'. At E c (upd_env r (eval_un f x) \<Gamma>) \<Delta> (upd_mach r (eval_un f x) m) s' \<Longrightarrow> Q () s'"
  shows "wp (emit (Op_un_i32 f r a)) Q s"
  by (rule wp_emit_rset[where r = r and x = "eval_un f x", OF assms(1)])
     (simp_all add: holds_in_look[OF _ assms(2)] assms(3,4))

lemma wp_setcond_i32 [wp_rules]:
  assumes "At E c \<Gamma> \<Delta> m s" "look \<Gamma> m a = Some x" "look \<Gamma> m b = Some y" "writable \<Gamma> r"
    "\<And>s'. At E c (upd_env r (if eval_cond cond x y then 1 else 0) \<Gamma>) \<Delta>
       (upd_mach r (if eval_cond cond x y then 1 else 0) m) s' \<Longrightarrow> Q () s'"
  shows "wp (tcg_gen_setcond_i32 cond r a b) Q s"
  unfolding tcg_gen_setcond_i32_def
  by (rule wp_emit_rset[where r = r and x = "if eval_cond cond x y then 1 else 0", OF assms(1)])
     (simp_all only: exec_running.simps holds_in_look[OF _ assms(2)] holds_in_look[OF _ assms(3)] assms(4,5))

section \<open>Binary operations\<close>

lemma wp_add_i32 [wp_rules]:
  assumes "At E c \<Gamma> \<Delta> m s" "look \<Gamma> m a = Some x" "look \<Gamma> m b = Some y" "writable \<Gamma> r"
    "\<And>s'. At E c (upd_env r (x + y) \<Gamma>) \<Delta> (upd_mach r (x + y) m) s' \<Longrightarrow> Q () s'"
  shows "wp (tcg_gen_add_i32 r a b) Q s"
  unfolding tcg_gen_add_i32_def by (rule wp_alu[where x = x and y = y, OF assms(1-4)]) (simp add: assms(5))

lemma wp_sub_i32 [wp_rules]:
  assumes "At E c \<Gamma> \<Delta> m s" "look \<Gamma> m a = Some x" "look \<Gamma> m b = Some y" "writable \<Gamma> r"
    "\<And>s'. At E c (upd_env r (x - y) \<Gamma>) \<Delta> (upd_mach r (x - y) m) s' \<Longrightarrow> Q () s'"
  shows "wp (tcg_gen_sub_i32 r a b) Q s"
  unfolding tcg_gen_sub_i32_def by (rule wp_alu[where x = x and y = y, OF assms(1-4)]) (simp add: assms(5))

lemma wp_mul_i32 [wp_rules]:
  assumes "At E c \<Gamma> \<Delta> m s" "look \<Gamma> m a = Some x" "look \<Gamma> m b = Some y" "writable \<Gamma> r"
    "\<And>s'. At E c (upd_env r (x * y) \<Gamma>) \<Delta> (upd_mach r (x * y) m) s' \<Longrightarrow> Q () s'"
  shows "wp (tcg_gen_mul_i32 r a b) Q s"
  unfolding tcg_gen_mul_i32_def by (rule wp_alu[where x = x and y = y, OF assms(1-4)]) (simp add: assms(5))

lemma wp_and_i32 [wp_rules]:
  assumes "At E c \<Gamma> \<Delta> m s" "look \<Gamma> m a = Some x" "look \<Gamma> m b = Some y" "writable \<Gamma> r"
    "\<And>s'. At E c (upd_env r (x AND y) \<Gamma>) \<Delta> (upd_mach r (x AND y) m) s' \<Longrightarrow> Q () s'"
  shows "wp (tcg_gen_and_i32 r a b) Q s"
proof (cases "a = b")
  case True
  then show ?thesis using assms by (simp add: tcg_gen_and_i32_def wp_mov_i32)
next
  case False
  then have "tcg_gen_and_i32 r a b = emit (Op_alu_i32 AND_I32 r a b)" by (simp add: tcg_gen_and_i32_def)
  then show ?thesis by (simp only:) (rule wp_alu[where x = x and y = y, OF assms(1-4)], simp add: assms(5))
qed

lemma wp_or_i32 [wp_rules]:
  assumes "At E c \<Gamma> \<Delta> m s" "look \<Gamma> m a = Some x" "look \<Gamma> m b = Some y" "writable \<Gamma> r"
    "\<And>s'. At E c (upd_env r (x OR y) \<Gamma>) \<Delta> (upd_mach r (x OR y) m) s' \<Longrightarrow> Q () s'"
  shows "wp (tcg_gen_or_i32 r a b) Q s"
proof (cases "a = b")
  case True
  then show ?thesis using assms by (simp add: tcg_gen_or_i32_def wp_mov_i32)
next
  case False
  then have "tcg_gen_or_i32 r a b = emit (Op_alu_i32 OR_I32 r a b)" by (simp add: tcg_gen_or_i32_def)
  then show ?thesis by (simp only:) (rule wp_alu[where x = x and y = y, OF assms(1-4)], simp add: assms(5))
qed

lemma wp_xor_i32 [wp_rules]:
  assumes "At E c \<Gamma> \<Delta> m s" "look \<Gamma> m a = Some x" "look \<Gamma> m b = Some y" "writable \<Gamma> r"
    "\<And>s'. At E c (upd_env r (x XOR y) \<Gamma>) \<Delta> (upd_mach r (x XOR y) m) s' \<Longrightarrow> Q () s'"
  shows "wp (tcg_gen_xor_i32 r a b) Q s"
proof (cases "a = b")
  case True
  then show ?thesis using assms by (simp add: tcg_gen_xor_i32_def wp_movi_i32)
next
  case False
  then have "tcg_gen_xor_i32 r a b = emit (Op_alu_i32 XOR_I32 r a b)" by (simp add: tcg_gen_xor_i32_def)
  then show ?thesis by (simp only:) (rule wp_alu[where x = x and y = y, OF assms(1-4)], simp add: assms(5))
qed

lemma wp_shl_i32 [wp_rules]:
  assumes "At E c \<Gamma> \<Delta> m s" "look \<Gamma> m a = Some x" "look \<Gamma> m b = Some y" "unat y < 32" "writable \<Gamma> r"
    "\<And>s'. At E c (upd_env r (push_bit (unat y) x) \<Gamma>) \<Delta> (upd_mach r (push_bit (unat y) x) m) s' \<Longrightarrow> Q () s'"
  shows "wp (tcg_gen_shl_i32 r a b) Q s"
  unfolding tcg_gen_shl_i32_def by (rule wp_alu[where x = x and y = y, OF assms(1-3,5)]) (simp add: assms(4,6))

lemma wp_shr_i32 [wp_rules]:
  assumes "At E c \<Gamma> \<Delta> m s" "look \<Gamma> m a = Some x" "look \<Gamma> m b = Some y" "unat y < 32" "writable \<Gamma> r"
    "\<And>s'. At E c (upd_env r (drop_bit (unat y) x) \<Gamma>) \<Delta> (upd_mach r (drop_bit (unat y) x) m) s' \<Longrightarrow> Q () s'"
  shows "wp (tcg_gen_shr_i32 r a b) Q s"
  unfolding tcg_gen_shr_i32_def by (rule wp_alu[where x = x and y = y, OF assms(1-3,5)]) (simp add: assms(4,6))

lemma wp_sar_i32 [wp_rules]:
  assumes "At E c \<Gamma> \<Delta> m s" "look \<Gamma> m a = Some x" "look \<Gamma> m b = Some y" "unat y < 32" "writable \<Gamma> r"
    "\<And>s'. At E c (upd_env r (signed_drop_bit (unat y) x) \<Gamma>) \<Delta> (upd_mach r (signed_drop_bit (unat y) x) m) s' \<Longrightarrow> Q () s'"
  shows "wp (tcg_gen_sar_i32 r a b) Q s"
  unfolding tcg_gen_sar_i32_def by (rule wp_alu[where x = x and y = y, OF assms(1-3,5)]) (simp add: assms(4,6))

section \<open>Operations with a constant\<close>

lemma wp_const_i32:
  assumes "At E c \<Gamma> \<Delta> m s"
    and "\<And>n s'. \<Gamma> (Temp n) = None \<Longrightarrow> At E c (\<Gamma>(Temp n \<mapsto> x)) \<Delta> m s' \<Longrightarrow> Q (Temp n) s'"
  shows "wp (tcg_const_i32 x) Q s"
  unfolding tcg_const_i32_def wp_bind wp_return
  by (rule wp_temp_new_i32[OF assms(1)], erule wp_movi_i32) (use assms(2) in simp_all)

text \<open>A scratch temporary that holds a constant for one operation.\<close>

lemma wp_with_const:
  assumes "At E c \<Gamma> \<Delta> m s" "look \<Gamma> m a = Some x" "writable \<Gamma> r"
    and op: "\<And>n s' P. \<Gamma> (Temp n) = None \<Longrightarrow> At E c (\<Gamma>(Temp n \<mapsto> k)) \<Delta> m s' \<Longrightarrow>
       (\<And>s''. At E c (upd_env r v (\<Gamma>(Temp n \<mapsto> k))) \<Delta> (upd_mach r v m) s'' \<Longrightarrow> P () s'') \<Longrightarrow>
       wp (g (Temp n)) P s'"
    and "\<And>s'. At E c (upd_env r v \<Gamma>) \<Delta> (upd_mach r v m) s' \<Longrightarrow> Q () s'"
  shows "wp (do { t0 \<leftarrow> tcg_const_i32 k; g t0; tcg_temp_free_i32 t0 }) Q s"
  unfolding wp_bind
  apply (rule wp_const_i32[OF assms(1)])
  apply (rule op, assumption, assumption)
  apply (erule wp_temp_free_i32)
   apply (erule upd_env_fresh_known[OF assms(3)])
  apply (rule assms(5))
  apply (simp add: upd_env_fresh_drop[OF assms(3)])
  done

lemma wp_addi_i32 [wp_rules]:
  assumes "At E c \<Gamma> \<Delta> m s" "look \<Gamma> m a = Some x" "writable \<Gamma> r"
    "\<And>s'. At E c (upd_env r (x + k) \<Gamma>) \<Delta> (upd_mach r (x + k) m) s' \<Longrightarrow> Q () s'"
  shows "wp (tcg_gen_addi_i32 r a k) Q s"
proof (cases "k = 0")
  case True
  then show ?thesis using assms by (simp add: tcg_gen_addi_i32_def wp_mov_i32)
next
  case False
  show ?thesis unfolding tcg_gen_addi_i32_def if_not_P[OF False]
    by (rule wp_with_const[where v = "x + k", OF assms(1-3)], erule wp_add_i32[where x = x and y = k])
       (simp_all add: look_fresh[OF assms(2)] assms(3-))
qed

lemma wp_subi_i32 [wp_rules]:
  assumes "At E c \<Gamma> \<Delta> m s" "look \<Gamma> m a = Some x" "writable \<Gamma> r"
    "\<And>s'. At E c (upd_env r (x - k) \<Gamma>) \<Delta> (upd_mach r (x - k) m) s' \<Longrightarrow> Q () s'"
  shows "wp (tcg_gen_subi_i32 r a k) Q s"
proof (cases "k = 0")
  case True
  then show ?thesis using assms by (simp add: tcg_gen_subi_i32_def wp_mov_i32)
next
  case False
  show ?thesis unfolding tcg_gen_subi_i32_def if_not_P[OF False]
    by (rule wp_with_const[where v = "x - k", OF assms(1-3)], erule wp_sub_i32[where x = x and y = k])
       (simp_all add: look_fresh[OF assms(2)] assms(3-))
qed

lemma wp_xori_i32 [wp_rules]:
  assumes "At E c \<Gamma> \<Delta> m s" "look \<Gamma> m a = Some x" "writable \<Gamma> r"
    "\<And>s'. At E c (upd_env r (x XOR k) \<Gamma>) \<Delta> (upd_mach r (x XOR k) m) s' \<Longrightarrow> Q () s'"
  shows "wp (tcg_gen_xori_i32 r a k) Q s"
proof (cases "k = 0")
  case True
  then show ?thesis using assms by (simp add: tcg_gen_xori_i32_def wp_mov_i32)
next
  case False
  show ?thesis unfolding tcg_gen_xori_i32_def if_not_P[OF False]
    by (rule wp_with_const[where v = "x XOR k", OF assms(1-3)], erule wp_xor_i32[where x = x and y = k])
       (simp_all add: look_fresh[OF assms(2)] assms(3-))
qed

lemma wp_shli_i32 [wp_rules]:
  assumes "At E c \<Gamma> \<Delta> m s" "look \<Gamma> m a = Some x" "writable \<Gamma> r" "unat k < 32"
    "\<And>s'. At E c (upd_env r (push_bit (unat k) x) \<Gamma>) \<Delta> (upd_mach r (push_bit (unat k) x) m) s' \<Longrightarrow> Q () s'"
  shows "wp (tcg_gen_shli_i32 r a k) Q s"
proof (cases "k = 0")
  case True
  then show ?thesis using assms by (simp add: tcg_gen_shli_i32_def wp_mov_i32)
next
  case False
  show ?thesis unfolding tcg_gen_shli_i32_def if_not_P[OF False]
    by (rule wp_with_const[where v = "push_bit (unat k) x", OF assms(1-3)], erule wp_shl_i32[where x = x and y = k])
       (simp_all add: look_fresh[OF assms(2)] assms(3-))
qed

lemma wp_shri_i32 [wp_rules]:
  assumes "At E c \<Gamma> \<Delta> m s" "look \<Gamma> m a = Some x" "writable \<Gamma> r" "unat k < 32"
    "\<And>s'. At E c (upd_env r (drop_bit (unat k) x) \<Gamma>) \<Delta> (upd_mach r (drop_bit (unat k) x) m) s' \<Longrightarrow> Q () s'"
  shows "wp (tcg_gen_shri_i32 r a k) Q s"
proof (cases "k = 0")
  case True
  then show ?thesis using assms by (simp add: tcg_gen_shri_i32_def wp_mov_i32)
next
  case False
  show ?thesis unfolding tcg_gen_shri_i32_def if_not_P[OF False]
    by (rule wp_with_const[where v = "drop_bit (unat k) x", OF assms(1-3)], erule wp_shr_i32[where x = x and y = k])
       (simp_all add: look_fresh[OF assms(2)] assms(3-))
qed

lemma wp_andi_i32 [wp_rules]:
  assumes "At E c \<Gamma> \<Delta> m s" "look \<Gamma> m a = Some x" "writable \<Gamma> r"
    "\<And>s'. At E c (upd_env r (x AND k) \<Gamma>) \<Delta> (upd_mach r (x AND k) m) s' \<Longrightarrow> Q () s'"
  shows "wp (tcg_gen_andi_i32 r a k) Q s"
proof -
  consider "k = 0" | "k = 0xFFFFFFFF" | (other) "k \<noteq> 0" "k \<noteq> 0xFFFFFFFF" by blast
  then show ?thesis
  proof cases
    case 1
    then show ?thesis using assms by (simp add: tcg_gen_andi_i32_def wp_movi_i32)
  next
    case 2
    then have "k = - 1" by simp
    then have "x AND k = x" by simp
    then show ?thesis using assms 2 by (simp add: tcg_gen_andi_i32_def wp_mov_i32)
  next
    case other
    show ?thesis unfolding tcg_gen_andi_i32_def if_not_P[OF other(1)] if_not_P[OF other(2)]
      by (rule wp_with_const[where v = "x AND k", OF assms(1-3)], erule wp_and_i32[where x = x and y = k])
         (simp_all add: look_fresh[OF assms(2)] assms(3-))
  qed
qed

section \<open>Operations a host may lack\<close>

lemma wp_neg_i32 [wp_rules]:
  assumes "At E c \<Gamma> \<Delta> m s" "look \<Gamma> m a = Some x" "writable \<Gamma> r"
    "\<And>s'. At E c (upd_env r (- x) \<Gamma>) \<Delta> (upd_mach r (- x) m) s' \<Longrightarrow> Q () s'"
  shows "wp (tcg_gen_neg_i32 r a) Q s"
proof (cases "HAS_neg_i32 (host s)")
  case True
  have "wp (emit (Op_un_i32 NEG_I32 r a)) Q s"
    by (rule wp_un[where x = x, OF assms(1-3)]) (simp add: assms(4))
  then show ?thesis using True by (simp add: tcg_gen_neg_i32_def)
next
  case False
  show ?thesis unfolding tcg_gen_neg_i32_def
    by (subst wp_bind, subst wp_get_host, subst if_not_P[OF False], rule wp_with_const[where v = "- x", OF assms(1-3)], erule wp_sub_i32[where x = 0 and y = x])
       (simp_all add: look_fresh[OF assms(2)] assms(3-))
qed

lemma wp_not_i32 [wp_rules]:
  assumes "At E c \<Gamma> \<Delta> m s" "look \<Gamma> m a = Some x" "writable \<Gamma> r"
    "\<And>s'. At E c (upd_env r (NOT x) \<Gamma>) \<Delta> (upd_mach r (NOT x) m) s' \<Longrightarrow> Q () s'"
  shows "wp (tcg_gen_not_i32 r a) Q s"
proof (cases "HAS_not_i32 (host s)")
  case True
  have "wp (emit (Op_un_i32 NOT_I32 r a)) Q s"
    by (rule wp_un[where x = x, OF assms(1-3)]) (simp add: assms(4))
  then show ?thesis using True by (simp add: tcg_gen_not_i32_def)
next
  case False
  have "wp (tcg_gen_xori_i32 r a (- 1)) Q s"
    by (rule wp_xori_i32[OF assms(1-3)]) (simp add: assms(4))
  then show ?thesis using False by (simp add: tcg_gen_not_i32_def)
qed

lemma wp_andc_i32 [wp_rules]:
  assumes "At E c \<Gamma> \<Delta> m s" "look \<Gamma> m a = Some x" "look \<Gamma> m b = Some y" "writable \<Gamma> r"
    "\<And>s'. At E c (upd_env r (x AND NOT y) \<Gamma>) \<Delta> (upd_mach r (x AND NOT y) m) s' \<Longrightarrow> Q () s'"
  shows "wp (tcg_gen_andc_i32 r a b) Q s"
proof (cases "HAS_andc_i32 (host s)")
  case True
  have "wp (emit (Op_alu_i32 ANDC_I32 r a b)) Q s"
    by (rule wp_alu[where x = x and y = y, OF assms(1-4)]) (simp add: assms(5))
  then show ?thesis using True by (simp add: tcg_gen_andc_i32_def)
next
  case False
  show ?thesis unfolding tcg_gen_andc_i32_def wp_bind wp_get_host if_not_P[OF False]
    apply (rule wp_temp_new_i32[OF assms(1)])
    apply (erule wp_not_i32[where x = y])
      apply (simp_all add: look_fresh[OF assms(3)])
    apply (erule wp_and_i32[where x = x and y = "NOT y"])
       apply (simp_all add: look_fresh[OF assms(2)] assms(4))
    apply (erule wp_temp_free_i32)
     apply (simp_all add: upd_env_fresh_known[OF assms(4)] upd_env_fresh_drop[OF assms(4)] assms(5))
    done
qed

text \<open>Writing the same destination again.\<close>

lemma write_ref_write_ref [simp]: "write_ref r y (write_ref r x c) = write_ref r y c"
  by (cases r) (simp_all add: set_reg_def)

lemma upd_upd [simp]:
  "upd_env r y (upd_env r x \<Gamma>) = upd_env r y \<Gamma>" "upd_mach r y (upd_mach r x m) = upd_mach r y m"
  "look (upd_env r x \<Gamma>) (upd_mach r x m) r = Some x" "writable (upd_env r x \<Gamma>) r"
  by (cases r; simp; fail)+

lemma look_upd_fresh:
  assumes "writable \<Gamma> r" "\<Gamma> (Temp n) = Some y" "r \<noteq> Temp n"
  shows "look (upd_env r x \<Gamma>) (upd_mach r x m) (Temp n) = Some y"
  using assms by (cases r) auto

lemma mask_shift: "push_bit len 1 - 1 = (mask len :: u32)"
  by (simp add: mask_eq_exp_minus_1 push_bit_eq_mult)

lemma unat_of_small [simp]: "n < 32 \<Longrightarrow> unat (of_nat n :: u32) = n"
  by (simp add: unat_of_nat)

lemma deposit32_high: "ofs + len = 32 \<Longrightarrow> push_bit ofs (take_bit len y) = push_bit ofs (y :: u32)"
  by (rule bit_word_eqI) (auto simp: bit_push_bit_iff bit_take_bit_iff)

lemmas extract32_bits = extract32_def bit_take_bit_iff bit_drop_bit_eq bit_push_bit_iff
  take_bit_eq_mask[symmetric] mask_simps

lemma extract32_high: "ofs + len = 32 \<Longrightarrow> extract32 x ofs len = drop_bit (32 - len) x"
proof -
  assume a: "ofs + len = 32"
  have "bit x (ofs + n) \<Longrightarrow> n < len" for n using bit_imp_le_length[of x "ofs + n"] a by simp
  moreover have "32 - len = ofs" using a by simp
  ultimately show ?thesis by (simp only:) (rule bit_word_eqI, simp add: extract32_bits, blast)
qed

lemma extract32_low: "extract32 x 0 len = x AND mask len"
  by (rule bit_word_eqI) (auto simp: extract32_bits)

lemma extract32_16: "ofs + len = 16 \<Longrightarrow> extract32 x ofs len = drop_bit ofs (x AND 0xFFFF)"
  by (rule bit_word_eqI) (auto simp: extract32_bits)

lemma extract32_8: "ofs + len = 8 \<Longrightarrow> extract32 x ofs len = drop_bit ofs (x AND 0xFF)"
  by (rule bit_word_eqI) (auto simp: extract32_bits)

lemma extract32_mask: "extract32 x ofs len = drop_bit ofs x AND mask len"
  by (rule bit_word_eqI) (auto simp: extract32_bits)

lemma extract32_shifts: "ofs + len \<le> 32 \<Longrightarrow> extract32 x ofs len = drop_bit (32 - len) (push_bit (32 - len - ofs) x)"
  by (rule bit_word_eqI) (auto simp: extract32_bits add.commute[of _ ofs])

lemma wp_ext8u_i32 [wp_rules]:
  assumes "At E c \<Gamma> \<Delta> m s" "look \<Gamma> m a = Some x" "writable \<Gamma> r"
    "\<And>s'. At E c (upd_env r (x AND 0xFF) \<Gamma>) \<Delta> (upd_mach r (x AND 0xFF) m) s' \<Longrightarrow> Q () s'"
  shows "wp (tcg_gen_ext8u_i32 r a) Q s"
proof (cases "HAS_ext8u_i32 (host s)")
  case True
  have "wp (emit (Op_un_i32 EXT8U_I32 r a)) Q s"
    by (rule wp_un[where x = x, OF assms(1-3)]) (simp add: assms(4))
  then show ?thesis using True by (simp add: tcg_gen_ext8u_i32_def)
next
  case False
  have "wp (tcg_gen_andi_i32 r a 0xFF) Q s" by (rule wp_andi_i32[OF assms(1-3)], rule assms(4))
  then show ?thesis using False by (simp add: tcg_gen_ext8u_i32_def)
qed

lemma wp_ext16u_i32 [wp_rules]:
  assumes "At E c \<Gamma> \<Delta> m s" "look \<Gamma> m a = Some x" "writable \<Gamma> r"
    "\<And>s'. At E c (upd_env r (x AND 0xFFFF) \<Gamma>) \<Delta> (upd_mach r (x AND 0xFFFF) m) s' \<Longrightarrow> Q () s'"
  shows "wp (tcg_gen_ext16u_i32 r a) Q s"
proof (cases "HAS_ext16u_i32 (host s)")
  case True
  have "wp (emit (Op_un_i32 EXT16U_I32 r a)) Q s"
    by (rule wp_un[where x = x, OF assms(1-3)]) (simp add: assms(4))
  then show ?thesis using True by (simp add: tcg_gen_ext16u_i32_def)
next
  case False
  have "wp (tcg_gen_andi_i32 r a 0xFFFF) Q s" by (rule wp_andi_i32[OF assms(1-3)], rule assms(4))
  then show ?thesis using False by (simp add: tcg_gen_ext16u_i32_def)
qed

lemma wp_extract_i32 [wp_rules]:
  assumes "At E c \<Gamma> \<Delta> m s" "look \<Gamma> m a = Some x" "writable \<Gamma> r" "ofs + len \<le> 32" "0 < len"
    "\<And>s'. At E c (upd_env r (extract32 x ofs len) \<Gamma>) \<Delta> (upd_mach r (extract32 x ofs len) m) s' \<Longrightarrow> Q () s'"
  shows "wp (tcg_gen_extract_i32 r a ofs len) Q s"
proof -
  have step: "wp (do { g1; g2 }) Q s"
    if "\<And>P. (\<And>s'. At E c (upd_env r y \<Gamma>) \<Delta> (upd_mach r y m) s' \<Longrightarrow> P () s') \<Longrightarrow> wp g1 P s"
      and "\<And>P s'. At E c (upd_env r y \<Gamma>) \<Delta> (upd_mach r y m) s' \<Longrightarrow> (\<And>s''. At E c (upd_env r (extract32 x ofs len) (upd_env r y \<Gamma>)) \<Delta>
         (upd_mach r (extract32 x ofs len) (upd_mach r y m)) s'' \<Longrightarrow> P () s'') \<Longrightarrow> wp g2 P s'" for g1 g2 y
    unfolding wp_bind by (rule that(1), rule that(2), assumption, rule assms(6), simp)
  have "wp (emit (Op_extract_i32 r a ofs len)) Q s"
    by (rule wp_emit_rset[where r = r and x = "extract32 x ofs len", OF assms(1)])
       (simp_all add: holds_in_look[OF _ assms(2)] assms(3,6))
  moreover have "wp (tcg_gen_shri_i32 r a (of_nat (32 - len))) Q s" if "ofs + len = 32"
    by (rule wp_shri_i32[OF assms(1-3)]) (use assms(5,6) that in \<open>simp_all add: extract32_high del: of_nat_diff\<close>)
  moreover have "wp (tcg_gen_andi_i32 r a (push_bit len 1 - 1)) Q s" if "ofs = 0"
    by (rule wp_andi_i32[OF assms(1-3)]) (use assms(6) that in \<open>simp only: extract32_low mask_shift\<close>)
  moreover have "wp (do { tcg_gen_ext16u_i32 r a; tcg_gen_shri_i32 r r (of_nat ofs) }) Q s" if "ofs + len = 16"
  proof -
    have e: "unat (of_nat ofs :: u32) < 32" "drop_bit (unat (of_nat ofs :: u32)) (x AND 0xFFFF) = extract32 x ofs len"
      using that by (simp_all add: extract32_16)
    show ?thesis
      by (rule step[where y = "x AND 0xFFFF"], rule wp_ext16u_i32[OF assms(1-3)], assumption,
          erule wp_shri_i32[where x = "x AND 0xFFFF"]) (simp_all only: upd_upd e)
  qed
  moreover have "wp (do { tcg_gen_ext8u_i32 r a; tcg_gen_shri_i32 r r (of_nat ofs) }) Q s" if "ofs + len = 8"
  proof -
    have e: "unat (of_nat ofs :: u32) < 32" "drop_bit (unat (of_nat ofs :: u32)) (x AND 0xFF) = extract32 x ofs len"
      using that by (simp_all add: extract32_8)
    show ?thesis
      by (rule step[where y = "x AND 0xFF"], rule wp_ext8u_i32[OF assms(1-3)], assumption,
          erule wp_shri_i32[where x = "x AND 0xFF"]) (simp_all only: upd_upd e)
  qed
  moreover have "wp (do { tcg_gen_shri_i32 r a (of_nat ofs); tcg_gen_andi_i32 r r (push_bit len 1 - 1) }) Q s"
    by (rule step[where y = "drop_bit ofs x"], rule wp_shri_i32[OF assms(1-3)], (use assms(4,5) in simp)[],
        (use assms(4,5) in simp)[], erule wp_andi_i32[where x = "drop_bit ofs x"])
       (simp_all only: extract32_mask mask_shift upd_upd)
  moreover have "wp (do { tcg_gen_shli_i32 r a (of_nat (32 - len - ofs)); tcg_gen_shri_i32 r r (of_nat (32 - len)) }) Q s"
    by (rule step[where y = "push_bit (32 - len - ofs) x"], rule wp_shli_i32[OF assms(1-3)],
        (use assms(4,5) in \<open>simp del: of_nat_diff\<close>)[], (use assms(4,5) in \<open>simp del: of_nat_diff\<close>)[],
        erule wp_shri_i32[where x = "push_bit (32 - len - ofs) x"])
       (use assms(4,5) in \<open>simp_all add: extract32_shifts[OF assms(4)] del: of_nat_diff\<close>)
  ultimately show ?thesis
    unfolding tcg_gen_extract_i32_def by (subst wp_bind, subst wp_get_host) (simp only: split: if_split, blast)
qed

lemma wp_deposit_i32 [wp_rules]:
  assumes "At E c \<Gamma> \<Delta> m s" "look \<Gamma> m a = Some x" "look \<Gamma> m b = Some y" "writable \<Gamma> r"
    "ofs + len \<le> 32" "0 < len"
    "\<And>s'. At E c (upd_env r (deposit32 x y ofs len) \<Gamma>) \<Delta> (upd_mach r (deposit32 x y ofs len) m) s' \<Longrightarrow> Q () s'"
  shows "wp (tcg_gen_deposit_i32 r a b ofs len) Q s"
proof -
  let ?d = "deposit32 x y ofs len"
  let ?y = "push_bit ofs (take_bit len y)"
  let ?k = "x AND NOT (push_bit ofs (push_bit len 1 - 1))"
  have d: "?k OR ?y = ?d" by (simp add: deposit32_def mask_shift del: push_bit_of_1)
  have u: "unat (of_nat ofs :: u32) = ofs" "ofs < 32" using assms(5,6) by auto
  have full: "?d = y" if "ofs = 0 \<and> len = 32"
    using that by (intro bit_word_eqI) (auto simp: deposit32_def bit_simps)
  have t1: "wp (if ofs + len < 32 then do { tcg_gen_andi_i32 (Temp n) b (push_bit len 1 - 1);
             tcg_gen_shli_i32 (Temp n) (Temp n) (of_nat ofs) } else tcg_gen_shli_i32 (Temp n) b (of_nat ofs)) P s'"
    if "\<Gamma> (Temp n) = None" "At E c (\<Gamma>(Temp n \<mapsto> z)) \<Delta> m s'"
      and P: "\<And>s''. At E c (\<Gamma>(Temp n \<mapsto> ?y)) \<Delta> m s'' \<Longrightarrow> P () s''" for n z P s'
  proof (cases "ofs + len < 32")
    case True
    show ?thesis unfolding if_P[OF True] wp_bind
      by (rule wp_andi_i32[OF that(2) look_fresh[OF assms(3) that(1)]], simp, erule wp_shli_i32[where x = "take_bit len y"])
         (simp_all add: u mask_shift take_bit_eq_mask P del: push_bit_of_1)
  next
    case False
    then have "push_bit ofs y = ?y" using assms(5) deposit32_high[of ofs len y] by simp
    then show ?thesis unfolding if_not_P[OF False]
      by (intro wp_shli_i32[OF that(2) look_fresh[OF assms(3) that(1)]]) (simp_all add: u P)
  qed
  have "wp (emit (Op_deposit_i32 r a b ofs len)) Q s"
    by (rule wp_emit_rset[where r = r and x = ?d, OF assms(1)])
       (simp_all add: holds_in_look[OF _ assms(2)] holds_in_look[OF _ assms(3)] assms(4,7))
  moreover have "wp (tcg_gen_mov_i32 r b) Q s" if "ofs = 0 \<and> len = 32"
    by (rule wp_mov_i32[OF assms(1,3,4)]) (use assms(7) full[OF that] in simp)
  moreover have "wp (do {
       t1 \<leftarrow> tcg_temp_new_i32;
       (if ofs + len < 32 then do {
          tcg_gen_andi_i32 t1 b (push_bit len 1 - 1);
          tcg_gen_shli_i32 t1 t1 (of_nat ofs) }
        else tcg_gen_shli_i32 t1 b (of_nat ofs));
       tcg_gen_andi_i32 r a (NOT (push_bit ofs (push_bit len 1 - 1)));
       tcg_gen_or_i32 r r t1;
       tcg_temp_free_i32 t1 }) Q s"
    unfolding wp_bind
    apply (rule wp_temp_new_i32[OF assms(1)])
    apply (rule t1[unfolded wp_bind], assumption, assumption)
    apply (erule wp_andi_i32[where x = x])
      apply (simp_all only: look_fresh[OF assms(2)] writable_upd[OF assms(4)])
    subgoal for n
      apply (erule wp_or_i32[where x = ?k and y = ?y])
         apply (simp_all only: upd_upd d)
       apply (rule look_upd_fresh; use assms(4) in \<open>auto simp: writable_upd\<close>)
      apply (erule wp_temp_free_i32)
       apply (simp_all add: upd_env_fresh_known[OF assms(4)] upd_env_fresh_drop[OF assms(4)] assms(7))
      done
    done
  ultimately show ?thesis
    unfolding tcg_gen_deposit_i32_def Let_def by (subst wp_bind, subst wp_get_host) (simp only: split: if_split, blast)
qed

lemma eval_cond_trivial: "cond = COND_ALWAYS \<Longrightarrow> eval_cond cond x y" "cond = COND_NEVER \<Longrightarrow> \<not> eval_cond cond x y"
  by simp_all

lemma movcond_select:
  "(v AND - (if b then 1 else 0)) = (if b then v else (0 :: u32))"
  "(v AND NOT (- (if b then 1 else 0))) = (if b then 0 else (v :: u32))"
  by simp_all

lemma wp_movcond_i32 [wp_rules]:
  assumes "At E c \<Gamma> \<Delta> m s" "look \<Gamma> m c1 = Some x1" "look \<Gamma> m c2 = Some x2"
    "look \<Gamma> m v1 = Some y1" "look \<Gamma> m v2 = Some y2" "writable \<Gamma> r"
    "\<And>s'. At E c (upd_env r (if eval_cond cond x1 x2 then y1 else y2) \<Gamma>) \<Delta>
       (upd_mach r (if eval_cond cond x1 x2 then y1 else y2) m) s' \<Longrightarrow> Q () s'"
  shows "wp (tcg_gen_movcond_i32 cond r c1 c2 v1 v2) Q s"
proof -
  define b where "b = eval_cond cond x1 x2"
  note fin = assms(7)[folded b_def]
  have "wp (emit (Op_movcond_i32 r c1 c2 v1 v2 cond)) Q s"
    by (rule wp_emit_rset[where r = r and x = "if b then y1 else y2", OF assms(1)])
       (simp_all only: exec_running.simps holds_in_look[OF _ assms(2)] holds_in_look[OF _ assms(3)]
          holds_in_look[OF _ assms(4)] holds_in_look[OF _ assms(5)] assms(6) fin b_def)
  moreover have "wp (tcg_gen_mov_i32 r v1) Q s" if "cond = COND_ALWAYS"
    by (rule wp_mov_i32[OF assms(1,4,6)]) (use fin that in \<open>simp add: b_def\<close>)
  moreover have "wp (tcg_gen_mov_i32 r v2) Q s" if "cond = COND_NEVER"
    by (rule wp_mov_i32[OF assms(1,5,6)]) (use fin that in \<open>simp add: b_def\<close>)
  moreover have "wp (do {
       t0 \<leftarrow> tcg_temp_new_i32; t1 \<leftarrow> tcg_temp_new_i32;
       tcg_gen_setcond_i32 cond t0 c1 c2; tcg_gen_neg_i32 t0 t0;
       tcg_gen_and_i32 t1 v1 t0; tcg_gen_andc_i32 r v2 t0; tcg_gen_or_i32 r r t1;
       tcg_temp_free_i32 t0; tcg_temp_free_i32 t1 }) Q s"
    unfolding wp_bind
    apply (rule wp_temp_new_i32[OF assms(1)])
    subgoal premises p0 for n0 z0 s0
      apply (rule wp_temp_new_i32[OF p0(2)])
      subgoal premises p1 for n1 z1 s1
      proof -
        have n: "n1 \<noteq> n0" "\<Gamma> (Temp n1) = None" using p1(1) by (auto split: if_splits)
        let ?G = "\<lambda>a b. \<Gamma>(Temp n0 \<mapsto> a, Temp n1 \<mapsto> b)"
        have l2: "look \<Gamma> m v = Some y \<Longrightarrow> look (?G a b) m v = Some y" for v y a b
          using p0(1) n by (intro look_fresh) auto
        have w: "writable (?G a b) r" for a b using assms(6) by simp
        have drop: "(upd_env r z (?G a b))(Temp n0 := None, Temp n1 := None) = upd_env r z \<Gamma>" for z a b
          using assms(6) p0(1) n by (cases r) (auto simp: fun_eq_iff)
        have ne: "r \<noteq> Temp n0" "r \<noteq> Temp n1" using assms(6) p0(1) n by auto
        have G: "(?G a b)(Temp n0 \<mapsto> d) = ?G d b" "(?G a b)(Temp n1 \<mapsto> d) = ?G a d" for a b d
          using n by (auto simp: fun_eq_iff)
        let ?b = "if b then 1 else 0"
        show ?thesis
          apply (rule wp_setcond_i32[OF p1(2) l2[OF assms(2)] l2[OF assms(3)]], simp)
          apply (simp only: upd_env.simps upd_mach.simps G b_def[symmetric])
          apply (erule wp_neg_i32[where x = ?b], (use n in simp), simp)
          apply (simp only: upd_env.simps upd_mach.simps G)
          apply (erule wp_and_i32[where x = y1 and y = "- ?b"], rule l2[OF assms(4)], (use n in simp), simp)
          apply (simp only: upd_env.simps upd_mach.simps G movcond_select)
          apply (erule wp_andc_i32[where x = y2 and y = "- ?b"], rule l2[OF assms(5)], (use n in simp), rule w)
          apply (simp only: movcond_select)
          apply (erule wp_or_i32[where x = "if b then 0 else y2" and y = "if b then y1 else 0"])
             apply (simp only: upd_upd)
            apply (rule look_upd_fresh[OF w _ ne(2)], simp)
           apply (simp only: upd_upd)
          apply (simp only: upd_upd)
          apply (erule wp_temp_free_i32[where x = "- ?b"])
           apply (use ne n in \<open>cases r; simp\<close>)
          apply (erule wp_temp_free_i32[where x = "if b then y1 else 0"])
           apply (use ne n in \<open>cases r; simp\<close>)
          apply (rule fin)
          apply (simp only: drop)
          apply (cases b; simp)
          done
      qed
      done
    done
  ultimately show ?thesis
    unfolding tcg_gen_movcond_i32_def by (subst wp_bind, subst wp_get_host) (simp only: split: if_split, blast)
qed

end
