(* ===== verification/TCG_Rules64.thy ===== *)
theory TCG_Rules64
  imports TCG_Rules
begin

text \<open>Rules for host pointers (64-bit temporaries), accesses to fields of \<^verbatim>\<open>CPUState\<close>, guest memory
  and helper calls.\<close>

section \<open>64-bit temporaries\<close>

fun look64 :: "run_env \<Rightarrow> (nat \<rightharpoonup> u64) \<Rightarrow> tcgv64 \<Rightarrow> u64 option" where
  "look64 E \<Delta> Env = Some (pl_env_base (fst E))"
| "look64 E \<Delta> (Temp64 n) = \<Delta> n"
| "look64 E \<Delta> (Of32 v) = None"

lemma holds_in_look64: "holds_in \<Gamma> \<Delta> m S \<Longrightarrow> look64 E \<Delta> a = Some x \<Longrightarrow> rval64 (fst E) S a = x"
  by (cases a) (auto simp: holds_in_def)

lemma holds_in_rset64: "holds_in \<Gamma> \<Delta> m S \<Longrightarrow> holds_in \<Gamma> (\<Delta>(n \<mapsto> x)) m (rset64 (Temp64 n) x S)"
proof -
  assume h: "holds_in \<Gamma> \<Delta> m S"
  have "rval (rset64 (Temp64 n) x S) v = rval S v" for v by (cases v) simp_all
  then show ?thesis using h by (auto simp: holds_in_def)
qed

lemma wp_emit_rset64:
  assumes "At E c \<Gamma> \<Delta> m s" "\<Delta> n \<noteq> None"
    and "\<And>S. holds_in \<Gamma> \<Delta> m S \<Longrightarrow> exec_running (fst E) op S = rset64 (Temp64 n) x S"
    and "\<And>s'. At E c \<Gamma> (\<Delta>(n \<mapsto> x)) m s' \<Longrightarrow> Q () s'"
  shows "wp (emit op) Q s"
proof (rule wp_emit[OF assms(1), where \<Gamma>' = \<Gamma> and \<Delta>' = "\<Delta>(n \<mapsto> x)" and m' = m])
  show "holds_in \<Gamma> (\<Delta>(n \<mapsto> x)) m (exec_running (fst E) op S)" if "holds_in \<Gamma> \<Delta> m S" for S
    using holds_in_rset64[OF that] assms(3)[OF that] by simp
  show "dom (\<Delta>(n \<mapsto> x)) \<subseteq> dom \<Delta>" using assms(2) by auto
qed (use assms(4) in auto)

lemma wp_const_i64:
  assumes "At E c \<Gamma> \<Delta> m s"
    and "\<And>n s'. \<Delta> n = None \<Longrightarrow> At E c \<Gamma> (\<Delta>(n \<mapsto> x)) m s' \<Longrightarrow> Q (Temp64 n) s'"
  shows "wp (tcg_const_i64 x) Q s"
  unfolding tcg_const_i64_def wp_bind wp_return
  by (rule wp_temp_new_i64[OF assms(1)], erule_tac n = n in wp_emit_rset64[where x = x]) (use assms(2) in simp_all)

lemma wp_add_i64 [wp_rules]:
  assumes "At E c \<Gamma> \<Delta> m s" "look64 E \<Delta> a = Some x" "look64 E \<Delta> b = Some y" "\<Delta> n \<noteq> None"
    "\<And>s'. At E c \<Gamma> (\<Delta>(n \<mapsto> x + y)) m s' \<Longrightarrow> Q () s'"
  shows "wp (tcg_gen_add_i64 (Temp64 n) a b) Q s"
  unfolding tcg_gen_add_i64_def
  by (rule wp_emit_rset64[where x = "x + y", OF assms(1,4)])
     (simp_all add: holds_in_look64[OF _ assms(2)] holds_in_look64[OF _ assms(3)] assms(5))

lemma look64_fresh:
  "look64 E \<Delta> a = Some x \<Longrightarrow> \<Delta> t = None \<Longrightarrow> look64 E (\<Delta>(t \<mapsto> y)) a = Some x"
  by (cases a) auto

text \<open>A scratch constant for one 64-bit operation.\<close>

lemma wp_with_const64:
  assumes "At E c \<Gamma> \<Delta> m s" "\<Delta> n \<noteq> None"
    and op: "\<And>t s' P. \<Delta> t = None \<Longrightarrow> At E c \<Gamma> (\<Delta>(t \<mapsto> k)) m s' \<Longrightarrow>
       (\<And>s''. At E c \<Gamma> (\<Delta>(t \<mapsto> k, n \<mapsto> v)) m s'' \<Longrightarrow> P () s'') \<Longrightarrow> wp (g (Temp64 t)) P s'"
    and "\<And>s'. At E c \<Gamma> (\<Delta>(n \<mapsto> v)) m s' \<Longrightarrow> Q () s'"
  shows "wp (do { t0 \<leftarrow> tcg_const_i64 k; g t0; tcg_temp_free_i64 t0 }) Q s"
proof -
  have "wp (tcg_temp_free_i64 (Temp64 t)) Q s'"
    if "\<Delta> t = None" "At E c \<Gamma> (\<Delta>(t \<mapsto> k, n \<mapsto> v)) m s'" for t s'
  proof -
    have "(\<Delta>(t \<mapsto> k, n \<mapsto> v))(t := None) = \<Delta>(n \<mapsto> v)" using that(1) assms(2) by (auto simp: fun_eq_iff)
    then show ?thesis using that(1) assms(2)
      by (intro wp_temp_free_i64[OF that(2), where x = k]) (auto simp: assms(4))
  qed
  then show ?thesis unfolding wp_bind
    by (intro wp_const_i64[OF assms(1)]) (rule op; assumption)
qed

lemma wp_addi_i64 [wp_rules]:
  assumes "At E c \<Gamma> \<Delta> m s" "look64 E \<Delta> a = Some x" "\<Delta> n \<noteq> None"
    "\<And>s'. At E c \<Gamma> (\<Delta>(n \<mapsto> x + k)) m s' \<Longrightarrow> Q () s'"
  shows "wp (tcg_gen_addi_i64 (Temp64 n) a k) Q s"
proof (cases "k = 0")
  case True
  show ?thesis
  proof (cases "a = Temp64 n")
    case True
    then show ?thesis using \<open>k = 0\<close> assms(1,2) assms(4)[of s] fun_upd_triv[of \<Delta> n]
      by (simp add: tcg_gen_addi_i64_def tcg_gen_mov_i64_def)
  next
    case False
    then have "wp (emit (Op_mov_i64 (Temp64 n) a)) Q s"
      by (intro wp_emit_rset64[where x = x, OF assms(1,3)])
         (use assms(4) \<open>k = 0\<close> in \<open>simp_all add: holds_in_look64[OF _ assms(2)]\<close>)
    then show ?thesis using False \<open>k = 0\<close> by (auto simp: tcg_gen_addi_i64_def tcg_gen_mov_i64_def)
  qed
next
  case False
  show ?thesis unfolding tcg_gen_addi_i64_def if_not_P[OF False]
    by (rule wp_with_const64[where v = "x + k", OF assms(1,3)], erule wp_add_i64[where x = x and y = k])
       (use assms(3) in \<open>simp_all add: look64_fresh[OF assms(2)] assms(4)\<close>)
qed

lemma sext_by_shifts: "signed_drop_bit 32 (push_bit 32 (push_bit 32 h OR ucast (x :: u32))) = (scast x :: u64)"
  by (rule bit_word_eqI) (auto simp: bit_simps min_def, (subgoal_tac "n = 31", simp, linarith)+)

lemma low_half: "ucast (push_bit 32 h OR ucast (x :: u32) :: u64) = x"
  by (rule bit_word_eqI) (auto simp: bit_simps)

lemma wp_ext_i32_i64 [wp_rules]:
  assumes "At E c \<Gamma> \<Delta> m s" "look \<Gamma> m a = Some x" "\<Delta> n \<noteq> None"
    "\<And>s'. At E c \<Gamma> (\<Delta>(n \<mapsto> scast x)) m s' \<Longrightarrow> Q () s'"
  shows "wp (tcg_gen_ext_i32_i64 (Temp64 n) a) Q s"
proof -
  let ?o = "push_bit 32 (ucast (pl_of32_hi (fst E))) OR ucast x :: u64"
  have o: "rval64 (fst E) S (Of32 a) = ?o" if "holds_in \<Gamma> \<Delta>' m S" for S \<Delta>'
    using holds_in_look[OF that assms(2)] by simp
  have "wp (emit (Op_ext32s_i64 (Temp64 n) (Of32 a))) Q s"
    by (rule wp_emit_rset64[where x = "scast x", OF assms(1,3)])
       (simp_all only: exec_running.simps o low_half assms(4))
  moreover have "wp (do { tcg_gen_shli_i64 (Temp64 n) (Of32 a) 32; tcg_gen_sari_i64 (Temp64 n) (Temp64 n) 32 }) Q s"
  proof -
    have shl: "wp (emit (Op_shl_i64 (Temp64 n) (Of32 a) (Temp64 t))) P s'"
      if "\<Delta> t = None" "At E c \<Gamma> (\<Delta>(t \<mapsto> 32)) m s'"
        "\<And>s''. At E c \<Gamma> (\<Delta>(t \<mapsto> 32, n \<mapsto> push_bit 32 ?o)) m s'' \<Longrightarrow> P () s''" for t s' P
    proof (rule wp_emit_rset64[OF that(2)])
      show "exec_running (fst E) (Op_shl_i64 (Temp64 n) (Of32 a) (Temp64 t)) S = rset64 (Temp64 n) (push_bit 32 ?o) S"
        if h: "holds_in \<Gamma> (\<Delta>(t \<mapsto> 32)) m S" for S
      proof -
        have "temps64 S t = 32" using h by (simp add: holds_in_def)
        then show ?thesis by (simp only: exec_running.simps o[OF h]) simp
      qed
    qed (use assms(3) that(3) in auto)
    have sar: "wp (emit (Op_sar_i64 (Temp64 n) (Temp64 n) (Temp64 t))) P s'"
      if "(\<Delta>(n \<mapsto> z)) t = None" "At E c \<Gamma> (\<Delta>(n \<mapsto> z, t \<mapsto> 32)) m s'"
        "\<And>s''. At E c \<Gamma> (\<Delta>(n \<mapsto> z, t \<mapsto> 32, n \<mapsto> signed_drop_bit 32 z)) m s'' \<Longrightarrow> P () s''" for t s' P z
      by (rule wp_emit_rset64[OF that(2)])
         (use that in \<open>auto simp: holds_in_def split: if_splits\<close>)
    have nz: "(32 :: u64) \<noteq> 0" by simp
    show ?thesis unfolding tcg_gen_shli_i64_def tcg_gen_sari_i64_def if_not_P[OF nz]
      apply (subst wp_bind)
      apply (rule wp_with_const64[where v = "push_bit 32 ?o", OF assms(1,3)])
       apply (rule shl, assumption, assumption, assumption)
      apply (rule wp_with_const64[where v = "scast x" and n = n], assumption, simp)
       apply (rule sar, assumption, assumption)
       apply (simp only: sext_by_shifts)
      apply (simp add: assms(4))
      done
  qed
  ultimately show ?thesis
    unfolding tcg_gen_ext_i32_i64_def tcg_gen_ext32s_i64_def
    by (subst wp_bind, subst wp_get_host) (simp only: split: if_split, blast)
qed

section \<open>Fields of CPUState\<close>

lemma wp_ld_i32 [wp_rules]:
  assumes "At E c \<Gamma> \<Delta> m s" "look64 E \<Delta> p = Some a" "ref_at (unat (a + off - pl_env_base (fst E))) = Some f"
    "writable \<Gamma> r"
    "\<And>s'. At E c (upd_env r (read_ref (cpu m) f) \<Gamma>) \<Delta> (upd_mach r (read_ref (cpu m) f) m) s' \<Longrightarrow> Q () s'"
  shows "wp (tcg_gen_ld_i32 r p off) Q s"
  unfolding tcg_gen_ld_i32_def
proof (rule wp_emit_rset[where r = r and x = "read_ref (cpu m) f", OF assms(1)])
  show "exec_running (fst E) (Op_ld_i32 r p off) S = rset r (read_ref (cpu m) f) S" if h: "holds_in \<Gamma> \<Delta> m S" for S
    using h assms(3) by (simp add: holds_in_look64[OF h assms(2)]) (simp add: holds_in_def)
qed (use assms(4,5) in auto)

lemma wp_st_i32 [wp_rules]:
  assumes "At E c \<Gamma> \<Delta> m s" "look64 E \<Delta> p = Some a" "ref_at (unat (a + off - pl_env_base (fst E))) = Some f"
    "look \<Gamma> m v = Some x"
    "\<And>s'. At E c \<Gamma> \<Delta> (m\<lparr>cpu := write_ref f x (cpu m)\<rparr>) s' \<Longrightarrow> Q () s'"
  shows "wp (tcg_gen_st_i32 v p off) Q s"
  unfolding tcg_gen_st_i32_def
proof (rule wp_emit_rset[where r = "Glob f" and x = x, OF assms(1)])
  show "exec_running (fst E) (Op_st_i32 v p off) S = rset (Glob f) x S" if h: "holds_in \<Gamma> \<Delta> m S" for S
    using h assms(3) by (simp add: holds_in_look64[OF h assms(2)] holds_in_look[OF h assms(4)])
qed (use assms(5) in auto)

section \<open>Guest memory\<close>

lemma wp_qemu_ld_i32 [wp_rules]:
  assumes "At E c \<Gamma> \<Delta> m s" "look \<Gamma> m a = Some x" "writable \<Gamma> r"
    "\<And>s'. At E c (upd_env r (ram_ld mo m x) \<Gamma>) \<Delta> (upd_mach r (ram_ld mo m x) m) s' \<Longrightarrow> Q () s'"
  shows "wp (tcg_gen_qemu_ld_i32 r a mo) Q s"
  unfolding tcg_gen_qemu_ld_i32_def
proof (rule wp_emit_rset[where r = r and x = "ram_ld mo m x", OF assms(1)])
  show "exec_running (fst E) (Op_qemu_ld r a mo) S = rset r (ram_ld mo m x) S" if h: "holds_in \<Gamma> \<Delta> m S" for S
    using h by (simp add: holds_in_look[OF h assms(2)]) (simp add: holds_in_def)
qed (use assms(3,4) in auto)

text \<open>An operation that changes the machine and no temporary.\<close>

lemma holds_in_mach: "holds_in \<Gamma> \<Delta> m S \<Longrightarrow> (\<And>g. \<Gamma> (Glob g) = None) \<Longrightarrow> holds_in \<Gamma> \<Delta> m' (S\<lparr>mach := m'\<rparr>)"
proof -
  assume a: "holds_in \<Gamma> \<Delta> m S" "\<And>g. \<Gamma> (Glob g) = None"
  have "rval (S\<lparr>mach := m'\<rparr>) v = x" if "\<Gamma> v = Some x" for v x
    using a that by (cases v) (auto simp: holds_in_def, (metis rval.simps)+)
  then show ?thesis using a by (simp add: holds_in_def)
qed

lemma wp_emit_mach:
  assumes "At E c \<Gamma> \<Delta> m s"
    and "\<And>S. holds_in \<Gamma> \<Delta> m S \<Longrightarrow> exec_running (fst E) op S = S\<lparr>mach := m'\<rparr>"
    and "\<And>s'. At E c \<Gamma> \<Delta> m' s' \<Longrightarrow> Q () s'"
  shows "wp (emit op) Q s"
  by (rule wp_emit[OF assms(1), where \<Gamma>' = \<Gamma> and \<Delta>' = \<Delta> and m' = m'])
     (use assms(2,3) holds_in_mach At_one_name(5)[OF assms(1)] in auto)

lemma wp_qemu_st_i32 [wp_rules]:
  assumes "At E c \<Gamma> \<Delta> m s" "look \<Gamma> m a = Some x" "look \<Gamma> m v = Some y"
    "\<And>s'. At E (c\<lparr>base_exit_check := True\<rparr>) \<Gamma> \<Delta> (ram_st mo x y m) s' \<Longrightarrow> Q () s'"
  shows "wp (tcg_gen_qemu_st_i32 v a mo) Q s"
proof -
  have "wp (emit (Op_qemu_st v a mo)) Q s'" if "At E (c\<lparr>base_exit_check := True\<rparr>) \<Gamma> \<Delta> m s'" for s'
  proof (rule wp_emit_mach[OF that])
    show "exec_running (fst E) (Op_qemu_st v a mo) S = S\<lparr>mach := ram_st mo x y m\<rparr>"
      if h: "holds_in \<Gamma> \<Delta> m S" for S
      using h by (simp add: holds_in_look[OF h assms(2)] holds_in_look[OF h assms(3)]) (simp add: holds_in_def)
  qed (rule assms(4))
  then have "wp (tcg_gen_st_op_i32 mo v a) Q s'" if "At E (c\<lparr>base_exit_check := True\<rparr>) \<Gamma> \<Delta> m s'" for s'
    unfolding tcg_gen_st_op_i32_def tcg_request_block_interrupt_check_def wp_bind
    by (intro wp_upd_dc[OF that]) simp
  then show ?thesis
    unfolding tcg_gen_qemu_st_i32_def tcg_request_block_interrupt_check_def wp_bind
    by (intro wp_upd_dc[OF assms(1)]) simp
qed

section \<open>Helper calls\<close>

lemma wp_helper_mach:
  assumes "At E c \<Gamma> \<Delta> m s"
    and "\<And>S. holds_in \<Gamma> \<Delta> m S \<Longrightarrow> call_helper (fst E) h r (map (rval S) args) S = S\<lparr>mach := m'\<rparr>"
    and "\<And>s'. At E c \<Gamma> \<Delta> m' s' \<Longrightarrow> Q () s'"
  shows "wp (tcg_gen_helperN h r args) Q s"
proof -
  have w: "holds_in \<Gamma> \<Delta> m S" if "holds_in \<Gamma> (\<Delta>(n \<mapsto> x)) m S" "\<Delta> n = None" for n x S
  proof -
    have "temps64 S k = y" if "\<Delta> k = Some y" for k y
      using that \<open>holds_in _ _ _ _\<close> \<open>\<Delta> n = None\<close> by (cases "k = n") (auto simp: holds_in_def)
    then show ?thesis using that(1) by (simp add: holds_in_def)
  qed
  have f: "wp (tcg_temp_free_i64 (Temp64 n)) Q s'" if "\<Delta> n = None" "At E c \<Gamma> (\<Delta>(n \<mapsto> x)) m' s'" for n x s'
    by (rule wp_temp_free_i64[OF that(2)]) (use that(1) assms(3) fun_upd_triv[of \<Delta> n] in simp_all)
  show ?thesis unfolding tcg_gen_helperN_def
    apply (subst wp_bind, subst wp_get_host)
    apply (unfold wp_bind)
    apply (rule wp_const_i64[OF assms(1)])
    apply (erule wp_emit_mach[where m' = m'])
     apply (simp add: assms(2)[OF w])
    apply (erule f, assumption)
    done
qed

lemma wp_helper_stb [wp_rules]:
  assumes "At E c \<Gamma> \<Delta> m s" "look \<Gamma> m a = Some x" "look \<Gamma> m v = Some y"
    "\<And>s'. At E c \<Gamma> \<Delta> (helper_rl78_stb (pl_host_ptr (fst E)) m x y) s' \<Longrightarrow> Q () s'"
  shows "wp (tcg_gen_helperN HELPER_rl78_stb None [a, v]) Q s"
proof (rule wp_helper_mach[OF assms(1)])
  show "call_helper (fst E) HELPER_rl78_stb None (map (rval S) [a, v]) S =
      S\<lparr>mach := helper_rl78_stb (pl_host_ptr (fst E)) m x y\<rparr>" if h: "holds_in \<Gamma> \<Delta> m S" for S
    using h by (simp add: holds_in_look[OF h assms(2)] holds_in_look[OF h assms(3)]) (simp add: holds_in_def)
qed (rule assms(4))

lemma wp_helper_mdu [wp_rules]:
  assumes "At E c \<Gamma> \<Delta> m s" "look \<Gamma> m v = Some y"
    "\<And>s'. At E c \<Gamma> \<Delta> (helper_rl78_mdu_cmd (pl_host_ptr (fst E)) m y) s' \<Longrightarrow> Q () s'"
  shows "wp (tcg_gen_helperN HELPER_rl78_mdu_cmd None [v]) Q s"
proof (rule wp_helper_mach[OF assms(1)])
  show "call_helper (fst E) HELPER_rl78_mdu_cmd None (map (rval S) [v]) S =
      S\<lparr>mach := helper_rl78_mdu_cmd (pl_host_ptr (fst E)) m y\<rparr>" if h: "holds_in \<Gamma> \<Delta> m S" for S
    using h by (simp add: holds_in_look[OF h assms(2)]) (simp add: holds_in_def)
qed (rule assms(3))

section \<open>Fresh temporaries\<close>

text \<open>The rules that allocate, with freshness in the form the simplifier uses to keep
  temporaries apart.\<close>

abbreviation fresh32 :: "(tcgv \<rightharpoonup> u32) \<Rightarrow> nat \<Rightarrow> bool" where
  "fresh32 \<Gamma> n \<equiv> \<Gamma> (Temp n) = None \<and> (\<forall>k. \<Gamma> (Temp k) \<noteq> None \<longrightarrow> n \<noteq> k \<and> k \<noteq> n)"

abbreviation freshL :: "(tcgv \<rightharpoonup> u32) \<Rightarrow> nat \<Rightarrow> bool" where
  "freshL \<Gamma> n \<equiv> \<Gamma> (TempL n) = None \<and> (\<forall>k. \<Gamma> (TempL k) \<noteq> None \<longrightarrow> n \<noteq> k \<and> k \<noteq> n)"

abbreviation fresh64 :: "(nat \<rightharpoonup> u64) \<Rightarrow> nat \<Rightarrow> bool" where
  "fresh64 \<Delta> n \<equiv> \<Delta> n = None \<and> (\<forall>k. \<Delta> k \<noteq> None \<longrightarrow> n \<noteq> k \<and> k \<noteq> n)"

lemma fresh_upd [simp]:
  "(\<forall>k. (\<exists>y. (if k = j then Some x else F k) = Some y) \<longrightarrow> n \<noteq> k \<and> k \<noteq> n) \<longleftrightarrow>
     n \<noteq> j \<and> j \<noteq> n \<and> (\<forall>k. (\<exists>y. F k = Some y) \<longrightarrow> n \<noteq> k \<and> k \<noteq> n)"
  by auto

lemma wp_new_i32 [wp_rules]:
  assumes "At E c \<Gamma> \<Delta> m s" "\<And>n x s'. fresh32 \<Gamma> n \<Longrightarrow> At E c (\<Gamma>(Temp n \<mapsto> x)) \<Delta> m s' \<Longrightarrow> Q (Temp n) s'"
  shows "wp tcg_temp_new_i32 Q s"
  by (rule wp_temp_new_i32[OF assms(1)], rule assms(2)) auto

lemma wp_local_new_i32 [wp_rules]:
  assumes "At E c \<Gamma> \<Delta> m s" "\<And>n x s'. freshL \<Gamma> n \<Longrightarrow> At E c (\<Gamma>(TempL n \<mapsto> x)) \<Delta> m s' \<Longrightarrow> Q (TempL n) s'"
  shows "wp tcg_temp_local_new_i32 Q s"
  by (rule wp_temp_local_new_i32[OF assms(1)], rule assms(2)) auto

lemma wp_new_i64 [wp_rules]:
  assumes "At E c \<Gamma> \<Delta> m s" "\<And>n x s'. fresh64 \<Delta> n \<Longrightarrow> At E c \<Gamma> (\<Delta>(n \<mapsto> x)) m s' \<Longrightarrow> Q (Temp64 n) s'"
  shows "wp tcg_temp_new_i64 Q s"
  by (rule wp_temp_new_i64[OF assms(1)], rule assms(2)) auto

lemma wp_new_const_i32 [wp_rules]:
  assumes "At E c \<Gamma> \<Delta> m s" "\<And>n s'. fresh32 \<Gamma> n \<Longrightarrow> At E c (\<Gamma>(Temp n \<mapsto> x)) \<Delta> m s' \<Longrightarrow> Q (Temp n) s'"
  shows "wp (tcg_const_i32 x) Q s"
  by (rule wp_const_i32[OF assms(1)], rule assms(2)) auto

text \<open>A choice of the generator.\<close>

lemma wp_if_gen [wp_rules]:
  assumes "At E c \<Gamma> \<Delta> m s" "b \<Longrightarrow> At E c \<Gamma> \<Delta> m s \<Longrightarrow> wp g Q s" "\<not> b \<Longrightarrow> At E c \<Gamma> \<Delta> m s \<Longrightarrow> wp h Q s"
  shows "wp (if b then g else h) Q s"
  using assms by simp

lemma wp_return_gen [wp_rules]: "At E c \<Gamma> \<Delta> m s \<Longrightarrow> (At E c \<Gamma> \<Delta> m s \<Longrightarrow> Q a s) \<Longrightarrow> wp (State_Monad.return a) Q s"
  by simp

text \<open>Forgetting scratch temporaries: only the result is kept.\<close>

lemma At_result:
  assumes "At E c' \<Gamma>' \<Delta>' m' s" "\<Gamma>' (Temp n) = Some x" "m' = m" "c' = c"
    and "\<And>v y. \<Gamma> v = Some y \<Longrightarrow> \<Gamma>' v = Some y" "\<And>k y. \<Delta> k = Some y \<Longrightarrow> \<Delta>' k = Some y"
  shows "At E c (\<Gamma>(Temp n \<mapsto> x)) \<Delta> m s"
  by (rule At_weaken[OF assms(1)]) (use assms in \<open>auto simp: map_le_def\<close>)

lemma At_forget:
  assumes "At E c' \<Gamma>' \<Delta>' m' s" "m' = m" "c' = c"
    and "\<And>v y. \<Gamma> v = Some y \<Longrightarrow> \<Gamma>' v = Some y" "\<And>k y. \<Delta> k = Some y \<Longrightarrow> \<Delta>' k = Some y"
  shows "At E c \<Gamma> \<Delta> m s"
  by (rule At_weaken[OF assms(1)]) (use assms in \<open>auto simp: map_le_def\<close>)

end
