(* ===== verification/TCG_Flow.thy ===== *)
theory TCG_Flow
  imports TCG_Rules64
begin

text \<open>Generators only append. \<^verbatim>\<open>grows L k g\<close> says that \<^verbatim>\<open>g\<close> appends operations to the block, sets no
  label that existed before except those in \<^verbatim>\<open>L\<close>, creates at most \<^verbatim>\<open>k\<close> temporaries and \<^verbatim>\<open>k\<close> labels, and
  keeps the first reason for an abort.
  Code that is appended changes nothing for a run that has left the block, and nothing for
  a run that waits for an older label.\<close>

section \<open>What a generator appends\<close>

named_theorems grows_rules \<open>what a generator adds to the generator state\<close>

definition ext_state :: "nat set \<Rightarrow> nat \<Rightarrow> gen_state \<Rightarrow> gen_state \<Rightarrow> bool" where
  "ext_state L k s s' \<longleftrightarrow>
     (\<exists>ops. code s' = code s @ ops \<and> (\<forall>l. Op_set_label l \<in> set ops \<longrightarrow> l \<in> L \<or> nb_labels s \<le> l)) \<and>
     nb_labels s \<le> nb_labels s' \<and> nb_labels s' \<le> nb_labels s + k \<and>
     nb_temps s \<le> nb_temps s' \<and> nb_temps s' \<le> nb_temps s + k \<and>
     (tcg_overrun s' \<longrightarrow> tcg_overrun s \<or> TCG_MAX_TEMPS < nb_temps s' \<or> TCG_MAX_LABELS < nb_labels s') \<and>
     (gen_abort s \<noteq> None \<longrightarrow> gen_abort s' = gen_abort s)"

definition grows :: "nat set \<Rightarrow> nat \<Rightarrow> 'a gen \<Rightarrow> bool" where
  "grows L k g \<longleftrightarrow> (\<forall>s. ext_state L k s (snd (run_state g s)))"

lemma ext_state_trans:
  assumes "ext_state L j s s'" "ext_state M k s' s''" "M \<subseteq> L \<union> {l. nb_labels s \<le> l}"
  shows "ext_state L (j + k) s s''"
proof -
  obtain o1 where o1: "code s' = code s @ o1" "\<forall>l. Op_set_label l \<in> set o1 \<longrightarrow> l \<in> L \<or> nb_labels s \<le> l"
    using assms(1) by (auto simp: ext_state_def)
  obtain o2 where o2: "code s'' = code s' @ o2" "\<forall>l. Op_set_label l \<in> set o2 \<longrightarrow> l \<in> M \<or> nb_labels s' \<le> l"
    using assms(2) by (auto simp: ext_state_def)
  have "nb_labels s \<le> nb_labels s'" using assms(1) by (simp add: ext_state_def)
  then have "\<exists>ops. code s'' = code s @ ops \<and> (\<forall>l. Op_set_label l \<in> set ops \<longrightarrow> l \<in> L \<or> nb_labels s \<le> l)"
    using o1 o2 assms(3) by (intro exI[of _ "o1 @ o2"]) fastforce
  then show ?thesis using assms(1,2) by (auto simp: ext_state_def)
qed

lemma grows_bind [grows_rules]:
  assumes "grows L j g" "\<And>a. grows L k (f a)"
  shows "grows L (j + k) (g \<bind> f)"
  unfolding grows_def
proof
  fix s
  obtain a s1 where r: "run_state g s = (a, s1)" by fastforce
  then have "ext_state L j s s1" "ext_state L k s1 (snd (run_state (f a) s1))"
    using assms unfolding grows_def by (metis snd_conv)+
  then show "ext_state L (j + k) s (snd (run_state (g \<bind> f) s))"
    using ext_state_trans[of L j s s1 L k] by (simp add: State_Monad.bind_def r)
qed

lemma grows_new_label:
  assumes "\<And>l. grows (insert l L) k (f l)"
  shows "grows L (1 + k) (gen_new_label \<bind> f)"
  unfolding grows_def
proof
  fix s :: gen_state
  let ?s = "s\<lparr>nb_labels := nb_labels s + 1, tcg_overrun := tcg_overrun s \<or> TCG_MAX_LABELS \<le> nb_labels s\<rparr>"
  have "ext_state (insert (nb_labels s) L) k ?s (snd (run_state (f (nb_labels s)) ?s))"
    using assms by (simp add: grows_def)
  moreover have "ext_state L 1 s ?s" by (auto simp: ext_state_def)
  ultimately show "ext_state L (1 + k) s (snd (run_state (gen_new_label \<bind> f) s))"
    using ext_state_trans[of L 1 s ?s "insert (nb_labels s) L" k]
    by (simp add: gen_new_label_def State_Monad.bind_def case_prod_beta)
qed

lemma grows_le: "grows L k g \<Longrightarrow> k \<le> k' \<Longrightarrow> grows L k' g"
  unfolding grows_def ext_state_def by (meson add_left_mono order_trans)

lemma grows_if [grows_rules]: "grows L j g \<Longrightarrow> grows L k h \<Longrightarrow> grows L (max j k) (if b then g else h)"
  by (auto intro: grows_le)

lemma grows_return [grows_rules]: "grows L 0 (State_Monad.return a)"
  by (simp add: grows_def ext_state_def State_Monad.return_def)

lemma grows_emit [grows_rules]: "(\<And>l. op = Op_set_label l \<Longrightarrow> l \<in> L) \<Longrightarrow> grows L 0 (emit op)"
  by (auto simp: grows_def ext_state_def emit_def State_Monad.update_def State_Monad.set_def State_Monad.get_def State_Monad.bind_def)

lemma grows_set_label [grows_rules]: "l \<in> L \<Longrightarrow> grows L 0 (gen_set_label l)"
  unfolding gen_set_label_def by (rule grows_emit) auto

lemma ext_alloc: "ext_state L 1 s (snd (tcg_temp_new_internal k s))"
  by (auto simp: ext_state_def tcg_temp_new_internal_def split: list.split)

lemma ext_free: "ext_state L 0 s (tcg_temp_free_internal n s)"
  by (simp add: ext_state_def tcg_temp_free_internal_def Let_def)

lemma grows_temps [grows_rules]:
  "grows L 1 tcg_temp_new_i32" "grows L 1 tcg_temp_local_new_i32" "grows L 1 tcg_temp_new_i64"
  "grows L 0 (tcg_temp_free_i32 v)" "grows L 0 (tcg_temp_free_i64 w)" "grows L 0 get_dc" "grows L 0 get_host"
  "grows L 0 (upd_dc f)" "grows L 0 (tlib_abortf e)"
proof -
  have z: "ext_state L 0 s s" for s by (simp add: ext_state_def)
  have a: "ext_state L 1 s (snd (map_prod f id (tcg_temp_new_internal k s)))" for s f and k
    using ext_alloc[of L s k] by simp
  show "grows L 1 tcg_temp_new_i32" "grows L 1 tcg_temp_local_new_i32" "grows L 1 tcg_temp_new_i64"
    unfolding grows_def tcg_temp_new_i32_def tcg_temp_local_new_i32_def tcg_temp_new_i64_def by (simp_all only: state.sel a simp_thms)
  note u = State_Monad.update_def State_Monad.set_def State_Monad.get_def State_Monad.bind_def
  show "grows L 0 (tcg_temp_free_i32 v)" 
    by (cases v) (simp_all add: grows_def u tcg_temp_free_i32.simps z ext_free State_Monad.return_def)
  show "grows L 0 (tcg_temp_free_i64 w)"
    by (cases w) (simp_all add: grows_def u tcg_temp_free_i64.simps z ext_free State_Monad.return_def)
  show "grows L 0 get_dc" "grows L 0 get_host" "grows L 0 (upd_dc f)" "grows L 0 (tlib_abortf e)"
    by (simp_all add: grows_def get_dc_def get_host_def upd_dc_def tlib_abortf_def u ext_state_def)
qed

lemma grows_ops [grows_rules]:
  "grows L 0 (tcg_gen_movi_i32 r c)" "grows L 0 (tcg_gen_mov_i32 r a)" "grows L 0 (tcg_gen_ld_i32 r p off)"
  "grows L 0 (tcg_gen_st_i32 a p off)" "grows L 0 (tcg_gen_add_i32 r a b)" "grows L 0 (tcg_gen_sub_i32 r a b)"
  "grows L 0 (tcg_gen_and_i32 r a b)" "grows L 0 (tcg_gen_or_i32 r a b)" "grows L 0 (tcg_gen_xor_i32 r a b)"
  "grows L 0 (tcg_gen_shl_i32 r a b)" "grows L 0 (tcg_gen_shr_i32 r a b)" "grows L 0 (tcg_gen_sar_i32 r a b)"
  "grows L 0 (tcg_gen_mul_i32 r a b)" "grows L 0 (tcg_gen_brcond_i32 cond a b l)" "grows L 0 (tcg_gen_setcond_i32 cond r a b)"
  "grows L 0 (tcg_gen_qemu_ld_i32 r a mo)" "grows L 0 (tcg_gen_insn_start pc)" "grows L 0 (tcg_gen_goto_tb n)"
  "grows L 0 (tcg_gen_exit_tb v)" "grows L 0 (tcg_gen_mov_i64 x y)" "grows L 0 (tcg_gen_add_i64 x y z)"
  "grows L 0 tcg_request_block_interrupt_check"
  unfolding tcg_gen_movi_i32_def tcg_gen_mov_i32_def tcg_gen_ld_i32_def tcg_gen_st_i32_def tcg_gen_add_i32_def tcg_gen_sub_i32_def
    tcg_gen_and_i32_def tcg_gen_or_i32_def tcg_gen_xor_i32_def tcg_gen_shl_i32_def tcg_gen_shr_i32_def tcg_gen_sar_i32_def
    tcg_gen_mul_i32_def tcg_gen_brcond_i32_def tcg_gen_setcond_i32_def tcg_gen_qemu_ld_i32_def tcg_gen_insn_start_def
    tcg_gen_goto_tb_def tcg_gen_exit_tb_def tcg_gen_mov_i64_def tcg_gen_add_i64_def tcg_request_block_interrupt_check_def
  by (rule grows_le, (rule grows_rules | (simp; fail))+)+
lemma grows_consts [grows_rules]:
  "grows L 1 (tcg_const_i32 a1)" "grows L 1 (tcg_const_i64 a2)"
  unfolding tcg_const_i32_def tcg_const_i64_def
  by (rule grows_le, (rule grows_rules | (simp; fail))+)+

lemma grows_imm [grows_rules]:
  "grows L 1 (tcg_gen_addi_i32 a1 b1 c1)" "grows L 1 (tcg_gen_subi_i32 a2 b2 c2)"
  "grows L 1 (tcg_gen_andi_i32 a3 b3 c3)" "grows L 1 (tcg_gen_xori_i32 a4 b4 c4)"
  "grows L 1 (tcg_gen_shli_i32 a5 b5 c5)" "grows L 1 (tcg_gen_shri_i32 a6 b6 c6)"
  "grows L 1 (tcg_gen_brcondi_i32 a7 b7 c7 d7)" "grows L 1 (tcg_gen_neg_i32 a8 b8)"
  "grows L 1 (tcg_gen_addi_i64 a9 b9 c9)" "grows L 1 (tcg_gen_shli_i64 a10 b10 c10)"
  "grows L 1 (tcg_gen_sari_i64 a11 b11 c11)" "grows L 1 (tcg_gen_helperN a12 b12 c12)"
  "grows L 0 (tcg_gen_st_op_i32 a13 b13 c13)"
  unfolding tcg_gen_addi_i32_def tcg_gen_subi_i32_def tcg_gen_andi_i32_def tcg_gen_xori_i32_def tcg_gen_shli_i32_def
    tcg_gen_shri_i32_def tcg_gen_brcondi_i32_def tcg_gen_neg_i32_def tcg_gen_addi_i64_def tcg_gen_shli_i64_def
    tcg_gen_sari_i64_def tcg_gen_helperN_def tcg_gen_st_op_i32_def Let_def
  by (rule grows_le, (rule grows_rules | (simp; fail))+)+

lemma grows_host [grows_rules]:
  "grows L 1 (tcg_gen_ext8u_i32 a1 b1)" "grows L 1 (tcg_gen_ext16u_i32 a2 b2)" "grows L 1 (tcg_gen_not_i32 a3 b3)"
  "grows L 2 (tcg_gen_ext32s_i64 a4 b4)" "grows L 0 (tcg_gen_qemu_st_i32 a5 b5 c5)"
  unfolding tcg_gen_ext8u_i32_def tcg_gen_ext16u_i32_def tcg_gen_not_i32_def tcg_gen_ext32s_i64_def
    tcg_gen_qemu_st_i32_def Let_def
  by (rule grows_le, (rule grows_rules | (simp; fail))+)+

lemma grows_fields [grows_rules]:
  "grows L 2 (tcg_gen_andc_i32 a1 b1 c1)" "grows L 4 (tcg_gen_deposit_i32 a2 b2 c2 d2 e2)"
  "grows L 2 (tcg_gen_extract_i32 a3 b3 c3 d3)" "grows L 2 (tcg_gen_ext_i32_i64 a4 b4)"
  unfolding tcg_gen_andc_i32_def tcg_gen_deposit_i32_def tcg_gen_extract_i32_def tcg_gen_ext_i32_i64_def Let_def
  by (rule grows_le, (rule grows_rules | (simp; fail))+)+

lemma grows_movcond [grows_rules]:
  "grows L 5 (tcg_gen_movcond_i32 a1 b1 c1 d1 e1 f1)"
  unfolding tcg_gen_movcond_i32_def Let_def
  by (rule grows_le, (rule grows_rules | (simp; fail))+)+

section \<open>Two facts about one run\<close>

lemma wp_mono: "wp g Q s \<Longrightarrow> (\<And>a s'. Q a s' \<Longrightarrow> R a s') \<Longrightarrow> wp g R s"
  by (auto simp: wp_def split: prod.splits)

lemma wp_conj: "wp g Q s \<Longrightarrow> wp g R s \<Longrightarrow> wp g (\<lambda>a s. Q a s \<and> R a s) s"
  by (auto simp: wp_def split: prod.splits)

section \<open>Leaving the block\<close>

definition Left :: "run_env \<Rightarrow> DisasContext \<Rightarrow> machine \<Rightarrow> gen_state \<Rightarrow> bool" where
  "Left E c m s \<longleftrightarrow> gen_abort s = None \<and> temps_wf s \<and> dc s = c \<and>
     (\<exists>v. rmode (rt_after E s) = Exited v) \<and> mach (rt_after E s) = m"

lemma temps_wf_code [simp]: "temps_wf (s\<lparr>code := x\<rparr>) = temps_wf s" "temps_wf (s\<lparr>dc := d\<rparr>) = temps_wf s"
  "temps_wf (s\<lparr>nb_labels := l, tcg_overrun := o'\<rparr>) = temps_wf s"
  by (simp_all add: temps_wf_def)

lemma live_code [simp]: "live_temps (s\<lparr>code := x\<rparr>) = live_temps s" "live_temps (s\<lparr>dc := d\<rparr>) = live_temps s"
  "live_temps (s\<lparr>nb_labels := l, tcg_overrun := o'\<rparr>) = live_temps s"
  by (simp_all add: live_temps_def fun_eq_iff)

lemma rt_after_emit: "rt_after E (s\<lparr>code := code s @ [op]\<rparr>) = exec_op (fst E) op (rt_after E s)"
  by (simp add: rt_after_def)

lemma wp_exit_tb [wp_rules]:
  assumes "At E c \<Gamma> \<Delta> m s" "\<And>s'. Left E c m s' \<Longrightarrow> Q () s'"
  shows "wp (tcg_gen_exit_tb v) Q s"
proof -
  have "Left E c m (s\<lparr>code := code s @ [Op_exit_tb v]\<rparr>)"
    using assms(1) unfolding Left_def rt_after_emit
    by (auto simp: At_def holds_in_def exec_op_def)
  then show ?thesis using assms(2) by (simp add: tcg_gen_exit_tb_def emit_def wp_update)
qed

lemma Left_emit:
  assumes "Left E c m s" "\<And>s'. Left E c m s' \<Longrightarrow> Q () s'"
  shows "wp (emit op) Q s"
proof -
  have "Left E c m (s\<lparr>code := code s @ [op]\<rparr>)"
    using assms(1) unfolding Left_def rt_after_emit by (auto simp: exec_op_def)
  then show ?thesis using assms(2) by (simp add: emit_def wp_update)
qed

lemma Left_upd_dc:
  assumes "Left E c m s" "\<And>s'. Left E (f c) m s' \<Longrightarrow> Q () s'"
  shows "wp (upd_dc f) Q s"
proof -
  have "Left E (f c) m (s\<lparr>dc := f (dc s)\<rparr>)" using assms(1) by (auto simp: Left_def rt_after_def)
  then show ?thesis using assms(2) by (simp add: upd_dc_def wp_update)
qed

lemma Left_get_dc: "Left E c m s \<Longrightarrow> (Left E c m s \<Longrightarrow> Q c s) \<Longrightarrow> wp get_dc Q s"
  by (simp add: wp_get_dc Left_def)

lemma alloc_state:
  assumes "tcg_temp_new_internal k s = (t, s')"
  shows "code s' = code s" "dc s' = dc s" "gen_abort s' = gen_abort s" "nb_labels s' = nb_labels s"
  using assms by (auto simp: tcg_temp_new_internal_def split: list.splits)

lemma free_state [simp]:
  "code (tcg_temp_free_internal t s) = code s" "dc (tcg_temp_free_internal t s) = dc s"
  "gen_abort (tcg_temp_free_internal t s) = gen_abort s" "nb_labels (tcg_temp_free_internal t s) = nb_labels s"
  by (simp_all add: tcg_temp_free_internal_def Let_def)

lemma Left_helper:
  assumes "Left E c m s" "\<And>s'. Left E c m s' \<Longrightarrow> Q () s'"
  shows "wp (tcg_gen_helperN h r args) Q s"
proof -
  obtain t s1 where a: "tcg_temp_new_internal K_I64 s = (t, s1)" by fastforce
  have wf: "temps_wf s" using assms(1) by (simp add: Left_def)
  note eq = alloc_state[OF a]
  let ?s = "tcg_temp_free_internal t (s1\<lparr>code := code s1 @ [Op_movi_i64 (Temp64 t) (helper_ptr (host s) h), Op_call h r args]\<rparr>)"
  have "temps_wf ?s"
    by (rule ta.release_inv[where k = K_I64]) (use ta.alloc_inv[OF wf a] ta.alloc_live[OF wf a] in simp_all)
  moreover have "rt_after E ?s = rt_after E s"
    using assms(1) by (auto simp: rt_after_def eq Left_def exec_op_def)
  ultimately have "Left E c m ?s" using assms(1) by (simp add: Left_def eq)
  then have "Q () ?s" by (rule assms(2))
  then show ?thesis
    by (simp add: tcg_gen_helperN_def tcg_const_i64_def tcg_temp_new_i64_def wp_State a emit_def wp_update tcg_temp_free_i64.simps)
qed

lemmas Left_ops = tcg_gen_movi_i32_def gen_set_label_def tcg_gen_goto_tb_def tcg_gen_exit_tb_def tcg_gen_insn_start_def

section \<open>Waiting for a label\<close>

definition Jump :: "run_env \<Rightarrow> DisasContext \<Rightarrow> nat \<Rightarrow> nat set \<Rightarrow> machine \<Rightarrow> gen_state \<Rightarrow> bool" where
  "Jump E c l T m s \<longleftrightarrow> gen_abort s = None \<and> temps_wf s \<and> dc s = c \<and> T \<subseteq> live_temps s K_I32 \<and> l < nb_labels s \<and>
     rmode (rt_after E s) = Jumping l \<and> mach (rt_after E s) = m"

lemma Jump_emit:
  assumes "Jump E c l T m s" "op \<noteq> Op_set_label l" "\<And>s'. Jump E c l T m s' \<Longrightarrow> Q () s'"
  shows "wp (emit op) Q s"
proof -
  have "Jump E c l T m (s\<lparr>code := code s @ [op]\<rparr>)"
    using assms(1,2) unfolding Jump_def rt_after_emit by (auto simp: exec_op_def)
  then show ?thesis using assms(3) by (simp add: emit_def wp_update)
qed

lemma Jump_upd_dc:
  assumes "Jump E c l T m s" "\<And>s'. Jump E (f c) l T m s' \<Longrightarrow> Q () s'"
  shows "wp (upd_dc f) Q s"
proof -
  have "Jump E (f c) l T m (s\<lparr>dc := f (dc s)\<rparr>)" using assms(1) by (auto simp: Jump_def rt_after_def)
  then show ?thesis using assms(2) by (simp add: upd_dc_def wp_update)
qed

lemma Jump_get_dc: "Jump E c l T m s \<Longrightarrow> (Jump E c l T m s \<Longrightarrow> Q c s) \<Longrightarrow> wp get_dc Q s"
  by (simp add: wp_get_dc Jump_def)

lemma Jump_free:
  assumes "Jump E c l T m s" "n \<in> T" "\<And>s'. Jump E c l (T - {n}) m s' \<Longrightarrow> Q () s'"
  shows "wp (tcg_temp_free_i32 (Temp n)) Q s"
proof -
  have wf: "temps_wf s" and n: "n \<in> live_temps s K_I32" using assms(1,2) by (auto simp: Jump_def)
  have "Jump E c l (T - {n}) m (tcg_temp_free_internal n s)"
    using assms(1) ta.release_inv[OF wf n] ta.release_live[OF wf n] by (auto simp: Jump_def rt_after_def)
  then show ?thesis using assms(3) by (simp add: tcg_temp_free_i32.simps wp_update)
qed

lemma Jump_label:
  assumes "Jump E c l T m s" "\<And>s'. At E c Map.empty Map.empty m s' \<Longrightarrow> Q () s'"
  shows "wp (gen_set_label l) Q s"
proof -
  have "At E c Map.empty Map.empty m (s\<lparr>code := code s @ [Op_set_label l]\<rparr>)"
    using assms(1) unfolding At_def Jump_def rt_after_emit by (auto simp: exec_op_def holds_in_def bb_end_def)
  then show ?thesis using assms(2) by (simp add: gen_set_label_def emit_def wp_update)
qed

lemma Jump_grows:
  assumes "Jump E c l T m s" "grows {} k g"
  shows "wp g (\<lambda>_ s'. rt_after E s' = rt_after E s \<and> l < nb_labels s') s"
proof -
  obtain a s' where r: "run_state g s = (a, s')" by fastforce
  then have "ext_state {} k s s'" using assms(2) unfolding grows_def by (metis snd_conv)
  then obtain ops where ops: "code s' = code s @ ops" "\<forall>l. Op_set_label l \<in> set ops \<longrightarrow> nb_labels s \<le> l" "nb_labels s \<le> nb_labels s'"
    by (auto simp: ext_state_def)
  then have "Op_set_label l \<notin> set ops" using assms(1) by (auto simp: Jump_def)
  then show ?thesis using exec_ops_Jumping[of "rt_after E s" l ops "fst E"] assms(1) ops
    by (simp add: wp_def r rt_after_def Jump_def)
qed

section \<open>Labels, branches and chaining in running code\<close>

lemma wp_new_label:
  assumes "At E c \<Gamma> \<Delta> m s" "\<And>l s'. l < nb_labels s' \<Longrightarrow> At E c \<Gamma> \<Delta> m s' \<Longrightarrow> Q l s'"
  shows "wp gen_new_label Q s"
proof -
  let ?s = "s\<lparr>nb_labels := nb_labels s + 1, tcg_overrun := tcg_overrun s \<or> TCG_MAX_LABELS \<le> nb_labels s\<rparr>"
  have "live_tcgv ?s v = live_tcgv s v" for v by (cases v) simp_all
  then have "At E c \<Gamma> \<Delta> m ?s" using assms(1) by (simp add: At_def rt_after_def)
  then show ?thesis using assms(2)[of "nb_labels s" ?s] by (simp add: gen_new_label_def wp_State)
qed

lemma holds_bb_end:
  assumes "holds_in \<Gamma> \<Delta> m S"
  shows "holds_in (\<lambda>v. if v \<in> dom \<Gamma> then Some (rval (bb_end P S) v) else None) Map.empty m (bb_end P S)"
  using assms by (auto simp: holds_in_def bb_end_def split: if_splits)

lemma At_bb_end:
  assumes "At E c \<Gamma> \<Delta> m s" "rt_after E s' = bb_end (fst E) (rt_after E s)" "gen_abort s' = gen_abort s" "dc s' = dc s"
    "live_temps s' = live_temps s" "temps_wf s' = temps_wf s"
  obtains \<Gamma>' where "dom \<Gamma>' = dom \<Gamma>" "At E c \<Gamma>' Map.empty m s'"
proof -
  let ?G = "\<lambda>v. if v \<in> dom \<Gamma> then Some (rval (bb_end (fst E) (rt_after E s)) v) else None"
  have d: "dom ?G = dom \<Gamma>" by (auto split: if_splits)
  have "live_tcgv s' v = live_tcgv s v" for v using assms(5) by (cases v) simp_all
  then have "At E c ?G Map.empty m s'" using assms holds_bb_end[of \<Gamma> \<Delta> m "rt_after E s" "fst E"]
    unfolding At_def d by simp
  then show ?thesis using that d by blast
qed

lemma wp_goto_tb [wp_rules]:
  assumes "At E c \<Gamma> \<Delta> m s" "\<And>s'. At E c Map.empty Map.empty m s' \<Longrightarrow> Q () s'"
  shows "wp (tcg_gen_goto_tb n) Q s"
proof -
  have r: "rmode (rt_after E s) = Running" using assms(1) by (simp add: At_def holds_in_def)
  obtain \<Gamma>' where "At E c \<Gamma>' Map.empty m (s\<lparr>code := code s @ [Op_goto_tb n]\<rparr>)"
    by (rule At_bb_end[OF assms(1), of "s\<lparr>code := code s @ [Op_goto_tb n]\<rparr>"])
       (simp_all add: rt_after_emit exec_op_Running[OF r])
  then have "At E c Map.empty Map.empty m (s\<lparr>code := code s @ [Op_goto_tb n]\<rparr>)" by (rule At_weaken) simp_all
  then show ?thesis using assms(2) by (simp add: tcg_gen_goto_tb_def emit_def wp_update)
qed

lemma wp_insn_start [wp_rules]:
  assumes "At E c \<Gamma> \<Delta> m s" "\<And>s'. At E c \<Gamma> \<Delta> m s' \<Longrightarrow> Q () s'"
  shows "wp (tcg_gen_insn_start pc) Q s"
  unfolding tcg_gen_insn_start_def
  by (rule wp_emit[OF assms(1), where \<Gamma>' = \<Gamma> and \<Delta>' = \<Delta> and m' = m]) (simp_all add: assms(2))

lemma wp_brcond:
  assumes "At E c \<Gamma> \<Delta> m s" "look \<Gamma> m a = Some x" "look \<Gamma> m b = Some y" "l < nb_labels s"
    and "\<And>s'. eval_cond cond x y \<Longrightarrow> Jump E c l {n. \<Gamma> (Temp n) \<noteq> None} m s' \<Longrightarrow> Q () s'"
    and "\<And>s' \<Gamma>'. \<not> eval_cond cond x y \<Longrightarrow> dom \<Gamma>' = dom \<Gamma> \<Longrightarrow> At E c \<Gamma>' Map.empty m s' \<Longrightarrow> Q () s'"
  shows "wp (tcg_gen_brcond_i32 cond a b l) Q s"
proof -
  let ?s = "s\<lparr>code := code s @ [Op_brcond_i32 a b cond l]\<rparr>"
  have h: "holds_in \<Gamma> \<Delta> m (rt_after E s)" using assms(1) by (simp add: At_def)
  then have r: "rmode (rt_after E s) = Running" by (simp add: holds_in_def)
  have e: "rt_after E ?s = (if eval_cond cond x y then (bb_end (fst E) (rt_after E s))\<lparr>rmode := Jumping l\<rparr> else bb_end (fst E) (rt_after E s))"
    by (simp add: rt_after_emit exec_op_Running[OF r] holds_in_look[OF h assms(2)] holds_in_look[OF h assms(3)])
  have "Q () ?s"
  proof (cases "eval_cond cond x y")
    case True
    have "{n. \<Gamma> (Temp n) \<noteq> None} \<subseteq> live_temps s K_I32" using At_live[OF assms(1)] by force
    then have "Jump E c l {n. \<Gamma> (Temp n) \<noteq> None} m ?s"
      using assms(1,4) True h unfolding Jump_def e by (auto simp: At_def holds_in_def bb_end_def)
    then show ?thesis using assms(5) True by blast
  next
    case False
    show ?thesis by (rule At_bb_end[OF assms(1), of ?s]) (simp_all add: e False assms(6))
  qed
  then show ?thesis by (simp add: tcg_gen_brcond_i32_def emit_def wp_update)
qed

lemma wp_brcondi:
  assumes "At E c \<Gamma> \<Delta> m s" "look \<Gamma> m a = Some x" "l < nb_labels s"
    and "\<And>s'. eval_cond cond x k \<Longrightarrow> Jump E c l {n. \<Gamma> (Temp n) \<noteq> None} m s' \<Longrightarrow> Q () s'"
    and "\<And>s' \<Gamma>'. \<not> eval_cond cond x k \<Longrightarrow> dom \<Gamma>' = dom \<Gamma> \<Longrightarrow> At E c \<Gamma>' Map.empty m s' \<Longrightarrow> Q () s'"
  shows "wp (tcg_gen_brcondi_i32 cond a k l) Q s"
proof -
  have b: "wp (tcg_gen_brcond_i32 cond a (Temp n) l) (\<lambda>_. wp (tcg_temp_free_i32 (Temp n)) Q) s'"
    if f: "\<Gamma> (Temp n) = None" and A: "At E c (\<Gamma>(Temp n \<mapsto> k)) \<Delta> m s'" and l: "l < nb_labels s'" for n s'
  proof (rule wp_brcond[OF A look_fresh[OF assms(2) f]])
    show "look (\<Gamma>(Temp n \<mapsto> k)) m (Temp n) = Some k" "l < nb_labels s'" using l by simp_all
  next
    fix s2 assume "eval_cond cond x k" and J: "Jump E c l {na. (\<Gamma>(Temp n \<mapsto> k)) (Temp na) \<noteq> None} m s2"
    moreover have "{na. (\<Gamma>(Temp n \<mapsto> k)) (Temp na) \<noteq> None} - {n} = {n. \<Gamma> (Temp n) \<noteq> None}" using f by auto
    ultimately show "wp (tcg_temp_free_i32 (Temp n)) Q s2"
      by (intro Jump_free[OF J]) (simp_all add: assms(4))
  next
    fix s2 \<Gamma>' assume n: "\<not> eval_cond cond x k" and d: "dom \<Gamma>' = dom (\<Gamma>(Temp n \<mapsto> k))" and A': "At E c \<Gamma>' Map.empty m s2"
    then obtain y where y: "\<Gamma>' (Temp n) = Some y" by (metis domD domI fun_upd_same)
    have "dom (\<Gamma>'(Temp n := None)) = dom \<Gamma>" using d f by auto
    then show "wp (tcg_temp_free_i32 (Temp n)) Q s2" using assms(5)[OF n] by (intro wp_temp_free_i32[OF A' y])
  qed
  have n: "wp (tcg_const_i32 k) (\<lambda>a s'. nb_labels s' = nb_labels s) s"
    by (cases "tcg_temp_new_internal K_I32 s")
       (simp add: tcg_const_i32_def tcg_temp_new_i32_def wp_State tcg_gen_movi_i32_def emit_def wp_update alloc_state(4))
  have a: "wp (tcg_const_i32 k) (\<lambda>a s'. \<exists>n. a = Temp n \<and> \<Gamma> (Temp n) = None \<and> At E c (\<Gamma>(Temp n \<mapsto> k)) \<Delta> m s') s"
    by (rule wp_const_i32[OF assms(1)]) auto
  show ?thesis unfolding tcg_gen_brcondi_i32_def wp_bind
  proof (rule wp_mono[OF wp_conj[OF n a]], elim conjE exE)
    fix v s' i assume "nb_labels s' = nb_labels s" "v = Temp i" "\<Gamma> (Temp i) = None" "At E c (\<Gamma>(Temp i \<mapsto> k)) \<Delta> m s'"
    then show "wp (tcg_gen_brcond_i32 cond a v l) (\<lambda>_. wp (tcg_temp_free_i32 v) Q) s'" using b assms(3) by simp
  qed
qed

section \<open>Helpers that end the block or return a value\<close>

lemma wp_try_exit:
  assumes "At E c \<Gamma> \<Delta> m s" "sint (env_exception_index (cpu m)) < 0" "\<And>s'. At E c \<Gamma> \<Delta> m s' \<Longrightarrow> Q () s'"
  shows "wp (tcg_gen_helperN HELPER_try_exit_cpu_loop None []) Q s"
proof (rule wp_helper_mach[OF assms(1), where m' = m])
  show "call_helper (fst E) HELPER_try_exit_cpu_loop None (map (rval S) []) S = S\<lparr>mach := m\<rparr>"
    if "holds_in \<Gamma> \<Delta> m S" for S
    using that assms(2) by (simp add: holds_in_def)
qed (rule assms(3))

lemma wp_helper_btclr [wp_rules]:
  assumes "At E c \<Gamma> \<Delta> m s" "look \<Gamma> m a = Some x" "look \<Gamma> m b = Some y" "look \<Gamma> m d = Some z" "look \<Gamma> m e = Some w" "\<Gamma> (TempL n) \<noteq> None"
    "\<And>s'. At E c (\<Gamma>(TempL n \<mapsto> fst (helper_rl78_btclr (pl_host_ptr (fst E)) m x y z w))) \<Delta>
       (snd (helper_rl78_btclr (pl_host_ptr (fst E)) m x y z w)) s' \<Longrightarrow> Q () s'"
  shows "wp (tcg_gen_helperN HELPER_rl78_btclr (Some (TempL n)) [a, b, d, e]) Q s"
proof -
  let ?h = "helper_rl78_btclr (pl_host_ptr (fst E)) m x y z w"
  let ?op = "Op_call HELPER_rl78_btclr (Some (TempL n)) [a, b, d, e]"
  let ?G = "\<Gamma>(TempL n \<mapsto> fst ?h)"
  have ng: "\<forall>v\<in>dom \<Gamma>. \<forall>r. v \<noteq> Glob r" using At_one_name(5)[OF assms(1)] by auto
  have "holds_in ?G \<Delta>' (snd ?h) (exec_running (fst E) ?op S)" if h: "holds_in \<Gamma> \<Delta>' m S" for S \<Delta>'
  proof -
    have "exec_running (fst E) ?op S = rset (TempL n) (fst ?h) (S\<lparr>mach := snd ?h\<rparr>)"
      using h by (simp add: holds_in_look[OF h assms(2)] holds_in_look[OF h assms(3)] holds_in_look[OF h assms(4)]
          holds_in_look[OF h assms(5)] case_prod_beta) (simp add: holds_in_def)
    moreover have "holds_in \<Gamma> \<Delta>' (snd ?h) (S\<lparr>mach := snd ?h\<rparr>)"
      by (rule holds_in_mach[OF h]) (rule At_one_name(5)[OF assms(1)])
    ultimately show ?thesis using holds_in_rset[OF _ ng, of \<Delta>' "snd ?h" "S\<lparr>mach := snd ?h\<rparr>" "TempL n" "fst ?h"] by simp
  qed
  then have e: "wp (emit ?op) R s'" if "At E c \<Gamma> \<Delta>' m s'" "\<And>s''. At E c ?G \<Delta>' (snd ?h) s'' \<Longrightarrow> R () s''" for \<Delta>' s' R
    using assms(6) by (intro wp_emit[OF that(1), where \<Gamma>' = ?G and \<Delta>' = \<Delta>' and m' = "snd ?h"]) (auto simp: that(2))
  show ?thesis unfolding tcg_gen_helperN_def
    apply (subst wp_bind, subst wp_get_host)
    apply (unfold wp_bind)
    apply (rule wp_const_i64[OF assms(1)])
    apply (erule e)
    apply (erule wp_temp_free_i64, simp)
    apply (rule assms(7))
    apply (simp add: fun_upd_idem)
    done
qed

end
