(* ===== verification/RL78_Flow.thy ===== *)
theory RL78_Flow
  imports RL78_Translate TCG_Flow
begin

text \<open>What the generators of the translator append: no label of their own stays open, and
  one instruction never needs more than 200 temporaries.\<close>

lemma grows_mem [grows_rules]:
  "grows L 0 gen_sync_pc" "grows L 3 (rl78_gen_addr a2)" "grows L 3 (rl78_gen_load a3 b3)"
  "grows L 2 (rl78_gen_store a4 b4 c4)" "grows L 8 (reg_ptr a5)"
  unfolding gen_sync_pc_def rl78_gen_addr_def rl78_gen_load_def rl78_gen_store_def reg_ptr_def Let_def
  by (rule grows_le, (rule grows_rules | (simp; fail))+)+

lemma grows_access [grows_rules]:
  "grows L 3 (rl78_gen_lb a1)" "grows L 5 (rl78_gen_lw a2)" "grows L 2 (rl78_gen_sb a3 b3)"
  "grows L 4 (rl78_gen_sw a4 b4)" "grows L 10 (load_byte_reg a5)" "grows L 13 (load_word_reg a6)"
  "grows L 10 (store_byte_reg a7 b7)" "grows L 13 (store_word_reg a8 b8)" "grows L 31 load_psw"
  "grows L 28 (store_psw a10)" "grows L 2 load_sp" "grows L 2 (store_sp a12)" "grows L 1 load_es"
  "grows L 0 (store_es a14)" "grows L 1 load_psw_cy" "grows L 0 (store_psw_cy a16)"
  unfolding rl78_gen_lb_def rl78_gen_lw_def rl78_gen_sb_def rl78_gen_sw_def load_byte_reg_def load_word_reg_def
    store_byte_reg_def store_word_reg_def load_psw_def store_psw_def load_sp_def store_sp_def load_es_def
    store_es_def load_psw_cy_def store_psw_cy_def Let_def
  by (rule grows_le, (rule grows_rules | (simp; fail))+)+

lemma grows_paddr [grows_rules]:
  "grows L 31 (load_byte_paddr a1 b1)" "grows L 4 (load_word_paddr a2 b2)" "grows L 28 (store_byte_paddr a3 b3 c3)"
  "grows L 3 (store_word_paddr a4 b4 c4)"
  unfolding load_byte_paddr_def load_word_paddr_def store_byte_paddr_def store_word_paddr_def Let_def
  by (rule grows_le, (rule grows_rules | (simp; fail))+)+

lemma grows_case_memop [grows_rules]:
  "grows L j g \<Longrightarrow> grows L k h \<Longrightarrow> grows L (max j k) (case mo of MO_8 \<Rightarrow> g | MO_16 \<Rightarrow> h)"
  by (cases mo) (auto intro: grows_le)

lemma grows_load_paddr [grows_rules]:
  "grows L 31 (load_paddr a1 b1)" "grows L 28 (store_paddr a2 b2 c2)"
  unfolding load_paddr_def store_paddr_def Let_def
  by (rule grows_le, (rule grows_rules | (simp; fail))+)+

lemma grows_fixed [grows_rules]:
  "grows L 31 (load_abs16 a1 b1)" "grows L 28 (store_abs16 a2 b2 c2)" "grows L 31 (load_saddr a3 b3)"
  "grows L 28 (store_saddr a4 b4 c4)" "grows L 31 (load_sfr a5 b5)" "grows L 28 (store_sfr a6 b6 c6)"
  unfolding load_abs16_def store_abs16_def load_saddr_def store_saddr_def load_sfr_def store_sfr_def Let_def
  by (rule grows_le, (rule grows_rules | (simp; fail))+)+

lemma grows_ea [grows_rules]:
  "grows L 16 (ind_reg a1)" "grows L 26 (ind_reg_reg a2 b2)" "grows L 17 (ind_reg_imm a3 b3)"
  "grows L 6 (ind_sp_imm a4)" "grows L 14 (ind_base_byte a5 b5)" "grows L 17 (ind_base_word a6 b6)"
  unfolding ind_reg_def ind_reg_reg_def ind_reg_imm_def ind_sp_imm_def ind_base_byte_def ind_base_word_def Let_def
  by (rule grows_le, (rule grows_rules | (simp; fail))+)+

lemma grows_ind [grows_rules]:
  "grows L 29 (load_ind_reg a1 b1)" "grows L 28 (store_ind_reg a2 b2 c2)" "grows L 29 (load_ind_reg_reg a3 b3 c3)"
  "grows L 28 (store_ind_reg_reg a4 b4 c4 d4)" "grows L 29 (load_ind_reg_imm a5 b5 c5)"
  "grows L 28 (store_ind_reg_imm a6 b6 c6 d6)" "grows L 29 (load_ind_sp_imm a7 b7)"
  "grows L 28 (store_ind_sp_imm a8 b8 c8)" "grows L 29 (load_ind_base_byte a9 b9 c9)"
  "grows L 28 (store_ind_base_byte a10 b10 c10 d10)" "grows L 29 (load_ind_base_word a11 b11 c11)"
  "grows L 28 (store_ind_base_word a12 b12 c12 d12)"
  unfolding load_ind_reg_def store_ind_reg_def load_ind_reg_reg_def store_ind_reg_reg_def load_ind_reg_imm_def
    store_ind_reg_imm_def load_ind_sp_imm_def store_ind_sp_imm_def load_ind_base_byte_def store_ind_base_byte_def
    load_ind_base_word_def store_ind_base_word_def Let_def
  by (rule grows_le, (rule grows_rules | (simp; fail))+)+

lemma grows_case_bit:
  "grows L k a \<Longrightarrow> grows L k b \<Longrightarrow> grows L k c \<Longrightarrow> grows L k d \<Longrightarrow> grows L k e \<Longrightarrow> grows L k f \<Longrightarrow>
   grows L k (case x of BITOP_SADDR \<Rightarrow> a | BITOP_SFR \<Rightarrow> b | BITOP_REG_A \<Rightarrow> c | BITOP_ABS16 \<Rightarrow> d | BITOP_IND_HL \<Rightarrow> e | BITOP_CY \<Rightarrow> f)"
  by (cases x) simp_all

lemma grows_bits [grows_rules]: "grows L 34 (rl78_gen_load_bit b)" "grows L 32 (rl78_gen_store_bit b d)"
proof -
  have l: "grows L 31 (case bit_kind b of
         BITOP_SADDR \<Rightarrow> load_saddr (bit_addr b) MO_8 | BITOP_SFR \<Rightarrow> load_sfr (bit_addr b) MO_8
       | BITOP_REG_A \<Rightarrow> load_byte_reg REG_A | BITOP_ABS16 \<Rightarrow> load_abs16 (bit_addr b) MO_8
       | BITOP_IND_HL \<Rightarrow> load_ind_reg_imm REG_HL 0 MO_8 | BITOP_CY \<Rightarrow> load_psw_cy)"
    by (rule grows_case_bit; rule grows_le, rule grows_rules, simp)
  have s: "grows L 28 (case bit_kind b of
         BITOP_SADDR \<Rightarrow> store_saddr (bit_addr b) v MO_8 | BITOP_SFR \<Rightarrow> store_sfr (bit_addr b) v MO_8
       | BITOP_REG_A \<Rightarrow> store_byte_reg REG_A v | BITOP_ABS16 \<Rightarrow> store_abs16 (bit_addr b) v MO_8
       | BITOP_IND_HL \<Rightarrow> store_ind_reg_imm REG_HL 0 v MO_8 | BITOP_CY \<Rightarrow> store_psw_cy v)" for v
    by (rule grows_case_bit; rule grows_le, rule grows_rules, simp)
  show "grows L 34 (rl78_gen_load_bit b)" "grows L 32 (rl78_gen_store_bit b d)"
    unfolding rl78_gen_load_bit_def rl78_gen_store_bit_def Let_def
    by (rule grows_le, (rule l s grows_rules | (simp; fail))+)+
qed

lemma grows_operands [grows_rules]: "grows L 31 (rl78_gen_load_operand op mo)" "grows L 28 (rl78_gen_store_operand op v mo)"
  by (cases op; simp only: rl78_gen_load_operand.simps rl78_gen_store_operand.simps;
      rule grows_le, (rule grows_rules | (simp; fail))+)+

lemma grows_exits [grows_rules]:
  "grows L 0 (gen_exit_tb a1)" "grows L 0 gen_exit_tb_no_chaining" "grows L 0 (set_is_jmp a3)"
  unfolding gen_exit_tb_def gen_exit_tb_no_chaining_def set_is_jmp_def Let_def
  by (rule grows_le, (rule grows_rules | (simp; fail))+)+

lemma grows_goto [grows_rules]:
  "grows L 0 (gen_goto_tb a1 b1)"
  unfolding gen_goto_tb_def Let_def
  by (rule grows_le, (rule grows_rules | (simp; fail))+)+

lemma grows_goto2 [grows_rules]:
  "grows L 0 (rl78_gen_goto_tb a1 b1)"
  unfolding rl78_gen_goto_tb_def Let_def
  by (rule grows_le, (rule grows_rules | (simp; fail))+)+

lemma grows_flags [grows_rules]:
  "grows L 3 (borrow_byte a1)" "grows L 3 (carry_byte a2)" "grows L 10 (zero_byte a3)" "grows L 3 (borrow_word a4)"
  "grows L 3 (carry_word a5)" "grows L 10 (zero_word a6)" "grows L 4 (half_carry a7 b7 c7)"
  "grows L 4 (half_borrow a8 b8 c8)"
  unfolding borrow_byte_def carry_byte_def zero_byte_def borrow_word_def carry_word_def zero_word_def half_carry_def
    half_borrow_def Let_def
  by (rule grows_le, (rule grows_rules | (simp; fail))+)+

lemma grows_jumps [grows_rules]:
  "grows L 20 (rl78_gen_ind_jump a1)" "grows L 0 (rl78_gen_abs_jump a2)" "grows L 0 (rl78_gen_rel_jump a3)"
  "grows L 70 (rl78_gen_prepare_call a4)" "grows L 80 (rl78_gen_ret a5)" "grows L 10 (rl78_gen_skip a6 b6)"
  unfolding rl78_gen_ind_jump_def rl78_gen_abs_jump_def rl78_gen_rel_jump_def rl78_gen_prepare_call_def
    rl78_gen_ret_def rl78_gen_skip_def Let_def
  by (rule grows_le, (rule grows_rules | (simp; fail))+)+

lemma grows_calls [grows_rules]:
  "grows L 100 (call_ind_reg a1)" "grows L 100 (call_abs a2)"
  unfolding call_ind_reg_def call_abs_def Let_def
  by (rule grows_le, (rule grows_rules | (simp; fail))+)+

lemma grows_calls2 [grows_rules]:
  "grows L 100 (call_rel a1)"
  unfolding call_rel_def Let_def
  by (rule grows_le, (rule grows_rules | (simp; fail))+)+

lemma grows_branch [grows_rules]: "grows L 2 (rl78_gen_branch v cond x)"
  unfolding rl78_gen_branch_def Let_def
  by (rule grows_le, rule grows_bind, rule grows_rules, rule grows_new_label, (rule grows_rules | (simp; fail))+)

lemma grows_data [grows_rules]:
  "grows L 200 (trans_MOV a1)" "grows L 200 (trans_ONEB a2)" "grows L 200 (trans_XCH a3)"
  "grows L 200 (trans_MOVW a4)" "grows L 200 (trans_CLRB a5)" "grows L 200 (trans_ONEW a6)"
  "grows L 200 (trans_CLRW a7)" "grows L 200 (trans_ADD a8)" "grows L 200 (trans_SUB a9)"
  "grows L 200 (trans_SUBC a10)" "grows L 200 (trans_XCHW a11)" "grows L 200 (trans_MOVS a12)"
  "grows L 200 (trans_CMP a13)" "grows L 200 (trans_CMP0 a14)" "grows L 200 (trans_CMPS a15)"
  "grows L 200 (trans_ADDC a16)" "grows L 200 (trans_ADDW a17)" "grows L 200 (trans_SUBW a18)"
  "grows L 200 (trans_CMPW a19)" "grows L 200 (trans_MULU a20)" "grows L 200 (trans_INC a21)"
  "grows L 200 (trans_DEC a22)" "grows L 200 (trans_INCW a23)" "grows L 200 (trans_DECW a24)"
  "grows L 200 (trans_ROR a25)" "grows L 200 (trans_ROL a26)" "grows L 200 (trans_RORC a27)"
  "grows L 200 (trans_ROLC a28)" "grows L 200 (trans_ROLWC a29)"
  unfolding trans_MOV_def trans_ONEB_def trans_XCH_def trans_MOVW_def trans_CLRB_def trans_ONEW_def trans_CLRW_def
    trans_ADD_def trans_SUB_def trans_SUBC_def trans_XCHW_def trans_MOVS_def trans_CMP_def trans_CMP0_def
    trans_CMPS_def trans_ADDC_def trans_ADDW_def trans_SUBW_def trans_CMPW_def trans_MULU_def trans_INC_def
    trans_DEC_def trans_INCW_def trans_DECW_def trans_ROR_def trans_ROL_def trans_RORC_def trans_ROLC_def
    trans_ROLWC_def Let_def
  by (rule grows_le, (rule grows_rules | (simp; fail))+)+

lemma grows_data2 [grows_rules]:
  "grows L 200 (trans_XOR a1)" "grows L 200 (trans_AND a2)" "grows L 200 (trans_OR a3)"
  unfolding trans_XOR_def trans_AND_def trans_OR_def bitwise_def
  by (rule grows_le, (rule grows_rules | (simp; fail))+)+

lemma grows_ctrl [grows_rules]:
  "grows L 200 (trans_CALLT a1)" "grows L 200 (trans_RET a2)" "grows L 200 (trans_RETI a3)"
  "grows L 200 (trans_BC a4)" "grows L 200 (trans_BNC a5)" "grows L 200 (trans_BZ a6)" "grows L 200 (trans_BNZ a7)"
  "grows L 200 (trans_BH a8)" "grows L 200 (trans_BNH a9)" "grows L 200 (trans_BT a10)" "grows L 200 (trans_BF a11)"
  "grows L 200 (trans_BTCLR a12)" "grows L 200 (trans_BRK a13)" "grows L 200 (trans_RETB a14)"
  "grows L 200 (trans_SKZ a15)" "grows L 200 (trans_SKC a16)" "grows L 200 (trans_SKNC a17)"
  "grows L 200 (trans_SKNZ a18)" "grows L 200 (trans_SKH a19)" "grows L 200 (trans_SKNH a20)"
  "grows L 200 (trans_SEL a21)" "grows L 200 (trans_NOP a22)" "grows L 200 (trans_XOR1 a23)"
  "grows L 200 (trans_OR1 a24)" "grows L 200 (trans_SET1 a25)" "grows L 200 (trans_AND1 a26)"
  "grows L 200 (trans_NOT1 a27)" "grows L 200 (trans_CLR1 a28)" "grows L 200 (trans_MOV1 a29)"
  "grows L 200 (trans_unimplemented a30)"
  unfolding trans_CALLT_def trans_RET_def trans_RETI_def trans_BC_def trans_BNC_def trans_BZ_def trans_BNZ_def
    trans_BH_def trans_BNH_def trans_BT_def trans_BF_def trans_BTCLR_def trans_BRK_def trans_RETB_def trans_SKZ_def
    trans_SKC_def trans_SKNC_def trans_SKNZ_def trans_SKH_def trans_SKNH_def trans_SEL_def trans_NOP_def
    trans_XOR1_def trans_OR1_def trans_SET1_def trans_AND1_def trans_NOT1_def trans_CLR1_def trans_MOV1_def
    trans_unimplemented_def Let_def
  by (rule grows_le, (rule grows_rules | (simp; fail))+)+

lemma grows_shift [grows_rules]:
  "grows L 200 (shift_logical_right a1)" "grows L 200 (shift_left a2 b2)" "grows L 200 (shift_arithmetic_right a3 b3)"
  unfolding shift_logical_right_def shift_left_def shift_arithmetic_right_def Let_def
  by (rule grows_le, (rule grows_rules | (simp; fail))+)+

lemma grows_shifts [grows_rules]:
  "grows L 200 (trans_SHR a1)" "grows L 200 (trans_SHRW a2)" "grows L 200 (trans_SHL a3)"
  "grows L 200 (trans_SHLW a4)" "grows L 200 (trans_SAR a5)" "grows L 200 (trans_SARW a6)"
  unfolding trans_SHR_def trans_SHRW_def trans_SHL_def trans_SHLW_def trans_SAR_def trans_SARW_def Let_def
  by (rule grows_le, (rule grows_rules | (simp; fail))+)+

lemma grows_union [grows_rules]:
  "grows L 200 (trans_CALL i)" "grows L 200 (trans_BR i)" "grows L 200 (trans_PUSH i)" "grows L 200 (trans_POP i)"
  unfolding trans_CALL_def trans_BR_def trans_PUSH_def trans_POP_def
  by (cases "operand0 i"; simp only: RL78Operand.case; rule grows_le, (rule grows_rules | (simp; fail))+)+

end
