(* ===== verification/RL78_ISA.thy ===== *)
theory RL78_ISA
  imports RL78_Decode TCG_Exec
begin

text \<open>The instruction set as an abstract specification: what each decoded instruction does
  to the machine, without temporaries, labels or generated code. Arithmetic is on natural
  numbers and integers, flags are truth values. The translator is shown to implement it
  in the theories \<^verbatim>\<open>RL78_Operand_Rules\<close> to \<^verbatim>\<open>RL78_Dispatch\<close> and \<^verbatim>\<open>RL78_Block\<close>.\<close>

section \<open>Memory and registers\<close>

definition bank_base :: "bool \<Rightarrow> machine \<Rightarrow> u32" where
  "bank_base es m = (if es then push_bit 16 (env_es (cpu m)) else 0xF0000)"

definition align :: "TCGMemOp \<Rightarrow> u32 \<Rightarrow> u32" where
  "align mo a = (if mo = MO_16 then a AND NOT 1 else a)"

definition mem_ld :: "TCGMemOp \<Rightarrow> machine \<Rightarrow> u32 \<Rightarrow> u32" where
  "mem_ld mo m a = ram_ld mo m (align mo a)"

definition mem_st :: "TCGMemOp \<Rightarrow> u32 \<Rightarrow> u32 \<Rightarrow> machine \<Rightarrow> machine" where
  "mem_st mo a v m = ram_st mo (align mo a) v m"

definition cur_bank :: "machine \<Rightarrow> nat" where
  "cur_bank m = unat (psw_rbs (env_psw (cpu m)))"

definition gpr8 :: "machine \<Rightarrow> RL78ByteRegister \<Rightarrow> u32" where
  "gpr8 m r = env_regs (cpu m) (cur_bank m) (byte_reg_num r)"

definition gpr16 :: "machine \<Rightarrow> RL78WordRegister \<Rightarrow> u32" where
  "gpr16 m r = rl78_get_rp (cpu m) r"

definition set_gpr8 :: "RL78ByteRegister \<Rightarrow> u32 \<Rightarrow> machine \<Rightarrow> machine" where
  "set_gpr8 r v m = m\<lparr>cpu := set_reg (cur_bank m) (byte_reg_num r) (v AND 0xFF) (cpu m)\<rparr>"

definition set_gpr16 :: "RL78WordRegister \<Rightarrow> u32 \<Rightarrow> machine \<Rightarrow> machine" where
  "set_gpr16 r v m = m\<lparr>cpu := rl78_set_rp (cpu m) r v\<rparr>"

definition set_psw :: "u32 \<Rightarrow> machine \<Rightarrow> machine" where
  "set_psw v m = m\<lparr>cpu := (cpu m)\<lparr>env_psw := rl78_cpu_unpack_psw (ucast v)\<rparr>\<rparr>"

section \<open>Operands\<close>

text \<open>The registers that are visible at fixed addresses, for byte and word accesses.\<close>

definition ld_paddr :: "TCGMemOp \<Rightarrow> u32 \<Rightarrow> machine \<Rightarrow> u32" where
  "ld_paddr mo a m =
     (if mo = MO_16 then if a = 0xFFFF8 then env_sp (cpu m) AND 0xFFFE else mem_ld mo m a
      else if a = 0xFFFF8 then env_sp (cpu m) AND 0xFE
      else if a = 0xFFFF9 then drop_bit 8 (env_sp (cpu m)) AND 0xFF
      else if a = 0xFFFFA then ucast (rl78_cpu_pack_psw (env_psw (cpu m)))
      else if a = 0xFFFFC then env_cs (cpu m)
      else if a = 0xFFFFD then env_es (cpu m)
      else mem_ld mo m a)"

definition st_paddr :: "(u32 \<Rightarrow> bool) \<Rightarrow> TCGMemOp \<Rightarrow> u32 \<Rightarrow> u32 \<Rightarrow> machine \<Rightarrow> machine" where
  "st_paddr hp mo a v m =
     (if mo = MO_16 then if a = 0xFFFF8 then m\<lparr>cpu := (cpu m)\<lparr>env_sp := v AND 0xFFFE\<rparr>\<rparr> else mem_st mo a v m
      else if a = 0xFFFF8 then m\<lparr>cpu := (cpu m)\<lparr>env_sp := deposit32 (env_sp (cpu m)) v 0 8 AND 0xFFFE\<rparr>\<rparr>
      else if a = 0xFFFF9 then m\<lparr>cpu := (cpu m)\<lparr>env_sp := deposit32 (env_sp (cpu m)) v 8 8 AND 0xFFFE\<rparr>\<rparr>
      else if a = 0xFFFFA then set_psw v m
      else if a = 0xFFFFB then helper_rl78_mdu_cmd hp m v
      else if a = 0xFFFFC then m\<lparr>cpu := (cpu m)\<lparr>env_cs := deposit32 (env_cs (cpu m)) v 0 4\<rparr>\<rparr>
      else if a = 0xFFFFD then m\<lparr>cpu := (cpu m)\<lparr>env_es := deposit32 (env_es (cpu m)) v 0 4\<rparr>\<rparr>
      else rl78_write_byte hp m a v)"

definition saddr_of :: "u32 \<Rightarrow> u32" where
  "saddr_of a = (if a < 0x20 then 0xFFF00 else 0xFFE00) + a"

text \<open>The effective address of an indirect operand.\<close>

fun ind_ea :: "bool \<Rightarrow> machine \<Rightarrow> RL78Operand \<Rightarrow> u32 option" where
  "ind_ea es m (OP_IND_REG r) = Some (gpr16 m r OR bank_base es m)"
| "ind_ea es m (OP_IND_REG_REG r i) = Some ((gpr16 m r + gpr8 m i) OR bank_base es m)"
| "ind_ea es m (OP_IND_REG_IMM r v) = Some ((gpr16 m r + v) OR bank_base es m)"
| "ind_ea es m (OP_IND_SP_IMM v) = Some (((env_sp (cpu m) AND 0xFFFE) + v) OR bank_base es m)"
| "ind_ea es m (OP_IND_BASE_BYTE v r) = Some ((gpr8 m r + v) OR bank_base es m)"
| "ind_ea es m (OP_IND_BASE_WORD v r) = Some ((gpr16 m r + v) OR bank_base es m)"
| "ind_ea es m _ = None"

text \<open>The value of an operand, and the machine after a store to it: None for the kinds
  on which the translator aborts.\<close>

fun ld_operand :: "bool \<Rightarrow> TCGMemOp \<Rightarrow> RL78Operand \<Rightarrow> machine \<Rightarrow> u32 option" where
  "ld_operand es mo (OP_BYTE_REG r) m = Some (gpr8 m r)"
| "ld_operand es mo (OP_WORD_REG r) m = Some (gpr16 m r)"
| "ld_operand es mo OP_PSW m = Some (ucast (rl78_cpu_pack_psw (env_psw (cpu m))))"
| "ld_operand es mo OP_SP m = Some (env_sp (cpu m) AND 0xFFFE)"
| "ld_operand es mo OP_ES m = Some (env_es (cpu m))"
| "ld_operand es mo OP_CY m = Some (psw_cy (env_psw (cpu m)))"
| "ld_operand es mo (OP_IMM8 v) m = Some (v AND 0xFF)"
| "ld_operand es mo (OP_IMM16 v) m = Some (v AND 0xFFFF)"
| "ld_operand es mo (OP_SHAMT v) m = Some (v AND 0x1F)"
| "ld_operand es mo (OP_SEL_RB v) m = Some (v AND 0x03)"
| "ld_operand es mo (OP_ABS16 v) m =
     Some (if es then mem_ld mo m (v OR bank_base True m) else ld_paddr mo (v OR 0xF0000) m)"
| "ld_operand es mo (OP_SADDR v) m = Some (ld_paddr mo (saddr_of v) m)"
| "ld_operand es mo (OP_SFR v) m = Some (ld_paddr mo (0xFFF00 + v) m)"
| "ld_operand es mo op m = map_option (mem_ld mo m) (ind_ea es m op)"

fun st_operand :: "(u32 \<Rightarrow> bool) \<Rightarrow> bool \<Rightarrow> TCGMemOp \<Rightarrow> RL78Operand \<Rightarrow> u32 \<Rightarrow> machine \<Rightarrow> machine option" where
  "st_operand hp es mo (OP_BYTE_REG r) v m = Some (set_gpr8 r v m)"
| "st_operand hp es mo (OP_WORD_REG r) v m = Some (set_gpr16 r v m)"
| "st_operand hp es mo OP_PSW v m = Some (set_psw v m)"
| "st_operand hp es mo OP_SP v m = Some (m\<lparr>cpu := (cpu m)\<lparr>env_sp := v AND 0xFFFE\<rparr>\<rparr>)"
| "st_operand hp es mo OP_ES v m = Some (m\<lparr>cpu := (cpu m)\<lparr>env_es := v\<rparr>\<rparr>)"
| "st_operand hp es mo OP_CY v m = Some (m\<lparr>cpu := (cpu m)\<lparr>env_psw := (env_psw (cpu m))\<lparr>psw_cy := v\<rparr>\<rparr>\<rparr>)"
| "st_operand hp es mo (OP_ABS16 a) v m =
     Some (if es then mem_st mo (a OR bank_base True m) v m else st_paddr hp mo (a OR 0xF0000) v m)"
| "st_operand hp es mo (OP_SADDR a) v m = Some (st_paddr hp mo (saddr_of a) v m)"
| "st_operand hp es mo (OP_SFR a) v m = Some (st_paddr hp mo (0xFFF00 + a) v m)"
| "st_operand hp es mo op v m = map_option (\<lambda>ea. mem_st mo ea v m) (ind_ea es m op)"

text \<open>The byte that holds a bit operand, and a byte with one bit replaced.\<close>

definition ld_bit_byte :: "bool \<Rightarrow> RL78OperandBit \<Rightarrow> machine \<Rightarrow> u32" where
  "ld_bit_byte es b m = (case bit_kind b of
       BITOP_SADDR \<Rightarrow> ld_paddr MO_8 (saddr_of (bit_addr b)) m
     | BITOP_SFR \<Rightarrow> ld_paddr MO_8 (0xFFF00 + bit_addr b) m
     | BITOP_REG_A \<Rightarrow> gpr8 m REG_A
     | BITOP_ABS16 \<Rightarrow> (if es then mem_ld MO_8 m (bit_addr b OR bank_base True m) else ld_paddr MO_8 (bit_addr b OR 0xF0000) m)
     | BITOP_IND_HL \<Rightarrow> mem_ld MO_8 m (gpr16 m REG_HL OR bank_base es m)
     | BITOP_CY \<Rightarrow> psw_cy (env_psw (cpu m)))"

definition st_bit_byte :: "(u32 \<Rightarrow> bool) \<Rightarrow> bool \<Rightarrow> RL78OperandBit \<Rightarrow> u32 \<Rightarrow> machine \<Rightarrow> machine" where
  "st_bit_byte hp es b v m = (case bit_kind b of
       BITOP_SADDR \<Rightarrow> st_paddr hp MO_8 (saddr_of (bit_addr b)) v m
     | BITOP_SFR \<Rightarrow> st_paddr hp MO_8 (0xFFF00 + bit_addr b) v m
     | BITOP_REG_A \<Rightarrow> set_gpr8 REG_A v m
     | BITOP_ABS16 \<Rightarrow> (if es then mem_st MO_8 (bit_addr b OR bank_base True m) v m
         else st_paddr hp MO_8 (bit_addr b OR 0xF0000) v m)
     | BITOP_IND_HL \<Rightarrow> mem_st MO_8 (gpr16 m REG_HL OR bank_base es m) v m
     | BITOP_CY \<Rightarrow> m\<lparr>cpu := (cpu m)\<lparr>env_psw := (env_psw (cpu m))\<lparr>psw_cy := v\<rparr>\<rparr>\<rparr>)"

definition with_bit :: "u32 \<Rightarrow> nat \<Rightarrow> u32 \<Rightarrow> u32" where
  "with_bit v n b = (v AND NOT (push_bit n 1)) OR push_bit n b"

section \<open>Flags\<close>

definition flag :: "bool \<Rightarrow> u32" where
  "flag b = (if b then 1 else 0)"

definition psw_upd :: "(RL78PSW \<Rightarrow> RL78PSW) \<Rightarrow> machine \<Rightarrow> machine" where
  "psw_upd f m = m\<lparr>cpu := (cpu m)\<lparr>env_psw := f (env_psw (cpu m))\<rparr>\<rparr>"

definition set_cy :: "bool \<Rightarrow> machine \<Rightarrow> machine" where
  "set_cy b = psw_upd (\<lambda>p. p\<lparr>psw_cy := flag b\<rparr>)"

definition set_z :: "bool \<Rightarrow> machine \<Rightarrow> machine" where
  "set_z b = psw_upd (\<lambda>p. p\<lparr>psw_z := flag b\<rparr>)"

definition set_ac :: "bool \<Rightarrow> machine \<Rightarrow> machine" where
  "set_ac b = psw_upd (\<lambda>p. p\<lparr>psw_ac := flag b\<rparr>)"

definition cy :: "machine \<Rightarrow> nat" where
  "cy m = unat (psw_cy (env_psw (cpu m)))"

definition set_pc :: "u32 \<Rightarrow> machine \<Rightarrow> machine" where
  "set_pc v m = m\<lparr>cpu := (cpu m)\<lparr>env_pc := v\<rparr>\<rparr>"

definition set_sp :: "u32 \<Rightarrow> machine \<Rightarrow> machine" where
  "set_sp v m = m\<lparr>cpu := (cpu m)\<lparr>env_sp := v\<rparr>\<rparr>"

section \<open>Data instructions\<close>

text \<open>Two operands are read in order; the accesses fail on a kind that has no value.\<close>

definition ld2 :: "bool \<Rightarrow> TCGMemOp \<Rightarrow> RL78Operand \<Rightarrow> RL78Operand \<Rightarrow> machine \<Rightarrow> (nat \<times> nat) option" where
  "ld2 es mo a b m = do {
     x \<leftarrow> ld_operand es mo a m; y \<leftarrow> ld_operand es mo b m; Some (unat x, unat y) }"

definition isa_mov :: "(u32 \<Rightarrow> bool) \<Rightarrow> bool \<Rightarrow> TCGMemOp \<Rightarrow> RL78Operand \<Rightarrow> RL78Operand \<Rightarrow> machine \<Rightarrow> machine option" where
  "isa_mov hp es mo a b m = do { v \<leftarrow> ld_operand es mo b m; st_operand hp es mo a v m }"

definition isa_xch :: "(u32 \<Rightarrow> bool) \<Rightarrow> bool \<Rightarrow> TCGMemOp \<Rightarrow> RL78Operand \<Rightarrow> RL78Operand \<Rightarrow> machine \<Rightarrow> machine option" where
  "isa_xch hp es mo a b m = do {
     x \<leftarrow> ld_operand es mo a m; y \<leftarrow> ld_operand es mo b m;
     m' \<leftarrow> st_operand hp es mo b x m; st_operand hp es mo a y m' }"

definition isa_add8 :: "(u32 \<Rightarrow> bool) \<Rightarrow> bool \<Rightarrow> nat \<Rightarrow> RL78Operand \<Rightarrow> RL78Operand \<Rightarrow> machine \<Rightarrow> machine option" where
  "isa_add8 hp es c a b m = do {
     (x, y) \<leftarrow> ld2 es MO_8 a b m;
     m' \<leftarrow> st_operand hp es MO_8 a (of_nat ((x + y + c) mod 256)) m;
     Some (set_z ((x + y + c) mod 256 = 0) (set_ac (16 \<le> x mod 16 + y mod 16 + c) (set_cy (256 \<le> x + y + c) m'))) }"

definition sub_flags8 :: "nat \<Rightarrow> nat \<Rightarrow> nat \<Rightarrow> machine \<Rightarrow> machine" where
  "sub_flags8 x y c m =
     set_z ((int x - int y - int c) mod 256 = 0) (set_ac (x mod 16 < y mod 16 + c) (set_cy (x < y + c) m))"

definition isa_sub8 :: "(u32 \<Rightarrow> bool) \<Rightarrow> bool \<Rightarrow> nat \<Rightarrow> RL78Operand \<Rightarrow> RL78Operand \<Rightarrow> machine \<Rightarrow> machine option" where
  "isa_sub8 hp es c a b m = do {
     (x, y) \<leftarrow> ld2 es MO_8 a b m;
     m' \<leftarrow> st_operand hp es MO_8 a (of_int ((int x - int y - int c) mod 256)) m;
     Some (sub_flags8 x y c m') }"

definition isa_cmp8 :: "bool \<Rightarrow> RL78Operand \<Rightarrow> RL78Operand \<Rightarrow> machine \<Rightarrow> machine option" where
  "isa_cmp8 es a b m = do { (x, y) \<leftarrow> ld2 es MO_8 a b m; Some (sub_flags8 x y 0 m) }"

definition isa_cmp0 :: "bool \<Rightarrow> RL78Operand \<Rightarrow> machine \<Rightarrow> machine option" where
  "isa_cmp0 es a m = do {
     x \<leftarrow> ld_operand es MO_8 a m;
     Some (set_z (x = 0) (set_ac False (set_cy False m))) }"

definition isa_cmps :: "bool \<Rightarrow> RL78Operand \<Rightarrow> RL78Operand \<Rightarrow> machine \<Rightarrow> machine option" where
  "isa_cmps es a b m = do {
     (x, y) \<leftarrow> ld2 es MO_8 a b m;
     Some (set_cy (x \<noteq> y \<or> gpr8 m REG_A = 0 \<or> x = 0) (set_z (x = y) (set_ac (x mod 16 < y mod 16) m))) }"

definition isa_movs :: "(u32 \<Rightarrow> bool) \<Rightarrow> bool \<Rightarrow> RL78Operand \<Rightarrow> RL78Operand \<Rightarrow> machine \<Rightarrow> machine option" where
  "isa_movs hp es a b m = do {
     v \<leftarrow> ld_operand es MO_8 b m;
     m' \<leftarrow> st_operand hp es MO_8 a v m;
     Some (set_cy (v = 0 \<or> gpr8 m REG_A = 0) (set_z (v = 0) m')) }"

definition isa_addw :: "(u32 \<Rightarrow> bool) \<Rightarrow> bool \<Rightarrow> RL78Operand \<Rightarrow> RL78Operand \<Rightarrow> machine \<Rightarrow> machine option" where
  "isa_addw hp es a b m = do {
     (x, y) \<leftarrow> ld2 es MO_16 a b m;
     m' \<leftarrow> st_operand hp es MO_16 a (of_nat ((x + y) mod 65536)) m;
     Some (set_z ((x + y) mod 65536 = 0) (set_ac False (set_cy (65536 \<le> x + y) m'))) }"

definition sub_flags16 :: "nat \<Rightarrow> nat \<Rightarrow> machine \<Rightarrow> machine" where
  "sub_flags16 x y m = set_z (x = y) (set_ac False (set_cy (x < y) m))"

definition isa_subw :: "(u32 \<Rightarrow> bool) \<Rightarrow> bool \<Rightarrow> RL78Operand \<Rightarrow> RL78Operand \<Rightarrow> machine \<Rightarrow> machine option" where
  "isa_subw hp es a b m = do {
     (x, y) \<leftarrow> ld2 es MO_16 a b m;
     m' \<leftarrow> st_operand hp es MO_16 a (of_int ((int x - int y) mod 65536)) m;
     Some (sub_flags16 x y m') }"

definition isa_cmpw :: "bool \<Rightarrow> RL78Operand \<Rightarrow> RL78Operand \<Rightarrow> machine \<Rightarrow> machine option" where
  "isa_cmpw es a b m = do { (x, y) \<leftarrow> ld2 es MO_16 a b m; Some (sub_flags16 x y m) }"

definition isa_inc :: "(u32 \<Rightarrow> bool) \<Rightarrow> bool \<Rightarrow> RL78Operand \<Rightarrow> machine \<Rightarrow> machine option" where
  "isa_inc hp es a m = do {
     x \<leftarrow> ld_operand es MO_8 a m;
     m' \<leftarrow> st_operand hp es MO_8 a (of_nat ((unat x + 1) mod 256)) m;
     Some (set_z (unat x = 255) (set_ac (unat x mod 16 = 15) m')) }"

definition isa_dec :: "(u32 \<Rightarrow> bool) \<Rightarrow> bool \<Rightarrow> RL78Operand \<Rightarrow> machine \<Rightarrow> machine option" where
  "isa_dec hp es a m = do {
     x \<leftarrow> ld_operand es MO_8 a m;
     m' \<leftarrow> st_operand hp es MO_8 a (of_int ((int (unat x) - 1) mod 256)) m;
     Some (set_z (unat x = 1) (set_ac (unat x mod 16 = 0) m')) }"

definition isa_incw :: "(u32 \<Rightarrow> bool) \<Rightarrow> bool \<Rightarrow> int \<Rightarrow> RL78Operand \<Rightarrow> machine \<Rightarrow> machine option" where
  "isa_incw hp es d a m = do {
     x \<leftarrow> ld_operand es MO_16 a m;
     st_operand hp es MO_16 a (of_int ((int (unat x) + d) mod 65536)) m }"

definition isa_logic :: "(u32 \<Rightarrow> bool) \<Rightarrow> bool \<Rightarrow> (u32 \<Rightarrow> u32 \<Rightarrow> u32) \<Rightarrow> RL78Operand \<Rightarrow> RL78Operand \<Rightarrow> machine \<Rightarrow> machine option" where
  "isa_logic hp es f a b m = do {
     x \<leftarrow> ld_operand es MO_8 a m; y \<leftarrow> ld_operand es MO_8 b m;
     st_operand hp es MO_8 a (f x y) (set_z (f x y = 0) m) }"

definition isa_mulu :: "machine \<Rightarrow> machine" where
  "isa_mulu m = set_gpr16 REG_AX (of_nat (unat (gpr8 m REG_A) * unat (gpr8 m REG_X))) m"

text \<open>Shifts and rotates of a register: \<^verbatim>\<open>f\<close> gives the result and the bit shifted out.\<close>

definition isa_shift :: "(u32 \<Rightarrow> bool) \<Rightarrow> bool \<Rightarrow> TCGMemOp \<Rightarrow> (nat \<Rightarrow> nat \<times> bool) \<Rightarrow> RL78Operand \<Rightarrow> machine \<Rightarrow> machine option" where
  "isa_shift hp es mo f a m = do {
     x \<leftarrow> ld_operand es mo a m;
     (case f (unat x) of (r, out) \<Rightarrow> st_operand hp es mo a (of_nat r) (set_cy out m)) }"

definition shr_nat :: "nat \<Rightarrow> nat \<Rightarrow> nat \<times> bool" where
  "shr_nat n x = (x div 2 ^ n, 0 < n \<and> odd (x div 2 ^ (n - 1)))"

definition shl_nat :: "nat \<Rightarrow> nat \<Rightarrow> nat \<Rightarrow> nat \<times> bool" where
  "shl_nat w n x = (x * 2 ^ n mod 2 ^ w, odd (x * 2 ^ n div 2 ^ w))"

definition signed_val :: "nat \<Rightarrow> nat \<Rightarrow> int" where
  "signed_val w x = (if x < 2 ^ (w - 1) then int x else int x - 2 ^ w)"

definition sar_nat :: "nat \<Rightarrow> nat \<Rightarrow> nat \<Rightarrow> nat \<times> bool" where
  "sar_nat w n x = (nat (signed_val w x div 2 ^ n mod 2 ^ w), 0 < n \<and> odd (signed_val w x div 2 ^ (n - 1)))"

definition ror_nat :: "nat \<Rightarrow> nat \<times> bool" where
  "ror_nat x = (x div 2 + 128 * (x mod 2), odd x)"

definition rol_nat :: "nat \<Rightarrow> nat \<times> bool" where
  "rol_nat x = (2 * x mod 256 + x div 128, 128 \<le> x)"

definition rorc_nat :: "nat \<Rightarrow> nat \<Rightarrow> nat \<times> bool" where
  "rorc_nat c x = (x div 2 + 128 * c, odd x)"

definition rolc_nat :: "nat \<Rightarrow> nat \<Rightarrow> nat \<Rightarrow> nat \<times> bool" where
  "rolc_nat w c x = (2 * x mod 2 ^ w + c, 2 ^ (w - 1) \<le> x)"

section \<open>Bit instructions\<close>

definition ld_bit :: "bool \<Rightarrow> RL78OperandBit \<Rightarrow> machine \<Rightarrow> bool" where
  "ld_bit es b m = bit (ld_bit_byte es b m) (unat (bit_bit b))"

definition isa_bit :: "(u32 \<Rightarrow> bool) \<Rightarrow> bool \<Rightarrow> (bool \<Rightarrow> bool) \<Rightarrow> RL78OperandBit \<Rightarrow> machine \<Rightarrow> machine" where
  "isa_bit hp es f b m =
     st_bit_byte hp es b (with_bit (ld_bit_byte es b m) (unat (bit_bit b)) (flag (f (ld_bit es b m)))) m"

section \<open>Stack and control transfer\<close>

text \<open>The signed displacement of a relative branch.\<close>

definition rel8 :: "u32 \<Rightarrow> u32" where
  "rel8 v = (if unat v mod 256 < 128 then of_nat (unat v mod 256) else of_nat (unat v mod 256) - 256)"

definition rel16 :: "u32 \<Rightarrow> u32" where
  "rel16 v = (if unat v mod 65536 < 32768 then of_nat (unat v mod 65536) else of_nat (unat v mod 65536) - 65536)"

definition stack_at :: "bool \<Rightarrow> machine \<Rightarrow> u32 \<Rightarrow> u32" where
  "stack_at es m a = a OR bank_base es m"

definition isa_push :: "bool \<Rightarrow> u32 \<Rightarrow> machine \<Rightarrow> machine" where
  "isa_push es v m =
     (let sp = env_sp (cpu m) - 2 in mem_st MO_16 (stack_at es m sp) v (set_sp sp m))"

definition isa_pop :: "bool \<Rightarrow> (u32 \<Rightarrow> machine \<Rightarrow> machine) \<Rightarrow> machine \<Rightarrow> machine" where
  "isa_pop es put m =
     put (mem_ld MO_16 m (stack_at es m (env_sp (cpu m)))) (set_sp (env_sp (cpu m) + 2) m)"

text \<open>The return address goes to the stack as three bytes below a byte that holds the PSW
  (or is left alone).\<close>

definition isa_push_ret :: "bool \<Rightarrow> bool \<Rightarrow> u32 \<Rightarrow> machine \<Rightarrow> machine" where
  "isa_push_ret es save_psw npc m =
     (let sp = env_sp (cpu m);
          m1 = (if save_psw then mem_st MO_8 (stack_at es m (sp - 1)) (ucast (rl78_cpu_pack_psw (env_psw (cpu m)))) m else m);
          m2 = mem_st MO_8 (stack_at es m (sp - 2)) (drop_bit 16 npc AND 0x0F) m1;
          m3 = mem_st MO_8 (stack_at es m (sp - 3)) (drop_bit 8 npc AND 0xFF) m2;
          m4 = mem_st MO_8 (stack_at es m (sp - 4)) (npc AND 0xFF) m3
      in set_sp (sp - 4) m4)"

definition isa_ret :: "bool \<Rightarrow> bool \<Rightarrow> machine \<Rightarrow> machine" where
  "isa_ret es restore_psw m =
     (let sp = env_sp (cpu m);
          byte = (\<lambda>k. mem_ld MO_8 m (stack_at es m (sp + k)));
          m1 = (if restore_psw then set_psw (byte 3) m else m)
      in set_pc (byte 0 OR push_bit 8 (byte 1) OR push_bit 16 (byte 2)) (set_sp (sp + 4) m1))"

definition code_ptr :: "machine \<Rightarrow> RL78WordRegister \<Rightarrow> u32" where
  "code_ptr m r = push_bit 16 (env_cs (cpu m)) + gpr16 m r"

fun jump_target :: "u32 \<Rightarrow> machine \<Rightarrow> RL78Operand \<Rightarrow> u32 option" where
  "jump_target npc m (OP_WORD_REG r) = Some (code_ptr m r)"
| "jump_target npc m (OP_ABS16 v) = Some (v AND 0xFFFF)"
| "jump_target npc m (OP_ABS20 v) = Some (v AND 0xFFFFF)"
| "jump_target npc m (OP_REL8 v) = Some (npc + rel8 v)"
| "jump_target npc m (OP_REL16 v) = Some (npc + rel16 v)"
| "jump_target npc m _ = None"

definition isa_branch :: "u32 \<Rightarrow> bool \<Rightarrow> RL78Operand \<Rightarrow> machine \<Rightarrow> machine option" where
  "isa_branch npc taken a m = (case a of
       OP_REL8 v \<Rightarrow> Some (set_pc (if taken then npc + rel8 v else npc) m)
     | _ \<Rightarrow> None)"

definition isa_skip :: "bool \<Rightarrow> machine \<Rightarrow> machine" where
  "isa_skip b m = m\<lparr>cpu := (cpu m)\<lparr>env_skip_en := 1, env_skip_req := flag b\<rparr>\<rparr>"

section \<open>Instructions\<close>

abbreviation on_bit :: "RL78Operand \<Rightarrow> (RL78OperandBit \<Rightarrow> machine) \<Rightarrow> machine option" where
  "on_bit a f \<equiv> (case a of OP_BIT b \<Rightarrow> Some (f b) | _ \<Rightarrow> None)"

abbreviation on_bits :: "RL78Operand \<Rightarrow> RL78Operand \<Rightarrow> (RL78OperandBit \<Rightarrow> RL78OperandBit \<Rightarrow> machine) \<Rightarrow> machine option" where
  "on_bits a b f \<equiv> (case a of OP_BIT x \<Rightarrow> (case b of OP_BIT y \<Rightarrow> Some (f x y) | _ \<Rightarrow> None) | _ \<Rightarrow> None)"

abbreviation on_shamt :: "RL78Operand \<Rightarrow> (nat \<Rightarrow> machine option) \<Rightarrow> machine option" where
  "on_shamt a f \<equiv> (case a of OP_SHAMT n \<Rightarrow> f (unat n) | _ \<Rightarrow> None)"

text \<open>Instructions that do not transfer control, without the step of the program counter.\<close>

definition isa_data :: "(u32 \<Rightarrow> bool) \<Rightarrow> bool \<Rightarrow> RL78Mnemonic \<Rightarrow> RL78Operand \<Rightarrow> RL78Operand \<Rightarrow> machine \<Rightarrow> machine option" where
  "isa_data hp es mn a b m = (case mn of
       INSN_MOV \<Rightarrow> isa_mov hp es MO_8 a b m
     | INSN_XCH \<Rightarrow> isa_xch hp es MO_8 a b m
     | INSN_ONEB \<Rightarrow> st_operand hp es MO_8 a 1 m
     | INSN_CLRB \<Rightarrow> st_operand hp es MO_8 a 0 m
     | INSN_MOVW \<Rightarrow> isa_mov hp es MO_16 a b m
     | INSN_XCHW \<Rightarrow> isa_xch hp es MO_16 a b m
     | INSN_ONEW \<Rightarrow> st_operand hp es MO_16 a 1 m
     | INSN_CLRW \<Rightarrow> st_operand hp es MO_16 a 0 m
     | INSN_ADD \<Rightarrow> isa_add8 hp es 0 a b m
     | INSN_ADDC \<Rightarrow> isa_add8 hp es (cy m) a b m
     | INSN_SUB \<Rightarrow> isa_sub8 hp es 0 a b m
     | INSN_SUBC \<Rightarrow> isa_sub8 hp es (cy m) a b m
     | INSN_AND \<Rightarrow> isa_logic hp es (AND) a b m
     | INSN_OR \<Rightarrow> isa_logic hp es (OR) a b m
     | INSN_XOR \<Rightarrow> isa_logic hp es (XOR) a b m
     | INSN_CMP \<Rightarrow> isa_cmp8 es a b m
     | INSN_CMP0 \<Rightarrow> isa_cmp0 es a m
     | INSN_CMPS \<Rightarrow> isa_cmps es a b m
     | INSN_MOVS \<Rightarrow> isa_movs hp es a b m
     | INSN_ADDW \<Rightarrow> isa_addw hp es a b m
     | INSN_SUBW \<Rightarrow> isa_subw hp es a b m
     | INSN_CMPW \<Rightarrow> isa_cmpw es a b m
     | INSN_MULU \<Rightarrow> Some (isa_mulu m)
     | INSN_INC \<Rightarrow> isa_inc hp es a m
     | INSN_DEC \<Rightarrow> isa_dec hp es a m
     | INSN_INCW \<Rightarrow> isa_incw hp es 1 a m
     | INSN_DECW \<Rightarrow> isa_incw hp es (- 1) a m
     | INSN_SHR \<Rightarrow> on_shamt b (\<lambda>n. isa_shift hp es MO_8 (shr_nat n) a m)
     | INSN_SHRW \<Rightarrow> on_shamt b (\<lambda>n. isa_shift hp es MO_16 (shr_nat n) a m)
     | INSN_SHL \<Rightarrow> on_shamt b (\<lambda>n. isa_shift hp es MO_8 (shl_nat 8 n) a m)
     | INSN_SHLW \<Rightarrow> on_shamt b (\<lambda>n. isa_shift hp es MO_16 (shl_nat 16 n) a m)
     | INSN_SAR \<Rightarrow> on_shamt b (\<lambda>n. isa_shift hp es MO_8 (sar_nat 8 n) a m)
     | INSN_SARW \<Rightarrow> on_shamt b (\<lambda>n. isa_shift hp es MO_16 (sar_nat 16 n) a m)
     | INSN_ROR \<Rightarrow> isa_shift hp es MO_8 ror_nat a m
     | INSN_ROL \<Rightarrow> isa_shift hp es MO_8 rol_nat a m
     | INSN_RORC \<Rightarrow> isa_shift hp es MO_8 (rorc_nat (cy m)) a m
     | INSN_ROLC \<Rightarrow> isa_shift hp es MO_8 (rolc_nat 8 (cy m)) a m
     | INSN_ROLWC \<Rightarrow> isa_shift hp es MO_16 (rolc_nat 16 (cy m)) a m
     | INSN_MOV1 \<Rightarrow> on_bits a b (\<lambda>x y. isa_bit hp es (\<lambda>_. ld_bit es y m) x m)
     | INSN_AND1 \<Rightarrow> on_bits a b (\<lambda>x y. isa_bit hp es (\<lambda>v. v \<and> ld_bit es y m) x m)
     | INSN_OR1 \<Rightarrow> on_bits a b (\<lambda>x y. isa_bit hp es (\<lambda>v. v \<or> ld_bit es y m) x m)
     | INSN_XOR1 \<Rightarrow> on_bits a b (\<lambda>x y. isa_bit hp es (\<lambda>v. v \<noteq> ld_bit es y m) x m)
     | INSN_SET1 \<Rightarrow> on_bit a (\<lambda>x. isa_bit hp es (\<lambda>_. True) x m)
     | INSN_CLR1 \<Rightarrow> on_bit a (\<lambda>x. isa_bit hp es (\<lambda>_. False) x m)
     | INSN_NOT1 \<Rightarrow> on_bit a (\<lambda>x. isa_bit hp es Not x m)
     | INSN_PUSH \<Rightarrow> (case a of
           OP_WORD_REG r \<Rightarrow> Some (isa_push es (gpr16 m r) m)
           | OP_PSW \<Rightarrow> Some (isa_push es (push_bit 8 (ucast (rl78_cpu_pack_psw (env_psw (cpu m))))) m)
           | _ \<Rightarrow> None)
     | INSN_POP \<Rightarrow> (case a of
           OP_WORD_REG r \<Rightarrow> Some (isa_pop es (set_gpr16 r) m)
           | OP_PSW \<Rightarrow> Some (isa_pop es (\<lambda>v. set_psw (drop_bit 8 v)) m)
           | _ \<Rightarrow> None)
     | INSN_SKC \<Rightarrow> Some (isa_skip (psw_cy (env_psw (cpu m)) = 1) m)
     | INSN_SKNC \<Rightarrow> Some (isa_skip (psw_cy (env_psw (cpu m)) = 0) m)
     | INSN_SKZ \<Rightarrow> Some (isa_skip (psw_z (env_psw (cpu m)) = 1) m)
     | INSN_SKNZ \<Rightarrow> Some (isa_skip (psw_z (env_psw (cpu m)) = 0) m)
     | INSN_SKH \<Rightarrow> Some (isa_skip (psw_z (env_psw (cpu m)) = 0 \<and> psw_cy (env_psw (cpu m)) = 0) m)
     | INSN_SKNH \<Rightarrow> Some (isa_skip (psw_z (env_psw (cpu m)) = 1 \<or> psw_cy (env_psw (cpu m)) = 1) m)
     | INSN_SEL \<Rightarrow> (case a of
           OP_SEL_RB v \<Rightarrow> Some (psw_upd (\<lambda>p. p\<lparr>psw_rbs := v\<rparr>) m) | _ \<Rightarrow> None)
     | INSN_NOP \<Rightarrow> Some m
     | _ \<Rightarrow> None)"

text \<open>Instructions that set the program counter; \<^verbatim>\<open>npc\<close> is the address of the next
  instruction.\<close>

definition isa_ctrl :: "(u32 \<Rightarrow> bool) \<Rightarrow> bool \<Rightarrow> u32 \<Rightarrow> RL78Mnemonic \<Rightarrow> RL78Operand \<Rightarrow> RL78Operand \<Rightarrow> machine \<Rightarrow> machine option" where
  "isa_ctrl hp es npc mn a b m = (case mn of
       INSN_BR \<Rightarrow> do { t \<leftarrow> jump_target npc m a; Some (set_pc t m) }
     | INSN_CALL \<Rightarrow> do {
           t \<leftarrow> jump_target npc m a; Some (set_pc t (isa_push_ret es False npc m)) }
     | INSN_CALLT \<Rightarrow> (case a of
           OP_CALLT v \<Rightarrow> Some (set_pc (mem_ld MO_16 m v) (isa_push_ret es False npc m)) | _ \<Rightarrow> None)
     | INSN_BRK \<Rightarrow> Some (set_pc (mem_ld MO_16 m 0x7E) (psw_upd (\<lambda>p. p\<lparr>psw_ie := 0\<rparr>) (isa_push_ret es True npc m)))
     | INSN_RET \<Rightarrow> Some (isa_ret es False m)
     | INSN_RETI \<Rightarrow> Some (isa_ret es True m)
     | INSN_RETB \<Rightarrow> Some (isa_ret es True m)
     | INSN_BC \<Rightarrow> isa_branch npc (psw_cy (env_psw (cpu m)) = 1) a m
     | INSN_BNC \<Rightarrow> isa_branch npc (psw_cy (env_psw (cpu m)) = 0) a m
     | INSN_BZ \<Rightarrow> isa_branch npc (psw_z (env_psw (cpu m)) = 1) a m
     | INSN_BNZ \<Rightarrow> isa_branch npc (psw_z (env_psw (cpu m)) = 0) a m
     | INSN_BH \<Rightarrow> isa_branch npc (psw_z (env_psw (cpu m)) = 0 \<and> psw_cy (env_psw (cpu m)) = 0) a m
     | INSN_BNH \<Rightarrow> isa_branch npc (psw_z (env_psw (cpu m)) = 1 \<or> psw_cy (env_psw (cpu m)) = 1) a m
     | INSN_BT \<Rightarrow> (case a of OP_BIT x \<Rightarrow> isa_branch npc (ld_bit es x m) b m | _ \<Rightarrow> None)
     | INSN_BF \<Rightarrow> (case a of OP_BIT x \<Rightarrow> isa_branch npc (\<not> ld_bit es x m) b m | _ \<Rightarrow> None)
     | INSN_BTCLR \<Rightarrow> (case a of
           OP_BIT x \<Rightarrow> (case helper_rl78_btclr hp m (bitop_kind_num (bit_kind x)) (bit_addr x) (bit_bit x) (if es then 1 else 0) of
           (r, m') \<Rightarrow> isa_branch npc (r \<noteq> 0) b m')
           | _ \<Rightarrow> None)
     | _ \<Rightarrow> None)"

definition isa_insn :: "(u32 \<Rightarrow> bool) \<Rightarrow> bool \<Rightarrow> u32 \<Rightarrow> RL78Instruction \<Rightarrow> machine \<Rightarrow> machine option" where
  "isa_insn hp es npc i m =
     (case isa_data hp es (mnemonic i) (operand0 i) (operand1 i) m of
        Some m' \<Rightarrow> Some (set_pc npc m')
      | None \<Rightarrow> isa_ctrl hp es npc (mnemonic i) (operand0 i) (operand1 i) m)"

text \<open>One step of the processor on the code \<^verbatim>\<open>load\<close>: a requested skip consumes the
  instruction without executing it.\<close>

definition isa_step :: "(u32 \<Rightarrow> bool) \<Rightarrow> (u32 \<Rightarrow> u8) \<Rightarrow> machine \<Rightarrow> machine option" where
  "isa_step hp load m =
     (case decode_insn load (env_pc (cpu m)) False of
        (None, _, _) \<Rightarrow> None
      | (Some i, npc, es) \<Rightarrow>
          if env_skip_en (cpu m) = 0 then isa_insn hp es npc i m
          else let m' = m\<lparr>cpu := (cpu m)\<lparr>env_skip_en := 0, env_skip_req := 0\<rparr>\<rparr>
               in if env_skip_req (cpu m) \<noteq> 0 then Some (set_pc npc m') else isa_insn hp es npc i m')"

end
