(* ===== verification/RL78_Operand_Rules.thy ===== *)
theory RL78_Operand_Rules
  imports RL78_ISA RL78_Operand TCG_Rules64
begin

text \<open>What the generated operand code computes. The architectural meaning of an operand is
  given by the functions \<^verbatim>\<open>ld_operand\<close> and \<^verbatim>\<open>st_operand\<close> of theory \<^verbatim>\<open>RL78_ISA\<close>; each generator of
  theory \<^verbatim>\<open>RL78_Operand\<close> has a rule that relates it to them.\<close>

section \<open>Addresses\<close>

abbreviation stored :: "DisasContext \<Rightarrow> DisasContext" where
  "stored c \<equiv> c\<lparr>base_exit_check := True\<rparr>"

lemma align_align [simp]: "align mo (align mo a) = align mo a" "align MO_16 (a AND - 2) = align MO_16 a"
  by (simp_all add: align_def and.assoc)

lemma align_simps: "align MO_8 a = a" "align MO_16 a = a AND NOT 1"
  by (simp_all add: align_def)

lemma wp_gen_addr [wp_rules]:
  assumes "At E c \<Gamma> \<Delta> m s" "look \<Gamma> m a = Some x"
    and "\<And>n s'. fresh32 \<Gamma> n \<Longrightarrow> At E c (\<Gamma>(Temp n \<mapsto> x OR bank_base (dc_use_es c) m)) \<Delta> m s' \<Longrightarrow> Q (Temp n) s'"
  shows "wp (rl78_gen_addr a) Q s"
  using assms(1,2) unfolding rl78_gen_addr_def wp_bind
  apply (cases a; simp only:)
    apply ((erule wp_rules | (simp; fail))+, rule assms(3), assumption,
        (erule At_result; auto simp: bank_base_def)[1])+
  done

lemma wp_gen_load [wp_rules]:
  assumes "At E c \<Gamma> \<Delta> m s" "\<Gamma> (Temp k) = Some x"
    and "\<And>n s'. fresh32 \<Gamma> n \<Longrightarrow> At E c (\<Gamma>(Temp n \<mapsto> mem_ld mo m x)) \<Delta> m s' \<Longrightarrow> Q (Temp n) s'"
  shows "wp (rl78_gen_load (Temp k) mo) Q s"
  using assms(1,2) unfolding rl78_gen_load_def wp_bind
  apply -
  apply ((erule wp_rules | (simp; fail))+, rule assms(3), (auto split: if_splits)[1],
        (erule At_result; auto simp: mem_ld_def align_def)[1])+
  done

lemma wp_gen_store [wp_rules]:
  assumes "At E c \<Gamma> \<Delta> m s" "\<Gamma> (Temp k) = Some x" "\<Gamma> (Temp d) = Some v"
    and "\<And>s'. At E (stored c) \<Gamma> \<Delta> (mem_st mo x v m) s' \<Longrightarrow> Q () s'"
  shows "wp (rl78_gen_store (Temp k) (Temp d) mo) Q s"
  using assms(1-3) unfolding rl78_gen_store_def wp_bind
  apply -
  apply ((erule wp_rules | (simp; fail))+, rule assms(4),
        (erule At_forget; auto simp: mem_st_def align_def)[1])+
  done

lemma wp_gen_lb [wp_rules]:
  assumes "At E c \<Gamma> \<Delta> m s" "\<Gamma> (Temp k) = Some x"
    and "\<And>n s'. fresh32 \<Gamma> n \<Longrightarrow> At E c (\<Gamma>(Temp n \<mapsto> mem_ld MO_8 m x)) \<Delta> m s' \<Longrightarrow> Q (Temp n) s'"
  shows "wp (rl78_gen_lb (Temp k)) Q s"
  unfolding rl78_gen_lb_def by (rule wp_gen_load[OF assms(1,2)], rule assms(3))

lemma wp_gen_sb [wp_rules]:
  assumes "At E c \<Gamma> \<Delta> m s" "\<Gamma> (Temp k) = Some x" "\<Gamma> (Temp d) = Some v"
    and "\<And>s'. At E (stored c) \<Gamma> \<Delta> (mem_st MO_8 x v m) s' \<Longrightarrow> Q () s'"
  shows "wp (rl78_gen_sb (Temp k) (Temp d)) Q s"
  unfolding rl78_gen_sb_def by (rule wp_gen_store[OF assms(1-3)], rule assms(4))

lemma wp_gen_lw [wp_rules]:
  assumes "At E c \<Gamma> \<Delta> m s" "\<Gamma> (Temp k) = Some x"
    and "\<And>n s'. fresh32 \<Gamma> n \<Longrightarrow> At E c (\<Gamma>(Temp n \<mapsto> mem_ld MO_16 m x)) \<Delta> m s' \<Longrightarrow> Q (Temp n) s'"
  shows "wp (rl78_gen_lw (Temp k)) Q s"
  using assms(1,2) unfolding rl78_gen_lw_def wp_bind
  apply -
  apply ((erule wp_rules | (simp; fail))+, rule assms(3), (auto split: if_splits)[1],
        (erule At_result; auto simp: mem_ld_def)[1])+
  done

lemma wp_gen_sw [wp_rules]:
  assumes "At E c \<Gamma> \<Delta> m s" "\<Gamma> (Temp k) = Some x" "\<Gamma> (Temp d) = Some v"
    and "\<And>s'. At E (stored c) \<Gamma> \<Delta> (mem_st MO_16 x v m) s' \<Longrightarrow> Q () s'"
  shows "wp (rl78_gen_sw (Temp k) (Temp d)) Q s"
  using assms(1-3) unfolding rl78_gen_sw_def wp_bind
  apply -
  apply ((erule wp_rules | (simp; fail))+, rule assms(4),
        (erule At_forget; auto simp: mem_st_def)[1])+
  done

section \<open>Register file\<close>

definition reg_addr :: "run_env \<Rightarrow> machine \<Rightarrow> nat \<Rightarrow> u64" where
  "reg_addr E m reg = pl_env_base (fst E) + 24 + of_nat (cur_bank m * 32 + reg * 4)"

lemma cur_bank_less: "cpu_ok (cpu m) \<Longrightarrow> cur_bank m < 4"
  by (simp add: cur_bank_def cpu_okD)

lemma reg_offset_word:
  assumes "unat (b :: u32) < 4" "reg < 8"
  shows "scast (push_bit 5 b + of_nat reg * 4 :: u32) = (of_nat (unat b * 32 + reg * 4) :: u64)"
proof -
  have "b = of_nat (unat b)" by simp
  moreover have "unat b \<in> {0,1,2,3}" "reg \<in> {0,1,2,3,4,5,6,7}" using assms by auto
  ultimately obtain k where k: "b = of_nat k" "unat b = k" "k \<in> {0,1,2,3}" by metis
  show ?thesis unfolding k(2) unfolding k(1)
    using k(3) \<open>reg \<in> _\<close> by (elim insertE emptyE; simp)
qed

lemma reg_addr_ref:
  assumes "cur_bank m < 4" "reg < 8"
  shows "ref_at (unat (reg_addr E m reg + 0 - pl_env_base (fst E))) = Some (Ref_bank (cur_bank m) reg)"
    and "reg + 1 < 8 \<Longrightarrow> ref_at (unat (reg_addr E m reg + 4 - pl_env_base (fst E))) = Some (Ref_bank (cur_bank m) (reg + 1))"
proof -
  have u: "unat (24 + of_nat (cur_bank m * 32 + reg * 4) + (of_nat k :: u64)) = 24 + cur_bank m * 32 + reg * 4 + k"
    if "k < 8" for k
  proof -
    have "(24 + of_nat (cur_bank m * 32 + reg * 4) + of_nat k :: u64) = of_nat (24 + cur_bank m * 32 + reg * 4 + k)" by simp
    moreover have "24 + cur_bank m * 32 + reg * 4 + k < 2 ^ LENGTH(64)" using assms that by simp
    ultimately show ?thesis by (simp only: unsigned_of_nat take_bit_nat_eq_self of_nat_id)
  qed
  have e: "reg_addr E m reg + x - pl_env_base (fst E) = 24 + of_nat (cur_bank m * 32 + reg * 4) + x" for x
    by (simp add: reg_addr_def)
  show "ref_at (unat (reg_addr E m reg + 0 - pl_env_base (fst E))) = Some (Ref_bank (cur_bank m) reg)"
    unfolding e using u[of 0] ref_at_bank[OF assms] by simp
  show "ref_at (unat (reg_addr E m reg + 4 - pl_env_base (fst E))) = Some (Ref_bank (cur_bank m) (reg + 1))" if "reg + 1 < 8"
    unfolding e using u[of 4] ref_at_bank[OF assms(1) that] by simp
qed

lemma wp_reg_ptr [wp_rules]:
  assumes "At E c \<Gamma> \<Delta> m s" "cur_bank m < 4" "reg < 8"
    and "\<And>n s'. fresh64 \<Delta> n \<Longrightarrow> At E c \<Gamma> (\<Delta>(n \<mapsto> reg_addr E m reg)) m s' \<Longrightarrow> Q (Temp64 n) s'"
  shows "wp (reg_ptr reg) Q s"
proof -
  have o: "scast (push_bit 5 (psw_rbs (env_psw (cpu m))) + of_nat reg * 4 :: u32) = (of_nat (cur_bank m * 32 + reg * 4) :: u64)"
    using reg_offset_word[of "psw_rbs (env_psw (cpu m))" reg] assms(2,3) by (simp add: cur_bank_def)
  show ?thesis
    using assms(1) unfolding reg_ptr_def wp_bind Let_def
    apply -
    apply ((erule wp_rules | (simp; fail))+, rule assms(4), assumption)
    apply (erule At_weaken)
       apply (auto simp: map_le_def reg_addr_def o ENV_REGS_OFFSET_def split: if_splits)
    done
qed

section \<open>Registers\<close>

lemma and_255_id: "unat (x :: u32) < 256 \<Longrightarrow> x AND 0xFF = x"
  by (simp add: mask_simps take_bit_small)

lemma gpr8_less: "cpu_ok (cpu m) \<Longrightarrow> unat (gpr8 m r) < 256"
  by (simp add: gpr8_def cpu_okD cur_bank_less)

lemma gpr8_and [simp]: "cpu_ok (cpu m) \<Longrightarrow> gpr8 m r AND 0xFF = gpr8 m r"
  by (simp add: gpr8_less and_255_id)

lemma bank_and_3: "cpu_ok (cpu m) \<Longrightarrow> unat (psw_rbs (env_psw (cpu m)) AND 3) = cur_bank m"
  using cpu_okD(5)[of "cpu m"] by (simp add: cur_bank_def mask_simps take_bit_small)

lemma word_reg_num_bound [simp]: "word_reg_num r * 2 < 8" "Suc (word_reg_num r * 2) < 8"
  by (cases r; simp)+

lemma wp_load_byte_reg [wp_rules]:
  assumes "At E c \<Gamma> \<Delta> m s" "cpu_ok (cpu m)"
    and "\<And>n s'. fresh32 \<Gamma> n \<Longrightarrow> At E c (\<Gamma>(Temp n \<mapsto> gpr8 m r)) \<Delta> m s' \<Longrightarrow> Q (Temp n) s'"
  shows "wp (load_byte_reg r) Q s"
proof -
  note b = cur_bank_less[OF assms(2)]
  note a = reg_addr_ref(1)[OF b byte_reg_num_less, simplified]
  show ?thesis
    using assms(1) unfolding load_byte_reg_def wp_bind
    apply -
    apply (erule wp_rules, rule b, simp)
    apply ((erule wp_rules | (simp add: a; fail))+, rule assms(3), assumption)
    apply (erule At_result)
    using gpr8_and[OF assms(2), of r] by (auto simp: gpr8_def)
qed

lemma get_rp_parts:
  assumes "cpu_ok (cpu m)"
  shows "(env_regs (cpu m) (cur_bank m) (word_reg_num r * 2) AND 0xFF) OR
     push_bit 8 (env_regs (cpu m) (cur_bank m) (Suc (word_reg_num r * 2))) = gpr16 m r"
  using and_255_id[OF cpu_okD(4)[OF assms cur_bank_less[OF assms] word_reg_num_bound(2)]]
  unfolding gpr16_def rl78_get_rp_def Let_def bank_and_3[OF assms] by (simp only: Suc_eq_plus1)

lemma wp_load_word_reg [wp_rules]:
  assumes "At E c \<Gamma> \<Delta> m s" "cpu_ok (cpu m)"
    and "\<And>n s'. fresh32 \<Gamma> n \<Longrightarrow> At E c (\<Gamma>(Temp n \<mapsto> gpr16 m r)) \<Delta> m s' \<Longrightarrow> Q (Temp n) s'"
  shows "wp (load_word_reg r) Q s"
proof -
  note b = cur_bank_less[OF assms(2)]
  have a: "ref_at (unat (reg_addr E m (word_reg_num r * 2) - pl_env_base (fst E))) = Some (Ref_bank (cur_bank m) (word_reg_num r * 2))"
    "ref_at (unat (reg_addr E m (word_reg_num r * 2) + 4 - pl_env_base (fst E))) = Some (Ref_bank (cur_bank m) (Suc (word_reg_num r * 2)))"
    using reg_addr_ref[OF b word_reg_num_bound(1)] word_reg_num_bound(2)[of r] by simp_all
  show ?thesis
    using assms(1) unfolding load_word_reg_def wp_bind
    apply -
    apply (erule wp_rules, rule b, simp)
    apply ((erule wp_rules | (simp add: a; fail))+)
    apply ( rule assms(3), assumption)
    apply (erule At_result)
    using get_rp_parts[OF assms(2), of r] by (auto simp: or.commute)
qed

lemma wp_store_byte_reg [wp_rules]:
  assumes "At E c \<Gamma> \<Delta> m s" "\<Gamma> (Temp d) = Some v" "cpu_ok (cpu m)"
    and "\<And>s'. At E c \<Gamma> \<Delta> (set_gpr8 r v m) s' \<Longrightarrow> Q () s'"
  shows "wp (store_byte_reg r (Temp d)) Q s"
proof -
  note b = cur_bank_less[OF assms(3)]
  note a = reg_addr_ref(1)[OF b byte_reg_num_less, simplified]
  show ?thesis
    using assms(1,2) unfolding store_byte_reg_def wp_bind
    apply -
    apply (erule wp_rules, rule b, simp)
    apply ((erule wp_rules | (simp add: a; fail))+, rule assms(4))
    apply (erule At_forget; auto simp: set_gpr8_def)
    done
qed

lemma wp_store_word_reg [wp_rules]:
  assumes "At E c \<Gamma> \<Delta> m s" "\<Gamma> (Temp d) = Some v" "cpu_ok (cpu m)"
    and "\<And>s'. At E c \<Gamma> \<Delta> (set_gpr16 r v m) s' \<Longrightarrow> Q () s'"
  shows "wp (store_word_reg r (Temp d)) Q s"
proof -
  note b = cur_bank_less[OF assms(3)]
  have a: "ref_at (unat (reg_addr E m (word_reg_num r * 2) - pl_env_base (fst E))) = Some (Ref_bank (cur_bank m) (word_reg_num r * 2))"
    "ref_at (unat (reg_addr E m (word_reg_num r * 2) + 4 - pl_env_base (fst E))) = Some (Ref_bank (cur_bank m) (Suc (word_reg_num r * 2)))"
    using reg_addr_ref[OF b word_reg_num_bound(1)] word_reg_num_bound(2)[of r] by simp_all
  show ?thesis
    using assms(1,2) unfolding store_word_reg_def wp_bind
    apply -
    apply (erule wp_rules, rule b, simp)
    apply ((erule wp_rules | (simp add: a; fail))+, rule assms(4))
    apply (erule At_forget; auto simp: set_gpr16_def rl78_set_rp_def bank_and_3[OF assms(3)] Let_def)
    done
qed

lemma wp_load_sp [wp_rules]:
  assumes "At E c \<Gamma> \<Delta> m s"
    and "\<And>n s'. fresh32 \<Gamma> n \<Longrightarrow> At E c (\<Gamma>(Temp n \<mapsto> env_sp (cpu m) AND 0xFFFE)) \<Delta> m s' \<Longrightarrow> Q (Temp n) s'"
  shows "wp load_sp Q s"
  using assms(1) unfolding load_sp_def wp_bind
  apply -
  apply ((erule wp_rules | (simp; fail))+, rule assms(2), assumption, (erule At_result; auto)[1])
  done

lemma wp_store_sp [wp_rules]:
  assumes "At E c \<Gamma> \<Delta> m s" "\<Gamma> (Temp d) = Some v"
    and "\<And>s'. At E c \<Gamma> \<Delta> (m\<lparr>cpu := (cpu m)\<lparr>env_sp := v AND 0xFFFE\<rparr>\<rparr>) s' \<Longrightarrow> Q () s'"
  shows "wp (store_sp (Temp d)) Q s"
  using assms(1,2) unfolding store_sp_def wp_bind
  apply -
  apply ((erule wp_rules | (simp; fail))+, rule assms(3), (erule At_forget; auto)[1])
  done

lemma wp_load_es [wp_rules]:
  assumes "At E c \<Gamma> \<Delta> m s"
    and "\<And>n s'. fresh32 \<Gamma> n \<Longrightarrow> At E c (\<Gamma>(Temp n \<mapsto> env_es (cpu m))) \<Delta> m s' \<Longrightarrow> Q (Temp n) s'"
  shows "wp load_es Q s"
  using assms(1) unfolding load_es_def wp_bind
  apply -
  apply ((erule wp_rules | (simp; fail))+, rule assms(2), assumption, (erule At_result; auto)[1])
  done

lemma wp_load_psw_cy [wp_rules]:
  assumes "At E c \<Gamma> \<Delta> m s"
    and "\<And>n s'. fresh32 \<Gamma> n \<Longrightarrow> At E c (\<Gamma>(Temp n \<mapsto> psw_cy (env_psw (cpu m)))) \<Delta> m s' \<Longrightarrow> Q (Temp n) s'"
  shows "wp load_psw_cy Q s"
  using assms(1) unfolding load_psw_cy_def wp_bind
  apply -
  apply ((erule wp_rules | (simp; fail))+, rule assms(2), assumption, (erule At_result; auto)[1])
  done

lemma wp_store_es [wp_rules]:
  assumes "At E c \<Gamma> \<Delta> m s" "\<Gamma> (Temp d) = Some v"
    and "\<And>s'. At E c \<Gamma> \<Delta> (m\<lparr>cpu := (cpu m)\<lparr>env_es := v\<rparr>\<rparr>) s' \<Longrightarrow> Q () s'"
  shows "wp (store_es (Temp d)) Q s"
  unfolding store_es_def by (rule wp_mov_i32[OF assms(1)]) (use assms(2,3) in simp_all)

lemma wp_store_psw_cy [wp_rules]:
  assumes "At E c \<Gamma> \<Delta> m s" "\<Gamma> (Temp d) = Some v"
    and "\<And>s'. At E c \<Gamma> \<Delta> (m\<lparr>cpu := (cpu m)\<lparr>env_psw := (env_psw (cpu m))\<lparr>psw_cy := v\<rparr>\<rparr>\<rparr>) s' \<Longrightarrow> Q () s'"
  shows "wp (store_psw_cy (Temp d)) Q s"
  unfolding store_psw_cy_def by (rule wp_mov_i32[OF assms(1)]) (use assms(2,3) in simp_all)

section \<open>Program status word\<close>

lemma bit_deposit32: "bit (deposit32 x y ofs len) n = (if ofs \<le> n \<and> n < ofs + len \<and> n < 32 then bit y (n - ofs) else bit x n)"
  using bit_imp_le_length[of x n] by (auto simp: deposit32_def bit_simps)
lemma bit_extract32: "bit (extract32 x ofs len) n = (n < len \<and> bit x (ofs + n))"
  by (auto simp: extract32_def bit_simps)

lemma psw_deposits:
  assumes "psw_ok p"
  shows "deposit32 (deposit32 (deposit32 (deposit32 (deposit32 (deposit32 (psw_cy p)
      (psw_isp p) 1 2) (extract32 (psw_rbs p) 0 1) 3 1) (psw_ac p) 4 1)
      (extract32 (psw_rbs p) 1 1) 5 1) (psw_z p) 6 1) (psw_ie p) 7 1 = ucast (rl78_cpu_pack_psw p)"
proof (rule bit_word_eqI)
  fix n assume "n < LENGTH(32)"
  have cy: "\<not> bit (psw_cy p) k" if "1 \<le> k" for k
    using assms that bit_small[of "psw_cy p" 1 k] by (auto simp: psw_ok_def)
  consider "n = 0" | "n = 1" | "n = 2" | "n = 3" | "n = 4" | "n = 5" | "n = 6" | "n = 7" | "8 \<le> n" by linarith
  then show "bit (deposit32 (deposit32 (deposit32 (deposit32 (deposit32 (deposit32 (psw_cy p)
      (psw_isp p) 1 2) (extract32 (psw_rbs p) 0 1) 3 1) (psw_ac p) 4 1)
      (extract32 (psw_rbs p) 1 1) 5 1) (psw_z p) 6 1) (psw_ie p) 7 1) n = bit (ucast (rl78_cpu_pack_psw p) :: u32) n"
    by cases (simp_all add: bit_deposit32 bit_extract32 rl78_cpu_pack_psw_def bit_norm cy numeral_2_eq_2 del: push_bit_Suc)
qed

lemma psw_extracts_fields:
  "\<lparr>psw_cy = extract32 v 0 1, psw_isp = extract32 v 1 2,
    psw_rbs = deposit32 (deposit32 0 (extract32 v 3 1) 0 1) (extract32 v 5 1) 1 1,
    psw_ac = extract32 v 4 1, psw_z = extract32 v 6 1, psw_ie = extract32 v 7 1\<rparr> = rl78_cpu_unpack_psw (ucast v)"
  apply (intro RL78PSW.equality)
        apply (unfold rl78_cpu_unpack_psw_def Let_def RL78PSW.simps)
        apply (rule bit_word_eqI, simp only: bit_norm bit_extract32 bit_deposit32, force)+
  apply simp
  done

lemma psw_extracts:
  "p\<lparr>psw_cy := extract32 v 0 1, psw_isp := extract32 v 1 2, psw_ac := extract32 v 4 1,
     psw_z := extract32 v 6 1, psw_ie := extract32 v 7 1,
     psw_rbs := deposit32 (deposit32 0 (extract32 v 3 1) 0 1) (extract32 v 5 1) 1 1\<rparr> = rl78_cpu_unpack_psw (ucast v)"
  using psw_extracts_fields[of v] by (cases p) simp

lemma wp_load_psw [wp_rules]:
  assumes "At E c \<Gamma> \<Delta> m s" "psw_ok (env_psw (cpu m))"
    and "\<And>n s'. fresh32 \<Gamma> n \<Longrightarrow> At E c (\<Gamma>(Temp n \<mapsto> ucast (rl78_cpu_pack_psw (env_psw (cpu m))))) \<Delta> m s' \<Longrightarrow> Q (Temp n) s'"
  shows "wp load_psw Q s"
  using assms(1) unfolding load_psw_def wp_bind
  apply -
  apply ((erule wp_rules | (simp; fail))+, rule assms(3), assumption)
  apply (erule At_result)
  using psw_deposits[OF assms(2)] by auto

lemma wp_store_psw [wp_rules]:
  assumes "At E c \<Gamma> \<Delta> m s" "\<Gamma> (Temp d) = Some v"
    and "\<And>s'. At E (c\<lparr>base_is_jmp := DISAS_UPDATE\<rparr>) \<Gamma> \<Delta> (set_psw v m) s' \<Longrightarrow> Q () s'"
  shows "wp (store_psw (Temp d)) Q s"
  using assms(1,2) unfolding store_psw_def wp_bind
  apply -
  apply ((erule wp_rules | (simp; fail))+, rule assms(3))
  apply (erule At_forget)
  using psw_extracts[where p = "env_psw (cpu m)" and v = v] by (auto simp: set_psw_def)

section \<open>Fixed addresses\<close>

text \<open>What a store does to the translation context.\<close>

definition ctx_paddr :: "TCGMemOp \<Rightarrow> u32 \<Rightarrow> DisasContext \<Rightarrow> DisasContext" where
  "ctx_paddr mo a c =
     (if mo = MO_16 then if a = 0xFFFF8 then c else stored c
      else if a = 0xFFFFA then c\<lparr>base_is_jmp := DISAS_UPDATE\<rparr> else c)"

lemma sp_extracts:
  "extract32 (x AND 0xFFFE) 0 8 = x AND 0xFE" "extract32 (x AND 0xFFFE) 8 8 = drop_bit 8 x AND 0xFF"
proof -
  show "extract32 (x AND 0xFFFE) 0 8 = x AND 0xFE"
    by (rule bit_word_eqI) (simp only: bit_extract32 bit_and_iff bit_mask_numerals, auto)
  show "extract32 (x AND 0xFFFE) 8 8 = drop_bit 8 x AND 0xFF"
    by (rule bit_word_eqI) (simp only: mask_simps, simp only: bit_extract32 bit_and_iff bit_take_bit_iff
          bit_mask_numerals bit_drop_bit_eq comp_def, auto)
qed

lemma deposit_extract: "deposit32 x (extract32 v 0 len) ofs len = deposit32 x v ofs len"
  by (rule bit_word_eqI) (auto simp: bit_deposit32 bit_extract32)

lemma wp_load_paddr [wp_rules]:
  assumes "At E c \<Gamma> \<Delta> m s" "psw_ok (env_psw (cpu m))"
    and "\<And>n s'. fresh32 \<Gamma> n \<Longrightarrow> At E c (\<Gamma>(Temp n \<mapsto> ld_paddr mo a m)) \<Delta> m s' \<Longrightarrow> Q (Temp n) s'"
  shows "wp (load_paddr a mo) Q s"
proof -
  have "wp (load_byte_paddr a MO_8) Q s" if "mo = MO_8"
    using assms(1) unfolding load_byte_paddr_def wp_bind
    apply -
    apply ((erule wp_rules | (simp only: wp_bind) | (simp add: assms(2); fail))+, rule assms(3), (fastforce split: if_splits)[1],
        (erule At_result; auto simp: ld_paddr_def sp_extracts that)[1])+
    done
  moreover have "wp (load_word_paddr a MO_16) Q s" if "mo = MO_16"
    using assms(1) unfolding load_word_paddr_def wp_bind
    apply -
    apply ((erule wp_rules | (simp only: wp_bind) | (simp; fail))+, rule assms(3), (fastforce split: if_splits)[1],
        (erule At_result; auto simp: ld_paddr_def that)[1])+
    done
  ultimately show ?thesis by (cases mo) (simp_all add: load_paddr_def)
qed

lemma wp_store_paddr [wp_rules]:
  assumes "At E c \<Gamma> \<Delta> m s" "\<Gamma> (Temp d) = Some v"
    and "\<And>s'. At E (ctx_paddr mo a c) \<Gamma> \<Delta> (st_paddr (pl_host_ptr (fst E)) mo a v m) s' \<Longrightarrow> Q () s'"
  shows "wp (store_paddr a (Temp d) mo) Q s"
proof -
  have "wp (store_byte_paddr a (Temp d) MO_8) Q s" if "mo = MO_8"
    using assms(1,2) unfolding store_byte_paddr_def wp_bind
    apply -
    apply ((erule wp_rules | (simp only: wp_bind) | (simp; fail))+, rule assms(3),
        (erule At_forget; auto simp: st_paddr_def ctx_paddr_def deposit_extract helper_rl78_stb_def that)[1])+
    done
  moreover have "wp (store_word_paddr a (Temp d) MO_16) Q s" if "mo = MO_16"
    using assms(1,2) unfolding store_word_paddr_def wp_bind
    apply -
    apply ((erule wp_rules | (simp only: wp_bind) | (simp; fail))+, rule assms(3),
        (erule At_forget; auto simp: st_paddr_def ctx_paddr_def that)[1])+
    done
  ultimately show ?thesis by (cases mo) (simp_all add: store_paddr_def)
qed

lemma wp_load_abs16 [wp_rules]:
  assumes "At E c \<Gamma> \<Delta> m s" "psw_ok (env_psw (cpu m))"
    and "\<And>n s'. fresh32 \<Gamma> n \<Longrightarrow> At E c (\<Gamma>(Temp n \<mapsto>
       (if dc_use_es c then mem_ld mo m (a OR bank_base True m) else ld_paddr mo (a OR 0xF0000) m))) \<Delta> m s' \<Longrightarrow> Q (Temp n) s'"
  shows "wp (load_abs16 a mo) Q s"
  using assms(1) unfolding load_abs16_def wp_bind
  apply -
  apply ((erule wp_rules | (simp only: wp_bind) | (simp add: assms(2); fail))+, rule assms(3), (fastforce split: if_splits)[1],
        (erule At_result; auto)[1])+
  done

lemma wp_store_abs16 [wp_rules]:
  assumes "At E c \<Gamma> \<Delta> m s" "\<Gamma> (Temp d) = Some v"
    and "\<And>s'. At E (if dc_use_es c then stored c else ctx_paddr mo (a OR 0xF0000) c) \<Gamma> \<Delta>
       (if dc_use_es c then mem_st mo (a OR bank_base True m) v m
        else st_paddr (pl_host_ptr (fst E)) mo (a OR 0xF0000) v m) s' \<Longrightarrow> Q () s'"
  shows "wp (store_abs16 a (Temp d) mo) Q s"
  using assms(1,2) unfolding store_abs16_def wp_bind
  apply -
  apply ((erule wp_rules | (simp only: wp_bind) | (simp; fail))+, rule assms(3), (erule At_forget; auto)[1])+
  done

lemma wp_load_saddr [wp_rules]:
  assumes "At E c \<Gamma> \<Delta> m s" "psw_ok (env_psw (cpu m))"
    and "\<And>n s'. fresh32 \<Gamma> n \<Longrightarrow> At E c (\<Gamma>(Temp n \<mapsto> ld_paddr mo (saddr_of a) m)) \<Delta> m s' \<Longrightarrow> Q (Temp n) s'"
  shows "wp (load_saddr a mo) Q s"
  unfolding load_saddr_def Let_def saddr_of_def[symmetric] by (rule wp_load_paddr[OF assms(1,2)], rule assms(3))

lemma wp_store_saddr [wp_rules]:
  assumes "At E c \<Gamma> \<Delta> m s" "\<Gamma> (Temp d) = Some v"
    and "\<And>s'. At E (ctx_paddr mo (saddr_of a) c) \<Gamma> \<Delta> (st_paddr (pl_host_ptr (fst E)) mo (saddr_of a) v m) s' \<Longrightarrow> Q () s'"
  shows "wp (store_saddr a (Temp d) mo) Q s"
  unfolding store_saddr_def Let_def saddr_of_def[symmetric] by (rule wp_store_paddr[OF assms(1,2)], rule assms(3))

lemma wp_load_sfr [wp_rules]:
  assumes "At E c \<Gamma> \<Delta> m s" "psw_ok (env_psw (cpu m))"
    and "\<And>n s'. fresh32 \<Gamma> n \<Longrightarrow> At E c (\<Gamma>(Temp n \<mapsto> ld_paddr mo (0xFFF00 + a) m)) \<Delta> m s' \<Longrightarrow> Q (Temp n) s'"
  shows "wp (load_sfr a mo) Q s"
  unfolding load_sfr_def Let_def by (rule wp_load_paddr[OF assms(1,2)], rule assms(3))

lemma wp_store_sfr [wp_rules]:
  assumes "At E c \<Gamma> \<Delta> m s" "\<Gamma> (Temp d) = Some v"
    and "\<And>s'. At E (ctx_paddr mo (0xFFF00 + a) c) \<Gamma> \<Delta> (st_paddr (pl_host_ptr (fst E)) mo (0xFFF00 + a) v m) s' \<Longrightarrow> Q () s'"
  shows "wp (store_sfr a (Temp d) mo) Q s"
  unfolding store_sfr_def Let_def by (rule wp_store_paddr[OF assms(1,2)], rule assms(3))

section \<open>Indirect addresses\<close>

lemmas ind_defs = load_ind_reg_def ind_reg_def load_ind_reg_reg_def ind_reg_reg_def
  load_ind_reg_imm_def ind_reg_imm_def load_ind_sp_imm_def ind_sp_imm_def
  load_ind_base_byte_def ind_base_byte_def load_ind_base_word_def ind_base_word_def
  store_ind_reg_def store_ind_reg_reg_def store_ind_reg_imm_def store_ind_sp_imm_def
  store_ind_base_byte_def store_ind_base_word_def

lemma wp_load_ind:
  assumes "At E c \<Gamma> \<Delta> m s" "cpu_ok (cpu m)" "ind_ea (dc_use_es c) m op = Some ea"
    and "\<And>n s'. fresh32 \<Gamma> n \<Longrightarrow> At E c (\<Gamma>(Temp n \<mapsto> mem_ld mo m ea)) \<Delta> m s' \<Longrightarrow> Q (Temp n) s'"
  shows "wp (rl78_gen_load_operand op mo) Q s"
  using assms(1,3)
  apply (cases op; simp only: ind_ea.simps option.distinct option.inject rl78_gen_load_operand.simps ind_defs wp_bind)
       apply ((erule wp_rules | (simp only: wp_bind) | (simp add: assms(2); fail))+, rule assms(4), (fastforce split: if_splits)[1],
        (erule At_result; auto)[1])+
  done

lemma wp_store_ind:
  assumes "At E c \<Gamma> \<Delta> m s" "cpu_ok (cpu m)" "ind_ea (dc_use_es c) m op = Some ea" "\<Gamma> (Temp d) = Some v"
    and "\<And>s'. At E (stored c) \<Gamma> \<Delta> (mem_st mo ea v m) s' \<Longrightarrow> Q () s'"
  shows "wp (rl78_gen_store_operand op (Temp d) mo) Q s"
  using assms(1,3,4)
  apply (cases op; simp only: ind_ea.simps option.distinct option.inject rl78_gen_store_operand.simps ind_defs wp_bind)
       apply ((erule wp_rules | (simp only: wp_bind) | (simp add: assms(2); fail))+, rule assms(5), (erule At_forget; auto)[1])+
  done

section \<open>Operands\<close>

fun ctx_operand :: "TCGMemOp \<Rightarrow> RL78Operand \<Rightarrow> DisasContext \<Rightarrow> DisasContext" where
  "ctx_operand mo (OP_BYTE_REG r) c = c"
| "ctx_operand mo (OP_WORD_REG r) c = c"
| "ctx_operand mo OP_PSW c = c\<lparr>base_is_jmp := DISAS_UPDATE\<rparr>"
| "ctx_operand mo OP_SP c = c"
| "ctx_operand mo OP_ES c = c"
| "ctx_operand mo OP_CY c = c"
| "ctx_operand mo (OP_ABS16 a) c = (if dc_use_es c then stored c else ctx_paddr mo (a OR 0xF0000) c)"
| "ctx_operand mo (OP_SADDR a) c = ctx_paddr mo (saddr_of a) c"
| "ctx_operand mo (OP_SFR a) c = ctx_paddr mo (0xFFF00 + a) c"
| "ctx_operand mo _ c = stored c"


lemma wp_load_operand [wp_rules]:
  assumes "At E c \<Gamma> \<Delta> m s" "cpu_ok (cpu m)" "ld_operand (dc_use_es c) mo op m = Some x"
    and "\<And>n s'. fresh32 \<Gamma> n \<Longrightarrow> At E c (\<Gamma>(Temp n \<mapsto> x)) \<Delta> m s' \<Longrightarrow> Q (Temp n) s'"
  shows "wp (rl78_gen_load_operand op mo) Q s"
proof (cases "ind_ea (dc_use_es c) m op")
  case (Some ea)
  then have "mem_ld mo m ea = x" using assms(3) by (cases op) auto
  then show ?thesis using wp_load_ind[OF assms(1,2) Some, of mo Q] assms(4) by simp
next
  case None
  note p = cpu_okD(1)[OF assms(2)]
  show ?thesis using None assms(3)
    apply (cases op; simp only: rl78_gen_load_operand.simps ld_operand.simps ind_ea.simps option.inject option.distinct option.map)
               apply ((rule wp_load_byte_reg[OF assms(1,2)] wp_load_word_reg[OF assms(1,2)] wp_load_psw[OF assms(1) p]
          wp_load_sp[OF assms(1)] wp_load_es[OF assms(1)] wp_load_psw_cy[OF assms(1)] wp_new_const_i32[OF assms(1)]
          wp_load_abs16[OF assms(1) p] wp_load_saddr[OF assms(1) p] wp_load_sfr[OF assms(1) p],
          rule assms(4), assumption, simp)+)
    done
qed

lemma wp_store_operand [wp_rules]:
  assumes "At E c \<Gamma> \<Delta> m s" "\<Gamma> (Temp d) = Some v" "cpu_ok (cpu m)"
    "st_operand (pl_host_ptr (fst E)) (dc_use_es c) mo op v m = Some m'"
    and "\<And>s'. At E (ctx_operand mo op c) \<Gamma> \<Delta> m' s' \<Longrightarrow> Q () s'"
  shows "wp (rl78_gen_store_operand op (Temp d) mo) Q s"
proof (cases "ind_ea (dc_use_es c) m op")
  case (Some ea)
  then have "mem_st mo ea v m = m'" "ctx_operand mo op c = stored c" using assms(4) by (cases op; auto)+
  then show ?thesis using wp_store_ind[OF assms(1,3) Some assms(2), of mo Q] assms(5) by simp
next
  case None
  note a = assms(1,2)
  show ?thesis using None assms(4)
    apply (cases op; simp only: rl78_gen_store_operand.simps st_operand.simps ind_ea.simps option.inject option.distinct option.map)
            apply ((rule wp_store_byte_reg[OF a assms(3)] wp_store_word_reg[OF a assms(3)] wp_store_psw[OF a]
          wp_store_sp[OF a] wp_store_es[OF a] wp_store_psw_cy[OF a] wp_store_abs16[OF a] wp_store_saddr[OF a] wp_store_sfr[OF a],
          rule assms(5), simp)+)
    done
qed

section \<open>Bits\<close>

definition ctx_bit :: "RL78OperandBit \<Rightarrow> DisasContext \<Rightarrow> DisasContext" where
  "ctx_bit b c = (case bit_kind b of
       BITOP_SADDR \<Rightarrow> ctx_paddr MO_8 (saddr_of (bit_addr b)) c
     | BITOP_SFR \<Rightarrow> ctx_paddr MO_8 (0xFFF00 + bit_addr b) c
     | BITOP_ABS16 \<Rightarrow> (if dc_use_es c then stored c else ctx_paddr MO_8 (bit_addr b OR 0xF0000) c)
     | BITOP_IND_HL \<Rightarrow> stored c
     | _ \<Rightarrow> c)"

lemma wp_bit_byte_load:
  assumes "At E c \<Gamma> \<Delta> m s" "cpu_ok (cpu m)"
    and "\<And>n s'. fresh32 \<Gamma> n \<Longrightarrow> At E c (\<Gamma>(Temp n \<mapsto> ld_bit_byte (dc_use_es c) b m)) \<Delta> m s' \<Longrightarrow> Q (Temp n) s'"
  shows "wp (case bit_kind b of
         BITOP_SADDR \<Rightarrow> load_saddr (bit_addr b) MO_8
       | BITOP_SFR \<Rightarrow> load_sfr (bit_addr b) MO_8
       | BITOP_REG_A \<Rightarrow> load_byte_reg REG_A
       | BITOP_ABS16 \<Rightarrow> load_abs16 (bit_addr b) MO_8
       | BITOP_IND_HL \<Rightarrow> load_ind_reg_imm REG_HL 0 MO_8
       | BITOP_CY \<Rightarrow> load_psw_cy) Q s"
proof -
  note p = cpu_okD(1)[OF assms(2)]
  have i: "wp (load_ind_reg_imm REG_HL 0 MO_8) Q s" if "bit_kind b = BITOP_IND_HL"
    using wp_load_ind[OF assms(1,2), of "OP_IND_REG_IMM REG_HL 0" _ MO_8 Q] assms(3) that by (simp add: ld_bit_byte_def)
  show ?thesis
    apply (cases "bit_kind b"; simp only: RL78BitOpKind.simps i)
        apply (rule wp_load_saddr[OF assms(1) p] wp_load_sfr[OF assms(1) p] wp_load_byte_reg[OF assms(1,2)]
          wp_load_abs16[OF assms(1) p] wp_load_psw_cy[OF assms(1)], rule assms(3), assumption, simp add: ld_bit_byte_def)+
    done
qed

lemma wp_bit_byte_store:
  assumes "At E c \<Gamma> \<Delta> m s" "\<Gamma> (Temp d) = Some v" "cpu_ok (cpu m)"
    and "\<And>s'. At E (ctx_bit b c) \<Gamma> \<Delta> (st_bit_byte (pl_host_ptr (fst E)) (dc_use_es c) b v m) s' \<Longrightarrow> Q () s'"
  shows "wp (case bit_kind b of
         BITOP_SADDR \<Rightarrow> store_saddr (bit_addr b) (Temp d) MO_8
       | BITOP_SFR \<Rightarrow> store_sfr (bit_addr b) (Temp d) MO_8
       | BITOP_REG_A \<Rightarrow> store_byte_reg REG_A (Temp d)
       | BITOP_ABS16 \<Rightarrow> store_abs16 (bit_addr b) (Temp d) MO_8
       | BITOP_IND_HL \<Rightarrow> store_ind_reg_imm REG_HL 0 (Temp d) MO_8
       | BITOP_CY \<Rightarrow> store_psw_cy (Temp d)) Q s"
proof -
  note a = assms(1,2)
  have i: "wp (store_ind_reg_imm REG_HL 0 (Temp d) MO_8) Q s" if "bit_kind b = BITOP_IND_HL"
    using wp_store_ind[OF assms(1,3), of "OP_IND_REG_IMM REG_HL 0" _ d v MO_8 Q] assms(2,4) that
    by (simp add: st_bit_byte_def ctx_bit_def)
  show ?thesis
    apply (cases "bit_kind b"; simp only: RL78BitOpKind.simps i)
        apply (rule wp_store_saddr[OF a] wp_store_sfr[OF a] wp_store_byte_reg[OF a assms(3)]
          wp_store_abs16[OF a] wp_store_psw_cy[OF a], rule assms(4), simp add: st_bit_byte_def ctx_bit_def)+
    done
qed

lemma wp_load_bit [wp_rules]:
  assumes "At E c \<Gamma> \<Delta> m s" "cpu_ok (cpu m)" "unat (bit_bit b) < 32"
    and "\<And>n k s'. fresh32 \<Gamma> n \<Longrightarrow> fresh32 (\<Gamma>(Temp n \<mapsto> ld_bit_byte (dc_use_es c) b m)) k \<Longrightarrow>
      At E c (\<Gamma>(Temp n \<mapsto> ld_bit_byte (dc_use_es c) b m,
        Temp k \<mapsto> drop_bit (unat (bit_bit b)) (ld_bit_byte (dc_use_es c) b m) AND 1)) \<Delta> m s' \<Longrightarrow>
      Q \<lparr>bd_byte = Temp n, bd_bit = Temp k\<rparr> s'"
  shows "wp (rl78_gen_load_bit b) Q s"
  using assms(1) unfolding rl78_gen_load_bit_def wp_bind
  apply -
  apply (erule wp_rules)
  apply (erule wp_bit_byte_load, rule assms(2))
  apply ((erule wp_rules | (simp add: assms(3); fail))+, rule assms(4))
    apply (fastforce split: if_splits)
   apply (fastforce split: if_splits)
  apply (erule At_forget; auto simp: assms(3))
  done

lemma wp_store_bit [wp_rules]:
  assumes "At E c \<Gamma> \<Delta> m s" "cpu_ok (cpu m)" "\<Gamma> (Temp n) = Some v" "\<Gamma> (Temp k) = Some x" "unat (bit_bit b) < 32"
    and "\<And>s'. At E (ctx_bit b c) \<Gamma> \<Delta>
      (st_bit_byte (pl_host_ptr (fst E)) (dc_use_es c) b (with_bit v (unat (bit_bit b)) x) m) s' \<Longrightarrow> Q () s'"
  shows "wp (rl78_gen_store_bit b \<lparr>bd_byte = Temp n, bd_bit = Temp k\<rparr>) Q s"
  using assms(1,3,4) unfolding rl78_gen_store_bit_def wp_bind Let_def RL78BitData.simps
  apply -
  apply (((erule wp_rules | (simp add: assms(5); fail))+), erule wp_bit_byte_store, (simp; fail), (simp add: assms(2); fail), rule assms(6))
  apply (erule At_forget; auto simp: with_bit_def assms(5))
  done

end
