(* ===== verification/RL78_Flag_Rules.thy ===== *)
theory RL78_Flag_Rules
  imports RL78_Operand_Rules RL78_Translate
begin

text \<open>The flag generators of the translator against arithmetic on natural numbers, and the
  ranges of operand values.\<close>

section \<open>Arithmetic of the flags\<close>

definition half :: "u32 \<Rightarrow> u32 \<Rightarrow> u32 \<Rightarrow> bool" where
  "half x y r = bit ((x XOR y) XOR r) 4"

lemma bit_odd: "bit (x :: u32) n = odd (unat x div 2 ^ n)"
  using bit_unsigned_iff[where w = x and n = n, where ?'a = nat] by (simp add: bit_iff_odd)

lemma flag_less [simp]: "unat (flag b) < 2" "unat (flag b) < 256"
  by (simp_all add: flag_def)

lemma carry_bits:
  assumes "unat (x::u32) < 2 ^ w" "unat (y::u32) < 2 ^ w" "unat (c::u32) < 2" "w \<in> {8, 16}"
  shows "bit (x + y + c) w \<longleftrightarrow> 2 ^ w \<le> unat x + unat y + unat c"
    "unat (x + y + c) = unat x + unat y + unat c"
proof -
  show u: "unat (x + y + c) = unat x + unat y + unat c"
    using assms by (auto simp: unat_word_ariths)
  have "(unat x + unat y + unat c) div 2 ^ w = (if 2 ^ w \<le> unat x + unat y + unat c then 1 else 0)"
    using assms by auto
  then show "bit (x + y + c) w \<longleftrightarrow> 2 ^ w \<le> unat x + unat y + unat c"
    by (simp add: bit_odd u)
qed

lemma div_16_carry: "(t::nat) < 32 \<Longrightarrow> t div 16 = (if 16 \<le> t then 1 else 0)"
  by (auto simp: div_nat_eqI)

lemma half_carry_bit:
  assumes "unat (x::u32) < 256" "unat (y::u32) < 256" "unat (c::u32) < 2"
  shows "half x y (x + y + c) \<longleftrightarrow> 16 \<le> unat x mod 16 + unat y mod 16 + unat c"
proof -
  let ?t = "unat x mod 16 + unat y mod 16 + unat c"
  have u: "unat (x + y + c) = unat x + unat y + unat c" using carry_bits(2)[of x 8 y c] assms by simp
  also have "\<dots> = ?t + (unat x div 16 + unat y div 16) * 16" by (simp add: algebra_simps)
  finally have d: "unat (x + y + c) div 16 = unat x div 16 + unat y div 16 + ?t div 16"
    by (simp only: div_mult_self1 zero_neq_numeral[symmetric] not_False_eq_True)
  have "?t < 32" using assms(3) mod_less_divisor[of 16 "unat x"] mod_less_divisor[of 16 "unat y"] by linarith
  from div_16_carry[OF this] show ?thesis
    unfolding half_def bit_xor_iff unfolding bit_odd using d by auto
qed

lemma unat_of_nat_small: "n < 4294967296 \<Longrightarrow> unat (of_nat n :: u32) = n"
  by (simp add: unsigned_of_nat take_bit_nat_eq_self_iff)

lemma sub_unat:
  assumes "unat (x::u32) < 65536" "unat (y::u32) < 65536" "unat (c::u32) < 2"
  shows "unat y + unat c \<le> unat x \<Longrightarrow> unat (x - y - c) = unat x - unat y - unat c"
    "unat x < unat y + unat c \<Longrightarrow> unat (x - y - c) = 4294967296 + unat x - unat y - unat c"
proof -
  assume "unat y + unat c \<le> unat x"
  then have "x - y - c = of_nat (unat x - unat y - unat c)" by (simp add: of_nat_diff)
  then show "unat (x - y - c) = unat x - unat y - unat c" using assms(1) by (simp only: unat_of_nat_small)
next
  assume l: "unat x < unat y + unat c"
  have le: "unat y \<le> 4294967296 + unat x" "unat c \<le> 4294967296 + unat x - unat y" using assms by linarith+
  have "(of_nat (4294967296 + unat x - unat y - unat c) :: u32) = of_nat (4294967296 + unat x) - of_nat (unat y) - of_nat (unat c)"
    by (simp only: of_nat_diff[OF le(1)] of_nat_diff[OF le(2)])
  also have "\<dots> = x - y - c" by simp
  finally have e: "x - y - c = of_nat (4294967296 + unat x - unat y - unat c)" by (rule sym)
  show "unat (x - y - c) = 4294967296 + unat x - unat y - unat c"
    unfolding e by (rule unat_of_nat_small) (use assms l in linarith)
qed

lemma borrow_bits:
  assumes "unat (x::u32) < 2 ^ w" "unat (y::u32) < 2 ^ w" "unat (c::u32) < 2" "w \<in> {8, 16}"
  shows "bit (x - y - c) w \<longleftrightarrow> unat x < unat y + unat c"
proof -
  have b: "unat x < 65536" "unat y < 65536" using assms by auto
  show ?thesis
  proof (cases "unat x < unat y + unat c")
    case True
    let ?d = "unat y + unat c - unat x"
    have d: "0 < ?d" "?d \<le> 2 ^ w" using True assms(2,3) by auto
    have "unat (x - y - c) = 4294967296 - ?d" using sub_unat(2)[OF b assms(3) True] True by linarith
    moreover have "(4294967296 - ?d) div 2 ^ w = 4294967296 div 2 ^ w - 1"
      using assms(4) d by (auto intro!: div_nat_eqI)
    ultimately show ?thesis using True assms(4) by (auto simp: bit_odd)
  next
    case False
    then have "unat (x - y - c) < 2 ^ w" using sub_unat(1)[OF b assms(3)] assms(1) by simp
    then show ?thesis using False by (simp add: bit_odd)
  qed
qed

lemma half_borrow_bit:
  assumes "unat (x::u32) < 256" "unat (y::u32) < 256" "unat (c::u32) < 2"
  shows "half x y (x - y - c) \<longleftrightarrow> unat x mod 16 < unat y mod 16 + unat c"
proof -
  have b: "unat x < 65536" "unat y < 65536" using assms by auto
  let ?t = "16 + unat x mod 16 - (unat y mod 16 + unat c)"
  have t: "?t < 32" "unat y mod 16 + unat c \<le> 16 + unat x mod 16" "16 \<le> ?t \<longleftrightarrow> \<not> unat x mod 16 < unat y mod 16 + unat c"
    using assms(3) mod_less_divisor[of 16 "unat x"] mod_less_divisor[of 16 "unat y"] by linarith+
  obtain K where K: "K = 0 \<or> K = 268435456" "unat (x - y - c) + unat y + unat c = unat x + 16 * K"
  proof (cases "unat x < unat y + unat c")
    case True
    then show ?thesis using sub_unat(2)[OF b assms(3) True] assms that[of 268435456] by linarith
  next
    case False
    then show ?thesis using sub_unat(1)[OF b assms(3)] that[of 0] by linarith
  qed
  have x: "unat x = 16 * (unat x div 16) + unat x mod 16" "unat y = 16 * (unat y div 16) + unat y mod 16" by simp_all
  have "unat (x - y - c) + 16 * (unat y div 16) + 16 = 16 * (unat x div 16) + 16 * K + ?t"
    using K(2) x t(2) by linarith
  then have "(unat (x - y - c) + (unat y div 16 + 1) * 16) div 16 = (?t + (unat x div 16 + K) * 16) div 16"
    by (simp add: algebra_simps)
  then have d: "unat (x - y - c) div 16 + unat y div 16 + 1 = ?t div 16 + unat x div 16 + K"
    by (simp only: div_mult_self1 zero_neq_numeral[symmetric] not_False_eq_True)
  have "even K" using K(1) by auto
  then have "odd (unat (x - y - c) div 16 + unat y div 16 + unat x div 16) \<longleftrightarrow> even (?t div 16)"
    using arg_cong[OF d, of even] by auto
  then show ?thesis
    unfolding half_def bit_xor_iff unfolding bit_odd using div_16_carry[OF t(1)] t(3) by auto
qed

section \<open>Flag generators\<close>

lemma shift_and_1: "drop_bit n (x::u32) AND 1 = flag (bit x n)"
  by (rule bit_word_eqI, case_tac "na = 0") (auto simp: flag_def bit_simps)

lemma half_shift: "((drop_bit 4 x XOR drop_bit 4 y) XOR drop_bit 4 r) AND 1 = flag (half x y r)"
  unfolding half_def shift_and_1[symmetric] by (simp only: drop_bit_xor)

lemma wp_flag_bit:
  assumes "At E c \<Gamma> \<Delta> m s" "\<Gamma> (Temp k) = Some x" "unat p < 32"
    and "\<And>n s'. fresh32 \<Gamma> n \<Longrightarrow> At E c (\<Gamma>(Temp n \<mapsto> flag (bit x (unat p)))) \<Delta> m s' \<Longrightarrow> Q (Temp n) s'"
  shows "wp (do { cy \<leftarrow> tcg_temp_new_i32; tcg_gen_shri_i32 cy (Temp k) p; tcg_gen_andi_i32 cy cy 1; State_Monad.return cy }) Q s"
  using assms(1,2) unfolding wp_bind
  apply -
  apply ((erule wp_rules | (simp add: assms(3); fail))+, rule assms(4), assumption, (erule At_result; auto simp: shift_and_1 simp del: and_one_eq)[1])
  done

lemma wp_carry_byte [wp_rules]:
  assumes "At E c \<Gamma> \<Delta> m s" "\<Gamma> (Temp k) = Some x"
    and "\<And>n s'. fresh32 \<Gamma> n \<Longrightarrow> At E c (\<Gamma>(Temp n \<mapsto> flag (bit x 8))) \<Delta> m s' \<Longrightarrow> Q (Temp n) s'"
  shows "wp (carry_byte (Temp k)) Q s"
  unfolding carry_byte_def by (rule wp_flag_bit[OF assms(1,2)]) (simp_all add: assms(3))

lemma wp_borrow_byte [wp_rules]:
  assumes "At E c \<Gamma> \<Delta> m s" "\<Gamma> (Temp k) = Some x"
    and "\<And>n s'. fresh32 \<Gamma> n \<Longrightarrow> At E c (\<Gamma>(Temp n \<mapsto> flag (bit x 8))) \<Delta> m s' \<Longrightarrow> Q (Temp n) s'"
  shows "wp (borrow_byte (Temp k)) Q s"
  unfolding borrow_byte_def by (rule wp_flag_bit[OF assms(1,2)]) (simp_all add: assms(3))

lemma wp_carry_word [wp_rules]:
  assumes "At E c \<Gamma> \<Delta> m s" "\<Gamma> (Temp k) = Some x"
    and "\<And>n s'. fresh32 \<Gamma> n \<Longrightarrow> At E c (\<Gamma>(Temp n \<mapsto> flag (bit x 16))) \<Delta> m s' \<Longrightarrow> Q (Temp n) s'"
  shows "wp (carry_word (Temp k)) Q s"
  unfolding carry_word_def by (rule wp_flag_bit[OF assms(1,2)]) (simp_all add: assms(3))

lemma wp_borrow_word [wp_rules]:
  assumes "At E c \<Gamma> \<Delta> m s" "\<Gamma> (Temp k) = Some x"
    and "\<And>n s'. fresh32 \<Gamma> n \<Longrightarrow> At E c (\<Gamma>(Temp n \<mapsto> flag (bit x 16))) \<Delta> m s' \<Longrightarrow> Q (Temp n) s'"
  shows "wp (borrow_word (Temp k)) Q s"
  unfolding borrow_word_def by (rule wp_flag_bit[OF assms(1,2)]) (simp_all add: assms(3))

lemma wp_zero_byte [wp_rules]:
  assumes "At E c \<Gamma> \<Delta> m s" "\<Gamma> (Temp k) = Some x"
    and "\<And>n s'. fresh32 \<Gamma> n \<Longrightarrow> At E c (\<Gamma>(Temp n \<mapsto> flag (x AND 0xFF = 0))) \<Delta> m s' \<Longrightarrow> Q (Temp n) s'"
  shows "wp (zero_byte (Temp k)) Q s"
  using assms(1,2) unfolding zero_byte_def wp_bind
  apply -
  apply ((erule wp_rules | (simp; fail))+, rule assms(3), assumption, (erule At_result; auto simp: flag_def)[1])
  done

lemma wp_zero_word [wp_rules]:
  assumes "At E c \<Gamma> \<Delta> m s" "\<Gamma> (Temp k) = Some x"
    and "\<And>n s'. fresh32 \<Gamma> n \<Longrightarrow> At E c (\<Gamma>(Temp n \<mapsto> flag (x AND 0xFFFF = 0))) \<Delta> m s' \<Longrightarrow> Q (Temp n) s'"
  shows "wp (zero_word (Temp k)) Q s"
  using assms(1,2) unfolding zero_word_def wp_bind
  apply -
  apply ((erule wp_rules | (simp; fail))+, rule assms(3), assumption, (erule At_result; auto simp: flag_def)[1])
  done

lemma wp_half_carry [wp_rules]:
  assumes "At E c \<Gamma> \<Delta> m s" "\<Gamma> (Temp j) = Some x" "\<Gamma> (Temp k) = Some y" "\<Gamma> (Temp l) = Some r"
    and "\<And>n s'. fresh32 \<Gamma> n \<Longrightarrow> At E c (\<Gamma>(Temp n \<mapsto> flag (half x y r))) \<Delta> m s' \<Longrightarrow> Q (Temp n) s'"
  shows "wp (half_carry (Temp j) (Temp k) (Temp l)) Q s"
  using assms(1-4) unfolding half_carry_def wp_bind
  apply -
  apply ((erule wp_rules | (simp; fail))+, rule assms(5), (fastforce split: if_splits)[1])
  apply (erule At_result; auto simp: half_shift simp del: and_one_eq)
  done

lemma wp_half_borrow [wp_rules]:
  assumes "At E c \<Gamma> \<Delta> m s" "\<Gamma> (Temp j) = Some x" "\<Gamma> (Temp k) = Some y" "\<Gamma> (Temp l) = Some r"
    and "\<And>n s'. fresh32 \<Gamma> n \<Longrightarrow> At E c (\<Gamma>(Temp n \<mapsto> flag (half x y r))) \<Delta> m s' \<Longrightarrow> Q (Temp n) s'"
  shows "wp (half_borrow (Temp j) (Temp k) (Temp l)) Q s"
  using assms(1-4) unfolding half_borrow_def wp_bind
  apply -
  apply ((erule wp_rules | (simp; fail))+, rule assms(5), (fastforce split: if_splits)[1])
  apply (erule At_result; auto simp: half_shift simp del: and_one_eq)
  done

section \<open>Operand values\<close>

lemma ucast_less [simp]: "unat (ucast (b::u8) :: u32) < 65536"
  using unat_byte[of b] by linarith

lemma mem_ld_less: "unat (mem_ld MO_8 m a) < 256" "unat (mem_ld mo m a) < 65536"
  by (cases mo; simp add: mem_ld_def ram_ld_def)+

lemma unat_and_le: "unat ((x::u32) AND y) \<le> unat y"
  by (simp only: word_le_nat_alt[symmetric] word_and_le1)

lemma and_less [simp]: "unat ((x::u32) AND 0xFF) < 256" "unat (x AND 0xFF) < 65536" "unat (x AND 0xFFFF) < 65536"
  "unat (x AND 0xFFFE) < 65536" "unat (x AND 0xFE) < 256" "unat (x AND 0xFE) < 65536"
  by (rule le_less_trans[OF unat_and_le], simp)+

lemma ld_paddr_less:
  assumes "cpu_ok (cpu m)"
  shows "unat (ld_paddr MO_8 a m) < 256" "unat (ld_paddr mo a m) < 65536"
  using mem_ld_less cpu_okD(2,3)[OF assms] by (cases mo; simp add: ld_paddr_def)+

lemma ld_byte_less:
  assumes "cpu_ok (cpu m)" "byte_loc a \<or> is_imm8 a" "ld_operand es MO_8 a m = Some x"
  shows "unat x < 256"
  using assms by (cases a) (auto simp: byte_loc_def mem_ld_less ld_paddr_less gpr8_less)

lemma ld_word_less:
  assumes "cpu_ok (cpu m)" "word_loc a \<or> is_imm16 a \<or> is_imm8 a" "ld_operand es MO_16 a m = Some x"
  shows "unat x < 65536"
  using assms by (cases a) (auto simp: word_loc_def mem_ld_less ld_paddr_less gpr16_def unat_get_rp_less)

lemma deposit_low_norm: "v AND 0xFF = w AND 0xFF \<Longrightarrow> deposit32 x v ofs 8 = deposit32 x w ofs 8"
  "v AND 0xFF = w AND 0xFF \<Longrightarrow> deposit32 x v ofs 4 = deposit32 x w ofs 4"
proof -
  assume e: "v AND 0xFF = w AND 0xFF"
  then have t: "take_bit 8 v = take_bit 8 w" by (simp add: mask_simps)
  from arg_cong[OF this, of "take_bit 4"] have "take_bit 4 v = take_bit 4 w" by simp
  with t show "deposit32 x v ofs 8 = deposit32 x w ofs 8" "deposit32 x v ofs 4 = deposit32 x w ofs 4"
    by (simp_all add: deposit32_def)
qed

lemma write_byte_norm: "rl78_write_byte hp m a (v AND 0xFF) = rl78_write_byte hp m a v"
  by (simp add: rl78_write_byte.simps[of hp m a] and.assoc)

lemma mdu_cmd_norm: "helper_rl78_mdu_cmd hp m (v AND 0xFF) = helper_rl78_mdu_cmd hp m v"
  by (simp add: helper_rl78_mdu_cmd.simps[of hp m] and.assoc)

lemma byte_norms:
  assumes "v AND 0xFF = w AND 0xFF"
  shows "(ucast v :: u8) = ucast w" "rl78_write_byte hp m a v = rl78_write_byte hp m a w"
    "helper_rl78_mdu_cmd hp m v = helper_rl78_mdu_cmd hp m w"
  using assms ucast_u8_id(2)[of v] ucast_u8_id(2)[of w] write_byte_norm[of hp m a v] write_byte_norm[of hp m a w]
    mdu_cmd_norm[of hp m v] mdu_cmd_norm[of hp m w] by metis+

lemma st_byte_norm:
  assumes "byte_loc a" "v AND 0xFF = w AND 0xFF"
  shows "st_operand hp es MO_8 a v m = st_operand hp es MO_8 a w m"
  using assms
  by (cases a) (simp_all add: byte_loc_def set_gpr8_def st_paddr_def mem_st_def ram_st_def set_psw_def byte_norms[OF assms(2)]
      deposit_low_norm[OF assms(2)])

lemma word_norms:
  assumes "v AND 0xFFFF = (w::u32) AND 0xFFFF"
  shows "v AND 0xFFFE = w AND 0xFFFE" "rl78_set_rp c r v = rl78_set_rp c r w"
   "(ucast v :: u8) = ucast w" "(ucast (drop_bit 8 v) :: u8) = ucast (drop_bit 8 w)"
proof -
  have t: "take_bit 16 v = take_bit 16 w" using assms by (simp add: mask_simps)
  have 8: "take_bit 8 v = take_bit 8 w" using arg_cong[OF t, of "take_bit 8"] by simp
  have h: "take_bit 8 (drop_bit 8 v) = take_bit 8 (drop_bit 8 w)"
    using arg_cong[OF t, of "drop_bit 8"] by (simp add: drop_bit_take_bit)
  show "v AND 0xFFFE = w AND 0xFFFE" using arg_cong[OF assms, of "\<lambda>x. x AND 0xFFFE"] by (simp add: and.assoc)
  show "rl78_set_rp c r v = rl78_set_rp c r w" using 8 h by (simp add: rl78_set_rp_def Let_def mask_simps)
  show "(ucast v :: u8) = ucast w" using 8 ucast_u8_norm[of v] ucast_u8_norm[of w] by simp
  show "(ucast (drop_bit 8 v) :: u8) = ucast (drop_bit 8 w)"
    using h ucast_u8_norm[of "drop_bit 8 v"] ucast_u8_norm[of "drop_bit 8 w"] by simp
qed
lemma st_word_norm:
  assumes "word_loc a" "v AND 0xFFFF = w AND 0xFFFF"
  shows "st_operand hp es MO_16 a v m = st_operand hp es MO_16 a w m"
  using assms
  by (cases a) (simp_all add: word_loc_def set_gpr16_def st_paddr_def mem_st_def ram_st_def word_norms[OF assms(2)])
end
