(* ===== verification/RL78_Arith_Rules.thy ===== *)
theory RL78_Arith_Rules
  imports RL78_Flag_Rules
begin

text \<open>Moves, arithmetic and logic: each handler of the translator implements the instruction
  of theory \<^verbatim>\<open>RL78_ISA\<close>. A handler that leaves the generated code running at the next
  instruction ends in \<^verbatim>\<open>Fell\<close>.\<close>

section \<open>Falling through\<close>

definition same_tb :: "DisasContext \<Rightarrow> DisasContext \<Rightarrow> bool" where
  "same_tb c c' \<longleftrightarrow> base_pc c' = base_pc c \<and> tb_pc c' = tb_pc c \<and> dc_use_es c' = dc_use_es c \<and>
     tb_size c' = tb_size c \<and> (base_is_jmp c' = base_is_jmp c \<or> base_is_jmp c' = DISAS_UPDATE)"

definition Fell :: "run_env \<Rightarrow> DisasContext \<Rightarrow> machine \<Rightarrow> gen_state \<Rightarrow> bool" where
  "Fell E c m s \<longleftrightarrow> (\<exists>c'. same_tb c c' \<and> At E c' Map.empty Map.empty m s)"

lemma FellI: "At E c' \<Gamma> \<Delta> m' s \<Longrightarrow> m' = m \<Longrightarrow> same_tb c c' \<Longrightarrow> Fell E c m s"
  unfolding Fell_def using At_weaken[of E c' \<Gamma> \<Delta> m' s Map.empty Map.empty m c'] by auto

lemma Fell_done: "At E c' \<Gamma> \<Delta> m' s \<Longrightarrow> m' = m \<Longrightarrow> same_tb c c' \<Longrightarrow> True \<and> Fell E c m s"
  by (simp add: FellI)

lemma same_tb_refl [simp]: "same_tb c c"
  by (simp add: same_tb_def)

lemma same_tb_upd [simp]:
  "same_tb c (c'\<lparr>base_exit_check := b\<rparr>) = same_tb c c'" "same_tb c (c'\<lparr>dc_skip_flag := f\<rparr>) = same_tb c c'"
  "same_tb c c' \<Longrightarrow> same_tb c (c'\<lparr>base_is_jmp := DISAS_UPDATE\<rparr>)"
  by (simp_all add: same_tb_def)

lemma same_tb_ctx [simp]:
  assumes "same_tb c c'"
  shows "same_tb c (ctx_paddr mo a c')" "same_tb c (ctx_operand mo op c')" "same_tb c (ctx_bit b c')"
proof -
  have p: "same_tb c (ctx_paddr mo a c')" for mo a using assms by (simp add: ctx_paddr_def)
  then show "same_tb c (ctx_paddr mo a c')" .
  show "same_tb c (ctx_operand mo op c')" using assms p by (cases op) simp_all
  show "same_tb c (ctx_bit b c')" using assms p by (simp add: ctx_bit_def split: RL78BitOpKind.split)
qed

lemma ctx_use_es [simp]:
  "dc_use_es (ctx_operand mo op c) = dc_use_es c" "dc_use_es (ctx_bit b c) = dc_use_es c"
  using same_tb_ctx(2)[of c c mo op] same_tb_ctx(3)[of c c b] by (simp_all add: same_tb_def)

section \<open>The invariant\<close>

lemma cpu_ok_psw_upd: "cpu_ok (cpu m) \<Longrightarrow> psw_ok (f (env_psw (cpu m))) \<Longrightarrow> cpu_ok (cpu (psw_upd f m))"
  by (simp add: psw_upd_def cpu_ok_def)

lemma set_flag_ok [simp]:
  "cpu_ok (cpu m) \<Longrightarrow> cpu_ok (cpu (set_cy b m))" "cpu_ok (cpu m) \<Longrightarrow> cpu_ok (cpu (set_z b m))"
  "cpu_ok (cpu m) \<Longrightarrow> cpu_ok (cpu (set_ac b m))"
  by (simp_all add: set_cy_def set_z_def set_ac_def psw_upd_def cpu_ok_def psw_ok_def)

lemma mem_st_cpu [simp]: "cpu (mem_st mo a v m) = cpu m"
  by (cases mo) (simp_all add: mem_st_def ram_st_def)

lemma set_gpr_ok [simp]: "cpu_ok (cpu m) \<Longrightarrow> cpu_ok (cpu (set_gpr8 r v m))" "cpu_ok (cpu m) \<Longrightarrow> cpu_ok (cpu (set_gpr16 w v m))"
  by (simp_all add: set_gpr8_def set_gpr16_def cpu_ok_set_reg)

lemma set_psw_ok [simp]: "cpu_ok (cpu m) \<Longrightarrow> cpu_ok (cpu (set_psw v m))"
  by (simp add: set_psw_def cpu_ok_def)

lemma deposit_4_ok: "unat x < 2 ^ k \<Longrightarrow> 4 \<le> k \<Longrightarrow> unat (deposit32 x v 0 4) < 2 ^ k"
  by (rule unat_less_bits) (auto simp: bit_deposit32 dest: bit_small split: if_splits)

lemma st_paddr_ok:
  assumes "cpu_ok (cpu m)"
  shows "cpu_ok (cpu (st_paddr hp mo a v m))"
  using assms set_psw_ok[OF assms] mdu_cmd_ok[OF assms] write_byte_ok[OF assms] deposit_4_ok[of "env_cs (cpu m)" 4 v]
    deposit_4_ok[of "env_es (cpu m)" 8 v]
  by (simp add: st_paddr_def) (simp add: cpu_ok_def)

lemma st_operand_ok:
  assumes "cpu_ok (cpu m)" "st_operand hp es mo op v m = Some m'" "byte_loc op \<or> word_loc op \<or> op = OP_ES \<and> unat v < 256"
  shows "cpu_ok (cpu m')"
  using assms st_paddr_ok[OF assms(1)]
  by (cases op) (auto simp: byte_loc_def word_loc_def, auto simp: cpu_ok_def)

section \<open>Moves\<close>

lemma wp_trans_MOV:
  assumes "At E c \<Gamma> \<Delta> m s" "cpu_ok (cpu m)" "isa_mov (pl_host_ptr (fst E)) (dc_use_es c) MO_8 (operand0 i) (operand1 i) m = Some m'"
  shows "wp (trans_MOV i) (\<lambda>r s'. r \<and> Fell E c m' s') s"
  using assms unfolding trans_MOV_def wp_bind
  apply (auto simp: isa_mov_def Option.bind_eq_Some_conv)
  apply ((erule wp_rules | (simp; fail))+)
  apply (auto intro: FellI)
  done

lemma wp_trans_XCH:
  assumes "At E c \<Gamma> \<Delta> m s" "cpu_ok (cpu m)" "byte_loc (operand0 i)" "byte_loc (operand1 i)"
   "isa_xch (pl_host_ptr (fst E)) (dc_use_es c) MO_8 (operand0 i) (operand1 i) m = Some m'"
  shows "wp (trans_XCH i) (\<lambda>r s'. r \<and> Fell E c m' s') s"
proof -
  obtain x y m1 where
   "ld_operand (dc_use_es c) MO_8 (operand0 i) m = Some x" "ld_operand (dc_use_es c) MO_8 (operand1 i) m = Some y"
   and s1: "st_operand (pl_host_ptr (fst E)) (dc_use_es c) MO_8 (operand1 i) x m = Some m1"
   and s2: "st_operand (pl_host_ptr (fst E)) (dc_use_es c) MO_8 (operand0 i) y m1 = Some m'"
    using assms(5) by (auto simp: isa_xch_def Option.bind_eq_Some_conv)
  moreover have "cpu_ok (cpu m1)" by (rule st_operand_ok[OF assms(2) s1]) (simp add: assms(4))
  ultimately show ?thesis
  using assms(1,2) unfolding trans_XCH_def wp_bind
  apply -
  apply ((erule wp_rules | (simp; fail))+)
  apply (auto intro: FellI)
  done
qed

section \<open>Byte arithmetic\<close>

lemmas isa_flag_defs = set_z_def set_ac_def set_cy_def psw_upd_def

lemma and_255_nat: "(w::u32) AND 0xFF = of_nat (unat w mod 256)" "w AND 0xFF = 0 \<longleftrightarrow> unat w mod 256 = 0"
  by (simp_all add: mask_simps word_unat_eq_iff unat_take_bit unat_of_nat_small)

lemma and_65535_nat: "(w::u32) AND 0xFFFF = of_nat (unat w mod 65536)" "w AND 0xFFFF = 0 \<longleftrightarrow> unat w mod 65536 = 0"
  by (simp_all add: mask_simps word_unat_eq_iff unat_take_bit unat_of_nat_small)

lemma st_byte_mod:
  assumes "byte_loc a" "unat w mod 256 = n mod 256"
  shows "st_operand hp es MO_8 a (of_nat (n mod 256)) m = st_operand hp es MO_8 a w m"
  by (rule st_byte_norm[OF assms(1)]) (simp add: and_255_nat unat_of_nat_small assms(2))

lemma st_word_mod:
  assumes "word_loc a" "unat w mod 65536 = n mod 65536"
  shows "st_operand hp es MO_16 a (of_nat (n mod 65536)) m = st_operand hp es MO_16 a w m"
  by (rule st_word_norm[OF assms(1)]) (simp add: and_65535_nat unat_of_nat_small assms(2))

lemma add8_facts:
  assumes "isa_add8 hp es (unat c) a b m = Some m'" "cpu_ok (cpu m)" "byte_loc a" "byte_loc b \<or> is_imm8 b" "unat c < 2"
  obtains x y m1 where "ld_operand es MO_8 a m = Some x" "ld_operand es MO_8 b m = Some y"
    "st_operand hp es MO_8 a (x + y + c) m = Some m1"
    "m' = set_z ((x + y + c) AND 0xFF = 0) (set_ac (half x y (x + y + c)) (set_cy (bit (x + y + c) 8) m1))"
proof -
  obtain x y m1 where
   l: "ld_operand es MO_8 a m = Some x" "ld_operand es MO_8 b m = Some y"
   and s: "st_operand hp es MO_8 a (of_nat ((unat x + unat y + unat c) mod 256)) m = Some m1"
   and m': "m' = set_z ((unat x + unat y + unat c) mod 256 = 0)
      (set_ac (16 \<le> unat x mod 16 + unat y mod 16 + unat c) (set_cy (256 \<le> unat x + unat y + unat c) m1))"
    using assms(1) by (auto simp: isa_add8_def ld2_def Option.bind_eq_Some_conv)
  have b: "unat x < 256" "unat y < 256" using ld_byte_less[OF assms(2)] l assms(3,4) by blast+
  note f = carry_bits[of x 8 y c, simplified, OF b assms(5)] half_carry_bit[OF b assms(5)]
  show ?thesis
    using that[OF l] s st_byte_mod[OF assms(3), of "x + y + c" "unat x + unat y + unat c" hp es m]
    by (simp add: m' f and_255_nat(2))
qed

lemma nat_sub_mod:
  assumes "unat (x::u32) < 65536" "unat (y::u32) < 65536" "unat (c::u32) < 2" "M \<in> {256, 65536}"
  shows "(int (unat x) - int (unat y) - int (unat c)) mod int M = int (unat (x - y - c) mod M)"
proof (cases "unat x < unat y + unat c")
  case True
  have d: "int M dvd 4294967296" using assms(4) by auto
  have "int (unat (x - y - c)) = 4294967296 + (int (unat x) - int (unat y) - int (unat c))"
    using sub_unat(2)[OF assms(1-3) True] assms(2,3) by linarith
  then show ?thesis using d by (simp add: zmod_int mod_add_left_eq[symmetric] dvd_imp_mod_0 del: mod_add_left_eq)
next
  case False
  then have "int (unat (x - y - c)) = int (unat x) - int (unat y) - int (unat c)"
    using sub_unat(1)[OF assms(1-3)] by linarith
  then show ?thesis by (simp add: zmod_int)
qed

lemma sub_flags8_bits:
  assumes "unat (x::u32) < 256" "unat (y::u32) < 256" "unat (c::u32) < 2"
  shows "sub_flags8 (unat x) (unat y) (unat c) m =
     set_z ((x - y - c) AND 0xFF = 0) (set_ac (half x y (x - y - c)) (set_cy (bit (x - y - c) 8) m))"
  using borrow_bits[of x 8 y c] half_borrow_bit[OF assms] nat_sub_mod[of x y c 256] assms
  by (simp add: and_255_nat(2) sub_flags8_def)

lemma sub8_facts:
  assumes "isa_sub8 hp es (unat c) a b m = Some m'" "cpu_ok (cpu m)" "byte_loc a" "byte_loc b \<or> is_imm8 b" "unat c < 2"
  obtains x y m1 where "ld_operand es MO_8 a m = Some x" "ld_operand es MO_8 b m = Some y"
    "st_operand hp es MO_8 a (x - y - c) m = Some m1"
    "m' = set_z ((x - y - c) AND 0xFF = 0) (set_ac (half x y (x - y - c)) (set_cy (bit (x - y - c) 8) m1))"
proof -
  obtain x y m1 where
   l: "ld_operand es MO_8 a m = Some x" "ld_operand es MO_8 b m = Some y"
   and s: "st_operand hp es MO_8 a (of_int ((int (unat x) - int (unat y) - int (unat c)) mod 256)) m = Some m1"
   and m': "m' = sub_flags8 (unat x) (unat y) (unat c) m1"
    using assms(1) by (auto simp: isa_sub8_def ld2_def Option.bind_eq_Some_conv)
  have b: "unat x < 256" "unat y < 256" using ld_byte_less[OF assms(2)] l assms(3,4) by blast+
  show ?thesis
    using that[OF l] s st_byte_mod[OF assms(3), of "x - y - c" "unat (x - y - c)" hp es m] b assms(5)
      nat_sub_mod[of x y c 256] sub_flags8_bits[OF b assms(5)] by (simp add: m')
qed

lemma cmp8_facts:
  assumes "ld2 es MO_8 a b m = Some (u, v)" "cpu_ok (cpu m)" "byte_loc a" "byte_loc b \<or> is_imm8 b"
  obtains x y where "ld_operand es MO_8 a m = Some x" "ld_operand es MO_8 b m = Some y" "u = unat x" "v = unat y"
    "unat x < 256" "unat y < 256"
proof -
  from assms(1) obtain x y where l: "ld_operand es MO_8 a m = Some x" "ld_operand es MO_8 b m = Some y" "u = unat x" "v = unat y"
    by (auto simp: ld2_def Option.bind_eq_Some_conv)
  show ?thesis by (rule that[OF l]) (use ld_byte_less[OF assms(2)] l assms(3,4) in blast)+
qed

lemma psw_cy_less: "cpu_ok (cpu m) \<Longrightarrow> unat (psw_cy (env_psw (cpu m))) < 2"
  by (simp add: cpu_ok_def psw_ok_def)

lemma wp_trans_ADD:
  assumes "At E c \<Gamma> \<Delta> m s" "cpu_ok (cpu m)" "byte_loc (operand0 i)" "byte_loc (operand1 i) \<or> is_imm8 (operand1 i)"
   "isa_add8 (pl_host_ptr (fst E)) (dc_use_es c) 0 (operand0 i) (operand1 i) m = Some m'"
  shows "wp (trans_ADD i) (\<lambda>r s'. r \<and> Fell E c m' s') s"
proof (rule add8_facts[where c = 0, simplified, OF assms(5,2-4)])
  fix x y m1
  assume m': "m' = set_z ((x + y) AND 0xFF = 0) (set_ac (half x y (x + y)) (set_cy (bit (x + y) 8) m1))"
   and "ld_operand (dc_use_es c) MO_8 (operand0 i) m = Some x" "ld_operand (dc_use_es c) MO_8 (operand1 i) m = Some y"
    "st_operand (pl_host_ptr (fst E)) (dc_use_es c) MO_8 (operand0 i) (x + y) m = Some m1"
  then show ?thesis
    using assms(1,2) unfolding trans_ADD_def wp_bind
    apply -
    apply ((erule wp_rules | (simp; fail))+, erule Fell_done, simp_all add: m' isa_flag_defs)
    done
qed
lemma wp_trans_ADDC:
  assumes "At E c \<Gamma> \<Delta> m s" "cpu_ok (cpu m)" "byte_loc (operand0 i)" "byte_loc (operand1 i) \<or> is_imm8 (operand1 i)"
   "isa_add8 (pl_host_ptr (fst E)) (dc_use_es c) (cy m) (operand0 i) (operand1 i) m = Some m'"
  shows "wp (trans_ADDC i) (\<lambda>r s'. r \<and> Fell E c m' s') s"
proof (rule add8_facts[where c = "psw_cy (env_psw (cpu m))", OF assms(5)[unfolded cy_def] assms(2-4) psw_cy_less[OF assms(2)]])
  fix x y m1
  assume m': "m' = set_z ((x + y + psw_cy (env_psw (cpu m))) AND 0xFF = 0) (set_ac (half x y (x + y + psw_cy (env_psw (cpu m)))) (set_cy (bit (x + y + psw_cy (env_psw (cpu m))) 8) m1))"
   and "ld_operand (dc_use_es c) MO_8 (operand0 i) m = Some x" "ld_operand (dc_use_es c) MO_8 (operand1 i) m = Some y"
    "st_operand (pl_host_ptr (fst E)) (dc_use_es c) MO_8 (operand0 i) (x + y + psw_cy (env_psw (cpu m))) m = Some m1"
  then show ?thesis
    using assms(1,2) unfolding trans_ADDC_def wp_bind
    apply -
    apply ((erule wp_rules | (simp; fail))+, erule Fell_done, simp_all add: m' isa_flag_defs)
    done
qed

lemma wp_trans_SUB:
  assumes "At E c \<Gamma> \<Delta> m s" "cpu_ok (cpu m)" "byte_loc (operand0 i)" "byte_loc (operand1 i) \<or> is_imm8 (operand1 i)"
   "isa_sub8 (pl_host_ptr (fst E)) (dc_use_es c) 0 (operand0 i) (operand1 i) m = Some m'"
  shows "wp (trans_SUB i) (\<lambda>r s'. r \<and> Fell E c m' s') s"
proof (rule sub8_facts[where c = 0, simplified, OF assms(5,2-4)])
  fix x y m1
  assume m': "m' = set_z ((x - y) AND 0xFF = 0) (set_ac (half x y (x - y)) (set_cy (bit (x - y) 8) m1))"
   and "ld_operand (dc_use_es c) MO_8 (operand0 i) m = Some x" "ld_operand (dc_use_es c) MO_8 (operand1 i) m = Some y"
    "st_operand (pl_host_ptr (fst E)) (dc_use_es c) MO_8 (operand0 i) (x - y) m = Some m1"
  then show ?thesis
    using assms(1,2) unfolding trans_SUB_def wp_bind
    apply -
    apply ((erule wp_rules | (simp; fail))+, erule Fell_done, simp_all add: m' isa_flag_defs)
    done
qed

lemma wp_trans_SUBC:
  assumes "At E c \<Gamma> \<Delta> m s" "cpu_ok (cpu m)" "byte_loc (operand0 i)" "byte_loc (operand1 i) \<or> is_imm8 (operand1 i)"
   "isa_sub8 (pl_host_ptr (fst E)) (dc_use_es c) (cy m) (operand0 i) (operand1 i) m = Some m'"
  shows "wp (trans_SUBC i) (\<lambda>r s'. r \<and> Fell E c m' s') s"
proof (rule sub8_facts[where c = "psw_cy (env_psw (cpu m))", OF assms(5)[unfolded cy_def] assms(2-4) psw_cy_less[OF assms(2)]])
  fix x y m1
  assume m': "m' = set_z ((x - y - psw_cy (env_psw (cpu m))) AND 0xFF = 0) (set_ac (half x y (x - y - psw_cy (env_psw (cpu m)))) (set_cy (bit (x - y - psw_cy (env_psw (cpu m))) 8) m1))"
   and "ld_operand (dc_use_es c) MO_8 (operand0 i) m = Some x" "ld_operand (dc_use_es c) MO_8 (operand1 i) m = Some y"
    "st_operand (pl_host_ptr (fst E)) (dc_use_es c) MO_8 (operand0 i) (x - y - psw_cy (env_psw (cpu m))) m = Some m1"
  then show ?thesis
    using assms(1,2) unfolding trans_SUBC_def wp_bind
    apply -
    apply ((erule wp_rules | (simp; fail))+, erule Fell_done, simp_all add: m' isa_flag_defs)
    done
qed

lemma wp_trans_CMP:
  assumes "At E c \<Gamma> \<Delta> m s" "cpu_ok (cpu m)" "byte_loc (operand0 i)" "byte_loc (operand1 i) \<or> is_imm8 (operand1 i)"
   "isa_cmp8 (dc_use_es c) (operand0 i) (operand1 i) m = Some m'"
  shows "wp (trans_CMP i) (\<lambda>r s'. r \<and> Fell E c m' s') s"
proof -
  from assms(5) obtain u v where "ld2 (dc_use_es c) MO_8 (operand0 i) (operand1 i) m = Some (u, v)"
    and m': "m' = sub_flags8 u v 0 m" by (auto simp: isa_cmp8_def Option.bind_eq_Some_conv)
  from cmp8_facts[OF this(1) assms(2-4)] obtain x y where
    "ld_operand (dc_use_es c) MO_8 (operand0 i) m = Some x" "ld_operand (dc_use_es c) MO_8 (operand1 i) m = Some y"
    and uv: "u = unat x" "v = unat y" "unat x < 256" "unat y < 256" by blast
  then show ?thesis
    using assms(1,2) unfolding trans_CMP_def wp_bind
    apply -
    apply ((erule wp_rules | (simp; fail))+, erule Fell_done, simp_all)
    using sub_flags8_bits[of x y 0 m] by (simp add: m' uv isa_flag_defs)
qed

lemma byte_bits:
  assumes "unat (x::u32) < 256"
  shows "\<not> bit x 8" "\<not> half x 0 x" "x AND 0xFF = 0 \<longleftrightarrow> x = 0"
  using assms bit_small[of x 8 8] by (auto simp: half_def and_255_id)

lemma wp_trans_CMP0:
  assumes "At E c \<Gamma> \<Delta> m s" "cpu_ok (cpu m)" "byte_loc (operand0 i)"
   "isa_cmp0 (dc_use_es c) (operand0 i) m = Some m'"
  shows "wp (trans_CMP0 i) (\<lambda>r s'. r \<and> Fell E c m' s') s"
proof -
  from assms(4) obtain x where l: "ld_operand (dc_use_es c) MO_8 (operand0 i) m = Some x"
    and m': "m' = set_z (x = 0) (set_ac False (set_cy False m))" by (auto simp: isa_cmp0_def Option.bind_eq_Some_conv)
  have "unat x < 256" using ld_byte_less[OF assms(2) _ l] assms(3) by blast
  with l show ?thesis
    using assms(1,2) unfolding trans_CMP0_def wp_bind
    apply -
    apply ((erule wp_rules | (simp; fail))+, erule Fell_done, simp_all add: byte_bits)
    by (simp add: m' isa_flag_defs)
qed

lemma sub_zero_iff:
  assumes "unat (x::u32) < 256" "unat y < 256"
  shows "(x - y) AND 0xFF = 0 \<longleftrightarrow> x = y"
proof -
  have "int (unat (x - y) mod 256) = (int (unat x) - int (unat y)) mod 256"
    using nat_sub_mod[of x y 0 256] assms by simp
  moreover have "(int (unat x) - int (unat y)) mod 256 = 0 \<longleftrightarrow> int (unat x) mod 256 = int (unat y) mod 256"
    by (metis mod_eq_dvd_iff dvd_eq_mod_eq_0)
  moreover have "int (unat x) mod 256 = int (unat x)" "int (unat y) mod 256 = int (unat y)"
    using assms by (intro mod_pos_pos_trivial; linarith)+
  ultimately have "unat (x - y) mod 256 = 0 \<longleftrightarrow> unat x = unat y" by linarith
  then show ?thesis unfolding and_255_nat(2) by (simp only: word_unat_eq_iff)
qed

lemma flag_or: "(if a then 1 else 0) OR (if b then 1 else 0 :: u32) = flag (a \<or> b)"
  "flag a OR (if b then 1 else 0 :: u32) = flag (a \<or> b)" "flag a OR flag b = flag (a \<or> b)" "(if a then 1 else 0) = flag a"
  by (auto simp: flag_def)

lemma wp_trans_CMPS:
  assumes "At E c \<Gamma> \<Delta> m s" "cpu_ok (cpu m)" "byte_loc (operand0 i)" "byte_loc (operand1 i)"
   "isa_cmps (dc_use_es c) (operand0 i) (operand1 i) m = Some m'"
  shows "wp (trans_CMPS i) (\<lambda>r s'. r \<and> Fell E c m' s') s"
proof -
  from assms(5) obtain u v where "ld2 (dc_use_es c) MO_8 (operand0 i) (operand1 i) m = Some (u, v)"
    and m': "m' = set_cy (u \<noteq> v \<or> gpr8 m REG_A = 0 \<or> u = 0) (set_z (u = v) (set_ac (u mod 16 < v mod 16) m))"
    by (auto simp: isa_cmps_def Option.bind_eq_Some_conv)
  from cmp8_facts[OF this(1) assms(2,3)] assms(4) obtain x y where
    l: "ld_operand (dc_use_es c) MO_8 (operand0 i) m = Some x" "ld_operand (dc_use_es c) MO_8 (operand1 i) m = Some y"
    and uv: "u = unat x" "v = unat y" "unat x < 256" "unat y < 256" by blast
  have m'': "m' = set_cy ((x \<noteq> y \<or> gpr8 m REG_A = 0) \<or> x = 0) (set_z ((x - y) AND 0xFF = 0) (set_ac (half x y (x - y)) m))"
    using half_borrow_bit[of x y 0] by (simp add: m' uv sub_zero_iff unat_eq_0 disj.assoc) (simp add: word_unat_eq_iff)
  show ?thesis
    using assms(1,2) l unfolding trans_CMPS_def wp_bind
    apply -
    apply ((erule wp_rules | (simp; fail))+, erule Fell_done, simp_all add: m'' isa_flag_defs flag_or)
    done
qed

lemma wp_trans_MOVS:
  assumes "At E c \<Gamma> \<Delta> m s" "cpu_ok (cpu m)"
   "isa_movs (pl_host_ptr (fst E)) (dc_use_es c) (operand0 i) (operand1 i) m = Some m'"
  shows "wp (trans_MOVS i) (\<lambda>r s'. r \<and> Fell E c m' s') s"
proof -
  from assms(3) obtain v m1 where "ld_operand (dc_use_es c) MO_8 (operand1 i) m = Some v"
     "st_operand (pl_host_ptr (fst E)) (dc_use_es c) MO_8 (operand0 i) v m = Some m1"
    and m': "m' = set_cy (v = 0 \<or> gpr8 m REG_A = 0) (set_z (v = 0) m1)"
    by (auto simp: isa_movs_def Option.bind_eq_Some_conv)
  then show ?thesis
    using assms(1,2) unfolding trans_MOVS_def wp_bind
    apply -
    apply ((erule wp_rules | (simp; fail))+, erule Fell_done)
    apply (simp_all add: m' isa_flag_defs flag_or)
    done
qed

lemma wp_bitwise:
  assumes "At E c \<Gamma> \<Delta> m s" "cpu_ok (cpu m)" 
   "isa_logic (pl_host_ptr (fst E)) (dc_use_es c) f a b m = Some m'"
    "(op, f) \<in> {(tcg_gen_and_i32, (AND)), (tcg_gen_or_i32, (OR)), (tcg_gen_xor_i32, (XOR))}"
  shows "wp (bitwise a b op) (\<lambda>r s'. r \<and> Fell E c m' s') s"
proof -
  from assms(3) obtain x y where "ld_operand (dc_use_es c) MO_8 a m = Some x" "ld_operand (dc_use_es c) MO_8 b m = Some y"
     "st_operand (pl_host_ptr (fst E)) (dc_use_es c) MO_8 a (f x y) (set_z (f x y = 0) m) = Some m'"
    by (auto simp: isa_logic_def Option.bind_eq_Some_conv)
  moreover have "cpu_ok (cpu (set_z (f x y = 0) m))" using assms(2) by simp
  ultimately show ?thesis
    using assms(1,2,4) unfolding bitwise_def wp_bind
    apply (simp only: insert_iff empty_iff prod.inject simp_thms)
    apply (elim disjE conjE; simp only:)
    apply ((erule wp_rules | (simp add: isa_flag_defs flag_or; fail))+, erule Fell_done, (simp; fail), (simp; fail))+
    done
qed

section \<open>Word arithmetic and counting\<close>

lemma sub_mod_word:
  assumes "unat (x::u32) < 65536" "unat (y::u32) < 65536"
  shows "of_int ((int (unat x) - int (unat y)) mod 65536) = (of_nat (unat (x - y) mod 65536) :: u32)"
    "(x - y) AND 0xFFFF = 0 \<longleftrightarrow> x = y"
proof -
  have e: "(int (unat x) - int (unat y)) mod 65536 = int (unat (x - y) mod 65536)"
    using nat_sub_mod[of x y 0 65536] assms by simp
  then show "of_int ((int (unat x) - int (unat y)) mod 65536) = (of_nat (unat (x - y) mod 65536) :: u32)"
    by (simp only: of_int_of_nat_eq)
  have "(int (unat x) - int (unat y)) mod 65536 = 0 \<longleftrightarrow> int (unat x) mod 65536 = int (unat y) mod 65536"
    by (metis mod_eq_dvd_iff dvd_eq_mod_eq_0)
  moreover have "int (unat x) mod 65536 = int (unat x)" "int (unat y) mod 65536 = int (unat y)"
    using assms by (intro mod_pos_pos_trivial; linarith)+
  ultimately have "unat (x - y) mod 65536 = 0 \<longleftrightarrow> unat x = unat y" using e by linarith
  then show "(x - y) AND 0xFFFF = 0 \<longleftrightarrow> x = y" unfolding and_65535_nat(2) by (simp only: word_unat_eq_iff)
qed

lemma ld2_word:
  assumes "ld2 es MO_16 a b m = Some (u, v)" "cpu_ok (cpu m)" "word_loc a" "word_loc b \<or> is_imm16 b \<or> is_imm8 b"
  obtains x y where "ld_operand es MO_16 a m = Some x" "ld_operand es MO_16 b m = Some y" "u = unat x" "v = unat y"
    "unat x < 65536" "unat y < 65536"
proof -
  from assms(1) obtain x y where l: "ld_operand es MO_16 a m = Some x" "ld_operand es MO_16 b m = Some y" "u = unat x" "v = unat y"
    by (auto simp: ld2_def Option.bind_eq_Some_conv)
  show ?thesis by (rule that[OF l]) (use ld_word_less[OF assms(2)] l assms(3,4) in blast)+
qed

lemma wp_trans_ADDW:
  assumes "At E c \<Gamma> \<Delta> m s" "cpu_ok (cpu m)" "word_loc (operand0 i)"
    "word_loc (operand1 i) \<or> is_imm16 (operand1 i) \<or> is_imm8 (operand1 i)"
   "isa_addw (pl_host_ptr (fst E)) (dc_use_es c) (operand0 i) (operand1 i) m = Some m'"
  shows "wp (trans_ADDW i) (\<lambda>r s'. r \<and> Fell E c m' s') s"
proof -
  from assms(5) obtain u v m1 where "ld2 (dc_use_es c) MO_16 (operand0 i) (operand1 i) m = Some (u, v)"
    and st: "st_operand (pl_host_ptr (fst E)) (dc_use_es c) MO_16 (operand0 i) (of_nat ((u + v) mod 65536)) m = Some m1"
    and m': "m' = set_z ((u + v) mod 65536 = 0) (set_ac False (set_cy (65536 \<le> u + v) m1))"
    by (auto simp: isa_addw_def Option.bind_eq_Some_conv)
  from ld2_word[OF this(1) assms(2-4)] obtain x y where
    l: "ld_operand (dc_use_es c) MO_16 (operand0 i) m = Some x" "ld_operand (dc_use_es c) MO_16 (operand1 i) m = Some y"
    and uv: "u = unat x" "v = unat y" "unat x < 65536" "unat y < 65536" by blast
  note f = carry_bits[of x 16 y 0, simplified, OF uv(3,4)]
  have "st_operand (pl_host_ptr (fst E)) (dc_use_es c) MO_16 (operand0 i) (x + y) m = Some m1"
    using st st_word_mod[OF assms(3), of "x + y" "unat x + unat y"] by (simp add: uv(1,2) f)
  moreover have "m' = set_z ((x + y) AND 0xFFFF = 0) (set_ac False (set_cy (bit (x + y) 16) m1))"
    by (simp add: m' uv f and_65535_nat(2))
  ultimately show ?thesis
    using assms(1,2) l unfolding trans_ADDW_def wp_bind
    apply -
    apply ((erule wp_rules | (simp; fail))+, erule Fell_done, simp_all add: isa_flag_defs flag_def)
    done
qed

lemma sub_flags16_bits:
  assumes "unat (x::u32) < 65536" "unat (y::u32) < 65536"
  shows "sub_flags16 (unat x) (unat y) m = set_z ((x - y) AND 0xFFFF = 0) (set_ac False (set_cy (bit (x - y) 16) m))"
  using borrow_bits[of x 16 y 0] assms by (simp add: sub_flags16_def sub_mod_word) (simp add: word_unat_eq_iff)

lemma wp_trans_SUBW:
  assumes "At E c \<Gamma> \<Delta> m s" "cpu_ok (cpu m)" "word_loc (operand0 i)"
    "word_loc (operand1 i) \<or> is_imm16 (operand1 i) \<or> is_imm8 (operand1 i)"
   "isa_subw (pl_host_ptr (fst E)) (dc_use_es c) (operand0 i) (operand1 i) m = Some m'"
  shows "wp (trans_SUBW i) (\<lambda>r s'. r \<and> Fell E c m' s') s"
proof -
  from assms(5) obtain u v m1 where "ld2 (dc_use_es c) MO_16 (operand0 i) (operand1 i) m = Some (u, v)"
    and st: "st_operand (pl_host_ptr (fst E)) (dc_use_es c) MO_16 (operand0 i) (of_int ((int u - int v) mod 65536)) m = Some m1"
    and m': "m' = sub_flags16 u v m1"
    by (auto simp: isa_subw_def Option.bind_eq_Some_conv)
  from ld2_word[OF this(1) assms(2-4)] obtain x y where
    l: "ld_operand (dc_use_es c) MO_16 (operand0 i) m = Some x" "ld_operand (dc_use_es c) MO_16 (operand1 i) m = Some y"
    and uv: "u = unat x" "v = unat y" "unat x < 65536" "unat y < 65536" by blast
  have "st_operand (pl_host_ptr (fst E)) (dc_use_es c) MO_16 (operand0 i) (x - y) m = Some m1"
    using st st_word_mod[OF assms(3), of "x - y" "unat (x - y)"] by (simp only: uv(1,2) sub_mod_word(1)[OF uv(3,4)])
  then show ?thesis
    using assms(1,2) l unfolding trans_SUBW_def wp_bind m' uv(1,2) sub_flags16_bits[OF uv(3,4)]
    apply -
    apply ((erule wp_rules | (simp; fail))+, erule Fell_done, simp_all add: isa_flag_defs flag_def)
    done
qed

lemma wp_trans_CMPW:
  assumes "At E c \<Gamma> \<Delta> m s" "cpu_ok (cpu m)" "word_loc (operand0 i)" "word_loc (operand1 i) \<or> is_imm16 (operand1 i)"
   "isa_cmpw (dc_use_es c) (operand0 i) (operand1 i) m = Some m'"
  shows "wp (trans_CMPW i) (\<lambda>r s'. r \<and> Fell E c m' s') s"
proof -
  from assms(5) obtain u v where "ld2 (dc_use_es c) MO_16 (operand0 i) (operand1 i) m = Some (u, v)"
    and m': "m' = sub_flags16 u v m"
    by (auto simp: isa_cmpw_def Option.bind_eq_Some_conv)
  from ld2_word[OF this(1) assms(2,3)] assms(4) obtain x y where
    l: "ld_operand (dc_use_es c) MO_16 (operand0 i) m = Some x" "ld_operand (dc_use_es c) MO_16 (operand1 i) m = Some y"
    and uv: "u = unat x" "v = unat y" "unat x < 65536" "unat y < 65536" by blast
  show ?thesis
    using assms(1,2) l unfolding trans_CMPW_def wp_bind m' uv(1,2) sub_flags16_bits[OF uv(3,4)]
    apply -
    apply ((erule wp_rules | (simp; fail))+, erule Fell_done, simp_all add: isa_flag_defs flag_def)
    done
qed
lemma wp_trans_MOVW:
  assumes "At E c \<Gamma> \<Delta> m s" "cpu_ok (cpu m)" "isa_mov (pl_host_ptr (fst E)) (dc_use_es c) MO_16 (operand0 i) (operand1 i) m = Some m'"
  shows "wp (trans_MOVW i) (\<lambda>r s'. r \<and> Fell E c m' s') s"
  using assms unfolding trans_MOVW_def wp_bind
  apply (auto simp: isa_mov_def Option.bind_eq_Some_conv)
  apply ((erule wp_rules | (simp; fail))+)
  apply (auto intro: FellI)
  done

lemma wp_trans_XCHW:
  assumes "At E c \<Gamma> \<Delta> m s" "cpu_ok (cpu m)" "word_loc (operand0 i)" "word_loc (operand1 i)"
   "isa_xch (pl_host_ptr (fst E)) (dc_use_es c) MO_16 (operand0 i) (operand1 i) m = Some m'"
  shows "wp (trans_XCHW i) (\<lambda>r s'. r \<and> Fell E c m' s') s"
proof -
  obtain x y m1 where
   "ld_operand (dc_use_es c) MO_16 (operand0 i) m = Some x" "ld_operand (dc_use_es c) MO_16 (operand1 i) m = Some y"
   and s1: "st_operand (pl_host_ptr (fst E)) (dc_use_es c) MO_16 (operand1 i) x m = Some m1"
   and s2: "st_operand (pl_host_ptr (fst E)) (dc_use_es c) MO_16 (operand0 i) y m1 = Some m'"
    using assms(5) by (auto simp: isa_xch_def Option.bind_eq_Some_conv)
  moreover have "cpu_ok (cpu m1)" by (rule st_operand_ok[OF assms(2) s1]) (simp add: assms(4))
  ultimately show ?thesis
    using assms(1,2) unfolding trans_XCHW_def wp_bind
    apply -
    apply ((erule wp_rules | (simp; fail))+)
    apply (auto intro: FellI)
    done
qed

lemma wp_trans_consts:
  assumes "At E c \<Gamma> \<Delta> m s" "cpu_ok (cpu m)"
  shows "st_operand (pl_host_ptr (fst E)) (dc_use_es c) MO_8 (operand0 i) 1 m = Some m' \<Longrightarrow> wp (trans_ONEB i) (\<lambda>r s'. r \<and> Fell E c m' s') s"
    "st_operand (pl_host_ptr (fst E)) (dc_use_es c) MO_8 (operand0 i) 0 m = Some m' \<Longrightarrow> wp (trans_CLRB i) (\<lambda>r s'. r \<and> Fell E c m' s') s"
    "st_operand (pl_host_ptr (fst E)) (dc_use_es c) MO_16 (operand0 i) 1 m = Some m' \<Longrightarrow> wp (trans_ONEW i) (\<lambda>r s'. r \<and> Fell E c m' s') s"
    "st_operand (pl_host_ptr (fst E)) (dc_use_es c) MO_16 (operand0 i) 0 m = Some m' \<Longrightarrow> wp (trans_CLRW i) (\<lambda>r s'. r \<and> Fell E c m' s') s"
  using assms unfolding trans_ONEB_def trans_CLRB_def trans_ONEW_def trans_CLRW_def wp_bind
  apply -
     apply ((erule wp_rules | (simp; fail))+, erule Fell_done, simp, simp)+
  done

lemma wp_trans_MULU:
  assumes "At E c \<Gamma> \<Delta> m s" "cpu_ok (cpu m)" "isa_mulu m = m'"
  shows "wp (trans_MULU i) (\<lambda>r s'. r \<and> Fell E c m' s') s"
proof -
  have l: "unat (gpr8 m REG_A) * unat (gpr8 m REG_X) < 256 * 256"
    using gpr8_less[OF assms(2), of REG_A] gpr8_less[OF assms(2), of REG_X] by (intro mult_strict_mono) auto
  then have "(gpr8 m REG_A * gpr8 m REG_X) AND 0xFFFF = of_nat (unat (gpr8 m REG_A) * unat (gpr8 m REG_X))"
    by (simp add: and_65535_nat unat_word_ariths)
  with assms(1,2) show ?thesis
    unfolding trans_MULU_def wp_bind assms(3)[symmetric] isa_mulu_def
    apply -
    apply ((erule wp_rules | (simp; fail))+, erule Fell_done, simp_all)
    done
qed

lemma inc_facts:
  assumes "unat (x::u32) < 256"
  shows "unat (x + 1) = unat x + 1" "half x 1 (x + 1) \<longleftrightarrow> unat x mod 16 = 15" "(x + 1) AND 0xFF = 0 \<longleftrightarrow> unat x = 255"
    "half x 1 (x - 1) \<longleftrightarrow> unat x mod 16 = 0" "(x - 1) AND 0xFF = 0 \<longleftrightarrow> unat x = 1"
    "(int (unat x) - 1) mod 256 = int (unat (x - 1) mod 256)"
proof -
  show s: "unat (x + 1) = unat x + 1" using carry_bits(2)[of x 8 1 0] assms by simp
  show "half x 1 (x + 1) \<longleftrightarrow> unat x mod 16 = 15" using half_carry_bit[of x 1 0] assms mod_less_divisor[of 16 "unat x"] by auto
  have "(unat x + 1) mod 256 = 0 \<longleftrightarrow> unat x + 1 = 256" using assms by (cases "unat x + 1 = 256") auto
  then show "(x + 1) AND 0xFF = 0 \<longleftrightarrow> unat x = 255" by (simp add: and_255_nat(2) s)
  show "half x 1 (x - 1) \<longleftrightarrow> unat x mod 16 = 0" using half_borrow_bit[of x 1 0] assms by simp
  show "(x - 1) AND 0xFF = 0 \<longleftrightarrow> unat x = 1" using sub_zero_iff[of x 1] assms by (simp add: word_unat_eq_iff)
  show "(int (unat x) - 1) mod 256 = int (unat (x - 1) mod 256)" using nat_sub_mod[of x 1 0 256] assms by simp
qed

lemma wp_trans_INC:
  assumes "At E c \<Gamma> \<Delta> m s" "cpu_ok (cpu m)" "byte_loc (operand0 i)"
   "isa_inc (pl_host_ptr (fst E)) (dc_use_es c) (operand0 i) m = Some m'"
  shows "wp (trans_INC i) (\<lambda>r s'. r \<and> Fell E c m' s') s"
proof -
  from assms(4) obtain x m1 where l: "ld_operand (dc_use_es c) MO_8 (operand0 i) m = Some x"
    and st: "st_operand (pl_host_ptr (fst E)) (dc_use_es c) MO_8 (operand0 i) (of_nat ((unat x + 1) mod 256)) m = Some m1"
    and m': "m' = set_z (unat x = 255) (set_ac (unat x mod 16 = 15) m1)"
    by (auto simp: isa_inc_def Option.bind_eq_Some_conv)
  have "unat x < 256" using ld_byte_less[OF assms(2) _ l] assms(3) by blast
  note f = inc_facts[OF this]
  have "st_operand (pl_host_ptr (fst E)) (dc_use_es c) MO_8 (operand0 i) (x + 1) m = Some m1"
    using st st_byte_mod[OF assms(3), of "x + 1" "unat x + 1"] by (simp add: f)
  then show ?thesis
    using assms(1,2) l unfolding trans_INC_def wp_bind m' f(2,3)[symmetric]
    apply -
    apply ((erule wp_rules | (simp; fail))+, erule Fell_done, simp_all add: isa_flag_defs)
    done
qed

lemma wp_trans_DEC:
  assumes "At E c \<Gamma> \<Delta> m s" "cpu_ok (cpu m)" "byte_loc (operand0 i)"
   "isa_dec (pl_host_ptr (fst E)) (dc_use_es c) (operand0 i) m = Some m'"
  shows "wp (trans_DEC i) (\<lambda>r s'. r \<and> Fell E c m' s') s"
proof -
  from assms(4) obtain x m1 where l: "ld_operand (dc_use_es c) MO_8 (operand0 i) m = Some x"
    and st: "st_operand (pl_host_ptr (fst E)) (dc_use_es c) MO_8 (operand0 i) (of_int ((int (unat x) - 1) mod 256)) m = Some m1"
    and m': "m' = set_z (unat x = 1) (set_ac (unat x mod 16 = 0) m1)"
    by (auto simp: isa_dec_def Option.bind_eq_Some_conv)
  have "unat x < 256" using ld_byte_less[OF assms(2) _ l] assms(3) by blast
  note f = inc_facts[OF this]
  have "st_operand (pl_host_ptr (fst E)) (dc_use_es c) MO_8 (operand0 i) (x - 1) m = Some m1"
    using st st_byte_mod[OF assms(3), of "x - 1" "unat (x - 1)"] by (simp only: f(6) of_int_of_nat_eq)
  then show ?thesis
    using assms(1,2) l unfolding trans_DEC_def wp_bind m' f(4,5)[symmetric]
    apply -
    apply ((erule wp_rules | (simp; fail))+, erule Fell_done, simp_all add: isa_flag_defs)
    done
qed

lemma incw_facts:
  assumes "isa_incw hp es d a m = Some m'" "cpu_ok (cpu m)" "word_loc a" "d \<in> {1, -1}"
  obtains x where "ld_operand es MO_16 a m = Some x" "st_operand hp es MO_16 a (x + of_int d) m = Some m'"
proof -
  from assms(1) obtain x where l: "ld_operand es MO_16 a m = Some x"
    and st: "st_operand hp es MO_16 a (of_int ((int (unat x) + d) mod 65536)) m = Some m'"
    by (auto simp: isa_incw_def Option.bind_eq_Some_conv)
  have b: "unat x < 65536" using ld_word_less[OF assms(2) _ l] assms(3) by blast
  have "(int (unat x) + d) mod 65536 = int (unat (x + of_int d) mod 65536)"
    using assms(4)
  proof (elim insertE emptyE)
    assume d: "d = 1"
    have s: "unat (x + of_int d) = unat x + 1" using carry_bits(2)[of x 16 1 0] b d by simp
    show ?thesis unfolding s unfolding d by (simp only: zmod_int of_nat_add of_nat_1 of_nat_numeral)
  next
    assume "d = -1" then show ?thesis using nat_sub_mod[of x 1 0 65536] b by simp
  qed
  then show ?thesis using that[OF l] st st_word_mod[OF assms(3), of "x + of_int d" "unat (x + of_int d)"]
    by (simp only: of_int_of_nat_eq)
qed

lemma wp_trans_INCW:
  assumes "At E c \<Gamma> \<Delta> m s" "cpu_ok (cpu m)" "word_loc (operand0 i)"
   "isa_incw (pl_host_ptr (fst E)) (dc_use_es c) 1 (operand0 i) m = Some m'"
  shows "wp (trans_INCW i) (\<lambda>r s'. r \<and> Fell E c m' s') s"
  apply (rule incw_facts[OF assms(4,2,3)], simp)
  using assms(1,2) unfolding trans_INCW_def wp_bind
  apply -
  apply ((erule wp_rules | (simp; fail))+, erule Fell_done, simp_all)
  done

lemma wp_trans_DECW:
  assumes "At E c \<Gamma> \<Delta> m s" "cpu_ok (cpu m)" "word_loc (operand0 i)"
   "isa_incw (pl_host_ptr (fst E)) (dc_use_es c) (- 1) (operand0 i) m = Some m'"
  shows "wp (trans_DECW i) (\<lambda>r s'. r \<and> Fell E c m' s') s"
  apply (rule incw_facts[OF assms(4,2,3)], simp)
  using assms(1,2) unfolding trans_DECW_def wp_bind
  apply -
  apply ((erule wp_rules | (simp; fail))+, erule Fell_done, simp_all)
  done
end
