(* ===== verification/RL78_Bit_Rules.thy ===== *)
theory RL78_Bit_Rules
  imports RL78_Arith_Rules
begin

text \<open>Bit instructions, stack, skips and bank selection: the handlers implement theory
  \<^verbatim>\<open>RL78_ISA\<close>.\<close>

section \<open>Bits\<close>

lemma flag_ops: "flag a AND flag b = flag (a \<and> b)" "flag a OR flag b = flag (a \<or> b)" "flag a XOR flag b = flag (a \<noteq> b)"
  "flag a XOR 1 = flag (\<not> a)" "flag True = 1" "flag False = 0"
  by (simp_all add: flag_def)

lemma ld_bit_flag: "drop_bit (unat (bit_bit b)) (ld_bit_byte es b m) AND 1 = flag (ld_bit es b m)"
  unfolding ld_bit_def by (rule shift_and_1)

lemma wp_load_flag:
  assumes "At E c \<Gamma> \<Delta> m s" "cpu_ok (cpu m)" "unat (bit_bit b) < 8"
    and "\<And>n k s'. fresh32 \<Gamma> n \<Longrightarrow> fresh32 (\<Gamma>(Temp n \<mapsto> ld_bit_byte (dc_use_es c) b m)) k \<Longrightarrow>
      At E c (\<Gamma>(Temp n \<mapsto> ld_bit_byte (dc_use_es c) b m, Temp k \<mapsto> flag (ld_bit (dc_use_es c) b m))) \<Delta> m s' \<Longrightarrow>
      Q \<lparr>bd_byte = Temp n, bd_bit = Temp k\<rparr> s'"
  shows "wp (rl78_gen_load_bit b) Q s"
  by (rule wp_load_bit[OF assms(1,2)], use assms(3) in simp, rule assms(4), assumption, assumption) (simp only: ld_bit_flag)

lemma wp_store_flag:
  assumes "At E c \<Gamma> \<Delta> m0 s" "m0 = m" "cpu_ok (cpu m)" "\<Gamma> (Temp n) = Some (ld_bit_byte (dc_use_es c) b m)"
    "\<Gamma> (Temp k) = Some (flag (f (ld_bit (dc_use_es c) b m)))" "unat (bit_bit b) < 8"
  shows "wp (rl78_gen_store_bit b \<lparr>bd_byte = Temp n, bd_bit = Temp k\<rparr>)
     (\<lambda>a s. True \<and> Fell E c (isa_bit (pl_host_ptr (fst E)) (dc_use_es c) f b m) s) s"
  by (rule wp_store_bit[OF assms(1)[unfolded assms(2)] assms(3-5)], use assms(6) in simp, rule Fell_done, assumption)
     (simp_all add: isa_bit_def)

lemmas bit_insn_defs = trans_SET1_def trans_CLR1_def trans_NOT1_def trans_AND1_def trans_OR1_def trans_XOR1_def trans_MOV1_def

lemma wp_trans_bit1:
  assumes "At E c \<Gamma> \<Delta> m s" "cpu_ok (cpu m)" "operand0 i = OP_BIT b" "unat (bit_bit b) < 8"
  shows "wp (trans_SET1 i) (\<lambda>r s'. r \<and> Fell E c (isa_bit (pl_host_ptr (fst E)) (dc_use_es c) (\<lambda>_. True) b m) s') s"
    "wp (trans_CLR1 i) (\<lambda>r s'. r \<and> Fell E c (isa_bit (pl_host_ptr (fst E)) (dc_use_es c) (\<lambda>_. False) b m) s') s"
    "wp (trans_NOT1 i) (\<lambda>r s'. r \<and> Fell E c (isa_bit (pl_host_ptr (fst E)) (dc_use_es c) Not b m) s') s"
  using assms(1) unfolding bit_insn_defs wp_bind wp_return assms(3) bit_op.simps
  apply -
    apply ((erule wp_load_flag | erule wp_store_flag | erule wp_rules | (simp add: assms(2,4) flag_ops; fail))+)
  done

lemma wp_trans_bit2:
  assumes "At E c \<Gamma> \<Delta> m s" "cpu_ok (cpu m)" "operand0 i = OP_BIT a" "unat (bit_bit a) < 8" "operand1 i = OP_BIT b" "unat (bit_bit b) < 8"
  shows "wp (trans_MOV1 i) (\<lambda>r s'. r \<and> Fell E c (isa_bit (pl_host_ptr (fst E)) (dc_use_es c) (\<lambda>_. ld_bit (dc_use_es c) b m) a m) s') s"
    "wp (trans_AND1 i) (\<lambda>r s'. r \<and> Fell E c (isa_bit (pl_host_ptr (fst E)) (dc_use_es c) (\<lambda>v. v \<and> ld_bit (dc_use_es c) b m) a m) s') s"
    "wp (trans_OR1 i) (\<lambda>r s'. r \<and> Fell E c (isa_bit (pl_host_ptr (fst E)) (dc_use_es c) (\<lambda>v. v \<or> ld_bit (dc_use_es c) b m) a m) s') s"
    "wp (trans_XOR1 i) (\<lambda>r s'. r \<and> Fell E c (isa_bit (pl_host_ptr (fst E)) (dc_use_es c) (\<lambda>v. v \<noteq> ld_bit (dc_use_es c) b m) a m) s') s"
  using assms(1) unfolding bit_insn_defs wp_bind wp_return assms(3,5) bit_op.simps
  apply -
     apply ((erule wp_load_flag | erule wp_store_flag | erule wp_rules | (simp add: assms(2,4,6) flag_ops; fail) | (simp only: RL78BitData.simps))+)
  done

section \<open>Stack\<close>

lemma wp_trans_PUSH:
  assumes "At E c \<Gamma> \<Delta> m s" "cpu_ok (cpu m)"
    "operand0 i = OP_WORD_REG r \<and> v = gpr16 m r \<or> operand0 i = OP_PSW \<and> v = push_bit 8 (ucast (rl78_cpu_pack_psw (env_psw (cpu m))))"
  shows "wp (trans_PUSH i) (\<lambda>r s'. r \<and> Fell E c (isa_push (dc_use_es c) v m) s') s"
  using assms(3)
  apply (elim disjE conjE)
  using assms(1) unfolding trans_PUSH_def wp_bind
   apply (simp_all only: RL78Operand.case wp_bind)
   apply ((erule wp_rules | (simp only: wp_bind) | (simp add: assms(2) cpu_okD(1); fail))+, erule Fell_done,
      (simp add: isa_push_def set_sp_def stack_at_def bank_base_def Let_def; fail), (simp; fail))+
  done

lemma wp_trans_POP:
  assumes "At E c \<Gamma> \<Delta> m s" "cpu_ok (cpu m)"
    "operand0 i = OP_WORD_REG r \<and> put = set_gpr16 r \<or> operand0 i = OP_PSW \<and> put = (\<lambda>v. set_psw (drop_bit 8 v))"
  shows "wp (trans_POP i) (\<lambda>r s'. r \<and> Fell E c (isa_pop (dc_use_es c) put m) s') s"
proof -
  have "cpu_ok (cpu (m\<lparr>cpu := (cpu m)\<lparr>env_sp := v\<rparr>\<rparr>))" for v using assms(2) by (simp add: cpu_ok_def)
  then show ?thesis
  using assms(3)
  apply (elim disjE conjE)
  using assms(1) unfolding trans_POP_def wp_bind
   apply (simp_all only: RL78Operand.case wp_bind)
   apply ((erule wp_rules | (simp only: wp_bind) | (simp add: assms(2); fail))+, erule Fell_done,
      (simp add: isa_pop_def set_sp_def stack_at_def; fail), (simp; fail))+
  done
qed

section \<open>Skips, bank selection\<close>

lemma psw_flag_cases:
  assumes "cpu_ok (cpu m)"
  shows "psw_cy (env_psw (cpu m)) = 0 \<or> psw_cy (env_psw (cpu m)) = 1" "psw_z (env_psw (cpu m)) = 0 \<or> psw_z (env_psw (cpu m)) = 1"
proof -
  have k: "unat (x :: u32) < 2 \<Longrightarrow> x = 0 \<or> x = 1" for x by (simp add: word_unat_eq_iff) linarith
  show "psw_cy (env_psw (cpu m)) = 0 \<or> psw_cy (env_psw (cpu m)) = 1" "psw_z (env_psw (cpu m)) = 0 \<or> psw_z (env_psw (cpu m)) = 1"
    using k cpu_okD(1)[OF assms] by (auto simp: psw_ok_def)
qed

lemmas skip_defs = trans_SKC_def trans_SKNC_def trans_SKZ_def trans_SKNZ_def trans_SKH_def trans_SKNH_def rl78_gen_skip_def

lemma skip_conds:
  assumes "cpu_ok (cpu m)"
  shows "psw_cy (env_psw (cpu m)) = 0 \<longleftrightarrow> psw_cy (env_psw (cpu m)) \<noteq> 1"
    "psw_z (env_psw (cpu m)) = 0 \<longleftrightarrow> psw_z (env_psw (cpu m)) \<noteq> 1"
    "psw_z (env_psw (cpu m)) OR psw_cy (env_psw (cpu m)) = 1 \<longleftrightarrow> psw_z (env_psw (cpu m)) = 1 \<or> psw_cy (env_psw (cpu m)) = 1"
  using psw_flag_cases[OF assms] by auto

lemma wp_trans_skip:
  assumes "At E c \<Gamma> \<Delta> m s" "cpu_ok (cpu m)"
  shows "wp (trans_SKC i) (\<lambda>r s'. r \<and> Fell E c (isa_skip (psw_cy (env_psw (cpu m)) = 1) m) s') s"
    "wp (trans_SKNC i) (\<lambda>r s'. r \<and> Fell E c (isa_skip (psw_cy (env_psw (cpu m)) = 0) m) s') s"
    "wp (trans_SKZ i) (\<lambda>r s'. r \<and> Fell E c (isa_skip (psw_z (env_psw (cpu m)) = 1) m) s') s"
    "wp (trans_SKNZ i) (\<lambda>r s'. r \<and> Fell E c (isa_skip (psw_z (env_psw (cpu m)) = 0) m) s') s"
    "wp (trans_SKH i) (\<lambda>r s'. r \<and> Fell E c (isa_skip (psw_z (env_psw (cpu m)) = 0 \<and> psw_cy (env_psw (cpu m)) = 0) m) s') s"
    "wp (trans_SKNH i) (\<lambda>r s'. r \<and> Fell E c (isa_skip (psw_z (env_psw (cpu m)) = 1 \<or> psw_cy (env_psw (cpu m)) = 1) m) s') s"
  using assms(1) unfolding skip_defs wp_bind
  apply -
       apply ((erule wp_rules | (simp; fail))+, erule Fell_done, (simp add: isa_skip_def flag_def skip_conds[OF assms(2)]; fail), (simp; fail))+
  done

lemma wp_trans_SEL:
  assumes "At E c \<Gamma> \<Delta> m s" "operand0 i = OP_SEL_RB v" "unat v < 4"
  shows "wp (trans_SEL i) (\<lambda>r s'. r \<and> Fell E c (psw_upd (\<lambda>p. p\<lparr>psw_rbs := v\<rparr>) m) s') s"
proof -
  have "v AND 3 = v" using assms(3) by (simp add: mask_simps take_bit_small)
  then show ?thesis
    using assms(1) unfolding trans_SEL_def wp_bind assms(2) const_op.simps Let_def
    apply -
    apply ((erule wp_rules | (simp; fail))+, erule Fell_done, simp_all add: psw_upd_def)
    done
qed

lemma wp_trans_NOP:
  assumes "At E c \<Gamma> \<Delta> m s"
  shows "wp (trans_NOP i) (\<lambda>r s'. r \<and> Fell E c m s') s"
  using assms by (simp add: trans_NOP_def FellI)
end
