(* ===== verification/RL78_Shift_Rules.thy ===== *)
theory RL78_Shift_Rules
  imports RL78_Arith_Rules
begin

text \<open>Shifts and rotates: the handlers implement the arithmetic shifts of theory \<^verbatim>\<open>RL78_ISA\<close>.\<close>

section \<open>Shifts and rotates\<close>

text \<open>A shift is described by the result word and the bit shifted out.\<close>

lemma shift_facts:
  assumes "isa_shift hp es mo f a m = Some m'" "cpu_ok (cpu m)" "is_byte_reg a \<and> w = 8 \<and> mo = MO_8 \<or> is_word_reg a \<and> w = 16 \<and> mo = MO_16"
    and "\<And>x. unat x < 2 ^ w \<Longrightarrow> fst (f (unat x)) mod 2 ^ w = unat (g x) mod 2 ^ w \<and> snd (f (unat x)) = out x"
  obtains x where "ld_operand es MO_8 a m = Some x" "unat x < 2 ^ w" "ld_operand es mo a m = Some x"
    "st_operand hp es MO_8 a (g x) (set_cy (out x) m) = Some m'" "st_operand hp es mo a (g x) (set_cy (out x) m) = Some m'"
proof -
  from assms(1) obtain x where l: "ld_operand es mo a m = Some x"
    and st: "st_operand hp es mo a (of_nat (fst (f (unat x)))) (set_cy (snd (f (unat x))) m) = Some m'"
    by (auto simp: isa_shift_def Option.bind_eq_Some_conv case_prod_beta)
  have b: "unat x < 2 ^ w" and l8: "ld_operand es MO_8 a m = Some x"
    using assms(3) l gpr8_less[OF assms(2)] by (cases a; auto simp: gpr16_def unat_get_rp_less)+
  have "of_nat (fst (f (unat x))) = (of_nat (unat (of_nat (fst (f (unat x))) :: u32)) :: u32)" by simp
  have n: "unat (of_nat k :: u32) mod 2 ^ w = k mod 2 ^ w" for k
    using assms(3) by (auto simp: unsigned_of_nat take_bit_eq_mod mod_mod_cancel)
  have "st_operand hp es mo a (of_nat (fst (f (unat x)))) (set_cy (out x) m) = st_operand hp es mo a (g x) (set_cy (out x) m)"
    using assms(3)
  proof (elim disjE conjE)
    assume a: "is_byte_reg a" "w = 8" "mo = MO_8"
    show ?thesis unfolding a(3) using assms(4)[OF b] n a(1,2)
      by (intro st_byte_norm) (simp_all add: byte_loc_def and_255_nat(1))
  next
    assume a: "is_word_reg a" "w = 16" "mo = MO_16"
    show ?thesis unfolding a(3) using assms(4)[OF b] n a(1,2)
      by (intro st_word_norm) (simp_all add: word_loc_def and_65535_nat(1))
  qed
  then have s: "st_operand hp es mo a (g x) (set_cy (out x) m) = Some m'" using st assms(4)[OF b] by simp
  moreover have "st_operand hp es MO_8 a v m1 = st_operand hp es mo a v m1" for v m1
    using assms(3) by (cases a) auto
  ultimately show ?thesis using that[OF l8 b l] by simp
qed

lemma shr_bits:
  assumes "unat (x::u32) < 65536" "n < 16"
  shows "drop_bit n (push_bit 1 x) AND 1 = flag (snd (shr_nat n (unat x)))"
    "unat (drop_bit 1 (drop_bit n (push_bit 1 x))) = fst (shr_nat n (unat x))"
proof -
  have u: "unat (push_bit 1 x) = 2 * unat x" using assms by (simp only: unat_push_bit) simp
  show "drop_bit n (push_bit 1 x) AND 1 = flag (snd (shr_nat n (unat x)))"
    unfolding shift_and_1 bit_push_bit_iff using assms(2) by (auto simp: shr_nat_def flag_def bit_odd[symmetric])
  show "unat (drop_bit 1 (drop_bit n (push_bit 1 x))) = fst (shr_nat n (unat x))"
    unfolding unat_drop_bit u by (simp add: shr_nat_def div_mult2_eq[symmetric] mult.commute)
qed

lemma shl_bits:
  assumes "unat (x::u32) < 65536" "n < 16" "w \<in> {8, 16}"
  shows "flag (bit (push_bit n x) w) = flag (snd (shl_nat w n (unat x)))"
    "unat (push_bit n x) mod 2 ^ w = fst (shl_nat w n (unat x))"
proof -
  have "2 ^ n * unat x < 2 ^ 15 * 65536"
    using assms by (intro mult_le_less_imp_less power_increasing) auto
  then have u: "unat (push_bit n x) = unat x * 2 ^ n" by (simp add: unat_push_bit mult.commute)
  show "flag (bit (push_bit n x) w) = flag (snd (shl_nat w n (unat x)))" unfolding bit_odd u by (simp add: shl_nat_def)
  show "unat (push_bit n x) mod 2 ^ w = fst (shl_nat w n (unat x))" by (simp add: u shl_nat_def)
qed

definition raw_cy :: "u32 \<Rightarrow> machine \<Rightarrow> machine" where
  "raw_cy v m = m\<lparr>cpu := (cpu m)\<lparr>env_psw := (env_psw (cpu m))\<lparr>psw_cy := v\<rparr>\<rparr>\<rparr>"

lemma set_cy_raw: "flag b = v \<Longrightarrow> set_cy b m = raw_cy v m"
  by (simp add: set_cy_def psw_upd_def raw_cy_def)

lemma shamt_id: "unat (n::u32) < 16 \<Longrightarrow> n AND 0x1F = n"
  by (simp add: mask_simps take_bit_small)

lemma wp_shift_logical_right:
  assumes "At E c \<Gamma> \<Delta> m s" "cpu_ok (cpu m)" "operand1 i = OP_SHAMT n" "unat n < 16"
   "isa_shift (pl_host_ptr (fst E)) (dc_use_es c) mo (shr_nat (unat n)) (operand0 i) m = Some m'"
   "is_byte_reg (operand0 i) \<and> w = (8::nat) \<and> mo = MO_8 \<or> is_word_reg (operand0 i) \<and> w = 16 \<and> mo = MO_16"
  shows "wp (shift_logical_right i) (\<lambda>r s'. r \<and> Fell E c m' s') s"
proof -
  let ?r = "\<lambda>x::u32. drop_bit (unat n) (push_bit 1 x)"
  have w: "x < 2 ^ w \<Longrightarrow> x < 65536" for x :: nat using assms(6) by auto
  obtain x where x: "ld_operand (dc_use_es c) MO_8 (operand0 i) m = Some x" "unat x < 2 ^ w"
    "st_operand (pl_host_ptr (fst E)) (dc_use_es c) MO_8 (operand0 i) (drop_bit 1 (?r x)) (set_cy (snd (shr_nat (unat n) (unat x))) m) = Some m'"
    by (rule shift_facts[OF assms(5,2,6), where g = "\<lambda>x. drop_bit 1 (?r x)" and out = "\<lambda>x. snd (shr_nat (unat n) (unat x))"])
       (use shr_bits(2)[OF w assms(4)] in auto)
  have "cpu_ok (cpu (raw_cy (?r x AND 1) m))" "st_operand (pl_host_ptr (fst E)) (dc_use_es c) MO_8 (operand0 i) (drop_bit 1 (?r x)) (raw_cy (?r x AND 1) m) = Some m'"
    using x(3) set_cy_raw[OF shr_bits(1)[OF w[OF x(2)] assms(4), symmetric]] set_flag_ok(1)[OF assms(2)] by metis+
  then show ?thesis
    using assms(1,2,4) x(1) shamt_id[OF assms(4)] unfolding shift_logical_right_def wp_bind assms(3) raw_cy_def
    apply -
    apply ((erule wp_rules | (simp; fail))+, erule Fell_done, simp_all)
    done
qed

lemma wp_shift_left:
  assumes "At E c \<Gamma> \<Delta> m s" "cpu_ok (cpu m)" "operand1 i = OP_SHAMT n" "unat n < 16"
   "isa_shift (pl_host_ptr (fst E)) (dc_use_es c) mo (shl_nat w (unat n)) (operand0 i) m = Some m'"
   "is_byte_reg (operand0 i) \<and> w = (8::nat) \<and> mo = MO_8 \<or> is_word_reg (operand0 i) \<and> w = 16 \<and> mo = MO_16"
   "unat W = w"
  shows "wp (shift_left W i) (\<lambda>r s'. r \<and> Fell E c m' s') s"
proof -
  have w: "x < 2 ^ w \<Longrightarrow> x < 65536" "w \<in> {8, 16}" for x :: nat using assms(6) by auto
  note b = shl_bits[OF w(1) assms(4) w(2)]
  obtain x where x: "ld_operand (dc_use_es c) MO_8 (operand0 i) m = Some x" "unat x < 2 ^ w"
    "st_operand (pl_host_ptr (fst E)) (dc_use_es c) MO_8 (operand0 i) (push_bit (unat n) x) (set_cy (snd (shl_nat w (unat n) (unat x))) m) = Some m'"
    by (rule shift_facts[OF assms(5,2,6), where g = "push_bit (unat n)" and out = "\<lambda>x. snd (shl_nat w (unat n) (unat x))"])
       (use b(2) in \<open>auto simp: shl_nat_def\<close>)
  have "flag (snd (shl_nat w (unat n) (unat x))) = drop_bit w (push_bit (unat n) x) AND 1"
    using b(1)[OF x(2)] by (simp only: shift_and_1)
  from set_cy_raw[OF this] have "cpu_ok (cpu (raw_cy (drop_bit w (push_bit (unat n) x) AND 1) m))"
    "st_operand (pl_host_ptr (fst E)) (dc_use_es c) MO_8 (operand0 i) (push_bit (unat n) x) (raw_cy (drop_bit w (push_bit (unat n) x) AND 1) m) = Some m'"
    using x(3) set_flag_ok(1)[OF assms(2)] by metis+
  moreover have "unat W < 32" using w(2) assms(7) by auto
  ultimately show ?thesis
    using assms(1,2,4) x(1) shamt_id[OF assms(4)] unfolding shift_left_def wp_bind assms(3) raw_cy_def assms(7)[symmetric]
    apply -
    apply ((erule wp_rules | (simp; fail))+, erule Fell_done, simp_all)
    done
qed

lemma signed_val_bits:
  assumes "x < 2 ^ w" "0 < w"
  shows "signed_val w x = signed_take_bit (w - 1) (int x)"
proof -
  have t: "take_bit (Suc (w - 1)) (int x) = int x" using assms by (simp add: take_bit_int_eq_self)
  have "bit x (w - 1) \<longleftrightarrow> \<not> x < 2 ^ (w - 1)"
  proof -
    have "x div 2 ^ (w - 1) < 2" using assms by (simp add: less_mult_imp_div_less flip: power_Suc)
    then have "odd (x div 2 ^ (w - 1)) \<longleftrightarrow> x div 2 ^ (w - 1) \<noteq> 0" by (cases "x div 2 ^ (w - 1)") auto
    then show ?thesis by (simp add: bit_iff_odd div_eq_0_iff)
  qed
  then show ?thesis
    unfolding signed_take_bit_eq_take_bit_minus t signed_val_def bit_of_nat_iff_bit using assms(2) by simp
qed

lemma sar_bits:
  fixes x :: u32
  assumes "unat x < 2 ^ w" "n < 16" "w \<in> {8, 16}"
  defines "r \<equiv> signed_drop_bit n (push_bit (32 - w) x)"
  shows "drop_bit (31 - w) r AND 1 = flag (snd (sar_nat w n (unat x)))"
    "unat (drop_bit (32 - w) r) = fst (sar_nat w n (unat x))"
proof -
  have w: "0 < w" "w \<le> 16" using assms(3) by auto
  note sv = signed_val_bits[OF assms(1) w(1)]
  have bx: "bit (int (unat x)) k = bit x k" for k
    using bit_imp_le_length[of x k] by (auto simp: bit_simps)
  have br: "bit r k \<longleftrightarrow> 32 - w \<le> (if 32 - n \<le> k then 31 else n + k) \<and> bit x ((if 32 - n \<le> k then 31 else n + k) - (32 - w))"
    if "k < 32" for k
    unfolding r_def using that assms(2) by (auto simp: bit_signed_drop_bit_iff bit_push_bit_iff)
  show "drop_bit (31 - w) r AND 1 = flag (snd (sar_nat w n (unat x)))"
  proof (cases "n = 0")
    case True
    moreover have "\<not> 32 - w \<le> 31 - w" using w by linarith
    ultimately show ?thesis unfolding shift_and_1 using br[of "31 - w"] w by (auto simp: sar_nat_def)
  next
    case False
    have "odd (signed_val w (unat x) div 2 ^ (n - 1)) = bit x (min (n - 1) (w - 1))"
      unfolding sv bit_iff_odd[symmetric] bit_signed_take_bit_iff bx by (simp add: min.commute)
    also have "\<dots> = bit r (31 - w)"
      using br[of "31 - w"] w False assms(2) by (auto simp: min_def)
    finally show ?thesis unfolding shift_and_1 using False by (simp add: sar_nat_def)
  qed
  have "int (unat (drop_bit (32 - w) r)) = signed_val w (unat x) div 2 ^ n mod 2 ^ w"
  proof (rule bit_eqI)
    fix k
    have "bit (int (unat (drop_bit (32 - w) r))) k \<longleftrightarrow> k < w \<and> bit r (32 - w + k)"
      using bit_imp_le_length[of r "32 - w + k"] w by (auto simp: bit_simps)
    also have "\<dots> \<longleftrightarrow> k < w \<and> bit x (min (n + k) (w - 1))"
      using br[of "32 - w + k"] w assms(2) by (auto simp: min_def)
    also have "\<dots> \<longleftrightarrow> bit (take_bit w (drop_bit n (signed_val w (unat x)))) k"
      unfolding sv bit_take_bit_iff bit_drop_bit_eq comp_def bit_signed_take_bit_iff bx by (simp add: min.commute)
    finally show "bit (int (unat (drop_bit (32 - w) r))) k = bit (signed_val w (unat x) div 2 ^ n mod 2 ^ w) k"
      by (simp only: take_bit_eq_mod drop_bit_eq_div)
  qed
  from arg_cong[OF this, of nat] show "unat (drop_bit (32 - w) r) = fst (sar_nat w n (unat x))"
    by (simp only: sar_nat_def fst_conv nat_int)
qed

lemma wp_shift_arithmetic_right:
  assumes "At E c \<Gamma> \<Delta> m s" "cpu_ok (cpu m)" "operand1 i = OP_SHAMT n" "unat n < 16"
   "isa_shift (pl_host_ptr (fst E)) (dc_use_es c) mo (sar_nat w (unat n)) (operand0 i) m = Some m'"
   "is_byte_reg (operand0 i) \<and> w = (8::nat) \<and> mo = MO_8 \<or> is_word_reg (operand0 i) \<and> w = 16 \<and> mo = MO_16"
   "unat W = w"
  shows "wp (shift_arithmetic_right W i) (\<lambda>r s'. r \<and> Fell E c m' s') s"
proof -
  let ?r = "\<lambda>x::u32. signed_drop_bit (unat n) (push_bit (32 - w) x)"
  have w: "w \<in> {8, 16}" using assms(6) by auto
  have u: "unat (32 - W) = 32 - w" "unat (32 - W - 1) = 31 - w"
    using w assms(7) by (auto simp: unat_sub word_le_nat_alt)
  note b = sar_bits[OF _ assms(4) w]
  obtain x where x: "ld_operand (dc_use_es c) MO_8 (operand0 i) m = Some x" "unat x < 2 ^ w"
    "st_operand (pl_host_ptr (fst E)) (dc_use_es c) MO_8 (operand0 i) (drop_bit (32 - w) (?r x)) (set_cy (snd (sar_nat w (unat n) (unat x))) m) = Some m'"
    by (rule shift_facts[OF assms(5,2,6), where g = "\<lambda>x. drop_bit (32 - w) (?r x)" and out = "\<lambda>x. snd (sar_nat w (unat n) (unat x))"])
       (use b(2) in auto)
  from set_cy_raw[OF b(1)[OF x(2), symmetric]] have "cpu_ok (cpu (raw_cy (drop_bit (31 - w) (?r x) AND 1) m))"
    "st_operand (pl_host_ptr (fst E)) (dc_use_es c) MO_8 (operand0 i) (drop_bit (32 - w) (?r x)) (raw_cy (drop_bit (31 - w) (?r x) AND 1) m) = Some m'"
    using x(3) set_flag_ok(1)[OF assms(2)] by metis+
  moreover have "unat (32 - W) < 32" "unat (32 - W - 1) < 32" using w u by auto
  ultimately show ?thesis
    using assms(1,2,4) x(1) shamt_id[OF assms(4)] unfolding shift_arithmetic_right_def Let_def wp_bind assms(3) raw_cy_def u[symmetric]
    apply -
    apply ((erule wp_rules | (simp; fail))+, erule Fell_done, simp_all)
    done
qed

lemma byte_rotates:
  assumes "unat (x::u32) < 256"
  shows "unat (drop_bit 1 (push_bit 8 x OR x) AND 0xFF) = fst (ror_nat (unat x))"
    "x AND 1 = flag (snd (ror_nat (unat x)))"
    "unat (drop_bit 8 (push_bit 1 (push_bit 8 x OR x)) AND 0xFF) = fst (rol_nat (unat x))"
    "drop_bit 7 x = flag (snd (rol_nat (unat x)))"
proof -
  define a where "a = unat x"
  have a: "a < 256" using assms by (simp add: a_def)
  have o: "unat (push_bit 8 x OR x) = 257 * a"
    using unat_or_disjoint[of x 8 "push_bit 8 x"] unat_push_bit_small[of x 8 8] assms
    by (simp add: a_def or.commute bit_push_bit_iff)
  have q: "257 * a div 2 mod 256 = a div 2 + 128 * (a mod 2)"
  proof (cases "even a")
    case True
    then obtain k where "a = 2 * k" by blast
    moreover have "(k + 256 * k) mod 256 = k mod 256" by (rule mod_mult_self2)
    ultimately show ?thesis using a by simp
  next
    case False
    then obtain k where k: "a = 2 * k + 1" by (rule oddE)
    moreover have "(k + 128 + 256 * k) mod 256 = (k + 128) mod 256" by (rule mod_mult_self2)
    moreover have "257 * a div 2 = k + 128 + 256 * k" using k by simp
    ultimately show ?thesis using a by simp
  qed
  show "unat (drop_bit 1 (push_bit 8 x OR x) AND 0xFF) = fst (ror_nat (unat x))"
    unfolding mask_simps unat_take_bit unat_drop_bit o using q by (simp add: ror_nat_def a_def)
  show "x AND 1 = flag (snd (ror_nat (unat x)))"
    using shift_and_1[of 0 x] by (simp add: ror_nat_def bit_odd)
  have p: "unat (push_bit 1 (push_bit 8 x OR x)) = 514 * a"
    unfolding unat_push_bit o using a by simp
  have r: "514 * a div 256 mod 256 = 2 * a mod 256 + a div 128"
  proof -
    have "514 * a div 256 = 2 * a + a div 128"
      using div_mult_self2[of 256 "2 * a" "2 * a"] div_mult_mult1[of 2 a 128] by simp
    moreover have "a div 128 \<in> {0, 1}" using a by auto
    ultimately show ?thesis using a by (cases "a < 128") (auto simp: le_mod_geq)
  qed
  show "unat (drop_bit 8 (push_bit 1 (push_bit 8 x OR x)) AND 0xFF) = fst (rol_nat (unat x))"
    unfolding mask_simps unat_take_bit unat_drop_bit p using r by (simp add: rol_nat_def a_def)
  have "a div 128 = (if 128 \<le> a then 1 else 0)" using a by auto
  then show "drop_bit 7 x = flag (snd (rol_nat (unat x)))"
    by (simp add: word_unat_eq_iff unat_drop_bit rol_nat_def flag_def a_def)
qed

lemma wp_trans_ROR:
  assumes "At E c \<Gamma> \<Delta> m s" "cpu_ok (cpu m)" "is_byte_reg (operand0 i)"
   "isa_shift (pl_host_ptr (fst E)) (dc_use_es c) MO_8 ror_nat (operand0 i) m = Some m'"
  shows "wp (trans_ROR i) (\<lambda>r s'. r \<and> Fell E c m' s') s"
proof -
  let ?g = "\<lambda>x::u32. drop_bit 1 (push_bit 8 x OR x) AND 0xFF"
  obtain x where x: "ld_operand (dc_use_es c) MO_8 (operand0 i) m = Some x" "unat x < 2 ^ 8"
    "st_operand (pl_host_ptr (fst E)) (dc_use_es c) MO_8 (operand0 i) (?g x) (set_cy (snd (ror_nat (unat x))) m) = Some m'"
    by (rule shift_facts[OF assms(4,2), where w = 8 and g = ?g and out = "\<lambda>x. snd (ror_nat (unat x))"])
       (use assms(3) byte_rotates(1) in auto)
  then have "unat x < 256" by simp
  from set_cy_raw[OF byte_rotates(2)[OF this, symmetric]] have "cpu_ok (cpu (raw_cy (x AND 1) m))"
    "st_operand (pl_host_ptr (fst E)) (dc_use_es c) MO_8 (operand0 i) (?g x) (raw_cy (x AND 1) m) = Some m'"
    using x(3) set_flag_ok(1)[OF assms(2)] by metis+
  then show ?thesis
    using assms(1,2) x(1) unfolding trans_ROR_def wp_bind raw_cy_def
    apply -
    apply ((erule wp_rules | (simp; fail))+, erule Fell_done, simp_all)
    done
qed

lemma wp_trans_ROL:
  assumes "At E c \<Gamma> \<Delta> m s" "cpu_ok (cpu m)" "is_byte_reg (operand0 i)"
   "isa_shift (pl_host_ptr (fst E)) (dc_use_es c) MO_8 rol_nat (operand0 i) m = Some m'"
  shows "wp (trans_ROL i) (\<lambda>r s'. r \<and> Fell E c m' s') s"
proof -
  let ?g = "\<lambda>x::u32. drop_bit 8 (push_bit 1 (push_bit 8 x OR x)) AND 0xFF"
  obtain x where x: "ld_operand (dc_use_es c) MO_8 (operand0 i) m = Some x" "unat x < 2 ^ 8"
    "st_operand (pl_host_ptr (fst E)) (dc_use_es c) MO_8 (operand0 i) (?g x) (set_cy (snd (rol_nat (unat x))) m) = Some m'"
    by (rule shift_facts[OF assms(4,2), where w = 8 and g = ?g and out = "\<lambda>x. snd (rol_nat (unat x))"])
       (use assms(3) byte_rotates(3) in auto)
  then have "unat x < 256" by simp
  from set_cy_raw[OF byte_rotates(4)[OF this, symmetric]] have "cpu_ok (cpu (raw_cy (drop_bit 7 x) m))"
    "st_operand (pl_host_ptr (fst E)) (dc_use_es c) MO_8 (operand0 i) (?g x) (raw_cy (drop_bit 7 x) m) = Some m'"
    using x(3) set_flag_ok(1)[OF assms(2)] by metis+
  then show ?thesis
    using assms(1,2) x(1) unfolding trans_ROL_def wp_bind raw_cy_def
    apply -
    apply ((erule wp_rules | (simp; fail))+, erule Fell_done, simp_all)
    done
qed

lemma carry_rotates:
  assumes "unat (x::u32) < 2 ^ w" "unat (c::u32) < 2" "w \<in> {8, 16}"
  shows "w = 8 \<Longrightarrow> unat (drop_bit 1 x OR push_bit 7 c) = fst (rorc_nat (unat c) (unat x))"
    "unat (push_bit 1 x OR c) mod 2 ^ w = fst (rolc_nat w (unat c) (unat x)) mod 2 ^ w"
    "drop_bit (w - 1) x = flag (snd (rolc_nat w (unat c) (unat x)))"
proof -
  have b: "0 < w" "w \<le> 16" "unat x < 65536" using assms by auto
  show "unat (drop_bit 1 x OR push_bit 7 c) = fst (rorc_nat (unat c) (unat x))" if "w = 8"
    using unat_or_disjoint[of "drop_bit 1 x" 7 "push_bit 7 c"] unat_push_bit_small[of c 1 7] that assms
    by (simp add: unat_drop_bit bit_push_bit_iff rorc_nat_def)
  have "unat (push_bit 1 x OR c) = unat c + 2 * unat x"
    using unat_or_disjoint[of c 1 "push_bit 1 x"] unat_push_bit_small[of x 16 1] assms b
    by (simp add: bit_push_bit_iff or.commute del: push_bit_Suc One_nat_def)
  then show "unat (push_bit 1 x OR c) mod 2 ^ w = fst (rolc_nat w (unat c) (unat x)) mod 2 ^ w"
    by (simp add: rolc_nat_def mod_add_left_eq mod_add_right_eq add.commute)
  have h: "(2::nat) ^ w = 2 * 2 ^ (w - 1)" using b(1) by (simp flip: power_Suc)
  have "unat x div 2 ^ (w - 1) = (if 2 ^ (w - 1) \<le> unat x then 1 else 0)"
    using assms(1) h by (auto intro!: div_nat_eqI)
  then show "drop_bit (w - 1) x = flag (snd (rolc_nat w (unat c) (unat x)))"
    by (simp add: word_unat_eq_iff unat_drop_bit rolc_nat_def flag_def)
qed

lemma rolc_masked:
  fixes x c :: u32
  assumes "unat c < 2"
  shows "unat x < 2 ^ 8 \<Longrightarrow> fst (rolc_nat 8 (unat c) (unat x)) mod 2 ^ 8 = unat ((push_bit 1 x OR c) AND 0xFF) mod 2 ^ 8"
    "unat x < 2 ^ 16 \<Longrightarrow> fst (rolc_nat 16 (unat c) (unat x)) mod 2 ^ 16 = unat ((push_bit 1 x OR c) AND 0xFFFF) mod 2 ^ 16"
  by (simp_all only: and_0xFF_take_bit and_0xFFFF_take_bit unat_take_bit mod_mod_trivial)
     (simp_all only: carry_rotates(2)[OF _ assms] insert_iff simp_thms)

lemma wp_trans_RORC:
  assumes "At E c \<Gamma> \<Delta> m s" "cpu_ok (cpu m)"
   "isa_shift (pl_host_ptr (fst E)) (dc_use_es c) MO_8 (rorc_nat (cy m)) (OP_BYTE_REG REG_A) m = Some m'"
  shows "wp (trans_RORC i) (\<lambda>r s'. r \<and> Fell E c m' s') s"
proof -
  let ?x = "gpr8 m REG_A" and ?c = "psw_cy (env_psw (cpu m))"
  have b: "unat ?x < 2 ^ 8" "unat ?x < 256" "unat ?c < 2" using gpr8_less[OF assms(2)] psw_cy_less[OF assms(2)] by simp_all
  have "fst (rorc_nat (cy m) (unat ?x)) = unat (drop_bit 1 ?x OR push_bit 7 ?c)" "?x AND 1 = flag (snd (rorc_nat (cy m) (unat ?x)))"
    using carry_rotates(1)[OF b(1,3)] byte_rotates(2)[OF b(2)] by (simp_all add: cy_def rorc_nat_def ror_nat_def)
  then have "m' = set_gpr8 REG_A (drop_bit 1 ?x OR push_bit 7 ?c) (raw_cy (?x AND 1) m)" "cpu_ok (cpu (raw_cy (?x AND 1) m))"
    using assms(3) set_cy_raw[of _ "?x AND 1" m] set_flag_ok(1)[OF assms(2)] 
    by (auto simp: isa_shift_def case_prod_beta) metis+
  then show ?thesis
    using assms(1,2) unfolding trans_RORC_def wp_bind raw_cy_def
    apply -
    apply ((erule wp_rules | (simp; fail))+, erule Fell_done, simp_all)
    done
qed

lemma wp_trans_ROLC:
  assumes "At E c \<Gamma> \<Delta> m s" "cpu_ok (cpu m)"
   "isa_shift (pl_host_ptr (fst E)) (dc_use_es c) MO_8 (rolc_nat 8 (cy m)) (OP_BYTE_REG REG_A) m = Some m'"
  shows "wp (trans_ROLC i) (\<lambda>r s'. r \<and> Fell E c m' s') s"
proof -
  let ?x = "gpr8 m REG_A" and ?c = "psw_cy (env_psw (cpu m))"
  have b: "unat ?x < 2 ^ 8" "unat ?c < 2" using gpr8_less[OF assms(2)] psw_cy_less[OF assms(2)] by simp_all
  note f = carry_rotates(2,3)[OF b, unfolded cy_def[symmetric], simplified]
  obtain y where y: "ld_operand (dc_use_es c) MO_8 (OP_BYTE_REG REG_A) m = Some y"
    "st_operand (pl_host_ptr (fst E)) (dc_use_es c) MO_8 (OP_BYTE_REG REG_A) ((push_bit 1 y OR ?c) AND 0xFF) (set_cy (snd (rolc_nat 8 (cy m) (unat y))) m) = Some m'"
    by (rule shift_facts[OF assms(3,2), where w = 8 and g = "\<lambda>x. (push_bit 1 x OR ?c) AND 0xFF" and out = "\<lambda>x. snd (rolc_nat 8 (cy m) (unat x))"])
       (use rolc_masked(1)[OF b(2)] in \<open>simp_all add: cy_def\<close>)
  then have "cpu_ok (cpu (raw_cy (drop_bit 7 ?x) m))" "m' = set_gpr8 REG_A ((push_bit 1 ?x OR ?c) AND 0xFF) (raw_cy (drop_bit 7 ?x) m)"
    using set_cy_raw[OF f(2)[symmetric]] set_flag_ok(1)[OF assms(2)] by (auto) metis?
  then show ?thesis
    using assms(1,2) unfolding trans_ROLC_def wp_bind raw_cy_def
    apply -
    apply ((erule wp_rules | (simp; fail))+, erule Fell_done, simp_all)
    done
qed

lemma wp_trans_ROLWC:
  assumes "At E c \<Gamma> \<Delta> m s" "cpu_ok (cpu m)" "is_word_reg (operand0 i)"
   "isa_shift (pl_host_ptr (fst E)) (dc_use_es c) MO_16 (rolc_nat 16 (cy m)) (operand0 i) m = Some m'"
  shows "wp (trans_ROLWC i) (\<lambda>r s'. r \<and> Fell E c m' s') s"
proof -
  let ?c = "psw_cy (env_psw (cpu m))"
  let ?g = "\<lambda>x. (push_bit 1 x OR ?c) AND 0xFFFF"
  have b: "unat ?c < 2" by (rule psw_cy_less[OF assms(2)])
  obtain x where x: "ld_operand (dc_use_es c) MO_16 (operand0 i) m = Some x" "unat x < 2 ^ 16"
    "st_operand (pl_host_ptr (fst E)) (dc_use_es c) MO_16 (operand0 i) (?g x) (set_cy (snd (rolc_nat 16 (cy m) (unat x))) m) = Some m'"
    by (rule shift_facts[OF assms(4,2), where w = 16 and g = ?g and out = "\<lambda>x. snd (rolc_nat 16 (cy m) (unat x))"])
       (use assms(3) rolc_masked(2)[OF b] in \<open>simp_all add: cy_def\<close>)
  have "drop_bit 15 x = flag (snd (rolc_nat 16 (cy m) (unat x)))" using carry_rotates(3)[OF x(2) b] by (simp add: cy_def)
  then have "flag (snd (rolc_nat 16 (cy m) (unat x))) = drop_bit 15 x AND 1" by (simp add: flag_def)
  from set_cy_raw[OF this] have "cpu_ok (cpu (raw_cy (drop_bit 15 x AND 1) m))"
    "st_operand (pl_host_ptr (fst E)) (dc_use_es c) MO_16 (operand0 i) (?g x) (raw_cy (drop_bit 15 x AND 1) m) = Some m'"
    using x(3) set_flag_ok(1)[OF assms(2)] by metis+
  then show ?thesis
    using assms(1,2) x(1) unfolding trans_ROLWC_def wp_bind raw_cy_def
    apply -
    apply ((erule wp_rules | (simp; fail))+, erule Fell_done, simp_all)
    done
qed
end
