(* ===== verification/RL78_Control_Rules.thy ===== *)
theory RL78_Control_Rules
  imports RL78_Flow RL78_Bit_Rules RL78_Shift_Rules
begin

text \<open>Control transfer: jumps, branches, calls, returns and \<^verbatim>\<open>BRK\<close> implement theory \<^verbatim>\<open>RL78_ISA\<close>. A
  handler ends either inside the running block at the next instruction, or with the block left
  at the target.\<close>

section \<open>The end of an instruction\<close>

definition same_blk :: "DisasContext \<Rightarrow> DisasContext \<Rightarrow> bool" where
  "same_blk c c' \<longleftrightarrow> base_pc c' = base_pc c \<and> tb_pc c' = tb_pc c \<and> tb_size c' = tb_size c \<and>
     (base_is_jmp c \<noteq> DISAS_JUMP \<longrightarrow> base_is_jmp c' \<noteq> DISAS_JUMP)"

definition Ends :: "run_env \<Rightarrow> DisasContext \<Rightarrow> machine \<Rightarrow> gen_state \<Rightarrow> bool" where
  "Ends E c m s \<longleftrightarrow> (\<exists>c'. same_blk c c' \<and>
     (Left E c' m s \<or> (\<exists>m'. At E c' Map.empty Map.empty m' s \<and> set_pc (base_pc c) m' = m)))"

lemma same_blk_simps [simp]: "same_blk c c" "same_tb c c' \<Longrightarrow> same_blk c c'"
  "same_blk c (c'\<lparr>base_is_jmp := DISAS_UPDATE\<rparr>) = same_blk c (c'\<lparr>base_is_jmp := DISAS_NEXT\<rparr>)"
  "same_blk c (c'\<lparr>base_is_jmp := DISAS_TB_JUMP\<rparr>) = same_blk c (c'\<lparr>base_is_jmp := DISAS_NEXT\<rparr>)"
  by (auto simp: same_blk_def same_tb_def)

lemma same_blk_next [simp]: "same_blk c c' \<Longrightarrow> same_blk c (c'\<lparr>base_is_jmp := DISAS_NEXT\<rparr>)"
  "same_blk c (c\<lparr>base_is_jmp := DISAS_NEXT\<rparr>)"
  by (auto simp: same_blk_def)

lemma Fell_Ends: "Fell E c m s \<Longrightarrow> Ends E c (set_pc (base_pc c) m) s"
  unfolding Fell_def Ends_def using same_blk_simps(2) by blast

lemma Left_Ends: "Left E c' m s \<Longrightarrow> same_blk c c' \<Longrightarrow> m = m' \<Longrightarrow> True \<and> Ends E c m' s"
  unfolding Ends_def by blast

lemma At_Ends: "At E c' \<Gamma> \<Delta> m s \<Longrightarrow> same_blk c c' \<Longrightarrow> set_pc (base_pc c) m = m' \<Longrightarrow> Ends E c m' s"
  unfolding Ends_def using At_weaken[of E c' \<Gamma> \<Delta> m s Map.empty Map.empty m c'] by auto

lemma wp_set_is_jmp_Left:
  assumes "Left E c m s" "\<And>s'. Left E (c\<lparr>base_is_jmp := j\<rparr>) m s' \<Longrightarrow> Q () s'"
  shows "wp (set_is_jmp j) Q s"
  unfolding set_is_jmp_def by (rule Left_upd_dc[OF assms(1)], rule assms(2))

lemma wp_gen_goto_tb:
  assumes "At E c \<Gamma> \<Delta> m s" "\<And>s'. Left E c (set_pc dest m) s' \<Longrightarrow> Q () s'"
  shows "wp (gen_goto_tb n dest) Q s"
proof (cases "use_goto_tb c dest")
  case True
  show ?thesis using assms(1) unfolding gen_goto_tb_def wp_bind gen_exit_tb_def gen_exit_tb_no_chaining_def
    apply -
    apply (erule wp_rules)
    apply (simp only: True if_True wp_bind)
    apply ((erule wp_rules | (simp only: wp_bind) | (simp; fail))+, rule assms(2), simp add: set_pc_def)
    done
next
  case False
  show ?thesis using assms(1) unfolding gen_goto_tb_def wp_bind gen_exit_tb_def gen_exit_tb_no_chaining_def
    apply -
    apply (erule wp_rules)
    apply (simp only: False if_False wp_bind)
    apply ((erule wp_rules | (simp only: wp_bind) | (simp; fail))+, rule assms(2), simp add: set_pc_def)
    done
qed

lemma wp_rl78_gen_goto_tb:
  assumes "At E c \<Gamma> \<Delta> m s" "\<And>s'. Left E (c\<lparr>base_is_jmp := DISAS_TB_JUMP\<rparr>) (set_pc dest m) s' \<Longrightarrow> Q () s'"
  shows "wp (rl78_gen_goto_tb n dest) Q s"
  unfolding rl78_gen_goto_tb_def wp_bind
  by (rule wp_gen_goto_tb[OF assms(1)], erule wp_set_is_jmp_Left, rule assms(2))

lemma wp_exit_no_chaining:
  assumes "At E c \<Gamma> \<Delta> m s" "\<And>s'. Left E c m s' \<Longrightarrow> Q () s'"
  shows "wp gen_exit_tb_no_chaining Q s"
  unfolding gen_exit_tb_no_chaining_def by (rule wp_exit_tb[OF assms(1)], rule assms(2))

lemmas ctrl_rules = wp_rl78_gen_goto_tb wp_exit_no_chaining wp_set_is_jmp_Left

section \<open>Jumps\<close>

lemma scast_signed_val:
  "scast (b :: u8) = (of_int (signed_val 8 (unat b)) :: u32)" "scast (h :: u16) = (of_int (signed_val 16 (unat h)) :: u32)"
proof -
  have "signed_val 8 (unat b) = signed_take_bit 7 (int (unat b))" "signed_val 16 (unat h) = signed_take_bit 15 (int (unat h))"
    using signed_val_bits[of "unat b" 8] signed_val_bits[of "unat h" 16] unsigned_less[of b, where ?'a = nat]
      unsigned_less[of h, where ?'a = nat] by simp_all
  then show "scast b = (of_int (signed_val 8 (unat b)) :: u32)" "scast h = (of_int (signed_val 16 (unat h)) :: u32)"
    by (simp_all add: scast_eq sint_uint)
qed

lemma sext_rel: "sext8 v = rel8 v" "sext16 v = rel16 v"
proof -
  have u: "unat (ucast (v AND 0xFF) :: u8) = unat v mod 256" "unat (ucast (v AND 0xFFFF) :: u16) = unat v mod 65536"
    by (simp_all only: unsigned_ucast_eq mask_simps unsigned_take_bit_eq) (simp_all add: take_bit_eq_mod)
  show "sext8 v = rel8 v" "sext16 v = rel16 v"
    unfolding sext8_def sext16_def rel8_def rel16_def
    by (simp_all add: u scast_signed_val signed_val_def)
qed

lemma wp_ind_jump:
  assumes "At E c \<Gamma> \<Delta> m s" "cpu_ok (cpu m)"
  shows "wp (rl78_gen_ind_jump r) (\<lambda>_ s'. True \<and> Ends E c (set_pc (code_ptr m r) m) s') s"
  using assms(1) unfolding rl78_gen_ind_jump_def wp_bind
  apply -
  apply ((erule wp_rules | erule ctrl_rules | (simp add: assms(2); fail))+, erule Left_Ends, simp_all add: set_pc_def code_ptr_def)
  done

lemma wp_abs_jump:
  assumes "At E c \<Gamma> \<Delta> m s"
  shows "wp (rl78_gen_abs_jump v) (\<lambda>_ s'. True \<and> Ends E c (set_pc v m) s') s"
  unfolding rl78_gen_abs_jump_def using assms by (rule wp_rl78_gen_goto_tb) (erule Left_Ends; simp)

lemma wp_rel_jump:
  assumes "At E c \<Gamma> \<Delta> m s"
  shows "wp (rl78_gen_rel_jump v) (\<lambda>_ s'. True \<and> Ends E c (set_pc (base_pc c + v) m) s') s"
  using assms unfolding rl78_gen_rel_jump_def wp_bind
  by (elim wp_rules wp_rl78_gen_goto_tb) (erule Left_Ends; simp)

lemma wp_trans_BR:
  assumes "At E c \<Gamma> \<Delta> m s" "cpu_ok (cpu m)" "jump_target (base_pc c) m (operand0 i) = Some t"
  shows "wp (trans_BR i) (\<lambda>r s'. r \<and> Ends E c (set_pc t m) s') s"
  using assms(3) wp_ind_jump[OF assms(1,2)] wp_abs_jump[OF assms(1)] wp_rel_jump[OF assms(1)]
  unfolding trans_BR_def wp_bind wp_return by (cases "operand0 i") (auto simp: sext_rel simp del: wp_bind)

section \<open>Branches\<close>

lemmas jump_ops = tcg_gen_movi_i32_def tcg_gen_goto_tb_def tcg_gen_exit_tb_def

lemma Jump_goto_tb:
  assumes "Jump E c l T m s" "\<And>s'. Jump E (c\<lparr>base_is_jmp := DISAS_TB_JUMP\<rparr>) l T m s' \<Longrightarrow> Q () s'"
  shows "wp (rl78_gen_goto_tb n dest) Q s"
proof (cases "use_goto_tb c dest")
  case True
  show ?thesis using assms(1) unfolding rl78_gen_goto_tb_def gen_goto_tb_def wp_bind gen_exit_tb_def gen_exit_tb_no_chaining_def set_is_jmp_def
    by (elim Jump_get_dc, simp only: True if_True wp_bind jump_ops)
       ((erule Jump_emit | erule Jump_upd_dc | (simp only: wp_bind) | (simp; fail))+, rule assms(2))
next
  case False
  show ?thesis using assms(1) unfolding rl78_gen_goto_tb_def gen_goto_tb_def wp_bind gen_exit_tb_def gen_exit_tb_no_chaining_def set_is_jmp_def
    by (elim Jump_get_dc, simp only: False if_False wp_bind jump_ops)
       ((erule Jump_emit | erule Jump_upd_dc | (simp only: wp_bind) | (simp; fail))+, rule assms(2))
qed

lemma wp_branch:
  assumes "At E c \<Gamma> \<Delta> m s" "look \<Gamma> m a = Some x"
    "\<And>s'. Ends E c (set_pc (if eval_cond cond x 0 then base_pc c else base_pc c + rel8 v) m) s' \<Longrightarrow> Q () s'"
  shows "wp (rl78_gen_branch v cond a) Q s"
  unfolding rl78_gen_branch_def wp_bind Let_def
proof (rule wp_get_dc_At[OF assms(1)], rule wp_new_label, assumption, rule wp_brcondi, assumption, rule assms(2), assumption)
  fix l s1 s2 assume e: "eval_cond cond x 0" and J: "Jump E c l {n. \<Gamma> (Temp n) \<noteq> None} m s2"
  show "wp (rl78_gen_goto_tb 1 (base_pc c + sext8 v)) (\<lambda>_. wp (gen_set_label l) Q) s2"
    by (rule Jump_goto_tb[OF J], erule Jump_label, rule assms(3), erule At_Ends) (use e in simp_all)
next
  fix l s1 s2 \<Gamma>' assume e: "\<not> eval_cond cond x 0" and A: "At E c \<Gamma>' Map.empty m s2"
  show "wp (rl78_gen_goto_tb 1 (base_pc c + sext8 v)) (\<lambda>_. wp (gen_set_label l) Q) s2"
    by (rule wp_rl78_gen_goto_tb[OF A], unfold gen_set_label_def, erule Left_emit, rule assms(3), drule Left_Ends) (use e in \<open>simp_all add: sext_rel\<close>)
qed

lemmas branch_defs = trans_BC_def trans_BNC_def trans_BZ_def trans_BNZ_def trans_BH_def trans_BNH_def

lemma wp_trans_branch:
  assumes "At E c \<Gamma> \<Delta> m s" "cpu_ok (cpu m)" "operand0 i = OP_REL8 v"
  defines "to \<equiv> \<lambda>b. set_pc (if b then base_pc c + rel8 v else base_pc c) m"
  shows "wp (trans_BC i) (\<lambda>r s'. r \<and> Ends E c (to (psw_cy (env_psw (cpu m)) = 1)) s') s"
    "wp (trans_BNC i) (\<lambda>r s'. r \<and> Ends E c (to (psw_cy (env_psw (cpu m)) = 0)) s') s"
    "wp (trans_BZ i) (\<lambda>r s'. r \<and> Ends E c (to (psw_z (env_psw (cpu m)) = 1)) s') s"
    "wp (trans_BNZ i) (\<lambda>r s'. r \<and> Ends E c (to (psw_z (env_psw (cpu m)) = 0)) s') s"
    "wp (trans_BH i) (\<lambda>r s'. r \<and> Ends E c (to (psw_z (env_psw (cpu m)) = 0 \<and> psw_cy (env_psw (cpu m)) = 0)) s') s"
    "wp (trans_BNH i) (\<lambda>r s'. r \<and> Ends E c (to (psw_z (env_psw (cpu m)) = 1 \<or> psw_cy (env_psw (cpu m)) = 1)) s') s"
  using assms(1) psw_flag_cases[OF assms(2)] unfolding branch_defs wp_bind assms(3) const_op.simps
  apply -
       apply ((erule wp_branch | erule wp_rules | (simp; fail))+, (auto simp: to_def)[1])+
  done

lemma wp_trans_BT_BF:
  assumes "At E c \<Gamma> \<Delta> m s" "cpu_ok (cpu m)" "operand0 i = OP_BIT b" "operand1 i = OP_REL8 v" "unat (bit_bit b) < 8"
  defines "to \<equiv> \<lambda>b. set_pc (if b then base_pc c + rel8 v else base_pc c) m"
  shows "wp (trans_BT i) (\<lambda>r s'. r \<and> Ends E c (to (ld_bit (dc_use_es c) b m)) s') s"
    "wp (trans_BF i) (\<lambda>r s'. r \<and> Ends E c (to (\<not> ld_bit (dc_use_es c) b m)) s') s"
  using assms(1) unfolding trans_BT_def trans_BF_def wp_bind assms(3,4) const_op.simps bit_op.simps
  apply -
   apply ((erule wp_load_flag | erule wp_branch | erule wp_rules | (simp add: assms(2,5); fail))+, (auto simp: to_def flag_def)[1])+
  done

section \<open>Calls and returns\<close>

lemma mem_st_cpu_upd: "mem_st mo a v (m\<lparr>cpu := c\<rparr>) = (mem_st mo a v m)\<lparr>cpu := c\<rparr>"
  by (cases mo) (simp_all add: mem_st_def ram_st_def)

lemma mem_ld_cpu_upd [simp]: "mem_ld mo (m\<lparr>cpu := c\<rparr>) a = mem_ld mo m a"
  by (cases mo) (simp_all add: mem_ld_def ram_ld_def)

lemma same_blk_stored [simp]: "same_blk c c' \<Longrightarrow> same_blk c (stored c')" "base_pc (stored c) = base_pc c" "dc_use_es (stored c) = dc_use_es c"
  by (simp_all add: same_blk_def)

lemma wp_prepare_call:
  assumes "At E c \<Gamma> \<Delta> m s" "psw_ok (env_psw (cpu m))"
    "\<And>c' s'. same_blk c c' \<Longrightarrow> At E c' \<Gamma> \<Delta> (isa_push_ret (dc_use_es c) save (base_pc c) m) s' \<Longrightarrow> Q () s'"
  shows "wp (rl78_gen_prepare_call save) Q s"
proof (cases save)
  case True
  show ?thesis
  using assms(1) unfolding rl78_gen_prepare_call_def wp_bind Let_def
  apply -
  apply (erule wp_rules)
  apply (simp only: True if_True wp_bind)
  apply ((erule wp_rules | (simp only: wp_bind) | (simp add: assms(2); fail))+)
  apply (rule assms(3)[rotated], erule At_forget)
  apply (auto simp: True isa_push_ret_def Let_def stack_at_def bank_base_def set_sp_def mem_st_cpu_upd)
  done
next
  case False
  show ?thesis
  using assms(1) unfolding rl78_gen_prepare_call_def wp_bind Let_def
  apply -
  apply (erule wp_rules)
  apply (simp only: False if_False wp_bind wp_return)
  apply ((erule wp_rules | (simp only: wp_bind) | (simp add: assms(2); fail))+)
  apply (rule assms(3)[rotated], erule At_forget)
  apply (auto simp: False isa_push_ret_def Let_def stack_at_def bank_base_def set_sp_def mem_st_cpu_upd)
  done
qed

lemma wp_return_ext: "wp (State_Monad.return a) Q = Q a"
  by (rule ext) simp

lemma wp_ret:
  assumes "At E c \<Gamma> \<Delta> m s"
  shows "wp (rl78_gen_ret restore) (\<lambda>_ s'. True \<and> Ends E c (isa_ret (dc_use_es c) restore m) s') s"
proof (cases restore)
  case True
  show ?thesis
  using assms(1) unfolding rl78_gen_ret_def wp_bind Let_def
  apply -
  apply (simp only: True if_True)
  apply ((erule wp_rules | erule ctrl_rules | (simp only: wp_bind wp_return) | (simp; fail))+, erule Left_Ends)
   apply (simp (no_asm))
  apply (simp (no_asm) add: isa_ret_def Let_def stack_at_def bank_base_def set_sp_def set_pc_def set_psw_def add.commute or.assoc)
  done
next
  case False
  show ?thesis
  using assms(1) unfolding rl78_gen_ret_def wp_bind Let_def
  apply -
  apply (simp only: False if_False)
  apply ((erule wp_rules | erule ctrl_rules | (simp only: wp_bind wp_return) | (simp; fail))+, erule Left_Ends)
   apply (simp (no_asm))
  apply (simp (no_asm) add: isa_ret_def Let_def stack_at_def bank_base_def set_sp_def set_pc_def set_psw_def add.commute or.assoc)
  done
qed

lemma wp_trans_rets:
  assumes "At E c \<Gamma> \<Delta> m s"
  shows "wp (trans_RET i) (\<lambda>r s'. r \<and> Ends E c (isa_ret (dc_use_es c) False m) s') s"
    "wp (trans_RETI i) (\<lambda>r s'. r \<and> Ends E c (isa_ret (dc_use_es c) True m) s') s"
    "wp (trans_RETB i) (\<lambda>r s'. r \<and> Ends E c (isa_ret (dc_use_es c) True m) s') s"
  unfolding trans_RET_def trans_RETI_def trans_RETB_def wp_bind wp_return using wp_ret[OF assms] by blast+

lemma wp_call_ind_reg:
  assumes "At E c \<Gamma> \<Delta> m s" "cpu_ok (cpu m)"
  shows "wp (call_ind_reg r) (\<lambda>_ s'. True \<and> Ends E c (set_pc (code_ptr m r) (isa_push_ret (dc_use_es c) False (base_pc c) m)) s') s"
  using assms(1) unfolding call_ind_reg_def wp_bind wp_return
  apply -
  apply ((erule wp_prepare_call | erule wp_rules | erule ctrl_rules | (simp add: assms(2) cpu_okD(1); fail))+, erule Left_Ends)
  apply (simp_all add: set_pc_def code_ptr_def add.commute)
  done

lemma wp_call_abs:
  assumes "At E c \<Gamma> \<Delta> m s" "cpu_ok (cpu m)"
  shows "wp (call_abs v) (\<lambda>_ s'. True \<and> Ends E c (set_pc v (isa_push_ret (dc_use_es c) False (base_pc c) m)) s') s"
  using assms(1) unfolding call_abs_def rl78_gen_abs_jump_def wp_bind
  by (elim wp_prepare_call wp_rl78_gen_goto_tb) (simp add: assms(2) cpu_okD(1), erule Left_Ends, simp_all)

lemma wp_trans_CALL:
  assumes "At E c \<Gamma> \<Delta> m s" "cpu_ok (cpu m)" "jump_target (base_pc c) m (operand0 i) = Some t" "\<not> is_rel8 (operand0 i)"
  shows "wp (trans_CALL i) (\<lambda>r s'. r \<and> Ends E c (set_pc t (isa_push_ret (dc_use_es c) False (base_pc c) m)) s') s"
proof -
  have "wp (call_rel v) (\<lambda>_ s'. True \<and> Ends E c (set_pc (base_pc c + v) (isa_push_ret (dc_use_es c) False (base_pc c) m)) s') s" for v
    unfolding call_rel_def wp_bind by (rule wp_get_dc_At[OF assms(1)], rule wp_call_abs[OF _ assms(2)])
  then show ?thesis
  using assms(3,4) wp_call_ind_reg[OF assms(1,2)] wp_call_abs[OF assms(1,2)]
  unfolding trans_CALL_def wp_bind wp_return by (cases "operand0 i") (auto simp: sext_rel wp_return_ext)
qed

lemma wp_trans_CALLT:
  assumes "At E c \<Gamma> \<Delta> m s" "cpu_ok (cpu m)" "operand0 i = OP_CALLT v"
  shows "wp (trans_CALLT i) (\<lambda>r s'. r \<and> Ends E c (set_pc (mem_ld MO_16 m v) (isa_push_ret (dc_use_es c) False (base_pc c) m)) s') s"
  using assms(1) unfolding trans_CALLT_def wp_bind wp_return assms(3) const_op.simps
  apply -
  apply ((erule wp_prepare_call | erule wp_rules | erule ctrl_rules | (simp add: assms(2) cpu_okD(1); fail))+, erule Left_Ends)
  apply (simp_all add: set_pc_def)
  done

lemma wp_trans_BRK:
  assumes "At E c \<Gamma> \<Delta> m s" "cpu_ok (cpu m)"
  shows "wp (trans_BRK i) (\<lambda>r s'. r \<and> Ends E c
     (set_pc (mem_ld MO_16 m 0x7E) (psw_upd (\<lambda>p. p\<lparr>psw_ie := 0\<rparr>) (isa_push_ret (dc_use_es c) True (base_pc c) m))) s') s"
  using assms(1) unfolding trans_BRK_def wp_bind wp_return
  apply -
  apply ((erule wp_prepare_call | erule wp_rules | erule ctrl_rules | (simp add: assms(2) cpu_okD(1); fail))+, erule Left_Ends)
  apply (simp_all add: set_pc_def psw_upd_def)
  done

lemma wp_trans_BTCLR:
  assumes "At E c \<Gamma> \<Delta> m s" "operand0 i = OP_BIT b" "operand1 i = OP_REL8 v"
    "helper_rl78_btclr (pl_host_ptr (fst E)) m (bitop_kind_num (bit_kind b)) (bit_addr b) (bit_bit b) (if dc_use_es c then 1 else 0) = (x, m')"
  shows "wp (trans_BTCLR i) (\<lambda>r s'. r \<and> Ends E c (set_pc (if x \<noteq> 0 then base_pc c + rel8 v else base_pc c) m') s') s"
  using assms(1) unfolding trans_BTCLR_def wp_bind wp_return assms(2,3) const_op.simps bit_op.simps Let_def
  apply -
  apply ((erule wp_rules | erule ctrl_rules | (simp only: wp_bind) | (simp; fail))+)
  apply (erule Left_Ends)
  apply (simp_all add: set_pc_def assms(4) sext_rel)
  done
end
