(* ===== verification/RL78_Dispatch.thy ===== *)
theory RL78_Dispatch
  imports RL78_Control_Rules
begin

text \<open>Dispatch: the handler that \<^verbatim>\<open>translator_table\<close> names for a decoded instruction implements
  \<^verbatim>\<open>isa_insn\<close>; a decoded instruction always has a meaning unless it is \<^verbatim>\<open>HALT\<close> or \<^verbatim>\<open>STOP\<close>.\<close>

section \<open>Instructions without control transfer\<close>

lemma wp_trans_logic:
  assumes "At E c \<Gamma> \<Delta> m s" "cpu_ok (cpu m)"
  shows "isa_logic (pl_host_ptr (fst E)) (dc_use_es c) (AND) (operand0 i) (operand1 i) m = Some m' \<Longrightarrow> wp (trans_AND i) (\<lambda>r s'. r \<and> Fell E c m' s') s"
    "isa_logic (pl_host_ptr (fst E)) (dc_use_es c) (OR) (operand0 i) (operand1 i) m = Some m' \<Longrightarrow> wp (trans_OR i) (\<lambda>r s'. r \<and> Fell E c m' s') s"
    "isa_logic (pl_host_ptr (fst E)) (dc_use_es c) (XOR) (operand0 i) (operand1 i) m = Some m' \<Longrightarrow> wp (trans_XOR i) (\<lambda>r s'. r \<and> Fell E c m' s') s"
  unfolding trans_AND_def trans_OR_def trans_XOR_def by (erule wp_bitwise[OF assms]; simp)+

lemma wp_trans_shifts:
  assumes "At E c \<Gamma> \<Delta> m s" "cpu_ok (cpu m)" "operand1 i = OP_SHAMT n" "unat n < 16"
  shows "is_byte_reg (operand0 i) \<Longrightarrow> isa_shift (pl_host_ptr (fst E)) (dc_use_es c) MO_8 (shr_nat (unat n)) (operand0 i) m = Some m' \<Longrightarrow> wp (trans_SHR i) (\<lambda>r s'. r \<and> Fell E c m' s') s"
    "is_word_reg (operand0 i) \<Longrightarrow> isa_shift (pl_host_ptr (fst E)) (dc_use_es c) MO_16 (shr_nat (unat n)) (operand0 i) m = Some m' \<Longrightarrow> wp (trans_SHRW i) (\<lambda>r s'. r \<and> Fell E c m' s') s"
    "is_byte_reg (operand0 i) \<Longrightarrow> isa_shift (pl_host_ptr (fst E)) (dc_use_es c) MO_8 (shl_nat 8 (unat n)) (operand0 i) m = Some m' \<Longrightarrow> wp (trans_SHL i) (\<lambda>r s'. r \<and> Fell E c m' s') s"
    "is_word_reg (operand0 i) \<Longrightarrow> isa_shift (pl_host_ptr (fst E)) (dc_use_es c) MO_16 (shl_nat 16 (unat n)) (operand0 i) m = Some m' \<Longrightarrow> wp (trans_SHLW i) (\<lambda>r s'. r \<and> Fell E c m' s') s"
    "is_byte_reg (operand0 i) \<Longrightarrow> isa_shift (pl_host_ptr (fst E)) (dc_use_es c) MO_8 (sar_nat 8 (unat n)) (operand0 i) m = Some m' \<Longrightarrow> wp (trans_SAR i) (\<lambda>r s'. r \<and> Fell E c m' s') s"
    "is_word_reg (operand0 i) \<Longrightarrow> isa_shift (pl_host_ptr (fst E)) (dc_use_es c) MO_16 (sar_nat 16 (unat n)) (operand0 i) m = Some m' \<Longrightarrow> wp (trans_SARW i) (\<lambda>r s'. r \<and> Fell E c m' s') s"
  unfolding trans_SHR_def trans_SHRW_def trans_SHL_def trans_SHLW_def trans_SAR_def trans_SARW_def
  by (rule wp_shift_logical_right[OF assms, where w = 8] wp_shift_logical_right[OF assms, where w = 16] wp_shift_left[OF assms]
      wp_shift_arithmetic_right[OF assms]; simp; fail)+

lemmas data_handlers = wp_trans_MOV wp_trans_XCH wp_trans_ADD wp_trans_ADDC wp_trans_SUB wp_trans_SUBC wp_trans_CMP wp_trans_CMP0
  wp_trans_CMPS wp_trans_MOVS wp_trans_logic wp_trans_ADDW wp_trans_SUBW wp_trans_CMPW wp_trans_MOVW wp_trans_XCHW
  wp_trans_consts wp_trans_MULU wp_trans_INC wp_trans_DEC wp_trans_INCW wp_trans_DECW wp_trans_shifts wp_trans_ROR wp_trans_ROL
  wp_trans_RORC wp_trans_ROLC wp_trans_ROLWC

lemma shape_cases:
  "is_shamt a \<longleftrightarrow> (\<exists>n. a = OP_SHAMT n)" "is_bit a \<longleftrightarrow> (\<exists>b. a = OP_BIT b)" "is_rel8 a \<longleftrightarrow> (\<exists>v. a = OP_REL8 v)"
  "is_callt a \<longleftrightarrow> (\<exists>v. a = OP_CALLT v)" "is_sel_rb a \<longleftrightarrow> (\<exists>v. a = OP_SEL_RB v)"
  by (cases a; simp)+

lemma wp_data:
  assumes "At E c \<Gamma> \<Delta> m s" "cpu_ok (cpu m)" "insn_ok i" "translator_table (mnemonic i) = Some th"
    "isa_data (pl_host_ptr (fst E)) (dc_use_es c) (mnemonic i) (operand0 i) (operand1 i) m = Some m'"
  shows "wp (th i) (\<lambda>r s'. r \<and> Fell E c m' s') s"
proof -
  note A = assms(1,2)
  note rules = data_handlers[OF A] wp_trans_bit1[OF A] wp_trans_bit2[OF A] wp_trans_skip[OF A] wp_trans_PUSH[OF A] wp_trans_POP[OF A]
    wp_trans_SEL[OF assms(1)] wp_trans_NOP[OF assms(1)]
  show ?thesis
    using assms(3-5) unfolding insn_ok_def
    apply (cases "mnemonic i"; simp add: isa_data_def shape_cases)
    apply ((elim conjE exE)?, (hypsubst)?, rule rules; simp; fail)+
    apply ((elim conjE exE)?, simp only: RL78Operand.case option.inject, (hypsubst)+, (rule rules; simp; fail))+
      apply (cases "operand0 i"; simp; (hypsubst)?; rule rules; simp; fail)+
    using wp_trans_NOP[OF assms(1), of i] apply simp
    done
qed

section \<open>Control transfer\<close>

lemma wp_BTCLR_case:
  assumes "At E c \<Gamma> \<Delta> m s" "operand0 i = OP_BIT b" "operand1 i = OP_REL8 v"
    "(case helper_rl78_btclr (pl_host_ptr (fst E)) m (bitop_kind_num (bit_kind b)) (bit_addr b) (bit_bit b) (if dc_use_es c then 1 else 0) of
        (x, m1) \<Rightarrow> isa_branch (base_pc c) (x \<noteq> 0) (operand1 i) m1) = Some m'"
  shows "wp (trans_BTCLR i) (\<lambda>r s'. r \<and> Ends E c m' s') s"
proof -
  obtain x m1 where h: "helper_rl78_btclr (pl_host_ptr (fst E)) m (bitop_kind_num (bit_kind b)) (bit_addr b) (bit_bit b) (if dc_use_es c then 1 else 0) = (x, m1)"
    by fastforce
  then show ?thesis using wp_trans_BTCLR[OF assms(1-3) h] assms(3,4) by (simp add: isa_branch_def)
qed

lemma wp_ctrl:
  assumes "At E c \<Gamma> \<Delta> m s" "cpu_ok (cpu m)" "insn_ok i" "translator_table (mnemonic i) = Some th"
    "isa_ctrl (pl_host_ptr (fst E)) (dc_use_es c) (base_pc c) (mnemonic i) (operand0 i) (operand1 i) m = Some m'"
  shows "wp (th i) (\<lambda>r s'. r \<and> Ends E c m' s') s"
proof -
  note A = assms(1,2)
  note rules = wp_trans_BR[OF A] wp_trans_CALL[OF A] wp_trans_CALLT[OF A] wp_trans_BRK[OF A] wp_trans_rets[OF assms(1)]
    wp_trans_branch[OF A] wp_trans_BT_BF[OF A] wp_trans_BTCLR[OF assms(1)]
  show ?thesis
    using assms(3-5) unfolding insn_ok_def
    apply (cases "mnemonic i"; simp add: isa_ctrl_def isa_branch_def shape_cases Option.bind_eq_Some_conv)
    apply ((elim conjE exE)?, (simp only: RL78Operand.case option.inject isa_branch_def)?, (hypsubst)+, (rule rules; simp add: shape_cases; fail))+
    apply (elim conjE exE, rule wp_BTCLR_case[OF assms(1)], assumption, assumption, simp only: RL78Operand.case)
    done
qed

lemma wp_insn:
  assumes "At E c \<Gamma> \<Delta> m s" "cpu_ok (cpu m)" "insn_ok i" "translator_table (mnemonic i) = Some th"
    "isa_insn (pl_host_ptr (fst E)) (dc_use_es c) (base_pc c) i m = Some m'"
  shows "wp (th i) (\<lambda>r s'. r \<and> Ends E c m' s') s"
proof (cases "isa_data (pl_host_ptr (fst E)) (dc_use_es c) (mnemonic i) (operand0 i) (operand1 i) m")
  case None
  then show ?thesis using wp_ctrl[OF assms(1-4)] assms(5) by (simp add: isa_insn_def)
next
  case (Some m1)
  then have m': "m' = set_pc (base_pc c) m1" using assms(5) by (simp add: isa_insn_def)
  show ?thesis unfolding m' by (rule wp_mono[OF wp_data[OF assms(1-4) Some]]) (auto intro: Fell_Ends)
qed

section \<open>Every decoded instruction has a meaning\<close>

lemma operand_total:
  assumes "byte_loc a \<or> word_loc a \<or> is_imm8 a \<or> is_imm16 a"
  shows "\<exists>v. ld_operand es mo a m = Some v"
  using assms by (cases a) (auto simp: byte_loc_def word_loc_def)

lemma location_total:
  assumes "byte_loc a \<or> word_loc a \<or> a = OP_ES"
  shows "\<exists>m'. st_operand hp es mo a v m = Some m'"
  using assms by (cases a) (auto simp: byte_loc_def word_loc_def)

lemma isa_ops_total:
  assumes a: "byte_loc a \<or> word_loc a" and b: "byte_loc b \<or> word_loc b \<or> is_imm8 b \<or> is_imm16 b"
  shows "\<exists>m'. isa_add8 hp es k a b m = Some m'" "\<exists>m'. isa_sub8 hp es k a b m = Some m'" "\<exists>m'. isa_cmp8 es a b m = Some m'"
    "\<exists>m'. isa_cmp0 es a m = Some m'" "\<exists>m'. isa_cmps es a b m = Some m'" "\<exists>m'. isa_movs hp es a b m = Some m'"
    "\<exists>m'. isa_addw hp es a b m = Some m'" "\<exists>m'. isa_subw hp es a b m = Some m'" "\<exists>m'. isa_cmpw es a b m = Some m'"
    "\<exists>m'. isa_inc hp es a m = Some m'" "\<exists>m'. isa_dec hp es a m = Some m'" "\<exists>m'. isa_incw hp es d a m = Some m'"
    "\<exists>m'. isa_logic hp es f a b m = Some m'" "\<exists>m'. isa_shift hp es mo sh a m = Some m'"
    "byte_loc b \<or> word_loc b \<Longrightarrow> \<exists>m'. isa_xch hp es mo a b m = Some m'"
proof -
  have l: "\<exists>v. ld_operand es mo a m = Some v" "\<exists>v. ld_operand es mo b m = Some v" for mo
    using operand_total[of a] operand_total[of b] a b by auto
  have t: "\<exists>m'. st_operand hp es mo a v m = Some m'" for mo v m using location_total[of a] a by auto
  obtain x y u v where [simp]: "ld_operand es MO_8 a m = Some x" "ld_operand es MO_8 b m = Some y"
    "ld_operand es MO_16 a m = Some u" "ld_operand es MO_16 b m = Some v" using l by metis
  show "\<exists>m'. isa_add8 hp es k a b m = Some m'" "\<exists>m'. isa_sub8 hp es k a b m = Some m'" "\<exists>m'. isa_cmp8 es a b m = Some m'"
    "\<exists>m'. isa_cmp0 es a m = Some m'" "\<exists>m'. isa_cmps es a b m = Some m'" "\<exists>m'. isa_movs hp es a b m = Some m'"
    "\<exists>m'. isa_addw hp es a b m = Some m'" "\<exists>m'. isa_subw hp es a b m = Some m'" "\<exists>m'. isa_cmpw es a b m = Some m'"
    "\<exists>m'. isa_inc hp es a m = Some m'" "\<exists>m'. isa_dec hp es a m = Some m'" "\<exists>m'. isa_incw hp es d a m = Some m'"
    "\<exists>m'. isa_logic hp es f a b m = Some m'"
    using t by (simp_all add: isa_add8_def isa_sub8_def isa_cmp8_def isa_cmp0_def isa_cmps_def isa_movs_def isa_addw_def isa_subw_def
        isa_cmpw_def isa_inc_def isa_dec_def isa_incw_def isa_logic_def ld2_def Option.bind_eq_Some_conv)
  obtain z where "ld_operand es mo a m = Some z" using l by metis
  then show "\<exists>m'. isa_shift hp es mo sh a m = Some m'" using t by (simp add: isa_shift_def split: prod.split)
  show "\<exists>m'. isa_xch hp es mo a b m = Some m'" if w: "byte_loc b \<or> word_loc b"
  proof -
    obtain p q m1 where "ld_operand es mo a m = Some p" "ld_operand es mo b m = Some q" "st_operand hp es mo b p m = Some m1"
      using l[of mo] location_total[of b hp es mo _ m] w by blast
    then show ?thesis using t by (simp add: isa_xch_def)
  qed
qed

lemma isa_mov_total:
  assumes "byte_loc a \<or> word_loc a \<or> a = OP_ES" "byte_loc b \<or> word_loc b \<or> is_imm8 b \<or> is_imm16 b"
  shows "\<exists>m'. isa_mov hp es mo a b m = Some m'"
  using operand_total[OF assms(2)] location_total[OF assms(1)] by (simp add: isa_mov_def Option.bind_eq_Some_conv) metis

lemma isa_insn_total:
  assumes "insn_ok i" "mnemonic i \<noteq> INSN_HALT" "mnemonic i \<noteq> INSN_STOP"
  shows "\<exists>m'. isa_insn hp es npc i m = Some m'"
proof -
  let ?a = "operand0 i" and ?b = "operand1 i"
  have r: "is_byte_reg ?a \<Longrightarrow> byte_loc ?a" "is_word_reg ?a \<Longrightarrow> word_loc ?a" by (simp_all add: byte_loc_def word_loc_def)
  note total = isa_mov_total isa_ops_total location_total
  have k: "(\<exists>m'. isa_data hp es (mnemonic i) ?a ?b m = Some m') \<or> (\<exists>m'. isa_ctrl hp es npc (mnemonic i) ?a ?b m = Some m')"
    using assms unfolding insn_ok_def
    apply (cases "mnemonic i"; simp add: isa_data_def isa_ctrl_def isa_branch_def shape_cases)
    apply ((elim conjE exE)?, (simp only: RL78Operand.case)?,
        ((rule total isa_ops_total[where b = "OP_IMM8 0"]; (auto dest: r simp: byte_loc_def; fail)) |
         (simp add: isa_branch_def split: prod.split; fail) | (cases "operand0 i"; simp; fail)))+
    done
  show ?thesis using k unfolding isa_insn_def by (auto split: option.split)
qed


section \<open>What an instruction keeps\<close>

text \<open>No instruction touches the pending exception, and every instruction keeps the invariant.\<close>

definition keeps :: "machine \<Rightarrow> machine \<Rightarrow> bool" where
  "keeps m m' \<longleftrightarrow> env_exception_index (cpu m') = env_exception_index (cpu m) \<and> (cpu_ok (cpu m) \<longrightarrow> cpu_ok (cpu m'))"

lemma keeps_refl [simp]: "keeps m m"
  by (simp add: keeps_def)

lemma keeps_trans [trans]: "keeps m m1 \<Longrightarrow> keeps m1 m' \<Longrightarrow> keeps m m'"
  by (simp add: keeps_def)

lemma exc_set_rp [simp]: "env_exception_index (rl78_set_rp c rp v) = env_exception_index c"
  by (simp add: rl78_set_rp_def Let_def set_reg_def)

lemma exc_mdu [simp]:
  "env_exception_index (mdu_mulhu c) = env_exception_index c" "env_exception_index (mdu_mulh c) = env_exception_index c"
  "env_exception_index (mdu_divhu c) = env_exception_index c" "env_exception_index (mdu_divwu c) = env_exception_index c"
  by (simp_all add: mdu_mulhu_def mdu_mulh_def mdu_divhu_def mdu_divwu_def Let_def)

lemma keeps_mdu: "keeps m (helper_rl78_mdu_cmd hp m cmd)"
proof -
  have "env_exception_index (cpu (helper_rl78_mdu_cmd hp m cmd)) = env_exception_index (cpu m)"
    by (simp add: helper_rl78_mdu_cmd.simps Let_def set_flags_def)
  then show ?thesis by (simp add: keeps_def mdu_cmd_ok)
qed

lemma keeps_write_byte: "keeps m (rl78_write_byte hp m a v)"
proof -
  have "env_exception_index (cpu (rl78_write_byte hp m a v)) = env_exception_index (cpu m)"
    using keeps_mdu[of m hp] by (simp add: rl78_write_byte.simps Let_def keeps_def stb_phys_def)
  then show ?thesis by (simp add: keeps_def write_byte_ok)
qed

lemma keeps_btclr: "keeps m (snd (helper_rl78_btclr hp m k a b e))"
proof -
  have p: "env_exception_index (cpu (snd (helper_rl78_btclr_paddr hp m p b))) = env_exception_index (cpu m)" for p
    using keeps_write_byte[of m hp] by (simp add: helper_rl78_btclr_paddr_def Let_def keeps_def)
  have "env_exception_index (cpu (snd (helper_rl78_btclr hp m k a b e))) = env_exception_index (cpu m)"
    by (simp add: helper_rl78_btclr_def Let_def p) (simp add: set_reg_def)
  then show ?thesis by (simp add: keeps_def btclr_ok)
qed

lemma keeps_regs [simp]:
  "keeps m (set_gpr8 r v m)" "keeps m (set_gpr16 w v m)" "keeps m (set_psw v m)" "keeps m (mem_st mo a v m)"
  "keeps m (set_cy b m)" "keeps m (set_z b m)" "keeps m (set_ac b m)" "keeps m (set_pc v m)" "keeps m (set_sp v m)"
  "keeps m (isa_skip b m)"
  by (auto simp: keeps_def set_psw_ok[unfolded set_psw_def] set_gpr_ok)
     (auto simp: set_gpr8_def set_gpr16_def set_psw_def set_cy_def set_z_def set_ac_def psw_upd_def set_pc_def set_sp_def
       isa_skip_def set_reg_def cpu_ok_def)

lemma keeps_flags [simp]:
  assumes "keeps m m'"
  shows "keeps m (set_cy b m')" "keeps m (set_z b m')" "keeps m (set_ac b m')" "keeps m (set_pc v m')" "keeps m (set_sp v m')"
    "keeps m (set_gpr8 r v m')" "keeps m (set_gpr16 w v m')" "keeps m (set_psw v m')" "keeps m (mem_st mo a v m')"
    "keeps m (psw_upd (\<lambda>p. p\<lparr>psw_ie := 0\<rparr>) m')"
proof -
  have "keeps m' (psw_upd (\<lambda>p. p\<lparr>psw_ie := 0\<rparr>) m')" by (simp add: keeps_def psw_upd_def cpu_ok_def psw_ok_def)
  then show "keeps m (psw_upd (\<lambda>p. p\<lparr>psw_ie := 0\<rparr>) m')" using keeps_trans[OF assms] by simp
qed (use keeps_trans[OF assms] in simp_all)

lemma keeps_st_paddr [simp]: "keeps m (st_paddr hp mo a v m)"
proof -
  have "env_exception_index (cpu (st_paddr hp mo a v m)) = env_exception_index (cpu m)"
    using keeps_mdu[of m hp v] keeps_write_byte[of m hp a v] by (simp add: st_paddr_def keeps_def set_psw_def)
  then show ?thesis by (simp add: keeps_def st_paddr_ok)
qed

lemma keeps_st_operand:
  assumes "st_operand hp es mo op v m = Some m'" "byte_loc op \<or> word_loc op \<or> op = OP_ES \<and> unat v < 256"
  shows "keeps m m'"
proof -
  have "env_exception_index (cpu m') = env_exception_index (cpu m)"
    using assms keeps_st_paddr[of m hp mo _ v] keeps_regs
    by (cases op) (auto simp: byte_loc_def word_loc_def keeps_def)
  then show ?thesis using st_operand_ok[OF _ assms] by (simp add: keeps_def)
qed

lemma with_bit_cy: "cpu_ok (cpu m) \<Longrightarrow> with_bit (psw_cy (env_psw (cpu m))) 0 (flag b) = flag b"
  using psw_flag_cases(1)[of m] by (auto simp: with_bit_def flag_def)

lemma keeps_isa_bit:
  assumes "bit_kind b = BITOP_CY \<longrightarrow> bit_bit b = 0"
  shows "keeps m (isa_bit hp es f b m)"
proof (cases "bit_kind b = BITOP_CY")
  case True
  then have "cpu_ok (cpu m) \<Longrightarrow> isa_bit hp es f b m = set_cy (f (ld_bit es b m)) m"
    using assms by (simp add: isa_bit_def st_bit_byte_def ld_bit_byte_def with_bit_cy set_cy_def psw_upd_def)
  moreover have "env_exception_index (cpu (isa_bit hp es f b m)) = env_exception_index (cpu m)"
    using True by (simp add: isa_bit_def st_bit_byte_def)
  ultimately show ?thesis by (simp add: keeps_def)
next
  case False
  then show ?thesis by (cases "bit_kind b") (simp_all add: isa_bit_def st_bit_byte_def)
qed

lemma keeps_stack [simp]: "keeps m (isa_push es v m)" "keeps m (isa_push_ret es sv npc m)" "keeps m (isa_ret es rp m)"
  by (simp_all add: isa_push_def isa_push_ret_def isa_ret_def Let_def)

lemma keeps_pop: "(\<And>v m. keeps m (put v m)) \<Longrightarrow> keeps m (isa_pop es put m)"
  unfolding isa_pop_def by (rule keeps_trans[OF keeps_regs(9)])

lemma keeps_mulu [simp]: "keeps m (isa_mulu m)"
  by (simp add: isa_mulu_def)

lemma keeps_ops:
  assumes "byte_loc a \<or> word_loc a"
  shows "isa_add8 hp es k a b m = Some m' \<Longrightarrow> keeps m m'" "isa_sub8 hp es k a b m = Some m' \<Longrightarrow> keeps m m'"
    "isa_movs hp es a b m = Some m' \<Longrightarrow> keeps m m'" "isa_addw hp es a b m = Some m' \<Longrightarrow> keeps m m'"
    "isa_subw hp es a b m = Some m' \<Longrightarrow> keeps m m'" "isa_inc hp es a m = Some m' \<Longrightarrow> keeps m m'"
    "isa_dec hp es a m = Some m' \<Longrightarrow> keeps m m'" "isa_incw hp es d a m = Some m' \<Longrightarrow> keeps m m'"
    "isa_logic hp es f a b m = Some m' \<Longrightarrow> keeps m m'" "isa_shift hp es mo sh a m = Some m' \<Longrightarrow> keeps m m'"
    "byte_loc b \<or> word_loc b \<Longrightarrow> isa_xch hp es mo a b m = Some m' \<Longrightarrow> keeps m m'"
    "st_operand hp es mo a v m = Some m' \<Longrightarrow> keeps m m'"
proof -
  have st: "st_operand hp es mo a v m = Some m1 \<Longrightarrow> keeps m m1" for mo v m m1 using keeps_st_operand assms by blast
  note k = Option.bind_eq_Some_conv sub_flags8_def sub_flags16_def
  show "isa_add8 hp es k a b m = Some m' \<Longrightarrow> keeps m m'" "isa_sub8 hp es k a b m = Some m' \<Longrightarrow> keeps m m'"
    "isa_movs hp es a b m = Some m' \<Longrightarrow> keeps m m'" "isa_addw hp es a b m = Some m' \<Longrightarrow> keeps m m'"
    "isa_subw hp es a b m = Some m' \<Longrightarrow> keeps m m'" "isa_inc hp es a m = Some m' \<Longrightarrow> keeps m m'"
    "isa_dec hp es a m = Some m' \<Longrightarrow> keeps m m'" "isa_incw hp es d a m = Some m' \<Longrightarrow> keeps m m'"
    "st_operand hp es mo a v m = Some m' \<Longrightarrow> keeps m m'"
    using st by (auto simp: isa_add8_def isa_sub8_def isa_movs_def isa_addw_def isa_subw_def isa_inc_def isa_dec_def isa_incw_def k)
  show "isa_logic hp es f a b m = Some m' \<Longrightarrow> keeps m m'" "isa_shift hp es mo sh a m = Some m' \<Longrightarrow> keeps m m'"
    by (auto simp: isa_logic_def isa_shift_def k case_prod_beta
        intro: keeps_trans[OF keeps_regs(5) st] keeps_trans[OF keeps_regs(6) st])
  show "isa_xch hp es mo a b m = Some m'  \<Longrightarrow> keeps m m'" if "byte_loc b \<or> word_loc b"
  proof -
    assume "isa_xch hp es mo a b m = Some m'"
    then obtain x y m1 where "st_operand hp es mo b x m = Some m1" "st_operand hp es mo a y m1 = Some m'"
      by (auto simp: isa_xch_def k)
    then show "keeps m m'" using keeps_st_operand[of hp es mo b x m m1] st keeps_trans that by blast
  qed
qed

lemma keeps_cmps:
  "isa_cmp8 es a b m = Some m' \<Longrightarrow> keeps m m'" "isa_cmp0 es a m = Some m' \<Longrightarrow> keeps m m'"
  "isa_cmps es a b m = Some m' \<Longrightarrow> keeps m m'" "isa_cmpw es a b m = Some m' \<Longrightarrow> keeps m m'"
  by (auto simp: isa_cmp8_def isa_cmp0_def isa_cmps_def isa_cmpw_def Option.bind_eq_Some_conv sub_flags8_def sub_flags16_def)

lemma keeps_mov:
  assumes "isa_mov hp es MO_8 a b m = Some m'" "byte_loc a \<or> a = OP_ES" "byte_loc b \<or> is_imm8 b"
  shows "keeps m m'"
proof -
  obtain v where l: "ld_operand es MO_8 b m = Some v" and st: "st_operand hp es MO_8 a v m = Some m'"
    using assms(1) by (auto simp: isa_mov_def Option.bind_eq_Some_conv)
  show ?thesis
  proof (cases "a = OP_ES")
    case True
    have "cpu_ok (cpu m) \<Longrightarrow> unat v < 256" using ld_byte_less[OF _ assms(3) l] by simp
    then show ?thesis using st True by (auto simp: keeps_def cpu_ok_def)
  next
    case False
    then show ?thesis using keeps_st_operand[OF st] assms(2) by blast
  qed
qed

lemma keeps_movw:
  assumes "isa_mov hp es MO_16 a b m = Some m'" "word_loc a"
  shows "keeps m m'"
  using assms keeps_st_operand by (auto simp: isa_mov_def Option.bind_eq_Some_conv)

lemma keeps_sel: "unat v < 4 \<Longrightarrow> keeps m (psw_upd (\<lambda>p. p\<lparr>psw_rbs := v\<rparr>) m)"
  by (simp add: keeps_def psw_upd_def cpu_ok_def psw_ok_def)

lemma keeps_isa_insn:
  assumes "insn_ok i" "isa_insn hp es npc i m = Some m'"
  shows "keeps m m'"
proof -
  let ?a = "operand0 i" and ?b = "operand1 i"
  have r: "is_byte_reg ?a \<Longrightarrow> byte_loc ?a" "is_word_reg ?a \<Longrightarrow> word_loc ?a" by (simp_all add: byte_loc_def word_loc_def)
  have d: "keeps m m1" if "isa_data hp es (mnemonic i) ?a ?b m = Some m1" for m1
    using assms(1) that unfolding insn_ok_def
    apply (cases "mnemonic i"; simp add: isa_data_def shape_cases)
    apply ((elim conjE exE)?, (simp only: RL78Operand.case option.inject)?, (hypsubst)?,
       ((erule keeps_mov keeps_ops(1-10,12)[rotated] keeps_ops(11)[rotated 2] keeps_cmps keeps_movw; (auto dest: r simp: byte_loc_def; fail)) |
        (rule keeps_isa_bit keeps_pop; simp; fail) | (simp; fail)))+
    apply ((cases "operand0 i"; auto intro: keeps_pop keeps_sel; fail)+)
    done
  have c: "keeps m m1" if "isa_ctrl hp es npc (mnemonic i) ?a ?b m = Some m1" for m1
    using assms(1) that keeps_btclr unfolding insn_ok_def
    apply (cases "mnemonic i"; simp add: isa_ctrl_def isa_branch_def shape_cases Option.bind_eq_Some_conv)
    apply ((elim conjE exE)?, (simp only: RL78Operand.case option.inject)?, (hypsubst)?, (simp; fail))+
    apply ((elim conjE exE, auto simp: isa_branch_def case_prod_beta; fail)+)
    done
  show ?thesis using assms(2) d c by (auto simp: isa_insn_def split: option.splits)
qed


lemma isa_step_keeps: "isa_step hp load m = Some m' \<Longrightarrow> keeps m m'"
proof -
  assume a: "isa_step hp load m = Some m'"
  obtain i npc es where d: "decode_insn load (env_pc (cpu m)) False = (Some i, npc, es)"
    using a by (auto simp: isa_step_def split: prod.splits option.splits)
  let ?m = "m\<lparr>cpu := (cpu m)\<lparr>env_skip_en := 0, env_skip_req := 0\<rparr>\<rparr>"
  have k: "keeps m ?m" by (simp add: keeps_def cpu_ok_def)
  show "keeps m m'"
    using a d keeps_isa_insn[OF decode_insn_wf[OF d]] keeps_trans[OF k] keeps_flags(4)[OF k]
    by (auto simp: isa_step_def Let_def split: if_splits)
qed

end
