(* ===== verification/RL78_Block.thy ===== *)
theory RL78_Block
  imports RL78_Dispatch
begin

text \<open>The generation of one translation block: \<^verbatim>\<open>decode\<close>, \<^verbatim>\<open>gen_intermediate_code\<close> with the skip of an
  instruction, the exit check, the epilogue and \<^verbatim>\<open>cpu_gen_code_inner\<close>. The generated code, run on
  the machine it was generated for, does one step of theory \<^verbatim>\<open>RL78_ISA\<close> and leaves; the block
  needs at most 256 temporaries and 211 labels of the 512 there are.\<close>

section \<open>Decoding and dispatch\<close>

lemma grows_handler: "translator_table mn = Some th \<Longrightarrow> grows L 200 (th i)"
  by (cases mn) (auto intro: grows_rules)

lemma grows_decode [grows_rules]: "grows L 200 (decode load)"
proof -
  have "grows L 200 (case translator_table mn of None \<Rightarrow> State_Monad.return False | Some th \<Rightarrow> th i)" for mn and i
    using grows_handler[of mn _ L i] grows_le[OF grows_return, of 200] by (auto split: option.split)
  then have "grows L (0 + 200) (upd_dc f \<bind> (\<lambda>_. case translator_table mn of None \<Rightarrow> State_Monad.return False | Some th \<Rightarrow> th i))" for f mn i
    by (intro grows_bind grows_temps)
  moreover have "grows L (0 + 200) (upd_dc f \<bind> (\<lambda>_. State_Monad.return False))" for f
    by (intro grows_bind grows_temps grows_le[OF grows_return]) simp
  ultimately have "grows L (0 + 200) (decode load)"
    unfolding decode_def by (intro grows_bind grows_temps) (auto split: prod.split option.split)
  then show ?thesis by simp
qed

lemma wp_decode:
  assumes "At E c \<Gamma> \<Delta> m s" "cpu_ok (cpu m)" "decode_insn load (base_pc c) (dc_use_es c) = (Some i, npc, es)"
    "isa_insn (pl_host_ptr (fst E)) es npc i m = Some m'"
  shows "wp (decode load) (\<lambda>r s'. r \<and> Ends E (c\<lparr>base_pc := npc, dc_use_es := es\<rparr>) m' s') s"
proof -
  have ok: "insn_ok i" by (rule decode_insn_wf[OF assms(3)])
  then obtain th where th: "translator_table (mnemonic i) = Some th"
    unfolding insn_ok_def by (cases "mnemonic i") auto
  have "wp (th i) (\<lambda>r s'. r \<and> Ends E (c\<lparr>base_pc := npc, dc_use_es := es\<rparr>) m' s') s1"
    if "At E (c\<lparr>base_pc := npc, dc_use_es := es\<rparr>) \<Gamma> \<Delta> m s1" for s1
    using wp_insn[OF that assms(2) ok th] assms(4) by simp
  then show ?thesis
    unfolding decode_def wp_bind
    by (intro wp_get_dc_At[OF assms(1)]) (simp add: assms(3) th, erule wp_upd_dc, simp)
qed

section \<open>One instruction\<close>

lemma Left_goto_tb:
  assumes "Left E c m s" "\<And>s'. Left E c m s' \<Longrightarrow> Q () s'"
  shows "wp (gen_goto_tb n dest) Q s"
proof (cases "use_goto_tb c dest")
  case True
  show ?thesis using assms(1) unfolding gen_goto_tb_def wp_bind gen_exit_tb_def gen_exit_tb_no_chaining_def
    by (elim Left_get_dc, simp only: True if_True wp_bind Left_ops)
       ((erule Left_emit | (simp only: wp_bind))+, rule assms(2))
next
  case False
  show ?thesis using assms(1) unfolding gen_goto_tb_def wp_bind gen_exit_tb_def gen_exit_tb_no_chaining_def
    by (elim Left_get_dc, simp only: False if_False wp_bind Left_ops)
       ((erule Left_emit | (simp only: wp_bind))+, rule assms(2))
qed

lemma wp_set_label_At:
  assumes "At E c \<Gamma> \<Delta> m s" "\<And>s'. At E c Map.empty Map.empty m s' \<Longrightarrow> Q () s'"
  shows "wp (gen_set_label l) Q s"
proof -
  have r: "rmode (rt_after E s) = Running" using assms(1) by (simp add: At_def holds_in_def)
  obtain \<Gamma>' where "At E c \<Gamma>' Map.empty m (s\<lparr>code := code s @ [Op_set_label l]\<rparr>)"
    by (rule At_bb_end[OF assms(1), of "s\<lparr>code := code s @ [Op_set_label l]\<rparr>"])
       (simp_all add: rt_after_emit exec_op_Running[OF r])
  then have "At E c Map.empty Map.empty m (s\<lparr>code := code s @ [Op_set_label l]\<rparr>)" by (rule At_weaken) simp_all
  then show ?thesis using assms(2) by (simp add: gen_set_label_def emit_def wp_update)
qed

text \<open>The code after the skip label.\<close>

definition after_label :: "nat \<Rightarrow> unit gen" where
  "after_label l = do {
     gen_set_label l;
     d \<leftarrow> get_dc;
     (if base_is_jmp d = DISAS_JUMP then do { tcg_gen_movi_i32 cpu_pc (base_pc d); gen_exit_tb_no_chaining }
      else if base_is_jmp d = DISAS_UPDATE then gen_goto_tb 0 (base_pc d)
      else State_Monad.return ()) }"

lemma after_label_At:
  assumes "wp (gen_set_label l) (\<lambda>_ s'. At E c' Map.empty Map.empty m s') s" "same_blk c c'" "base_is_jmp c' \<noteq> DISAS_JUMP"
  shows "wp (after_label l) (\<lambda>_ s'. Ends E c (set_pc (base_pc c) m) s') s"
proof -
  have b: "base_pc c' = base_pc c" using assms(2) by (simp add: same_blk_def)
  have t: "wp (if base_is_jmp c' = DISAS_JUMP then tcg_gen_movi_i32 cpu_pc (base_pc c') \<bind> (\<lambda>_. gen_exit_tb_no_chaining)
      else if base_is_jmp c' = DISAS_UPDATE then gen_goto_tb 0 (base_pc c') else State_Monad.return ())
      (\<lambda>_ s'. Ends E c (set_pc (base_pc c) m) s') s1" if A: "At E c' Map.empty Map.empty m s1" for s1
  proof (cases "base_is_jmp c' = DISAS_UPDATE")
    case True
    show ?thesis unfolding True by simp (rule wp_gen_goto_tb[OF A], use Left_Ends[OF _ assms(2)] b in simp)
  next
    case False
    then show ?thesis using assms(3) At_Ends[OF A assms(2)] by simp
  qed
  show ?thesis unfolding after_label_def wp_bind
    by (rule wp_mono[OF assms(1)], erule wp_get_dc_At, rule t)
qed

lemma after_label_Ends:
  assumes "Ends E c m s" "base_is_jmp c \<noteq> DISAS_JUMP"
  shows "wp (after_label l) (\<lambda>_ s'. Ends E c m s') s"
proof -
  obtain c' where c': "same_blk c c'" "base_is_jmp c' \<noteq> DISAS_JUMP" and
    e: "Left E c' m s \<or> (\<exists>m'. At E c' Map.empty Map.empty m' s \<and> set_pc (base_pc c) m' = m)"
    using assms by (auto simp: Ends_def same_blk_def)
  from e show ?thesis
  proof
    assume L: "Left E c' m s"
    have t: "wp (if base_is_jmp c' = DISAS_JUMP then tcg_gen_movi_i32 cpu_pc (base_pc c') \<bind> (\<lambda>_. gen_exit_tb_no_chaining)
      else if base_is_jmp c' = DISAS_UPDATE then gen_goto_tb 0 (base_pc c') else State_Monad.return ())
      (\<lambda>_ s'. Ends E c m s') s1" if L1: "Left E c' m s1" for s1
    proof -
      have k: "Left E c' m s2 \<Longrightarrow> Ends E c m s2" for s2 using Left_Ends[OF _ c'(1)] by blast
      have "wp (gen_goto_tb 0 (base_pc c')) (\<lambda>_ s'. Ends E c m s') s1" by (rule Left_goto_tb[OF L1], rule k)
      then show ?thesis using k c'(2) L1 by simp
    qed
    show ?thesis unfolding after_label_def wp_bind gen_set_label_def
      by (rule Left_emit[OF L], erule Left_get_dc, rule t)
  next
    assume "\<exists>m'. At E c' Map.empty Map.empty m' s \<and> set_pc (base_pc c) m' = m"
    then obtain m' where A: "At E c' Map.empty Map.empty m' s" and m: "set_pc (base_pc c) m' = m" by blast
    show ?thesis unfolding m[symmetric] by (rule after_label_At[OF _ c'], rule wp_set_label_At[OF A])
  qed
qed


text \<open>The code before the instruction of a block that may be skipped.\<close>

definition skip_prefix :: "nat gen" where
  "skip_prefix = do {
     required_tmp \<leftarrow> tcg_temp_new_i32;
     tcg_gen_movi_i32 cpu_skip_en 0;
     tcg_gen_mov_i32 required_tmp cpu_skip_req;
     tcg_gen_movi_i32 cpu_skip_req 0;
     l \<leftarrow> gen_new_label;
     tcg_gen_brcondi_i32 COND_NE required_tmp 0 l;
     tcg_temp_free_i32 required_tmp;
     State_Monad.return l }"

definition no_skip :: "machine \<Rightarrow> machine" where
  "no_skip m = m\<lparr>cpu := (cpu m)\<lparr>env_skip_en := 0, env_skip_req := 0\<rparr>\<rparr>"

lemma Jump_weaken: "Jump E c l T m s \<Longrightarrow> T' \<subseteq> T \<Longrightarrow> Jump E c l T' m s"
  by (auto simp: Jump_def)

lemma wp_skip_prefix:
  assumes "At E c Map.empty Map.empty m s"
  shows "wp skip_prefix (\<lambda>l s'. if env_skip_req (cpu m) = 0 then At E c Map.empty Map.empty (no_skip m) s'
     else Jump E c l {} (no_skip m) s') s"
  using assms unfolding skip_prefix_def wp_bind wp_return
  apply -
  apply ((erule wp_rules | (simp; fail))+)
  apply (erule wp_new_label)
  apply (erule wp_brcondi, (simp; fail), assumption)
  subgoal
    apply (erule Jump_free, (simp; fail))
    apply (simp add: no_skip_def)
    apply (erule Jump_weaken; simp)
    done
  subgoal for n x s1 s2 s3 s4 l s5 s6 \<Gamma>'
    apply (subgoal_tac "\<exists>y. \<Gamma>' (Temp n) = Some y")
     apply (elim exE)
     apply (erule wp_temp_free_i32, assumption)
     apply (simp add: no_skip_def)
     apply (erule At_weaken; simp)
    apply auto
    done
  done


lemma gen_intermediate_code_alt:
  "gen_intermediate_code load = do {
     d0 \<leftarrow> get_dc;
     tcg_gen_insn_start (base_pc d0);
     upd_dc (\<lambda>d. d\<lparr>dc_skip_flag := False\<rparr>);
     l \<leftarrow> (if dc_skip_flag d0 then skip_prefix else State_Monad.return 0);
     upd_dc (\<lambda>d. d\<lparr>dc_pc := base_pc d, dc_use_es := False\<rparr>);
     ok \<leftarrow> decode load;
     (if \<not> ok then tlib_abortf (Abort_decode (base_pc d0)) else State_Monad.return ());
     upd_dc (\<lambda>d. d\<lparr>tb_size := tb_size d + (base_pc d - base_pc d0)\<rparr>);
     (if dc_skip_flag d0 then after_label l else State_Monad.return ());
     State_Monad.return 0 }"
  unfolding gen_intermediate_code_def Let_def skip_prefix_def after_label_def by (rule refl)

lemma Ends_tb_size:
  assumes "Ends E c m s" "\<And>s'. Ends E (c\<lparr>tb_size := tb_size c + (base_pc c - pc0)\<rparr>) m s' \<Longrightarrow> Q () s'"
  shows "wp (upd_dc (\<lambda>d. d\<lparr>tb_size := tb_size d + (base_pc d - pc0)\<rparr>)) Q s"
proof -
  let ?f = "\<lambda>d. d\<lparr>tb_size := tb_size d + (base_pc d - pc0)\<rparr>"
  obtain c' where c': "same_blk c c'" and
    e: "Left E c' m s \<or> (\<exists>m'. At E c' Map.empty Map.empty m' s \<and> set_pc (base_pc c) m' = m)"
    using assms by (auto simp: Ends_def)
  have k: "same_blk (?f c) (?f c')" using c' by (simp add: same_blk_def)
  have "Ends E (?f c) m (s\<lparr>dc := ?f (dc s)\<rparr>)"
    using e unfolding Ends_def by (intro exI[of _ "?f c'"]) (auto simp: k Left_def At_def rt_after_def) 
  then show ?thesis using assms(2) by (simp add: upd_dc_def wp_update)
qed


text \<open>At the end of a block its size is the distance from its start to the next instruction.\<close>

definition sized :: "DisasContext \<Rightarrow> bool" where
  "sized c \<longleftrightarrow> tb_size c = base_pc c - tb_pc c"

lemma sized_upd [simp]: "sized (c\<lparr>dc_pc := x, dc_use_es := e\<rparr>) = sized c" "sized (c\<lparr>base_is_jmp := j\<rparr>) = sized c"
  "sized (c\<lparr>base_exit_check := k\<rparr>) = sized c" "sized (c\<lparr>dc_skip_flag := k\<rparr>) = sized c"
  by (simp_all add: sized_def)

lemma same_blk_sized: "same_blk c c' \<Longrightarrow> sized c' = sized c"
  by (simp add: same_blk_def sized_def)

definition Done :: "run_env \<Rightarrow> u32 \<Rightarrow> u32 \<Rightarrow> machine \<Rightarrow> gen_state \<Rightarrow> bool" where
  "Done E pc npc m s \<longleftrightarrow> (\<exists>c. base_pc c = npc \<and> tb_pc c = pc \<and> sized c \<and> base_is_jmp c \<noteq> DISAS_JUMP \<and> Ends E c m s)"

lemma DoneI: "Ends E c m s \<Longrightarrow> base_pc c = npc \<Longrightarrow> tb_pc c = pc \<Longrightarrow> sized c \<Longrightarrow> base_is_jmp c \<noteq> DISAS_JUMP \<Longrightarrow> Done E pc npc m s"
  unfolding Done_def by blast

text \<open>From the translated instruction to the end of \<^verbatim>\<open>gen_intermediate_code\<close>.\<close>

definition insn_tail :: "(u32 \<Rightarrow> u8) \<Rightarrow> u32 \<Rightarrow> unit gen \<Rightarrow> int gen" where
  "insn_tail load pc0 g = do {
     upd_dc (\<lambda>d. d\<lparr>dc_pc := base_pc d, dc_use_es := False\<rparr>);
     ok \<leftarrow> decode load;
     (if \<not> ok then tlib_abortf (Abort_decode pc0) else State_Monad.return ());
     upd_dc (\<lambda>d. d\<lparr>tb_size := tb_size d + (base_pc d - pc0)\<rparr>);
     g;
     State_Monad.return 0 }"

lemma wp_insn_tail:
  assumes "At E c Map.empty Map.empty m s" "cpu_ok (cpu m)" "decode_insn load (base_pc c) False = (Some i, npc, es)"
    "isa_insn (pl_host_ptr (fst E)) es npc i m = Some m'" "base_is_jmp c \<noteq> DISAS_JUMP"
    "sized c" "pc0 = base_pc c"
    "\<And>c' s'. Ends E c' m' s' \<Longrightarrow> base_is_jmp c' \<noteq> DISAS_JUMP \<Longrightarrow> wp g (\<lambda>_ s'. Ends E c' m' s') s'"
  shows "wp (insn_tail load pc0 g) (\<lambda>r s'. r = 0 \<and> Done E (tb_pc c) npc m' s') s"
  unfolding insn_tail_def wp_bind
proof (rule wp_upd_dc[OF assms(1)])
  let ?c = "c\<lparr>dc_pc := base_pc c, dc_use_es := False\<rparr>" let ?c' = "?c\<lparr>base_pc := npc, dc_use_es := es\<rparr>"
  let ?d = "?c'\<lparr>tb_size := tb_size ?c' + (base_pc ?c' - pc0)\<rparr>"
  have t: "wp (upd_dc (\<lambda>d. d\<lparr>tb_size := tb_size d + (base_pc d - pc0)\<rparr>))
      (\<lambda>_. wp g (\<lambda>_. wp (State_Monad.return 0) (\<lambda>r s'. r = (0::int) \<and> Done E (tb_pc c) npc m' s'))) s2"
    if e: "Ends E ?c' m' s2" for s2
  proof (rule Ends_tb_size[OF e])
    fix s3 assume "Ends E ?d m' s3"
    then have "wp g (\<lambda>_ s'. Ends E ?d m' s') s3" using assms(5,8) by simp
    then show "wp g (\<lambda>_. wp (State_Monad.return 0) (\<lambda>r s'. r = (0::int) \<and> Done E (tb_pc c) npc m' s')) s3"
      by (rule wp_mono) (use assms(5,6,7) in \<open>auto intro!: DoneI simp: sized_def\<close>)
  qed
  fix s1 assume "At E ?c Map.empty Map.empty m s1"
  from wp_decode[OF this assms(2) _ assms(4)] assms(3)
  have "wp (decode load) (\<lambda>r s'. r \<and> Ends E ?c' m' s') s1" by simp
  then show "wp (decode load) (\<lambda>ok. wp (if \<not> ok then tlib_abortf (Abort_decode pc0) else State_Monad.return ())
     (\<lambda>_. wp (upd_dc (\<lambda>d. d\<lparr>tb_size := tb_size d + (base_pc d - pc0)\<rparr>))
      (\<lambda>_. wp g (\<lambda>_. wp (State_Monad.return 0) (\<lambda>r s'. r = (0::int) \<and> Done E (tb_pc c) npc m' s'))))) s1"
    by (rule wp_mono) (use t in simp)
qed

lemma wp_insn_tail_skipped:
  assumes "Jump E c l {} m s" "At E' c Map.empty Map.empty m s" "cpu_ok (cpu m)" 
    "decode_insn load (base_pc c) False = (Some i, npc, es)"
    "isa_insn (pl_host_ptr (fst E')) es npc i m = Some m'" "base_is_jmp c \<noteq> DISAS_JUMP"
    "sized c" "pc0 = base_pc c"
  shows "wp (insn_tail load pc0 (after_label l)) (\<lambda>r s'. r = 0 \<and> Done E (tb_pc c) npc (set_pc npc m) s') s"
  unfolding insn_tail_def wp_bind
proof -
  let ?c = "c\<lparr>dc_pc := base_pc c, dc_use_es := False\<rparr>" let ?c' = "?c\<lparr>base_pc := npc, dc_use_es := es\<rparr>"
  let ?f = "\<lambda>d. d\<lparr>tb_size := tb_size d + (base_pc d - pc0)\<rparr>"
  let ?Q = "\<lambda>r s'. r = (0::int) \<and> Done E (tb_pc c) npc (set_pc npc m) s'"
  have t: "wp (upd_dc ?f) (\<lambda>_. wp (after_label l) (\<lambda>_. wp (State_Monad.return 0) ?Q)) s2"
    if e: "Ends E' ?c' m' s2" and r: "rt_after E s2 = rt_after E s1" "l < nb_labels s2" and J: "Jump E ?c l {} m s1" for s1 s2
  proof -
    obtain d where d: "same_blk ?c' d" "dc s2 = d" "gen_abort s2 = None" "temps_wf s2"
      using e by (auto simp: Ends_def Left_def At_def)
    have "Jump E d l {} m s2" using J d r by (simp add: Jump_def)
    then show ?thesis
    proof (rule Jump_upd_dc)
      fix s3 assume J3: "Jump E (?f d) l {} m s3"
      have b: "base_pc d = npc" "base_is_jmp d \<noteq> DISAS_JUMP" using d(1) assms(6) by (auto simp: same_blk_def)
      have "wp (after_label l) (\<lambda>_ s'. Ends E (?f d) (set_pc (base_pc (?f d)) m) s') s3"
        by (rule after_label_At[where c' = "?f d"], rule Jump_label[OF J3]) (use b in simp_all)
      then show "wp (after_label l) (\<lambda>_. wp (State_Monad.return 0) ?Q) s3"
        by (rule wp_mono) (use b d(1) assms(7,8) in \<open>auto intro!: DoneI simp: sized_def same_blk_def\<close>)
    qed
  qed
  have u: "wp (upd_dc (\<lambda>d. d\<lparr>dc_pc := base_pc d, dc_use_es := False\<rparr>)) (\<lambda>_ s1. Jump E ?c l {} m s1 \<and> At E' ?c Map.empty Map.empty m s1) s"
    by (rule wp_conj[OF Jump_upd_dc[OF assms(1)] wp_upd_dc[OF assms(2)]])
  show "wp (upd_dc (\<lambda>d. d\<lparr>dc_pc := base_pc d, dc_use_es := False\<rparr>)) (\<lambda>_. wp (decode load)
     (\<lambda>ok. wp (if \<not> ok then tlib_abortf (Abort_decode pc0) else State_Monad.return ())
     (\<lambda>_. wp (upd_dc ?f) (\<lambda>_. wp (after_label l) (\<lambda>_. wp (State_Monad.return 0) ?Q))))) s"
  proof (rule wp_mono[OF u], elim conjE)
    fix s1 assume J: "Jump E ?c l {} m s1" and A: "At E' ?c Map.empty Map.empty m s1"
    from wp_decode[OF A assms(3) _ assms(5)] assms(4)
    have "wp (decode load) (\<lambda>r s'. r \<and> Ends E' ?c' m' s') s1" by simp
    from wp_conj[OF this Jump_grows[OF J grows_decode]]
    show "wp (decode load) (\<lambda>ok. wp (if \<not> ok then tlib_abortf (Abort_decode pc0) else State_Monad.return ())
       (\<lambda>_. wp (upd_dc ?f) (\<lambda>_. wp (after_label l) (\<lambda>_. wp (State_Monad.return 0) ?Q)))) s1"
      by (rule wp_mono) (use t J in auto)
  qed
qed


lemma gen_intermediate_code_tail:
  "gen_intermediate_code load = do {
     d0 \<leftarrow> get_dc;
     tcg_gen_insn_start (base_pc d0);
     upd_dc (\<lambda>d. d\<lparr>dc_skip_flag := False\<rparr>);
     (if dc_skip_flag d0 then do { l \<leftarrow> skip_prefix; insn_tail load (base_pc d0) (after_label l) }
      else insn_tail load (base_pc d0) (State_Monad.return ())) }"
  unfolding gen_intermediate_code_alt insn_tail_def
  apply (intro arg_cong[where f = "State_Monad.bind get_dc"] ext)
  subgoal for d0 by (cases "dc_skip_flag d0") simp_all
  done

lemma wp_gen_intermediate_code:
  assumes "At E c Map.empty Map.empty m s" "At E' c Map.empty Map.empty (m\<lparr>cpu := (cpu m)\<lparr>env_skip_req := 0\<rparr>\<rparr>) s"
    "fst E' = fst E" "cpu_ok (cpu m)" "base_is_jmp c \<noteq> DISAS_JUMP" "dc_skip_flag c \<longleftrightarrow> env_skip_en (cpu m) \<noteq> 0"
    "base_pc c = env_pc (cpu m)" "decode_insn load (env_pc (cpu m)) False = (Some i, npc, es)"
    "mnemonic i \<noteq> INSN_HALT" "mnemonic i \<noteq> INSN_STOP" "isa_step (pl_host_ptr (fst E)) load m = Some m'"
    "sized c"
  shows "wp (gen_intermediate_code load) (\<lambda>r s'. r = 0 \<and> Done E (tb_pc c) npc m' s') s"
proof -
  let ?c = "c\<lparr>dc_skip_flag := False\<rparr>" and ?m = "no_skip m" and ?hp = "pl_host_ptr (fst E)"
  have d: "decode_insn load (base_pc ?c) False = (Some i, npc, es)" and z: "sized ?c" "tb_pc ?c = tb_pc c" using assms(7,8,12) by simp_all
  have ok: "cpu_ok (cpu ?m)" using assms(4) by (simp add: no_skip_def cpu_ok_def)
  obtain mi where mi: "isa_insn ?hp es npc i ?m = Some mi"
    using isa_insn_total[OF decode_insn_wf[OF d] assms(9,10)] by blast
  have u: "wp (tcg_gen_insn_start pc \<bind> (\<lambda>_. upd_dc (\<lambda>d. d\<lparr>dc_skip_flag := False\<rparr>))) (\<lambda>_ s1. At X ?c Map.empty Map.empty x s1) s"
    if "At X c Map.empty Map.empty x s" for X x pc
    unfolding wp_bind by (rule wp_insn_start[OF that], erule wp_upd_dc)
  define tl where "tl = (if dc_skip_flag c then skip_prefix \<bind> (\<lambda>l. insn_tail load (base_pc c) (after_label l))
     else insn_tail load (base_pc c) (State_Monad.return ()))"
  have tl: "wp tl (\<lambda>r s'. r = 0 \<and> Done E (tb_pc c) npc m' s') s1"
    if A: "At E ?c Map.empty Map.empty m s1" and A': "At E' ?c Map.empty Map.empty (m\<lparr>cpu := (cpu m)\<lparr>env_skip_req := 0\<rparr>\<rparr>) s1" for s1
  proof (cases "dc_skip_flag c")
    case False
    then have "isa_insn ?hp es npc i m = Some m'" using assms(6,8,11) by (simp add: isa_step_def)
    from wp_insn_tail[OF A assms(4) d this _ z(1)] assms(5) show ?thesis by (simp add: tl_def False)
  next
    case skip: True
    note step = skip[unfolded assms(6)] assms(8,11)
    have p: "wp skip_prefix (\<lambda>l s'. (if env_skip_req (cpu m) = 0 then At E ?c Map.empty Map.empty ?m s' else Jump E ?c l {} ?m s')
       \<and> At E' ?c Map.empty Map.empty ?m s') s1"
      using wp_conj[OF wp_skip_prefix[OF A] wp_skip_prefix[OF A']] by (simp add: no_skip_def)
    have "wp (insn_tail load (base_pc c) (after_label l)) (\<lambda>r s'. r = 0 \<and> Done E (tb_pc c) npc m' s') s2"
      if B: "if env_skip_req (cpu m) = 0 then At E ?c Map.empty Map.empty ?m s2 else Jump E ?c l {} ?m s2"
        "At E' ?c Map.empty Map.empty ?m s2" for l s2
    proof (cases "env_skip_req (cpu m) = 0")
      case True
      then have "isa_insn ?hp es npc i ?m = Some m'" using step by (simp add: isa_step_def no_skip_def)
      from wp_insn_tail[OF _ ok d this _ z(1), of s2] True B(1) assms(5) after_label_Ends show ?thesis by simp
    next
      case False
      then have m': "m' = set_pc npc ?m" using step by (simp add: isa_step_def no_skip_def)
      from wp_insn_tail_skipped[OF _ B(2) ok d _ _ z(1), of E l] False B(1) mi assms(3,5) show ?thesis by (simp add: m')
    qed
    then show ?thesis unfolding tl_def using skip by (simp, intro wp_mono[OF p]) simp
  qed
  have "wp (tcg_gen_insn_start (base_pc c) \<bind> (\<lambda>_. upd_dc (\<lambda>d. d\<lparr>dc_skip_flag := False\<rparr>) \<bind> (\<lambda>_. tl))) (\<lambda>r s'. r = 0 \<and> Done E (tb_pc c) npc m' s') s"
    using wp_mono[OF wp_conj[OF u[OF assms(1)] u[OF assms(2)]], of "\<lambda>_. wp tl (\<lambda>r s'. r = 0 \<and> Done E (tb_pc c) npc m' s')"] tl
    unfolding wp_bind by blast
  then show ?thesis unfolding gen_intermediate_code_tail wp_bind tl_def
    by (intro wp_get_dc_At[OF assms(1)])
qed


section \<open>One block\<close>

lemma DoneE:
  assumes "Done E pc npc m s"
  obtains c where "Left E c m s" "base_pc c = npc" "base_is_jmp c \<noteq> DISAS_JUMP" "tb_pc c = pc" "sized c"
  | c m' where "At E c Map.empty Map.empty m' s" "m = set_pc npc m'" "base_pc c = npc" "base_is_jmp c \<noteq> DISAS_JUMP" "tb_pc c = pc" "sized c"
proof -
  obtain c c' where c: "same_blk c c'" "base_pc c = npc" "tb_pc c = pc" "sized c" "base_is_jmp c \<noteq> DISAS_JUMP"
    "Left E c' m s \<or> (\<exists>m'. At E c' Map.empty Map.empty m' s \<and> set_pc (base_pc c) m' = m)"
    using assms unfolding Done_def Ends_def by blast
  then have "base_pc c' = npc" "base_is_jmp c' \<noteq> DISAS_JUMP" "tb_pc c' = pc" "sized c'"
    using same_blk_sized[OF c(1)] by (simp_all add: same_blk_def)
  then show thesis using c(2,6) that(1)[of c'] that(2)[of c'] by auto
qed

lemma Done_Left: "Left E c m s \<Longrightarrow> base_pc c = npc \<Longrightarrow> tb_pc c = pc \<Longrightarrow> sized c \<Longrightarrow> base_is_jmp c \<noteq> DISAS_JUMP \<Longrightarrow> Done E pc npc m s"
  using Left_Ends[of E c m s c m] by (auto intro: DoneI)

lemma Done_At: "At E c Map.empty Map.empty m s \<Longrightarrow> base_pc c = npc \<Longrightarrow> tb_pc c = pc \<Longrightarrow> sized c \<Longrightarrow> base_is_jmp c \<noteq> DISAS_JUMP \<Longrightarrow> Done E pc npc (set_pc npc m) s"
  using At_Ends[of E c Map.empty Map.empty m s c] by (auto intro: DoneI)

definition exit_check :: "DisasContext \<Rightarrow> unit gen" where
  "exit_check d = (if base_exit_check d then do {
      upd_dc (\<lambda>c. c\<lparr>base_exit_check := False\<rparr>);
      tcg_gen_helperN HELPER_try_exit_cpu_loop None [] }
    else State_Monad.return ())"

lemma wp_exit_check:
  assumes "Done E pc npc m s" "sint (env_exception_index (cpu m)) < 0"
  shows "wp (exit_check d) (\<lambda>_ s'. Done E pc npc m s') s"
  using assms(1)
proof (cases rule: DoneE)
  case (1 c)
  show ?thesis unfolding exit_check_def wp_bind
    by (simp add: assms(1) del: wp_bind, intro impI, unfold wp_bind, rule Left_upd_dc[OF 1(1)], erule Left_helper)
       (use 1 in \<open>auto intro: Done_Left\<close>)
next
  case (2 c m')
  then have x: "sint (env_exception_index (cpu m')) < 0" using assms(2) by (simp add: set_pc_def)
  show ?thesis unfolding exit_check_def wp_bind
    by (simp add: assms(1) del: wp_bind, intro impI, unfold wp_bind, rule wp_upd_dc[OF 2(1)], erule wp_try_exit[OF _ x])
       (use 2 in \<open>auto intro: Done_At\<close>)
qed

lemma wp_sync_pc:
  assumes "At E c \<Gamma> \<Delta> m s" "\<And>s'. At E c \<Gamma> \<Delta> (set_pc (base_pc c) m) s' \<Longrightarrow> Q () s'"
  shows "wp gen_sync_pc Q s"
  using assms(1) unfolding gen_sync_pc_def wp_bind
  by (elim wp_get_dc_At wp_movi_i32) (simp_all add: assms(2) set_pc_def)

lemma wp_epilogue:
  assumes "Done E pc npc m s"
  shows "wp gen_intermediate_code_epilogue (\<lambda>_ s'. \<exists>c. Left E c m s' \<and> base_pc c = npc \<and> tb_pc c = pc \<and> sized c) s"
  using assms
proof (cases rule: DoneE)
  case (1 c)
  have "wp (gen_goto_tb 0 (base_pc c)) (\<lambda>_ s'. \<exists>c. Left E c m s' \<and> base_pc c = npc \<and> tb_pc c = pc \<and> sized c) s" by (rule Left_goto_tb[OF 1(1)]) (use 1 in auto)
  moreover have "wp gen_sync_pc (\<lambda>_. wp gen_exit_tb_no_chaining (\<lambda>_ s'. \<exists>c. Left E c m s' \<and> base_pc c = npc \<and> tb_pc c = pc \<and> sized c)) s"
    unfolding gen_sync_pc_def gen_exit_tb_no_chaining_def wp_bind
    by (rule Left_get_dc[OF 1(1)], unfold Left_ops, erule Left_emit, erule Left_emit) (use 1 in auto)
  ultimately show ?thesis unfolding gen_intermediate_code_epilogue_def wp_bind
    by (intro Left_get_dc[OF 1(1)]) (use 1(3) in \<open>cases "base_is_jmp c"; simp\<close>)
next
  case (2 c m')
  have "wp (gen_goto_tb 0 (base_pc c)) (\<lambda>_ s'. \<exists>c. Left E c m s' \<and> base_pc c = npc \<and> tb_pc c = pc \<and> sized c) s"
    by (rule wp_gen_goto_tb[OF 2(1)]) (use 2 in auto)
  moreover have "wp gen_sync_pc (\<lambda>_. wp gen_exit_tb_no_chaining (\<lambda>_ s'. \<exists>c. Left E c m s' \<and> base_pc c = npc \<and> tb_pc c = pc \<and> sized c)) s"
    by (rule wp_sync_pc[OF 2(1)], erule wp_exit_no_chaining) (use 2 in auto)
  ultimately show ?thesis unfolding gen_intermediate_code_epilogue_def wp_bind
    by (intro wp_get_dc_At[OF 2(1)]) (use 2(4) in \<open>cases "base_is_jmp c"; simp\<close>)
qed


section \<open>The translation block loop ends after one instruction\<close>

lemma wp_True_ext: "wp g (\<lambda>a. wp (h a) (\<lambda>_ _. True)) = wp g (\<lambda>_ _. True)"
  by (simp add: wp_def fun_eq_iff split: prod.split)

lemma wp_True: "wp g (\<lambda>_ _. True) = (\<lambda>_. True)"
  by (simp add: wp_def fun_eq_iff split: prod.split)

lemma gen_intermediate_code_zero: "wp (gen_intermediate_code load) (\<lambda>r _. r = 0) s"
  unfolding gen_intermediate_code_alt wp_bind wp_return_ext by (simp add: wp_True_ext wp_True)

lemma bind_zero: "gen_intermediate_code load \<bind> f = gen_intermediate_code load \<bind> (\<lambda>_. f 0)"
proof (rule state.expand, rule ext)
  fix s
  have "fst (run_state (gen_intermediate_code load) s) = 0"
    using gen_intermediate_code_zero[of load s] by (simp add: wp_def split: prod.splits)
  then show "run_state (gen_intermediate_code load \<bind> f) s = run_state (gen_intermediate_code load \<bind> (\<lambda>_. f 0)) s"
    by (cases "run_state (gen_intermediate_code load) s") (simp add: State_Monad.bind_def)
qed

lemma ops_used_bind: "ops_used \<bind> (\<lambda>_. g) = g"
  by (rule state.expand) (simp add: fun_eq_iff ops_used_def State_Monad.bind_def)

lemma gen_code_loop_once:
  "gen_code_loop load bps sync mx n = do {
     d \<leftarrow> get_dc;
     stop \<leftarrow> (if bps = [] then State_Monad.return False
              else case process_breakpoints bps (base_pc d) of
                  None \<Rightarrow> State_Monad.return False
                | Some bp \<Rightarrow> do { r \<leftarrow> gen_breakpoint; State_Monad.return (r \<noteq> 0) });
     if stop then State_Monad.return n
     else do {
       (if sync then gen_sync_pc else State_Monad.return ());
       gen_intermediate_code load;
       d' \<leftarrow> get_dc;
       exit_check d';
       State_Monad.return (n + 1) } }"
  unfolding exit_check_def
  by (subst gen_code_loop.simps, subst bind_zero) (simp add: ops_used_bind cong del: if_weak_cong)

section \<open>From the start of a block\<close>

lemma no_breakpoint: "pc \<notin> set bps \<Longrightarrow> process_breakpoints bps pc = None"
  by (auto simp: process_breakpoints_def find_None_iff)

lemma at_breakpoint: "pc \<in> set bps \<Longrightarrow> process_breakpoints bps pc = Some pc"
  unfolding process_breakpoints_def by (induction bps) auto

definition block_start :: "tcg_target \<Rightarrow> machine \<Rightarrow> gen_state" where
  "block_start h m = (case cpu_get_tb_cpu_state (cpu m) of (pc, cs_base, flags) \<Rightarrow> tcg_func_start h pc flags)"

lemma At_start:
  assumes "rmode S = Running" "mach S = m" "c = dc (tcg_func_start h pc flags)"
  shows "At (P, S) c Map.empty Map.empty m (tcg_func_start h pc flags)"
  using assms by (simp add: At_def holds_in_def rt_after_def tcg_func_start_def temps_wf_def)

text \<open>The generator state right before the instruction: the context is set up and, where asked
  for, the program counter is synchronised.\<close>

definition block_ctx :: "machine \<Rightarrow> DisasContext" where
  "block_ctx m = \<lparr>base_pc = env_pc (cpu m), base_is_jmp = DISAS_NEXT, base_exit_check = False, tb_pc = env_pc (cpu m),
     tb_flags_field = (if env_skip_en (cpu m) \<noteq> 0 then TB_FLAG_SKIP else 0), tb_size = 0, dc_pc = 0,
     dc_tb_flags = (if env_skip_en (cpu m) \<noteq> 0 then TB_FLAG_SKIP else 0), dc_skip_flag = (env_skip_en (cpu m) \<noteq> 0), dc_use_es = False\<rparr>"

definition block_ready :: "tcg_target \<Rightarrow> bool \<Rightarrow> machine \<Rightarrow> gen_state" where
  "block_ready h sync m = (block_start h m)\<lparr>dc := block_ctx m, code := (if sync then [Op_movi_i32 cpu_pc (env_pc (cpu m))] else [])\<rparr>"

lemma setup_block_start:
  "wp setup_disas_context Q (block_start h m) = Q () (block_ready h False m)"
  by (simp add: setup_disas_context_def upd_dc_def wp_update block_ready_def block_start_def block_ctx_def tcg_func_start_def
      cpu_get_tb_cpu_state_def TB_FLAG_SKIP_def)

lemma sync_block_ready:
  "wp (if sync then gen_sync_pc else State_Monad.return ()) Q (block_ready h False m) = Q () (block_ready h sync m)"
  by (simp add: gen_sync_pc_def wp_get_dc tcg_gen_movi_i32_def emit_def wp_update block_ready_def block_start_def block_ctx_def
      tcg_func_start_def cpu_get_tb_cpu_state_def)

lemma dc_block_ready [simp]: "dc (block_ready h sync m) = block_ctx m"
  by (simp add: block_ready_def)

lemma wp_inner_start:
  assumes "env_pc (cpu m) \<notin> set bps"
  shows "wp (cpu_gen_code_inner load bps sync mx) Q (block_start h m) =
    wp (gen_intermediate_code load) (\<lambda>_. wp get_dc (\<lambda>d'. wp (exit_check d') (\<lambda>_.
      wp gen_intermediate_code_epilogue (\<lambda>_. Q 1)))) (block_ready h sync m)"
proof -
  have b: "(if bps = [] then State_Monad.return False else case process_breakpoints bps (env_pc (cpu m)) of
      None \<Rightarrow> State_Monad.return False | Some bp \<Rightarrow> gen_breakpoint \<bind> (\<lambda>r. State_Monad.return (r \<noteq> 0))) = State_Monad.return False"
    using no_breakpoint[OF assms] by simp
  show ?thesis
    unfolding cpu_gen_code_inner_def wp_bind setup_block_start
    apply (subst gen_code_loop_once)
    apply (unfold wp_bind)
    apply (subst wp_get_dc)
    apply (simp only: dc_block_ready block_ctx_def DisasContext.simps b)
    apply (simp only: wp_return wp_return_ext if_False wp_bind if_cancel)
    apply (unfold wp_bind sync_block_ready wp_return_ext add_0)
    apply (rule refl)
    done
qed

lemma At_ready:
  assumes "rmode S = Running" "mach S = m" "env_pc (cpu m) = env_pc (cpu m0)"
  shows "At (P, S) (block_ctx m0) Map.empty Map.empty m (block_ready h sync m0)"
  using assms by (auto simp: At_def holds_in_def rt_after_def block_ready_def block_start_def cpu_get_tb_cpu_state_def
      tcg_func_start_def temps_wf_def exec_op_def)

lemma wp_block:
  assumes "rmode S = Running" "mach S = m" "cpu_ok (cpu m)" "sint (env_exception_index (cpu m)) < 0" "env_pc (cpu m) \<notin> set bps"
    "decode_insn load (env_pc (cpu m)) False = (Some i, npc, es)" "mnemonic i \<noteq> INSN_HALT" "mnemonic i \<noteq> INSN_STOP"
    "isa_step (pl_host_ptr P) load m = Some m'"
  shows "wp (cpu_gen_code_inner load bps sync mx) (\<lambda>n s'. n = 1 \<and> (\<exists>c. Left (P, S) c m' s' \<and> tb_size c = npc - env_pc (cpu m))) (block_start h m)"
proof -
  let ?m = "m\<lparr>cpu := (cpu m)\<lparr>env_skip_req := 0\<rparr>\<rparr>"
  have A: "At (P, S) (block_ctx m) Map.empty Map.empty m (block_ready h sync m)" by (rule At_ready) (use assms(1,2) in auto)
  have A': "At (P, S\<lparr>mach := ?m\<rparr>) (block_ctx m) Map.empty Map.empty ?m (block_ready h sync m)" by (rule At_ready) (use assms(1,2) in auto)
  have g: "wp (gen_intermediate_code load) (\<lambda>r s'. r = 0 \<and> Done (P, S) (env_pc (cpu m)) npc m' s') (block_ready h sync m)"
    using wp_gen_intermediate_code[OF A A' _ assms(3) _ _ _ assms(6-8)] by (simp add: block_ctx_def assms(9) sized_def)
  have x: "sint (env_exception_index (cpu m')) < 0" using isa_step_keeps[OF assms(9)] assms(4) by (simp add: keeps_def)
  have e: "wp (exit_check d') (\<lambda>_. wp gen_intermediate_code_epilogue (\<lambda>_ s'. \<exists>c. Left (P, S) c m' s' \<and> tb_size c = npc - env_pc (cpu m))) s1"
    if "Done (P, S) (env_pc (cpu m)) npc m' s1" for d' s1
    by (rule wp_mono[OF wp_exit_check[OF that x]], rule wp_mono[OF wp_epilogue]) (auto simp: sized_def)
  show ?thesis unfolding wp_inner_start[OF assms(5)]
    by (rule wp_mono[OF g]) (use e in \<open>simp add: wp_get_dc wp_return_ext\<close>)
qed

section \<open>Bounds of the TCG tables\<close>

lemma skip_prefix_bind:
  "skip_prefix \<bind> f = do {
     t \<leftarrow> tcg_temp_new_i32;
     tcg_gen_movi_i32 cpu_skip_en 0;
     tcg_gen_mov_i32 t cpu_skip_req;
     tcg_gen_movi_i32 cpu_skip_req 0;
     l \<leftarrow> gen_new_label;
     tcg_gen_brcondi_i32 COND_NE t 0 l;
     tcg_temp_free_i32 t;
     f l }"
  by (simp add: skip_prefix_def)

lemma grows_after_label: "grows (insert l L) 0 (after_label l)"
  unfolding after_label_def by (rule grows_le, (rule grows_rules | (simp; fail))+)

lemma grows_insn_tail: "grows L k g \<Longrightarrow> grows L (200 + k) (insn_tail load pc0 g)"
  unfolding insn_tail_def by (rule grows_le, (rule grows_rules | assumption | (simp; fail))+)

lemma grows_gen_intermediate_code [grows_rules]: "grows L 210 (gen_intermediate_code load)"
proof -
  have s: "grows L 210 (skip_prefix \<bind> (\<lambda>l. insn_tail load pc0 (after_label l)))" for pc0
    unfolding skip_prefix_bind
    by (rule grows_le, rule grows_bind, rule grows_rules, rule grows_bind, rule grows_rules, rule grows_bind, rule grows_rules,
        rule grows_bind, rule grows_rules, rule grows_new_label, rule grows_bind, rule grows_rules, rule grows_bind, rule grows_rules,
        rule grows_insn_tail, rule grows_after_label) simp
  have t: "grows L 210 (insn_tail load pc0 (State_Monad.return ()))" for pc0
    by (rule grows_le, rule grows_insn_tail, rule grows_return) simp
  show ?thesis unfolding gen_intermediate_code_tail
    by (rule grows_le, (rule s t grows_rules | (simp; fail))+)
qed

lemma grows_exit_check [grows_rules]: "grows L 1 (exit_check d)"
  unfolding exit_check_def by (rule grows_le, (rule grows_rules | (simp; fail))+)

lemma grows_epilogue [grows_rules]: "grows L 0 gen_intermediate_code_epilogue"
proof -
  have "grows L 0 (case j of DISAS_NEXT \<Rightarrow> gen_goto_tb 0 pc | DISAS_UPDATE \<Rightarrow> gen_sync_pc \<bind> (\<lambda>_. gen_exit_tb_no_chaining)
      | DISAS_TB_JUMP \<Rightarrow> gen_goto_tb 0 pc | DISAS_JUMP \<Rightarrow> State_Monad.return ())" for j pc
    by (cases j; simp only: disas_jmp.case; rule grows_le, (rule grows_rules | (simp; fail))+)
  then show ?thesis unfolding gen_intermediate_code_epilogue_def by (rule grows_le[OF grows_bind[OF grows_temps(6)]]) simp
qed

lemma grows_inner: "grows L 211 (cpu_gen_code_inner load bps sync mx)"
proof -
  have b: "grows L 0 (if bps = [] then State_Monad.return False else case process_breakpoints bps pc of
      None \<Rightarrow> State_Monad.return False | Some bp \<Rightarrow> gen_breakpoint \<bind> (\<lambda>r. State_Monad.return (r \<noteq> 0)))" for pc
    unfolding gen_breakpoint_def
    by (simp split: option.split, intro conjI impI allI; rule grows_le, (rule grows_rules | (simp; fail))+)
  show ?thesis unfolding cpu_gen_code_inner_def gen_code_loop_once setup_disas_context_def
    by (rule grows_le, (rule b grows_rules | (simp; fail))+)
qed

end
