(* ===== verification/RL78_Run.thy ===== *)
theory RL78_Run
  imports RL78_Block
begin

text \<open>Running block after block: breakpoints and instructions the translator refuses stop the run,
  every other block does one step of the instruction set. The locale \<^verbatim>\<open>step_refinement\<close> lifts this
  to runs of any length.\<close>

section \<open>Tables\<close>

lemma inner_tables:
  assumes "run_state (cpu_gen_code_inner load bps sync mx) (block_start h m) = (n, s)"
  shows "\<not> tcg_overrun s \<and> nb_temps s \<le> 256 \<and> nb_labels s \<le> 211"
proof -
  have "ext_state {} 211 (block_start h m) s"
    using grows_inner[of "{}" load bps sync mx] assms unfolding grows_def by (metis snd_conv)
  moreover have "nb_temps (block_start h m) = 45" "nb_labels (block_start h m) = 0" "\<not> tcg_overrun (block_start h m)"
    by (simp_all add: block_start_def tcg_func_start_def nb_globals_def cpu_get_tb_cpu_state_def)
  ultimately show ?thesis by (auto simp: ext_state_def TCG_MAX_TEMPS_def TCG_MAX_LABELS_def)
qed

section \<open>Breakpoints\<close>

lemma wp_breakpoint:
  assumes "rmode S = Running" "mach S = m" "env_pc (cpu m) \<in> set bps"
  shows "wp (cpu_gen_code_inner load bps sync mx) (\<lambda>n s'. n = 0 \<and> (\<exists>c. Left (P, S) c m s' \<and> tb_size c = 0)) (block_start h m)"
proof -
  have A: "At (P, S) (block_ctx m) Map.empty Map.empty m (block_ready h False m)" by (rule At_ready) (use assms(1,2) in auto)
  have g: "wp gen_breakpoint (\<lambda>r s'. r = 1 \<and> Left (P, S) (block_ctx m) m s') (block_ready h False m)"
    unfolding gen_breakpoint_def wp_bind wp_return_ext
    by (rule wp_sync_pc[OF A], erule wp_exit_no_chaining) (simp add: block_ctx_def set_pc_def)
  have e: "wp gen_intermediate_code_epilogue (\<lambda>_ s'. \<exists>c. Left (P, S) c m s' \<and> tb_size c = 0) s1"
    if "Left (P, S) (block_ctx m) m s1" for s1
    by (rule wp_mono[OF wp_epilogue[OF Done_Left[OF that, where npc = "env_pc (cpu m)" and pc = "env_pc (cpu m)"]]])
      (auto simp: block_ctx_def sized_def)
  have ne: "bps \<noteq> []" using assms(3) by auto
  show ?thesis
    unfolding cpu_gen_code_inner_def wp_bind setup_block_start gen_code_loop_once
    apply (subst wp_get_dc)
    apply (simp only: dc_block_ready block_ctx_def DisasContext.simps ne if_False at_breakpoint[OF assms(3)] option.case)
    apply (unfold wp_bind wp_return_ext)
    apply (rule wp_mono[OF g])
    apply (simp add: wp_return_ext e)
    done
qed

section \<open>Instructions that cannot be translated\<close>

lemma abort_sticks:
  assumes "grows L k g" "gen_abort s = Some e"
  shows "wp g (\<lambda>_ s'. gen_abort s' = Some e) s"
proof -
  obtain a s' where r: "run_state g s = (a, s')" by fastforce
  then have "ext_state L k s s'" using assms(1) unfolding grows_def by (metis snd_conv)
  then show ?thesis using assms(2) by (simp add: wp_def r ext_state_def)
qed

definition refuses :: "(u32 \<Rightarrow> u8) \<Rightarrow> u32 \<Rightarrow> gen_error option" where
  "refuses load pc = (case decode_insn load pc False of
       (None, _, _) \<Rightarrow> Some (Abort_decode pc)
     | (Some i, _, _) \<Rightarrow> if mnemonic i = INSN_HALT \<or> mnemonic i = INSN_STOP then Some (Abort_unimplemented (mnemonic i)) else None)"

lemma wp_tlib_abortf: "wp (tlib_abortf e) Q s = Q () (s\<lparr>gen_abort := (if gen_abort s = None then Some e else gen_abort s)\<rparr>)"
  by (simp add: tlib_abortf_def wp_update)

lemma wp_upd_dc_eq: "wp (upd_dc f) Q s = Q () (s\<lparr>dc := f (dc s)\<rparr>)"
  by (simp add: upd_dc_def wp_update)

lemma insn_tail_refuses:
  assumes "refuses load pc = Some e" "gen_abort s = None" "base_pc (dc s) = pc" "grows L k g"
  shows "wp (insn_tail load pc g) (\<lambda>_ s'. gen_abort s' = Some e) s"
proof -
  let ?s = "s\<lparr>dc := (dc s)\<lparr>dc_pc := base_pc (dc s), dc_use_es := False\<rparr>\<rparr>"
  have d: "wp (decode load) (\<lambda>ok s'. \<not> ok \<and> (gen_abort s' = Some e \<or> gen_abort s' = None \<and> e = Abort_decode pc)) ?s"
    using assms(1-3) unfolding decode_def wp_bind wp_get_dc refuses_def
    by (auto simp: wp_upd_dc_eq trans_unimplemented_def wp_tlib_abortf split: prod.splits option.splits if_splits)
  have t: "wp (tlib_abortf (Abort_decode pc)) (\<lambda>_. wp (upd_dc f) (\<lambda>_. wp g (\<lambda>_. wp (State_Monad.return (0::int)) (\<lambda>_ s'. gen_abort s' = Some e)))) s1"
    if "gen_abort s1 = Some e \<or> gen_abort s1 = None \<and> e = Abort_decode pc" for s1 f
    using that abort_sticks[OF assms(4)] by (auto simp: wp_tlib_abortf wp_upd_dc_eq wp_return_ext)
  show ?thesis unfolding insn_tail_def wp_bind
    by (subst wp_upd_dc_eq, rule wp_mono[OF d]) (use t in simp)
qed

lemma gen_intermediate_code_refuses:
  assumes "refuses load pc = Some e" "At E c Map.empty Map.empty m s" "base_pc c = pc"
  shows "wp (gen_intermediate_code load) (\<lambda>_ s'. gen_abort s' = Some e) s"
  unfolding gen_intermediate_code_tail wp_bind
proof (rule wp_get_dc_At[OF assms(2)], rule wp_insn_start, assumption, rule wp_upd_dc, assumption)
  fix s1 s2 assume A: "At E (c\<lparr>dc_skip_flag := False\<rparr>) Map.empty Map.empty m s2"
  note t = insn_tail_refuses[OF assms(1)]
  have "wp skip_prefix (\<lambda>l. wp (insn_tail load pc (after_label l)) (\<lambda>_ s'. gen_abort s' = Some e)) s2"
    by (rule wp_mono[OF wp_skip_prefix[OF A]], rule t[OF _ _ grows_after_label])
       (use assms(3) in \<open>auto simp: At_def Jump_def split: if_splits\<close>)
  moreover have "wp (insn_tail load pc (State_Monad.return ())) (\<lambda>_ s'. gen_abort s' = Some e) s2"
    by (rule t[OF _ _ grows_return]) (use A assms(3) in \<open>auto simp: At_def\<close>)
  ultimately show "wp (if dc_skip_flag c then skip_prefix \<bind> (\<lambda>l. insn_tail load (base_pc c) (after_label l))
     else insn_tail load (base_pc c) (State_Monad.return ())) (\<lambda>_ s'. gen_abort s' = Some e) s2"
    by (simp add: assms(3))
qed

lemma wp_block_refuses:
  assumes "refuses load (env_pc (cpu m)) = Some e" "env_pc (cpu m) \<notin> set bps"
  shows "wp (cpu_gen_code_inner load bps sync mx) (\<lambda>_ s'. gen_abort s' = Some e) (block_start h m)"
proof -
  obtain S :: rt_state where S: "rmode S = Running" "mach S = m" by (metis rt_state.select_convs(1,5))
  have "At (undefined, S) (block_ctx m) Map.empty Map.empty m (block_ready h sync m)" by (rule At_ready) (use S in auto)
  then have g: "wp (gen_intermediate_code load) (\<lambda>_ s'. gen_abort s' = Some e) (block_ready h sync m)"
    by (rule gen_intermediate_code_refuses[OF assms(1)]) (simp add: block_ctx_def)
  have x: "wp (exit_check d') (\<lambda>_. wp gen_intermediate_code_epilogue (\<lambda>_ s'. gen_abort s' = Some e)) s1" if "gen_abort s1 = Some e" for d' s1
    by (rule wp_mono[OF abort_sticks[OF grows_exit_check that]], rule abort_sticks[OF grows_epilogue])
  show ?thesis unfolding wp_inner_start[OF assms(2)]
    by (rule wp_mono[OF g]) (use x in \<open>simp add: wp_get_dc\<close>)
qed

section \<open>Translating and running block after block\<close>

text \<open>One turn of the execution loop without a block cache: translate the block at the current
  program counter from the current memory, run it, and hand the machine back. None stands
  for a stop at a breakpoint, for an abort of the translator, and for code that does not leave
  by a block exit.\<close>

definition exec_block :: "platform \<Rightarrow> tcg_target \<Rightarrow> u32 list \<Rightarrow> bool \<Rightarrow> nat \<Rightarrow> rt_state \<Rightarrow> rt_state option" where
  "exec_block P h bps sync mx S =
     (case run_state (cpu_gen_code_inner (ram (mach S)) bps sync mx) (block_start h (mach S)) of
        (n, s) \<Rightarrow>
          (if n = 0 \<or> gen_abort s \<noteq> None \<or> tcg_overrun s then None
           else case exec_ops P (code s) S of
               S' \<Rightarrow> (case rmode S' of Exited _ \<Rightarrow> Some (S'\<lparr>rmode := Running\<rparr>) | _ \<Rightarrow> None)))"

text \<open>The same turn of the instruction set.\<close>

definition isa_next :: "(u32 \<Rightarrow> bool) \<Rightarrow> u32 list \<Rightarrow> machine \<Rightarrow> machine option" where
  "isa_next hp bps m =
     (if env_pc (cpu m) \<in> set bps \<or> refuses (ram m) (env_pc (cpu m)) \<noteq> None then None else isa_step hp (ram m) m)"

definition at_rest :: "rt_state \<Rightarrow> bool" where
  "at_rest S \<longleftrightarrow> rmode S = Running \<and> cpu_ok (cpu (mach S)) \<and> sint (env_exception_index (cpu (mach S))) < 0"

locale step_refinement =
  fixes impl :: "'c \<Rightarrow> 'c option" and spec :: "'a \<Rightarrow> 'a option" and abs :: "'c \<Rightarrow> 'a" and inv :: "'c \<Rightarrow> bool"
  assumes step_refines: "inv s \<Longrightarrow> map_option abs (impl s) = spec (abs s)"
    and step_inv: "inv s \<Longrightarrow> impl s = Some s' \<Longrightarrow> inv s'"
begin

lemma run_refines: "inv s \<Longrightarrow> map_option abs (steps impl n s) = steps spec n (abs s)"
proof (induction n arbitrary: s)
  case (Suc n)
  show ?case
  proof (cases "impl s")
    case None
    then show ?thesis using step_refines[OF Suc.prems] by simp
  next
    case (Some s')
    then have "spec (abs s) = Some (abs s')" using step_refines[OF Suc.prems] by simp
    then show ?thesis using Suc.IH[OF step_inv[OF Suc.prems Some]] Some by simp
  qed
qed simp

lemma run_inv: "inv s \<Longrightarrow> steps impl n s = Some s' \<Longrightarrow> inv s'"
  by (induction n arbitrary: s) (auto simp: Option.bind_eq_Some_conv intro: step_inv)

end

lemma isa_step_total:
  assumes "refuses load (env_pc (cpu m)) = None"
  obtains i npc es m' where "decode_insn load (env_pc (cpu m)) False = (Some i, npc, es)"
    "mnemonic i \<noteq> INSN_HALT" "mnemonic i \<noteq> INSN_STOP" "isa_step hp load m = Some m'"
proof -
  obtain i npc es where d: "decode_insn load (env_pc (cpu m)) False = (Some i, npc, es)"
    "mnemonic i \<noteq> INSN_HALT" "mnemonic i \<noteq> INSN_STOP"
    using assms by (auto simp: refuses_def split: prod.splits option.splits if_splits)
  then have "\<exists>m'. isa_insn hp es npc i x = Some m'" for x using isa_insn_total decode_insn_wf by blast
  then have "\<exists>m'. isa_step hp load m = Some m'" using d by (simp add: isa_step_def Let_def)
  then show ?thesis using that d by blast
qed

lemma exec_block_runs:
  assumes "at_rest S" "env_pc (cpu (mach S)) \<notin> set bps" "isa_step (pl_host_ptr P) (ram (mach S)) (mach S) = Some m'"
    "refuses (ram (mach S)) (env_pc (cpu (mach S))) = None"
  shows "\<exists>S'. exec_block P h bps sync mx S = Some S' \<and> mach S' = m' \<and> rmode S' = Running"
proof -
  obtain i npc es where d: "decode_insn (ram (mach S)) (env_pc (cpu (mach S))) False = (Some i, npc, es)"
    "mnemonic i \<noteq> INSN_HALT" "mnemonic i \<noteq> INSN_STOP" using isa_step_total[OF assms(4)] by metis
  obtain n s where r: "run_state (cpu_gen_code_inner (ram (mach S)) bps sync mx) (block_start h (mach S)) = (n, s)" by fastforce
  have "n = 1 \<and> (\<exists>c. Left (P, S) c m' s)"
    using wp_block[of S "mach S" bps "ram (mach S)" i npc es P m' sync mx h] assms d by (auto simp: wp_def r at_rest_def)
  then obtain v where "n = 1" "gen_abort s = None" "rmode (exec_ops P (code s) S) = Exited v" "mach (exec_ops P (code s) S) = m'"
    by (auto simp: Left_def rt_after_def)
  then show ?thesis using inner_tables[OF r] by (simp add: exec_block_def r)
qed

lemma exec_block_stops:
  assumes "rmode S = Running" "env_pc (cpu (mach S)) \<in> set bps \<or> refuses (ram (mach S)) (env_pc (cpu (mach S))) \<noteq> None"
  shows "exec_block P h bps sync mx S = None"
proof -
  obtain n s where r: "run_state (cpu_gen_code_inner (ram (mach S)) bps sync mx) (block_start h (mach S)) = (n, s)" by fastforce
  have "n = 0 \<or> gen_abort s \<noteq> None"
  proof (cases "env_pc (cpu (mach S)) \<in> set bps")
    case True
    then show ?thesis using wp_breakpoint[OF assms(1) refl True, of "ram (mach S)" sync mx P h] by (simp add: wp_def r)
  next
    case False
    then obtain e where "refuses (ram (mach S)) (env_pc (cpu (mach S))) = Some e" using assms(2) by auto
    from wp_block_refuses[OF this False, of sync mx h] show ?thesis by (simp add: wp_def r)
  qed
  then show ?thesis by (auto simp: exec_block_def r)
qed

lemma exec_block_isa:
  assumes "at_rest S"
  shows "map_option mach (exec_block P h bps sync mx S) = isa_next (pl_host_ptr P) bps (mach S)"
proof (cases "env_pc (cpu (mach S)) \<in> set bps \<or> refuses (ram (mach S)) (env_pc (cpu (mach S))) \<noteq> None")
  case True
  then show ?thesis using exec_block_stops[OF _ True, of P h sync mx] assms by (simp add: isa_next_def at_rest_def)
next
  case False
  then obtain m' where m': "isa_step (pl_host_ptr P) (ram (mach S)) (mach S) = Some m'" using isa_step_total by (metis not_None_eq)
  show ?thesis using exec_block_runs[OF assms _ m', of bps h sync mx] False by (auto simp: isa_next_def m')
qed

lemma exec_block_at_rest:
  assumes "at_rest S" "exec_block P h bps sync mx S = Some S'"
  shows "at_rest S'"
proof -
  have "isa_next (pl_host_ptr P) bps (mach S) = Some (mach S')"
    using exec_block_isa[OF assms(1), of P h bps sync mx] assms(2) by simp
  then have "keeps (mach S) (mach S')" using isa_step_keeps by (auto simp: isa_next_def split: if_splits)
  moreover have "rmode S' = Running"
    using assms(2) by (auto simp: exec_block_def split: prod.splits if_splits run_mode.splits)
  ultimately show ?thesis using assms(1) by (simp add: at_rest_def keeps_def)
qed

interpretation blocks: step_refinement "exec_block P h bps sync mx" "isa_next (pl_host_ptr P) bps" mach at_rest
  for P h bps sync mx
  by unfold_locales (fact exec_block_isa, fact exec_block_at_rest)

lemma exec_block_progress:
  assumes "at_rest S" "env_pc (cpu (mach S)) \<notin> set bps" "refuses (ram (mach S)) (env_pc (cpu (mach S))) = None"
  shows "\<exists>S'. exec_block P h bps sync mx S = Some S'"
proof -
  obtain m' where "isa_step (pl_host_ptr P) (ram (mach S)) (mach S) = Some m'" using isa_step_total[OF assms(3)] by metis
  then show ?thesis using exec_block_runs[OF assms(1,2) _ assms(3), of P m' h sync mx] by blast
qed

lemma gen_code_loop_count:
  "fst (run_state (gen_code_loop load bps sync mx k) s) = (if base_pc (dc s) \<in> set bps then k else k + 1)"
proof -
  have b: "wp gen_breakpoint (\<lambda>r _. r = 1) s" for s
    unfolding gen_breakpoint_def wp_bind wp_return_ext by (simp add: wp_True_ext wp_True)
  have "wp (gen_code_loop load bps sync mx k) (\<lambda>n _. n = (if base_pc (dc s) \<in> set bps then k else k + 1)) s"
  proof (cases "base_pc (dc s) \<in> set bps")
    case True
    then have ne: "bps \<noteq> []" by auto
    show ?thesis unfolding gen_code_loop_once wp_bind
      apply (subst wp_get_dc)
      apply (simp only: ne if_False at_breakpoint[OF True] option.case)
      apply (unfold wp_bind wp_return_ext)
      apply (rule wp_mono[OF b])
      apply (simp add: wp_return_ext True)
      done
  next
    case False
    have n: "(if bps = [] then State_Monad.return False else case process_breakpoints bps (base_pc (dc s)) of
      None \<Rightarrow> State_Monad.return False | Some bp \<Rightarrow> gen_breakpoint \<bind> (\<lambda>r. State_Monad.return (r \<noteq> 0))) = State_Monad.return False"
      using no_breakpoint[OF False] by simp
    show ?thesis unfolding gen_code_loop_once wp_bind
      apply (subst wp_get_dc)
      apply (simp only: n wp_return_ext if_False)
      apply (unfold wp_bind wp_return_ext)
      apply (simp add: False wp_True_ext wp_True)
      done
  qed
  then show ?thesis by (simp add: wp_def split: prod.splits)
qed

end
