(* ===== verification/RL78_Stack.thy ===== *)
theory RL78_Stack
  imports RL78_Run RL78_Interrupt
begin

text \<open>Composition over the stack: what CALL, CALLT, BRK and an interrupt push is what RET, RETB and
  RETI take back, PUSH and POP are inverse, and a conditional skip consumes one instruction.\<close>

section \<open>Memory\<close>

lemma byte_of_byte: "(ucast (ucast v :: u8) :: u32) = v AND 0xFF"
  by (rule bit_word_eqI) (auto simp: mask_simps bit_norm)

lemma ld_st_byte: "mem_ld MO_8 (mem_st MO_8 a v m) b = (if b = a then v AND 0xFF else mem_ld MO_8 m b)"
  by (simp add: mem_ld_def mem_st_def ram_ld_def ram_st_def align_def byte_of_byte)

lemma ld_st_word: "mem_ld MO_16 (mem_st MO_16 a v m) a = v AND 0xFFFF"
proof -
  have "(ucast (ucast v :: u8) :: u32) OR push_bit 8 (ucast (ucast (drop_bit 8 v) :: u8)) = v AND 0xFFFF"
    by (rule bit_word_eqI) (auto simp: mask_simps bit_norm)
  then show ?thesis by (simp add: mem_ld_def mem_st_def ram_ld_def ram_st_def)
qed

lemma stack_bank:
  assumes "unat x < 65536"
  shows "(x :: u32) OR 0xF0000 = x + 0xF0000"
proof -
  have p: "(0xF0000 :: u32) = push_bit 16 0xF" by simp
  have "bit x n \<Longrightarrow> n < 16" for n using bit_small[of x 16 n] assms by simp
  then have "x AND push_bit 16 0xF = 0"
    by (intro bit_word_eqI) (simp only: bit_and_iff bit_push_bit_iff bit_0_eq bot_apply bot_bool_def, fastforce)
  then have "x AND 0xF0000 = 0" by (simp only: p)
  then show ?thesis by (metis disjunctive_add_eq_or)
qed

section \<open>Frames\<close>

lemma mem_st_same [simp]: "(mem_st mo a v m)\<lparr>cpu := cpu m\<rparr> = mem_st mo a v m"
  by (cases mo) (simp_all add: mem_st_def ram_st_def)

lemma push_pop:
  "isa_pop es put (set_pc npc (isa_push es v m)) =
     put (v AND 0xFFFF) (set_pc npc (mem_st MO_16 (stack_at es m (env_sp (cpu m) - 2)) v m))"
proof -
  let ?m = "mem_st MO_16 (stack_at es m (env_sp (cpu m) - 2)) v m"
  have "mem_st MO_16 a v (set_sp x m) = set_sp x (mem_st MO_16 a v m)" for a x
    by (simp add: set_sp_def mem_st_cpu_upd)
  then have p: "isa_push es v m = set_sp (env_sp (cpu m) - 2) ?m" by (simp add: isa_push_def Let_def)
  have ld: "mem_ld MO_16 (m1\<lparr>cpu := c\<rparr>) a = mem_ld MO_16 m1 a" for m1 c a by (simp add: mem_ld_def ram_ld_def)
  show ?thesis unfolding isa_pop_def p
    by (simp add: set_sp_def set_pc_def stack_at_def bank_base_def ld ld_st_word)
qed

lemma stack_offsets:
  assumes "4 \<le> unat (sp :: u32)" "unat sp \<le> 65536" "unat (k :: u32) < 4"
  shows "(sp - 4 + k) OR 0xF0000 = sp - 4 + 0xF0000 + k"
proof -
  have "unat (sp - 4) = unat sp - 4" using assms(1) by (simp add: unat_sub word_le_nat_alt)
  then have "unat (sp - 4 + k) < 65536" using assms by (simp add: unat_word_ariths)
  then show ?thesis using stack_bank[of "sp - 4 + k"] by (simp add: algebra_simps)
qed

lemma recompose_bytes:
  assumes "unat npc < 2 ^ (16 + k)"
  shows "take_bit 8 npc OR push_bit 8 (take_bit 8 (drop_bit 8 npc)) OR push_bit 16 (take_bit k (drop_bit 16 npc)) = (npc :: u32)"
proof (rule bit_word_eqI)
  fix n assume n: "n < LENGTH(32)"
  have b: "bit npc n \<Longrightarrow> n < 16 + k" by (rule bit_small[OF assms])
  consider "n < 8" | "8 \<le> n" "n < 16" | "16 \<le> n" by linarith
  then show "bit (take_bit 8 npc OR push_bit 8 (take_bit 8 (drop_bit 8 npc)) OR push_bit 16 (take_bit k (drop_bit 16 npc))) n = bit npc n"
    using b n by cases (auto simp: bit_norm)
qed

lemma recompose_pc:
  "unat npc < 2 ^ 20 \<Longrightarrow> (npc AND 0xFF) OR push_bit 8 (drop_bit 8 npc AND 0xFF) OR push_bit 16 (drop_bit 16 npc AND 0x0F) = (npc :: u32)"
  "unat npc < 2 ^ 24 \<Longrightarrow> (npc AND 0xFF) OR push_bit 8 (drop_bit 8 npc AND 0xFF) OR push_bit 16 (drop_bit 16 npc AND 0xFF) = (npc :: u32)"
  using recompose_bytes[of npc 4] recompose_bytes[of npc 8] by (simp_all only: mask_simps) simp_all

text \<open>A return frame: the stack pointer is below it and its bytes make up the return address, with
  the status word on top.\<close>

definition frame_at :: "u32 \<Rightarrow> u32 \<Rightarrow> machine \<Rightarrow> bool" where
  "frame_at sp pc m \<longleftrightarrow> env_sp (cpu m) = sp - 4 \<and>
     (let byte = (\<lambda>k. mem_ld MO_8 m (sp - 4 + 0xF0000 + k)) in byte 0 OR push_bit 8 (byte 1) OR push_bit 16 (byte 2) = pc)"

lemma ret_frame:
  assumes "4 \<le> unat sp" "unat sp \<le> 65536" "frame_at sp pc m"
  shows "env_pc (cpu (isa_ret False rp m)) = pc \<and> env_sp (cpu (isa_ret False rp m)) = sp \<and>
    env_psw (cpu (isa_ret False rp m)) = (if rp then rl78_cpu_unpack_psw (ucast (mem_ld MO_8 m (sp - 4 + 0xF0000 + 3))) else env_psw (cpu m))"
proof -
  have k: "stack_at False m (sp - 4 + k) = sp - 4 + 0xF0000 + k" if "unat k < 4" for k
    using stack_offsets[OF assms(1,2) that] by (simp add: stack_at_def bank_base_def)
  show ?thesis using assms(3) k[of 0] k[of 1] k[of 2] k[of 3]
    by (simp add: isa_ret_def frame_at_def Let_def set_pc_def set_sp_def set_psw_def)
qed

lemma push_ret_frame:
  assumes "4 \<le> unat (env_sp (cpu m))" "unat (env_sp (cpu m)) \<le> 65536" "unat npc < 2 ^ 20"
  shows "frame_at (env_sp (cpu m)) npc (isa_push_ret False sv npc m) \<and>
    (sv \<longrightarrow> mem_ld MO_8 (isa_push_ret False sv npc m) (env_sp (cpu m) - 4 + 0xF0000 + 3) = ucast (rl78_cpu_pack_psw (env_psw (cpu m))))"
proof -
  let ?sp = "env_sp (cpu m)" let ?a = "?sp - 4 + 0xF0000"
  have k: "stack_at False m (?sp - 4 + k) = ?a + k" if "unat k < 4" for k
    using stack_offsets[OF assms(1,2) that] by (simp add: stack_at_def bank_base_def)
  have s: "?sp - 1 = ?sp - 4 + 3" "?sp - 2 = ?sp - 4 + 2" "?sp - 3 = ?sp - 4 + 1" by simp_all
  have "stack_at False m (?sp - 1) = ?a + 3" "stack_at False m (?sp - 2) = ?a + 2" "stack_at False m (?sp - 3) = ?a + 1"
     "stack_at False m (?sp - 4) = ?a" unfolding s by (subst k; simp)+ (use k[of 0] in simp)
  note st = this
  let ?m1 = "mem_st MO_8 ?a (npc AND 0xFF) (mem_st MO_8 (?a + 1) (drop_bit 8 npc AND 0xFF)
      (mem_st MO_8 (?a + 2) (drop_bit 16 npc AND 0x0F)
        (if sv then mem_st MO_8 (?a + 3) (ucast (rl78_cpu_pack_psw (env_psw (cpu m)))) m else m)))"
  have "isa_push_ret False sv npc m = set_sp (?sp - 4) ?m1"
    by (simp only: isa_push_ret_def Let_def st)
  then have m': "isa_push_ret False sv npc m = set_sp (?sp - 4) ?m1" .
  have ld: "mem_ld MO_8 (set_sp x m1) b = mem_ld MO_8 m1 b" for x m1 b by (simp add: set_sp_def mem_ld_def ram_ld_def)
  have d: "?a + 1 \<noteq> ?a" "?a + 2 \<noteq> ?a" "?a + 3 \<noteq> ?a" "?a + 2 \<noteq> ?a + 1" "?a + 3 \<noteq> ?a + 1" "?a + 3 \<noteq> ?a + 2"
    by simp_all
  have p: "(ucast (b :: u8) :: u32) AND 0xFF = ucast b" for b
    by (rule bit_word_eqI) (auto simp: mask_simps bit_norm)
  show ?thesis unfolding m' frame_at_def Let_def ld ld_st_byte
    using d recompose_pc(1)[OF assms(3)] by (simp add: set_sp_def ld_st_byte p and.assoc)
qed


lemma interrupt_frame:
  assumes "4 \<le> unat (env_sp (cpu m))" "unat (env_sp (cpu m)) \<le> 65536" "unat (env_pc (cpu m)) < 2 ^ 24" "do_interrupt m = Inr m'"
  shows "frame_at (env_sp (cpu m)) (env_pc (cpu m)) m' \<and>
    mem_ld MO_8 m' (env_sp (cpu m) - 4 + 0xF0000 + 3) = ucast (rl78_cpu_pack_psw (env_psw (cpu m)))"
proof -
  let ?sp = "env_sp (cpu m)" let ?a = "?sp - 4 + 0xF0000" let ?pc = "env_pc (cpu m)"
  have a: "0xF0000 OR (?sp - 4) = ?a" using stack_offsets[OF assms(1,2), of 0] by (simp add: or.commute)
  have r: "ram m' = push_frame (ram m) ?a ?pc (env_psw (cpu m))" "env_sp (cpu m') = ?sp - 4"
    using assms(4) unfolding do_interrupt_eq a by auto
  have d: "?a + 1 \<noteq> ?a" "?a + 2 \<noteq> ?a" "?a + 3 \<noteq> ?a" "?a + 2 \<noteq> ?a + 1" "?a + 3 \<noteq> ?a + 1" "?a + 3 \<noteq> ?a + 2"
    by simp_all
  have "mem_ld MO_8 m' ?a = ?pc AND 0xFF" "mem_ld MO_8 m' (?a + 1) = drop_bit 8 ?pc AND 0xFF"
    "mem_ld MO_8 m' (?a + 2) = drop_bit 16 ?pc AND 0xFF" "mem_ld MO_8 m' (?a + 3) = ucast (rl78_cpu_pack_psw (env_psw (cpu m)))"
    using d by (simp_all add: mem_ld_def ram_ld_def align_def r push_frame_def byte_of_byte)
  then show ?thesis using recompose_pc(2)[OF assms(3)] by (simp add: frame_at_def r)
qed


section \<open>Calls and returns\<close>

text \<open>What a routine must keep to be able to return: the stack pointer it was entered with and the
  four bytes of its frame.\<close>

definition frame_kept :: "u32 \<Rightarrow> machine \<Rightarrow> machine \<Rightarrow> bool" where
  "frame_kept sp m m' \<longleftrightarrow> env_sp (cpu m') = env_sp (cpu m) \<and>
     list_all (\<lambda>k. ram m' (sp - 4 + 0xF0000 + k) = ram m (sp - 4 + 0xF0000 + k)) [0, 1, 2, 3]"

lemma frame_kept_byte:
  assumes "frame_kept sp m m'"
  shows "mem_ld MO_8 m' (sp - 4 + 0xF0000) = mem_ld MO_8 m (sp - 4 + 0xF0000)"
    "mem_ld MO_8 m' (sp - 4 + 0xF0000 + 1) = mem_ld MO_8 m (sp - 4 + 0xF0000 + 1)"
    "mem_ld MO_8 m' (sp - 4 + 0xF0000 + 2) = mem_ld MO_8 m (sp - 4 + 0xF0000 + 2)"
    "mem_ld MO_8 m' (sp - 4 + 0xF0000 + 3) = mem_ld MO_8 m (sp - 4 + 0xF0000 + 3)"
  using assms by (simp_all add: frame_kept_def mem_ld_def ram_ld_def align_def)

lemma frame_at_kept: "frame_at sp pc m \<Longrightarrow> frame_kept sp m m' \<Longrightarrow> frame_at sp pc m'"
  using frame_kept_byte[of sp m m'] by (simp add: frame_at_def frame_kept_def Let_def)

text \<open>The instructions that enter a routine and those that leave it.\<close>

definition enters :: "RL78Mnemonic \<Rightarrow> bool" where
  "enters mn \<longleftrightarrow> mn = INSN_CALL \<or> mn = INSN_CALLT \<or> mn = INSN_BRK"

definition leaves :: "RL78Mnemonic \<Rightarrow> bool" where
  "leaves mn \<longleftrightarrow> mn = INSN_RET \<or> mn = INSN_RETB \<or> mn = INSN_RETI"

lemma isa_data_call: "enters mn \<or> leaves mn \<Longrightarrow> isa_data hp es mn a b m = None"
  by (auto simp: enters_def leaves_def isa_data_def)

lemma isa_insn_call: "enters (mnemonic i) \<or> leaves (mnemonic i) \<Longrightarrow>
    isa_insn hp es npc i m = isa_ctrl hp es npc (mnemonic i) (operand0 i) (operand1 i) m"
  by (simp add: isa_insn_def isa_data_call)

lemma enter_cases:
  assumes "enters mn" "isa_ctrl hp es npc mn a b m = Some m'"
  shows "(\<exists>t. m' = set_pc t (isa_push_ret es False npc m) \<and> mn \<noteq> INSN_BRK) \<or>
     (\<exists>t g. m' = set_pc t (psw_upd g (isa_push_ret es True npc m)))"
proof -
  consider "mn = INSN_CALL" | "mn = INSN_CALLT" | "mn = INSN_BRK" using assms(1) by (auto simp: enters_def)
  then show ?thesis
  proof cases
    case 1
    then show ?thesis using assms(2) by (auto simp: isa_ctrl_def Option.bind_eq_Some_conv)
  next
    case 2
    then show ?thesis using assms(2) by (cases a) (simp_all add: isa_ctrl_def, blast)
  next
    case 3
    then show ?thesis using assms(2) by (simp add: isa_ctrl_def, blast)
  qed
qed

lemma isa_enter:
  assumes "decode_insn load (env_pc (cpu m)) False = (Some i, npc, False)" "enters (mnemonic i)" "env_skip_en (cpu m) = 0"
    "4 \<le> unat (env_sp (cpu m))" "unat (env_sp (cpu m)) \<le> 65536" "unat npc < 2 ^ 20" "isa_step hp load m = Some m'"
  shows "frame_at (env_sp (cpu m)) npc m' \<and>
    (mnemonic i = INSN_BRK \<longrightarrow> mem_ld MO_8 m' (env_sp (cpu m) - 4 + 0xF0000 + 3) = ucast (rl78_cpu_pack_psw (env_psw (cpu m))))"
proof -
  have f: "frame_at sp pc (set_pc x m1) = frame_at sp pc m1" "frame_at sp pc (psw_upd g m1) = frame_at sp pc m1"
    "mem_ld mo (set_pc x m1) a = mem_ld mo m1 a" "mem_ld mo (psw_upd g m1) a = mem_ld mo m1 a" for sp pc x g m1 mo a
    by (cases mo; simp add: frame_at_def set_pc_def psw_upd_def mem_ld_def ram_ld_def)+
  have "isa_insn hp False npc i m = Some m'" using assms(1,3,7) by (simp add: isa_step_def)
  then have "isa_ctrl hp False npc (mnemonic i) (operand0 i) (operand1 i) m = Some m'"
    using assms(2) isa_insn_call[of i hp False npc m] by simp
  then have "(\<exists>t. m' = set_pc t (isa_push_ret False False npc m) \<and> mnemonic i \<noteq> INSN_BRK) \<or>
     (\<exists>t g. m' = set_pc t (psw_upd g (isa_push_ret False True npc m)))"
    by (rule enter_cases[OF assms(2)])
  then show ?thesis using push_ret_frame[OF assms(4-6)] f by auto
qed

lemma exec_leave:
  assumes "at_rest S" "env_pc (cpu (mach S)) \<notin> set bps" "env_skip_en (cpu (mach S)) = 0"
    "decode_insn (ram (mach S)) (env_pc (cpu (mach S))) False = (Some j, npc, False)" "leaves (mnemonic j)"
    "4 \<le> unat sp" "unat sp \<le> 65536" "frame_at sp pc (mach S)"
  shows "\<exists>S'. exec_block P h bps sync mx S = Some S' \<and> env_pc (cpu (mach S')) = pc \<and> env_sp (cpu (mach S')) = sp \<and>
    env_psw (cpu (mach S')) = (if mnemonic j = INSN_RET then env_psw (cpu (mach S))
      else rl78_cpu_unpack_psw (ucast (mem_ld MO_8 (mach S) (sp - 4 + 0xF0000 + 3))))"
proof -
  let ?m = "isa_ret False (mnemonic j \<noteq> INSN_RET) (mach S)"
  have "isa_step (pl_host_ptr P) (ram (mach S)) (mach S) = Some ?m"
    using assms(3-5) isa_insn_call[of j _ False npc "mach S"] by (auto simp: isa_step_def isa_ctrl_def leaves_def)
  moreover have "refuses (ram (mach S)) (env_pc (cpu (mach S))) = None"
    using assms(4,5) by (auto simp: refuses_def leaves_def)
  ultimately obtain S' where "exec_block P h bps sync mx S = Some S'" "mach S' = ?m" using exec_block_runs[OF assms(1,2)] by blast
  then show ?thesis using ret_frame[OF assms(6-8), of "mnemonic j \<noteq> INSN_RET"] by auto
qed


text \<open>A conditional skip leaves the request behind, and the next step consumes one instruction
  without any other effect.\<close>

definition skips :: "RL78Mnemonic \<Rightarrow> RL78PSW \<Rightarrow> bool option" where
  "skips mn p = (case mn of
       INSN_SKC \<Rightarrow> Some (psw_cy p = 1)
     | INSN_SKNC \<Rightarrow> Some (psw_cy p = 0)
     | INSN_SKZ \<Rightarrow> Some (psw_z p = 1)
     | INSN_SKNZ \<Rightarrow> Some (psw_z p = 0)
     | INSN_SKH \<Rightarrow> Some (psw_z p = 0 \<and> psw_cy p = 0)
     | INSN_SKNH \<Rightarrow> Some (psw_z p = 1 \<or> psw_cy p = 1)
     | _ \<Rightarrow> None)"

lemma isa_data_skip: "skips mn (env_psw (cpu m)) = Some t \<Longrightarrow> isa_data hp es mn a b m = Some (isa_skip t m)"
  by (auto simp: skips_def isa_data_def split: RL78Mnemonic.splits)

lemma isa_skip_skipped:
  assumes "env_skip_en (cpu m) = 0" "env_skip_req (cpu m) = 0" "skips (mnemonic i) (env_psw (cpu m)) = Some True"
    "decode_insn load (env_pc (cpu m)) False = (Some i, npc, es)" "decode_insn load npc False = (Some j, npc', es')"
  shows "isa_step hp load m \<bind> isa_step hp load = Some (set_pc npc' m)"
proof -
  have "isa_step hp load m = Some (set_pc npc (isa_skip True m))"
    using assms(1,4) isa_data_skip[OF assms(3)] by (simp add: isa_step_def isa_insn_def)
  moreover have "isa_step hp load (set_pc npc (isa_skip True m)) = Some (set_pc npc' m)"
    using assms(1,2,5) by (simp add: isa_step_def set_pc_def isa_skip_def Let_def flag_def)
  ultimately show ?thesis by simp
qed


section \<open>PUSH and POP\<close>

lemma word_reg_cases: "is_word_reg a \<longleftrightarrow> (\<exists>r. a = OP_WORD_REG r)"
  by (cases a) simp_all

lemma push_pop_insn:
  assumes "insn_ok i" "mnemonic i = INSN_PUSH" "insn_ok j" "mnemonic j = INSN_POP" "isa_insn hp es npc i m = Some m1"
    "operand0 i = OP_PSW \<longleftrightarrow> operand0 j = OP_PSW"
  obtains (pair) r r' where "operand0 i = OP_WORD_REG r" "operand0 j = OP_WORD_REG r'" "m1 = set_pc npc (isa_push es (gpr16 m r) m)"
      "isa_insn hp es npc' j m1 = Some (set_pc npc' (isa_pop es (set_gpr16 r') m1))"
  | (psw) "operand0 i = OP_PSW" "operand0 j = OP_PSW"
      "m1 = set_pc npc (isa_push es (push_bit 8 (ucast (rl78_cpu_pack_psw (env_psw (cpu m))))) m)"
      "isa_insn hp es npc' j m1 = Some (set_pc npc' (isa_pop es (\<lambda>v. set_psw (drop_bit 8 v)) m1))"
proof (cases "operand0 i = OP_PSW")
  case True
  then show ?thesis using psw assms by (simp add: isa_insn_def isa_data_def)
next
  case False
  then obtain r r' where "operand0 i = OP_WORD_REG r" "operand0 j = OP_WORD_REG r'"
    using assms(1-4,6) by (auto simp: insn_ok_def word_reg_cases)
  then show ?thesis using pair assms by (simp add: isa_insn_def isa_data_def)
qed

lemma pop_pushed_pair:
  "gpr16 (set_pc npc' (isa_pop es (set_gpr16 r') (set_pc npc (isa_push es (gpr16 m r) m)))) r' = gpr16 m r \<and>
   env_sp (cpu (set_pc npc' (isa_pop es (set_gpr16 r') (set_pc npc (isa_push es (gpr16 m r) m))))) = env_sp (cpu m)"
proof -
  have "unat (gpr16 m r) < 65536" by (simp add: gpr16_def unat_get_rp_less)
  then have "gpr16 m r AND 0xFFFF = gpr16 m r" using take_bit_small[of "gpr16 m r" 16] by (simp add: mask_simps)
  moreover have "gpr16 (set_pc x m') r' = gpr16 m' r'" for x m' r' by (simp add: gpr16_def set_pc_def rl78_get_rp_def)
  ultimately show ?thesis unfolding push_pop by (simp add: gpr16_def set_gpr16_def) (simp add: set_pc_def)
qed

lemma pop_pushed_psw:
  assumes "psw_ok (env_psw (cpu m))"
  shows "env_psw (cpu (set_pc npc' (isa_pop es (\<lambda>v. set_psw (drop_bit 8 v)) (set_pc npc
      (isa_push es (push_bit 8 (ucast (rl78_cpu_pack_psw (env_psw (cpu m))))) m))))) = env_psw (cpu m) \<and>
    env_sp (cpu (set_pc npc' (isa_pop es (\<lambda>v. set_psw (drop_bit 8 v)) (set_pc npc
      (isa_push es (push_bit 8 (ucast (rl78_cpu_pack_psw (env_psw (cpu m))))) m))))) = env_sp (cpu m)"
proof -
  have "ucast (drop_bit 8 (push_bit 8 (ucast b :: u32) AND 0xFFFF)) = b" for b :: u8
    by (rule bit_word_eqI) (auto simp: mask_simps bit_norm dest: bit_u8_less)
  then show ?thesis using assms unfolding push_pop by (simp add: set_psw_def set_pc_def)
qed

end
