(* ===== verification/TB_Search.thy ===== *)
theory TB_Search
  imports RL78_Translate
begin

text \<open>The search table of a translation block (\<^verbatim>\<open>src/arch/translate-all.c\<close>) and the lookup of a block by
  host address (\<^verbatim>\<open>tb_find_pc\<close> of \<^verbatim>\<open>src/exec.c\<close>): how a host address inside generated code is
  mapped back to the guest instruction.\<close>

section \<open>Signed LEB128\<close>

lemma sint_signed_drop_bit: "sint (signed_drop_bit n (w :: u32)) = sint w div 2 ^ n"
  by (simp add: sint_signed_drop_bit_eq drop_bit_eq_div)

lemma sleb_more_shrinks:
  fixes val :: u32
  assumes "\<not> ((signed_drop_bit 7 val = 0 \<and> (val AND 0x7F) AND 0x40 = 0) \<or>
    (signed_drop_bit 7 val = - 1 \<and> (val AND 0x7F) AND 0x40 \<noteq> 0))"
  shows "\<bar>sint (signed_drop_bit 7 val)\<bar> < \<bar>sint val\<bar>"
proof -
  let ?x = "sint val"
  have "val \<noteq> 0" "val \<noteq> - 1" using assms by auto
  then have "?x \<noteq> sint (0 :: u32)" "?x \<noteq> sint (- 1 :: u32)" using signed_word_eqI by blast+
  then have ne: "?x \<noteq> 0" "?x \<noteq> - 1" by simp_all
  have "?x div 128 * 128 + ?x mod 128 = ?x" "0 \<le> ?x mod 128" "?x mod 128 < 128" by simp_all
  then have "\<bar>?x div 128\<bar> < \<bar>?x\<bar>" using ne by arith
  then show ?thesis by (simp add: sint_signed_drop_bit)
qed

text \<open>\<^verbatim>\<open>target_long\<close> is a signed 32-bit integer on this target.\<close>

function encode_sleb128 :: "u32 \<Rightarrow> u8 list" where
  "encode_sleb128 val =
     (let byte = val AND 0x7F;
          val' = signed_drop_bit 7 val;
          more = (\<not> ((val' = 0 \<and> byte AND 0x40 = 0) \<or> (val' = - 1 \<and> byte AND 0x40 \<noteq> 0)))
      in if more then ucast (byte OR 0x80) # encode_sleb128 val' else [ucast byte])"
  by pat_completeness auto

termination
proof (relation "measure (\<lambda>v. nat \<bar>sint v\<bar>)")
  fix val x xa :: u32 and xb :: bool
  assume "x = val AND 0x7F" "xa = signed_drop_bit 7 val" "xb = (\<not> ((xa = 0 \<and> x AND 0x40 = 0) \<or> (xa = - 1 \<and> x AND 0x40 \<noteq> 0)))" xb
  then have "\<bar>sint xa\<bar> < \<bar>sint val\<bar>" using sleb_more_shrinks[of val] by simp
  then show "(xa, val) \<in> measure (\<lambda>v. nat \<bar>sint v\<bar>)" by simp
qed simp

declare encode_sleb128.simps [simp del]

text \<open>The pointer into the table is the rest of the bytes. Reading past the end of the table and a shift
  by the width or more are undefined in C; both are None.\<close>

fun decode_sleb128_loop :: "u32 \<Rightarrow> nat \<Rightarrow> u8 list \<Rightarrow> (u32 \<times> nat \<times> u8 \<times> u8 list) option" where
  "decode_sleb128_loop val shift [] = None"
| "decode_sleb128_loop val shift (byte # p) =
     (if 32 \<le> shift then None
      else let val' = val OR push_bit shift (ucast (byte AND 0x7F))
           in if byte AND 0x80 \<noteq> 0 then decode_sleb128_loop val' (shift + 7) p else Some (val', shift + 7, byte, p))"

definition decode_sleb128 :: "u8 list \<Rightarrow> (u32 \<times> u8 list) option" where
  "decode_sleb128 p = (case decode_sleb128_loop 0 0 p of
       None \<Rightarrow> None
     | Some (val, shift, byte, p') \<Rightarrow>
         Some (if shift < 32 \<and> byte AND 0x40 \<noteq> 0 then val OR push_bit shift (- 1) else val, p'))"

definition sleb_finish :: "u32 \<times> nat \<times> u8 \<times> u8 list \<Rightarrow> u32 \<times> u8 list" where
  "sleb_finish r = (case r of (val, shift, byte, p') \<Rightarrow>
     (if shift < 32 \<and> byte AND 0x40 \<noteq> 0 then val OR push_bit shift (- 1) else val, p'))"

lemma decode_sleb128_alt: "decode_sleb128 p = map_option sleb_finish (decode_sleb128_loop 0 0 p)"
  by (auto simp: decode_sleb128_def sleb_finish_def split: option.split prod.split)

lemma byte_top: "(ucast (b :: u32) :: u8) AND 0x80 = 0 \<longleftrightarrow> \<not> bit b 7" "(ucast b :: u8) AND 0x40 = 0 \<longleftrightarrow> \<not> bit b 6"
  "b AND 0x40 = 0 \<longleftrightarrow> \<not> bit b 6"
  using and_exp_eq_0_iff_not_bit[of "ucast b :: u8" 7] and_exp_eq_0_iff_not_bit[of "ucast b :: u8" 6] and_exp_eq_0_iff_not_bit[of b 6]
  by (simp_all add: bit_simps)

text \<open>One turn of both loops: \<^verbatim>\<open>w\<close> is what is left of \<^verbatim>\<open>v\<close> after \<^verbatim>\<open>s\<close> bits.\<close>

definition sleb_more :: "u32 \<Rightarrow> bool" where
  "sleb_more w \<longleftrightarrow> \<not> ((signed_drop_bit 7 w = 0 \<and> \<not> bit w 6) \<or> (signed_drop_bit 7 w = - 1 \<and> bit w 6))"

lemma encode_sleb128_step:
  "encode_sleb128 w = (if sleb_more w then ucast ((w AND 0x7F) OR 0x80) # encode_sleb128 (signed_drop_bit 7 w) else [ucast (w AND 0x7F)])"
proof -
  have "bit (w AND 0x7F) 6 = bit w 6" by (simp add: bit_simps)
  then show ?thesis by (subst encode_sleb128.simps) (simp only: Let_def byte_top sleb_more_def not_not)
qed

lemma seven_bits: "(0x7F :: u32) = mask 7" "(0x7F :: u8) = mask 7" "(0x80 :: u32) = push_bit 7 1"
  by (simp_all add: mask_eq_exp_minus_1)

lemma sleb_low:
  "(ucast ((ucast ((w AND 0x7F) OR 0x80) :: u8) AND 0x7F) :: u32) = w AND 0x7F"
  "(ucast ((ucast (w AND 0x7F) :: u8) AND 0x7F) :: u32) = w AND 0x7F"
  "bit (((w :: u32) AND 0x7F) OR 0x80) 7" "\<not> bit (w AND 0x7F) 7"
  "bit (w AND 0x7F) 6 = bit w 6"
proof -
  show "(ucast ((ucast ((w AND 0x7F) OR 0x80) :: u8) AND 0x7F) :: u32) = w AND 0x7F"
    "(ucast ((ucast (w AND 0x7F) :: u8) AND 0x7F) :: u32) = w AND 0x7F"
    unfolding seven_bits by (intro bit_word_eqI; simp only: bit_simps; auto)+
  show "bit (((w :: u32) AND 0x7F) OR 0x80) 7" "\<not> bit (w AND 0x7F) 7" "bit (w AND 0x7F) 6 = bit w 6"
    by (simp_all add: bit_simps)
qed

lemma bit_left: "s \<le> n \<Longrightarrow> n < 32 \<Longrightarrow> bit (signed_drop_bit s (v :: u32)) (n - s) = bit v n"
  by (auto simp: bit_simps)

lemma sleb_value:
  assumes "s < 32"
  shows "take_bit s v OR push_bit s (signed_drop_bit s v AND 0x7F) = take_bit (s + 7) (v :: u32)"
proof (rule bit_word_eqI)
  fix n assume "n < LENGTH(32)"
  then show "bit (take_bit s v OR push_bit s (signed_drop_bit s v AND 0x7F)) n = bit (take_bit (s + 7) v) n"
    unfolding seven_bits using bit_left[of s n v] by (cases "s \<le> n") (auto simp: bit_take_bit_iff bit_or_iff bit_push_bit_iff bit_and_iff bit_mask_iff)
qed

lemma sleb_stop:
  assumes "s < 32" "\<not> sleb_more (signed_drop_bit s v)"
  shows "s + 7 < 32 \<and> bit (signed_drop_bit s v) 6 \<Longrightarrow> take_bit (s + 7) v OR push_bit (s + 7) (- 1) = (v :: u32)"
    and "\<not> (s + 7 < 32 \<and> bit (signed_drop_bit s v) 6) \<Longrightarrow> take_bit (s + 7) v = v"
proof -
  have "bit v n = bit (signed_drop_bit s v) 6" if "s + 7 \<le> n" "n < 32" for n
  proof -
    have "bit (signed_drop_bit 7 (signed_drop_bit s v)) (n - (s + 7)) = bit v n" using that assms(1) by (auto simp: bit_simps)
    moreover have "bit (signed_drop_bit 7 (signed_drop_bit s v)) (n - (s + 7)) = bit (signed_drop_bit s v) 6"
      using assms(2) that by (auto simp: sleb_more_def simp del: signed_drop_bit_signed_drop_bit)
    ultimately show ?thesis by simp
  qed
  then show "s + 7 < 32 \<and> bit (signed_drop_bit s v) 6 \<Longrightarrow> take_bit (s + 7) v OR push_bit (s + 7) (- 1) = v"
    "\<not> (s + 7 < 32 \<and> bit (signed_drop_bit s v) 6) \<Longrightarrow> take_bit (s + 7) v = v"
    by (auto intro!: bit_word_eqI simp: bit_simps not_less) (meson leI)
qed

lemma sleb_last: "\<not> sleb_more (signed_drop_bit 28 v)"
proof (cases "bit v 31")
  case True
  then have "signed_drop_bit 7 (signed_drop_bit 28 v) = - 1" "bit (signed_drop_bit 28 v) 6"
    by (auto intro!: bit_word_eqI simp: bit_simps)
  then show ?thesis by (simp add: sleb_more_def)
next
  case False
  then have "signed_drop_bit 7 (signed_drop_bit 28 v) = 0" "\<not> bit (signed_drop_bit 28 v) 6"
    by (auto intro!: bit_word_eqI simp: bit_simps)
  then show ?thesis by (simp add: sleb_more_def)
qed

lemma sleb_loop:
  assumes "s = 7 * k" "k \<le> 4"
  shows "map_option sleb_finish (decode_sleb128_loop (take_bit s v) s (encode_sleb128 (signed_drop_bit s v) @ rest)) = Some (v, rest)"
  using assms
proof (induction "4 - k" arbitrary: k s)
  case 0
  then have "\<not> sleb_more (signed_drop_bit s v)" using sleb_last by simp
  then show ?case using 0 sleb_value[of s v] sleb_stop[of s v]
    by (subst encode_sleb128_step) (simp add: byte_top sleb_low sleb_finish_def not_less)
next
  case (Suc d)
  then have s: "s < 32" by simp
  show ?case
  proof (cases "sleb_more (signed_drop_bit s v)")
    case True
    have "signed_drop_bit 7 (signed_drop_bit s v) = signed_drop_bit (s + 7) v" by (simp add: add.commute)
    then show ?thesis using True s Suc.hyps(1)[of "k + 1" "s + 7"] Suc.hyps(2) Suc.prems sleb_value[OF s, of v]
      by (subst encode_sleb128_step) (simp add: byte_top sleb_low)
  next
    case False
    then show ?thesis using s sleb_value[of s v] sleb_stop[of s v]
      by (subst encode_sleb128_step) (simp add: byte_top sleb_low sleb_finish_def not_less)
  qed
qed

lemma decode_encode_sleb128: "decode_sleb128 (encode_sleb128 v @ rest) = Some (v, rest)"
  using sleb_loop[of 0 0 v rest] by (simp add: decode_sleb128_alt)

lemma length_sleb: "k \<le> 4 \<Longrightarrow> length (encode_sleb128 (signed_drop_bit (7 * k) v)) \<le> 5 - k"
proof (induction "4 - k" arbitrary: k)
  case 0
  then have "\<not> sleb_more (signed_drop_bit (7 * k) v)" using sleb_last by simp
  then show ?case using 0 by (subst encode_sleb128_step) simp
next
  case (Suc d)
  have "signed_drop_bit 7 (signed_drop_bit (7 * k) v) = signed_drop_bit (7 * Suc k) v" by (simp add: add.commute)
  moreover have "k \<le> 3" "length (encode_sleb128 (signed_drop_bit (7 * Suc k) v)) \<le> 5 - Suc k"
    using Suc.hyps(1)[of "Suc k"] Suc.hyps(2) by simp_all
  ultimately show ?case by (subst encode_sleb128_step) auto
qed

lemma length_encode_sleb128: "length (encode_sleb128 v) \<le> 5"
  using length_sleb[of 0 v] by simp

section \<open>Translation blocks and the code buffer\<close>

text \<open>A translation block; pointers to blocks are indices into the array \<^verbatim>\<open>tbs\<close> (None for NULL), and a
  pointer whose two low bits carry a number is a pair of the index and that number.
  \<^verbatim>\<open>blk_jmp_target n\<close> is where the n-th patchable branch of the host code goes: None is the code
  that follows it, which leaves the block.\<close>

record TranslationBlock =
  blk_pc :: u32
  blk_cs_base :: u32
  blk_flags :: u64
  blk_dirty_flag :: bool
  blk_size :: u16
  blk_cflags :: u16
  blk_tc_ptr :: u64
  blk_tc_search :: "u8 list"
  blk_phys_hash_next :: "nat option"
  blk_page_next :: "nat \<Rightarrow> (nat \<times> nat) option"
  blk_page_addr :: "nat \<Rightarrow> u64"
  blk_jmp_next :: "nat \<Rightarrow> (nat \<times> nat) option"
  blk_jmp_first :: "(nat \<times> nat) option"
  blk_jmp_target :: "nat \<Rightarrow> nat option"
  blk_icount :: u32
  blk_was_cut :: bool

record code_buffer =
  tcg_rw_buffer :: u64
  tcg_rx_buffer :: u64
  tcg_wx_diff :: u64
  code_gen_buffer_size :: u64

definition TCG_PROLOGUE_SIZE :: u64 where
  "TCG_PROLOGUE_SIZE = 1024"

definition is_ptr_in_rw_buf :: "code_buffer \<Rightarrow> u64 \<Rightarrow> bool" where
  "is_ptr_in_rw_buf b p \<longleftrightarrow> tcg_rw_buffer b \<le> p \<and> p < tcg_rw_buffer b + code_gen_buffer_size b + TCG_PROLOGUE_SIZE"

definition is_ptr_in_rx_buf :: "code_buffer \<Rightarrow> u64 \<Rightarrow> bool" where
  "is_ptr_in_rx_buf b p \<longleftrightarrow> tcg_rx_buffer b \<le> p \<and> p < tcg_rx_buffer b + code_gen_buffer_size b + TCG_PROLOGUE_SIZE"

text \<open>None is a failed assertion.\<close>

definition rw_ptr_to_rx :: "code_buffer \<Rightarrow> u64 \<Rightarrow> u64 option" where
  "rw_ptr_to_rx b p =
     (if p = 0 then Some p else if is_ptr_in_rx_buf b (p - tcg_wx_diff b) then Some (p - tcg_wx_diff b) else None)"

definition rx_ptr_to_rw :: "code_buffer \<Rightarrow> u64 \<Rightarrow> u64 option" where
  "rx_ptr_to_rw b p =
     (if p = 0 then Some p else if is_ptr_in_rw_buf b (p + tcg_wx_diff b) then Some (p + tcg_wx_diff b) else None)"

section \<open>The search table\<close>

text \<open>\<^verbatim>\<open>gen_insn_data\<close> holds the guest address of each instruction of the block (one word per instruction on
  this target), \<^verbatim>\<open>gen_insn_end_off\<close> the end of its host code.\<close>

definition encode_search :: "u32 \<Rightarrow> nat \<Rightarrow> (nat \<Rightarrow> u32) \<Rightarrow> (nat \<Rightarrow> u16) \<Rightarrow> u8 list" where
  "encode_search pc n gen_insn_data gen_insn_end_off =
     concat (map (\<lambda>i. encode_sleb128 (gen_insn_data i - (if i = 0 then pc else gen_insn_data (i - 1))) @
                      encode_sleb128 (ucast (gen_insn_end_off i) - (if i = 0 then 0 else ucast (gen_insn_end_off (i - 1)))))
             [0..<n])"

fun get_data_loop :: "bool \<Rightarrow> u64 \<Rightarrow> nat \<Rightarrow> int \<Rightarrow> u32 \<Rightarrow> u64 \<Rightarrow> u8 list \<Rightarrow> bool \<Rightarrow> (int \<times> u32) option" where
  "get_data_loop pc_is_host searched_pc 0 i data host_pc p skip = Some (- 1, data)"
| "get_data_loop pc_is_host searched_pc (Suc left) i data host_pc p skip = do {
     (d, p1) \<leftarrow> decode_sleb128 p;
     (h, p2) \<leftarrow> decode_sleb128 p1;
     let data' = data + d; host_pc' = host_pc + scast h in
       if searched_pc < (if pc_is_host then host_pc' else ucast data')
       then (if skip then get_data_loop pc_is_host searched_pc left (i + 1) data' host_pc' p2 False else Some (i, data'))
       else get_data_loop pc_is_host searched_pc left (i + 1) data' host_pc' p2 skip }"

definition cpu_get_data_for_pc :: "code_buffer \<Rightarrow> TranslationBlock \<Rightarrow> u64 \<Rightarrow> bool \<Rightarrow> bool \<Rightarrow> (int \<times> u32) option" where
  "cpu_get_data_for_pc b tb searched_pc pc_is_host skip = do {
     host_pc \<leftarrow> rw_ptr_to_rx b (blk_tc_ptr tb);
     (if searched_pc < (if pc_is_host then host_pc else ucast (blk_pc tb)) then Some (- 1, blk_pc tb)
      else get_data_loop pc_is_host searched_pc (unat (blk_icount tb)) 1 (blk_pc tb) host_pc (blk_tc_search tb) skip) }"

text \<open>What the lookup is for: the first instruction whose host code ends behind the address, or, when
  the current instruction is to be skipped, the next such one.\<close>

definition row_after :: "nat \<Rightarrow> u64 \<Rightarrow> (nat \<Rightarrow> u64) \<Rightarrow> nat \<Rightarrow> nat option" where
  "row_after n searched cur j = List.find (\<lambda>i. searched < cur i) [j..<n]"

lemma off_delta:
  "scast ((ucast (a :: u16) :: u32) - ucast (b :: u16)) = (ucast a - ucast b :: u64)"
proof -
  have l: "unat x < 65536" for x :: u16 using unsigned_less[of x, where ?'a = nat] by simp
  have u: "unat (ucast x :: u32) = unat x" for x :: u16 using l[of x] by (simp add: unsigned_ucast_eq take_bit_nat_eq_self)
  have s: "sint (ucast x :: u32) = uint x" for x :: u16
    unfolding uint_nat u[symmetric] by (rule sint_eq_int_unat) (use l[of x] in \<open>simp add: u\<close>)
  have "0 \<le> uint x" "uint x < 65536" for x :: u16 using uint_lt2p[of x] by simp_all
  from this[of a] this[of b] have "- 65536 < uint a - uint b \<and> uint a - uint b < 65536" by linarith
  then have "sint ((ucast a :: u32) - ucast b) = uint a - uint b"
    unfolding sint_word_ariths(2) s by (intro signed_take_bit_int_eq_self) simp_all
  then have "scast ((ucast a :: u32) - ucast b) = (word_of_int (uint a - uint b) :: u64)" by (simp only: scast_eq)
  also have "\<dots> = ucast a - ucast b" by (simp only: ucast_eq of_int_diff)
  finally show ?thesis .
qed


text \<open>The table read from row \<^verbatim>\<open>j\<close> on finds the first row behind the address.\<close>

definition search_row :: "u32 \<Rightarrow> (nat \<Rightarrow> u32) \<Rightarrow> (nat \<Rightarrow> u16) \<Rightarrow> nat \<Rightarrow> u8 list" where
  "search_row pc D F i = encode_sleb128 (D i - (if i = 0 then pc else D (i - 1))) @
     encode_sleb128 (ucast (F i) - (if i = 0 then 0 else ucast (F (i - 1))))"

definition row_host :: "u64 \<Rightarrow> (nat \<Rightarrow> u16) \<Rightarrow> nat \<Rightarrow> u64" where
  "row_host base F i = base + ucast (F i)"

lemma get_data_row:
  fixes D F pc base i
  defines "d \<equiv> (if i = 0 then pc else D (i - 1))" and "h \<equiv> (if i = 0 then base else row_host base F (i - 1))"
  shows "get_data_loop k searched (Suc left) x d h (search_row pc D F i @ p) skip =
     (if searched < (if k then row_host base F i else ucast (D i))
      then (if skip then get_data_loop k searched left (x + 1) (D i) (row_host base F i) p False else Some (x, D i))
      else get_data_loop k searched left (x + 1) (D i) (row_host base F i) p skip)"
proof -
  let ?e = "ucast (F i) - (if i = 0 then 0 else ucast (F (i - 1))) :: u32"
  have "scast ?e = (if i = 0 then ucast (F i) else ucast (F i) - ucast (F (i - 1)) :: u64)"
    using off_delta[of "F i" "F (i - 1)"] off_delta[of "F i" 0] by (cases "i = 0") simp_all
  then have "h + scast ?e = row_host base F i" by (simp add: h_def row_host_def)
  then show ?thesis by (simp add: search_row_def decode_encode_sleb128 d_def Let_def)
qed

lemma get_data_rows:
  fixes D F pc base j
  defines "d \<equiv> \<lambda>j. if j = 0 then pc else D (j - 1)" and "h \<equiv> \<lambda>j. if j = 0 then base else row_host base F (j - 1)"
    and "cur \<equiv> \<lambda>k i. if k then row_host base F i else ucast (D i)"
  assumes "j \<le> n"
  shows "get_data_loop k searched (n - j) (int j + 1) (d j) (h j) (concat (map (search_row pc D F) [j..<n]) @ rest) skip =
     (case row_after n searched (cur k) j of
        None \<Rightarrow> Some (- 1, d n)
      | Some i \<Rightarrow> if skip then (case row_after n searched (cur k) (i + 1) of None \<Rightarrow> Some (- 1, d n) | Some i' \<Rightarrow> Some (int i' + 1, D i'))
                 else Some (int i + 1, D i))"
  using assms(4)
proof (induction "n - j" arbitrary: j skip)
  case 0
  then show ?case by (simp add: row_after_def)
next
  case (Suc l)
  then have j: "j < n" by simp
  then have u: "[j..<n] = j # [Suc j..<n]" by (rule upt_conv_Cons)
  have l: "n - j = Suc (n - Suc j)" using j by simp
  have s: "d (Suc j) = D j" "h (Suc j) = row_host base F j" by (simp_all add: d_def h_def)
  note IH = Suc.hyps(1)[of "Suc j"]
  have f: "row_after n searched (cur k) j = (if searched < cur k j then Some j else row_after n searched (cur k) (Suc j))"
    by (simp add: row_after_def u)
  have "get_data_loop k searched (n - j) (int j + 1) (d j) (h j) (concat (map (search_row pc D F) [j..<n]) @ rest) skip =
     (if searched < cur k j
      then (if skip then get_data_loop k searched (n - Suc j) (int (Suc j) + 1) (d (Suc j)) (h (Suc j)) (concat (map (search_row pc D F) [Suc j..<n]) @ rest) False
            else Some (int j + 1, D j))
      else get_data_loop k searched (n - Suc j) (int (Suc j) + 1) (d (Suc j)) (h (Suc j)) (concat (map (search_row pc D F) [Suc j..<n]) @ rest) skip)"
    using get_data_row[of k searched "n - Suc j" "int j + 1" j pc D base F "concat (map (search_row pc D F) [Suc j..<n]) @ rest" skip]
    unfolding l u s by (simp add: d_def h_def cur_def algebra_simps del: get_data_loop.simps)
  then show ?case using IH[of False] IH[of skip] Suc.hyps(2) j by (simp add: f s del: get_data_loop.simps split: option.split)
qed

lemma encode_search_rows: "encode_search pc n D F = concat (map (search_row pc D F) [0..<n])"
  by (auto simp: encode_search_def search_row_def intro!: arg_cong[where f = concat])


text \<open>The table of a block is read back: from the start of its host code the lookup of a host address gives
  the instruction it belongs to.\<close>

lemma get_data_for_host_pc:
  assumes "rw_ptr_to_rx b (blk_tc_ptr tb) = Some base" "blk_tc_search tb = encode_search (blk_pc tb) (unat (blk_icount tb)) D F @ rest"
    "base \<le> searched"
  shows "cpu_get_data_for_pc b tb searched True skip =
     (let n = unat (blk_icount tb); none = Some (- 1, if n = 0 then blk_pc tb else D (n - 1))
      in case row_after n searched (row_host base F) 0 of
           None \<Rightarrow> none
         | Some i \<Rightarrow> if skip then (case row_after n searched (row_host base F) (i + 1) of None \<Rightarrow> none | Some i' \<Rightarrow> Some (int i' + 1, D i'))
                    else Some (int i + 1, D i))"
proof -
  have "\<not> searched < base" using assms(3) by simp
  then have "cpu_get_data_for_pc b tb searched True skip = get_data_loop True searched (unat (blk_icount tb)) 1 (blk_pc tb) base (blk_tc_search tb) skip"
    by (simp add: cpu_get_data_for_pc_def assms(1))
  then show ?thesis using get_data_rows[of 0 "unat (blk_icount tb)" True searched "blk_pc tb" D base F rest skip]
    by (cases skip; cases "row_after (unat (blk_icount tb)) searched (row_host base F) 0")
       (auto simp: assms(2) encode_search_rows Let_def split: option.split)
qed

lemma row_after_Some:
  "row_after n searched cur j = Some i \<longleftrightarrow> j \<le> i \<and> i < n \<and> searched < cur i \<and> (\<forall>l. j \<le> l \<longrightarrow> l < i \<longrightarrow> cur l \<le> searched)"
proof -
  have "row_after n searched cur j = Some i \<longleftrightarrow> (\<exists>m<length [j..<n]. searched < cur ([j..<n] ! m) \<and> i = [j..<n] ! m \<and> (\<forall>l<m. \<not> searched < cur ([j..<n] ! l)))"
    unfolding row_after_def find_Some_iff by blast
  also have "\<dots> \<longleftrightarrow> (\<exists>m<n - j. searched < cur (j + m) \<and> i = j + m \<and> (\<forall>l<m. cur (j + l) \<le> searched))"
    by (auto simp: not_less)
  also have "\<dots> \<longleftrightarrow> j \<le> i \<and> i < n \<and> searched < cur i \<and> (\<forall>l. j \<le> l \<longrightarrow> l < i \<longrightarrow> cur l \<le> searched)"
  proof (intro iffI)
    assume "\<exists>m<n - j. searched < cur (j + m) \<and> i = j + m \<and> (\<forall>l<m. cur (j + l) \<le> searched)"
    then obtain m where m: "m < n - j" "searched < cur (j + m)" "i = j + m" "\<And>l. l < m \<Longrightarrow> cur (j + l) \<le> searched" by blast
    have "cur l \<le> searched" if "j \<le> l" "l < i" for l using m(4)[of "l - j"] m(3) that by simp
    then show "j \<le> i \<and> i < n \<and> searched < cur i \<and> (\<forall>l. j \<le> l \<longrightarrow> l < i \<longrightarrow> cur l \<le> searched)" using m by auto
  next
    assume "j \<le> i \<and> i < n \<and> searched < cur i \<and> (\<forall>l. j \<le> l \<longrightarrow> l < i \<longrightarrow> cur l \<le> searched)"
    then show "\<exists>m<n - j. searched < cur (j + m) \<and> i = j + m \<and> (\<forall>l<m. cur (j + l) \<le> searched)"
      by (intro exI[of _ "i - j"]) auto
  qed
  finally show ?thesis .
qed

section \<open>Restoring the state\<close>

text \<open>The instruction counters of the CPU, which the restored state has to agree with.\<close>

record insn_counters =
  instructions_count_value :: u32
  instructions_count_total_value :: u64
  instructions_count_declaration :: u32

definition cpu_restore_state_from_tb_ex :: "code_buffer \<Rightarrow> CPUState \<Rightarrow> TranslationBlock \<Rightarrow> u64 \<Rightarrow> bool \<Rightarrow> (int \<times> CPUState) option" where
  "cpu_restore_state_from_tb_ex b env tb searched_pc skip = do {
     (insns, data) \<leftarrow> cpu_get_data_for_pc b tb searched_pc True skip;
     Some (insns, if 0 \<le> insns then restore_state_to_opc env [data] else env) }"

definition cpu_restore_state_from_tb :: "code_buffer \<Rightarrow> CPUState \<Rightarrow> TranslationBlock \<Rightarrow> u64 \<Rightarrow> (int \<times> CPUState) option" where
  "cpu_restore_state_from_tb b env tb searched_pc = cpu_restore_state_from_tb_ex b env tb searched_pc False"

definition adjust_instructions_count :: "bool \<Rightarrow> int \<Rightarrow> insn_counters \<Rightarrow> int \<times> insn_counters" where
  "adjust_instructions_count include_last executed c =
     (if executed = - 1 then (- 1, c)
      else let executed' = (if 0 < executed \<and> \<not> include_last then executed - 1 else executed) in
        if executed' \<noteq> - 1
        then (executed', c\<lparr>instructions_count_value := instructions_count_value c + of_int executed',
                instructions_count_total_value := instructions_count_total_value c + of_int executed',
                instructions_count_declaration := 0\<rparr>)
        else (executed', c))"

definition cpu_restore_state_and_restore_instructions_count ::
  "code_buffer \<Rightarrow> CPUState \<Rightarrow> insn_counters \<Rightarrow> TranslationBlock \<Rightarrow> u64 \<Rightarrow> bool \<Rightarrow> (int \<times> CPUState \<times> insn_counters) option" where
  "cpu_restore_state_and_restore_instructions_count b env c tb searched_pc include_last = do {
     (insns, env') \<leftarrow> cpu_restore_state_from_tb_ex b env tb searched_pc False;
     (case adjust_instructions_count include_last insns c of (k, c') \<Rightarrow> Some (k, env', c')) }"

definition cpu_restore_state_to_next_instruction ::
  "code_buffer \<Rightarrow> CPUState \<Rightarrow> insn_counters \<Rightarrow> TranslationBlock \<Rightarrow> u64 \<Rightarrow> (int \<times> CPUState \<times> insn_counters) option" where
  "cpu_restore_state_to_next_instruction b env c tb searched_pc = do {
     (insns, env') \<leftarrow> cpu_restore_state_from_tb_ex b env tb searched_pc True;
     (case adjust_instructions_count False insns c of (k, c') \<Rightarrow> Some (k, env', c')) }"

section \<open>Finding the block\<close>

text \<open>The binary search over the start addresses; \<^verbatim>\<open>tbs\<close> is the used part of the array.\<close>

function tb_search_loop :: "TranslationBlock list \<Rightarrow> u64 \<Rightarrow> int \<Rightarrow> int \<Rightarrow> int" where
  "tb_search_loop tbs tc_ptr m_min m_max =
     (if m_min \<le> m_max
      then let m = (m_min + m_max) div 2; v = blk_tc_ptr (tbs ! nat m)
           in if v = tc_ptr then m
              else if tc_ptr < v then tb_search_loop tbs tc_ptr m_min (m - 1)
              else tb_search_loop tbs tc_ptr (m + 1) m_max
      else m_max)"
  by pat_completeness auto
termination
  by (relation "measure (\<lambda>(_, _, l, h). nat (h + 1 - l))") auto

declare tb_search_loop.simps [simp del]

text \<open>None is a failed assertion, \<^verbatim>\<open>Some None\<close> the NULL result.\<close>

definition tb_find_pc :: "code_buffer \<Rightarrow> u64 \<Rightarrow> TranslationBlock list \<Rightarrow> u64 \<Rightarrow> nat option option" where
  "tb_find_pc b code_gen_ptr tbs tc_ptr0 =
     (if tbs = [] then Some None
      else case (if is_ptr_in_rx_buf b tc_ptr0 then rx_ptr_to_rw b tc_ptr0 else Some tc_ptr0) of
          None \<Rightarrow> None
        | Some tc_ptr \<Rightarrow>
            if tc_ptr < tcg_rw_buffer b \<or> code_gen_ptr \<le> tc_ptr then Some None
            else Some (Some (nat (tb_search_loop tbs tc_ptr 0 (int (length tbs) - 1)))))"

definition cpu_restore_state ::
  "code_buffer \<Rightarrow> u64 \<Rightarrow> TranslationBlock list \<Rightarrow> CPUState \<Rightarrow> insn_counters \<Rightarrow> u64 \<Rightarrow> (CPUState \<times> insn_counters) option" where
  "cpu_restore_state b code_gen_ptr tbs env c retaddr =
     (if retaddr = 0 then Some (env, c)
      else do {
        r \<leftarrow> tb_find_pc b code_gen_ptr tbs retaddr;
        (case r of
           None \<Rightarrow> Some (env, c)
         | Some i \<Rightarrow> map_option snd (cpu_restore_state_and_restore_instructions_count b env c (tbs ! i) retaddr True)) })"

text \<open>The search gives the last block that starts at or before the address.\<close>

definition starts_sorted :: "TranslationBlock list \<Rightarrow> bool" where
  "starts_sorted tbs \<longleftrightarrow> sorted_wrt (<) (map blk_tc_ptr tbs)"

lemma starts_less: "starts_sorted tbs \<Longrightarrow> i < j \<Longrightarrow> j < length tbs \<Longrightarrow> blk_tc_ptr (tbs ! i) < blk_tc_ptr (tbs ! j)"
  unfolding starts_sorted_def by (auto simp: sorted_wrt_iff_nth_less)

lemma tb_search_loop:
  assumes "starts_sorted tbs" "0 \<le> l" "h < int (length tbs)" "l \<le> h + 1"
    "\<And>i. int i < l \<Longrightarrow> blk_tc_ptr (tbs ! i) \<le> p" "\<And>i. h < int i \<Longrightarrow> i < length tbs \<Longrightarrow> p < blk_tc_ptr (tbs ! i)"
    "blk_tc_ptr (tbs ! 0) \<le> p" "tbs \<noteq> []"
  shows "0 \<le> tb_search_loop tbs p l h \<and> tb_search_loop tbs p l h < int (length tbs) \<and>
    blk_tc_ptr (tbs ! nat (tb_search_loop tbs p l h)) \<le> p \<and>
    (\<forall>i<length tbs. tb_search_loop tbs p l h < int i \<longrightarrow> p < blk_tc_ptr (tbs ! i))"
  using assms
proof (induction tbs p l h rule: tb_search_loop.induct)
  case (1 tbs p l h)
  let ?m = "(l + h) div 2"
  show ?case
  proof (cases "l \<le> h")
    case True
    then have m: "l \<le> ?m" "?m \<le> h" by auto
    have lt: "blk_tc_ptr (tbs ! i) < blk_tc_ptr (tbs ! nat ?m)" if "int i < ?m" for i
      using starts_less[OF "1.prems"(1), of i "nat ?m"] that m "1.prems"(2,3) by simp
    have gt: "blk_tc_ptr (tbs ! nat ?m) < blk_tc_ptr (tbs ! i)" if "?m < int i" "i < length tbs" for i
      using starts_less[OF "1.prems"(1), of "nat ?m" i] that m "1.prems"(2) by simp
    have eq: "tb_search_loop tbs p l h = (if blk_tc_ptr (tbs ! nat ?m) = p then ?m
        else if p < blk_tc_ptr (tbs ! nat ?m) then tb_search_loop tbs p l (?m - 1) else tb_search_loop tbs p (?m + 1) h)"
      using True by (subst tb_search_loop.simps) (simp add: Let_def)
    consider "blk_tc_ptr (tbs ! nat ?m) = p" | "p < blk_tc_ptr (tbs ! nat ?m)" | "blk_tc_ptr (tbs ! nat ?m) < p" by fastforce
    then show ?thesis
    proof cases
      case 1
      then have "tb_search_loop tbs p l h = ?m" by (simp add: eq)
      then show ?thesis using m \<open>0 \<le> l\<close> \<open>h < int (length tbs)\<close> gt 1 by auto
    next
      case 2
      then have "p < blk_tc_ptr (tbs ! i)" if "?m - 1 < int i" "i < length tbs" for i
        using gt[of i] that nat_int[of i] by (cases "int i = ?m") auto
      moreover have "tb_search_loop tbs p l h = tb_search_loop tbs p l (?m - 1)" using 2 unfolding eq by auto
      ultimately show ?thesis using "1.IH"(1)[OF True refl refl _ 2 "1.prems"(1,2) _ _ "1.prems"(5) _ "1.prems"(7,8)] m 2 "1.prems"(3) by auto
    next
      case 3
      then have "blk_tc_ptr (tbs ! i) \<le> p" if "int i < ?m + 1" for i
        using lt[of i] that nat_int[of i] by (cases "int i = ?m") auto
      moreover have "tb_search_loop tbs p l h = tb_search_loop tbs p (?m + 1) h" using 3 unfolding eq by auto
      ultimately show ?thesis
        using "1.IH"(2)[OF True refl refl _ _ "1.prems"(1) _ "1.prems"(3) _ _ "1.prems"(6,7,8)] m 3 "1.prems"(2) by auto
    qed
  next
    case False
    then have h: "tb_search_loop tbs p l h = h" "l = h + 1" using "1.prems"(4) by (simp add: tb_search_loop.simps, linarith)
    have "0 \<le> h"
    proof (rule ccontr)
      assume "\<not> 0 \<le> h"
      then have "p < blk_tc_ptr (tbs ! 0)" using "1.prems"(6)[of 0] "1.prems"(8) by simp
      then show False using "1.prems"(7) by simp
    qed
    then show ?thesis using h "1.prems"(3,5,6) by (auto simp: "1.prems"(5)[of "nat h"])
  qed
qed


lemma tb_find_pc_last:
  assumes "starts_sorted tbs" "tbs \<noteq> []" "blk_tc_ptr (tbs ! 0) = tcg_rw_buffer b" "tcg_rw_buffer b \<le> p" "p < code_gen_ptr"
    and p0: "(if is_ptr_in_rx_buf b p0 then rx_ptr_to_rw b p0 else Some p0) = Some p"
  shows "\<exists>i<length tbs. tb_find_pc b code_gen_ptr tbs p0 = Some (Some i) \<and> blk_tc_ptr (tbs ! i) \<le> p \<and>
    (i + 1 < length tbs \<longrightarrow> p < blk_tc_ptr (tbs ! (i + 1)))"
proof -
  let ?r = "tb_search_loop tbs p 0 (int (length tbs) - 1)"
  have r: "0 \<le> ?r" "?r < int (length tbs)" "blk_tc_ptr (tbs ! nat ?r) \<le> p" "\<forall>i<length tbs. ?r < int i \<longrightarrow> p < blk_tc_ptr (tbs ! i)"
    using tb_search_loop[of tbs 0 "int (length tbs) - 1" p] assms(1-4) by auto
  have "tb_find_pc b code_gen_ptr tbs p0 = Some (Some (nat ?r))"
    using assms(2,4,5) p0 unfolding tb_find_pc_def by (auto simp: not_less)
  then show ?thesis using r by (intro exI[of _ "nat ?r"]) auto
qed

text \<open>A pointer into the executable view names the same byte in the writable view.\<close>

lemma rx_rw_roundtrip:
  assumes "tcg_wx_diff b = tcg_rw_buffer b - tcg_rx_buffer b" "rw_ptr_to_rx b p = Some q" "p \<noteq> 0" "q \<noteq> 0" "is_ptr_in_rw_buf b p"
  shows "rx_ptr_to_rw b q = Some p"
  using assms by (auto simp: rw_ptr_to_rx_def rx_ptr_to_rw_def split: if_splits)

text \<open>The state of a fault in the host code of an instruction: its guest address, and the instructions
  up to it counted.\<close>

lemma restore_state_at:
  assumes "rw_ptr_to_rx b (blk_tc_ptr tb) = Some base" "blk_tc_search tb = encode_search (blk_pc tb) (unat (blk_icount tb)) D F @ rest"
    "base \<le> searched" "i < unat (blk_icount tb)" "searched < row_host base F i" "\<And>l. l < i \<Longrightarrow> row_host base F l \<le> searched"
  shows "cpu_restore_state_and_restore_instructions_count b env c tb searched True =
    Some (int i + 1, env\<lparr>env_pc := D i\<rparr>, c\<lparr>instructions_count_value := instructions_count_value c + of_nat (i + 1),
       instructions_count_total_value := instructions_count_total_value c + of_nat (i + 1), instructions_count_declaration := 0\<rparr>)"
proof -
  have "row_after (unat (blk_icount tb)) searched (row_host base F) 0 = Some i" using assms(4-6) by (auto simp: row_after_Some)
  then show ?thesis using get_data_for_host_pc[OF assms(1-3), of False]
    by (simp add: cpu_restore_state_and_restore_instructions_count_def cpu_restore_state_from_tb_ex_def restore_state_to_opc_def
        adjust_instructions_count_def Let_def algebra_simps)
qed

end
