(* ===== verification/TB_Cache.thy ===== *)
theory TB_Cache
  imports TB_Search
begin

text \<open>The cache of translation blocks (\<^verbatim>\<open>src/cpu-exec.c\<close>, \<^verbatim>\<open>src/exec.c\<close>, \<^verbatim>\<open>src/include/exec-all.h\<close>):
  allocation, lookup by virtual and physical program counter, the page lists, direct
  jumps between blocks, and invalidation. What the translator and the host back end produce for a
  block, host memory allocation and the TLB are parameters.\<close>

section \<open>State\<close>

record PageDesc =
  first_tb :: "(nat \<times> nat) option"
  code_write_count :: nat
  code_bitmap :: "u8 list option"

record tb_state =
  tbs :: "nat \<Rightarrow> TranslationBlock"
  nb_tbs :: nat
  code_gen_ptr :: u64
  tb_phys_hash :: "nat \<Rightarrow> nat option"
  tb_jmp_cache :: "nat \<Rightarrow> nat option"
  l1_map :: "nat \<Rightarrow> (nat \<Rightarrow> PageDesc) option"
  tb_invalidated_flag :: bool
  tb_phys_invalidate_count :: nat
  tb_flush_count :: nat
  code_buf :: code_buffer
  code_gen_buffer_max_size :: u64
  code_gen_max_blocks :: nat

text \<open>What the host gives: memory for the code buffer and the sizes the back end reserves.\<close>

record host_memory =
  alloc_code_gen_buf :: "u64 \<Rightarrow> (u64 \<times> u64) option"
  translation_cache_size_min :: u64
  translation_cache_size_max :: u64
  MAX_CODE_GEN_BUFFER_SIZE :: u64
  TCG_MAX_CODE_SIZE :: u64
  TCG_MAX_SEARCH_SIZE :: u64

text \<open>What \<^verbatim>\<open>cpu_gen_code\<close> makes of a block.\<close>

record translated =
  tr_icount :: u32
  tr_size :: u16
  tr_was_cut :: bool
  tr_code_size :: u64
  tr_insn_data :: "nat \<Rightarrow> u32"
  tr_insn_end_off :: "nat \<Rightarrow> u16"

definition CODE_GEN_PHYS_HASH_SIZE :: u64 where
  "CODE_GEN_PHYS_HASH_SIZE = push_bit 15 1"

definition CODE_GEN_AVG_BLOCK_SIZE :: u64 where
  "CODE_GEN_AVG_BLOCK_SIZE = 128"

definition CODE_GEN_ALIGN :: u64 where
  "CODE_GEN_ALIGN = 16"

definition EXIT_TB_NO_JUMP :: nat where
  "EXIT_TB_NO_JUMP = 0"

definition EXIT_TB_FORCE :: nat where
  "EXIT_TB_FORCE = 2"

definition IO_MEM_EXECUTABLE_IO :: u64 where
  "IO_MEM_EXECUTABLE_IO = push_bit 3 8"

section \<open>Hashes\<close>

text \<open>\<^verbatim>\<open>TARGET_PAGE_BITS\<close> is 8 and \<^verbatim>\<open>TB_JMP_PAGE_BITS\<close> is 6.\<close>

definition tb_jmp_cache_hash_func :: "u32 \<Rightarrow> nat" where
  "tb_jmp_cache_hash_func pc =
     (let tmp = pc XOR drop_bit (8 - 6) pc
      in unat ((drop_bit (8 - 6) tmp AND 0xFC0) OR (tmp AND 0x3F)))"

definition tb_phys_hash_func :: "u64 \<Rightarrow> nat" where
  "tb_phys_hash_func pc = unat (drop_bit 2 pc AND (CODE_GEN_PHYS_HASH_SIZE - 1))"

section \<open>Memory accesses of the lists\<close>

definition upd_tb :: "nat \<Rightarrow> (TranslationBlock \<Rightarrow> TranslationBlock) \<Rightarrow> tb_state \<Rightarrow> tb_state" where
  "upd_tb i f s = s\<lparr>tbs := (tbs s)(i := f (tbs s i))\<rparr>"

text \<open>A pointer to a pointer of the hash list: the head of a bucket or the link of a block.\<close>

datatype tb_slot = Slot_hash nat | Slot_next nat

fun read_slot :: "tb_state \<Rightarrow> tb_slot \<Rightarrow> nat option" where
  "read_slot s (Slot_hash h) = tb_phys_hash s h"
| "read_slot s (Slot_next i) = blk_phys_hash_next (tbs s i)"

fun write_slot :: "tb_slot \<Rightarrow> nat option \<Rightarrow> tb_state \<Rightarrow> tb_state" where
  "write_slot (Slot_hash h) v s = s\<lparr>tb_phys_hash := (tb_phys_hash s)(h := v)\<rparr>"
| "write_slot (Slot_next i) v s = upd_tb i (\<lambda>b. b\<lparr>blk_phys_hash_next := v\<rparr>) s"

section \<open>Page descriptors\<close>

text \<open>With a 20-bit address space and 256-byte pages the first level has 2^12 entries, the second
  2^10 and there is no level in between.\<close>

definition page_init_desc :: PageDesc where
  "page_init_desc = \<lparr>first_tb = None, code_write_count = 0, code_bitmap = None\<rparr>"

definition page_find :: "u64 \<Rightarrow> tb_state \<Rightarrow> PageDesc option" where
  "page_find index s = map_option (\<lambda>pd. pd (unat (index AND 0x3FF))) (l1_map s (unat (index AND 0xFFF)))"

definition page_alloc :: "u64 \<Rightarrow> tb_state \<Rightarrow> tb_state" where
  "page_alloc index s =
     (case l1_map s (unat (index AND 0xFFF)) of
        None \<Rightarrow> s\<lparr>l1_map := (l1_map s)(unat (index AND 0xFFF) \<mapsto> (\<lambda>_. page_init_desc))\<rparr>
      | Some _ \<Rightarrow> s)"

definition page_upd :: "u64 \<Rightarrow> (PageDesc \<Rightarrow> PageDesc) \<Rightarrow> tb_state \<Rightarrow> tb_state" where
  "page_upd index f s =
     (case l1_map s (unat (index AND 0xFFF)) of
        None \<Rightarrow> s
      | Some pd \<Rightarrow> s\<lparr>l1_map := (l1_map s)(unat (index AND 0xFFF) \<mapsto>
                     pd(unat (index AND 0x3FF) := f (pd (unat (index AND 0x3FF)))))\<rparr>)"

definition invalidate_page_bitmap :: "PageDesc \<Rightarrow> PageDesc" where
  "invalidate_page_bitmap p = p\<lparr>code_bitmap := None, code_write_count := 0\<rparr>"

definition page_flush_tb :: "tb_state \<Rightarrow> tb_state" where
  "page_flush_tb s = s\<lparr>l1_map := (\<lambda>i. map_option (\<lambda>pd j. invalidate_page_bitmap ((pd j)\<lparr>first_tb := None\<rparr>)) (l1_map s i))\<rparr>"

section \<open>Allocation\<close>

text \<open>NULL is None. The array is zeroed for the block; \<^verbatim>\<open>zero_tb\<close> is that block.\<close>

definition zero_tb :: TranslationBlock where
  "zero_tb = \<lparr>blk_pc = 0, blk_cs_base = 0, blk_flags = 0, blk_dirty_flag = False, blk_size = 0, blk_cflags = 0,
     blk_tc_ptr = 0, blk_tc_search = [], blk_phys_hash_next = None, blk_page_next = (\<lambda>_. None), blk_page_addr = (\<lambda>_. 0),
     blk_jmp_next = (\<lambda>_. None), blk_jmp_first = None, blk_jmp_target = (\<lambda>_. None), blk_icount = 0, blk_was_cut = False\<rparr>"

definition tb_alloc :: "u32 \<Rightarrow> tb_state \<Rightarrow> (nat \<times> tb_state) option" where
  "tb_alloc pc s =
     (if code_gen_max_blocks s \<le> nb_tbs s \<or> code_gen_buffer_max_size s \<le> code_gen_ptr s - tcg_rw_buffer (code_buf s) then None
      else Some (nb_tbs s, s\<lparr>nb_tbs := nb_tbs s + 1, tbs := (tbs s)(nb_tbs s := zero_tb\<lparr>blk_pc := pc\<rparr>)\<rparr>))"

definition tb_free :: "nat \<Rightarrow> tb_state \<Rightarrow> tb_state" where
  "tb_free tb s =
     (if 0 < nb_tbs s \<and> tb = nb_tbs s - 1 then s\<lparr>code_gen_ptr := blk_tc_ptr (tbs s tb), nb_tbs := nb_tbs s - 1\<rparr> else s)"

text \<open>None is the internal error of a code buffer overflow.\<close>

definition tb_flush :: "tb_state \<Rightarrow> tb_state option" where
  "tb_flush s =
     (if code_gen_buffer_size (code_buf s) < code_gen_ptr s - tcg_rw_buffer (code_buf s) then None
      else Some ((page_flush_tb (s\<lparr>nb_tbs := 0, tb_jmp_cache := (\<lambda>_. None), tb_phys_hash := (\<lambda>_. None)\<rparr>))
        \<lparr>code_gen_ptr := tcg_rw_buffer (code_buf s), tb_flush_count := tb_flush_count s + 1\<rparr>))"

definition code_gen_alloc :: "host_memory \<Rightarrow> tb_state \<Rightarrow> tb_state option" where
  "code_gen_alloc hm s =
     (let size0 = code_gen_buffer_size (code_buf s);
          size1 = (if size0 < translation_cache_size_min hm then translation_cache_size_min hm else size0);
          size = (if translation_cache_size_max hm < size1 then translation_cache_size_max hm else size1)
      in case alloc_code_gen_buf hm (size + TCG_PROLOGUE_SIZE) of
           None \<Rightarrow> None
         | Some (rw, rx) \<Rightarrow>
             Some (s\<lparr>code_buf := \<lparr>tcg_rw_buffer = rw, tcg_rx_buffer = rx, tcg_wx_diff = rw - rx, code_gen_buffer_size = size\<rparr>,
                     code_gen_buffer_max_size := size - TCG_MAX_CODE_SIZE hm - TCG_MAX_SEARCH_SIZE hm,
                     code_gen_max_blocks := unat (size div CODE_GEN_AVG_BLOCK_SIZE)\<rparr>))"

text \<open>Both attempts failing aborts (None). A failed attempt leaves the clamped size behind, as the code does.\<close>

definition code_gen_try_expand :: "host_memory \<Rightarrow> tb_state \<Rightarrow> (bool \<times> tb_state) option" where
  "code_gen_try_expand hm s =
     (if MAX_CODE_GEN_BUFFER_SIZE hm \<le> code_gen_buffer_size (code_buf s) then Some (False, s)
      else let set = (\<lambda>n s. s\<lparr>code_buf := (code_buf s)\<lparr>code_gen_buffer_size := n\<rparr>\<rparr>);
               clamp = (\<lambda>n. let m = (if n < translation_cache_size_min hm then translation_cache_size_min hm else n)
                            in if translation_cache_size_max hm < m then translation_cache_size_max hm else m);
               s1 = set (code_gen_buffer_size (code_buf s) * 2) s
           in case code_gen_alloc hm s1 of
                Some s2 \<Rightarrow> Some (True, s2\<lparr>code_gen_ptr := tcg_rw_buffer (code_buf s2)\<rparr>)
              | None \<Rightarrow>
                  (case code_gen_alloc hm (set (clamp (code_gen_buffer_size (code_buf s1)) div 2) s1) of
                     Some s2 \<Rightarrow> Some (False, s2\<lparr>code_gen_ptr := tcg_rw_buffer (code_buf s2)\<rparr>)
                   | None \<Rightarrow> None))"

section \<open>Linking a block\<close>

text \<open>Write protection of the page in the TLB is left out.\<close>

definition tb_alloc_page :: "nat \<Rightarrow> nat \<Rightarrow> u64 \<Rightarrow> tb_state \<Rightarrow> tb_state" where
  "tb_alloc_page tb n page_addr0 s =
     (let page_addr = page_addr0 AND NOT IO_MEM_EXECUTABLE_IO;
          index = drop_bit 8 page_addr;
          s1 = page_alloc index (upd_tb tb (\<lambda>b. b\<lparr>blk_page_addr := (blk_page_addr b)(n := page_addr)\<rparr>) s);
          first = (case page_find index s1 of Some p \<Rightarrow> first_tb p | None \<Rightarrow> None);
          s2 = upd_tb tb (\<lambda>b. b\<lparr>blk_page_next := (blk_page_next b)(n := first)\<rparr>) s1
      in page_upd index (\<lambda>p. invalidate_page_bitmap (p\<lparr>first_tb := Some (tb, n)\<rparr>)) s2)"

definition tb_reset_jump :: "nat \<Rightarrow> nat \<Rightarrow> tb_state \<Rightarrow> tb_state" where
  "tb_reset_jump tb n s = upd_tb tb (\<lambda>b. b\<lparr>blk_jmp_target := (blk_jmp_target b)(n := None)\<rparr>) s"

text \<open>-1 as the second page says that the block lies on one page. The branches of a block without direct jumps
  (\<^verbatim>\<open>tb_next_offset\<close> 0xffff) do not exist, so that resetting both is the same.\<close>

definition tb_link_page :: "nat \<Rightarrow> u64 \<Rightarrow> u64 \<Rightarrow> tb_state \<Rightarrow> tb_state" where
  "tb_link_page tb phys_page1 phys_page2 s =
     (let s1 = tb_alloc_page tb 0 phys_page1 s;
          s2 = (if phys_page2 \<noteq> - 1 then tb_alloc_page tb 1 phys_page2 s1
                else upd_tb tb (\<lambda>b. b\<lparr>blk_page_addr := (blk_page_addr b)(1 := - 1)\<rparr>) s1);
          s3 = upd_tb tb (\<lambda>b. b\<lparr>blk_jmp_first := Some (tb, EXIT_TB_FORCE), blk_jmp_next := (\<lambda>_. None)\<rparr>) s2
      in tb_reset_jump tb 1 (tb_reset_jump tb 0 s3))"

definition TARGET_PAGE_MASK32 :: u32 where
  "TARGET_PAGE_MASK32 = NOT (mask 8)"

text \<open>\<^verbatim>\<open>page_addr_code\<close> is \<^verbatim>\<open>get_page_addr_code\<close>, \<^verbatim>\<open>translate\<close> is \<^verbatim>\<open>cpu_gen_code\<close>. None is an abort, or the NULL
  dereference of a block that cannot be allocated in an empty cache.\<close>

definition tb_gen_code :: "host_memory \<Rightarrow> (u32 \<Rightarrow> u64) \<Rightarrow> (u32 \<Rightarrow> u64 \<Rightarrow> translated) \<Rightarrow> u32 \<Rightarrow> u32 \<Rightarrow> u64 \<Rightarrow> u16 \<Rightarrow>
    tb_state \<Rightarrow> (nat \<times> tb_state) option" where
  "tb_gen_code hm page_addr_code translate pc cs_base flags cflags s = do {
     (tb, s1) \<leftarrow> (case tb_alloc pc s of
         Some r \<Rightarrow> Some r
       | None \<Rightarrow> do {
           f \<leftarrow> tb_flush s;
           (_, x) \<leftarrow> code_gen_try_expand hm f;
           (tb, a) \<leftarrow> tb_alloc pc x;
           Some (tb, a\<lparr>tb_invalidated_flag := True\<rparr>) });
     let t = translate pc flags;
         search = encode_search pc (unat (tr_icount t)) (tr_insn_data t) (tr_insn_end_off t);
         s2 = upd_tb tb (\<lambda>b. b\<lparr>blk_tc_ptr := code_gen_ptr s1, blk_cs_base := cs_base, blk_flags := flags, blk_cflags := cflags,
                blk_icount := tr_icount t, blk_size := tr_size t, blk_was_cut := tr_was_cut t, blk_tc_search := search\<rparr>) s1;
         s3 = s2\<lparr>code_gen_ptr := (code_gen_ptr s2 + tr_code_size t + of_nat (length search) + CODE_GEN_ALIGN - 1) AND NOT (CODE_GEN_ALIGN - 1)\<rparr>;
         virt_page2 = (pc + ucast (tr_size t) - 1) AND TARGET_PAGE_MASK32;
         phys_page2 = (if 0 < tr_size t \<and> pc AND TARGET_PAGE_MASK32 \<noteq> virt_page2 then page_addr_code virt_page2 else - 1)
     in Some (tb, tb_link_page tb (page_addr_code pc) phys_page2 s3) }"

section \<open>The hash list\<close>

text \<open>A walk along a list may not end in a damaged one: None.\<close>

partial_function (option) tb_remove :: "nat \<Rightarrow> tb_slot \<Rightarrow> tb_state \<Rightarrow> (bool \<times> tb_state) option" where
  "tb_remove tb ptb s =
     (case read_slot s ptb of
        None \<Rightarrow> Some (False, s)
      | Some tb1 \<Rightarrow> if tb1 = tb then Some (True, write_slot ptb (blk_phys_hash_next (tbs s tb1)) s)
                    else tb_remove tb (Slot_next tb1) s)"

definition tb_blocks_related :: "TranslationBlock \<Rightarrow> TranslationBlock \<Rightarrow> bool" where
  "tb_blocks_related tb1 tb2 \<longleftrightarrow>
     blk_pc tb1 = blk_pc tb2 \<and> blk_page_addr tb1 0 = blk_page_addr tb2 0 \<and> blk_cs_base tb1 = blk_cs_base tb2 \<and>
     blk_flags tb1 = blk_flags tb2 \<and> (blk_page_addr tb2 1 = - 1 \<or> blk_page_addr tb1 1 = blk_page_addr tb2 1)"

partial_function (option) hash_insert_loop :: "nat \<Rightarrow> tb_slot \<Rightarrow> tb_state \<Rightarrow> tb_slot option" where
  "hash_insert_loop tb ptb s =
     (case read_slot s ptb of
        None \<Rightarrow> Some ptb
      | Some act \<Rightarrow> if tb_blocks_related (tbs s tb) (tbs s act) \<and> blk_icount (tbs s act) \<le> blk_icount (tbs s tb) then Some ptb
                    else hash_insert_loop tb (Slot_next act) s)"

definition phys_pc_hash :: "u64 \<Rightarrow> u32 \<Rightarrow> nat" where
  "phys_pc_hash phys_page pc = tb_phys_hash_func (phys_page OR ucast (pc AND NOT TARGET_PAGE_MASK32))"

definition tb_phys_hash_insert :: "(u32 \<Rightarrow> u64) \<Rightarrow> nat \<Rightarrow> tb_state \<Rightarrow> tb_state option" where
  "tb_phys_hash_insert page_addr_code tb s = do {
     ptb \<leftarrow> hash_insert_loop tb (Slot_hash (phys_pc_hash (page_addr_code (blk_pc (tbs s tb))) (blk_pc (tbs s tb)))) s;
     let old = read_slot s ptb;
         s1 = upd_tb tb (\<lambda>b. b\<lparr>blk_phys_hash_next := old\<rparr>) s
     in Some (write_slot ptb (Some tb) s1) }"

text \<open>The walk of \<^verbatim>\<open>tb_find_slow\<close>: the slot it stopped at, the block found, and the last related block that was
  too long.\<close>

definition tb_matches :: "u32 \<Rightarrow> u32 \<Rightarrow> u64 \<Rightarrow> u64 \<Rightarrow> TranslationBlock \<Rightarrow> bool" where
  "tb_matches pc cs_base flags phys_page1 tb \<longleftrightarrow>
     blk_pc tb = pc \<and> blk_page_addr tb 0 = phys_page1 \<and> blk_cs_base tb = cs_base \<and> blk_flags tb = flags"

definition tb_second_page_ok :: "(u32 \<Rightarrow> u64) \<Rightarrow> u32 \<Rightarrow> TranslationBlock \<Rightarrow> bool" where
  "tb_second_page_ok page_addr_code pc tb \<longleftrightarrow>
     blk_page_addr tb 1 = - 1 \<or> blk_page_addr tb 1 = page_addr_code ((pc AND TARGET_PAGE_MASK32) + 256)"

partial_function (option) find_slow_loop ::
  "(u32 \<Rightarrow> u64) \<Rightarrow> u32 \<Rightarrow> u32 \<Rightarrow> u64 \<Rightarrow> u32 \<Rightarrow> tb_slot \<Rightarrow> nat option \<Rightarrow> tb_state \<Rightarrow> (tb_slot \<times> nat option \<times> nat option) option" where
  "find_slow_loop page_addr_code pc cs_base flags max_icount ptb1 prev s =
     (case read_slot s ptb1 of
        None \<Rightarrow> Some (ptb1, None, prev)
      | Some tb \<Rightarrow>
          let b = tbs s tb
          in if tb_matches pc cs_base flags (page_addr_code pc) b
             then if blk_icount b \<le> max_icount
                  then if tb_second_page_ok page_addr_code pc b then Some (ptb1, Some tb, prev)
                       else find_slow_loop page_addr_code pc cs_base flags max_icount (Slot_next tb) prev s
                  else find_slow_loop page_addr_code pc cs_base flags max_icount (Slot_next tb) (Some tb) s
             else find_slow_loop page_addr_code pc cs_base flags max_icount (Slot_next tb) prev s)"

text \<open>Moving the block found to the front of its bucket, or behind the longer related block.\<close>

definition hash_relink :: "nat \<Rightarrow> tb_slot \<Rightarrow> nat option \<Rightarrow> nat \<Rightarrow> tb_state \<Rightarrow> tb_state" where
  "hash_relink h ptb1 prev tb s =
     (case prev of
        Some p \<Rightarrow>
          if blk_was_cut (tbs s tb)
          then (let s1 = write_slot ptb1 (blk_phys_hash_next (tbs s tb)) s;
                    s2 = upd_tb tb (\<lambda>b. b\<lparr>blk_phys_hash_next := blk_phys_hash_next (tbs s1 p)\<rparr>) s1
                in upd_tb p (\<lambda>b. b\<lparr>blk_phys_hash_next := Some tb\<rparr>) s2)
          else (let s1 = write_slot ptb1 (blk_phys_hash_next (tbs s tb)) s;
                    s2 = upd_tb tb (\<lambda>b. b\<lparr>blk_phys_hash_next := tb_phys_hash s1 h\<rparr>) s1
                in s2\<lparr>tb_phys_hash := (tb_phys_hash s2)(h := Some tb)\<rparr>)
      | None \<Rightarrow>
          (let s1 = write_slot ptb1 (blk_phys_hash_next (tbs s tb)) s;
               s2 = upd_tb tb (\<lambda>b. b\<lparr>blk_phys_hash_next := tb_phys_hash s1 h\<rparr>) s1
           in s2\<lparr>tb_phys_hash := (tb_phys_hash s2)(h := Some tb)\<rparr>))"

definition tb_find_slow :: "host_memory \<Rightarrow> (u32 \<Rightarrow> u64) \<Rightarrow> (u32 \<Rightarrow> u64 \<Rightarrow> translated) \<Rightarrow> bool \<Rightarrow> u32 \<Rightarrow> u32 \<Rightarrow> u32 \<Rightarrow> u64 \<Rightarrow>
    tb_state \<Rightarrow> (nat \<times> tb_state) option" where
  "tb_find_slow hm page_addr_code translate cache_disabled max_icount pc cs_base flags s0 = do {
     let s = s0\<lparr>tb_invalidated_flag := False\<rparr>;
     let h = phys_pc_hash (page_addr_code pc) pc;
     (ptb1, found, prev) \<leftarrow> (if cache_disabled then Some (Slot_hash h, None, None)
        else find_slow_loop page_addr_code pc cs_base flags max_icount (Slot_hash h) None s);
     (tb, ptb, prev', s1) \<leftarrow> (case found of
         Some tb \<Rightarrow> Some (tb, ptb1, prev, s)
       | None \<Rightarrow> do {
           (tb, s1) \<leftarrow> tb_gen_code hm page_addr_code translate pc cs_base flags 0 s;
           Some (if tb_invalidated_flag s1 then (tb, Slot_hash h, None, s1) else (tb, ptb1, prev, s1)) });
     let s2 = hash_relink h ptb prev' tb s1
     in Some (tb, s2\<lparr>tb_jmp_cache := (tb_jmp_cache s2)(tb_jmp_cache_hash_func pc := Some tb)\<rparr>) }"

text \<open>\<^verbatim>\<open>max_icount\<close> is what is left of the instruction limit.\<close>

definition tb_find_fast :: "host_memory \<Rightarrow> (u32 \<Rightarrow> u64) \<Rightarrow> (u32 \<Rightarrow> u64 \<Rightarrow> translated) \<Rightarrow> bool \<Rightarrow> u32 \<Rightarrow> u32 \<Rightarrow> u32 \<Rightarrow> u64 \<Rightarrow>
    tb_state \<Rightarrow> (nat \<times> tb_state) option" where
  "tb_find_fast hm page_addr_code translate cache_disabled max_icount pc cs_base flags s =
     (case tb_jmp_cache s (tb_jmp_cache_hash_func pc) of
        None \<Rightarrow> tb_find_slow hm page_addr_code translate cache_disabled max_icount pc cs_base flags s
      | Some tb \<Rightarrow>
          let b = tbs s tb
          in if blk_pc b \<noteq> pc \<or> blk_cs_base b \<noteq> cs_base \<or> blk_flags b \<noteq> flags \<or> cache_disabled \<or>
                (blk_was_cut b \<and> blk_icount b < max_icount) \<or> max_icount < blk_icount b
             then tb_find_slow hm page_addr_code translate cache_disabled max_icount pc cs_base flags s
             else Some (tb, s))"

section \<open>Direct jumps\<close>

definition tb_add_jump :: "nat \<Rightarrow> nat \<Rightarrow> nat \<Rightarrow> tb_state \<Rightarrow> tb_state" where
  "tb_add_jump tb n tb_next s =
     (if blk_jmp_next (tbs s tb) n = None
      then let s1 = upd_tb tb (\<lambda>b. b\<lparr>blk_jmp_target := (blk_jmp_target b)(n := Some tb_next)\<rparr>) s;
               s2 = upd_tb tb (\<lambda>b. b\<lparr>blk_jmp_next := (blk_jmp_next b)(n := blk_jmp_first (tbs s1 tb_next))\<rparr>) s1
           in upd_tb tb_next (\<lambda>b. b\<lparr>blk_jmp_first := Some (tb, n)\<rparr>) s2
      else s)"

text \<open>A cell of the circular list: a link of a branch or the head of the list of a block.\<close>

datatype jmp_slot = Jmp_next nat nat | Jmp_first nat

fun read_jmp :: "tb_state \<Rightarrow> jmp_slot \<Rightarrow> (nat \<times> nat) option" where
  "read_jmp s (Jmp_next i n) = blk_jmp_next (tbs s i) n"
| "read_jmp s (Jmp_first i) = blk_jmp_first (tbs s i)"

fun write_jmp :: "jmp_slot \<Rightarrow> (nat \<times> nat) option \<Rightarrow> tb_state \<Rightarrow> tb_state" where
  "write_jmp (Jmp_next i n) v s = upd_tb i (\<lambda>b. b\<lparr>blk_jmp_next := (blk_jmp_next b)(n := v)\<rparr>) s"
| "write_jmp (Jmp_first i) v s = upd_tb i (\<lambda>b. b\<lparr>blk_jmp_first := v\<rparr>) s"

text \<open>Looking for the cell that points to the branch; a NULL link in the list is a NULL dereference (None).\<close>

partial_function (option) jmp_remove_loop :: "nat \<Rightarrow> nat \<Rightarrow> jmp_slot \<Rightarrow> tb_state \<Rightarrow> jmp_slot option" where
  "jmp_remove_loop tb n ptb s =
     (case read_jmp s ptb of
        None \<Rightarrow> None
      | Some (tb1, n1) \<Rightarrow>
          if n1 = n \<and> tb1 = tb then Some ptb
          else if n1 = EXIT_TB_FORCE then jmp_remove_loop tb n (Jmp_first tb1) s
          else jmp_remove_loop tb n (Jmp_next tb1 n1) s)"

definition tb_jmp_remove :: "nat \<Rightarrow> nat \<Rightarrow> tb_state \<Rightarrow> tb_state option" where
  "tb_jmp_remove tb n s =
     (if blk_jmp_next (tbs s tb) n = None then Some s
      else do {
        ptb \<leftarrow> jmp_remove_loop tb n (Jmp_next tb n) s;
        Some (write_jmp (Jmp_next tb n) None (write_jmp ptb (blk_jmp_next (tbs s tb) n) s)) })"

partial_function (option) jmp_suppress_loop :: "(nat \<times> nat) option \<Rightarrow> tb_state \<Rightarrow> tb_state option" where
  "jmp_suppress_loop p s =
     (case p of
        None \<Rightarrow> None
      | Some (tb1, n1) \<Rightarrow>
          if n1 = EXIT_TB_FORCE then Some s
          else jmp_suppress_loop (blk_jmp_next (tbs s tb1) n1)
                 (write_jmp (Jmp_next tb1 n1) None (tb_reset_jump tb1 n1 s)))"

section \<open>Invalidation\<close>

text \<open>The page list has no check for its end: None is a NULL dereference.\<close>

datatype page_slot = Page_first u64 | Page_next nat nat

fun read_page :: "tb_state \<Rightarrow> page_slot \<Rightarrow> (nat \<times> nat) option" where
  "read_page s (Page_first index) = (case page_find index s of Some p \<Rightarrow> first_tb p | None \<Rightarrow> None)"
| "read_page s (Page_next i n) = blk_page_next (tbs s i) n"

fun write_page :: "page_slot \<Rightarrow> (nat \<times> nat) option \<Rightarrow> tb_state \<Rightarrow> tb_state" where
  "write_page (Page_first index) v s = page_upd index (\<lambda>p. p\<lparr>first_tb := v\<rparr>) s"
| "write_page (Page_next i n) v s = upd_tb i (\<lambda>b. b\<lparr>blk_page_next := (blk_page_next b)(n := v)\<rparr>) s"

partial_function (option) tb_page_remove :: "page_slot \<Rightarrow> nat \<Rightarrow> tb_state \<Rightarrow> tb_state option" where
  "tb_page_remove ptb tb s =
     (case read_page s ptb of
        None \<Rightarrow> None
      | Some (tb1, n1) \<Rightarrow>
          if tb1 = tb then Some (write_page ptb (blk_page_next (tbs s tb1) n1) s)
          else tb_page_remove (Page_next tb1 n1) tb s)"

definition tb_jmp_cache_remove :: "nat \<Rightarrow> tb_state \<Rightarrow> tb_state" where
  "tb_jmp_cache_remove tb s =
     (let h = tb_jmp_cache_hash_func (blk_pc (tbs s tb))
      in if tb_jmp_cache s h = Some tb then s\<lparr>tb_jmp_cache := (tb_jmp_cache s)(h := None)\<rparr> else s)"

definition remove_from_page :: "nat \<Rightarrow> u64 \<Rightarrow> tb_state \<Rightarrow> tb_state option" where
  "remove_from_page tb addr s = do {
     s1 \<leftarrow> tb_page_remove (Page_first (drop_bit 8 addr)) tb s;
     Some (page_upd (drop_bit 8 addr) invalidate_page_bitmap s1) }"

definition tb_phys_invalidate :: "nat \<Rightarrow> u64 \<Rightarrow> tb_state \<Rightarrow> tb_state option" where
  "tb_phys_invalidate tb page_addr s =
     (let b = tbs s tb;
          phys_pc = blk_page_addr b 0 + ucast (blk_pc b AND NOT TARGET_PAGE_MASK32)
      in do {
        (removed, s1) \<leftarrow> tb_remove tb (Slot_hash (tb_phys_hash_func phys_pc)) s;
        if \<not> removed then Some s1
        else do {
          s2 \<leftarrow> (if blk_page_addr b 0 \<noteq> page_addr then remove_from_page tb (blk_page_addr b 0) s1 else Some s1);
          s3 \<leftarrow> (if blk_page_addr b 1 \<noteq> - 1 \<and> blk_page_addr b 1 \<noteq> page_addr then remove_from_page tb (blk_page_addr b 1) s2 else Some s2);
          let s4 = tb_jmp_cache_remove tb (s3\<lparr>tb_invalidated_flag := True\<rparr>);
          s5 \<leftarrow> tb_jmp_remove tb 0 s4;
          s6 \<leftarrow> tb_jmp_remove tb 1 s5;
          s7 \<leftarrow> jmp_suppress_loop (blk_jmp_first (tbs s6 tb)) s6;
          let s8 = upd_tb tb (\<lambda>b. b\<lparr>blk_jmp_first := Some (tb, EXIT_TB_FORCE)\<rparr>) s7;
          Some (s8\<lparr>tb_phys_invalidate_count := tb_phys_invalidate_count s8 + 1\<rparr>) } })"

end
