(* ===== verification/TB_Hash.thy ===== *)
theory TB_Hash
  imports TB_Cache
begin

text \<open>The buckets of the hash table as lists: what the walks find, and that removing, inserting and moving a block
  keep every bucket a list without repetition of blocks with its hash.\<close>

section \<open>Linked lists\<close>

primrec chain :: "('a \<Rightarrow> 'a option) \<Rightarrow> 'a option \<Rightarrow> 'a list \<Rightarrow> bool" where
  "chain nx p [] \<longleftrightarrow> p = None"
| "chain nx p (x # xs) \<longleftrightarrow> p = Some x \<and> chain nx (nx x) xs"

lemma chain_upd [simp]: "i \<notin> set xs \<Longrightarrow> chain (nx(i := v)) p xs = chain nx p xs"
  by (induction xs arbitrary: p) auto

lemma chain_cong: "(\<And>i. i \<in> set xs \<Longrightarrow> nx i = nx' i) \<Longrightarrow> chain nx p xs = chain nx' p xs"
  by (induction xs arbitrary: p) auto

lemma chain_unique: "chain nx p xs \<Longrightarrow> chain nx p ys \<Longrightarrow> xs = ys"
  by (induction xs arbitrary: p ys) (case_tac ys; auto)+

text \<open>Writing a link in the middle replaces the rest of the list.\<close>

lemma chain_splice:
  assumes "chain nx p (xs @ x # ys)" "distinct (xs @ [x])" "chain nx q zs" "set (xs @ [x]) \<inter> set zs = {}"
  shows "chain (nx(x := q)) p (xs @ x # zs)"
  using assms
proof (induction xs arbitrary: p)
  case (Cons a xs)
  then show ?case by auto
qed simp

section \<open>Buckets\<close>

definition hnext :: "tb_state \<Rightarrow> nat \<Rightarrow> nat option" where
  "hnext s i = blk_phys_hash_next (tbs s i)"

definition bucket :: "tb_state \<Rightarrow> nat \<Rightarrow> nat list \<Rightarrow> bool" where
  "bucket s h xs \<longleftrightarrow> chain (hnext s) (tb_phys_hash s h) xs"

definition slot_after :: "nat \<Rightarrow> nat list \<Rightarrow> tb_slot" where
  "slot_after h xs = (if xs = [] then Slot_hash h else Slot_next (last xs))"

lemma slot_after_simps [simp]: "slot_after h [] = Slot_hash h" "slot_after h (xs @ [x]) = Slot_next x"
  by (simp_all add: slot_after_def)

lemma hnext_upd [simp]:
  "hnext (upd_tb i f s) = (if blk_phys_hash_next (f (tbs s i)) = blk_phys_hash_next (tbs s i) then hnext s
     else (hnext s)(i := blk_phys_hash_next (f (tbs s i))))"
  by (auto simp: hnext_def upd_tb_def fun_eq_iff)

lemma tbs_upd [simp]: "tbs (upd_tb i f s) = (tbs s)(i := f (tbs s i))"
  "tb_phys_hash (upd_tb i f s) = tb_phys_hash s" "tb_jmp_cache (upd_tb i f s) = tb_jmp_cache s" "nb_tbs (upd_tb i f s) = nb_tbs s"
  "l1_map (upd_tb i f s) = l1_map s" "tb_invalidated_flag (upd_tb i f s) = tb_invalidated_flag s"
  by (simp_all add: upd_tb_def)

lemma hnext_write [simp]: "hnext (write_slot (Slot_next i) v s) = (hnext s)(i := v)" "hnext (write_slot (Slot_hash h) v s) = hnext s"
  "tb_phys_hash (write_slot (Slot_next i) v s) = tb_phys_hash s" "tb_phys_hash (write_slot (Slot_hash h) v s) = (tb_phys_hash s)(h := v)"
  by (auto simp: hnext_def fun_eq_iff)

lemma write_slot_state [simp]: "tb_jmp_cache (write_slot l v s) = tb_jmp_cache s" "nb_tbs (write_slot l v s) = nb_tbs s"
  "l1_map (write_slot l v s) = l1_map s"  "tb_invalidated_flag (write_slot l v s) = tb_invalidated_flag s"
  by (cases l; simp)+

lemma tbs_write_slot: "tbs (write_slot l v s) i = (tbs s i)\<lparr>blk_phys_hash_next := hnext (write_slot l v s) i\<rparr>"
  by (cases l) (simp_all add: hnext_def)

declare write_slot.simps [simp del]

lemma read_slot_after:
  assumes "bucket s h (xs @ ys)"
  shows "read_slot s (slot_after h xs) = (case ys of [] \<Rightarrow> None | y # _ \<Rightarrow> Some y)"
proof -
  have "chain nx p (xs @ x # ys) \<Longrightarrow> nx x = (case ys of [] \<Rightarrow> None | y # _ \<Rightarrow> Some y)" for nx p xs x
    by (induction xs arbitrary: p) (auto split: list.split)
  moreover have "xs = butlast xs @ [last xs]" if "xs \<noteq> []" using that by simp
  ultimately have "hnext s (last xs) = (case ys of [] \<Rightarrow> None | y # _ \<Rightarrow> Some y)" if "xs \<noteq> []"
    using assms that unfolding bucket_def by (metis append.assoc append_Cons append_Nil)
  then show ?thesis using assms by (cases ys; cases "xs = []") (auto simp: bucket_def slot_after_def hnext_def)
qed

lemma bucket_suffix: "bucket s h (xs @ y # ys) \<Longrightarrow> chain (hnext s) (hnext s y) ys"
proof -
  have "chain nx p (xs @ y # ys) \<Longrightarrow> chain nx (nx y) ys" for nx p
    by (induction xs arbitrary: p) auto
  then show "bucket s h (xs @ y # ys) \<Longrightarrow> chain (hnext s) (hnext s y) ys" by (simp add: bucket_def)
qed

lemma write_slot_bucket:
  assumes "bucket s h (xs @ ys)" "distinct xs" "chain (hnext s) q zs" "set xs \<inter> set zs = {}"
  shows "bucket (write_slot (slot_after h xs) q s) h (xs @ zs)"
proof (cases "xs = []")
  case False
  then obtain us x where xs: "xs = us @ [x]" by (metis rev_exhaust)
  then show ?thesis using assms chain_splice[of "hnext s" "tb_phys_hash s h" us x ys q zs]
    by (simp add: bucket_def)
qed (use assms in \<open>simp add: bucket_def\<close>)

lemma write_slot_other:
  assumes "bucket s h' us" "h' \<noteq> h" "set xs \<inter> set us = {}"
  shows "bucket (write_slot (slot_after h xs) q s) h' us"
proof (cases "xs = []")
  case False
  then have "last xs \<notin> set us" using assms(3) by (metis disjoint_iff last_in_set)
  then show ?thesis using assms False by (simp add: bucket_def slot_after_def)
qed (use assms in \<open>simp add: bucket_def\<close>)

section \<open>Walks\<close>

lemma tb_remove_walk:
  assumes "bucket s h (xs @ ys)"
  shows "tb_remove tb (slot_after h xs) s =
    Some (if tb \<in> set ys then (True, write_slot (slot_after h (xs @ takeWhile (\<lambda>t. t \<noteq> tb) ys)) (hnext s tb) s) else (False, s))"
  using assms
proof (induction ys arbitrary: xs)
  case Nil
  then show ?case using read_slot_after[OF Nil] by (subst tb_remove.simps) simp
next
  case (Cons y ys)
  have "bucket s h ((xs @ [y]) @ ys)" using Cons.prems by simp
  from Cons.IH[OF this] read_slot_after[OF Cons.prems] show ?case
    by (subst tb_remove.simps) (simp add: hnext_def)
qed

lemma bucket_insert:
  assumes "bucket s h (us @ vs)" "distinct (us @ vs)" "tb \<notin> set (us @ vs)"
  defines "s1 \<equiv> upd_tb tb (\<lambda>b. b\<lparr>blk_phys_hash_next := read_slot s (slot_after h us)\<rparr>) s"
  defines "s2 \<equiv> write_slot (slot_after h us) (Some tb) s1"
  shows "bucket s2 h (us @ tb # vs)" "\<And>h' ws. bucket s h' ws \<Longrightarrow> h' \<noteq> h \<Longrightarrow> set (us @ [tb]) \<inter> set ws = {} \<Longrightarrow> bucket s2 h' ws"
proof -
  have r: "read_slot s (slot_after h us) = (case vs of [] \<Rightarrow> None | y # _ \<Rightarrow> Some y)" by (rule read_slot_after[OF assms(1)])
  have n: "hnext s1 = (hnext s)(tb := read_slot s (slot_after h us))" by (auto simp: s1_def hnext_def)
  have b: "bucket s1 h' ws = bucket s h' ws" if "tb \<notin> set ws" for h' ws using that by (simp add: bucket_def n) (simp add: s1_def)
  have "chain (hnext s) (case vs of [] \<Rightarrow> None | y # _ \<Rightarrow> Some y) vs"
  proof (cases vs)
    case (Cons y ys)
    then show ?thesis using bucket_suffix[of s h us y ys] assms(1) by simp
  qed simp
  then have "chain (hnext s1) (Some tb) (tb # vs)" using assms(3) by (simp add: n r)
  then show "bucket s2 h (us @ tb # vs)" unfolding s2_def
    by (rule write_slot_bucket[where ys = vs, rotated 2]) (use assms(1-3) b in auto)
  show "bucket s2 h' ws" if "bucket s h' ws" "h' \<noteq> h" "set (us @ [tb]) \<inter> set ws = {}" for h' ws
    unfolding s2_def by (rule write_slot_other[OF _ that(2)]) (use that b in auto)
qed

text \<open>Where the walk of the lookup stops.\<close>

definition tb_fits :: "(u32 \<Rightarrow> u64) \<Rightarrow> u32 \<Rightarrow> u32 \<Rightarrow> u64 \<Rightarrow> u32 \<Rightarrow> TranslationBlock \<Rightarrow> bool" where
  "tb_fits pg pc cs_base flags max_icount b \<longleftrightarrow>
     tb_matches pc cs_base flags (pg pc) b \<and> blk_icount b \<le> max_icount \<and> tb_second_page_ok pg pc b"

lemma find_slow_walk:
  assumes "bucket s h (xs @ ys)" "prev \<in> insert None (Some ` set xs)"
  shows "\<exists>slot found prev' us vs. find_slow_loop pg pc cs_base flags mx (slot_after h xs) prev s = Some (slot, found, prev') \<and>
    ys = us @ vs \<and> slot = slot_after h (xs @ us) \<and> prev' \<in> insert None (Some ` set (xs @ us)) \<and>
    (\<forall>t\<in>set us. \<not> tb_fits pg pc cs_base flags mx (tbs s t)) \<and>
    (case found of None \<Rightarrow> vs = [] | Some tb \<Rightarrow> tb_fits pg pc cs_base flags mx (tbs s tb) \<and> (\<exists>ws. vs = tb # ws))"
  using assms
proof (induction ys arbitrary: xs prev)
  case Nil
  then show ?case using read_slot_after[OF Nil(1)] by (subst find_slow_loop.simps) auto
next
  case (Cons y ys)
  let ?b = "tbs s y"
  have b: "bucket s h ((xs @ [y]) @ ys)" using Cons.prems by simp
  have r: "read_slot s (slot_after h xs) = Some y" using read_slot_after[OF Cons.prems(1)] by simp
  show ?case
  proof (cases "tb_fits pg pc cs_base flags mx ?b")
    case True
    then have "find_slow_loop pg pc cs_base flags mx (slot_after h xs) prev s = Some (slot_after h xs, Some y, prev)"
      using r by (subst find_slow_loop.simps) (simp add: tb_fits_def Let_def)
    then show ?thesis using True Cons.prems(2)
      by (intro exI[of _ "slot_after h xs"] exI[of _ "Some y"] exI[of _ prev] exI[of _ "[]"] exI[of _ "y # ys"]) auto
  next
    case False
    define p where "p = (if tb_matches pc cs_base flags (pg pc) ?b \<and> \<not> blk_icount ?b \<le> mx then Some y else prev)"
    have step: "find_slow_loop pg pc cs_base flags mx (slot_after h xs) prev s = find_slow_loop pg pc cs_base flags mx (slot_after h (xs @ [y])) p s"
      using r False by (subst find_slow_loop.simps) (auto simp: tb_fits_def p_def Let_def)
    have "p \<in> insert None (Some ` set (xs @ [y]))" using Cons.prems(2) by (auto simp: p_def)
    from Cons.IH[OF b this] obtain slot found prev' us vs where *:
      "find_slow_loop pg pc cs_base flags mx (slot_after h (xs @ [y])) p s = Some (slot, found, prev')"
      "ys = us @ vs" "slot = slot_after h ((xs @ [y]) @ us)" "prev' \<in> insert None (Some ` set ((xs @ [y]) @ us))"
      "\<forall>t\<in>set us. \<not> tb_fits pg pc cs_base flags mx (tbs s t)"
      "case found of None \<Rightarrow> vs = [] | Some tb \<Rightarrow> tb_fits pg pc cs_base flags mx (tbs s tb) \<and> (\<exists>ws. vs = tb # ws)" by blast
    then show ?thesis using False step
      by (intro exI[of _ slot] exI[of _ found] exI[of _ prev'] exI[of _ "y # us"] exI[of _ vs]) auto
  qed
qed

section \<open>The hash table\<close>

text \<open>\<^verbatim>\<open>C h\<close> lists the blocks of bucket h; every block in use is in the bucket of its hash, once.\<close>

definition hash_of :: "TranslationBlock \<Rightarrow> nat" where
  "hash_of b = phys_pc_hash (blk_page_addr b 0) (blk_pc b)"

definition hash_wf :: "tb_state \<Rightarrow> (nat \<Rightarrow> nat list) \<Rightarrow> bool" where
  "hash_wf s C \<longleftrightarrow> (\<forall>h. bucket s h (C h) \<and> distinct (C h) \<and> (\<forall>i\<in>set (C h). i < nb_tbs s \<and> hash_of (tbs s i) = h))"

lemma hash_wf_disjoint: "hash_wf s C \<Longrightarrow> h \<noteq> h' \<Longrightarrow> set (C h) \<inter> set (C h') = {}"
  unfolding hash_wf_def disjoint_iff by metis

lemma hash_of_upd [simp]: "hash_of (b\<lparr>blk_phys_hash_next := v\<rparr>) = hash_of b"
  by (simp add: hash_of_def)

text \<open>Moving a block that is in no bucket behind the prefix \<^verbatim>\<open>us\<close> of its bucket.\<close>

lemma hash_wf_insert:
  assumes "hash_wf s C" "C h = us @ vs" "tb < nb_tbs s" "hash_of (tbs s tb) = h" "\<And>h. tb \<notin> set (C h)"
  shows "hash_wf (write_slot (slot_after h us) (Some tb) (upd_tb tb (\<lambda>b. b\<lparr>blk_phys_hash_next := read_slot s (slot_after h us)\<rparr>) s))
    (C(h := us @ tb # vs))"
proof -
  have w: "bucket s h (us @ vs)" "distinct (us @ vs)" "tb \<notin> set (us @ vs)" using assms by (metis hash_wf_def)+
  have "set (us @ [tb]) \<inter> set (C h') = {}" if "h' \<noteq> h" for h'
    using hash_wf_disjoint[OF assms(1) that] assms(2,5) by auto
  moreover have "bucket s h' (C h')" for h' using assms(1) by (simp add: hash_wf_def)
  moreover have "hash_of (tbs (write_slot l v (upd_tb tb (\<lambda>b. b\<lparr>blk_phys_hash_next := x\<rparr>) s)) i) = hash_of (tbs s i)" for l v x i
    by (simp add: tbs_write_slot)
  moreover have "i < nb_tbs s \<and> hash_of (tbs s i) = h'" if "i \<in> set (C h')" for i h' using assms(1) that by (simp add: hash_wf_def)
  moreover from this[of _ h] have "i < nb_tbs s \<and> hash_of (tbs s i) = h" if "i \<in> set (us @ tb # vs)" for i
    using that assms(2-4) by auto
  moreover have "distinct (C h')" for h' using assms(1) by (simp add: hash_wf_def)
  ultimately show ?thesis using bucket_insert[OF w] w unfolding hash_wf_def by (auto simp: fun_upd_def)
qed

text \<open>Writing the slot behind \<^verbatim>\<open>us\<close> to skip some blocks after it.\<close>

lemma hash_wf_write:
  assumes "hash_wf s C" "C h = us @ vs" "chain (hnext s) q zs" "set zs \<subseteq> set vs" "distinct zs"
  shows "hash_wf (write_slot (slot_after h us) q s) (C(h := us @ zs))"
  unfolding hash_wf_def
proof (intro allI)
  fix h'
  have C: "bucket s h (us @ vs)" "distinct (us @ vs)" "\<And>i. i \<in> set (us @ vs) \<Longrightarrow> i < nb_tbs s \<and> hash_of (tbs s i) = h"
    "bucket s h' (C h')" "distinct (C h')" "\<And>i. i \<in> set (C h') \<Longrightarrow> i < nb_tbs s \<and> hash_of (tbs s i) = h'"
    using assms(1,2) by (metis hash_wf_def)+
  have "bucket (write_slot (slot_after h us) q s) h (us @ zs)"
    by (rule write_slot_bucket[OF C(1) _ assms(3)]) (use C(2) assms(4) in auto)
  moreover have "bucket (write_slot (slot_after h us) q s) h' (C h')" if "h' \<noteq> h"
    by (rule write_slot_other[OF C(4) that]) (use hash_wf_disjoint[OF assms(1) that] assms(2) in auto)
  ultimately show "bucket (write_slot (slot_after h us) q s) h' ((C(h := us @ zs)) h') \<and> distinct ((C(h := us @ zs)) h') \<and>
      (\<forall>i\<in>set ((C(h := us @ zs)) h'). i < nb_tbs (write_slot (slot_after h us) q s) \<and> hash_of (tbs (write_slot (slot_after h us) q s) i) = h')"
    using C assms(4,5) by (auto simp: tbs_write_slot)
qed

lemma hash_wf_remove:
  assumes "hash_wf s C"
  obtains (gone) "tb \<notin> set (C h)" "tb_remove tb (Slot_hash h) s = Some (False, s)"
  | (removed) us ws where "C h = us @ tb # ws" "tb_remove tb (Slot_hash h) s = Some (True, write_slot (slot_after h us) (hnext s tb) s)"
      "hash_wf (write_slot (slot_after h us) (hnext s tb) s) (C(h := us @ ws))"
proof (cases "tb \<in> set (C h)")
  case False
  then show ?thesis using gone tb_remove_walk[of s h "[]" "C h" tb] assms by (simp add: hash_wf_def)
next
  case True
  then obtain us ws where u: "C h = us @ tb # ws" "tb \<notin> set us" by (metis split_list_first)
  have b: "bucket s h (us @ tb # ws)" "distinct (us @ tb # ws)" using assms u(1) by (metis hash_wf_def)+
  have "takeWhile (\<lambda>t. t \<noteq> tb) (C h) = us" unfolding u(1) using u(2) by (subst takeWhile_append2) auto
  then have "tb_remove tb (Slot_hash h) s = Some (True, write_slot (slot_after h us) (hnext s tb) s)"
    using tb_remove_walk[of s h "[]" "C h" tb] b u(1) by simp
  moreover have "hash_wf (write_slot (slot_after h us) (hnext s tb) s) (C(h := us @ ws))"
    by (rule hash_wf_write[OF assms u(1) bucket_suffix[OF b(1)]]) (use b(2) in auto)
  ultimately show ?thesis using removed u(1) by blast
qed

section \<open>Lookup\<close>

text \<open>Relinking takes the block out at the slot the walk stopped at and puts it back in the same bucket. At the end
  of the list, where a new block goes, there is nothing to take out.\<close>

definition unlinked :: "tb_slot \<Rightarrow> nat \<Rightarrow> tb_state \<Rightarrow> tb_state" where
  "unlinked ptb tb s = write_slot ptb (hnext s tb) s"

lemma hash_relink_eq:
  "\<exists>sl. (sl = Slot_hash h \<or> (\<exists>p. prev = Some p \<and> sl = Slot_next p)) \<and>
    hash_relink h ptb prev tb s = write_slot sl (Some tb)
      (upd_tb tb (\<lambda>b. b\<lparr>blk_phys_hash_next := read_slot (unlinked ptb tb s) sl\<rparr>) (unlinked ptb tb s))"
proof (cases "\<exists>p. prev = Some p \<and> blk_was_cut (tbs s tb)")
  case True
  then show ?thesis by (intro exI[of _ "Slot_next (the prev)"]) (auto simp: hash_relink_def unlinked_def hnext_def Let_def write_slot.simps)
next
  case False
  then show ?thesis by (intro exI[of _ "Slot_hash h"]) (auto simp: hash_relink_def unlinked_def hnext_def Let_def write_slot.simps split: option.split)
qed

lemma hash_wf_relink:
  assumes "hash_wf (unlinked ptb tb s) C" "prev \<in> insert None (Some ` set (C h))" "tb < nb_tbs s" "hash_of (tbs s tb) = h" "\<And>h. tb \<notin> set (C h)"
  shows "\<exists>us vs. C h = us @ vs \<and> hash_wf (hash_relink h ptb prev tb s) (C(h := us @ tb # vs))"
proof -
  let ?u = "unlinked ptb tb s"
  obtain sl where sl: "sl = Slot_hash h \<or> (\<exists>p. prev = Some p \<and> sl = Slot_next p)" and
    eq: "hash_relink h ptb prev tb s = write_slot sl (Some tb) (upd_tb tb (\<lambda>b. b\<lparr>blk_phys_hash_next := read_slot ?u sl\<rparr>) ?u)"
    using hash_relink_eq[where prev = prev and s = s and tb = tb and h = h and ptb = ptb] by blast
  obtain us vs where "C h = us @ vs" "sl = slot_after h us"
  proof (cases "sl = Slot_hash h")
    case True
    then show ?thesis using that[of "[]" "C h"] by simp
  next
    case False
    then obtain p where "sl = Slot_next p" "p \<in> set (C h)" using sl assms(2) by auto
    then show ?thesis using that by (metis append.assoc append_Cons append_Nil slot_after_simps(2) split_list)
  qed
  moreover have "tb < nb_tbs ?u" "hash_of (tbs ?u tb) = h" using assms(3,4) by (simp_all add: unlinked_def tbs_write_slot)
  ultimately show ?thesis using hash_wf_insert[OF assms(1) _ _ _ assms(5), of h us vs] unfolding eq by blast
qed

section \<open>New blocks\<close>

lemma page_ops_state [simp]:
  "tbs (page_alloc i s) = tbs s" "tb_phys_hash (page_alloc i s) = tb_phys_hash s" "tb_jmp_cache (page_alloc i s) = tb_jmp_cache s"
  "nb_tbs (page_alloc i s) = nb_tbs s" "tb_invalidated_flag (page_alloc i s) = tb_invalidated_flag s"
  "tbs (page_upd i f s) = tbs s" "tb_phys_hash (page_upd i f s) = tb_phys_hash s" "tb_jmp_cache (page_upd i f s) = tb_jmp_cache s"
  "nb_tbs (page_upd i f s) = nb_tbs s" "tb_invalidated_flag (page_upd i f s) = tb_invalidated_flag s"
  by (simp_all add: page_alloc_def page_upd_def split: option.split)

text \<open>What the hash table and the lookup see of a block.\<close>

definition hview where
  "hview b = (blk_pc b, blk_cs_base b, blk_flags b, blk_page_addr b, blk_icount b, blk_was_cut b, blk_phys_hash_next b)"

lemma hview_simps [simp]:
  "hview (b\<lparr>blk_page_next := x\<rparr>) = hview b" "hview (b\<lparr>blk_jmp_next := y\<rparr>) = hview b" "hview (b\<lparr>blk_jmp_first := z\<rparr>) = hview b"
  "hview (b\<lparr>blk_jmp_target := w\<rparr>) = hview b"
  by (simp_all add: hview_def)

definition hash_frame :: "nat set \<Rightarrow> tb_state \<Rightarrow> tb_state \<Rightarrow> bool" where
  "hash_frame X s s' \<longleftrightarrow> tb_phys_hash s' = tb_phys_hash s \<and> tb_jmp_cache s' = tb_jmp_cache s \<and> nb_tbs s' = nb_tbs s \<and>
     tb_invalidated_flag s' = tb_invalidated_flag s \<and> (\<forall>i. i \<notin> X \<longrightarrow> hview (tbs s' i) = hview (tbs s i))"

lemma tb_link_page_frame:
  "hash_frame {tb} s (tb_link_page tb p1 p2 s)"
  by (simp add: hash_frame_def tb_link_page_def tb_alloc_page_def tb_reset_jump_def Let_def)

lemma tb_link_page_block:
  fixes tb
  defines "b \<equiv> \<lambda>s'. tbs s' tb"
  shows "blk_pc (b (tb_link_page tb p1 p2 s)) = blk_pc (b s)" "blk_cs_base (b (tb_link_page tb p1 p2 s)) = blk_cs_base (b s)"
    "blk_flags (b (tb_link_page tb p1 p2 s)) = blk_flags (b s)" "blk_icount (b (tb_link_page tb p1 p2 s)) = blk_icount (b s)"
    "blk_was_cut (b (tb_link_page tb p1 p2 s)) = blk_was_cut (b s)"
    "blk_phys_hash_next (b (tb_link_page tb p1 p2 s)) = blk_phys_hash_next (b s)"
    "blk_page_addr (b (tb_link_page tb p1 p2 s)) 0 = p1 AND NOT IO_MEM_EXECUTABLE_IO"
  by (simp_all add: b_def tb_link_page_def tb_alloc_page_def tb_reset_jump_def Let_def)

text \<open>A new block takes the next index; either nothing else changed, or the cache was emptied before.\<close>

lemma tb_gen_code_new:
  assumes "tb_gen_code hm pg translate pc cs_base flags cflags s = Some (tb, s')"
  obtains (fresh) "tb = nb_tbs s" "nb_tbs s' = nb_tbs s + 1" "tb_phys_hash s' = tb_phys_hash s" "tb_jmp_cache s' = tb_jmp_cache s"
      "tb_invalidated_flag s' = tb_invalidated_flag s" "\<And>i. i \<noteq> tb \<Longrightarrow> hview (tbs s' i) = hview (tbs s i)"
      "blk_phys_hash_next (tbs s' tb) = None"
      "blk_pc (tbs s' tb) = pc \<and> blk_cs_base (tbs s' tb) = cs_base \<and> blk_flags (tbs s' tb) = flags \<and>
       blk_icount (tbs s' tb) = tr_icount (translate pc flags) \<and> blk_page_addr (tbs s' tb) 0 = pg pc AND NOT IO_MEM_EXECUTABLE_IO"
  | (flushed) "tb = 0" "nb_tbs s' = 1" "tb_phys_hash s' = (\<lambda>_. None)" "tb_jmp_cache s' = (\<lambda>_. None)"
      "tb_invalidated_flag s'" "blk_phys_hash_next (tbs s' tb) = None"
      "blk_pc (tbs s' tb) = pc \<and> blk_cs_base (tbs s' tb) = cs_base \<and> blk_flags (tbs s' tb) = flags \<and>
       blk_icount (tbs s' tb) = tr_icount (translate pc flags) \<and> blk_page_addr (tbs s' tb) 0 = pg pc AND NOT IO_MEM_EXECUTABLE_IO"
proof -
  let ?search = "encode_search pc (unat (tr_icount (translate pc flags))) (tr_insn_data (translate pc flags)) (tr_insn_end_off (translate pc flags))"
  obtain s1 p1 p2 where alloc: "(case tb_alloc pc s of Some r \<Rightarrow> Some r
       | None \<Rightarrow> do { f \<leftarrow> tb_flush s; (_, x) \<leftarrow> code_gen_try_expand hm f; (tb, a) \<leftarrow> tb_alloc pc x; Some (tb, a\<lparr>tb_invalidated_flag := True\<rparr>) }) = Some (tb, s1)"
    and s': "s' = tb_link_page tb (pg pc) p2 ((upd_tb tb (\<lambda>b. b\<lparr>blk_tc_ptr := code_gen_ptr s1, blk_cs_base := cs_base, blk_flags := flags, blk_cflags := cflags,
                blk_icount := tr_icount (translate pc flags), blk_size := tr_size (translate pc flags), blk_was_cut := tr_was_cut (translate pc flags),
                blk_tc_search := ?search\<rparr>) s1)\<lparr>code_gen_ptr := p1\<rparr>)"
    using assms unfolding tb_gen_code_def Let_def by (auto simp: Option.bind_eq_Some_conv split: prod.splits)
  let ?s2 = "(upd_tb tb (\<lambda>b. b\<lparr>blk_tc_ptr := code_gen_ptr s1, blk_cs_base := cs_base, blk_flags := flags, blk_cflags := cflags,
                blk_icount := tr_icount (translate pc flags), blk_size := tr_size (translate pc flags), blk_was_cut := tr_was_cut (translate pc flags),
                blk_tc_search := ?search\<rparr>) s1)\<lparr>code_gen_ptr := p1\<rparr>"
  have f: "hash_frame {tb} ?s2 s'" unfolding s' by (rule tb_link_page_frame)
  have b: "blk_cs_base (tbs s' tb) = cs_base \<and> blk_flags (tbs s' tb) = flags \<and> blk_pc (tbs s' tb) = blk_pc (tbs s1 tb) \<and>
    blk_phys_hash_next (tbs s' tb) = blk_phys_hash_next (tbs s1 tb) \<and>
    blk_icount (tbs s' tb) = tr_icount (translate pc flags) \<and> blk_page_addr (tbs s' tb) 0 = pg pc AND NOT IO_MEM_EXECUTABLE_IO"
    unfolding s' tb_link_page_block by simp
  show ?thesis
  proof (cases "tb_alloc pc s")
    case (Some r)
    then have a: "tb = nb_tbs s" "s1 = s\<lparr>nb_tbs := nb_tbs s + 1, tbs := (tbs s)(nb_tbs s := zero_tb\<lparr>blk_pc := pc\<rparr>)\<rparr>"
      using alloc by (auto simp: tb_alloc_def split: if_splits)
    show ?thesis by (rule fresh) (use f b a in \<open>auto simp: hash_frame_def zero_tb_def\<close>)
  next
    case None
    then obtain f0 x a ok where a: "tb_flush s = Some f0" "code_gen_try_expand hm f0 = Some (ok, x)" "tb_alloc pc x = Some (tb, a)"
      "s1 = a\<lparr>tb_invalidated_flag := True\<rparr>" using alloc by (auto simp: Option.bind_eq_Some_conv)
    have "nb_tbs f0 = 0" "tb_phys_hash f0 = (\<lambda>_. None)" "tb_jmp_cache f0 = (\<lambda>_. None)"
      using a(1) by (auto simp: tb_flush_def page_flush_tb_def split: if_splits)
    then have "nb_tbs x = 0" "tb_phys_hash x = (\<lambda>_. None)" "tb_jmp_cache x = (\<lambda>_. None)"
      using a(2) by (auto simp: code_gen_try_expand_def code_gen_alloc_def Let_def split: if_splits option.splits prod.splits)
    then have "tb = 0" "nb_tbs a = 1" "tb_phys_hash a = (\<lambda>_. None)" "tb_jmp_cache a = (\<lambda>_. None)" "tbs a tb = zero_tb\<lparr>blk_pc := pc\<rparr>"
      using a(3) by (auto simp: tb_alloc_def split: if_splits)
    then show ?thesis by (intro flushed) (use f b a(4) in \<open>auto simp: hash_frame_def zero_tb_def\<close>)
  qed
qed

section \<open>The cache\<close>

text \<open>The cache of virtual addresses holds blocks of the hash table only, each at the hash of its address.\<close>

definition cache_wf :: "tb_state \<Rightarrow> (nat \<Rightarrow> nat list) \<Rightarrow> bool" where
  "cache_wf s C \<longleftrightarrow> hash_wf s C \<and>
     (\<forall>j tb. tb_jmp_cache s j = Some tb \<longrightarrow> j = tb_jmp_cache_hash_func (blk_pc (tbs s tb)) \<and> (\<exists>h. tb \<in> set (C h)))"

text \<open>\<^verbatim>\<open>get_page_addr_code\<close> masks its result with \<^verbatim>\<open>TARGET_PAGE_MASK\<close>.\<close>

definition page_aligned :: "(u32 \<Rightarrow> u64) \<Rightarrow> bool" where
  "page_aligned pg \<longleftrightarrow> (\<forall>pc. pg pc AND mask 8 = 0)"

lemma page_no_io:
  assumes "page_aligned pg"
  shows "pg pc AND NOT IO_MEM_EXECUTABLE_IO = pg pc"
proof (rule bit_word_eqI)
  fix n assume n: "n < LENGTH(64)"
  have "bit (pg pc AND mask 8) n = False" using assms by (simp add: page_aligned_def)
  moreover have "IO_MEM_EXECUTABLE_IO = 2 ^ 6" by (simp add: IO_MEM_EXECUTABLE_IO_def)
  then have "bit IO_MEM_EXECUTABLE_IO n \<longleftrightarrow> n = 6" using n by (metis bit_exp_iff possible_bit_word)
  ultimately show "bit (pg pc AND NOT IO_MEM_EXECUTABLE_IO) n = bit (pg pc) n"
    using n by (auto simp: bit_and_iff bit_not_iff bit_mask_iff)
qed

lemma hash_wf_frame:
  assumes "hash_wf s C" "tb_phys_hash s' = tb_phys_hash s" "\<And>i. i < nb_tbs s \<Longrightarrow> hview (tbs s' i) = hview (tbs s i)" "nb_tbs s \<le> nb_tbs s'"
  shows "hash_wf s' C"
  unfolding hash_wf_def
proof (intro allI)
  fix h
  have C: "bucket s h (C h)" "distinct (C h)" "\<And>i. i \<in> set (C h) \<Longrightarrow> i < nb_tbs s \<and> hash_of (tbs s i) = h"
    using assms(1) by (simp_all add: hash_wf_def)
  then have "bucket s' h (C h)"
    using assms(2,3) chain_cong[of "C h" "hnext s'" "hnext s" "tb_phys_hash s h"] by (auto simp: bucket_def hnext_def hview_def)
  moreover have "i < nb_tbs s' \<and> hash_of (tbs s' i) = h" if "i \<in> set (C h)" for i
    using C(3)[OF that] assms(3)[of i] assms(4) by (auto simp: hash_of_def hview_def)
  ultimately show "bucket s' h (C h) \<and> distinct (C h) \<and> (\<forall>i\<in>set (C h). i < nb_tbs s' \<and> hash_of (tbs s' i) = h)"
    using C(2) by blast
qed

text \<open>What the lookup only reads of a block is kept by relinking.\<close>

definition same_code :: "tb_state \<Rightarrow> tb_state \<Rightarrow> bool" where
  "same_code s s' \<longleftrightarrow> (\<forall>i. blk_pc (tbs s' i) = blk_pc (tbs s i) \<and> blk_cs_base (tbs s' i) = blk_cs_base (tbs s i) \<and>
     blk_flags (tbs s' i) = blk_flags (tbs s i) \<and> blk_page_addr (tbs s' i) = blk_page_addr (tbs s i) \<and>
     blk_icount (tbs s' i) = blk_icount (tbs s i) \<and> blk_was_cut (tbs s' i) = blk_was_cut (tbs s i))"

lemma same_code_relink: "same_code s (hash_relink h ptb prev tb s)"
proof -
  obtain sl where "hash_relink h ptb prev tb s = write_slot sl (Some tb)
      (upd_tb tb (\<lambda>b. b\<lparr>blk_phys_hash_next := read_slot (unlinked ptb tb s) sl\<rparr>) (unlinked ptb tb s))" using hash_relink_eq by blast
  then show ?thesis by (simp add: same_code_def tbs_write_slot unlinked_def)
qed

text \<open>The blocks in use, and what the page lists and the jumps see of the state.\<close>

definition live :: "(nat \<Rightarrow> nat list) \<Rightarrow> nat set" where
  "live C = (\<Union>h. set (C h))"

lemma live_iff: "i \<in> live C \<longleftrightarrow> (\<exists>h. i \<in> set (C h))"
  by (simp add: live_def)

lemma live_bound: "hash_wf s C \<Longrightarrow> i \<in> live C \<Longrightarrow> i < nb_tbs s"
  by (auto simp: live_iff hash_wf_def)

lemma live_insert: "C h = us @ vs \<Longrightarrow> live (C(h := us @ tb # vs)) = insert tb (live C)"
proof -
  assume C: "C h = us @ vs"
  have "(\<exists>h'. i \<in> set ((C(h := us @ tb # vs)) h')) \<longleftrightarrow> i = tb \<or> (\<exists>h'. i \<in> set (C h'))" for i
  proof (cases "i = tb")
    case False
    then have "i \<in> set ((C(h := us @ tb # vs)) h') \<longleftrightarrow> i \<in> set (C h')" for h' using C by auto
    then show ?thesis using False by simp
  qed (auto intro: exI[of _ h])
  then show ?thesis by (auto simp: live_iff set_eq_iff)
qed

definition lview where
  "lview b = (blk_pc b, blk_size b, blk_flags b, blk_page_addr b, blk_page_next b, blk_jmp_next b, blk_jmp_first b, blk_jmp_target b)"

lemma lview_simps [simp]: "lview (b\<lparr>blk_phys_hash_next := v\<rparr>) = lview b"
  by (simp add: lview_def)

definition same_links :: "tb_state \<Rightarrow> tb_state \<Rightarrow> bool" where
  "same_links s s' \<longleftrightarrow> nb_tbs s' = nb_tbs s \<and> l1_map s' = l1_map s \<and> (\<forall>i. lview (tbs s' i) = lview (tbs s i))"

lemma same_links_relink: "same_links s (hash_relink h ptb prev tb s) \<and>
  tb_invalidated_flag (hash_relink h ptb prev tb s) = tb_invalidated_flag s"
proof -
  obtain sl where "hash_relink h ptb prev tb s = write_slot sl (Some tb)
      (upd_tb tb (\<lambda>b. b\<lparr>blk_phys_hash_next := read_slot (unlinked ptb tb s) sl\<rparr>) (unlinked ptb tb s))" using hash_relink_eq by blast
  then show ?thesis by (simp add: same_links_def tbs_write_slot unlinked_def)
qed

lemma relink_state: "nb_tbs (hash_relink h ptb prev tb s) = nb_tbs s" "tb_jmp_cache (hash_relink h ptb prev tb s) = tb_jmp_cache s"
  by (simp_all add: hash_relink_def Let_def split: option.split)

text \<open>The end of a lookup: the block is put in its place and in the cache of virtual addresses.\<close>

lemma cache_wf_relink:
  assumes "hash_wf (unlinked ptb tb s) C" "prev \<in> insert None (Some ` set (C h))" "tb < nb_tbs s" "hash_of (tbs s tb) = h" "\<And>h. tb \<notin> set (C h)"
    and j: "\<And>j t. tb_jmp_cache s j = Some t \<Longrightarrow> j = tb_jmp_cache_hash_func (blk_pc (tbs s t)) \<and> (t = tb \<or> (\<exists>h. t \<in> set (C h)))"
  defines "s' \<equiv> (hash_relink h ptb prev tb s)\<lparr>tb_jmp_cache := (tb_jmp_cache s)(tb_jmp_cache_hash_func (blk_pc (tbs s tb)) \<mapsto> tb)\<rparr>"
  shows "\<exists>us vs. C h = us @ vs \<and> cache_wf s' (C(h := us @ tb # vs))"
proof -
  obtain us vs where u: "C h = us @ vs" "hash_wf (hash_relink h ptb prev tb s) (C(h := us @ tb # vs))"
    using hash_wf_relink[OF assms(1-5)] by blast
  have "hash_wf s' (C(h := us @ tb # vs))" by (rule hash_wf_frame[OF u(2)]) (simp_all add: s'_def)
  moreover have "blk_pc (tbs s' i) = blk_pc (tbs s i)" for i using same_code_relink[of s] by (simp add: same_code_def s'_def)
  moreover have "\<exists>h'. t \<in> set ((C(h := us @ tb # vs)) h')" if t: "t = tb \<or> (\<exists>h'. t \<in> set (C h'))" for t
  proof (cases "t = tb")
    case False
    then obtain h' where "t \<in> set (C h')" using t by blast
    then show ?thesis using u(1) by (intro exI[of _ h']) auto
  qed (auto intro: exI[of _ h])
  ultimately have "cache_wf s' (C(h := us @ tb # vs))" using j unfolding cache_wf_def by (auto simp: s'_def split: if_splits)
  then show ?thesis using u(1) by blast
qed


lemma tb_find_slow_wf:
  assumes "cache_wf s0 C" "page_aligned pg" "tb_find_slow hm pg translate False mx pc cs_base flags s0 = Some (tb, s')"
  defines "h \<equiv> phys_pc_hash (pg pc) pc"
  shows "\<exists>C'. cache_wf s' C' \<and> tb \<in> set (C' h) \<and> tb_matches pc cs_base flags (pg pc) (tbs s' tb) \<and>
    blk_icount (tbs s' tb) \<le> max mx (tr_icount (translate pc flags)) \<and>
    ((\<exists>t\<in>set (C h). tb_fits pg pc cs_base flags mx (tbs s0 t)) \<longrightarrow>
       nb_tbs s' = nb_tbs s0 \<and> (\<forall>h'. set (C' h') = set (C h')) \<and> tb_fits pg pc cs_base flags mx (tbs s' tb)) \<and>
    (same_links s0 s' \<and> live C' = live C \<and> \<not> tb_invalidated_flag s' \<or>
     (\<exists>s1. tb_gen_code hm pg translate pc cs_base flags 0 (s0\<lparr>tb_invalidated_flag := False\<rparr>) = Some (tb, s1) \<and> same_links s1 s' \<and>
       tb_invalidated_flag s' = tb_invalidated_flag s1 \<and> live C' = insert tb (if tb_invalidated_flag s1 then {} else live C)))"
proof -
  define s where "s = s0\<lparr>tb_invalidated_flag := False\<rparr>"
  have w: "hash_wf s C" by (rule hash_wf_frame[of s0]) (use assms(1) in \<open>simp_all add: s_def cache_wf_def\<close>)
  have jc: "\<And>j t. tb_jmp_cache s j = Some t \<Longrightarrow> j = tb_jmp_cache_hash_func (blk_pc (tbs s t)) \<and> (\<exists>h. t \<in> set (C h))"
    using assms(1) by (simp add: s_def cache_wf_def)
  have "bucket s h ([] @ C h)" using w by (simp add: hash_wf_def)
  from find_slow_walk[OF this, where prev = None and pg = pg and pc = pc and cs_base = cs_base and flags = flags and mx = mx] obtain slot found prev us vs where
    walk: "find_slow_loop pg pc cs_base flags mx (Slot_hash h) None s = Some (slot, found, prev)"
    "C h = us @ vs" "slot = slot_after h us" "prev \<in> insert None (Some ` set us)" "\<forall>t\<in>set us. \<not> tb_fits pg pc cs_base flags mx (tbs s t)"
    "case found of None \<Rightarrow> vs = [] | Some tb \<Rightarrow> tb_fits pg pc cs_base flags mx (tbs s tb) \<and> (\<exists>ws. vs = tb # ws)" by auto
  show ?thesis
  proof (cases found)
    case (Some t)
    then obtain ws where vs: "vs = t # ws" and fit: "tb_fits pg pc cs_base flags mx (tbs s t)" using walk(6) by auto
    let ?r = "hash_relink h slot prev t s"
    have r: "tb = t" "s' = ?r\<lparr>tb_jmp_cache := (tb_jmp_cache s)(tb_jmp_cache_hash_func (blk_pc (tbs s t)) \<mapsto> t)\<rparr>"
      using assms(3) walk(1) Some fit unfolding tb_find_slow_def by (auto simp: s_def[symmetric] h_def[symmetric] Let_def relink_state tb_fits_def tb_matches_def)
    have b: "bucket s h (us @ t # ws)" "distinct (us @ t # ws)" "t < nb_tbs s" "hash_of (tbs s t) = h"
      using w walk(2) vs unfolding hash_wf_def by (metis, metis, (metis in_set_conv_decomp)+)
    have "hash_wf (unlinked slot t s) (C(h := us @ ws))" unfolding unlinked_def walk(3)
      by (rule hash_wf_write[OF w walk(2) bucket_suffix[OF b(1)]]) (use b(2) vs in auto)
    moreover have "t \<notin> set ((C(h := us @ ws)) h')" for h'
      using hash_wf_disjoint[OF w, of h h'] walk(2) vs b(2) by (auto split: if_splits)
    moreover have "a = t \<or> (\<exists>h'. a \<in> set ((C(h := us @ ws)) h'))" if a: "\<exists>h'. a \<in> set (C h')" for a
    proof -
      obtain h' where h': "a \<in> set (C h')" using a by blast
      show ?thesis using h' walk(2) vs by (cases "h' = h") (auto intro!: exI[of _ h'])
    qed
    ultimately obtain us' vs' where C': "us @ ws = us' @ vs'" "cache_wf s' (C(h := us' @ t # vs'))"
      using cache_wf_relink[of slot t s "C(h := us @ ws)" prev h] b walk(4) jc unfolding r by fastforce
    have sc: "same_code s s'" using same_code_relink[of s] unfolding r(2) by (simp add: same_code_def)
    then have fit': "tb_fits pg pc cs_base flags mx (tbs s' t)" using fit
      by (simp add: tb_fits_def tb_matches_def tb_second_page_ok_def same_code_def)
    have "set us' \<union> set vs' = set us \<union> set ws" using C'(1) by (metis set_append)
    then have sets: "set ((C(h := us' @ t # vs')) h') = set (C h')" for h' using walk(2) vs by auto
    then have "live (C(h := us' @ t # vs')) = live C" by (simp add: live_def)
    moreover have "same_links s0 s' \<and> \<not> tb_invalidated_flag s'"
      using same_links_relink[of s h slot prev t] unfolding r(2) by (simp add: same_links_def s_def)
    moreover have "nb_tbs s' = nb_tbs s0" by (simp add: r relink_state s_def)
    moreover have "blk_icount (tbs s' t) \<le> max mx (tr_icount (translate pc flags))" using fit' by (simp add: tb_fits_def le_max_iff_disj)
    ultimately show ?thesis using C'(2) fit' r(1) sets
      by (intro exI[of _ "C(h := us' @ t # vs')"]) (simp add: tb_fits_def)
  next
    case None
    then have C: "C h = us" "vs = []" using walk(2,6) by simp_all
    then have nofit: "\<not> (\<exists>t\<in>set (C h). tb_fits pg pc cs_base flags mx (tbs s0 t))" using walk(5) by (simp add: s_def)
    obtain s1 where gen: "tb_gen_code hm pg translate pc cs_base flags 0 s = Some (tb, s1)"
      and s': "s' = (let s2 = (if tb_invalidated_flag s1 then hash_relink h (Slot_hash h) None tb s1 else hash_relink h slot prev tb s1)
        in s2\<lparr>tb_jmp_cache := (tb_jmp_cache s2)(tb_jmp_cache_hash_func pc \<mapsto> tb)\<rparr>)"
      using assms(3) walk(1) None unfolding tb_find_slow_def
      by (auto simp: s_def[symmetric] h_def[symmetric] Let_def Option.bind_eq_Some_conv split: if_splits)
    have fin: ?thesis if H: "hash_wf (unlinked sl tb s1) D" "pv \<in> insert None (Some ` set (D h))" "tb < nb_tbs s1" "\<And>h. tb \<notin> set (D h)"
      "blk_pc (tbs s1 tb) = pc \<and> blk_cs_base (tbs s1 tb) = cs_base \<and> blk_flags (tbs s1 tb) = flags \<and>
       blk_icount (tbs s1 tb) = tr_icount (translate pc flags) \<and> blk_page_addr (tbs s1 tb) 0 = pg pc AND NOT IO_MEM_EXECUTABLE_IO"
      "\<And>j t. tb_jmp_cache s1 j = Some t \<Longrightarrow> j = tb_jmp_cache_hash_func (blk_pc (tbs s1 t)) \<and> (t = tb \<or> (\<exists>h. t \<in> set (D h)))"
      "s' = (hash_relink h sl pv tb s1)\<lparr>tb_jmp_cache := (tb_jmp_cache s1)(tb_jmp_cache_hash_func pc \<mapsto> tb)\<rparr>"
      "live D = (if tb_invalidated_flag s1 then {} else live C)" for sl pv D
    proof -
      have "hash_of (tbs s1 tb) = h" using H(5) page_no_io[OF assms(2)] by (simp add: hash_of_def h_def)
      from cache_wf_relink[OF H(1-3) this H(4,6)] obtain us' vs' where C': "D h = us' @ vs'" "cache_wf s' (D(h := us' @ tb # vs'))"
        using H(5,7) by auto
      have "same_links s1 s' \<and> tb_invalidated_flag s' = tb_invalidated_flag s1"
        using same_links_relink[of s1] unfolding H(7) by (simp add: same_links_def)
      moreover have "live (D(h := us' @ tb # vs')) = insert tb (if tb_invalidated_flag s1 then {} else live C)"
        using live_insert[of D h us' vs' tb] C'(1) H(8) by simp
      moreover have "same_code s1 s'" using same_code_relink[of s1] unfolding H(7) by (simp add: same_code_def)
      ultimately show ?thesis using C'(2) H(5) nofit page_no_io[OF assms(2)] gen[unfolded s_def]
        by (intro exI[of _ "D(h := us' @ tb # vs')"]) (simp add: tb_matches_def same_code_def)
    qed
    from gen show ?thesis
    proof (cases rule: tb_gen_code_new)
      case fresh
      have w1: "hash_wf s1 C" by (rule hash_wf_frame[OF w]) (use fresh in auto)
      have tbC: "tb \<notin> set (C h)" for h using w fresh(1) by (auto simp: hash_wf_def)
      have "hnext s1 tb = None" using fresh(7) by (simp add: hnext_def)
      then have "hash_wf (unlinked slot tb s1) C"
        using hash_wf_write[OF w1, of h us "[]" None "[]"] C walk(3) by (simp add: unlinked_def fun_upd_idem)
      moreover have "tb_jmp_cache s1 j = Some t \<Longrightarrow> j = tb_jmp_cache_hash_func (blk_pc (tbs s1 t)) \<and> (t = tb \<or> (\<exists>h. t \<in> set (C h)))" for j t
        using jc[of j t] fresh(4) fresh(6)[of t] tbC by (cases "t = tb") (auto simp: hview_def)
      moreover have "s' = (hash_relink h slot prev tb s1)\<lparr>tb_jmp_cache := (tb_jmp_cache s1)(tb_jmp_cache_hash_func pc \<mapsto> tb)\<rparr>"
        using s' fresh(5) by (simp add: s_def Let_def relink_state)
      ultimately show ?thesis using fin[of slot C prev] walk(4) C fresh(1,2,5,8) tbC by (simp add: s_def)
    next
      case flushed
      have "hash_wf (unlinked (Slot_hash h) tb s1) (\<lambda>_. [])"
        using flushed by (simp add: hash_wf_def bucket_def unlinked_def hnext_def)
      then show ?thesis using fin[of "Slot_hash h" "\<lambda>_. []" None] flushed s' by (simp add: Let_def relink_state live_def)
    qed
  qed
qed


text \<open>The fast lookup, and the blocks that are gone.\<close>

lemma tb_find_fast_wf:
  assumes "cache_wf s C" "page_aligned pg" "tb_find_fast hm pg translate False mx pc cs_base flags s = Some (tb, s')"
    "tr_icount (translate pc flags) \<le> mx"
  shows "\<exists>C'. cache_wf s' C' \<and> (\<exists>h. tb \<in> set (C' h)) \<and> blk_pc (tbs s' tb) = pc \<and> blk_cs_base (tbs s' tb) = cs_base \<and>
    blk_flags (tbs s' tb) = flags \<and> blk_icount (tbs s' tb) \<le> mx"
proof (cases "tb_find_slow hm pg translate False mx pc cs_base flags s = Some (tb, s')")
  case True
  from tb_find_slow_wf[OF assms(1,2) this] assms(4) show ?thesis
    by (auto simp: tb_matches_def max_def split: if_splits)
next
  case False
  then have "tb_jmp_cache s (tb_jmp_cache_hash_func pc) = Some tb" "s' = s" "blk_pc (tbs s tb) = pc" "blk_cs_base (tbs s tb) = cs_base"
    "blk_flags (tbs s tb) = flags" "blk_icount (tbs s tb) \<le> mx"
    using assms(3) by (auto simp: tb_find_fast_def Let_def split: option.splits if_splits)
  then show ?thesis using assms(1) unfolding cache_wf_def by blast
qed

lemma cache_wf_flush: "tb_flush s = Some s' \<Longrightarrow> cache_wf s' (\<lambda>_. [])"
  by (auto simp: tb_flush_def page_flush_tb_def cache_wf_def hash_wf_def bucket_def split: if_splits)

lemma tb_phys_hash_insert_wf:
  assumes "cache_wf s C" "tb < nb_tbs s" "\<And>h. tb \<notin> set (C h)" "blk_page_addr (tbs s tb) 0 = pg (blk_pc (tbs s tb))"
    and j: "\<And>j t. tb_jmp_cache s j = Some t \<Longrightarrow> t \<noteq> tb"
  shows "\<exists>s' us vs. tb_phys_hash_insert pg tb s = Some s' \<and> C (hash_of (tbs s tb)) = us @ vs \<and>
    cache_wf s' (C(hash_of (tbs s tb) := us @ tb # vs))"
proof -
  let ?h = "hash_of (tbs s tb)"
  have w: "hash_wf s C" using assms(1) by (simp add: cache_wf_def)
  have walk: "\<exists>us vs. hash_insert_loop tb (slot_after h xs) s = Some (slot_after h (xs @ us)) \<and> ys = us @ vs"
    if "bucket s h (xs @ ys)" for h xs ys
    using that
  proof (induction ys arbitrary: xs)
    case Nil
    then show ?case using read_slot_after[OF Nil] by (subst hash_insert_loop.simps) simp
  next
    case (Cons y ys)
    then have "bucket s h ((xs @ [y]) @ ys)" by simp
    from Cons.IH[OF this] obtain us vs where
      "hash_insert_loop tb (slot_after h (xs @ [y])) s = Some (slot_after h ((xs @ [y]) @ us))" "ys = us @ vs" by blast
    then show ?case using read_slot_after[OF Cons.prems]
      by (cases "tb_blocks_related (tbs s tb) (tbs s y) \<and> blk_icount (tbs s y) \<le> blk_icount (tbs s tb)")
        (subst hash_insert_loop.simps, rule exI[of _ "[]"], simp, subst hash_insert_loop.simps, rule exI[of _ "y # us"], auto)
  qed
  have "bucket s ?h ([] @ C ?h)" using w by (simp add: hash_wf_def)
  from walk[OF this] obtain us vs where u: "hash_insert_loop tb (Slot_hash ?h) s = Some (slot_after ?h us)" "C ?h = us @ vs" by auto
  let ?s' = "write_slot (slot_after ?h us) (Some tb) (upd_tb tb (\<lambda>b. b\<lparr>blk_phys_hash_next := read_slot s (slot_after ?h us)\<rparr>) s)"
  have "?h = phys_pc_hash (pg (blk_pc (tbs s tb))) (blk_pc (tbs s tb))" using assms(4) by (simp add: hash_of_def)
  then have "tb_phys_hash_insert pg tb s = Some ?s'" using u(1) by (simp add: tb_phys_hash_insert_def Let_def)
  moreover have "hash_wf ?s' (C(?h := us @ tb # vs))" by (rule hash_wf_insert[OF w u(2) assms(2) refl assms(3)])
  moreover have "\<exists>h. t \<in> set ((C(?h := us @ tb # vs)) h)" if t: "t \<in> set (C h)" for t h
    using t u(2) by (intro exI[of _ h]) auto
  moreover have "blk_pc (tbs ?s' t) = blk_pc (tbs s t)" "tb_jmp_cache ?s' = tb_jmp_cache s" for t by (simp_all add: tbs_write_slot)
  ultimately have "cache_wf ?s' (C(?h := us @ tb # vs))" using assms(1) unfolding cache_wf_def by metis
  then show ?thesis using \<open>tb_phys_hash_insert pg tb s = Some ?s'\<close> u(2) by blast
qed

text \<open>Looking a block up with the cache off forgets every other block of its bucket, although the pages and
  the cache of virtual addresses still know them.\<close>

lemma tb_find_slow_disabled:
  assumes "tb_find_slow hm pg translate True mx pc cs_base flags s = Some (tb, s')"
  shows "bucket s' (phys_pc_hash (pg pc) pc) [tb]"
proof -
  let ?h = "phys_pc_hash (pg pc) pc"
  obtain s0 s1 where g: "tb_gen_code hm pg translate pc cs_base flags 0 s0 = Some (tb, s1)"
    "s' = (hash_relink ?h (Slot_hash ?h) None tb s1)\<lparr>tb_jmp_cache := (tb_jmp_cache (hash_relink ?h (Slot_hash ?h) None tb s1))(tb_jmp_cache_hash_func pc \<mapsto> tb)\<rparr>"
    using assms unfolding tb_find_slow_def by (auto simp: Let_def Option.bind_eq_Some_conv split: if_splits)
  have "hnext s1 tb = None" using g(1) by (cases rule: tb_gen_code_new) (simp_all add: hnext_def)
  then have "bucket (hash_relink ?h (Slot_hash ?h) None tb s1) ?h [tb]"
    by (simp add: bucket_def hash_relink_def Let_def) (simp add: hnext_def tbs_write_slot)
  then show ?thesis by (simp add: g(2) bucket_def hnext_def)
qed

end
