(* ===== verification/TB_Jump.thy ===== *)
theory TB_Jump
  imports TB_Hash
begin

text \<open>Direct jumps between blocks: the circular list of the branches that jump to a block, and that an invalidated
  block is left by no branch of a block in use.\<close>

section \<open>The list of a block\<close>

definition jnext :: "tb_state \<Rightarrow> nat \<times> nat \<Rightarrow> (nat \<times> nat) option" where
  "jnext s c = blk_jmp_next (tbs s (fst c)) (snd c)"

definition jfirst :: "tb_state \<Rightarrow> nat \<Rightarrow> (nat \<times> nat) option" where
  "jfirst s i = blk_jmp_first (tbs s i)"

definition jtarget :: "tb_state \<Rightarrow> nat \<times> nat \<Rightarrow> nat option" where
  "jtarget s c = blk_jmp_target (tbs s (fst c)) (snd c)"

text \<open>The links lead through the branches of the list back to the block itself, marked by the tag 2.\<close>

primrec jchain :: "(nat \<times> nat \<Rightarrow> (nat \<times> nat) option) \<Rightarrow> (nat \<times> nat) option \<Rightarrow> (nat \<times> nat) list \<Rightarrow> nat \<Rightarrow> bool" where
  "jchain nx p [] t \<longleftrightarrow> p = Some (t, EXIT_TB_FORCE)"
| "jchain nx p (c # cs) t \<longleftrightarrow> p = Some c \<and> snd c < 2 \<and> jchain nx (nx c) cs t"

lemma jchain_upd [simp]: "c \<notin> set cs \<Longrightarrow> jchain (nx(c := v)) p cs t = jchain nx p cs t"
  by (induction cs arbitrary: p) auto

lemma jchain_cong: "(\<And>c. c \<in> set cs \<Longrightarrow> nx c = nx' c) \<Longrightarrow> jchain nx p cs t = jchain nx' p cs t"
  by (induction cs arbitrary: p) auto

lemma jchain_suffix: "jchain nx p (us @ c # vs) t \<Longrightarrow> jchain nx (nx c) vs t"
  by (induction us arbitrary: p) auto

lemma jchain_tag: "jchain nx p (us @ c # vs) t \<Longrightarrow> snd c < 2"
  by (induction us arbitrary: p) auto

lemma jchain_splice:
  assumes "jchain nx p (us @ c # vs) t" "distinct (us @ [c])" "jchain nx q zs t" "set (us @ [c]) \<inter> set zs = {}"
  shows "jchain (nx(c := q)) p (us @ c # zs) t"
  using assms by (induction us arbitrary: p) auto

lemma jchain_Some: "jchain nx p cs t \<Longrightarrow> c \<in> set cs \<Longrightarrow> nx c \<noteq> None"
proof (induction cs arbitrary: p)
  case (Cons d cs)
  then show ?case by (cases cs) auto
qed simp

lemma tags [simp]: "EXIT_TB_FORCE = 2" "EXIT_TB_NO_JUMP = 0"
  by (simp_all add: EXIT_TB_FORCE_def EXIT_TB_NO_JUMP_def)

definition cell_after :: "nat \<Rightarrow> (nat \<times> nat) list \<Rightarrow> jmp_slot" where
  "cell_after t us = (if us = [] then Jmp_first t else Jmp_next (fst (last us)) (snd (last us)))"

lemma cell_after_simps [simp]: "cell_after t [] = Jmp_first t" "cell_after t (us @ [c]) = Jmp_next (fst c) (snd c)"
  by (simp_all add: cell_after_def)

lemma read_jmp_simps [simp]: "read_jmp s (Jmp_next a n) = jnext s (a, n)" "read_jmp s (Jmp_first t) = jfirst s t"
  by (simp_all add: jnext_def jfirst_def)

declare read_jmp.simps [simp del]

section \<open>Searching the circle\<close>

lemma jmp_loop_hop:
  assumes "jchain (jnext s) (read_jmp s cell) vs t" "(tb, n) \<notin> set vs" "n < 2"
  shows "jmp_remove_loop tb n cell s = jmp_remove_loop tb n (Jmp_first t) s"
  using assms
proof (induction vs arbitrary: cell)
  case Nil
  then show ?case by (subst jmp_remove_loop.simps) simp
next
  case (Cons c vs)
  have "jmp_remove_loop tb n (Jmp_next (fst c) (snd c)) s = jmp_remove_loop tb n (Jmp_first t) s"
    by (rule Cons.IH) (use Cons.prems in auto)
  moreover have "read_jmp s cell = Some (fst c, snd c)" "\<not> (snd c = n \<and> fst c = tb)" "snd c \<noteq> 2"
    using Cons.prems by (auto simp: prod_eq_iff)
  ultimately show ?case by (subst jmp_remove_loop.simps) (cases c, auto)
qed

lemma jmp_loop_find:
  assumes "jchain (jnext s) (read_jmp s (cell_after t xs)) (us @ (tb, n) # vs) t" "(tb, n) \<notin> set us"
  shows "jmp_remove_loop tb n (cell_after t xs) s = Some (cell_after t (xs @ us))"
  using assms
proof (induction us arbitrary: xs)
  case Nil
  then show ?case by (subst jmp_remove_loop.simps) simp
next
  case (Cons c us)
  have "jmp_remove_loop tb n (cell_after t (xs @ [c])) s = Some (cell_after t ((xs @ [c]) @ us))"
    by (rule Cons.IH) (use Cons.prems in auto)
  moreover have "read_jmp s (cell_after t xs) = Some (fst c, snd c)" "\<not> (snd c = n \<and> fst c = tb)" "snd c \<noteq> 2"
    using Cons.prems by (auto simp: prod_eq_iff)
  ultimately show ?case by (subst jmp_remove_loop.simps) (cases c, auto)
qed

text \<open>The circle from the branch back to the branch gives the cell in front of it.\<close>

lemma jmp_loop_circle:
  assumes "jchain (jnext s) (jfirst s t) (us @ (tb, n) # vs) t" "distinct (us @ (tb, n) # vs)"
  shows "jmp_remove_loop tb n (Jmp_next tb n) s = Some (cell_after t us)"
proof -
  have "n < 2" using jchain_tag[OF assms(1)] by simp
  have "jmp_remove_loop tb n (Jmp_next tb n) s = jmp_remove_loop tb n (Jmp_first t) s"
    by (rule jmp_loop_hop[where vs = vs]) (use jchain_suffix[OF assms(1)] assms(2) \<open>n < 2\<close> in auto)
  also have "\<dots> = Some (cell_after t us)"
    using jmp_loop_find[of s t "[]" us tb n vs] assms by simp
  finally show ?thesis .
qed


section \<open>Consistency\<close>

text \<open>\<^verbatim>\<open>L\<close> are the blocks allocated, \<^verbatim>\<open>J t\<close> the branches that jump to t. A branch is linked exactly when it is in
  a list, and the branches of the blocks of \<^verbatim>\<open>A\<close>, those in use, go where the lists say: a block that was invalidated
  while it runs keeps its branches until it ends.\<close>

definition jmp_wf :: "tb_state \<Rightarrow> nat set \<Rightarrow> nat set \<Rightarrow> (nat \<Rightarrow> (nat \<times> nat) list) \<Rightarrow> bool" where
  "jmp_wf s L A J \<longleftrightarrow> A \<subseteq> L \<and>
     (\<forall>t\<in>L. jchain (jnext s) (jfirst s t) (J t) t \<and> distinct (J t) \<and> fst ` set (J t) \<subseteq> L \<and>
        (\<forall>t'\<in>L. t' \<noteq> t \<longrightarrow> set (J t) \<inter> set (J t') = {})) \<and>
     (\<forall>c. fst c \<in> L \<longrightarrow> jnext s c \<noteq> None \<longrightarrow> (\<exists>t\<in>L. c \<in> set (J t))) \<and>
     (\<forall>c t. fst c \<in> A \<longrightarrow> jtarget s c = Some t \<longrightarrow> t \<in> L \<and> c \<in> set (J t))"

lemma jmp_wfD:
  assumes "jmp_wf s L A J" "t \<in> L"
  shows "jchain (jnext s) (jfirst s t) (J t) t" "distinct (J t)" "fst ` set (J t) \<subseteq> L"
    "\<And>t'. t' \<in> L \<Longrightarrow> t' \<noteq> t \<Longrightarrow> set (J t) \<inter> set (J t') = {}"
  using assms unfolding jmp_wf_def by blast+

lemma jmp_fields_upd [simp]:
  "jnext (upd_tb i (\<lambda>b. b\<lparr>blk_jmp_next := (blk_jmp_next b)(n := v)\<rparr>) s) = (jnext s)((i, n) := v)"
  "jfirst (upd_tb i (\<lambda>b. b\<lparr>blk_jmp_next := x b\<rparr>) s) = jfirst s" "jtarget (upd_tb i (\<lambda>b. b\<lparr>blk_jmp_next := x b\<rparr>) s) = jtarget s"
  "jnext (upd_tb i (\<lambda>b. b\<lparr>blk_jmp_first := w\<rparr>) s) = jnext s" "jfirst (upd_tb i (\<lambda>b. b\<lparr>blk_jmp_first := w\<rparr>) s) = (jfirst s)(i := w)"
  "jtarget (upd_tb i (\<lambda>b. b\<lparr>blk_jmp_first := w\<rparr>) s) = jtarget s"
  "jnext (upd_tb i (\<lambda>b. b\<lparr>blk_jmp_target := y b\<rparr>) s) = jnext s" "jfirst (upd_tb i (\<lambda>b. b\<lparr>blk_jmp_target := y b\<rparr>) s) = jfirst s"
  "jtarget (upd_tb i (\<lambda>b. b\<lparr>blk_jmp_target := (blk_jmp_target b)(n := z)\<rparr>) s) = (jtarget s)((i, n) := z)"
  by (auto simp: jnext_def jfirst_def jtarget_def fun_eq_iff)

lemma write_jmp_fields [simp]:
  "jnext (write_jmp (Jmp_next i n) v s) = (jnext s)((i, n) := v)" "jfirst (write_jmp (Jmp_next i n) v s) = jfirst s"
  "jnext (write_jmp (Jmp_first i) v s) = jnext s" "jfirst (write_jmp (Jmp_first i) v s) = (jfirst s)(i := v)"
  "jtarget (write_jmp l v s) = jtarget s"
  by (cases l; simp)+

declare write_jmp.simps [simp del]

text \<open>Skipping the cell behind \<^verbatim>\<open>us\<close>.\<close>

lemma jchain_write:
  assumes "jchain (jnext s) (jfirst s t) (us @ c # vs) t" "distinct (us @ c # vs)"
  shows "jchain (jnext (write_jmp (cell_after t us) (jnext s c) s)) (jfirst (write_jmp (cell_after t us) (jnext s c) s) t) (us @ vs) t"
proof (cases us rule: rev_cases)
  case Nil
  then show ?thesis using assms by simp
next
  case (snoc us' d)
  have "jchain ((jnext s)(d := jnext s c)) (jfirst s t) (us' @ d # vs) t"
    by (rule jchain_splice[OF _ _ jchain_suffix[OF assms(1)]]) (use assms snoc in auto)
  then show ?thesis by (simp add: snoc)
qed

lemma write_cell_state:
  assumes "us \<noteq> [] \<Longrightarrow> last us \<noteq> c"
  shows "jnext (write_jmp (cell_after t us) v s) c = jnext s c" "t' \<noteq> t \<Longrightarrow> jfirst (write_jmp (cell_after t us) v s) t' = jfirst s t'"
  using assms by (auto simp: cell_after_def)

lemma jmp_wf_cong:
  assumes "jmp_wf s L A J" "jnext s' = jnext s" "jfirst s' = jfirst s" "jtarget s' = jtarget s"
  shows "jmp_wf s' L A J"
  using assms unfolding jmp_wf_def by simp

text \<open>Only the jump fields of the blocks change.\<close>

definition jump_frame :: "tb_state \<Rightarrow> tb_state \<Rightarrow> bool" where
  "jump_frame s s' \<longleftrightarrow> s' = s\<lparr>tbs := tbs s'\<rparr> \<and> (\<forall>i. tbs s' i = (tbs s i)\<lparr>blk_jmp_next := blk_jmp_next (tbs s' i),
     blk_jmp_first := blk_jmp_first (tbs s' i), blk_jmp_target := blk_jmp_target (tbs s' i)\<rparr>)"

lemma jump_frame_refl [simp]: "jump_frame s s"
  by (simp add: jump_frame_def)

lemma jump_frame_trans: "jump_frame s s' \<Longrightarrow> jump_frame s' s'' \<Longrightarrow> jump_frame s s''"
  unfolding jump_frame_def
proof (intro conjI allI; elim conjE)
  assume "s' = s\<lparr>tbs := tbs s'\<rparr>" "s'' = s'\<lparr>tbs := tbs s''\<rparr>"
  then show "s'' = s\<lparr>tbs := tbs s''\<rparr>" by (metis tb_state.surjective tb_state.update_convs(1))
next
  fix i
  let ?u = "\<lambda>x b. b\<lparr>blk_jmp_next := blk_jmp_next x, blk_jmp_first := blk_jmp_first x, blk_jmp_target := blk_jmp_target x\<rparr>"
  assume "\<forall>i. tbs s' i = ?u (tbs s' i) (tbs s i)" "\<forall>i. tbs s'' i = ?u (tbs s'' i) (tbs s' i)"
  then have "tbs s'' i = ?u (tbs s'' i) (?u (tbs s' i) (tbs s i))" by metis
  then show "tbs s'' i = ?u (tbs s'' i) (tbs s i)" by simp
qed

lemma jump_frame_step [simp]:
  "jump_frame s (write_jmp l v s)" "jump_frame s (tb_reset_jump i n s)" "jump_frame s (upd_tb i (\<lambda>b. b\<lparr>blk_jmp_next := x b\<rparr>) s)"
  "jump_frame s (upd_tb i (\<lambda>b. b\<lparr>blk_jmp_target := y b\<rparr>) s)" "jump_frame s (upd_tb i (\<lambda>b. b\<lparr>blk_jmp_first := z\<rparr>) s)"
  by (cases l; simp add: jump_frame_def upd_tb_def write_jmp.simps tb_reset_jump_def)+

lemma jump_frameD:
  assumes "jump_frame s s'"
  shows "nb_tbs s' = nb_tbs s" "l1_map s' = l1_map s" "tb_phys_hash s' = tb_phys_hash s" "tb_jmp_cache s' = tb_jmp_cache s"
    "tb_invalidated_flag s' = tb_invalidated_flag s" "hview (tbs s' i) = hview (tbs s i)" "blk_size (tbs s' i) = blk_size (tbs s i)"
    "blk_page_next (tbs s' i) = blk_page_next (tbs s i)" "blk_page_addr (tbs s' i) = blk_page_addr (tbs s i)" "blk_pc (tbs s' i) = blk_pc (tbs s i)"
proof -
  obtain T where s: "s' = s\<lparr>tbs := T\<rparr>" using assms unfolding jump_frame_def by blast
  show "nb_tbs s' = nb_tbs s" "l1_map s' = l1_map s" "tb_phys_hash s' = tb_phys_hash s" "tb_jmp_cache s' = tb_jmp_cache s"
    "tb_invalidated_flag s' = tb_invalidated_flag s" unfolding s by simp_all
  obtain x y z where b: "tbs s' i = (tbs s i)\<lparr>blk_jmp_next := x, blk_jmp_first := y, blk_jmp_target := z\<rparr>"
    using assms unfolding jump_frame_def by blast
  show "hview (tbs s' i) = hview (tbs s i)" "blk_size (tbs s' i) = blk_size (tbs s i)"
    "blk_page_next (tbs s' i) = blk_page_next (tbs s i)" "blk_page_addr (tbs s' i) = blk_page_addr (tbs s i)" "blk_pc (tbs s' i) = blk_pc (tbs s i)"
    unfolding b by simp_all
qed

lemma tb_jmp_remove_wf:
  assumes "jmp_wf s L A J" "tb \<in> L" "tb \<notin> A"
  shows "\<exists>s' J'. tb_jmp_remove tb n s = Some s' \<and> jmp_wf s' L A J' \<and> jnext s' (tb, n) = None \<and>
    (\<forall>c. jnext s c = None \<longrightarrow> jnext s' c = None) \<and> (\<forall>t. set (J' t) \<subseteq> set (J t)) \<and> jump_frame s s'"
proof (cases "jnext s (tb, n)")
  case None
  then have "tb_jmp_remove tb n s = Some s" by (simp add: tb_jmp_remove_def jnext_def)
  then show ?thesis using assms(1) None jump_frame_refl by blast
next
  case (Some d)
  then obtain t where t: "t \<in> L" "(tb, n) \<in> set (J t)" using assms(1,2) unfolding jmp_wf_def by (metis fst_conv option.distinct(1))
  then obtain us vs where J: "J t = us @ (tb, n) # vs" by (metis split_list)
  note w = jmp_wfD[OF assms(1) t(1), unfolded J]
  define s1 where "s1 = write_jmp (cell_after t us) (jnext s (tb, n)) s"
  define s2 where "s2 = write_jmp (Jmp_next tb n) None s1"
  have "tb_jmp_remove tb n s = Some s2"
    using Some jmp_loop_circle[OF w(1,2)] by (simp add: tb_jmp_remove_def s2_def s1_def jnext_def)
  moreover have "jmp_wf s2 L A (J(t := us @ vs))"
    unfolding jmp_wf_def
  proof (intro conjI ballI allI impI)
    have "A \<subseteq> L" using assms(1) unfolding jmp_wf_def by blast
    then show "A \<subseteq> L" by blast
  next
    fix t' assume t': "t' \<in> L"
    note w' = jmp_wfD[OF assms(1) t']
    have "jchain (jnext s2) (jfirst s2 t) (us @ vs) t"
      using jchain_write[OF w(1,2)] w(2) by (simp add: s2_def s1_def[symmetric])
    moreover have "jchain (jnext s2) (jfirst s2 t') (J t') t'" if "t' \<noteq> t"
    proof -
      have d: "set (us @ (tb, n) # vs) \<inter> set (J t') = {}" using w(4)[OF t' that] by (simp add: J)
      have "jnext s2 c = jnext s c" if "c \<in> set (J t')" for c
        using d that write_cell_state(1)[of us c t "jnext s (tb, n)" s] by (auto simp: s2_def s1_def[symmetric] dest: last_in_set)
      moreover have "jfirst s2 t' = jfirst s t'" using \<open>t' \<noteq> t\<close> by (auto simp: s2_def s1_def cell_after_def)
      ultimately show ?thesis using w'(1) jchain_cong[of "J t'" "jnext s2" "jnext s"] by simp
    qed
    ultimately show "jchain (jnext s2) (jfirst s2 t') ((J(t := us @ vs)) t') t'" by simp
    show "distinct ((J(t := us @ vs)) t')" using w(2) w'(2) by auto
    show "fst ` set ((J(t := us @ vs)) t') \<subseteq> L" using w(3) w'(3) by auto
    show "set ((J(t := us @ vs)) t') \<inter> set ((J(t := us @ vs)) u) = {}" if "u \<in> L" "u \<noteq> t'" for u
      using w(4)[of u] w(4)[of t'] w'(4)[OF that] t' that by auto
  next
    fix c assume c: "fst c \<in> L" "jnext s2 c \<noteq> None"
    then have "c \<noteq> (tb, n)" "jnext s1 c \<noteq> None" by (auto simp: s2_def split: if_splits)
    moreover have "jnext s (last us) \<noteq> None" if "us \<noteq> []" using jchain_Some[OF w(1), of "last us"] that by simp
    ultimately have "jnext s c \<noteq> None" by (auto simp: s1_def cell_after_def split: if_splits)
    then obtain u where "u \<in> L" "c \<in> set (J u)" using assms(1) c(1) unfolding jmp_wf_def by blast
    then show "\<exists>u\<in>L. c \<in> set ((J(t := us @ vs)) u)" using \<open>c \<noteq> (tb, n)\<close> J by (intro bexI[of _ u]) auto
  next
    fix c u assume c: "fst c \<in> A" "jtarget s2 c = Some u"
    then have "jtarget s c = Some u" by (simp add: s2_def s1_def)
    then have "u \<in> L \<and> c \<in> set (J u)" using assms(1) c(1) unfolding jmp_wf_def by blast
    then show "u \<in> L" "c \<in> set ((J(t := us @ vs)) u)" using J c(1) assms(3) by auto
  qed
  moreover have "jnext s2 (tb, n) = None" by (simp add: s2_def)
  moreover have "jnext s2 c = None" if "jnext s c = None" for c
    using that jchain_Some[OF w(1), of "last us"] by (auto simp: s2_def s1_def cell_after_def)
  moreover have "set ((J(t := us @ vs)) t') \<subseteq> set (J t')" for t' using J by auto
  moreover have "jump_frame s s2" unfolding s2_def s1_def by (rule jump_frame_trans[OF jump_frame_step(1) jump_frame_step(1)])
  ultimately show ?thesis by blast
qed

section \<open>Unlinking everything that jumps to a block\<close>

lemma tb_reset_jump_fields [simp]: "jnext (tb_reset_jump t n s) = jnext s" "jfirst (tb_reset_jump t n s) = jfirst s"
  "jtarget (tb_reset_jump t n s) = (jtarget s)((t, n) := None)"
  by (simp_all add: tb_reset_jump_def)

lemma jmp_suppress:
  assumes "jchain (jnext s) p cs t" "distinct cs"
  shows "\<exists>s'. jmp_suppress_loop p s = Some s' \<and> jnext s' = (\<lambda>c. if c \<in> set cs then None else jnext s c) \<and>
    jtarget s' = (\<lambda>c. if c \<in> set cs then None else jtarget s c) \<and> jfirst s' = jfirst s \<and> jump_frame s s'"
  using assms
proof (induction cs arbitrary: p s)
  case Nil
  then show ?case by (subst jmp_suppress_loop.simps) simp
next
  case (Cons c cs)
  let ?s = "write_jmp (Jmp_next (fst c) (snd c)) None (tb_reset_jump (fst c) (snd c) s)"
  have "jchain (jnext ?s) (jnext s c) cs t" using Cons.prems by simp
  from Cons.IH[OF this] Cons.prems(2) obtain s' where s': "jmp_suppress_loop (jnext s c) ?s = Some s'"
    "jnext s' = (\<lambda>d. if d \<in> set cs then None else jnext ?s d)" "jtarget s' = (\<lambda>d. if d \<in> set cs then None else jtarget ?s d)" "jfirst s' = jfirst ?s"
    "jump_frame ?s s'" by auto
  have "jmp_suppress_loop p s = Some s'"
    using s'(1) Cons.prems(1) by (subst jmp_suppress_loop.simps) (simp add: case_prod_beta jnext_def)
  moreover have "jump_frame s s'"
    by (rule jump_frame_trans[OF jump_frame_trans[OF jump_frame_step(2) jump_frame_step(1)] s'(5)])
  ultimately show ?case using s'(2-4) by (auto simp: fun_eq_iff)
qed

text \<open>The steps of an invalidation that concern the jumps: afterwards no branch of a block in use goes to the block.\<close>

lemma jumps_invalidate:
  assumes "jmp_wf s L A J" "tb \<in> L"
  shows "\<exists>s5 s6 s7 s8 J'. tb_jmp_remove tb 0 s = Some s5 \<and> tb_jmp_remove tb 1 s5 = Some s6 \<and>
    jmp_suppress_loop (blk_jmp_first (tbs s6 tb)) s6 = Some s7 \<and> s8 = upd_tb tb (\<lambda>b. b\<lparr>blk_jmp_first := Some (tb, EXIT_TB_FORCE)\<rparr>) s7 \<and>
    jmp_wf s8 L (A - {tb}) J' \<and> J' tb = [] \<and> (\<forall>t. set (J' t) \<subseteq> set (J t)) \<and> jump_frame s s8"
proof -
  have "jmp_wf s L (A - {tb}) J" using assms(1) unfolding jmp_wf_def by blast
  from tb_jmp_remove_wf[OF this assms(2), of 0] obtain s5 J5 where s5: "tb_jmp_remove tb 0 s = Some s5" "jmp_wf s5 L (A - {tb}) J5"
    "jnext s5 (tb, 0) = None" "\<forall>t. set (J5 t) \<subseteq> set (J t)" "jump_frame s s5" by auto
  from tb_jmp_remove_wf[OF s5(2) assms(2), of 1] s5(3) obtain s6 J6 where s6: "tb_jmp_remove tb 1 s5 = Some s6" "jmp_wf s6 L (A - {tb}) J6"
    "\<forall>t. set (J6 t) \<subseteq> set (J5 t)" "jump_frame s5 s6" by auto
  note w = jmp_wfD[OF s6(2) assms(2)]
  from jmp_suppress[OF w(1,2)] obtain s7 where s7: "jmp_suppress_loop (jfirst s6 tb) s6 = Some s7"
    "jnext s7 = (\<lambda>c. if c \<in> set (J6 tb) then None else jnext s6 c)" "jtarget s7 = (\<lambda>c. if c \<in> set (J6 tb) then None else jtarget s6 c)"
    "jfirst s7 = jfirst s6" "jump_frame s6 s7" by blast
  let ?s8 = "upd_tb tb (\<lambda>b. b\<lparr>blk_jmp_first := Some (tb, EXIT_TB_FORCE)\<rparr>) s7"
  have wf: "jmp_wf ?s8 L (A - {tb}) (J6(tb := []))"
    unfolding jmp_wf_def
  proof (intro conjI ballI allI impI)
    have "A \<subseteq> L" using assms(1) unfolding jmp_wf_def by blast
    then show "A - {tb} \<subseteq> L" by blast
  next
    fix t assume t: "t \<in> L"
    note w' = jmp_wfD[OF s6(2) t]
    have "jchain (jnext s7) (jfirst s6 t) (J6 t) t = jchain (jnext s6) (jfirst s6 t) (J6 t) t" if "t \<noteq> tb"
      using w(4)[OF t that] by (intro jchain_cong) (auto simp: s7(2))
    then show "jchain (jnext ?s8) (jfirst ?s8 t) ((J6(tb := [])) t) t" using w'(1) by (simp add: s7(4))
    show "distinct ((J6(tb := [])) t)" using w'(2) by simp
    show "fst ` set ((J6(tb := [])) t) \<subseteq> L" using w'(3) by auto
    show "set ((J6(tb := [])) t) \<inter> set ((J6(tb := [])) t') = {}" if "t' \<in> L" "t' \<noteq> t" for t' using w'(4) that by auto
  next
    fix c assume c: "fst c \<in> L" "jnext ?s8 c \<noteq> None"
    then have "c \<notin> set (J6 tb)" "jnext s6 c \<noteq> None" by (auto simp: s7(2) split: if_splits)
    then obtain t where "t \<in> L" "c \<in> set (J6 t)" using s6(2) c(1) unfolding jmp_wf_def by blast
    then show "\<exists>t\<in>L. c \<in> set ((J6(tb := [])) t)" using \<open>c \<notin> set (J6 tb)\<close> by (intro bexI[of _ t]) auto
  next
    fix c t assume c: "fst c \<in> A - {tb}" "jtarget ?s8 c = Some t"
    then have *: "c \<notin> set (J6 tb)" "jtarget s6 c = Some t" by (auto simp: s7(3) split: if_splits)
    then have "t \<in> L \<and> c \<in> set (J6 t)" using s6(2) c(1) unfolding jmp_wf_def by blast
    then show "t \<in> L" "c \<in> set ((J6(tb := [])) t)" using *(1) by auto
  qed
  have "jump_frame s ?s8"
    by (rule jump_frame_trans[OF jump_frame_trans[OF jump_frame_trans[OF s5(5) s6(4)] s7(5)] jump_frame_step(5)])
  moreover have "set ((J6(tb := [])) t) \<subseteq> set (J t)" for t using s5(4) s6(3) by (simp add: subset_iff)
  moreover have "blk_jmp_first (tbs s6 tb) = jfirst s6 tb" by (simp add: jfirst_def)
  ultimately show ?thesis using s5(1) s6(1) s7(1) wf by (intro exI[of _ s5] exI[of _ s6] exI[of _ s7] exI[of _ ?s8] exI[of _ "J6(tb := [])"]) simp
qed

text \<open>Chaining two blocks.\<close>

lemma tb_add_jump_wf:
  assumes "jmp_wf s L A J" "tb \<in> L" "t \<in> L" "n < 2"
  shows "\<exists>J'. jmp_wf (tb_add_jump tb n t s) L A J' \<and> (jnext s (tb, n) = None \<longrightarrow> jtarget (tb_add_jump tb n t s) (tb, n) = Some t) \<and>
    (\<forall>u. u \<noteq> t \<longrightarrow> J' u = J u)"
proof (cases "jnext s (tb, n)")
  case (Some d)
  then have "tb_add_jump tb n t s = s" by (simp add: tb_add_jump_def jnext_def)
  then show ?thesis using assms(1) Some by (intro exI[of _ J]) simp
next
  case None
  let ?s = "tb_add_jump tb n t s"
  have f: "jnext ?s = (jnext s)((tb, n) := jfirst s t)" "jfirst ?s = (jfirst s)(t := Some (tb, n))" "jtarget ?s = (jtarget s)((tb, n) := Some t)"
    using None by (simp_all add: tb_add_jump_def jnext_def[symmetric] Let_def)
      (simp_all add: jnext_def jfirst_def jtarget_def fun_eq_iff)
  have new: "(tb, n) \<notin> set (J u)" if "u \<in> L" for u
    using jchain_Some[OF jmp_wfD(1)[OF assms(1) that], of "(tb, n)"] None by blast
  have "jmp_wf ?s L A (J(t := (tb, n) # J t))"
    unfolding jmp_wf_def
  proof (intro conjI ballI allI impI)
    have "A \<subseteq> L" using assms(1) unfolding jmp_wf_def by blast
    then show "A \<subseteq> L" by blast
  next
    fix u assume u: "u \<in> L"
    note w = jmp_wfD[OF assms(1) u]
    show "jchain (jnext ?s) (jfirst ?s u) ((J(t := (tb, n) # J t)) u) u" using w(1) new[OF u] assms(4) by (auto simp: f)
    show "distinct ((J(t := (tb, n) # J t)) u)" using w(2) new[OF u] by auto
    show "fst ` set ((J(t := (tb, n) # J t)) u) \<subseteq> L" using w(3) assms(2) by auto
    show "set ((J(t := (tb, n) # J t)) u) \<inter> set ((J(t := (tb, n) # J t)) u') = {}" if "u' \<in> L" "u' \<noteq> u" for u'
      using w(4)[OF that] new[OF u] new[OF that(1)] that(2) by auto
  next
    fix c assume c: "fst c \<in> L" "jnext ?s c \<noteq> None"
    show "\<exists>u\<in>L. c \<in> set ((J(t := (tb, n) # J t)) u)"
    proof (cases "c = (tb, n)")
      case True
      then show ?thesis using assms(3) by (intro bexI[of _ t]) auto
    next
      case False
      then have "jnext s c \<noteq> None" using c(2) by (simp add: f)
      then obtain u where "u \<in> L" "c \<in> set (J u)" using assms(1) c(1) unfolding jmp_wf_def by blast
      then show ?thesis by (intro bexI[of _ u]) auto
    qed
  next
    fix c u assume c: "fst c \<in> A" "jtarget ?s c = Some u"
    have "u \<in> L \<and> c \<in> set (J u)" if "c \<noteq> (tb, n)"
    proof -
      have "jtarget s c = Some u" using c(2) that by (simp add: f)
      then show ?thesis using assms(1) c(1) unfolding jmp_wf_def by blast
    qed
    moreover have "u = t" if "c = (tb, n)" using c(2) that by (simp add: f)
    ultimately show "u \<in> L" "c \<in> set ((J(t := (tb, n) # J t)) u)" using assms(3) by auto
  qed
  then show ?thesis by (intro exI[of _ "J(t := (tb, n) # J t)"]) (simp add: f)
qed

lemma jump_frame_add: "jump_frame s (tb_add_jump tb n t s)"
  unfolding tb_add_jump_def Let_def
  by (auto intro!: jump_frame_trans[OF jump_frame_trans[OF jump_frame_step(4) jump_frame_step(3)] jump_frame_step(5)])

text \<open>A block that is new or no longer referred to, with no branch linked.\<close>

lemma jmp_wf_new:
  assumes "jmp_wf s L A J" "tb \<notin> L"
    "\<And>c. fst c \<in> L \<Longrightarrow> jnext s' c = jnext s c \<and> jtarget s' c = jtarget s c" "\<And>i. i \<in> L \<Longrightarrow> jfirst s' i = jfirst s i"
    "\<And>n. jnext s' (tb, n) = None \<and> jtarget s' (tb, n) = None" "jfirst s' tb = Some (tb, EXIT_TB_FORCE)"
  shows "jmp_wf s' (insert tb L) (insert tb A) (J(tb := []))"
  unfolding jmp_wf_def
proof (intro conjI ballI allI impI)
  have "A \<subseteq> L" using assms(1) unfolding jmp_wf_def by blast
  then show "insert tb A \<subseteq> insert tb L" by blast
next
  fix t assume t: "t \<in> insert tb L"
  show "jchain (jnext s') (jfirst s' t) ((J(tb := [])) t) t"
  proof (cases "t = tb")
    case False
    then have "t \<in> L" using t by simp
    note w = jmp_wfD[OF assms(1) this]
    have "jchain (jnext s') (jfirst s t) (J t) t = jchain (jnext s) (jfirst s t) (J t) t"
      using w(3) assms(3) by (intro jchain_cong) blast
    then show ?thesis using False w(1) assms(4)[OF \<open>t \<in> L\<close>] by simp
  qed (use assms(6) in simp)
  show "distinct ((J(tb := [])) t)" "fst ` set ((J(tb := [])) t) \<subseteq> insert tb L" using jmp_wfD(2,3)[OF assms(1)] t by auto
  show "set ((J(tb := [])) t) \<inter> set ((J(tb := [])) t') = {}" if "t' \<in> insert tb L" "t' \<noteq> t" for t'
    using jmp_wfD(4)[OF assms(1)] t that by auto
next
  fix c assume c: "fst c \<in> insert tb L" "jnext s' c \<noteq> None"
  have "fst c \<noteq> tb" using c(2) assms(5)[of "snd c"] by auto
  then have "fst c \<in> L" "jnext s c \<noteq> None" using c assms(3)[of c] by auto
  then obtain t where "t \<in> L" "c \<in> set (J t)" using assms(1) unfolding jmp_wf_def by blast
  then show "\<exists>t\<in>insert tb L. c \<in> set ((J(tb := [])) t)" using assms(2) by (intro bexI[of _ t]) auto
next
  fix c t assume c: "fst c \<in> insert tb A" "jtarget s' c = Some t"
  then have "fst c \<noteq> tb" using assms(5)[of "snd c"] by auto
  then have "fst c \<in> A" using c(1) by simp
  have "fst c \<in> L \<Longrightarrow> t \<in> L \<and> c \<in> set (J t)" using assms(1,3) c(2) \<open>fst c \<in> A\<close> unfolding jmp_wf_def by metis
  then show "t \<in> insert tb L" "c \<in> set ((J(tb := [])) t)" using assms(2) \<open>fst c \<in> A\<close> assms(1) by (auto simp: jmp_wf_def)
qed

end
