(* ===== verification/TB_Pages.thy ===== *)
theory TB_Pages
  imports TB_Jump
begin

text \<open>The list of the blocks of a page: links of the pages of the blocks from the page descriptor on. Taking a block
  off its pages and putting a new block on them keep the lists, and a bitmap of the bytes with code that
  is kept for a page is exact.\<close>

section \<open>Addresses\<close>

lemma page_off_eq: "unat (pc AND NOT TARGET_PAGE_MASK32) = unat pc mod 256"
proof -
  have "pc AND NOT TARGET_PAGE_MASK32 = take_bit 8 pc" by (simp only: TARGET_PAGE_MASK32_def take_bit_eq_mask bit.double_compl)
  then have "unat (pc AND NOT TARGET_PAGE_MASK32) = take_bit 8 (unat pc)" by (simp only: unsigned_take_bit_eq)
  then show ?thesis by (simp add: take_bit_eq_mod)
qed

lemma page_base_eq: "pc AND TARGET_PAGE_MASK32 = push_bit 8 (drop_bit 8 pc)"
  by (rule bit_word_eqI) (auto simp: TARGET_PAGE_MASK32_def bit_and_iff bit_not_iff bit_mask_iff bit_push_bit_iff bit_drop_bit_eq)

lemma page_base_nat: "unat (pc AND TARGET_PAGE_MASK32) = unat pc div 256 * 256"
proof -
  have "unat pc < 2 ^ LENGTH(32)" by (rule unsigned_less)
  then have "unat pc div 256 < 2 ^ 24" by simp
  then have "unat (push_bit 8 (drop_bit 8 pc)) = unat pc div 256 * 256"
    unfolding unsigned_push_bit_eq unsigned_drop_bit_eq by (simp add: take_bit_eq_mod push_bit_eq_mult drop_bit_eq_div)
  then show ?thesis by (simp add: page_base_eq)
qed

lemma page_cross_nat:
  fixes p s :: nat
  assumes "p < 2 ^ 32" "0 < s" "s \<le> 256"
  defines "e \<equiv> (p + s - 1) mod 2 ^ 32"
  shows "p div 256 = e div 256 \<longleftrightarrow> p mod 256 + s \<le> 256" "256 < p mod 256 + s \<Longrightarrow> e div 256 * 256 = (p div 256 * 256 + 256) mod 2 ^ 32"
proof -
  define q r where qr: "q = p div 256" "r = p mod 256"
  have p: "p = 256 * q + r" "r < 256" "q < 2 ^ 24" using assms(1) by (simp_all add: qr)
  have c1: "(p + s - 1) div 256 = q" if "r + s \<le> 256"
  proof -
    have "p + s - 1 = r + s - 1 + 256 * q" using p assms(2) by simp
    then show ?thesis using that assms(2) by simp
  qed
  have c2: "(p + s - 1) div 256 = q + 1" if "256 < r + s"
  proof -
    have "p + s - 1 = r + s - 257 + 256 * (q + 1)" "r + s - 257 < 256" using p assms(3) that by simp_all
    then show ?thesis by simp
  qed
  have e: "e div 256 = (p + s - 1) div 256 mod 2 ^ 24"
    using div_mod_decomp[of "p + s - 1" "2 ^ 32"] by (simp add: e_def mod_mult2_eq[of _ 256 "2 ^ 24", simplified])
  have "e div 256 = q" if "r + s \<le> 256" using e c1[OF that] p(3) by simp
  moreover have "e div 256 = (q + 1) mod 2 ^ 24" if "256 < r + s" using e c2[OF that] by simp
  moreover have "(q + 1) mod 2 ^ 24 \<noteq> q" using p(3) by (cases "q + 1 = 2 ^ 24") auto
  ultimately show "p div 256 = e div 256 \<longleftrightarrow> p mod 256 + s \<le> 256" unfolding qr[symmetric] by (metis not_le)
  assume "256 < p mod 256 + s"
  then have "e div 256 = (q + 1) mod 2 ^ 24" using \<open>256 < r + s \<Longrightarrow> e div 256 = (q + 1) mod 2 ^ 24\<close> by (simp add: qr(2))
  moreover have "(q + 1) mod 2 ^ 24 * 256 = (q * 256 + 256) mod 2 ^ 32"
    using mult_mod_left[of "q + 1" "2 ^ 24" 256] by (simp add: add.commute)
  ultimately show "e div 256 * 256 = (p div 256 * 256 + 256) mod 2 ^ 32" by (simp add: qr)
qed

lemma page_cross:
  fixes size :: u16
  assumes "unat size \<le> 256"
  shows "(0 < size \<and> pc AND TARGET_PAGE_MASK32 \<noteq> (pc + ucast size - 1) AND TARGET_PAGE_MASK32) \<longleftrightarrow> 256 < unat pc mod 256 + unat size"
    "256 < unat pc mod 256 + unat size \<Longrightarrow> (pc + ucast size - 1) AND TARGET_PAGE_MASK32 = (pc AND TARGET_PAGE_MASK32) + 256"
proof -
  let ?e = "pc + ucast size - 1"
  have "unat pc < 2 ^ LENGTH(32)" by (rule unsigned_less)
  then have p: "unat pc < 2 ^ 32" by simp
  have r: "unat pc mod 256 < 256" by simp
  have e: "unat ?e = (unat pc + unat size - 1) mod 2 ^ 32" if "0 < unat size"
  proof -
    have "(of_nat (unat pc + unat size - 1) :: u32) = ?e" using that by (simp add: of_nat_diff)
    then show ?thesis using unat_of_nat[of "unat pc + unat size - 1", where 'a = 32] by simp
  qed
  note c = page_cross_nat[OF p _ assms]
  have eq: "pc AND TARGET_PAGE_MASK32 = ?e AND TARGET_PAGE_MASK32 \<longleftrightarrow> unat pc div 256 = unat ?e div 256"
    by (simp add: word_unat_eq_iff page_base_nat)
  have pos: "0 < size \<longleftrightarrow> 0 < unat size" by (simp add: word_less_nat_alt)
  show "(0 < size \<and> pc AND TARGET_PAGE_MASK32 \<noteq> ?e AND TARGET_PAGE_MASK32) \<longleftrightarrow> 256 < unat pc mod 256 + unat size"
    using c(1) e eq pos r by (cases "0 < unat size") auto
  show "?e AND TARGET_PAGE_MASK32 = (pc AND TARGET_PAGE_MASK32) + 256" if H: "256 < unat pc mod 256 + unat size"
  proof -
    have "0 < unat size" using H r by linarith
    then show ?thesis using c(2)[OF _ H] e by (simp add: word_unat_eq_iff page_base_nat unat_word_ariths)
  qed
qed

section \<open>Lists and bitmaps of the pages\<close>

definition pkey :: "u64 \<Rightarrow> nat" where
  "pkey index = unat (index AND 0xFFF)"

definition page_desc :: "tb_state \<Rightarrow> nat \<Rightarrow> PageDesc option" where
  "page_desc s k = map_option (\<lambda>pd. pd (k mod 1024)) (l1_map s k)"

definition pfirst :: "tb_state \<Rightarrow> nat \<Rightarrow> (nat \<times> nat) option" where
  "pfirst s k = (case page_desc s k of None \<Rightarrow> None | Some p \<Rightarrow> first_tb p)"

definition pbits :: "tb_state \<Rightarrow> nat \<Rightarrow> u8 list option" where
  "pbits s k = (case page_desc s k of None \<Rightarrow> None | Some p \<Rightarrow> code_bitmap p)"

definition pnext :: "tb_state \<Rightarrow> nat \<times> nat \<Rightarrow> (nat \<times> nat) option" where
  "pnext s c = blk_page_next (tbs s (fst c)) (snd c)"

lemma pkey_mod: "unat (index AND 0x3FF) = pkey index mod 1024"
proof -
  have "(0x3FF::u64) = mask 10" "(0xFFF::u64) = mask 12" by (simp_all add: mask_eq_exp_minus_1)
  then have "unat (index AND 0x3FF) = take_bit 10 (unat index)" "pkey index = take_bit 12 (unat index)"
    by (simp_all only: pkey_def take_bit_eq_mask[symmetric] unsigned_take_bit_eq)
  then show ?thesis by (simp add: take_bit_eq_mod mod_mod_cancel)
qed

lemma page_find_desc: "page_find index s = page_desc s (pkey index)"
  by (simp add: page_find_def page_desc_def pkey_mod) (simp add: pkey_def)

lemma page_desc_upd [simp]:
  "page_desc (page_upd index f s) = (page_desc s)(pkey index := map_option f (page_desc s (pkey index)))"
  by (auto simp: fun_eq_iff page_desc_def page_upd_def pkey_mod pkey_def[symmetric] split: option.split)

lemma page_desc_alloc [simp]:
  "page_desc (page_alloc index s) =
     (case page_desc s (pkey index) of None \<Rightarrow> (page_desc s)(pkey index \<mapsto> page_init_desc) | Some _ \<Rightarrow> page_desc s)"
  by (auto simp: fun_eq_iff page_desc_def page_alloc_def pkey_def[symmetric] split: option.split)

lemma page_desc_state [simp]: "page_desc (upd_tb i g s) = page_desc s" "page_desc (s\<lparr>tbs := T\<rparr>) = page_desc s"
  "page_desc (s\<lparr>code_gen_ptr := p\<rparr>) = page_desc s" "page_desc (s\<lparr>tb_invalidated_flag := f\<rparr>) = page_desc s"
  "page_desc (s\<lparr>nb_tbs := n\<rparr>) = page_desc s"
  by (simp_all add: fun_eq_iff page_desc_def)

lemma pnext_upd [simp]:
  "pnext (page_upd index f s) = pnext s" "pnext (page_alloc index s) = pnext s"
  "pnext (upd_tb i (\<lambda>b. b\<lparr>blk_page_next := (blk_page_next b)(n := v)\<rparr>) s) = (pnext s)((i, n) := v)"
  "pnext (upd_tb i (\<lambda>b. b\<lparr>blk_page_addr := x b\<rparr>) s) = pnext s"
  by (auto simp: pnext_def fun_eq_iff)

lemma read_page_simps [simp]: "read_page s (Page_first index) = pfirst s (pkey index)" "read_page s (Page_next a n) = pnext s (a, n)"
  by (simp_all add: pfirst_def pnext_def page_find_desc)

declare read_page.simps [simp del]

text \<open>The bytes of a page that a block covers.\<close>

definition page_bytes :: "TranslationBlock \<Rightarrow> nat \<Rightarrow> nat set" where
  "page_bytes b n = (if n = 0 then {unat (blk_pc b AND NOT TARGET_PAGE_MASK32) ..<
                       min 256 (unat (blk_pc b AND NOT TARGET_PAGE_MASK32) + unat (blk_size b))}
                     else {..< unat ((blk_pc b + ucast (blk_size b)) AND NOT TARGET_PAGE_MASK32)})"

definition bitmap_bit :: "u8 list \<Rightarrow> nat \<Rightarrow> bool" where
  "bitmap_bit bm j = bit (bm ! (j div 8)) (j mod 8)"

definition bitmap_exact :: "tb_state \<Rightarrow> (nat \<times> nat) list \<Rightarrow> u8 list \<Rightarrow> bool" where
  "bitmap_exact s cs bm \<longleftrightarrow> length bm = 32 \<and>
     (\<forall>j<256. bitmap_bit bm j \<longleftrightarrow> (\<exists>c\<in>set cs. j \<in> page_bytes (tbs s (fst c)) (snd c)))"

definition pages_wf :: "tb_state \<Rightarrow> (nat \<Rightarrow> (nat \<times> nat) list) \<Rightarrow> bool" where
  "pages_wf s P \<longleftrightarrow> (\<forall>k. chain (pnext s) (pfirst s k) (P k) \<and> distinct (map fst (P k)) \<and>
     (\<forall>k'. k' \<noteq> k \<longrightarrow> set (P k) \<inter> set (P k') = {}) \<and> (\<forall>bm. pbits s k = Some bm \<longrightarrow> bitmap_exact s (P k) bm))"

text \<open>The lists hold the pages of the blocks of \<^verbatim>\<open>A\<close>.\<close>

definition on_page :: "TranslationBlock \<Rightarrow> nat \<Rightarrow> nat \<Rightarrow> bool" where
  "on_page b n k \<longleftrightarrow> (n = 0 \<or> n = 1 \<and> blk_page_addr b 1 \<noteq> - 1) \<and> pkey (drop_bit 8 (blk_page_addr b n)) = k"

definition page_members :: "tb_state \<Rightarrow> nat set \<Rightarrow> (nat \<Rightarrow> (nat \<times> nat) list) \<Rightarrow> bool" where
  "page_members s A P \<longleftrightarrow> (\<forall>k c. c \<in> set (P k) \<longleftrightarrow> fst c \<in> A \<and> on_page (tbs s (fst c)) (snd c) k)"

lemma pages_wfD:
  assumes "pages_wf s P"
  shows "chain (pnext s) (pfirst s k) (P k)" "distinct (map fst (P k))" "\<And>k'. k' \<noteq> k \<Longrightarrow> set (P k) \<inter> set (P k') = {}"
    "\<And>bm. pbits s k = Some bm \<Longrightarrow> bitmap_exact s (P k) bm"
  using assms unfolding pages_wf_def by blast+

lemma pages_wf_cong:
  assumes "pages_wf s P" "page_desc s' = page_desc s"
    "\<And>c k. c \<in> set (P k) \<Longrightarrow> pnext s' c = pnext s c \<and> blk_pc (tbs s' (fst c)) = blk_pc (tbs s (fst c)) \<and> blk_size (tbs s' (fst c)) = blk_size (tbs s (fst c))"
  shows "pages_wf s' P"
  unfolding pages_wf_def
proof (intro allI conjI impI)
  fix k
  note w = pages_wfD[OF assms(1), where k = k]
  have p: "pfirst s' = pfirst s" "pbits s' = pbits s" using assms(2) by (simp_all add: fun_eq_iff pfirst_def pbits_def)
  show "chain (pnext s') (pfirst s' k) (P k)" using w(1) chain_cong[of "P k" "pnext s'" "pnext s"] assms(3) p by simp
  show "distinct (map fst (P k))" by (rule w(2))
  show "set (P k) \<inter> set (P k') = {}" if "k' \<noteq> k" for k' by (rule w(3)[OF that])
  show "bitmap_exact s' (P k) bm" if "pbits s' k = Some bm" for bm
  proof -
    have "page_bytes (tbs s' (fst c)) (snd c) = page_bytes (tbs s (fst c)) (snd c)" if "c \<in> set (P k)" for c
      using assms(3)[OF that] by (simp add: page_bytes_def)
    moreover have "bitmap_exact s (P k) bm" using w(4) that p by simp
    ultimately show ?thesis by (simp add: bitmap_exact_def)
  qed
qed

lemma page_members_cong:
  assumes "page_members s A P" "\<And>i. i \<in> A \<Longrightarrow> blk_page_addr (tbs s' i) = blk_page_addr (tbs s i)"
  shows "page_members s' A P"
  using assms by (simp add: page_members_def on_page_def) (metis (no_types, lifting))

section \<open>Taking a block off a page\<close>

text \<open>Only the page lists change.\<close>

definition page_frame :: "tb_state \<Rightarrow> tb_state \<Rightarrow> bool" where
  "page_frame s s' \<longleftrightarrow> s' = s\<lparr>tbs := tbs s', l1_map := l1_map s'\<rparr> \<and>
     (\<forall>i. tbs s' i = (tbs s i)\<lparr>blk_page_next := blk_page_next (tbs s' i)\<rparr>)"

lemma page_frame_refl [simp]: "page_frame s s"
  by (simp add: page_frame_def)

lemma page_frame_trans: "page_frame s s' \<Longrightarrow> page_frame s' s'' \<Longrightarrow> page_frame s s''"
  unfolding page_frame_def
proof (intro conjI allI; elim conjE)
  assume "s' = s\<lparr>tbs := tbs s', l1_map := l1_map s'\<rparr>" "s'' = s'\<lparr>tbs := tbs s'', l1_map := l1_map s''\<rparr>"
  then show "s'' = s\<lparr>tbs := tbs s'', l1_map := l1_map s''\<rparr>"
    by (metis (no_types, lifting) tb_state.surjective tb_state.update_convs(1) tb_state.update_convs(6))
next
  fix i
  let ?u = "\<lambda>x b. b\<lparr>blk_page_next := blk_page_next x\<rparr>"
  assume "\<forall>i. tbs s' i = ?u (tbs s' i) (tbs s i)" "\<forall>i. tbs s'' i = ?u (tbs s'' i) (tbs s' i)"
  then have "tbs s'' i = ?u (tbs s'' i) (?u (tbs s' i) (tbs s i))" by metis
  then show "tbs s'' i = ?u (tbs s'' i) (tbs s i)" by simp
qed

lemma page_frame_step [simp]: "page_frame s (page_upd index f s)" "page_frame s (write_page l v s)"
proof -
  show a: "page_frame s (page_upd index f s)" for index f
    by (simp add: page_frame_def page_upd_def split: option.split)
  show "page_frame s (write_page l v s)"
    by (cases l) (simp_all add: a, simp add: page_frame_def upd_tb_def)
qed

lemma page_frameD:
  assumes "page_frame s s'"
  shows "nb_tbs s' = nb_tbs s" "tb_phys_hash s' = tb_phys_hash s" "tb_jmp_cache s' = tb_jmp_cache s"
    "tb_invalidated_flag s' = tb_invalidated_flag s" "hview (tbs s' i) = hview (tbs s i)" "blk_size (tbs s' i) = blk_size (tbs s i)"
    "blk_page_addr (tbs s' i) = blk_page_addr (tbs s i)" "blk_pc (tbs s' i) = blk_pc (tbs s i)"
    "jnext s' = jnext s" "jfirst s' = jfirst s" "jtarget s' = jtarget s"
proof -
  obtain T M where s: "s' = s\<lparr>tbs := T, l1_map := M\<rparr>" using assms unfolding page_frame_def by blast
  show "nb_tbs s' = nb_tbs s" "tb_phys_hash s' = tb_phys_hash s" "tb_jmp_cache s' = tb_jmp_cache s"
    "tb_invalidated_flag s' = tb_invalidated_flag s" unfolding s by simp_all
  have b: "\<exists>x. tbs s' i = (tbs s i)\<lparr>blk_page_next := x\<rparr>" for i using assms unfolding page_frame_def by blast
  show "hview (tbs s' i) = hview (tbs s i)" "blk_size (tbs s' i) = blk_size (tbs s i)"
    "blk_page_addr (tbs s' i) = blk_page_addr (tbs s i)" "blk_pc (tbs s' i) = blk_pc (tbs s i)" using b[of i] by auto
  have "blk_jmp_next (tbs s' i) = blk_jmp_next (tbs s i) \<and> blk_jmp_first (tbs s' i) = blk_jmp_first (tbs s i) \<and>
    blk_jmp_target (tbs s' i) = blk_jmp_target (tbs s i)" for i using b[of i] by auto
  then show "jnext s' = jnext s" "jfirst s' = jfirst s" "jtarget s' = jtarget s"
    by (simp_all add: fun_eq_iff jnext_def jfirst_def jtarget_def)
qed

definition page_slot_after :: "u64 \<Rightarrow> (nat \<times> nat) list \<Rightarrow> page_slot" where
  "page_slot_after index us = (if us = [] then Page_first index else Page_next (fst (last us)) (snd (last us)))"

lemma page_slot_after_simps [simp]: "page_slot_after index [] = Page_first index" "page_slot_after index (us @ [c]) = Page_next (fst c) (snd c)"
  by (simp_all add: page_slot_after_def)

lemma tb_page_remove_walk:
  assumes "chain (pnext s) (read_page s (page_slot_after index xs)) (us @ c # vs)" "fst c = tb" "tb \<notin> fst ` set us"
  shows "tb_page_remove (page_slot_after index xs) tb s = Some (write_page (page_slot_after index (xs @ us)) (pnext s c) s)"
  using assms
proof (induction us arbitrary: xs)
  case Nil
  then show ?case by (subst tb_page_remove.simps) (cases c, simp add: pnext_def)
next
  case (Cons d us)
  have "tb_page_remove (page_slot_after index (xs @ [d])) tb s = Some (write_page (page_slot_after index ((xs @ [d]) @ us)) (pnext s c) s)"
    by (rule Cons.IH) (use Cons.prems in auto)
  moreover have "read_page s (page_slot_after index xs) = Some d" "fst d \<noteq> tb" using Cons.prems by auto
  ultimately show ?case by (subst tb_page_remove.simps) (cases d, auto)
qed

lemma write_page_simps [simp]:
  "pnext (write_page (Page_next i n) v s) = (pnext s)((i, n) := v)" "page_desc (write_page (Page_next i n) v s) = page_desc s"
  "pnext (write_page (Page_first index) v s) = pnext s"
  "page_desc (write_page (Page_first index) v s) = (page_desc s)(pkey index := map_option (\<lambda>p. p\<lparr>first_tb := v\<rparr>) (page_desc s (pkey index)))"
  by simp_all

lemma chain_remove:
  assumes "chain (pnext s) (pfirst s (pkey index)) (us @ c # vs)" "distinct (us @ c # vs)"
  shows "chain (pnext (write_page (page_slot_after index us) (pnext s c) s)) (pfirst (write_page (page_slot_after index us) (pnext s c) s) (pkey index)) (us @ vs)"
proof (cases us rule: rev_cases)
  case Nil
  then have "pfirst s (pkey index) = Some c" using assms by simp
  then show ?thesis using Nil assms by (auto simp: pfirst_def split: option.splits)
next
  case (snoc us' d)
  have suf: "chain nx p (ws @ c # vs) \<Longrightarrow> chain nx (nx c) vs" for nx :: "nat \<times> nat \<Rightarrow> _" and p ws
    by (induction ws arbitrary: p) auto
  have "chain ((pnext s)(d := pnext s c)) (pfirst s (pkey index)) (us' @ d # vs)"
    by (rule chain_splice[OF _ _ suf[OF assms(1)]]) (use assms snoc in auto)
  then show ?thesis by (simp add: snoc pfirst_def)
qed

lemma filter_other:
  assumes "distinct (map fst (us @ c # vs))"
  shows "filter (\<lambda>d. fst d \<noteq> fst c) (us @ c # vs) = us @ vs"
proof -
  have "filter (\<lambda>d. fst d \<noteq> fst c) us = us" "filter (\<lambda>d. fst d \<noteq> fst c) vs = vs"
    using assms by (auto intro!: filter_True simp: image_iff)
  then show ?thesis by simp
qed

lemma remove_from_page_wf:
  assumes "pages_wf s P" "c \<in> set (P (pkey (drop_bit 8 addr)))" "fst c = tb"
  shows "\<exists>s'. remove_from_page tb addr s = Some s' \<and> page_frame s s' \<and>
    pages_wf s' (P(pkey (drop_bit 8 addr) := filter (\<lambda>d. fst d \<noteq> tb) (P (pkey (drop_bit 8 addr)))))"
proof -
  let ?i = "drop_bit 8 addr" and ?k = "pkey (drop_bit 8 addr)"
  obtain us vs where k: "P ?k = us @ c # vs" using assms(2) by (metis split_list)
  note w = pages_wfD[OF assms(1), where k = ?k, unfolded k]
  have P: "P(?k := filter (\<lambda>d. fst d \<noteq> tb) (P ?k)) = P(?k := us @ vs)" using filter_other[OF w(2)] assms(3) k by simp
  have dist: "distinct (us @ c # vs)" using w(2) unfolding distinct_map by blast
  define s1 where "s1 = write_page (page_slot_after ?i us) (pnext s c) s"
  let ?s = "page_upd ?i invalidate_page_bitmap s1"
  have "tb_page_remove (Page_first ?i) tb s = Some s1"
    using tb_page_remove_walk[of s ?i "[]" us c vs tb] w(1,2) assms(3) by (simp add: s1_def)
  then have "remove_from_page tb addr s = Some ?s" by (simp add: remove_from_page_def)
  moreover have "page_frame s ?s" unfolding s1_def by (rule page_frame_trans[OF page_frame_step(2) page_frame_step(1)])
  moreover have "pages_wf ?s (P(?k := us @ vs))"
    unfolding pages_wf_def
  proof (intro allI conjI impI)
    fix k
    note w' = pages_wfD[OF assms(1), where k = k]
    have pf: "pfirst ?s = pfirst s1" by (auto simp: fun_eq_iff pfirst_def invalidate_page_bitmap_def split: option.split)
    have other: "page_desc s1 k = page_desc s k" "us \<noteq> [] \<Longrightarrow> last us \<notin> set (P k)" if "k \<noteq> ?k"
    proof -
      show "page_desc s1 k = page_desc s k" using that by (simp add: s1_def page_slot_after_def)
      show "last us \<notin> set (P k)" if "us \<noteq> []" using w(3)[OF \<open>k \<noteq> ?k\<close>] last_in_set[OF that] by auto
    qed
    show "chain (pnext ?s) (pfirst ?s k) ((P(?k := us @ vs)) k)"
    proof (cases "k = ?k")
      case True
      then show ?thesis using chain_remove[OF w(1) dist] by (simp add: pf s1_def[symmetric])
    next
      case False
      have "pnext s1 d = pnext s d" if "d \<in> set (P k)" for d
        using other(2)[OF False] that by (auto simp: s1_def page_slot_after_def)
      moreover have "pfirst s1 k = pfirst s k" using other(1)[OF False] by (simp add: pfirst_def)
      ultimately show ?thesis using w'(1) False chain_cong[of "P k" "pnext s1" "pnext s"] by (simp add: pf)
    qed
    show "distinct (map fst ((P(?k := us @ vs)) k))" using w(2) w'(2) by auto
    show "set ((P(?k := us @ vs)) k) \<inter> set ((P(?k := us @ vs)) k') = {}" if "k' \<noteq> k" for k'
      using w(3)[of k] w(3)[of k'] w'(3)[OF that] that by auto
    fix bm assume bm: "pbits ?s k = Some bm"
    then have "k \<noteq> ?k" by (auto simp: pbits_def invalidate_page_bitmap_def split: option.splits)
    then have "pbits s k = Some bm" using bm other(1) by (simp add: pbits_def)
    moreover have "page_bytes (tbs ?s i) n = page_bytes (tbs s i) n" for i n
      using page_frameD(6,8)[OF \<open>page_frame s ?s\<close>, of i] by (simp add: page_bytes_def)
    ultimately show "bitmap_exact ?s ((P(?k := us @ vs)) k) bm" using w'(4) \<open>k \<noteq> ?k\<close> by (simp add: bitmap_exact_def)
  qed
  ultimately show ?thesis unfolding P by blast
qed

section \<open>Putting a block on its pages\<close>

lemma tb_alloc_page_state [simp]:
  "pnext (tb_alloc_page tb n a s) = (pnext s)((tb, n) := pfirst s (pkey (drop_bit 8 (a AND NOT IO_MEM_EXECUTABLE_IO))))"
  "page_desc (tb_alloc_page tb n a s) = (let k = pkey (drop_bit 8 (a AND NOT IO_MEM_EXECUTABLE_IO)) in
     (page_desc s)(k \<mapsto> invalidate_page_bitmap ((case page_desc s k of None \<Rightarrow> page_init_desc | Some p \<Rightarrow> p)\<lparr>first_tb := Some (tb, n)\<rparr>)))"
  "nb_tbs (tb_alloc_page tb n a s) = nb_tbs s" "i \<noteq> tb \<Longrightarrow> tbs (tb_alloc_page tb n a s) i = tbs s i"
  "blk_pc (tbs (tb_alloc_page tb n a s) i) = blk_pc (tbs s i)" "blk_size (tbs (tb_alloc_page tb n a s) i) = blk_size (tbs s i)"
  "blk_page_addr (tbs (tb_alloc_page tb n a s) tb) = (blk_page_addr (tbs s tb))(n := a AND NOT IO_MEM_EXECUTABLE_IO)"
  by (auto simp: tb_alloc_page_def Let_def page_find_desc pfirst_def fun_eq_iff pnext_def page_init_desc_def split: option.splits)

lemma tb_alloc_page_wf:
  assumes "pages_wf s P" "tb \<notin> fst ` set (P k)" "\<And>k. (tb, n) \<notin> set (P k)" "k = pkey (drop_bit 8 (a AND NOT IO_MEM_EXECUTABLE_IO))"
  shows "pages_wf (tb_alloc_page tb n a s) (P(k := (tb, n) # P k))"
  unfolding pages_wf_def
proof (intro allI conjI impI)
  fix j
  let ?s = "tb_alloc_page tb n a s" and ?P = "P(k := (tb, n) # P k)"
  note w = pages_wfD[OF assms(1), where k = j]
  have pf: "pfirst ?s = (pfirst s)(k := Some (tb, n))"
    by (auto simp: fun_eq_iff pfirst_def Let_def assms(4) invalidate_page_bitmap_def split: option.splits)
  have pn: "pnext ?s = (pnext s)((tb, n) := pfirst s k)" by (simp add: assms(4))
  have "chain (pnext ?s) (pfirst s j) (P j)" using w(1) assms(3)[of j] by (simp add: pn)
  then show "chain (pnext ?s) (pfirst ?s j) (?P j)" unfolding pf pn by (cases "j = k") auto
  show "distinct (map fst (?P j))" using w(2) assms(2) by auto
  show "set (?P j) \<inter> set (?P j') = {}" if "j' \<noteq> j" for j'
    using w(3)[OF that] assms(3) that by (cases "j = k"; cases "j' = k") auto
  fix bm assume bm: "pbits ?s j = Some bm"
  then have "j \<noteq> k" by (auto simp: pbits_def Let_def assms(4) invalidate_page_bitmap_def)
  then have "pbits s j = Some bm" using bm by (simp add: pbits_def Let_def assms(4))
  then show "bitmap_exact ?s (?P j) bm" using w(4) \<open>j \<noteq> k\<close> by (simp add: bitmap_exact_def page_bytes_def)
qed

text \<open>The block is on its pages, with its branches unlinked.\<close>

lemma pages_wf_upd [simp]: "pages_wf (upd_tb i (\<lambda>b. b\<lparr>blk_page_addr := x b\<rparr>) s) P = pages_wf s P"
  "pages_wf (upd_tb i (\<lambda>b. b\<lparr>blk_jmp_first := y b, blk_jmp_next := z b\<rparr>) s) P = pages_wf s P"
  "pages_wf (upd_tb i (\<lambda>b. b\<lparr>blk_jmp_target := w b\<rparr>) s) P = pages_wf s P"
  by (auto intro: pages_wf_cong simp: pnext_def)

lemma tb_link_page_wf:
  fixes tb p1 p2 s
  defines "k1 \<equiv> pkey (drop_bit 8 (p1 AND NOT IO_MEM_EXECUTABLE_IO))" and "k2 \<equiv> pkey (drop_bit 8 (p2 AND NOT IO_MEM_EXECUTABLE_IO))"
  defines "s' \<equiv> tb_link_page tb p1 p2 s"
  assumes "pages_wf s P" "page_members s A P" "tb \<notin> A" "p2 \<noteq> - 1 \<Longrightarrow> k1 \<noteq> k2 \<and> p2 AND NOT IO_MEM_EXECUTABLE_IO \<noteq> - 1"
  shows "\<exists>P'. pages_wf s' P' \<and> page_members s' (insert tb A) P'" "jfirst s' tb = Some (tb, EXIT_TB_FORCE)" "jnext s' (tb, n) = None"
    "jtarget s' (tb, n) = (if n < 2 then None else jtarget s (tb, n))" "i \<noteq> tb \<Longrightarrow> tbs s' i = tbs s i" "nb_tbs s' = nb_tbs s"
    "blk_pc (tbs s' tb) = blk_pc (tbs s tb)" "blk_size (tbs s' tb) = blk_size (tbs s tb)"
    "blk_page_addr (tbs s' tb) 0 = p1 AND NOT IO_MEM_EXECUTABLE_IO"
    "blk_page_addr (tbs s' tb) 1 = (if p2 \<noteq> - 1 then p2 AND NOT IO_MEM_EXECUTABLE_IO else - 1)"
proof -
  have new: "tb \<notin> fst ` set (P k)" "(tb, n) \<notin> set (P k)" for k n using assms(5,6) by (auto simp: page_members_def)
  let ?a = "tb_alloc_page tb 0 p1 s" and ?P1 = "P(k1 := (tb, 0) # P k1)"
  have a: "pages_wf ?a ?P1" by (rule tb_alloc_page_wf[OF assms(4)]) (use new in \<open>simp_all add: k1_def\<close>)
  let ?b = "if p2 \<noteq> - 1 then tb_alloc_page tb 1 p2 ?a else upd_tb tb (\<lambda>b. b\<lparr>blk_page_addr := (blk_page_addr b)(1 := - 1)\<rparr>) ?a"
  let ?P2 = "if p2 \<noteq> - 1 then ?P1(k2 := (tb, 1) # ?P1 k2) else ?P1"
  have b: "pages_wf ?b ?P2"
  proof (cases "p2 = - 1")
    case False
    have "pages_wf (tb_alloc_page tb 1 p2 ?a) (?P1(k2 := (tb, 1) # ?P1 k2))"
      by (rule tb_alloc_page_wf[OF a]) (use new assms(7)[OF False] in \<open>auto simp: k2_def\<close>)
    then show ?thesis using False by simp
  qed (use a in simp)
  have s': "s' = tb_reset_jump tb 1 (tb_reset_jump tb 0 (upd_tb tb (\<lambda>b. b\<lparr>blk_jmp_first := Some (tb, EXIT_TB_FORCE), blk_jmp_next := (\<lambda>_. None)\<rparr>) ?b))"
    by (simp add: s'_def tb_link_page_def Let_def)
  have "pages_wf s' ?P2" unfolding s' tb_reset_jump_def using b by simp
  moreover have pa: "blk_page_addr (tbs s' tb) 0 = p1 AND NOT IO_MEM_EXECUTABLE_IO"
    "blk_page_addr (tbs s' tb) 1 = (if p2 \<noteq> - 1 then p2 AND NOT IO_MEM_EXECUTABLE_IO else - 1)"
    by (simp_all add: s' tb_reset_jump_def)
  moreover have oth: "i \<noteq> tb \<Longrightarrow> tbs s' i = tbs s i" for i by (simp add: s' tb_reset_jump_def)
  moreover have "page_members s' (insert tb A) ?P2"
    unfolding page_members_def
  proof (intro allI)
    fix k c
    show "c \<in> set (?P2 k) \<longleftrightarrow> fst c \<in> insert tb A \<and> on_page (tbs s' (fst c)) (snd c) k"
    proof (cases "fst c = tb")
      case True
      then have "c \<notin> set (P j)" for j using new(2)[of "snd c" j] by (metis prod.collapse)
      moreover obtain n where "c = (tb, n)" using True by (cases c) simp
      ultimately show ?thesis using pa assms(7)
        by (cases "n = 0"; cases "n = 1") (auto simp: on_page_def k1_def k2_def split: if_splits)
    next
      case False
      then have "c \<in> set (?P2 k) \<longleftrightarrow> c \<in> set (P k)" by auto
      moreover have "c \<in> set (P k) \<longleftrightarrow> fst c \<in> A \<and> on_page (tbs s (fst c)) (snd c) k" using assms(5) unfolding page_members_def by blast
      ultimately show ?thesis using False oth[OF False] by simp
    qed
  qed
  ultimately show "\<exists>P'. pages_wf s' P' \<and> page_members s' (insert tb A) P'" "i \<noteq> tb \<Longrightarrow> tbs s' i = tbs s i"
    "blk_page_addr (tbs s' tb) 0 = p1 AND NOT IO_MEM_EXECUTABLE_IO"
    "blk_page_addr (tbs s' tb) 1 = (if p2 \<noteq> - 1 then p2 AND NOT IO_MEM_EXECUTABLE_IO else - 1)" by blast+
  show "nb_tbs s' = nb_tbs s" "blk_pc (tbs s' tb) = blk_pc (tbs s tb)" "blk_size (tbs s' tb) = blk_size (tbs s tb)"
    by (simp_all add: s' tb_reset_jump_def)
  show "jfirst s' tb = Some (tb, EXIT_TB_FORCE)" "jnext s' (tb, n) = None" by (simp_all add: s' tb_reset_jump_def jfirst_def jnext_def)
  have "blk_jmp_target (tbs (tb_alloc_page tb m a s) i) = blk_jmp_target (tbs s i)" for m a i s by (simp add: tb_alloc_page_def Let_def)
  then show "jtarget s' (tb, n) = (if n < 2 then None else jtarget s (tb, n))"
    by (auto simp: s' tb_reset_jump_def jtarget_def less_2_cases_iff)
qed

end
