(* ===== verification/TB_Inv.thy ===== *)
theory TB_Inv
  imports TB_Pages
begin

text \<open>The whole cache in order with a set of blocks in use: hash table, cache of virtual addresses, jumps and page
  lists agree on it. Lookup, chaining, invalidation and flushing keep the order; each changes the set
  of blocks in use as its contract says.\<close>

section \<open>The invariant\<close>

text \<open>A block has its first page, and its second exactly if it crosses a page boundary. The last page of the address
  space is not used, so that the end of a block does not wrap around.\<close>

definition block_ok :: "TranslationBlock \<Rightarrow> bool" where
  "block_ok b \<longleftrightarrow> blk_page_addr b 0 AND mask 8 = 0 \<and> blk_page_addr b 0 \<noteq> - 256 \<and> unat (blk_size b) \<le> 256 \<and>
     (if 256 < unat (blk_pc b) mod 256 + unat (blk_size b) then blk_page_addr b 1 AND mask 8 = 0 else blk_page_addr b 1 = - 1)"

definition link_inv :: "tb_state \<Rightarrow> nat set \<Rightarrow> (nat \<Rightarrow> (nat \<times> nat) list) \<Rightarrow> (nat \<Rightarrow> (nat \<times> nat) list) \<Rightarrow> bool" where
  "link_inv s A J P \<longleftrightarrow> jmp_wf s {..<nb_tbs s} A J \<and> (\<forall>t<nb_tbs s. t \<notin> A \<longrightarrow> J t = []) \<and>
     pages_wf s P \<and> page_members s A P \<and> (\<forall>i\<in>A. block_ok (tbs s i))"

definition tb_inv :: "tb_state \<Rightarrow> (nat \<Rightarrow> nat list) \<Rightarrow> (nat \<Rightarrow> (nat \<times> nat) list) \<Rightarrow> (nat \<Rightarrow> (nat \<times> nat) list) \<Rightarrow> bool" where
  "tb_inv s C J P \<longleftrightarrow> cache_wf s C \<and> link_inv s (live C) J P"

definition cache_inv :: "tb_state \<Rightarrow> nat set \<Rightarrow> bool" where
  "cache_inv s A \<longleftrightarrow> (\<exists>C J P. tb_inv s C J P \<and> live C = A)"

lemma link_inv_bound: "link_inv s A J P \<Longrightarrow> A \<subseteq> {..<nb_tbs s}"
  by (simp add: link_inv_def jmp_wf_def)

lemma lview_fields:
  assumes "lview b = lview b'"
  shows "blk_pc b = blk_pc b'" "blk_size b = blk_size b'" "blk_page_addr b = blk_page_addr b'" "blk_page_next b = blk_page_next b'"
    "blk_jmp_next b = blk_jmp_next b'" "blk_jmp_first b = blk_jmp_first b'" "blk_jmp_target b = blk_jmp_target b'" "blk_flags b = blk_flags b'"
  using assms by (simp_all add: lview_def)

lemma link_inv_same:
  assumes "link_inv s A J P" "same_links s s'"
  shows "link_inv s' A J P"
proof -
  have l: "lview (tbs s' i) = lview (tbs s i)" "nb_tbs s' = nb_tbs s" "l1_map s' = l1_map s" for i
    using assms(2) by (simp_all add: same_links_def)
  note f = lview_fields[OF l(1)]
  have "jmp_wf s' {..<nb_tbs s} A J"
    by (rule jmp_wf_cong[of s]) (use assms(1) f in \<open>simp_all add: link_inv_def fun_eq_iff jnext_def jfirst_def jtarget_def\<close>)
  moreover have "pages_wf s' P"
    by (rule pages_wf_cong[of s]) (use assms(1) f l(3) in \<open>simp_all add: link_inv_def pnext_def page_desc_def fun_eq_iff\<close>)
  moreover have "page_members s' A P"
    by (rule page_members_cong[of s]) (use assms(1) f in \<open>simp_all add: link_inv_def\<close>)
  moreover have "block_ok (tbs s' i) = block_ok (tbs s i)" for i by (simp add: block_ok_def f)
  ultimately show ?thesis using assms(1) l(2) by (simp add: link_inv_def)
qed

lemma link_inv_empty:
  assumes "nb_tbs s = 0" "\<And>k. pfirst s k = None" "\<And>k. pbits s k = None"
  shows "link_inv s {} (\<lambda>_. []) (\<lambda>_. [])"
  using assms by (simp add: link_inv_def jmp_wf_def pages_wf_def page_members_def)

section \<open>Flushing\<close>

lemma flush_pages: "pfirst (page_flush_tb s) k = None" "pbits (page_flush_tb s) k = None"
  by (simp_all add: pfirst_def pbits_def page_desc_def page_flush_tb_def invalidate_page_bitmap_def split: option.split)

lemma tb_flush_state:
  assumes "tb_flush s = Some s'"
  shows "nb_tbs s' = 0" "pfirst s' k = None" "pbits s' k = None" "tb_phys_hash s' = (\<lambda>_. None)" "tb_jmp_cache s' = (\<lambda>_. None)"
proof -
  obtain a x y where s': "s' = page_flush_tb (a\<lparr>nb_tbs := 0, tb_jmp_cache := (\<lambda>_. None), tb_phys_hash := (\<lambda>_. None)\<rparr>)\<lparr>code_gen_ptr := x, tb_flush_count := y\<rparr>"
    using assms by (auto simp: tb_flush_def split: if_splits)
  then show "nb_tbs s' = 0" "tb_phys_hash s' = (\<lambda>_. None)" "tb_jmp_cache s' = (\<lambda>_. None)" by (simp_all add: page_flush_tb_def)
  show "pfirst s' k = None" "pbits s' k = None"
    using flush_pages[of "a\<lparr>nb_tbs := 0, tb_jmp_cache := (\<lambda>_. None), tb_phys_hash := (\<lambda>_. None)\<rparr>" k] s'
    by (simp_all add: pfirst_def pbits_def page_desc_def)
qed

lemma cache_inv_flush: "tb_flush s = Some s' \<Longrightarrow> cache_inv s' {}"
  unfolding cache_inv_def tb_inv_def
  by (intro exI[of _ "\<lambda>_. []"] conjI cache_wf_flush) (simp_all add: live_def link_inv_empty tb_flush_state)

section \<open>New blocks\<close>

text \<open>Neighbouring pages of the guest are on different pages, none of them the last of the address space.\<close>

definition pages_apart :: "(u32 \<Rightarrow> u64) \<Rightarrow> bool" where
  "pages_apart pg \<longleftrightarrow> (\<forall>pc. pkey (drop_bit 8 (pg pc)) \<noteq> pkey (drop_bit 8 (pg ((pc AND TARGET_PAGE_MASK32) + 256))) \<and> pg pc \<noteq> - 256)"

lemma aligned_not_m1: "page_aligned pg \<Longrightarrow> pg pc \<noteq> - 1"
proof
  assume "page_aligned pg" "pg pc = - 1"
  then have "(- 1 :: u64) AND mask 8 = 0" unfolding page_aligned_def by metis
  then show False by simp
qed

lemma link_inv_new:
  assumes "link_inv s A J P" "page_aligned pg" "pages_apart pg"
    and new: "nb_tbs s1 = nb_tbs s + 1" "page_desc s1 = page_desc s" "\<And>i. i < nb_tbs s \<Longrightarrow> tbs s1 i = tbs s i"
      "blk_jmp_target (tbs s1 (nb_tbs s)) = (\<lambda>_. None)" "blk_pc (tbs s1 (nb_tbs s)) = pc"
      "unat (blk_size (tbs s1 (nb_tbs s))) \<le> 256"
    and p2: "p2 = (if 0 < blk_size (tbs s1 (nb_tbs s)) \<and>
        pc AND TARGET_PAGE_MASK32 \<noteq> (pc + ucast (blk_size (tbs s1 (nb_tbs s))) - 1) AND TARGET_PAGE_MASK32
      then pg ((pc + ucast (blk_size (tbs s1 (nb_tbs s))) - 1) AND TARGET_PAGE_MASK32) else - 1)"
  defines "s' \<equiv> tb_link_page (nb_tbs s) (pg pc) p2 s1"
  shows "\<exists>P'. link_inv s' (insert (nb_tbs s) A) (J(nb_tbs s := [])) P'"
proof -
  let ?tb = "nb_tbs s"
  let ?cross = "256 < unat pc mod 256 + unat (blk_size (tbs s1 ?tb))"
  have A: "A \<subseteq> {..<?tb}" by (rule link_inv_bound[OF assms(1)])
  have p2': "p2 = (if ?cross then pg ((pc AND TARGET_PAGE_MASK32) + 256) else - 1)"
    using page_cross[OF new(6), of pc] p2 by auto
  have io: "pg a AND NOT IO_MEM_EXECUTABLE_IO = pg a" for a by (rule page_no_io[OF assms(2)])
  have n2: "p2 \<noteq> - 1 \<longleftrightarrow> ?cross" using aligned_not_m1[OF assms(2)] by (simp add: p2')
  have mem: "i < ?tb" if "c \<in> set (P k)" "fst c = i" for c k i
  proof -
    have "fst c \<in> A" using assms(1) that(1) unfolding link_inv_def page_members_def by blast
    then show ?thesis using A that(2) by blast
  qed
  have w: "pages_wf s1 P"
    by (rule pages_wf_cong[of s]) (use assms(1) new(2,3) mem in \<open>auto simp: link_inv_def pnext_def\<close>)
  have m: "page_members s1 A P"
    by (rule page_members_cong[of s]) (use assms(1) new(3) A in \<open>auto simp: link_inv_def\<close>)
  have "?tb \<notin> A" using A by auto
  have p: "p2 \<noteq> - 1 \<Longrightarrow> pkey (drop_bit 8 (pg pc AND NOT IO_MEM_EXECUTABLE_IO)) \<noteq> pkey (drop_bit 8 (p2 AND NOT IO_MEM_EXECUTABLE_IO)) \<and>
      p2 AND NOT IO_MEM_EXECUTABLE_IO \<noteq> - 1"
    using assms(3) aligned_not_m1[OF assms(2)] n2 unfolding pages_apart_def by (simp add: p2' io del: drop_bit_and)
  note l = tb_link_page_wf[OF w m \<open>?tb \<notin> A\<close> p, folded s'_def]
  have old: "tbs s' i = tbs s i" if "i < ?tb" for i using l(5)[of i] new(3)[OF that] that by simp
  have nb: "nb_tbs s' = nb_tbs s + 1" using l(6) new(1) by simp
  obtain P' where P': "pages_wf s' P'" "page_members s' (insert ?tb A) P'" using l(1) by blast
  have "jmp_wf s' (insert ?tb {..<?tb}) (insert ?tb A) (J(?tb := []))"
  proof (rule jmp_wf_new[of s])
    show "jmp_wf s {..<?tb} A J" using assms(1) by (simp add: link_inv_def)
    show "jnext s' c = jnext s c \<and> jtarget s' c = jtarget s c" if "fst c \<in> {..<?tb}" for c
      using old that by (simp add: jnext_def jtarget_def)
    show "jfirst s' i = jfirst s i" if "i \<in> {..<?tb}" for i using old that by (simp add: jfirst_def)
    show "jnext s' (?tb, n) = None \<and> jtarget s' (?tb, n) = None" for n using l(3,4)[of n] new(4) by (simp add: jtarget_def)
  qed (use l(2) in auto)
  moreover have "insert ?tb {..<?tb} = {..<nb_tbs s'}" using nb by auto
  moreover have "block_ok (tbs s' i)" if "i \<in> A" for i using assms(1) old that A unfolding link_inv_def by auto
  moreover have "block_ok (tbs s' ?tb)"
    using l(7-10) new(5,6) n2 assms(2,3) by (auto simp: block_ok_def io p2' page_aligned_def pages_apart_def)
  moreover have "\<forall>t<nb_tbs s'. t \<notin> insert ?tb A \<longrightarrow> (J(?tb := [])) t = []" using assms(1) nb by (auto simp: link_inv_def less_Suc_eq)
  ultimately have "link_inv s' (insert ?tb A) (J(?tb := [])) P'" using P' by (simp add: link_inv_def)
  then show ?thesis by blast
qed

text \<open>A new block is in use besides the old ones, or the only one after a flush.\<close>

lemma tb_gen_code_links:
  assumes "link_inv s A J P" "page_aligned pg" "pages_apart pg" "unat (tr_size (translate pc flags)) \<le> 256" "\<not> tb_invalidated_flag s"
    "tb_gen_code hm pg translate pc cs_base flags cflags s = Some (tb, s')"
  shows "\<exists>J' P'. link_inv s' (insert tb (if tb_invalidated_flag s' then {} else A)) J' P'" "tb \<notin> A \<or> tb_invalidated_flag s'"
    "\<not> tb_invalidated_flag s' \<Longrightarrow> nb_tbs s' = nb_tbs s + 1"
proof -
  let ?search = "encode_search pc (unat (tr_icount (translate pc flags))) (tr_insn_data (translate pc flags)) (tr_insn_end_off (translate pc flags))"
  let ?g = "\<lambda>s1 b. b\<lparr>blk_tc_ptr := code_gen_ptr s1, blk_cs_base := cs_base, blk_flags := flags, blk_cflags := cflags,
                blk_icount := tr_icount (translate pc flags), blk_size := tr_size (translate pc flags), blk_was_cut := tr_was_cut (translate pc flags),
                blk_tc_search := ?search\<rparr>"
  let ?size = "tr_size (translate pc flags)"
  let ?p2 = "if 0 < ?size \<and> pc AND TARGET_PAGE_MASK32 \<noteq> (pc + ucast ?size - 1) AND TARGET_PAGE_MASK32
    then pg ((pc + ucast ?size - 1) AND TARGET_PAGE_MASK32) else - 1"
  obtain s1 cp where alloc: "(case tb_alloc pc s of Some r \<Rightarrow> Some r
       | None \<Rightarrow> do { f \<leftarrow> tb_flush s; (_, x) \<leftarrow> code_gen_try_expand hm f; (tb, a) \<leftarrow> tb_alloc pc x; Some (tb, a\<lparr>tb_invalidated_flag := True\<rparr>) }) = Some (tb, s1)"
    and s': "s' = tb_link_page tb (pg pc) ?p2 ((upd_tb tb (?g s1) s1)\<lparr>code_gen_ptr := cp\<rparr>)"
    using assms(6) unfolding tb_gen_code_def Let_def by (auto simp: Option.bind_eq_Some_conv split: prod.splits)
  have flag: "tb_invalidated_flag s' = tb_invalidated_flag s1"
    using tb_link_page_frame[of tb "(upd_tb tb (?g s1) s1)\<lparr>code_gen_ptr := cp\<rparr>" "pg pc" ?p2] unfolding s' hash_frame_def by simp
  have nb: "nb_tbs s' = nb_tbs s1"
    using tb_link_page_frame[of tb "(upd_tb tb (?g s1) s1)\<lparr>code_gen_ptr := cp\<rparr>" "pg pc" ?p2] unfolding s' hash_frame_def by simp
  have step: "\<exists>P'. link_inv s' (insert tb B) (K(tb := [])) P'"
    if H: "link_inv a B K Q" "tb = nb_tbs a" "nb_tbs s1 = nb_tbs a + 1" "page_desc s1 = page_desc a" "\<And>i. i < nb_tbs a \<Longrightarrow> tbs s1 i = tbs a i"
      "tbs s1 tb = zero_tb\<lparr>blk_pc := pc\<rparr>" for a B K Q
  proof -
    let ?s2 = "(upd_tb tb (?g s1) s1)\<lparr>code_gen_ptr := cp\<rparr>"
    have b: "blk_size (tbs ?s2 tb) = ?size" "blk_pc (tbs ?s2 tb) = pc" "blk_jmp_target (tbs ?s2 tb) = (\<lambda>_. None)"
      by (simp_all add: H(6) zero_tb_def)
    have "\<exists>P'. link_inv (tb_link_page (nb_tbs a) (pg pc) ?p2 ?s2) (insert (nb_tbs a) B) (K(nb_tbs a := [])) P'"
      by (rule link_inv_new[OF H(1) assms(2,3), where pc = pc]) (use b H(2-5) assms(4) in simp_all)
    then show ?thesis unfolding s' H(2) .
  qed
  have "(\<exists>J' P'. link_inv s' (insert tb (if tb_invalidated_flag s' then {} else A)) J' P') \<and> (tb \<notin> A \<or> tb_invalidated_flag s') \<and>
    (\<not> tb_invalidated_flag s' \<longrightarrow> nb_tbs s' = nb_tbs s + 1)"
  proof (cases "tb_alloc pc s")
    case (Some r)
    then have a: "tb = nb_tbs s" "s1 = s\<lparr>nb_tbs := nb_tbs s + 1, tbs := (tbs s)(nb_tbs s := zero_tb\<lparr>blk_pc := pc\<rparr>)\<rparr>"
      using alloc by (auto simp: tb_alloc_def split: if_splits)
    have "\<exists>P'. link_inv s' (insert tb A) (J(tb := [])) P'"
      by (rule step[OF assms(1) a(1)]) (simp_all add: a(2) page_desc_def fun_eq_iff a(1))
    moreover have "\<not> tb_invalidated_flag s'" "nb_tbs s' = nb_tbs s + 1" using assms(5) flag nb a(2) by simp_all
    moreover have "tb \<notin> A" using link_inv_bound[OF assms(1)] a(1) by auto
    ultimately show ?thesis by auto
  next
    case None
    then obtain f0 x a ok where a: "tb_flush s = Some f0" "code_gen_try_expand hm f0 = Some (ok, x)" "tb_alloc pc x = Some (tb, a)"
      "s1 = a\<lparr>tb_invalidated_flag := True\<rparr>" using alloc by (auto simp: Option.bind_eq_Some_conv)
    have x: "nb_tbs x = nb_tbs f0" "l1_map x = l1_map f0"
      using a(2) by (auto simp: code_gen_try_expand_def code_gen_alloc_def Let_def split: if_splits option.splits prod.splits)
    note f = tb_flush_state[OF a(1)]
    have "link_inv x {} (\<lambda>_. []) (\<lambda>_. [])"
      by (rule link_inv_empty) (use x f in \<open>simp_all add: pfirst_def pbits_def page_desc_def\<close>)
    moreover have b: "tb = nb_tbs x" "a = x\<lparr>nb_tbs := nb_tbs x + 1, tbs := (tbs x)(nb_tbs x := zero_tb\<lparr>blk_pc := pc\<rparr>)\<rparr>"
      using a(3) by (auto simp: tb_alloc_def split: if_splits)
    ultimately have "\<exists>P'. link_inv s' (insert tb {}) ((\<lambda>_. [])(tb := [])) P'"
      by (elim step[of x]) (auto simp: a(4) b page_desc_def fun_eq_iff)
    moreover have "tb_invalidated_flag s'" using flag a(4) by simp
    ultimately show ?thesis by auto
  qed
  then show "\<exists>J' P'. link_inv s' (insert tb (if tb_invalidated_flag s' then {} else A)) J' P'" "tb \<notin> A \<or> tb_invalidated_flag s'"
    "\<not> tb_invalidated_flag s' \<Longrightarrow> nb_tbs s' = nb_tbs s + 1" by blast+
qed

section \<open>Lookup\<close>

text \<open>The contract of the translator that the cache relies on: blocks are at most a page long and no longer than what
  is left of the instruction limit.\<close>

lemma cache_inv_find_slow:
  assumes "cache_inv s A" "page_aligned pg" "pages_apart pg" "unat (tr_size (translate pc flags)) \<le> 256"
    "tb_find_slow hm pg translate False mx pc cs_base flags s = Some (tb, s')"
  shows "cache_inv s' (insert tb (if tb_invalidated_flag s' then {} else A)) \<and> tb_matches pc cs_base flags (pg pc) (tbs s' tb) \<and>
    blk_icount (tbs s' tb) \<le> max mx (tr_icount (translate pc flags)) \<and> (\<not> tb_invalidated_flag s' \<longrightarrow> nb_tbs s \<le> nb_tbs s')"
proof -
  obtain C J P where w: "cache_wf s C" "link_inv s A J P" "live C = A" using assms(1) unfolding cache_inv_def tb_inv_def by blast
  from tb_find_slow_wf[OF w(1) assms(2,5)] obtain C' where C': "cache_wf s' C'" "tb \<in> set (C' (phys_pc_hash (pg pc) pc))"
    "tb_matches pc cs_base flags (pg pc) (tbs s' tb)" "blk_icount (tbs s' tb) \<le> max mx (tr_icount (translate pc flags))"
    "same_links s s' \<and> live C' = A \<and> \<not> tb_invalidated_flag s' \<or>
     (\<exists>s1. tb_gen_code hm pg translate pc cs_base flags 0 (s\<lparr>tb_invalidated_flag := False\<rparr>) = Some (tb, s1) \<and> same_links s1 s' \<and>
       tb_invalidated_flag s' = tb_invalidated_flag s1 \<and> live C' = insert tb (if tb_invalidated_flag s1 then {} else A))"
    unfolding w(3) by blast
  have tb: "tb \<in> live C'" using C'(2) by (auto simp: live_iff)
  from C'(5) show ?thesis
  proof (elim disjE exE conjE)
    assume a: "same_links s s'" "live C' = A" "\<not> tb_invalidated_flag s'"
    have "link_inv s' (live C') J P" unfolding a(2) by (rule link_inv_same[OF w(2) a(1)])
    moreover have "insert tb A = live C'" using tb a(2) by auto
    ultimately show ?thesis using C'(1,3,4) a unfolding cache_inv_def tb_inv_def by (auto simp: same_links_def)
  next
    fix s1 assume g: "tb_gen_code hm pg translate pc cs_base flags 0 (s\<lparr>tb_invalidated_flag := False\<rparr>) = Some (tb, s1)" "same_links s1 s'"
      "tb_invalidated_flag s' = tb_invalidated_flag s1" "live C' = insert tb (if tb_invalidated_flag s1 then {} else A)"
    have "link_inv (s\<lparr>tb_invalidated_flag := False\<rparr>) A J P"
      by (rule link_inv_same[OF w(2)]) (simp add: same_links_def)
    note n = tb_gen_code_links[where cs_base = cs_base and cflags = 0, OF this assms(2,3,4) _ g(1)]
    obtain J' P' where "link_inv s1 (live C') J' P'" using n(1) g(4) by auto
    then have "link_inv s' (live C') J' P'" by (rule link_inv_same[OF _ g(2)])
    then have "cache_inv s' (live C')" using C'(1) unfolding cache_inv_def tb_inv_def by blast
    moreover have "\<not> tb_invalidated_flag s' \<longrightarrow> nb_tbs s \<le> nb_tbs s'" using n(3) g(2,3) by (simp add: same_links_def)
    ultimately show ?thesis using C'(3,4) g(3,4) by simp
  qed
qed

section \<open>Invalidation\<close>

definition same_bytes :: "tb_state \<Rightarrow> tb_state \<Rightarrow> bool" where
  "same_bytes s s' \<longleftrightarrow> nb_tbs s' = nb_tbs s \<and> (\<forall>i. blk_pc (tbs s' i) = blk_pc (tbs s i) \<and> blk_size (tbs s' i) = blk_size (tbs s i) \<and>
     blk_flags (tbs s' i) = blk_flags (tbs s i) \<and> blk_page_addr (tbs s' i) = blk_page_addr (tbs s i) \<and>
     blk_dirty_flag (tbs s' i) = blk_dirty_flag (tbs s i))"

lemma same_bytes_refl [simp]: "same_bytes s s"
  by (simp add: same_bytes_def)

lemma same_bytes_trans: "same_bytes s s' \<Longrightarrow> same_bytes s' s'' \<Longrightarrow> same_bytes s s''"
  by (simp add: same_bytes_def)

lemma same_bytes_ok: "same_bytes s s' \<Longrightarrow> block_ok (tbs s' i) = block_ok (tbs s i)"
  by (simp add: same_bytes_def block_ok_def)

lemma page_frame_dirty: "page_frame s s' \<Longrightarrow> blk_dirty_flag (tbs s' i) = blk_dirty_flag (tbs s i)"
proof -
  assume "page_frame s s'"
  then have "tbs s' i = (tbs s i)\<lparr>blk_page_next := blk_page_next (tbs s' i)\<rparr>" unfolding page_frame_def by blast
  from arg_cong[OF this, of blk_dirty_flag] show ?thesis by simp
qed

lemma jump_frame_dirty: "jump_frame s s' \<Longrightarrow> blk_dirty_flag (tbs s' i) = blk_dirty_flag (tbs s i)"
proof -
  assume "jump_frame s s'"
  then have "tbs s' i = (tbs s i)\<lparr>blk_jmp_next := blk_jmp_next (tbs s' i), blk_jmp_first := blk_jmp_first (tbs s' i),
      blk_jmp_target := blk_jmp_target (tbs s' i)\<rparr>" unfolding jump_frame_def by blast
  from arg_cong[OF this, of blk_dirty_flag] show ?thesis by simp
qed

lemma aligned_disjoint:
  fixes a :: u64 and pc :: u32
  assumes "a AND mask 8 = 0"
  shows "a + ucast (pc AND NOT TARGET_PAGE_MASK32) = a OR ucast (pc AND NOT TARGET_PAGE_MASK32)"
proof (rule disjunctive_add)
  fix n
  show "\<not> bit a n \<or> \<not> bit (ucast (pc AND NOT TARGET_PAGE_MASK32) :: u64) n"
  proof (cases "n < 8")
    case True
    have "\<not> bit (a AND mask 8) n" using assms by simp
    then show ?thesis using True by (simp add: bit_and_iff bit_mask_iff)
  next
    case False
    then show ?thesis by (auto simp: TARGET_PAGE_MASK32_def bit_unsigned_iff bit_and_iff bit_mask_iff)
  qed
qed

lemma hash_of_block: "block_ok b \<Longrightarrow> tb_phys_hash_func (blk_page_addr b 0 + ucast (blk_pc b AND NOT TARGET_PAGE_MASK32)) = hash_of b"
  by (simp add: hash_of_def phys_pc_hash_def aligned_disjoint block_ok_def)

lemma aligned_ne: "(a::u64) AND mask 8 = 0 \<Longrightarrow> a \<noteq> - 1"
  by auto

text \<open>Off both pages.\<close>

lemma pages_remove:
  assumes "pages_wf s P" "page_members s A P" "tb \<in> A" "block_ok (tbs s tb)"
  shows "\<exists>s'. do { s2 \<leftarrow> remove_from_page tb (blk_page_addr (tbs s tb) 0) s;
      if blk_page_addr (tbs s tb) 1 \<noteq> - 1 then remove_from_page tb (blk_page_addr (tbs s tb) 1) s2 else Some s2 } = Some s' \<and>
    page_frame s s' \<and> pages_wf s' (\<lambda>k. filter (\<lambda>d. fst d \<noteq> tb) (P k)) \<and> page_members s' (A - {tb}) (\<lambda>k. filter (\<lambda>d. fst d \<noteq> tb) (P k))"
proof -
  let ?a = "blk_page_addr (tbs s tb)" and ?f = "filter (\<lambda>d. fst d \<noteq> tb)"
  let ?k = "\<lambda>n. pkey (drop_bit 8 (?a n))"
  have mem: "c \<in> set (P k) \<longleftrightarrow> fst c \<in> A \<and> on_page (tbs s (fst c)) (snd c) k" for c k using assms(2) unfolding page_members_def by blast
  have "(tb, 0) \<in> set (P (?k 0))" using mem[of "(tb, 0)"] assms(3) by (simp add: on_page_def)
  from remove_from_page_wf[OF assms(1) this] obtain s2 where s2: "remove_from_page tb (?a 0) s = Some s2" "page_frame s s2"
    "pages_wf s2 (P(?k 0 := ?f (P (?k 0))))" by auto
  have other: "?f (P k) = P k" if "k \<noteq> ?k 0" "?a 1 = - 1 \<or> k \<noteq> ?k 1" for k
    using that mem[of _ k] by (intro filter_True) (auto simp: on_page_def)
  have fin: ?thesis if "do { s2 \<leftarrow> remove_from_page tb (?a 0) s; if ?a 1 \<noteq> - 1 then remove_from_page tb (?a 1) s2 else Some s2 } = Some s'"
      "page_frame s s'" "pages_wf s' (\<lambda>k. ?f (P k))" for s'
  proof -
    have "page_members s' (A - {tb}) (\<lambda>k. ?f (P k))"
      using mem page_frameD(7)[OF that(2)] by (simp add: page_members_def on_page_def) blast
    then show ?thesis using that by blast
  qed
  show ?thesis
  proof (cases "?a 1 = - 1")
    case True
    have "P(?k 0 := ?f (P (?k 0))) = (\<lambda>k. ?f (P k))" using other True by (auto simp: fun_eq_iff)
    then show ?thesis using fin[of s2] s2 True by simp
  next
    case False
    have m1: "(tb, 1) \<in> set (P (?k 1))" using mem[of "(tb, 1)"] assms(3) False by (simp add: on_page_def)
    have ne: "?k 1 \<noteq> ?k 0"
    proof
      assume "?k 1 = ?k 0"
      then have m: "(tb, 1) \<in> set (P (?k 0))" using m1 by simp
      have "inj_on fst (set (P (?k 0)))" using pages_wfD(2)[OF assms(1)] by (simp add: distinct_map)
      from inj_onD[OF this _ \<open>(tb, 0) \<in> set (P (?k 0))\<close> m] show False by simp
    qed
    have eq: "(P(?k 0 := ?f (P (?k 0)))) (?k 1) = P (?k 1)" using ne by simp
    then have "(tb, 1) \<in> set ((P(?k 0 := ?f (P (?k 0)))) (?k 1))" using m1 by simp
    from remove_from_page_wf[OF s2(3) this fst_conv] obtain s3 where s3: "remove_from_page tb (?a 1) s2 = Some s3" "page_frame s2 s3"
      "pages_wf s3 (P(?k 0 := ?f (P (?k 0)), ?k 1 := ?f (P (?k 1))))" unfolding eq by blast
    have "P(?k 0 := ?f (P (?k 0)), ?k 1 := ?f (P (?k 1))) = (\<lambda>k. ?f (P k))" using other by (auto simp: fun_eq_iff)
    then show ?thesis using fin[of s3] s2(1) s3 page_frame_trans[OF s2(2) s3(2)] False by simp
  qed
qed

lemma cache_wf_drop:
  assumes "cache_wf s C" "C h = us @ tb # ws" "hash_wf s' (C(h := us @ ws))"
    "tb_jmp_cache s' = tb_jmp_cache s" "\<And>i. blk_pc (tbs s' i) = blk_pc (tbs s i)"
  shows "cache_wf (tb_jmp_cache_remove tb s') (C(h := us @ ws)) \<and> live (C(h := us @ ws)) = live C - {tb}"
proof -
  have w: "hash_wf s C" and j: "\<And>j t. tb_jmp_cache s j = Some t \<Longrightarrow> j = tb_jmp_cache_hash_func (blk_pc (tbs s t)) \<and> t \<in> live C"
    using assms(1) by (simp_all add: cache_wf_def live_iff)
  have d: "distinct (us @ tb # ws)" using w assms(2) by (metis hash_wf_def)
  have "tb \<notin> set (C h')" if "h' \<noteq> h" for h' using hash_wf_disjoint[OF w that] assms(2) by auto
  then have "i \<in> set ((C(h := us @ ws)) h') \<longleftrightarrow> i \<in> set (C h') \<and> i \<noteq> tb" for i h'
    using assms(2) d by (cases "h' = h") auto
  then have l: "live (C(h := us @ ws)) = live C - {tb}" by (auto simp: live_iff set_eq_iff)
  have t: "tbs (tb_jmp_cache_remove tb s') = tbs s'" "tb_jmp_cache (tb_jmp_cache_remove tb s') i = Some t \<Longrightarrow> tb_jmp_cache s i = Some t \<and> t \<noteq> tb"
    for i t using j[of i tb] assms(4,5) by (auto simp: tb_jmp_cache_remove_def Let_def split: if_splits)
  have A: "hash_wf (tb_jmp_cache_remove tb s') (C(h := us @ ws))"
    by (rule hash_wf_frame[OF assms(3)]) (simp_all add: tb_jmp_cache_remove_def Let_def)
  have B: "i = tb_jmp_cache_hash_func (blk_pc (tbs (tb_jmp_cache_remove tb s') t)) \<and> t \<in> live (C(h := us @ ws))"
    if "tb_jmp_cache (tb_jmp_cache_remove tb s') i = Some t" for i t
    using j[of i t] t(2)[OF that] assms(5)[of t] by (simp add: t(1) l)
  have "cache_wf (tb_jmp_cache_remove tb s') (C(h := us @ ws))"
    unfolding cache_wf_def live_iff[symmetric] using A B by blast
  then show ?thesis using l by (rule conjI)
qed

lemma same_links_upd [simp]: "same_links s (s\<lparr>tb_invalidated_flag := f\<rparr>)" "same_links s (tb_jmp_cache_remove tb s)"
    "same_links s (write_slot l v s)" "same_links s (s\<lparr>tb_phys_invalidate_count := n\<rparr>)"
  by (simp_all add: same_links_def tb_jmp_cache_remove_def Let_def tbs_write_slot)

text \<open>The block is gone from the bucket, the pages, the cache of virtual addresses and the jump lists.\<close>

lemma tb_phys_invalidate_inv:
  assumes "tb_inv s C J P"
  shows "\<exists>s' C' J'. tb_phys_invalidate tb (- 1) s = Some s' \<and> tb_inv s' C' J' (\<lambda>k. filter (\<lambda>d. fst d \<noteq> tb) (P k)) \<and>
    live C' = live C - {tb} \<and> same_bytes s s'"
proof -
  let ?b = "tbs s tb" and ?P = "\<lambda>k. filter (\<lambda>d. fst d \<noteq> tb) (P k)"
  define h where "h = tb_phys_hash_func (blk_page_addr ?b 0 + ucast (blk_pc ?b AND NOT TARGET_PAGE_MASK32))"
  have c: "cache_wf s C" "hash_wf s C" and l: "link_inv s (live C) J P" using assms by (simp_all add: tb_inv_def cache_wf_def)
  have pg: "pages_wf s P" "page_members s (live C) P" and ok: "\<And>i. i \<in> live C \<Longrightarrow> block_ok (tbs s i)"
    using l by (simp_all add: link_inv_def)
  show ?thesis
  proof (cases "tb \<in> live C")
    case False
    have "tb \<notin> set (C h)" using False by (auto simp: live_iff)
    then have "tb_remove tb (Slot_hash h) s = Some (False, s)" using tb_remove_walk[of s h "[]" "C h" tb] c(2) by (simp add: hash_wf_def)
    then have "tb_phys_invalidate tb (- 1) s = Some s" by (simp add: tb_phys_invalidate_def h_def Let_def)
    moreover have "?P k = P k" for k
      using pg(2) False by (intro filter_True) (metis page_members_def)
    ultimately show ?thesis using assms False by (intro exI[of _ s] exI[of _ C] exI[of _ J]) simp
  next
    case True
    have hh: "h = hash_of ?b" using hash_of_block[OF ok[OF True]] by (simp add: h_def)
    then have "tb \<in> set (C h)" using True c(2) by (auto simp: live_iff hash_wf_def)
    then obtain us ws where r: "C h = us @ tb # ws" "tb_remove tb (Slot_hash h) s = Some (True, write_slot (slot_after h us) (hnext s tb) s)"
      "hash_wf (write_slot (slot_after h us) (hnext s tb) s) (C(h := us @ ws))"
      using hash_wf_remove[OF c(2), where tb = tb and h = h] by metis
    define s1 where "s1 = write_slot (slot_after h us) (hnext s tb) s"
    have l1: "link_inv s1 (live C) J P" unfolding s1_def by (rule link_inv_same[OF l]) simp
    have b1: "blk_page_addr (tbs s1 i) = blk_page_addr (tbs s i)" "blk_pc (tbs s1 i) = blk_pc (tbs s i)" "blk_size (tbs s1 i) = blk_size (tbs s i)"
      "blk_flags (tbs s1 i) = blk_flags (tbs s i)" "blk_dirty_flag (tbs s1 i) = blk_dirty_flag (tbs s i)" for i
      by (simp_all add: s1_def tbs_write_slot)
    have a0: "blk_page_addr ?b 0 \<noteq> - 1" using ok[OF True] aligned_ne by (auto simp: block_ok_def)
    obtain s3 where s3: "do { s2 \<leftarrow> remove_from_page tb (blk_page_addr ?b 0) s1;
        if blk_page_addr ?b 1 \<noteq> - 1 then remove_from_page tb (blk_page_addr ?b 1) s2 else Some s2 } = Some s3"
      "page_frame s1 s3" "pages_wf s3 ?P" "page_members s3 (live C - {tb}) ?P"
      using pages_remove[of s1 P "live C" tb] l1 True unfolding b1 link_inv_def by blast
    note f3 = page_frameD[OF s3(2)]
    define s4 where "s4 = tb_jmp_cache_remove tb (s3\<lparr>tb_invalidated_flag := True\<rparr>)"
    have c4: "cache_wf s4 (C(h := us @ ws))" "live (C(h := us @ ws)) = live C - {tb}"
    proof -
      have "hash_wf (s3\<lparr>tb_invalidated_flag := True\<rparr>) (C(h := us @ ws))"
        by (rule hash_wf_frame[of s1]) (use r(3) f3(1,2,5) in \<open>simp_all add: s1_def\<close>)
      from cache_wf_drop[OF c(1) r(1) this] show "cache_wf s4 (C(h := us @ ws))" "live (C(h := us @ ws)) = live C - {tb}"
        using f3 b1 by (simp_all add: s4_def s1_def)
    qed
    have sl: "same_links s3 s4" by (simp add: s4_def same_links_def tb_jmp_cache_remove_def Let_def)
    note f4 = lview_fields[of "tbs s4 i" "tbs s3 i" for i]
    have lv: "lview (tbs s4 i) = lview (tbs s3 i)" "nb_tbs s4 = nb_tbs s3" "l1_map s4 = l1_map s3" for i using sl by (simp_all add: same_links_def)
    have j4: "jmp_wf s4 {..<nb_tbs s} (live C) J"
      by (rule jmp_wf_cong[of s1]) (use l1 f3 lview_fields[OF lv(1)] in \<open>simp_all add: link_inv_def s1_def fun_eq_iff jnext_def jfirst_def jtarget_def\<close>)
    have "tb \<in> {..<nb_tbs s}" using link_inv_bound[OF l] True by blast
    from jumps_invalidate[OF j4 this] obtain s5 s6 s7 s8 J' where j: "tb_jmp_remove tb 0 s4 = Some s5" "tb_jmp_remove tb 1 s5 = Some s6"
      "jmp_suppress_loop (blk_jmp_first (tbs s6 tb)) s6 = Some s7" "s8 = upd_tb tb (\<lambda>b. b\<lparr>blk_jmp_first := Some (tb, EXIT_TB_FORCE)\<rparr>) s7"
      "jmp_wf s8 {..<nb_tbs s} (live C - {tb}) J'" "J' tb = []" "\<forall>t. set (J' t) \<subseteq> set (J t)" "jump_frame s4 s8" by blast
    note f8 = jump_frameD[OF j(8)]
    let ?s = "s8\<lparr>tb_phys_invalidate_count := tb_phys_invalidate_count s8 + 1\<rparr>"
    have inv: "tb_phys_invalidate tb (- 1) s = Some ?s"
      using r(2) s3(1) a0 j(1-4) by (auto simp: tb_phys_invalidate_def Let_def h_def[symmetric] s1_def[symmetric] s4_def Option.bind_eq_Some_conv split: if_splits)
    have sb: "same_bytes s ?s"
      using f8 lview_fields[OF lv(1)] lv(2) f3 b1 jump_frame_dirty[OF j(8)] page_frame_dirty[OF s3(2)]
      by (simp add: same_bytes_def s1_def s4_def tb_jmp_cache_remove_def hview_def Let_def)
    have "cache_wf ?s (C(h := us @ ws))"
      unfolding cache_wf_def
    proof (intro conjI allI impI)
      show "hash_wf ?s (C(h := us @ ws))" by (rule hash_wf_frame[of s4]) (use c4 f8 in \<open>simp_all add: cache_wf_def\<close>)
    qed (use c4 f8 in \<open>simp_all add: cache_wf_def\<close>)
    moreover have "link_inv ?s (live (C(h := us @ ws))) J' ?P"
      unfolding link_inv_def c4(2)
    proof (intro conjI ballI allI impI)
      have nb: "nb_tbs s8 = nb_tbs s" using sb by (simp add: same_bytes_def)
      show "jmp_wf ?s {..<nb_tbs ?s} (live C - {tb}) J'"
        by (rule jmp_wf_cong[of s8]) (use j(5) nb in \<open>simp_all add: jnext_def jfirst_def jtarget_def fun_eq_iff\<close>)
      show "J' t = []" if "t < nb_tbs ?s" "t \<notin> live C - {tb}" for t
      proof (cases "t = tb")
        case False
        then have "J t = []" using that nb l by (auto simp: link_inv_def)
        moreover have "set (J' t) \<subseteq> set (J t)" using j(7) by blast
        ultimately show ?thesis by simp
      qed (use j(6) in simp)
      show "pages_wf ?s ?P"
        by (rule pages_wf_cong[OF s3(3)]) (use f8 lview_fields[OF lv(1)] lv(3) in \<open>simp_all add: pnext_def page_desc_def fun_eq_iff\<close>)
      show "page_members ?s (live C - {tb}) ?P"
        by (rule page_members_cong[OF s3(4)]) (use f8 lview_fields[OF lv(1)] in simp)
      show "block_ok (tbs ?s i)" if "i \<in> live C - {tb}" for i using ok[of i] that same_bytes_ok[OF sb, of i] by simp
    qed
    ultimately have "tb_inv ?s (C(h := us @ ws)) J' ?P" by (simp add: tb_inv_def)
    then show ?thesis using inv c4(2) sb by blast
  qed
qed

end
