(* ===== verification/TB_Smc.thy ===== *)
theory TB_Smc
  imports TB_Inv
begin

text \<open>Writes to pages with translated code (\<^verbatim>\<open>src/exec.c\<close>): the bitmap of the bytes with code, and the
  invalidation of the blocks that a range of addresses touches. Unprotecting the page in the TLB, telling the
  other cores and the replay of a pending interrupt are left out.\<close>

section \<open>The bitmap\<close>

definition SMC_BITMAP_USE_THRESHOLD :: nat where
  "SMC_BITMAP_USE_THRESHOLD = 10"

text \<open>\<^verbatim>\<open>*tab |= mask\<close>; None is a write past the end of the bitmap.\<close>

definition or_byte :: "u8 list \<Rightarrow> nat \<Rightarrow> u8 \<Rightarrow> u8 list option" where
  "or_byte tab i m = (if i < length tab then Some (tab[i := tab ! i OR m]) else None)"

fun set_bits_fill :: "nat \<Rightarrow> u8 list \<Rightarrow> nat \<Rightarrow> u8 list option" where
  "set_bits_fill 0 tab i = Some tab"
| "set_bits_fill (Suc n) tab i = (if i < length tab then set_bits_fill n (tab[i := 0xFF]) (i + 1) else None)"

text \<open>The loop over the whole bytes between \<^verbatim>\<open>start\<close> and \<^verbatim>\<open>end1\<close> runs for their number.\<close>

definition set_bits :: "u8 list \<Rightarrow> nat \<Rightarrow> nat \<Rightarrow> u8 list option" where
  "set_bits tab start len =
     (let stop = start + len; i = start div 8; mask = push_bit (start mod 8) 0xFF
      in if 8 * (start div 8) = 8 * (stop div 8)
         then if start < stop then or_byte tab i (mask AND NOT (push_bit (stop mod 8) 0xFF)) else Some tab
         else do {
           t1 \<leftarrow> or_byte tab i mask;
           let start1 = 8 * ((start + 8) div 8); let end1 = 8 * (stop div 8); let n = (end1 - start1) div 8;
           t2 \<leftarrow> set_bits_fill n t1 (i + 1);
           if start1 + 8 * n < stop then or_byte t2 (i + 1 + n) (NOT (push_bit (stop mod 8) 0xFF)) else Some t2 })"

partial_function (option) build_bitmap_loop :: "(nat \<times> nat) option \<Rightarrow> u8 list \<Rightarrow> tb_state \<Rightarrow> u8 list option" where
  "build_bitmap_loop p bm s =
     (case p of
        None \<Rightarrow> Some bm
      | Some (tb, n) \<Rightarrow>
          let b = tbs s tb;
              tb_start = (if n = EXIT_TB_NO_JUMP then unat (blk_pc b AND NOT TARGET_PAGE_MASK32) else 0);
              tb_end = (if n = EXIT_TB_NO_JUMP
                        then (if 256 < tb_start + unat (blk_size b) then 256 else tb_start + unat (blk_size b))
                        else unat ((blk_pc b + ucast (blk_size b)) AND NOT TARGET_PAGE_MASK32))
          in do {
            bm' \<leftarrow> set_bits bm tb_start (tb_end - tb_start);
            build_bitmap_loop (blk_page_next b n) bm' s })"

definition build_page_bitmap :: "u64 \<Rightarrow> tb_state \<Rightarrow> tb_state option" where
  "build_page_bitmap index s = do {
     bm \<leftarrow> build_bitmap_loop (case page_find index s of Some p \<Rightarrow> first_tb p | None \<Rightarrow> None) (replicate 32 0) s;
     Some (page_upd index (\<lambda>p. p\<lparr>code_bitmap := Some bm\<rparr>) s) }"

section \<open>Invalidation of a range\<close>

definition tb_extent :: "TranslationBlock \<Rightarrow> nat \<Rightarrow> u64 \<times> u64" where
  "tb_extent b n =
     (if n = EXIT_TB_NO_JUMP
      then (let tb_start = blk_page_addr b 0 + ucast (blk_pc b AND NOT TARGET_PAGE_MASK32) in (tb_start, tb_start + ucast (blk_size b)))
      else (let tb_start = blk_page_addr b 1 in (tb_start, tb_start + ucast ((blk_pc b + ucast (blk_size b)) AND NOT TARGET_PAGE_MASK32))))"

definition range_hit :: "u64 \<Rightarrow> u64 \<Rightarrow> u64 \<times> u64 \<Rightarrow> bool" where
  "range_hit start stop e = (case e of (tb_start, tb_end) \<Rightarrow>
     (start \<le> tb_start \<and> tb_start < stop) \<or> (start \<le> tb_end \<and> tb_end < stop) \<or> (tb_start \<le> start \<and> stop \<le> tb_end))"

partial_function (option) invalidate_range_loop :: "u64 \<Rightarrow> u64 \<Rightarrow> (nat \<times> nat) option \<Rightarrow> tb_state \<Rightarrow> tb_state option" where
  "invalidate_range_loop start stop p s =
     (case p of
        None \<Rightarrow> Some s
      | Some (tb, n) \<Rightarrow>
          let tb_next = blk_page_next (tbs s tb) n
          in if range_hit start stop (tb_extent (tbs s tb) n)
             then do { s' \<leftarrow> tb_phys_invalidate tb (- 1) s; invalidate_range_loop start stop tb_next s' }
             else invalidate_range_loop start stop tb_next s)"

text \<open>None is the abort on a range over more than one page.\<close>

definition tb_invalidate_phys_page_range_inner :: "u64 \<Rightarrow> u64 \<Rightarrow> bool \<Rightarrow> tb_state \<Rightarrow> tb_state option" where
  "tb_invalidate_phys_page_range_inner start stop is_cpu_write_access s =
     (if start div 256 \<noteq> (stop - 1) div 256 then None
      else let index = drop_bit 8 start
           in case page_find index s of
                None \<Rightarrow> Some s
              | Some p \<Rightarrow> do {
                  s1 \<leftarrow> (if code_bitmap p = None
                        then let c = (code_write_count p + 1) mod 2 ^ 32;
                                 s' = page_upd index (\<lambda>p. p\<lparr>code_write_count := c\<rparr>) s
                             in if SMC_BITMAP_USE_THRESHOLD \<le> c \<and> is_cpu_write_access then build_page_bitmap index s' else Some s'
                        else Some s);
                  s2 \<leftarrow> invalidate_range_loop start stop (case page_find index s1 of Some q \<Rightarrow> first_tb q | None \<Rightarrow> None) s1;
                  Some (if (case page_find index s2 of Some q \<Rightarrow> first_tb q | None \<Rightarrow> None) = None
                        then page_upd index invalidate_page_bitmap s2 else s2) })"

partial_function (option) invalidate_pages_loop :: "u64 \<Rightarrow> u64 \<Rightarrow> bool \<Rightarrow> tb_state \<Rightarrow> tb_state option" where
  "invalidate_pages_loop start len is_cpu_write_access s =
     (if 0 < len
      then let invalidate_length = (if 256 < len then 256 else len)
           in do {
             s' \<leftarrow> tb_invalidate_phys_page_range_inner start (start + invalidate_length) is_cpu_write_access s;
             invalidate_pages_loop (start + invalidate_length) (len - invalidate_length) is_cpu_write_access s' }
      else Some s)"

definition tb_invalidate_phys_page_range_checked :: "u64 \<Rightarrow> u64 \<Rightarrow> bool \<Rightarrow> tb_state \<Rightarrow> tb_state option" where
  "tb_invalidate_phys_page_range_checked start stop is_cpu_write_access s =
     (let len = stop - start;
          first0 = 256 - start mod 256;
          first_length = (if len < first0 then len else first0)
      in do {
        s' \<leftarrow> tb_invalidate_phys_page_range_inner start (start + first_length) is_cpu_write_access s;
        invalidate_pages_loop (start + first_length) (len - first_length) is_cpu_write_access s' })"

definition tb_invalidate_phys_page_range :: "u64 \<Rightarrow> u64 \<Rightarrow> bool \<Rightarrow> tb_state \<Rightarrow> tb_state option" where
  "tb_invalidate_phys_page_range start stop is_cpu_write_access s =
     tb_invalidate_phys_page_range_checked start stop is_cpu_write_access s"

definition tb_invalidate_phys_page_fast :: "u64 \<Rightarrow> nat \<Rightarrow> tb_state \<Rightarrow> tb_state option" where
  "tb_invalidate_phys_page_fast start len s =
     (case page_find (drop_bit 8 start) s of
        None \<Rightarrow> Some s
      | Some p \<Rightarrow>
          (case code_bitmap p of
             Some bm \<Rightarrow>
               let offset = unat (start AND 0xFF);
                   b = drop_bit (offset mod 8) (ucast (bm ! (offset div 8)) :: u32)
               in if b AND (push_bit len 1 - 1) \<noteq> 0 then tb_invalidate_phys_page_range start (start + of_nat len) True s else Some s
           | None \<Rightarrow> tb_invalidate_phys_page_range start (start + of_nat len) True s))"

section \<open>The bitmap is exact\<close>

lemma bit_ff: "k < 8 \<Longrightarrow> bit (push_bit a (0xFF :: u8)) k \<longleftrightarrow> a \<le> k"
proof -
  assume "k < 8"
  have "(0xFF :: u8) = mask 8" by (simp add: mask_eq_exp_minus_1)
  then show ?thesis using \<open>k < 8\<close> by (simp only: bit_push_bit_iff bit_mask_iff) auto
qed

lemma or_byte_bits:
  assumes "i < length tab"
  shows "\<exists>t. or_byte tab i m = Some t \<and> length t = length tab \<and>
    (\<forall>j<8 * length tab. bitmap_bit t j \<longleftrightarrow> bitmap_bit tab j \<or> j div 8 = i \<and> bit m (j mod 8))"
proof -
  have "bitmap_bit (tab[i := tab ! i OR m]) j \<longleftrightarrow> bitmap_bit tab j \<or> j div 8 = i \<and> bit m (j mod 8)" if "j < 8 * length tab" for j
    using that assms by (cases "j div 8 = i") (auto simp: bitmap_bit_def bit_or_iff)
  then show ?thesis using assms by (simp add: or_byte_def)
qed

lemma set_bits_fill_bits:
  "i + n \<le> length tab \<Longrightarrow> \<exists>t. set_bits_fill n tab i = Some t \<and> length t = length tab \<and>
    (\<forall>j<8 * length tab. bitmap_bit t j \<longleftrightarrow> bitmap_bit tab j \<or> i \<le> j div 8 \<and> j div 8 < i + n)"
proof (induction n arbitrary: tab i)
  case (Suc n)
  have "i + 1 + n \<le> length (tab[i := 0xFF])" using Suc.prems by simp
  from Suc.IH[OF this] obtain t where t: "set_bits_fill n (tab[i := 0xFF]) (i + 1) = Some t" "length t = length tab"
    "\<forall>j<8 * length tab. bitmap_bit t j \<longleftrightarrow> bitmap_bit (tab[i := 0xFF]) j \<or> i + 1 \<le> j div 8 \<and> j div 8 < i + 1 + n" by auto
  have "bit (0xFF :: u8) (j mod 8)" for j using bit_ff[of "j mod 8" 0] by simp
  then have "bitmap_bit (tab[i := 0xFF]) j \<longleftrightarrow> (if j div 8 = i then True else bitmap_bit tab j)" for j
    using Suc.prems by (simp add: bitmap_bit_def)
  then have "bitmap_bit t j \<longleftrightarrow> bitmap_bit tab j \<or> i \<le> j div 8 \<and> j div 8 < i + Suc n" if "j < 8 * length tab" for j
    using t(3) that by auto
  then show ?case using t Suc.prems by simp
qed auto

lemma le8: "(a::nat) \<le> b \<longleftrightarrow> a div 8 < b div 8 \<or> a div 8 = b div 8 \<and> a mod 8 \<le> b mod 8"
proof -
  have "8 * p + r \<le> 8 * q + s \<longleftrightarrow> p < q \<or> p = q \<and> r \<le> s" if "r < 8" "s < 8" for p q r s :: nat
    using that by arith
  from this[of "a mod 8" "b mod 8" "a div 8" "b div 8"] show ?thesis by simp
qed

lemma less8: "(a::nat) < b \<longleftrightarrow> a div 8 < b div 8 \<or> a div 8 = b div 8 \<and> a mod 8 < b mod 8"
  using le8[of b a] by auto

lemma mul8: "8 * q \<le> (j::nat) \<longleftrightarrow> q \<le> j div 8" "j < 8 * q \<longleftrightarrow> j div 8 < q"
  by (simp_all add: less_eq_div_iff_mult_less_eq div_less_iff_less_mult mult.commute)

lemma set_bits_spec:
  assumes "start + len \<le> 8 * length tab"
  shows "\<exists>t. set_bits tab start len = Some t \<and> length t = length tab \<and>
    (\<forall>j<8 * length tab. bitmap_bit t j \<longleftrightarrow> bitmap_bit tab j \<or> start \<le> j \<and> j < start + len)"
proof -
  define stop where "stop = start + len"
  let ?i = "start div 8" and ?m = "push_bit (start mod 8) (0xFF :: u8)" and ?e = "push_bit (stop mod 8) (0xFF :: u8)"
  have stop: "stop \<le> 8 * length tab" "start \<le> stop" using assms by (simp_all add: stop_def)
  show ?thesis
  proof (cases "start div 8 = stop div 8")
    case True
    show ?thesis
    proof (cases "start < stop")
      case False
      then show ?thesis using True by (intro exI[of _ tab]) (auto simp: set_bits_def stop_def Let_def)
    next
      case less: True
      have "?i < length tab" using less stop by simp
      from or_byte_bits[OF this, of "?m AND NOT ?e"] obtain t where t: "or_byte tab ?i (?m AND NOT ?e) = Some t" "length t = length tab"
        "\<forall>j<8 * length tab. bitmap_bit t j \<longleftrightarrow> bitmap_bit tab j \<or> j div 8 = ?i \<and> bit (?m AND NOT ?e) (j mod 8)" by blast
      have "j div 8 = ?i \<and> bit (?m AND NOT ?e) (j mod 8) \<longleftrightarrow> start \<le> j \<and> j < stop" for j
      proof -
        have "bit (?m AND NOT ?e) (j mod 8) \<longleftrightarrow> start mod 8 \<le> j mod 8 \<and> j mod 8 < stop mod 8"
          by (auto simp: bit_and_iff bit_not_iff bit_ff)
        moreover have "j div 8 = ?i \<and> start mod 8 \<le> j mod 8 \<and> j mod 8 < stop mod 8 \<longleftrightarrow> start \<le> j \<and> j < stop"
          using True unfolding le8[of start j] less8[of j stop] by auto
        ultimately show ?thesis by blast
      qed
      moreover have "set_bits tab start len = Some t" using t(1) True less by (simp add: set_bits_def stop_def Let_def)
      moreover have "bitmap_bit t j \<longleftrightarrow> bitmap_bit tab j \<or> start \<le> j \<and> j < stop" if "j < 8 * length tab" for j
        using t(3) that calculation(1)[of j] by blast
      ultimately show ?thesis using t(2) by (simp add: stop_def)
    qed
  next
    case False
    then have lt: "start div 8 < stop div 8" using stop(2) div_le_mono[of start stop 8] by simp
    let ?n = "stop div 8 - ?i - 1"
    have le: "stop div 8 \<le> length tab" using stop(1) by (simp add: div_le_mono[of stop "8 * length tab" 8, simplified])
    have i: "?i < length tab" using lt le by simp
    from or_byte_bits[OF this, of ?m] obtain t1 where t1: "or_byte tab ?i ?m = Some t1" "length t1 = length tab"
      "\<forall>j<8 * length tab. bitmap_bit t1 j \<longleftrightarrow> bitmap_bit tab j \<or> j div 8 = ?i \<and> bit ?m (j mod 8)" by blast
    have "?i + 1 + ?n \<le> length t1" using lt le t1(2) by simp
    from set_bits_fill_bits[OF this] obtain t2 where t2: "set_bits_fill ?n t1 (?i + 1) = Some t2" "length t2 = length tab"
      "\<forall>j<8 * length tab. bitmap_bit t2 j \<longleftrightarrow> bitmap_bit t1 j \<or> ?i + 1 \<le> j div 8 \<and> j div 8 < ?i + 1 + ?n" using t1(2) by auto
    obtain d where d: "stop div 8 = ?i + 1 + d" using lt by (metis Suc_leI le_Suc_ex Suc_eq_plus1)
    have "(start + 8) div 8 = ?i + 1" by simp
    then have a: "8 * ((start + 8) div 8) + 8 * ?n = 8 * (stop div 8)" "(8 * (stop div 8) - 8 * ((start + 8) div 8)) div 8 = ?n"
      unfolding d by simp_all
    have two: "j div 8 = ?i \<and> bit ?m (j mod 8) \<or> ?i + 1 \<le> j div 8 \<and> j div 8 < ?i + 1 + ?n \<longleftrightarrow> start \<le> j \<and> j < 8 * (stop div 8)" for j
    proof -
      have "bit ?m (j mod 8) \<longleftrightarrow> start mod 8 \<le> j mod 8" by (simp add: bit_ff)
      moreover have "j div 8 = ?i \<and> start mod 8 \<le> j mod 8 \<or> ?i + 1 \<le> j div 8 \<and> j div 8 < ?i + 1 + ?n \<longleftrightarrow> start \<le> j \<and> j < 8 * (stop div 8)"
        using lt unfolding le8[of start j] mul8 by auto
      ultimately show ?thesis by blast
    qed
    show ?thesis
    proof (cases "8 * (stop div 8) < stop")
      case False
      then have e: "8 * (stop div 8) = stop" by simp
      have "set_bits tab start len = Some t2" using t1(1) t2(1) \<open>start div 8 \<noteq> stop div 8\<close> a False
        by (simp add: set_bits_def stop_def[symmetric] Let_def)
      moreover have "bitmap_bit t2 j \<longleftrightarrow> bitmap_bit tab j \<or> start \<le> j \<and> j < stop" if "j < 8 * length tab" for j
        using t1(3) t2(3) two[of j] that unfolding e by blast
      ultimately show ?thesis using t2(2) by (simp add: stop_def)
    next
      case True
      have "stop div 8 < length tab" using True stop(1) by (metis less_le_trans nat_mult_less_cancel_disj)
      then have "?i + 1 + ?n < length t2" using lt t2(2) by simp
      from or_byte_bits[OF this, of "NOT ?e"] obtain t3 where t3: "or_byte t2 (?i + 1 + ?n) (NOT ?e) = Some t3" "length t3 = length tab"
        "\<forall>j<8 * length tab. bitmap_bit t3 j \<longleftrightarrow> bitmap_bit t2 j \<or> j div 8 = ?i + 1 + ?n \<and> bit (NOT ?e) (j mod 8)" using t2(2) by auto
      have sb: "set_bits tab start len = Some t3" using t1(1) t2(1) t3(1) \<open>start div 8 \<noteq> stop div 8\<close> a True
        by (simp add: set_bits_def stop_def[symmetric] Let_def)
      have three: "j div 8 = ?i + 1 + ?n \<and> bit (NOT ?e) (j mod 8) \<longleftrightarrow> 8 * (stop div 8) \<le> j \<and> j < stop" for j
      proof -
        have "bit (NOT ?e) (j mod 8) \<longleftrightarrow> j mod 8 < stop mod 8" by (auto simp: bit_not_iff bit_ff)
        moreover have "j div 8 = ?i + 1 + ?n \<and> j mod 8 < stop mod 8 \<longleftrightarrow> 8 * (stop div 8) \<le> j \<and> j < stop"
          using lt unfolding mul8 less8[of j stop] by auto
        ultimately show ?thesis by blast
      qed
      have "start \<le> 8 * (stop div 8)" unfolding le8[of start] using lt by simp
      moreover have "bitmap_bit t3 j \<longleftrightarrow> bitmap_bit tab j \<or> start \<le> j \<and> j < stop" if "j < 8 * length tab" for j
      proof -
        have "bitmap_bit t3 j \<longleftrightarrow> bitmap_bit tab j \<or> start \<le> j \<and> j < 8 * (stop div 8) \<or> 8 * (stop div 8) \<le> j \<and> j < stop"
          using t1(3) t2(3) t3(3) two[of j] three[of j] that by blast
        then show ?thesis using \<open>start \<le> 8 * (stop div 8)\<close> True by linarith
      qed
      ultimately show ?thesis using t3(2) sb by (simp add: stop_def)
    qed
  qed
qed

lemma page_bytes_256: "j \<in> page_bytes b n \<Longrightarrow> j < 256"
proof -
  have "unat (x AND NOT TARGET_PAGE_MASK32) < 256" for x by (simp add: page_off_eq)
  then show "j \<in> page_bytes b n \<Longrightarrow> j < 256" by (auto simp: page_bytes_def intro: less_trans split: if_splits)
qed

lemma build_bitmap_loop_bits:
  assumes "chain (pnext s) p cs" "length bm = 32"
  shows "\<exists>t. build_bitmap_loop p bm s = Some t \<and> length t = 32 \<and>
    (\<forall>j<256. bitmap_bit t j \<longleftrightarrow> bitmap_bit bm j \<or> (\<exists>c\<in>set cs. j \<in> page_bytes (tbs s (fst c)) (snd c)))"
  using assms
proof (induction cs arbitrary: p bm)
  case Nil
  then show ?case by (subst build_bitmap_loop.simps) auto
next
  case (Cons c cs)
  let ?b = "tbs s (fst c)"
  define st where "st = (if snd c = EXIT_TB_NO_JUMP then unat (blk_pc ?b AND NOT TARGET_PAGE_MASK32) else 0)"
  define en where "en = (if snd c = EXIT_TB_NO_JUMP then (if 256 < st + unat (blk_size ?b) then 256 else st + unat (blk_size ?b))
    else unat ((blk_pc ?b + ucast (blk_size ?b)) AND NOT TARGET_PAGE_MASK32))"
  have off: "unat (x AND NOT TARGET_PAGE_MASK32) < 256" for x by (simp add: page_off_eq)
  have le: "st \<le> en" "en \<le> 256" using off[of "blk_pc ?b"] off[of "blk_pc ?b + ucast (blk_size ?b)"] by (auto simp: st_def en_def)
  then have "st + (en - st) \<le> 8 * length bm" using Cons.prems(2) by simp
  from set_bits_spec[OF this] obtain t where t: "set_bits bm st (en - st) = Some t" "length t = 32"
    "\<forall>j<256. bitmap_bit t j \<longleftrightarrow> bitmap_bit bm j \<or> st \<le> j \<and> j < en" using Cons.prems(2) le by auto
  have pb: "j \<in> page_bytes ?b (snd c) \<longleftrightarrow> st \<le> j \<and> j < en" for j
    by (auto simp: page_bytes_def st_def en_def)
  have "chain (pnext s) (pnext s c) cs" using Cons.prems(1) by simp
  from Cons.IH[OF this t(2)] obtain t' where t': "build_bitmap_loop (pnext s c) t s = Some t'" "length t' = 32"
    "\<forall>j<256. bitmap_bit t' j \<longleftrightarrow> bitmap_bit t j \<or> (\<exists>c\<in>set cs. j \<in> page_bytes (tbs s (fst c)) (snd c))" by blast
  have "build_bitmap_loop p bm s = Some t'"
    using t(1)[unfolded en_def st_def] t'(1) Cons.prems(1)
    by (subst build_bitmap_loop.simps, cases "snd c = 0") (auto simp: case_prod_beta Let_def pnext_def split: if_splits)
  then show ?case using t(3) t'(2,3) pb by auto
qed

text \<open>A page whose bitmap was built is still in order.\<close>

lemma pages_wf_upd_desc:
  assumes "pages_wf s P" "\<And>p. first_tb (f p) = first_tb p"
    "\<And>p bm. page_desc s (pkey index) = Some p \<Longrightarrow> code_bitmap (f p) = Some bm \<Longrightarrow> code_bitmap p = Some bm \<or> bitmap_exact s (P (pkey index)) bm"
  shows "pages_wf (page_upd index f s) P"
proof -
  let ?s = "page_upd index f s"
  have pf: "pfirst ?s = pfirst s" using assms(2) by (auto simp: fun_eq_iff pfirst_def split: option.split)
  have "bitmap_exact s (P k) bm" if H: "pbits ?s k = Some bm" for k bm
  proof (cases "k = pkey index")
    case True
    then obtain p where p: "page_desc s k = Some p" "code_bitmap (f p) = Some bm" using H by (auto simp: pbits_def split: option.splits)
    from assms(3)[OF p(1)[unfolded True] p(2)] show ?thesis
    proof
      assume "code_bitmap p = Some bm"
      then have "pbits s k = Some bm" using p(1) by (simp add: pbits_def)
      then show ?thesis by (rule pages_wfD(4)[OF assms(1)])
    qed (simp add: True)
  next
    case False
    then have "pbits s k = Some bm" using H by (simp add: pbits_def)
    then show ?thesis by (rule pages_wfD(4)[OF assms(1)])
  qed
  then show ?thesis using assms(1) by (simp add: pages_wf_def pf bitmap_exact_def)
qed

lemma tb_inv_page_upd:
  assumes "tb_inv s C J P" "pages_wf (page_upd index f s) P"
  shows "tb_inv (page_upd index f s) C J P" "same_bytes s (page_upd index f s)"
proof -
  let ?s = "page_upd index f s"
  note fr = page_frameD[OF page_frame_step(1)[of s index f]]
  have "cache_wf ?s C" using assms(1) unfolding tb_inv_def cache_wf_def
    by (auto intro: hash_wf_frame[of s])
  moreover have "jmp_wf ?s {..<nb_tbs s} (live C) J"
    by (rule jmp_wf_cong[of s]) (use assms(1) fr in \<open>simp_all add: tb_inv_def link_inv_def\<close>)
  ultimately show "tb_inv ?s C J P" using assms fr by (simp add: tb_inv_def link_inv_def page_members_def)
  show "same_bytes s ?s" by (simp add: same_bytes_def)
qed

section \<open>Invalidating a range\<close>

text \<open>The addresses of the bytes of a block.\<close>

definition block_addrs :: "TranslationBlock \<Rightarrow> u64 set" where
  "block_addrs b = (\<lambda>j. blk_page_addr b 0 + of_nat j) ` page_bytes b 0 \<union>
     (if blk_page_addr b 1 = - 1 then {} else (\<lambda>j. blk_page_addr b 1 + of_nat j) ` page_bytes b 1)"

lemma aligned_room:
  fixes a :: u64
  assumes "a AND mask 8 = 0"
  shows "unat a mod 256 = 0" "unat a + 256 \<le> 2 ^ 64" "a \<noteq> - 256 \<Longrightarrow> unat a + 512 \<le> 2 ^ 64"
proof -
  have "take_bit 8 (unat a) = 0" using assms by (metis take_bit_eq_mask unsigned_take_bit_eq unsigned_0)
  then show m: "unat a mod 256 = 0" by (simp add: take_bit_eq_mod)
  have l: "unat a < 2 ^ 64" using unsigned_less[of a] by simp
  have q: "unat a = 256 * (unat a div 256)" using m by presburger
  then have d: "unat a div 256 < 2 ^ 56" using l by simp
  then show "unat a + 256 \<le> 2 ^ 64" using q by simp
  have "unat (- 256 :: u64) = 2 ^ 64 - 256" by simp
  then have "unat a \<noteq> 2 ^ 64 - 256" if "a \<noteq> - 256" using that by (metis word_unat_eq_iff)
  then have "unat a div 256 \<noteq> 2 ^ 56 - 1" if "a \<noteq> - 256" using that q by force
  then show "unat a + 512 \<le> 2 ^ 64" if "a \<noteq> - 256" using that q d by simp
qed

lemma byte_addr:
  fixes a :: u64
  assumes "a AND mask 8 = 0" "j < 256"
  shows "unat (a + of_nat j) = unat a + j" "drop_bit 8 (a + of_nat j) = drop_bit 8 a" "unat (a + of_nat j) mod 256 = j"
proof -
  have j: "unat (of_nat j :: u64) = j" using assms(2) by (simp add: unat_of_nat)
  have "unat a + j < 2 ^ 64" using aligned_room(2)[OF assms(1)] assms(2) by linarith
  then show u: "unat (a + of_nat j) = unat a + j" by (simp add: unat_word_ariths(1) j)
  obtain q where q: "unat a = 256 * q" using aligned_room(1)[OF assms(1)] by (metis dvd_eq_mod_eq_0 dvdE)
  have "(256 * q + j) div 256 = q" "(256 * q + j) mod 256 = j" using assms(2) by simp_all
  then have "unat (a + of_nat j) div 256 = unat a div 256" "unat (a + of_nat j) mod 256 = j" unfolding u q by simp_all
  then show "unat (a + of_nat j) mod 256 = j" "drop_bit 8 (a + of_nat j) = drop_bit 8 a"
    by (simp_all only: word_unat_eq_iff unat_drop_bit) simp
qed

text \<open>A block with a byte in the range is hit.\<close>

lemma range_hit_byte:
  assumes "block_ok b" "j \<in> page_bytes b n" "n = 0 \<or> blk_page_addr b 1 \<noteq> - 1"
    "start \<le> blk_page_addr b (if n = 0 then 0 else 1) + of_nat j" "blk_page_addr b (if n = 0 then 0 else 1) + of_nat j < stop"
  shows "range_hit start stop (tb_extent b n)"
proof -
  let ?a = "blk_page_addr b (if n = 0 then 0 else 1)" and ?e = "tb_extent b n"
  have al: "?a AND mask 8 = 0" using assms(1,3) by (auto simp: block_ok_def split: if_splits)
  have x: "unat (?a + of_nat j) = unat ?a + j" using byte_addr(1)[OF al page_bytes_256[OF assms(2)]] .
  have "unat (fst ?e) \<le> unat ?a + j \<and> unat ?a + j < unat (snd ?e)"
  proof (cases "n = 0")
    case True
    let ?o = "blk_pc b AND NOT TARGET_PAGE_MASK32"
    have o: "unat ?o < 256" by (simp add: page_off_eq)
    have r: "unat (blk_page_addr b 0) + 512 \<le> 2 ^ 64" "unat (blk_size b) \<le> 256" using assms(1) aligned_room(3) by (auto simp: block_ok_def)
    have s: "unat (blk_page_addr b 0 + ucast ?o) = unat (blk_page_addr b 0) + unat ?o" using r o by (simp add: unat_word_ariths unsigned_ucast_eq take_bit_nat_eq_self)
    then have "unat (blk_page_addr b 0 + ucast ?o + ucast (blk_size b)) = unat (blk_page_addr b 0) + unat ?o + unat (blk_size b)"
      using r o by (simp add: unat_word_ariths unsigned_ucast_eq take_bit_nat_eq_self)
    then show ?thesis using True s assms(2) by (auto simp: tb_extent_def Let_def page_bytes_def)
  next
    case False
    let ?o = "(blk_pc b + ucast (blk_size b)) AND NOT TARGET_PAGE_MASK32"
    have "unat ?o < 256" by (simp add: page_off_eq)
    then have "unat (?a + ucast ?o) = unat ?a + unat ?o"
      using aligned_room(2)[OF al] by (simp add: unat_word_ariths unsigned_ucast_eq take_bit_nat_eq_self)
    then show ?thesis using False assms(2) by (auto simp: tb_extent_def Let_def page_bytes_def)
  qed
  then show ?thesis using assms(4,5) x by (auto simp: range_hit_def word_le_nat_alt word_less_nat_alt split: prod.split)
qed

text \<open>The blocks of the list that are hit leave the cache; the links read before each invalidation stay the list.\<close>

lemma chain_start: "chain nx p (xs @ ys) \<Longrightarrow> chain nx (case ys of [] \<Rightarrow> None | y # _ \<Rightarrow> Some y) ys"
proof (induction xs arbitrary: p)
  case Nil
  then show ?case by (cases ys) auto
qed auto

lemma invalidate_range_loop_inv:
  assumes "tb_inv s C J P" "P k = xs @ ys"
  shows "\<exists>s' C' J' P'. invalidate_range_loop start stop (case ys of [] \<Rightarrow> None | y # _ \<Rightarrow> Some y) s = Some s' \<and> tb_inv s' C' J' P' \<and>
    live C' = live C - fst ` {c \<in> set ys. range_hit start stop (tb_extent (tbs s (fst c)) (snd c))} \<and> same_bytes s s'"
  using assms
proof (induction ys arbitrary: s C J P xs)
  case Nil
  then show ?case by (subst invalidate_range_loop.simps) auto
next
  case (Cons y ys)
  let ?hd = "case ys of [] \<Rightarrow> None | y # _ \<Rightarrow> Some y"
  let ?hit = "\<lambda>s c. range_hit start stop (tb_extent (tbs s (fst c)) (snd c))"
  have w: "pages_wf s P" using Cons.prems(1) by (simp add: tb_inv_def link_inv_def)
  note c = pages_wfD[OF w, where k = k, unfolded Cons.prems(2)]
  have "chain nx p (xs @ y # ys) \<Longrightarrow> chain nx (nx y) ys" for nx :: "nat \<times> nat \<Rightarrow> _" and p by (induction xs arbitrary: p) auto
  then have "chain (pnext s) (pnext s y) ys" using c(1) by blast
  then have nxt: "blk_page_next (tbs s (fst y)) (snd y) = ?hd" by (cases ys) (simp_all add: pnext_def)
  show ?case
  proof (cases "?hit s y")
    case False
    have "P k = (xs @ [y]) @ ys" using Cons.prems(2) by simp
    from Cons.IH[OF Cons.prems(1) this] obtain s' C' J' P' where *: "invalidate_range_loop start stop ?hd s = Some s'" "tb_inv s' C' J' P'"
      "live C' = live C - fst ` {c \<in> set ys. ?hit s c}" "same_bytes s s'" by blast
    have "invalidate_range_loop start stop (Some y) s = Some s'"
      using *(1) False nxt by (subst invalidate_range_loop.simps) (simp add: case_prod_beta)
    moreover have "{c \<in> set (y # ys). ?hit s c} = {c \<in> set ys. ?hit s c}" using False by auto
    ultimately show ?thesis using *(2-4) by (intro exI[of _ s'] exI[of _ C'] exI[of _ J'] exI[of _ P']) simp
  next
    case True
    let ?f = "\<lambda>k. filter (\<lambda>d. fst d \<noteq> fst y) (P k)"
    obtain s1 C1 J1 where s1: "tb_phys_invalidate (fst y) (- 1) s = Some s1" "tb_inv s1 C1 J1 ?f" "live C1 = live C - {fst y}" "same_bytes s s1"
      using tb_phys_invalidate_inv[OF Cons.prems(1), of "fst y"] by blast
    have "?f k = filter (\<lambda>d. fst d \<noteq> fst y) xs @ ys"
      using c(2) Cons.prems(2) by (auto intro!: filter_True simp: image_iff)
    from Cons.IH[OF s1(2) this] obtain s' C' J' P' where *: "invalidate_range_loop start stop ?hd s1 = Some s'" "tb_inv s' C' J' P'"
      "live C' = live C1 - fst ` {c \<in> set ys. ?hit s1 c}" "same_bytes s1 s'" by blast
    have e: "tb_extent (tbs s1 i) n = tb_extent (tbs s i) n" for i n using s1(4) by (simp add: same_bytes_def tb_extent_def Let_def)
    have "invalidate_range_loop start stop (Some y) s = Some s'"
      using *(1) True nxt s1(1) by (subst invalidate_range_loop.simps) (simp add: case_prod_beta)
    moreover have "live C' = live C - fst ` {c \<in> set (y # ys). ?hit s c}" using *(3) s1(3) True by (auto simp: e)
    ultimately show ?thesis using *(2) same_bytes_trans[OF s1(4) *(4)] by (intro exI[of _ s'] exI[of _ C'] exI[of _ J'] exI[of _ P']) simp
  qed
qed

text \<open>A block in use with a byte in a range on one page is on the list of that page, and hit.\<close>

lemma byte_on_list:
  assumes "tb_inv s C J P" "i \<in> live C" "x \<in> block_addrs (tbs s i)" "start \<le> x" "x < stop" "start div 256 = (stop - 1) div 256"
  shows "\<exists>n j. (i, n) \<in> set (P (pkey (drop_bit 8 start))) \<and> range_hit start stop (tb_extent (tbs s i) n) \<and>
    j \<in> page_bytes (tbs s i) n \<and> unat x mod 256 = j \<and> unat start div 256 = unat x div 256"
proof -
  let ?b = "tbs s i"
  have ok: "block_ok ?b" and m: "page_members s (live C) P" using assms(1,2) by (simp_all add: tb_inv_def link_inv_def)
  obtain n j where n: "n = 0 \<or> n = 1 \<and> blk_page_addr ?b 1 \<noteq> - 1" "j \<in> page_bytes ?b n" "x = blk_page_addr ?b n + of_nat j"
    using assms(3) by (auto simp: block_addrs_def split: if_splits)
  have al: "blk_page_addr ?b n AND mask 8 = 0" using ok n(1) by (auto simp: block_ok_def split: if_splits)
  have "stop \<noteq> 0" using assms(5) by auto
  then have "x \<le> stop - 1" using assms(5) by (simp add: word_le_sub1 unat_minus_one word_le_nat_alt word_less_nat_alt)
  then have "unat start div 256 \<le> unat x div 256" "unat x div 256 \<le> unat (stop - 1) div 256"
    using assms(4) by (simp_all add: word_le_nat_alt div_le_mono)
  moreover have "unat start div 256 = unat (stop - 1) div 256" using arg_cong[OF assms(6), of unat] by (simp add: unat_div)
  ultimately have d: "unat start div 256 = unat x div 256" by simp
  then have "drop_bit 8 start = drop_bit 8 x" by (simp add: word_unat_eq_iff unat_drop_bit)
  also have "\<dots> = drop_bit 8 (blk_page_addr ?b n)" using byte_addr(2)[OF al page_bytes_256[OF n(2)]] n(3) by simp
  finally have "on_page ?b n (pkey (drop_bit 8 start))" using n(1) by (auto simp: on_page_def)
  then have "(i, n) \<in> set (P (pkey (drop_bit 8 start)))" using m assms(2) unfolding page_members_def by (metis fst_conv snd_conv)
  moreover have "range_hit start stop (tb_extent ?b n)"
    using range_hit_byte[OF ok n(2), of start stop] n(1,3) assms(4,5) by auto
  moreover have "unat x mod 256 = j" using byte_addr(3)[OF al page_bytes_256[OF n(2)]] n(3) by simp
  ultimately show ?thesis using n(2) d by blast
qed

text \<open>The contract of invalidating a range.\<close>

definition range_gone :: "tb_state \<Rightarrow> nat set \<Rightarrow> u64 set \<Rightarrow> tb_state \<Rightarrow> nat set \<Rightarrow> bool" where
  "range_gone s A R s' A' \<longleftrightarrow> cache_inv s' A' \<and> A' \<subseteq> A \<and> same_bytes s s' \<and> (\<forall>i\<in>A'. block_addrs (tbs s' i) \<inter> R = {})"

lemma same_bytes_addrs: "same_bytes s s' \<Longrightarrow> block_addrs (tbs s' i) = block_addrs (tbs s i)"
  by (simp add: same_bytes_def block_addrs_def page_bytes_def)

text \<open>No block on the page that the test hits is left, blocks without bytes included.\<close>

lemma invalidate_inner_hits:
  assumes "cache_inv s A" "start div 256 = (stop - 1) div 256"
  shows "\<exists>s' A'. tb_invalidate_phys_page_range_inner start stop w s = Some s' \<and> cache_inv s' A' \<and> A' \<subseteq> A \<and> same_bytes s s' \<and>
    (\<forall>i\<in>A'. \<forall>n. on_page (tbs s i) n (pkey (drop_bit 8 start)) \<longrightarrow> \<not> range_hit start stop (tb_extent (tbs s i) n))"
proof -
  let ?i = "drop_bit 8 start"
  obtain C J P where inv: "tb_inv s C J P" "live C = A" using assms(1) unfolding cache_inv_def by blast
  have wf: "pages_wf s P" and pm: "page_members s A P" using inv by (auto simp: tb_inv_def link_inv_def)
  then have list: "(i, n) \<in> set (P (pkey ?i)) \<longleftrightarrow> i \<in> A \<and> on_page (tbs s i) n (pkey ?i)" for i n
    unfolding page_members_def by (metis fst_conv snd_conv)
  show ?thesis
  proof (cases "page_find ?i s")
    case None
    have "chain (pnext s) None (P (pkey ?i))" using pages_wfD(1)[OF wf, of "pkey ?i"] None by (simp add: pfirst_def page_find_desc)
    then have "P (pkey ?i) = []" by (cases "P (pkey ?i)") auto
    then have "\<not> on_page (tbs s i) n (pkey ?i)" if "i \<in> A" for i n using list[of i n] that by simp
    then show ?thesis using None assms
      by (intro exI[of _ s] exI[of _ A]) (auto simp: tb_invalidate_phys_page_range_inner_def Let_def)
  next
    case (Some p)
    let ?c = "(code_write_count p + 1) mod 2 ^ 32"
    define s1 where "s1 = page_upd ?i (\<lambda>p. p\<lparr>code_write_count := ?c\<rparr>) s"
    have w1: "pages_wf s1 P" unfolding s1_def by (rule pages_wf_upd_desc[OF wf]) simp_all
    note i1 = tb_inv_page_upd[OF inv(1) w1[unfolded s1_def], folded s1_def]
    have "\<exists>s2. (if code_bitmap p = None then if SMC_BITMAP_USE_THRESHOLD \<le> ?c \<and> w then build_page_bitmap ?i s1 else Some s1 else Some s) = Some s2 \<and>
      tb_inv s2 C J P \<and> same_bytes s s2"
    proof (cases "code_bitmap p = None \<and> SMC_BITMAP_USE_THRESHOLD \<le> ?c \<and> w")
      case True
      have fp: "(case page_find ?i s1 of Some p \<Rightarrow> first_tb p | None \<Rightarrow> None) = pfirst s1 (pkey ?i)"
        by (auto simp: page_find_desc pfirst_def split: option.split)
      obtain bm where bm: "build_bitmap_loop (pfirst s1 (pkey ?i)) (replicate 32 0) s1 = Some bm" "length bm = 32"
        "\<forall>j<256. bitmap_bit bm j \<longleftrightarrow> bitmap_bit (replicate 32 0) j \<or> (\<exists>c\<in>set (P (pkey ?i)). j \<in> page_bytes (tbs s1 (fst c)) (snd c))"
        using build_bitmap_loop_bits[OF pages_wfD(1)[OF w1], of "replicate 32 0" "pkey ?i"] by auto
      let ?s2 = "page_upd ?i (\<lambda>p. p\<lparr>code_bitmap := Some bm\<rparr>) s1"
      have "\<not> bitmap_bit (replicate 32 0) j" if "j < 256" for j using that by (simp add: bitmap_bit_def)
      then have "bitmap_exact s1 (P (pkey ?i)) bm" using bm(2,3) by (simp add: bitmap_exact_def)
      then have "pages_wf ?s2 P" by (intro pages_wf_upd_desc[OF w1]) simp_all
      from tb_inv_page_upd[OF i1(1) this] have "tb_inv ?s2 C J P" "same_bytes s ?s2" using same_bytes_trans[OF i1(2)] by blast+
      moreover have "build_page_bitmap ?i s1 = Some ?s2" using bm(1) fp by (simp add: build_page_bitmap_def)
      ultimately show ?thesis using True by simp
    qed (use inv i1 in auto)
    then obtain s2 where s2: "(if code_bitmap p = None then if SMC_BITMAP_USE_THRESHOLD \<le> ?c \<and> w then build_page_bitmap ?i s1 else Some s1 else Some s) = Some s2"
      "tb_inv s2 C J P" "same_bytes s s2" by blast
    have fp: "(case page_find ?i x of Some q \<Rightarrow> first_tb q | None \<Rightarrow> None) = pfirst x (pkey ?i)" for x
      by (auto simp: page_find_desc pfirst_def split: option.split)
    have "pages_wf s2 P" using s2(2) by (simp add: tb_inv_def link_inv_def)
    from pages_wfD(1)[OF this, of "pkey ?i"] have "pfirst s2 (pkey ?i) = (case P (pkey ?i) of [] \<Rightarrow> None | y # _ \<Rightarrow> Some y)"
      by (cases "P (pkey ?i)") auto
    then obtain s3 C3 J3 P3 where s3: "invalidate_range_loop start stop (pfirst s2 (pkey ?i)) s2 = Some s3" "tb_inv s3 C3 J3 P3"
      "live C3 = A - fst ` {c \<in> set (P (pkey ?i)). range_hit start stop (tb_extent (tbs s2 (fst c)) (snd c))}" "same_bytes s2 s3"
      using invalidate_range_loop_inv[OF s2(2), of "pkey ?i" "[]" _ start stop] inv(2) by auto
    define s4 where "s4 = (if pfirst s3 (pkey ?i) = None then page_upd ?i invalidate_page_bitmap s3 else s3)"
    have "pages_wf (page_upd ?i invalidate_page_bitmap s3) P3"
      by (rule pages_wf_upd_desc) (use s3(2) in \<open>simp_all add: tb_inv_def link_inv_def invalidate_page_bitmap_def\<close>)
    then have i4: "tb_inv s4 C3 J3 P3" "same_bytes s3 s4" using tb_inv_page_upd[OF s3(2)] s3(2) by (simp_all add: s4_def)
    have sb: "same_bytes s s4" by (rule same_bytes_trans[OF s2(3) same_bytes_trans[OF s3(4) i4(2)]])
    have "tb_invalidate_phys_page_range_inner start stop w s = Some s4"
      unfolding tb_invalidate_phys_page_range_inner_def Let_def Some option.case fp s1_def[symmetric] s2(1)
      by (simp add: assms(2) s3(1) s4_def)
    moreover have "\<not> range_hit start stop (tb_extent (tbs s i) n)" if "i \<in> live C3" "on_page (tbs s i) n (pkey ?i)" for i n
    proof
      assume "range_hit start stop (tb_extent (tbs s i) n)"
      moreover have "tb_extent (tbs s2 i) n = tb_extent (tbs s i) n" using s2(3) by (simp add: same_bytes_def tb_extent_def Let_def)
      moreover have "(i, n) \<in> set (P (pkey ?i))" using that s3(3) list[of i n] by blast
      ultimately show False using that(1) s3(3) by force
    qed
    moreover have "live C3 \<subseteq> A" using s3(3) by blast
    ultimately show ?thesis using i4(1) sb unfolding cache_inv_def by blast
  qed
qed

lemma invalidate_inner_gone:
  assumes "cache_inv s A" "start div 256 = (stop - 1) div 256"
  shows "\<exists>s' A'. tb_invalidate_phys_page_range_inner start stop w s = Some s' \<and> range_gone s A {start..<stop} s' A'"
proof -
  obtain C J P where inv: "tb_inv s C J P" "live C = A" using assms(1) unfolding cache_inv_def by blast
  then have pm: "page_members s A P" by (auto simp: tb_inv_def link_inv_def)
  from invalidate_inner_hits[OF assms, of w] obtain s' A' where g: "tb_invalidate_phys_page_range_inner start stop w s = Some s'"
    "cache_inv s' A'" "A' \<subseteq> A" "same_bytes s s'"
    "\<And>i n. i \<in> A' \<Longrightarrow> on_page (tbs s i) n (pkey (drop_bit 8 start)) \<Longrightarrow> \<not> range_hit start stop (tb_extent (tbs s i) n)" by blast
  have "block_addrs (tbs s' i) \<inter> {start..<stop} = {}" if i: "i \<in> A'" for i
  proof (rule ccontr)
    assume "block_addrs (tbs s' i) \<inter> {start..<stop} \<noteq> {}"
    then obtain x where x: "x \<in> block_addrs (tbs s i)" "start \<le> x" "x < stop" using same_bytes_addrs[OF g(4)] by auto
    have "i \<in> live C" using i g(3) inv(2) by blast
    from byte_on_list[OF inv(1) this x assms(2)] obtain n where n: "(i, n) \<in> set (P (pkey (drop_bit 8 start)))"
      "range_hit start stop (tb_extent (tbs s i) n)" by blast
    have "on_page (tbs s i) n (pkey (drop_bit 8 start))" using n(1) pm unfolding page_members_def by (metis fst_conv snd_conv)
    then show False using g(5)[OF i] n(2) by blast
  qed
  then show ?thesis using g unfolding range_gone_def by blast
qed

section \<open>Ranges over several pages, and the fast path\<close>

lemma range_gone_trans: "range_gone s A R s' A' \<Longrightarrow> range_gone s' A' R' s'' A'' \<Longrightarrow> range_gone s A (R \<union> R') s'' A''"
proof -
  assume a: "range_gone s A R s' A'" "range_gone s' A' R' s'' A''"
  have "block_addrs (tbs s'' i) \<inter> (R \<union> R') = {}" if "i \<in> A''" for i
  proof -
    have "block_addrs (tbs s' i) \<inter> R = {}" "block_addrs (tbs s'' i) \<inter> R' = {}" using a that unfolding range_gone_def by blast+
    moreover have "block_addrs (tbs s'' i) = block_addrs (tbs s' i)" by (rule same_bytes_addrs) (use a(2) in \<open>simp add: range_gone_def\<close>)
    ultimately show ?thesis by blast
  qed
  moreover have "same_bytes s s''" by (rule same_bytes_trans[of s s']) (use a in \<open>simp_all add: range_gone_def\<close>)
  moreover have "A'' \<subseteq> A" using a unfolding range_gone_def by blast
  ultimately show ?thesis using a(2) by (simp add: range_gone_def)
qed

lemma range_gone_cong: "range_gone s A R s' A' \<Longrightarrow> R' \<subseteq> R \<Longrightarrow> range_gone s A R' s' A'"
  unfolding range_gone_def by blast

lemma one_page:
  fixes start l :: u64
  assumes "unat start mod 256 + unat l \<le> 256" "0 < unat l" "unat start + unat l < 2 ^ 64"
  shows "start div 256 = (start + l - 1) div 256" "unat (start + l) = unat start + unat l"
proof -
  show u: "unat (start + l) = unat start + unat l" using assms(3) by (simp add: unat_word_ariths)
  then have "start + l \<noteq> 0" using assms(2) by (metis add_gr_0 less_numeral_extra(3) unsigned_0)
  then have "unat (start + l - 1) = unat start + (unat l - 1)" using u assms(2) by (simp add: unat_minus_one)
  moreover define q r where "q = unat start div 256" "r = unat start mod 256"
  then have qr: "unat start = 256 * q + r" by simp
  ultimately have e: "unat (start + l - 1) = 256 * q + (r + (unat l - 1))" by simp
  have "r + (unat l - 1) < 256" using assms(1,2) unfolding \<open>r = unat start mod 256\<close> by linarith
  then have "unat (start + l - 1) div 256 = unat start div 256" unfolding e \<open>q = _\<close>[symmetric] by simp
  then show "start div 256 = (start + l - 1) div 256" by (simp add: word_unat_eq_iff unat_div)
qed

lemma invalidate_pages_loop_gone:
  assumes "cache_inv s A" "unat start mod 256 = 0 \<or> len = 0" "unat start + unat len < 2 ^ 64"
  shows "\<exists>s' A'. invalidate_pages_loop start len w s = Some s' \<and> range_gone s A {start..<start + len} s' A'"
  using assms
proof (induction "unat len" arbitrary: start len s A rule: less_induct)
  case less
  show ?case
  proof (cases "len = 0")
    case True
    then show ?thesis using less.prems(1)
      by (intro exI[of _ s] exI[of _ A]) (subst invalidate_pages_loop.simps, simp add: range_gone_def)
  next
    case False
    let ?l = "if 256 < len then 256 else len"
    have a: "unat start mod 256 = 0" using less.prems(2) False by simp
    have l: "unat ?l \<le> 256" "0 < unat ?l" "unat ?l \<le> unat len" using False by (auto simp: word_less_nat_alt word_le_nat_alt unat_gt_0)
    have o: "start div 256 = (start + ?l - 1) div 256" "unat (start + ?l) = unat start + unat ?l"
      using one_page[of start ?l] l a less.prems(3) by auto
    obtain s1 A1 where s1: "tb_invalidate_phys_page_range_inner start (start + ?l) w s = Some s1" "range_gone s A {start..<start + ?l} s1 A1"
      using invalidate_inner_gone[OF less.prems(1) o(1)] by blast
    have d: "unat (len - ?l) = unat len - unat ?l" using l(3) by (simp add: unat_sub word_le_nat_alt)
    have "\<exists>s' A'. invalidate_pages_loop (start + ?l) (len - ?l) w s1 = Some s' \<and> range_gone s1 A1 {start + ?l..<start + ?l + (len - ?l)} s' A'"
    proof (rule less.hyps)
      show "unat (len - ?l) < unat len" using d l by simp
      show "cache_inv s1 A1" using s1(2) by (simp add: range_gone_def)
      show "unat (start + ?l) mod 256 = 0 \<or> len - ?l = 0" using o(2) a by auto
      show "unat (start + ?l) + unat (len - ?l) < 2 ^ 64" using o(2) d l(3) less.prems(3) by simp
    qed
    then obtain s' A' where s': "invalidate_pages_loop (start + ?l) (len - ?l) w s1 = Some s'" "range_gone s1 A1 {start + ?l..<start + len} s' A'"
      by (auto simp: algebra_simps)
    have "invalidate_pages_loop start len w s = Some s'"
      using s1(1) s'(1) False by (subst invalidate_pages_loop.simps) (simp add: Let_def word_neq_0_conv)
    moreover have "{start..<start + len} \<subseteq> {start..<start + ?l} \<union> {start + ?l..<start + len}" by auto
    ultimately show ?thesis using range_gone_cong[OF range_gone_trans[OF s1(2) s'(2)]] by blast
  qed
qed

lemma invalidate_checked_gone:
  assumes "cache_inv s A" "start < stop"
  shows "\<exists>s' A'. tb_invalidate_phys_page_range_checked start stop w s = Some s' \<and> range_gone s A {start..<stop} s' A'"
proof -
  let ?len = "stop - start" and ?f = "256 - start mod 256"
  let ?l = "if ?len < ?f then ?len else ?f"
  have m: "unat (start mod 256) = unat start mod 256" by (simp add: unat_mod)
  have f: "unat ?f = 256 - unat start mod 256"
    using m by (simp add: unat_sub word_le_nat_alt less_imp_le)
  have len: "unat ?len = unat stop - unat start" "unat start < unat stop" using assms(2) by (simp_all add: unat_sub word_le_nat_alt word_less_nat_alt)
  have r: "unat start mod 256 < 256" by simp
  have l: "unat ?l = min (unat ?len) (unat ?f)" by (simp add: word_less_nat_alt min_def)
  have stop: "unat stop < 2 ^ 64" using unsigned_less[of stop] by simp
  have "unat ?l \<le> unat ?f" using l by simp
  then have b: "unat start mod 256 + unat ?l \<le> 256" "0 < unat ?l" "unat ?l \<le> unat ?len"
    using l f r len by (linarith, simp add: l f len, simp add: l)
  have o: "start div 256 = (start + ?l - 1) div 256" "unat (start + ?l) = unat start + unat ?l"
    using one_page[OF b(1,2)] b(3) len stop by auto
  obtain s1 A1 where s1: "tb_invalidate_phys_page_range_inner start (start + ?l) w s = Some s1" "range_gone s A {start..<start + ?l} s1 A1"
    using invalidate_inner_gone[OF assms(1) o(1)] by blast
  have d: "unat (?len - ?l) = unat ?len - unat ?l" using b(3) by (simp add: unat_sub word_le_nat_alt)
  have "\<exists>s' A'. invalidate_pages_loop (start + ?l) (?len - ?l) w s1 = Some s' \<and> range_gone s1 A1 {start + ?l..<start + ?l + (?len - ?l)} s' A'"
  proof (rule invalidate_pages_loop_gone)
    show "cache_inv s1 A1" using s1(2) by (simp add: range_gone_def)
    show "unat (start + ?l) mod 256 = 0 \<or> ?len - ?l = 0"
    proof (cases "?len < ?f")
      case False
      then have "unat ?l = 256 - unat start mod 256" using f by simp
      define q m where "q = unat start div 256" "m = unat start mod 256"
      then have "unat start = 256 * q + m" by simp
      then have "unat (start + ?l) = 256 * q + m + (256 - m)"
        unfolding o(2) \<open>unat ?l = 256 - unat start mod 256\<close> \<open>m = _\<close>[symmetric] by simp
      moreover have "m < 256" using r unfolding \<open>m = _\<close>[symmetric] .
      ultimately have "unat (start + ?l) = 256 * (q + 1)" by simp
      then show ?thesis unfolding \<open>unat (start + ?l) = 256 * (q + 1)\<close> by simp
    qed simp
    show "unat (start + ?l) + unat (?len - ?l) < 2 ^ 64" using o(2) d b(3) len stop by simp
  qed
  then obtain s' A' where s': "invalidate_pages_loop (start + ?l) (?len - ?l) w s1 = Some s'" "range_gone s1 A1 {start + ?l..<stop} s' A'"
    by (auto simp: algebra_simps)
  have "tb_invalidate_phys_page_range_checked start stop w s = Some s'"
    unfolding tb_invalidate_phys_page_range_checked_def Let_def s1(1) by (simp add: s'(1)[unfolded])
  moreover have "{start..<stop} \<subseteq> {start..<start + ?l} \<union> {start + ?l..<stop}" by auto
  ultimately show ?thesis using range_gone_cong[OF range_gone_trans[OF s1(2) s'(2)]] by blast
qed

text \<open>The bitmap lets only writes pass that touch no block.\<close>

lemma invalidate_fast_gone:
  assumes "cache_inv s A" "unat start mod 8 + len \<le> 8" "0 < len" "start < start + of_nat len"
  shows "\<exists>s' A'. tb_invalidate_phys_page_fast start len s = Some s' \<and> range_gone s A {start..<start + of_nat len} s' A'"
proof -
  let ?stop = "start + of_nat len" and ?o = "unat start mod 256"
  have u: "unat (of_nat len :: u64) = len" using assms(2) by (simp add: unat_of_nat)
  have st: "unat start < 2 ^ 64" using unsigned_less[of start] by simp
  have nw: "unat start + len < 2 ^ 64"
  proof (rule ccontr)
    assume n: "\<not> unat start + len < 2 ^ 64"
    have "unat ?stop = (unat start + len) mod 2 ^ 64" by (simp add: unat_word_ariths(1) u)
    also have "\<dots> = (unat start + len - 2 ^ 64) mod 2 ^ 64" by (rule le_mod_geq) (use n in simp)
    also have "\<dots> \<le> unat start + len - 2 ^ 64" by (rule mod_less_eq_dividend)
    finally have le: "unat ?stop \<le> unat start + len - 2 ^ 64" .
    define K :: nat where "K = 2 ^ 64"
    have "16 \<le> K" "len \<le> 8" "unat start < unat ?stop" using assms(2,4) by (simp_all add: K_def word_less_nat_alt)
    then show False using st n le unfolding K_def[symmetric] by linarith
  qed
  have o8: "?o mod 8 = unat start mod 8" by (simp add: mod_mod_cancel)
  have ob: "?o + len \<le> 256"
  proof -
    have "?o = 8 * (?o div 8) + ?o mod 8" "?o div 8 < 32" by (simp_all add: less_mult_imp_div_less)
    then show ?thesis using assms(2) o8 by linarith
  qed
  have pg: "start div 256 = (?stop - 1) div 256" "unat ?stop = unat start + len"
    using one_page[of start "of_nat len"] ob u assms(3) nw by auto
  have full: "\<exists>s' A'. tb_invalidate_phys_page_range start ?stop True s = Some s' \<and> range_gone s A {start..<?stop} s' A'"
    unfolding tb_invalidate_phys_page_range_def by (rule invalidate_checked_gone[OF assms(1,4)])
  show ?thesis
  proof (cases "page_find (drop_bit 8 start) s")
    case None
    then have "tb_invalidate_phys_page_range_inner start ?stop True s = Some s"
      using pg(1) by (simp add: tb_invalidate_phys_page_range_inner_def Let_def)
    then show ?thesis using invalidate_inner_gone[OF assms(1) pg(1), of True] None by (simp add: tb_invalidate_phys_page_fast_def)
  next
    case (Some p)
    show ?thesis
    proof (cases "code_bitmap p")
      case None
      then show ?thesis using full Some by (simp add: tb_invalidate_phys_page_fast_def)
    next
      case (Some bm)
      have "start AND 0xFF = take_bit 8 start" by (simp add: take_bit_eq_mask mask_eq_exp_minus_1)
      then have o: "unat (start AND 0xFF) = ?o" by (simp only: unat_take_bit) simp
      let ?b = "drop_bit (?o mod 8) (ucast (bm ! (?o div 8)) :: u32)"
      show ?thesis
      proof (cases "?b AND (push_bit len 1 - 1) = 0")
        case False
        then show ?thesis using full \<open>page_find _ s = Some p\<close> Some o by (simp add: tb_invalidate_phys_page_fast_def Let_def)
      next
        case True
        obtain C J P where inv: "tb_inv s C J P" "live C = A" using assms(1) unfolding cache_inv_def by blast
        then have "pages_wf s P" by (simp add: tb_inv_def link_inv_def)
        moreover have "pbits s (pkey (drop_bit 8 start)) = Some bm" using Some \<open>page_find _ s = Some p\<close> by (simp add: pbits_def page_find_desc)
        ultimately have ex: "bitmap_exact s (P (pkey (drop_bit 8 start))) bm" by (rule pages_wfD(4))
        have clear: "\<not> bitmap_bit bm (?o + k)" if "k < len" for k
        proof -
          have "bit (push_bit len 1 - 1 :: u32) k" using that assms(2) by (simp flip: mask_eq_exp_minus_1 add: push_bit_eq_mult bit_mask_iff)
          then have "\<not> bit ?b k" using True by (metis bit_and_iff bit_0_eq bot_apply bot_bool_def)
          moreover have "?o mod 8 + k < 8" using assms(2) o8 that by linarith
          moreover define d m where "d = ?o div 8" "m = ?o mod 8"
          then have "?o + k = 8 * d + (m + k)" by simp
          moreover have "m + k < 8" using \<open>?o mod 8 + k < 8\<close> \<open>m = _\<close> by simp
          then have "(8 * d + (m + k)) div 8 = d" "(8 * d + (m + k)) mod 8 = m + k" by (simp_all only: div_mult_self4 mod_mult_self4, simp_all)
          ultimately have "(?o + k) div 8 = ?o div 8" "(?o + k) mod 8 = ?o mod 8 + k" "\<not> bit ?b k"
            unfolding \<open>d = _\<close>[symmetric] \<open>m = _\<close>[symmetric] by (simp_all only: not_False_eq_True)
          then show ?thesis using \<open>?o mod 8 + k < 8\<close> by (simp add: bitmap_bit_def bit_drop_bit_eq bit_unsigned_iff)
        qed
        have "block_addrs (tbs s i) \<inter> {start..<?stop} = {}" if "i \<in> A" for i
        proof (rule ccontr)
          assume "block_addrs (tbs s i) \<inter> {start..<?stop} \<noteq> {}"
          then obtain x where x: "x \<in> block_addrs (tbs s i)" "start \<le> x" "x < ?stop" by auto
          have "i \<in> live C" using that inv(2) by blast
          from byte_on_list[OF inv(1) this x pg(1)] obtain n where n: "(i, n) \<in> set (P (pkey (drop_bit 8 start)))"
            "unat x mod 256 \<in> page_bytes (tbs s i) n" "unat start div 256 = unat x div 256" by blast
          have "unat x < unat start + len" "unat start \<le> unat x" using x pg(2) by (simp_all add: word_less_nat_alt word_le_nat_alt)
          then obtain k where k: "unat x = unat start + k" "k < len" by (metis add_less_cancel_left le_Suc_ex)
          have "unat x mod 256 = ?o + k" using k n(3) mult_div_mod_eq[of 256 "unat x"] mult_div_mod_eq[of 256 "unat start"] by linarith
          then have "?o + k \<in> page_bytes (tbs s (fst (i, n))) (snd (i, n))" "?o + k < 256" using n(2) k(2) ob by simp_all
          then have "bitmap_bit bm (?o + k)" using ex n(1) unfolding bitmap_exact_def by blast
          then show False using clear[OF k(2)] by simp
        qed
        then have "range_gone s A {start..<?stop} s A" using assms(1) by (simp add: range_gone_def)
        then show ?thesis using True \<open>page_find _ s = Some p\<close> Some o by (intro exI[of _ s] exI[of _ A]) (simp add: tb_invalidate_phys_page_fast_def Let_def)
      qed
    qed
  qed
qed

end
