(* ===== verification/TB_Dirty.thy ===== *)
theory TB_Dirty
  imports TB_Smc
begin

text \<open>Stores of the guest to translated code (\<^verbatim>\<open>helper_mark_tbs_as_dirty\<close> of \<^verbatim>\<open>src/exec.c\<close>): the soft
  MMU ends every store by marking the blocks of the written bytes; the header of a marked block drops it before
  it runs again. Marking finds every block in use that has one of the bytes, as long as the pages of a block follow
  each other; the pages are those of a single core, so the list of dirty addresses for the others is left out.\<close>

section \<open>Marking\<close>

text \<open>The loop over the blocks of the page, which hits a block whatever page of it is on the list. \<^verbatim>\<open>phys_pc\<close> is a
  guest word (\<^verbatim>\<open>target_ulong\<close>): its end wraps at 32 bits, and both are compared with 64-bit bounds.\<close>

partial_function (option) mark_dirty_loop :: "u32 \<Rightarrow> u32 \<Rightarrow> (nat \<times> nat) option \<Rightarrow> tb_state \<Rightarrow> tb_state option" where
  "mark_dirty_loop phys_pc access_width p s =
     (case p of
        None \<Rightarrow> Some s
      | Some (tb, n) \<Rightarrow>
          let b = tbs s tb;
              tb_next = blk_page_next b n;
              tb_start = blk_page_addr b 0 + ucast (blk_pc b AND NOT TARGET_PAGE_MASK32);
              tb_end = tb_start + ucast (blk_size b)
          in mark_dirty_loop phys_pc access_width tb_next
               (if tb_start \<le> ucast phys_pc \<and> ucast phys_pc < tb_end \<or> ucast phys_pc \<le> tb_start \<and> tb_start < ucast (phys_pc + access_width)
                then upd_tb tb (\<lambda>b. b\<lparr>blk_dirty_flag := True\<rparr>) s else s))"

text \<open>\<^verbatim>\<open>code_tlb\<close> is \<^verbatim>\<open>get_page_addr_code\<close> without filling the TLB, \<^verbatim>\<open>phys_debug\<close> is
  \<^verbatim>\<open>cpu_get_phys_page_debug\<close>; both may give -1. \<^verbatim>\<open>cur\<close> is the block that runs.\<close>

definition page_of :: "u64 \<Rightarrow> tb_state \<Rightarrow> PageDesc option" where
  "page_of phys_page s = (if phys_page = - 1 then None else page_find (drop_bit 8 phys_page) s)"

definition helper_mark_tbs_as_dirty :: "bool \<Rightarrow> TranslationBlock option \<Rightarrow> (u32 \<Rightarrow> u64) \<Rightarrow> (u32 \<Rightarrow> u64) \<Rightarrow> u32 \<Rightarrow> u32 \<Rightarrow> tb_state \<Rightarrow> tb_state option" where
  "helper_mark_tbs_as_dirty cache_disabled cur code_tlb phys_debug pc access_width s =
     (if cache_disabled then Some s
      else let mark = (\<lambda>phys_page p. mark_dirty_loop (ucast (phys_page OR ucast (pc AND NOT TARGET_PAGE_MASK32))) access_width (first_tb p) s)
        in case page_of (code_tlb pc) s of
             Some p \<Rightarrow> mark (code_tlb pc) p
           | None \<Rightarrow>
               if (case cur of None \<Rightarrow> False | Some b \<Rightarrow> pc < blk_pc b \<and> blk_pc b + ucast (blk_size b) \<le> pc) then Some s
               else (case page_of (phys_debug pc) s of
                   None \<Rightarrow> Some s
                 | Some p \<Rightarrow> mark (phys_debug pc) p))"

section \<open>What marking does\<close>

definition mark_dirty :: "nat set \<Rightarrow> tb_state \<Rightarrow> tb_state" where
  "mark_dirty M s = s\<lparr>tbs := \<lambda>i. if i \<in> M then (tbs s i)\<lparr>blk_dirty_flag := True\<rparr> else tbs s i\<rparr>"

definition write_hits :: "u32 \<Rightarrow> u32 \<Rightarrow> TranslationBlock \<Rightarrow> bool" where
  "write_hits a w b \<longleftrightarrow>
     (let tb_start = blk_page_addr b 0 + ucast (blk_pc b AND NOT TARGET_PAGE_MASK32); tb_end = tb_start + ucast (blk_size b)
      in tb_start \<le> ucast a \<and> ucast a < tb_end \<or> ucast a \<le> tb_start \<and> tb_start < ucast (a + w))"

lemma mark_dirty_fields [simp]: "nb_tbs (mark_dirty M s) = nb_tbs s" "l1_map (mark_dirty M s) = l1_map s"
  "tb_phys_hash (mark_dirty M s) = tb_phys_hash s" "tb_jmp_cache (mark_dirty M s) = tb_jmp_cache s"
  "tb_flush_count (mark_dirty M s) = tb_flush_count s" "tb_invalidated_flag (mark_dirty M s) = tb_invalidated_flag s"
  "lview (tbs (mark_dirty M s) i) = lview (tbs s i)" "hview (tbs (mark_dirty M s) i) = hview (tbs s i)"
  "blk_dirty_flag (tbs (mark_dirty M s) i) \<longleftrightarrow> blk_dirty_flag (tbs s i) \<or> i \<in> M"
  "blk_pc (tbs (mark_dirty M s) i) = blk_pc (tbs s i)" "blk_size (tbs (mark_dirty M s) i) = blk_size (tbs s i)"
  "blk_flags (tbs (mark_dirty M s) i) = blk_flags (tbs s i)" "blk_page_addr (tbs (mark_dirty M s) i) = blk_page_addr (tbs s i)"
  by (simp_all add: mark_dirty_def lview_def hview_def)

lemma mark_dirty_inv:
  assumes "cache_inv s A"
  shows "cache_inv (mark_dirty M s) A"
proof -
  obtain C J P where inv: "cache_wf s C" "link_inv s (live C) J P" "live C = A" using assms unfolding cache_inv_def tb_inv_def by blast
  have "link_inv (mark_dirty M s) (live C) J P" by (rule link_inv_same[OF inv(2)]) (simp add: same_links_def)
  moreover have "cache_wf (mark_dirty M s) C"
    using inv(1) unfolding cache_wf_def by (simp add: hash_wf_frame[of s])
  ultimately show ?thesis using inv(3) unfolding cache_inv_def tb_inv_def by blast
qed

lemma mark_dirty_empty [simp]: "mark_dirty {} s = s"
  by (simp add: mark_dirty_def)

lemma mark_dirty_loop_spec:
  "chain (pnext s) p cs \<Longrightarrow> mark_dirty_loop a w p s = Some (mark_dirty {i \<in> fst ` set cs. write_hits a w (tbs s i)} s)"
proof (induction cs arbitrary: p s)
  case Nil
  then show ?case by (subst mark_dirty_loop.simps) simp
next
  case (Cons c cs)
  let ?s = "if write_hits a w (tbs s (fst c)) then upd_tb (fst c) (\<lambda>b. b\<lparr>blk_dirty_flag := True\<rparr>) s else s"
  let ?M = "{i \<in> fst ` set cs. write_hits a w (tbs s i)}"
  have "pnext ?s = pnext s" by (auto simp: fun_eq_iff pnext_def upd_tb_def)
  moreover have c: "p = Some c" "chain (pnext s) (pnext s c) cs" using Cons.prems by simp_all
  ultimately have "mark_dirty_loop a w (pnext s c) ?s = Some (mark_dirty {i \<in> fst ` set cs. write_hits a w (tbs ?s i)} ?s)"
    using Cons.IH[of ?s] by simp
  moreover have "write_hits a w (tbs ?s i) = write_hits a w (tbs s i)" for i by (simp add: upd_tb_def write_hits_def)
  moreover have "mark_dirty ?M ?s = mark_dirty {i \<in> fst ` set (c # cs). write_hits a w (tbs s i)} s"
    by (auto simp: mark_dirty_def upd_tb_def fun_eq_iff)
  moreover have "mark_dirty_loop a w p s = mark_dirty_loop a w (pnext s c) ?s"
    using c(1) by (subst mark_dirty_loop.simps) (simp add: case_prod_beta Let_def pnext_def write_hits_def)
  ultimately show ?case by simp
qed

text \<open>Whatever the page found, a store only sets flags.\<close>

lemma helper_mark_marks:
  assumes "cache_inv s A"
  shows "\<exists>M. helper_mark_tbs_as_dirty dis cur code_tlb phys_debug pc w s = Some (mark_dirty M s)"
proof -
  obtain P where pw: "pages_wf s P" using assms unfolding cache_inv_def tb_inv_def link_inv_def by blast
  have loop: "\<exists>M. mark_dirty_loop a w (first_tb p) s = Some (mark_dirty M s)" if H: "page_of x s = Some p" for x p a
  proof -
    have "page_desc s (pkey (drop_bit 8 x)) = Some p" using H by (simp add: page_of_def page_find_desc split: if_splits)
    then have "chain (pnext s) (first_tb p) (P (pkey (drop_bit 8 x)))" using pages_wfD(1)[OF pw, of "pkey (drop_bit 8 x)"] by (simp add: pfirst_def)
    from mark_dirty_loop_spec[OF this] show ?thesis by blast
  qed
  have "\<exists>M. Some s = Some (mark_dirty M s)" by (rule exI[of _ "{}"]) simp
  then show ?thesis using loop by (auto simp: helper_mark_tbs_as_dirty_def Let_def split: option.split)
qed

section \<open>Every block of the written bytes is marked\<close>

definition straight :: "TranslationBlock \<Rightarrow> bool" where
  "straight b \<longleftrightarrow> blk_page_addr b 1 = - 1 \<or> blk_page_addr b 1 = blk_page_addr b 0 + 256"

lemma straight_addr:
  assumes "block_ok b" "straight b" "x \<in> block_addrs b"
  defines "t \<equiv> blk_page_addr b 0 + ucast (blk_pc b AND NOT TARGET_PAGE_MASK32)"
  shows "unat t \<le> unat x" "unat x < unat t + unat (blk_size b)" "unat t + unat (blk_size b) < 2 ^ 64"
proof -
  let ?a = "blk_page_addr b 0" and ?o = "unat (blk_pc b) mod 256" and ?s = "unat (blk_size b)"
  have al: "?a AND mask 8 = 0" "?a \<noteq> - 256" and s: "?s \<le> 256" using assms(1) by (simp_all add: block_ok_def)
  note room = aligned_room(3)[OF al]
  have uo: "ucast (blk_pc b AND NOT TARGET_PAGE_MASK32) = (of_nat ?o :: u64)" by (metis of_nat_unat page_off_eq)
  have t: "unat t = unat ?a + ?o" using byte_addr(1)[OF al(1), of ?o] by (simp add: t_def uo)
  then show "unat t + ?s < 2 ^ 64" using room s by (simp add: order_le_less_trans[of _ "unat ?a + 511"])
  consider (fst) j where "j \<in> page_bytes b 0" "x = ?a + of_nat j"
    | (snd) j where "blk_page_addr b 1 \<noteq> - 1" "j \<in> page_bytes b 1" "x = blk_page_addr b 1 + of_nat j"
    using assms(3) by (auto simp: block_addrs_def split: if_splits)
  then have "unat t \<le> unat x \<and> unat x < unat t + ?s"
  proof cases
    case fst
    then have "?o \<le> j" "j < ?o + ?s" "j < 256" by (auto simp: page_bytes_def page_off_eq)
    then show ?thesis using byte_addr(1)[OF al(1), of j] t fst(2) by simp
  next
    case snd
    have c: "256 < ?o + ?s" "blk_page_addr b 1 AND mask 8 = 0" using assms(1) snd(1) by (auto simp: block_ok_def split: if_splits)
    have "unat (blk_pc b + ucast (blk_size b)) mod 256 = (unat (blk_pc b) + ?s) mod 256"
      using mod_mod_cancel[of 256 "2 ^ 32" "unat (blk_pc b) + ?s"] s
      by (simp add: unat_word_ariths(1) unsigned_ucast_eq take_bit_nat_eq_self)
    then have "unat ((blk_pc b + ucast (blk_size b)) AND NOT TARGET_PAGE_MASK32) = (?o + ?s) mod 256"
      by (simp add: page_off_eq mod_add_left_eq)
    then have j: "j < (?o + ?s) mod 256" using snd(2) by (simp add: page_bytes_def)
    moreover have "(?o + ?s) mod 256 = ?o + ?s - 256"
      using c(1) s pos_mod_bound[of 256 "int (unat (blk_pc b))"] by (simp add: le_mod_geq)
    ultimately have j: "256 + j < ?o + ?s" "j < 256" using c(1) by (auto intro: less_trans[OF _ mod_less_divisor])
    have "unat (blk_page_addr b 1) = unat ?a + 256"
      using assms(2) snd(1) room by (simp add: straight_def unat_word_ariths(1))
    then have "unat x = unat ?a + 256 + j" using byte_addr(1)[OF c(2) j(2)] snd(3) by simp
    then show ?thesis using t j(1) by simp
  qed
  then show "unat t \<le> unat x" "unat x < unat t + ?s" by blast+
qed

text \<open>Where the TLB or the debug translation know the page of a byte, and the page is one that a guest word can name.\<close>

definition sees_page :: "(u32 \<Rightarrow> u64) \<Rightarrow> (u32 \<Rightarrow> u64) \<Rightarrow> (u32 \<Rightarrow> u64) \<Rightarrow> u32 \<Rightarrow> bool" where
  "sees_page pg code_tlb phys_debug pc \<longleftrightarrow> (code_tlb pc = pg pc \<or> code_tlb pc = - 1) \<and>
     phys_debug pc = pg pc + ucast (pc AND NOT TARGET_PAGE_MASK32) \<and> unat (pg pc) + 256 < 2 ^ 32"

lemma mark_page:
  assumes "tb_inv s C J P" "page_aligned pg" "pages_apart pg" "sees_page pg code_tlb phys_debug pc"
    "case cur of None \<Rightarrow> True | Some b \<Rightarrow> unat (blk_pc b) + unat (blk_size b) < 2 ^ 32"
  defines "a \<equiv> pg pc + ucast (pc AND NOT TARGET_PAGE_MASK32)" and "k \<equiv> pkey (drop_bit 8 (pg pc))"
  shows "helper_mark_tbs_as_dirty False cur code_tlb phys_debug pc w s = Some (mark_dirty {i \<in> fst ` set (P k). write_hits (ucast a) w (tbs s i)} s)"
    "unat a = unat (pg pc) + unat pc mod 256" "drop_bit 8 a = drop_bit 8 (pg pc)" "unat a mod 256 = unat pc mod 256" "unat (pg pc) + 512 \<le> 2 ^ 64"
proof -
  let ?o = "unat pc mod 256" and ?mark = "helper_mark_tbs_as_dirty False cur code_tlb phys_debug pc w s"
  have pw: "pages_wf s P" using assms(1) by (simp add: tb_inv_def link_inv_def)
  have al: "pg pc AND mask 8 = 0" "pg pc \<noteq> - 256" using assms(2,3) by (simp_all add: page_aligned_def pages_apart_def)
  show room: "unat (pg pc) + 512 \<le> 2 ^ 64" by (rule aligned_room(3)[OF al])
  have uo: "ucast (pc AND NOT TARGET_PAGE_MASK32) = (of_nat ?o :: u64)" by (metis of_nat_unat page_off_eq)
  show a: "unat a = unat (pg pc) + ?o" "drop_bit 8 a = drop_bit 8 (pg pc)" "unat a mod 256 = ?o"
    using byte_addr[OF al(1), of ?o] by (simp_all add: a_def uo)
  have "unat (- 1 :: u64) = 2 ^ 64 - 1" by (simp add: unsigned_minus_1_eq_mask mask_eq_exp_minus_1)
  moreover have "unat a < 2 ^ 64 - 1" using a(1) room pos_mod_bound[of 256 "int (unat pc)"] by simp
  ultimately have "a \<noteq> - 1" by auto
  have aor: "pg pc OR ucast (pc AND NOT TARGET_PAGE_MASK32) = a" "a OR ucast (pc AND NOT TARGET_PAGE_MASK32) = a"
    using aligned_disjoint[OF al(1), of pc] by (simp_all add: a_def or.assoc)
  have pa: "page_of (pg pc) s = page_desc s k" "page_of a s = page_desc s k"
    using \<open>a \<noteq> - 1\<close> aligned_ne[OF al(1)] a(2) by (simp_all add: page_of_def page_find_desc k_def)
  have pm1: "page_of (- 1) s = None" by (simp add: page_of_def)
  have ncur: "\<not> (case cur of None \<Rightarrow> False | Some b \<Rightarrow> pc < blk_pc b \<and> blk_pc b + ucast (blk_size b) \<le> pc)"
    using assms(5) by (cases cur) (auto simp: word_less_nat_alt word_le_nat_alt unat_word_ariths(1) unsigned_ucast_eq take_bit_nat_eq_self)
  have see: "code_tlb pc = pg pc \<or> code_tlb pc = - 1" "phys_debug pc = a" using assms(4) by (simp_all add: sees_page_def a_def)
  have run: "?mark = (case page_desc s k of None \<Rightarrow> Some s | Some p \<Rightarrow> mark_dirty_loop (ucast a) w (first_tb p) s)"
    using see ncur by (auto simp: helper_mark_tbs_as_dirty_def Let_def pa pm1 aor split: option.split)
  show "?mark = Some (mark_dirty {i \<in> fst ` set (P k). write_hits (ucast a) w (tbs s i)} s)"
  proof (cases "page_desc s k")
    case None
    then have "P k = []" using pages_wfD(1)[OF pw, of k] by (cases "P k") (simp_all add: pfirst_def)
    then show ?thesis using run None by simp
  next
    case (Some p)
    then have "chain (pnext s) (first_tb p) (P k)" using pages_wfD(1)[OF pw, of k] by (simp add: pfirst_def)
    then show ?thesis using run Some mark_dirty_loop_spec by simp
  qed
qed

text \<open>Only blocks on the page of the first byte are marked, however wide the store is: one that crosses a page
  boundary leaves the blocks of the second page alone.\<close>

lemma mark_first_page_only:
  assumes "cache_inv s A" "page_aligned pg" "pages_apart pg" "sees_page pg code_tlb phys_debug pc"
    "case cur of None \<Rightarrow> True | Some b \<Rightarrow> unat (blk_pc b) + unat (blk_size b) < 2 ^ 32"
    "\<forall>n. \<not> on_page (tbs s i) n (pkey (drop_bit 8 (pg pc)))"
  shows "\<exists>t. helper_mark_tbs_as_dirty False cur code_tlb phys_debug pc w s = Some t \<and> blk_dirty_flag (tbs t i) = blk_dirty_flag (tbs s i)"
proof -
  obtain C J P where inv: "tb_inv s C J P" using assms(1) unfolding cache_inv_def by blast
  have "page_members s (live C) P" using inv by (simp add: tb_inv_def link_inv_def)
  then have "i \<notin> fst ` set (P (pkey (drop_bit 8 (pg pc))))" using assms(6) by (auto simp: page_members_def)
  then show ?thesis using mark_page(1)[OF inv assms(2-5), of w] by simp
qed

lemma mark_covers:
  assumes "cache_inv s A" "page_aligned pg" "pages_apart pg" "sees_page pg code_tlb phys_debug pc"
    "unat pc mod 256 + unat w \<le> 256" "0 < w" "case cur of None \<Rightarrow> True | Some b \<Rightarrow> unat (blk_pc b) + unat (blk_size b) < 2 ^ 32"
  defines "a \<equiv> pg pc + ucast (pc AND NOT TARGET_PAGE_MASK32)"
  shows "\<exists>M. helper_mark_tbs_as_dirty False cur code_tlb phys_debug pc w s = Some (mark_dirty M s) \<and> cache_inv (mark_dirty M s) A \<and>
    (\<forall>i\<in>A. straight (tbs s i) \<longrightarrow> block_addrs (tbs s i) \<inter> {a..<a + ucast w} \<noteq> {} \<longrightarrow> i \<in> M)"
proof -
  let ?k = "pkey (drop_bit 8 (pg pc))"
  obtain C J P where inv: "tb_inv s C J P" "live C = A" using assms(1) unfolding cache_inv_def by blast
  then have ok: "\<And>i. i \<in> A \<Longrightarrow> block_ok (tbs s i)" by (auto simp: tb_inv_def link_inv_def)
  note m = mark_page[OF inv(1) assms(2-4,7), folded a_def]
  let ?M = "{i \<in> fst ` set (P ?k). write_hits (ucast a) w (tbs s i)}"
  have "i \<in> ?M" if i: "i \<in> A" "straight (tbs s i)" "block_addrs (tbs s i) \<inter> {a..<a + ucast w} \<noteq> {}" for i
  proof -
    obtain x where x: "x \<in> block_addrs (tbs s i)" "a \<le> x" "x < a + ucast w" using i(3) by auto
    have w: "unat (ucast w :: u64) = unat w" "0 < unat w"
      using assms(5,6) by (simp_all add: unsigned_ucast_eq take_bit_nat_eq_self unat_gt_0)
    have b: "unat a + unat w < 2 ^ 64" using m(2,5) assms(5) by simp
    have low: "unat (pg pc) + 256 < 2 ^ 32" using assms(4) by (simp add: sees_page_def)
    then have lo: "unat a + unat w < 2 ^ 32" using m(2) assms(5) by simp
    then have au: "unat (ucast a :: u32) = unat a" "ucast (ucast a :: u32) = a"
      by (simp_all add: word_unat_eq_iff unsigned_ucast_eq take_bit_nat_eq_self)
    have ue: "unat (ucast (ucast a + w :: u32) :: u64) = unat a + unat w"
      using lo by (simp add: unsigned_ucast_eq unat_word_ariths(1) au(1) take_bit_nat_eq_self)
    from one_page[of a "ucast w"] have pg: "a div 256 = (a + ucast w - 1) div 256" and ub: "unat (a + ucast w) = unat a + unat w"
      using m(4) assms(5) w b by simp_all
    have "i \<in> live C" using i(1) inv(2) by simp
    from byte_on_list[OF inv(1) this x pg] m(3) have "i \<in> fst ` set (P ?k)" by force
    moreover have "write_hits (ucast a) w (tbs s i)"
      unfolding write_hits_def Let_def word_le_nat_alt word_less_nat_alt au ue
      using straight_addr[OF ok[OF i(1)] i(2) x(1)] x(2,3)[unfolded word_le_nat_alt word_less_nat_alt ub]
      by (auto simp: unat_word_ariths(1)[where ?'a = 64] unsigned_ucast_eq take_bit_nat_eq_self w(1))
    ultimately show ?thesis by blast
  qed
  then show ?thesis using m(1) mark_dirty_inv[OF assms(1)] by blast
qed

end
