(* ===== verification/CPU_Exec.thy ===== *)
theory CPU_Exec
  imports TB_Dirty
begin

text \<open>The execution loop (\<^verbatim>\<open>cpu_exec\<close> of \<^verbatim>\<open>src/cpu-exec.c\<close>): interrupts and exit requests between blocks, lookup
  and chaining of blocks, and the way exceptions end the loop. The code of a block, the translator and the address
  translation are parameters; a \<^verbatim>\<open>longjmp\<close> is a result. Hooks that only report, the locks of atomic
  accesses (single core) and the list of dirty addresses are left out.\<close>

section \<open>State\<close>

record exec_state =
  ex_mach :: machine
  ex_tb :: tb_state
  ex_count :: insn_counters
  instructions_count_limit :: u32
  tb_restart_request :: bool
  mmu_fault :: bool
  return_on_exception :: bool
  chaining_disabled :: bool
  block_finished_hook_present :: bool
  tb_cache_disabled :: bool
  current_tb :: "nat option"

abbreviation ex_cpu :: "exec_state \<Rightarrow> CPUState" where
  "ex_cpu s \<equiv> cpu (ex_mach s)"

definition upd_cpu :: "(CPUState \<Rightarrow> CPUState) \<Rightarrow> exec_state \<Rightarrow> exec_state" where
  "upd_cpu f s = s\<lparr>ex_mach := (ex_mach s)\<lparr>cpu := f (ex_cpu s)\<rparr>\<rparr>"

text \<open>What running a block gives: it returns the branch that was taken last, or none, or it leaves by \<^verbatim>\<open>longjmp\<close>.\<close>

datatype tb_outcome = Tb_exit "(nat \<times> nat) option" exec_state | Tb_longjmp exec_state

record exec_env =
  ee_host :: host_memory
  ee_page :: "u32 \<Rightarrow> u64"
  ee_translate :: "machine \<Rightarrow> u32 \<Rightarrow> u64 \<Rightarrow> translated"
  ee_run :: "nat \<Rightarrow> exec_state \<Rightarrow> tb_outcome"

definition EXCP_INTERRUPT :: u32 where "EXCP_INTERRUPT = 0x10000"
definition EXCP_WFI :: u32 where "EXCP_WFI = 0x10001"
definition EXCP_DEBUG :: u32 where "EXCP_DEBUG = 0x10002"
definition MMU_EXTERNAL_FAULT :: u32 where "MMU_EXTERNAL_FAULT = 0x10006"
definition CPU_INTERRUPT_EXITTB :: u32 where "CPU_INTERRUPT_EXITTB = 4"
definition CPU_INTERRUPT_DEBUG :: u32 where "CPU_INTERRUPT_DEBUG = 0x80"

definition cpu_sync_instructions_count :: "insn_counters \<Rightarrow> insn_counters" where
  "cpu_sync_instructions_count c =
     c\<lparr>instructions_count_value := instructions_count_value c + instructions_count_declaration c,
       instructions_count_total_value := instructions_count_total_value c + ucast (instructions_count_declaration c),
       instructions_count_declaration := 0\<rparr>"

section \<open>One turn of the inner loop\<close>

text \<open>An abort without an error is that of the lookup, whose code buffer cannot be had.\<close>

datatype loop_step =
    Step_abort "tlib_error option"
  | Step_exit exec_state
  | Step_next "(nat \<times> nat) option" exec_state

definition bind_step :: "loop_step \<Rightarrow> ((nat \<times> nat) option \<Rightarrow> exec_state \<Rightarrow> loop_step) \<Rightarrow> loop_step" where
  "bind_step r f = (case r of Step_abort e \<Rightarrow> Step_abort e | Step_exit s \<Rightarrow> Step_exit s | Step_next n s \<Rightarrow> f n s)"

definition set_exception :: "u32 \<Rightarrow> exec_state \<Rightarrow> exec_state" where
  "set_exception x = upd_cpu (\<lambda>env. env\<lparr>env_exception_index := x\<rparr>)"

text \<open>\<^verbatim>\<open>cpu_loop_exit_without_hook\<close>.\<close>

definition cpu_loop_exit :: "exec_state \<Rightarrow> loop_step" where
  "cpu_loop_exit s = Step_exit (s\<lparr>current_tb := None\<rparr>)"

definition handle_requests :: "(nat \<times> nat) option \<Rightarrow> exec_state \<Rightarrow> loop_step" where
  "handle_requests next_tb s =
     (let interrupt_request = env_interrupt_request (ex_cpu s)
      in if interrupt_request = 0 then Step_next next_tb s
         else if is_interrupt_pending (ex_cpu s) CPU_INTERRUPT_DEBUG
         then cpu_loop_exit (set_exception EXCP_DEBUG (upd_cpu (\<lambda>env. clear_interrupt_pending env CPU_INTERRUPT_DEBUG) s))
         else (case process_interrupt interrupt_request (ex_mach s) of
             Inl e \<Rightarrow> Step_abort (Some e)
           | Inr (taken, m) \<Rightarrow>
               let s1 = s\<lparr>ex_mach := m\<rparr>;
                   next1 = (if taken \<noteq> 0 then None else next_tb)
               in if env_exception_index (ex_cpu s1) = EXCP_DEBUG \<or> env_exception_index (ex_cpu s1) = EXCP_WFI then cpu_loop_exit s1
                  else let s2 = set_exception (- 1) s1
                       in if is_interrupt_pending (ex_cpu s2) CPU_INTERRUPT_EXITTB
                          then Step_next None (upd_cpu (\<lambda>env. clear_interrupt_pending env CPU_INTERRUPT_EXITTB) s2)
                          else Step_next next1 s2))"

definition check_exit :: "(nat \<times> nat) option \<Rightarrow> exec_state \<Rightarrow> loop_step" where
  "check_exit next_tb s =
     (if mmu_fault s then cpu_loop_exit (set_exception MMU_EXTERNAL_FAULT s)
      else if env_exception_index (ex_cpu s) \<noteq> - 1 then cpu_loop_exit s
      else let s1 = (if instructions_count_value (ex_count s) = instructions_count_limit s
                     then upd_cpu (\<lambda>env. env\<lparr>env_exit_request := 1\<rparr>) s else s)
           in if env_exit_request (ex_cpu s1) \<noteq> 0 then cpu_loop_exit (set_exception EXCP_INTERRUPT s1)
              else if tb_restart_request s1 then cpu_loop_exit (s1\<lparr>tb_restart_request := False\<rparr>)
              else Step_next next_tb s1)"

definition find_and_chain :: "exec_env \<Rightarrow> (nat \<times> nat) option \<Rightarrow> exec_state \<Rightarrow> (nat \<times> (nat \<times> nat) option \<times> exec_state) option" where
  "find_and_chain E next_tb s =
     (case cpu_get_tb_cpu_state (ex_cpu s) of (pc, cs_base, flags) \<Rightarrow> do {
        (tb, t) \<leftarrow> tb_find_fast (ee_host E) (ee_page E) (ee_translate E (ex_mach s)) (tb_cache_disabled s)
                     (instructions_count_limit s - instructions_count_value (ex_count s)) pc cs_base (scast flags) (ex_tb s);
        let next1 = (if tb_invalidated_flag t then None else next_tb);
            t1 = t\<lparr>tb_invalidated_flag := False\<rparr>;
            t2 = (if \<not> chaining_disabled s \<and> \<not> block_finished_hook_present s \<and> next1 \<noteq> None \<and> blk_page_addr (tbs t1 tb) 1 = - 1
                  then tb_add_jump (fst (the next1)) (snd (the next1)) tb t1 else t1)
        in Some (tb, next1, s\<lparr>ex_tb := t2\<rparr>) })"

definition run_block :: "exec_env \<Rightarrow> nat \<Rightarrow> (nat \<times> nat) option \<Rightarrow> exec_state \<Rightarrow> loop_step" where
  "run_block E tb next_tb s =
     (let s1 = s\<lparr>current_tb := Some tb\<rparr>
      in if env_exit_request (ex_cpu s1) = 0
         then (case ee_run E tb s1 of
             Tb_longjmp s2 \<Rightarrow> Step_exit s2
           | Tb_exit next2 s2 \<Rightarrow>
               (case next2 of
                  Some (tb', n) \<Rightarrow>
                    if n = EXIT_TB_FORCE
                    then cpu_loop_exit (set_exception EXCP_INTERRUPT (upd_cpu (\<lambda>env. cpu_pc_from_tb env (blk_pc (tbs (ex_tb s2) tb'))) s2))
                    else Step_next next2 (s2\<lparr>current_tb := None\<rparr>)
                | None \<Rightarrow> Step_next None (s2\<lparr>current_tb := None\<rparr>)))
         else Step_next next_tb (s1\<lparr>current_tb := None\<rparr>))"

text \<open>The header of every block (\<^verbatim>\<open>prepare_block_for_execution\<close> of \<^verbatim>\<open>src/helper.c\<close>): anything but 0
  leaves the block before its first instruction. None is a broken list while a block is invalidated.\<close>

definition prepare_block_for_execution :: "nat \<Rightarrow> exec_state \<Rightarrow> (u32 \<times> exec_state) option" where
  "prepare_block_for_execution tb s =
     (let s0 = s\<lparr>current_tb := Some tb\<rparr>
      in if 0 \<le> sint (env_exception_index (ex_cpu s0)) then Some (1, s0)
         else if env_exit_request (ex_cpu s0) \<noteq> 0 then Some (env_exit_request (ex_cpu s0), s0)
         else let s1 = s0\<lparr>ex_count := cpu_sync_instructions_count (ex_count s0)\<rparr>;
                  instructions_left = instructions_count_limit s1 - instructions_count_value (ex_count s1);
                  b = tbs (ex_tb s1) tb
              in if instructions_left = 0 then Some (1, s1\<lparr>tb_restart_request := True\<rparr>)
                 else if instructions_left < blk_icount b
                 then Some (1, s1\<lparr>ex_tb := tb_jmp_cache_remove tb (ex_tb s1), tb_restart_request := True\<rparr>)
                 else if blk_dirty_flag b
                 then do { t \<leftarrow> tb_phys_invalidate tb (- 1) (ex_tb s1); Some (1, s1\<lparr>ex_tb := t, tb_restart_request := True\<rparr>) }
                 else Some (if tb_restart_request s1 then 1 else 0, s1))"

definition exec_iteration :: "exec_env \<Rightarrow> (nat \<times> nat) option \<Rightarrow> exec_state \<Rightarrow> loop_step" where
  "exec_iteration E next_tb s =
     bind_step (bind_step (handle_requests next_tb (s\<lparr>ex_count := cpu_sync_instructions_count (ex_count s)\<rparr>)) check_exit)
       (\<lambda>next1 s1. case find_and_chain E next1 s1 of
          None \<Rightarrow> Step_abort None
        | Some (tb, next2, s2) \<Rightarrow> run_block E tb next2 s2)"

section \<open>The loop\<close>

datatype exec_result = Exec_return u32 exec_state | Exec_abort "tlib_error option"

text \<open>What happens behind \<^verbatim>\<open>setjmp\<close> before the inner loop.\<close>

definition enter_loop :: "exec_state \<Rightarrow> exec_result + exec_state" where
  "enter_loop s =
     (let x = env_exception_index (ex_cpu s)
      in if 0 \<le> sint x
         then if return_on_exception s \<or> sint EXCP_INTERRUPT \<le> sint x then Inl (Exec_return x s)
              else (case do_interrupt (ex_mach s) of
                  Inl e \<Rightarrow> Inl (Exec_abort (Some e))
                | Inr m \<Rightarrow>
                    let s1 = s\<lparr>ex_mach := m\<rparr>
                    in if env_exception_index (ex_cpu s1) = EXCP_WFI then Inl (Exec_return 0 (set_exception (- 1) s1))
                       else Inr (set_exception (- 1) s1))
         else Inr s)"

text \<open>The loop may run forever: None. \<^verbatim>\<open>mode\<close> is the place: None behind \<^verbatim>\<open>setjmp\<close>, otherwise the head of the inner
  loop with its \<^verbatim>\<open>next_tb\<close>.\<close>

partial_function (option) cpu_exec_loop :: "exec_env \<Rightarrow> (nat \<times> nat) option option \<Rightarrow> exec_state \<Rightarrow> exec_result option" where
  "cpu_exec_loop E mode s =
     (case mode of
        None \<Rightarrow> (case enter_loop s of
            Inl r \<Rightarrow> Some r
          | Inr s' \<Rightarrow> cpu_exec_loop E (Some None) s')
      | Some next_tb \<Rightarrow> (case exec_iteration E next_tb s of
            Step_abort e \<Rightarrow> Some (Exec_abort e)
          | Step_exit s' \<Rightarrow> cpu_exec_loop E None s'
          | Step_next next' s' \<Rightarrow> cpu_exec_loop E (Some next') s'))"

definition cpu_exec :: "exec_env \<Rightarrow> exec_state \<Rightarrow> exec_result option" where
  "cpu_exec E s =
     (case cpu_has_work (ex_cpu s) of (work, env) \<Rightarrow>
        let s1 = upd_cpu (\<lambda>_. env) s
        in if \<not> work then Some (Exec_return EXCP_WFI s1) else cpu_exec_loop E None (set_exception (- 1) s1))"

section \<open>The cache across the loop\<close>

lemma upd_cpu_simps [simp]: "ex_tb (upd_cpu f s) = ex_tb s" "ex_count (upd_cpu f s) = ex_count s" "tb_cache_disabled (upd_cpu f s) = tb_cache_disabled s"
  "ex_tb (set_exception x s) = ex_tb s" "tb_cache_disabled (set_exception x s) = tb_cache_disabled s"
  "ex_cpu (upd_cpu f s) = f (ex_cpu s)" "ex_cpu (set_exception x s) = (ex_cpu s)\<lparr>env_exception_index := x\<rparr>"
  "instructions_count_limit (upd_cpu f s) = instructions_count_limit s" "instructions_count_limit (set_exception x s) = instructions_count_limit s" "return_on_exception (upd_cpu f s) = return_on_exception s"
  "return_on_exception (set_exception x s) = return_on_exception s" "ex_count (set_exception x s) = ex_count s"
  by (simp_all add: upd_cpu_def set_exception_def)

text \<open>While a block runs, the cache changes only by the writes of the code, by invalidations of blocks and by
  what the header of a block does to it.\<close>

inductive code_write :: "tb_state \<Rightarrow> tb_state \<Rightarrow> bool" where
  by_fast: "tb_invalidate_phys_page_fast start len t = Some t' \<Longrightarrow> unat start mod 8 + len \<le> 8 \<Longrightarrow> 0 < len \<Longrightarrow>
    start < start + of_nat len \<Longrightarrow> code_write t t'"
| by_block: "tb_phys_invalidate tb (- 1) t = Some t' \<Longrightarrow> code_write t t'"
| by_range: "tb_invalidate_phys_page_range start stop w t = Some t' \<Longrightarrow> start < stop \<Longrightarrow> code_write t t'"
| by_mark: "helper_mark_tbs_as_dirty dis cur code_tlb phys_debug pc w t = Some t' \<Longrightarrow> code_write t t'"
| by_header: "code_write t (tb_jmp_cache_remove tb t)"

lemma cache_inv_forget:
  assumes "cache_inv t A"
  shows "cache_inv (tb_jmp_cache_remove tb t) A"
proof -
  obtain C J P where inv: "cache_wf t C" "link_inv t (live C) J P" "live C = A" using assms unfolding cache_inv_def tb_inv_def by blast
  have "link_inv (tb_jmp_cache_remove tb t) (live C) J P" by (rule link_inv_same[OF inv(2)]) simp
  moreover have "cache_wf (tb_jmp_cache_remove tb t) C"
  proof -
    have w: "hash_wf t C" "\<And>j i. tb_jmp_cache t j = Some i \<Longrightarrow> j = tb_jmp_cache_hash_func (blk_pc (tbs t i)) \<and> (\<exists>h. i \<in> set (C h))"
      using inv(1) unfolding cache_wf_def by blast+
    have f: "tbs (tb_jmp_cache_remove tb t) = tbs t" "nb_tbs (tb_jmp_cache_remove tb t) = nb_tbs t"
      "tb_phys_hash (tb_jmp_cache_remove tb t) = tb_phys_hash t"
      "tb_jmp_cache (tb_jmp_cache_remove tb t) j = Some i \<Longrightarrow> tb_jmp_cache t j = Some i" for i j
      by (simp_all add: tb_jmp_cache_remove_def Let_def split: if_splits)
    have "hash_wf (tb_jmp_cache_remove tb t) C" by (rule hash_wf_frame[OF w(1)]) (simp_all only: f order_refl)
    then show ?thesis unfolding cache_wf_def f(1) using w(2) f(4) by blast
  qed
  ultimately show ?thesis using inv(3) unfolding cache_inv_def tb_inv_def by blast
qed

lemma code_write_inv: "code_write t t' \<Longrightarrow> cache_inv t A \<Longrightarrow> \<exists>A'\<subseteq>A. cache_inv t' A' \<and> nb_tbs t' = nb_tbs t"
proof (induction rule: code_write.induct)
  case (by_fast start len t t')
  from invalidate_fast_gone[OF by_fast(5,2-4)] by_fast(1) show ?case by (auto simp: range_gone_def same_bytes_def)
next
  case (by_block tb t t')
  then obtain C J P where "tb_inv t C J P" "live C = A" unfolding cache_inv_def by blast
  with tb_phys_invalidate_inv[of t C J P tb] by_block(1) show ?case unfolding cache_inv_def same_bytes_def by auto
next
  case (by_range start stop w t t')
  from invalidate_checked_gone[OF by_range(3,2), of w] by_range(1) show ?case
    by (auto simp: range_gone_def same_bytes_def tb_invalidate_phys_page_range_def)
next
  case (by_mark dis cur code_tlb phys_debug pc w t t')
  obtain M where "helper_mark_tbs_as_dirty dis cur code_tlb phys_debug pc w t = Some (mark_dirty M t)"
    using helper_mark_marks[OF by_mark(2)] by blast
  then have "t' = mark_dirty M t" using by_mark(1) by simp
  then show ?case using mark_dirty_inv[OF by_mark(2), of M] by (intro exI[of _ A]) simp
next
  case (by_header t tb)
  have "nb_tbs (tb_jmp_cache_remove tb t) = nb_tbs t" by (simp add: tb_jmp_cache_remove_def Let_def)
  then show ?case using cache_inv_forget[OF by_header, of tb] by (intro exI[of _ A]) simp
qed

lemma code_writes_inv: "code_write\<^sup>*\<^sup>* t t' \<Longrightarrow> cache_inv t A \<Longrightarrow> \<exists>A'\<subseteq>A. cache_inv t' A' \<and> nb_tbs t' = nb_tbs t"
proof (induction rule: rtranclp_induct)
  case (step t' t'')
  then show ?case using code_write_inv by (metis order_trans)
qed auto

text \<open>The contract of the translator, of the address translation and of the generated code.\<close>

definition code_ok :: "exec_env \<Rightarrow> bool" where
  "code_ok E \<longleftrightarrow> page_aligned (ee_page E) \<and> pages_apart (ee_page E) \<and> (\<forall>m pc flags. unat (tr_size (ee_translate E m pc flags)) \<le> 256) \<and>
     (\<forall>tb s. case ee_run E tb s of
        Tb_longjmp s' \<Rightarrow> code_write\<^sup>*\<^sup>* (ex_tb s) (ex_tb s') \<and> tb_cache_disabled s' = tb_cache_disabled s
      | Tb_exit next_tb s' \<Rightarrow> code_write\<^sup>*\<^sup>* (ex_tb s) (ex_tb s') \<and> tb_cache_disabled s' = tb_cache_disabled s \<and>
          (\<forall>tb' n. next_tb = Some (tb', n) \<longrightarrow> n = EXIT_TB_FORCE \<or> tb' < nb_tbs (ex_tb s') \<and> n < 2))"

text \<open>The block of \<^verbatim>\<open>next_tb\<close> is allocated; it need no longer be in use.\<close>

definition exec_inv :: "(nat \<times> nat) option \<Rightarrow> exec_state \<Rightarrow> bool" where
  "exec_inv next_tb s \<longleftrightarrow> (\<exists>A. cache_inv (ex_tb s) A) \<and> \<not> tb_cache_disabled s \<and>
     (\<forall>tb n. next_tb = Some (tb, n) \<longrightarrow> tb < nb_tbs (ex_tb s) \<and> n < 2)"

lemma cache_inv_find_fast:
  assumes "cache_inv s A" "page_aligned pg" "pages_apart pg" "unat (tr_size (translate pc flags)) \<le> 256"
    "tb_find_fast hm pg translate False mx pc cs_base flags s = Some (tb, s')"
  shows "\<exists>A'. cache_inv s' A' \<and> tb \<in> A' \<and> blk_pc (tbs s' tb) = pc \<and> blk_cs_base (tbs s' tb) = cs_base \<and> blk_flags (tbs s' tb) = flags \<and>
    (tb_invalidated_flag s' \<or> nb_tbs s \<le> nb_tbs s')"
proof (cases "tb_find_slow hm pg translate False mx pc cs_base flags s = Some (tb, s')")
  case True
  from cache_inv_find_slow[OF assms(1-4) True] show ?thesis by (auto simp: tb_matches_def)
next
  case False
  then have h: "tb_jmp_cache s (tb_jmp_cache_hash_func pc) = Some tb" "s' = s" "blk_pc (tbs s tb) = pc" "blk_cs_base (tbs s tb) = cs_base"
    "blk_flags (tbs s tb) = flags"
    using assms(5) by (auto simp: tb_find_fast_def Let_def split: option.splits if_splits)
  then have "tb \<in> A" using assms(1) by (auto simp: cache_inv_def tb_inv_def cache_wf_def live_iff)
  then show ?thesis using assms(1) h by blast
qed

lemma lookup_reuses:
  assumes "cache_inv s A" "page_aligned pg" "i \<in> A" "tb_fits pg pc cs_base flags mx (tbs s i)"
    "tb_find_fast hm pg translate False mx pc cs_base flags s = Some (tb, s')"
  shows "nb_tbs s' = nb_tbs s \<and> tb \<in> A"
proof (cases "tb_find_slow hm pg translate False mx pc cs_base flags s = Some (tb, s')")
  case True
  obtain C J P where C: "cache_wf s C" "live C = A" using assms(1) unfolding cache_inv_def tb_inv_def by blast
  obtain h where h: "i \<in> set (C h)" using assms(3) C(2) by (auto simp: live_iff)
  then have "hash_of (tbs s i) = h" using C(1) by (auto simp: cache_wf_def hash_wf_def)
  then have "h = phys_pc_hash (pg pc) pc" using assms(4) by (simp add: tb_fits_def tb_matches_def hash_of_def)
  with tb_find_slow_wf[OF C(1) assms(2) True] h assms(4) obtain C' where "tb \<in> set (C' h)" "nb_tbs s' = nb_tbs s" "\<And>h'. set (C' h') = set (C h')"
    by blast
  then show ?thesis using C(2) by (auto simp: live_iff)
next
  case False
  then have "tb_jmp_cache s (tb_jmp_cache_hash_func pc) = Some tb" "s' = s"
    using assms(5) by (auto simp: tb_find_fast_def Let_def split: option.splits if_splits)
  then show ?thesis using assms(1) by (auto simp: cache_inv_def tb_inv_def cache_wf_def live_iff)
qed

lemma cache_inv_add_jump:
  assumes "cache_inv s A" "p < nb_tbs s" "n < 2" "t \<in> A"
  shows "cache_inv (tb_add_jump p n t s) A" "same_bytes s (tb_add_jump p n t s)"
proof -
  let ?s = "tb_add_jump p n t s"
  obtain C J P where inv: "tb_inv s C J P" "live C = A" using assms(1) unfolding cache_inv_def by blast
  then have l: "link_inv s A J P" and c: "cache_wf s C" by (auto simp: tb_inv_def)
  have "t < nb_tbs s" using link_inv_bound[OF l] assms(4) by auto
  then obtain J' where J': "jmp_wf ?s {..<nb_tbs s} A J'" "\<forall>u. u \<noteq> t \<longrightarrow> J' u = J u"
    using tb_add_jump_wf[of s "{..<nb_tbs s}" A J p t n] l assms(2,3) by (auto simp: link_inv_def)
  note f = jump_frameD[OF jump_frame_add[of s p n t]]
  show sb: "same_bytes s ?s" using f jump_frame_dirty[OF jump_frame_add[of s p n t]] by (simp add: same_bytes_def hview_def)
  have "pages_wf ?s P"
    by (rule pages_wf_cong[of s]) (use l f in \<open>simp_all add: link_inv_def pnext_def page_desc_def fun_eq_iff\<close>)
  moreover have "page_members ?s A P" by (rule page_members_cong[of s]) (use l f in \<open>simp_all add: link_inv_def\<close>)
  moreover have "\<forall>i\<in>A. block_ok (tbs ?s i)" using l same_bytes_ok[OF sb] by (simp add: link_inv_def)
  moreover have "\<forall>u<nb_tbs ?s. u \<notin> A \<longrightarrow> J' u = []" using l J'(2) assms(4) f(1) by (metis link_inv_def)
  ultimately have "link_inv ?s A J' P" using J'(1) f(1) by (simp add: link_inv_def)
  moreover have "cache_wf ?s C" using c f unfolding cache_wf_def by (auto intro: hash_wf_frame[of s])
  ultimately show "cache_inv ?s A" using inv(2) unfolding cache_inv_def tb_inv_def by blast
qed

lemma cache_inv_flag: "cache_inv (t\<lparr>tb_invalidated_flag := f\<rparr>) A = cache_inv t A"
proof -
  have *: "cache_inv (t\<lparr>tb_invalidated_flag := f\<rparr>) A" if H: "cache_inv t A" for t f
  proof -
    obtain C J P where inv: "tb_inv t C J P" "live C = A" using H unfolding cache_inv_def by blast
    have "link_inv (t\<lparr>tb_invalidated_flag := f\<rparr>) (live C) J P" by (rule link_inv_same[of t]) (use inv in \<open>simp_all add: tb_inv_def\<close>)
    moreover have "cache_wf (t\<lparr>tb_invalidated_flag := f\<rparr>) C" using inv(1) by (auto simp: tb_inv_def cache_wf_def intro: hash_wf_frame[of t])
    ultimately show ?thesis using inv(2) unfolding cache_inv_def tb_inv_def by blast
  qed
  from *[of "t\<lparr>tb_invalidated_flag := f\<rparr>" "tb_invalidated_flag t"] *[of t f] show ?thesis by auto
qed

lemma find_and_chain_inv:
  assumes "code_ok E" "exec_inv next_tb s" "find_and_chain E next_tb s = Some (tb, next1, s')"
  shows "\<exists>A. cache_inv (ex_tb s') A \<and> tb \<in> A \<and> exec_inv next1 s' \<and> ex_mach s' = ex_mach s \<and>
    blk_pc (tbs (ex_tb s') tb) = env_pc (ex_cpu s) \<and>
    blk_flags (tbs (ex_tb s') tb) = (if env_skip_en (ex_cpu s) \<noteq> 0 then ucast TB_FLAG_SKIP else 0)"
proof -
  let ?flags = "scast (if env_skip_en (ex_cpu s) \<noteq> 0 then TB_FLAG_SKIP else 0) :: u64"
  obtain A where A: "cache_inv (ex_tb s) A" "\<not> tb_cache_disabled s"
    "\<And>p n. next_tb = Some (p, n) \<Longrightarrow> p < nb_tbs (ex_tb s) \<and> n < 2" using assms(2) by (auto simp: exec_inv_def)
  obtain t where t: "tb_find_fast (ee_host E) (ee_page E) (ee_translate E (ex_mach s)) False
      (instructions_count_limit s - instructions_count_value (ex_count s)) (env_pc (ex_cpu s)) 0 ?flags (ex_tb s) = Some (tb, t)"
    and n1: "next1 = (if tb_invalidated_flag t then None else next_tb)"
    and s': "s' = s\<lparr>ex_tb := (if \<not> chaining_disabled s \<and> \<not> block_finished_hook_present s \<and> next1 \<noteq> None \<and>
        blk_page_addr (tbs t tb) 1 = - 1 then tb_add_jump (fst (the next1)) (snd (the next1)) tb (t\<lparr>tb_invalidated_flag := False\<rparr>)
      else t\<lparr>tb_invalidated_flag := False\<rparr>)\<rparr>"
    using assms(3) A(2) by (auto simp: find_and_chain_def cpu_get_tb_cpu_state_def Option.bind_eq_Some_conv Let_def)
  have c: "page_aligned (ee_page E)" "pages_apart (ee_page E)" "unat (tr_size (ee_translate E (ex_mach s) (env_pc (ex_cpu s)) ?flags)) \<le> 256"
    using assms(1) by (simp_all add: code_ok_def)
  from cache_inv_find_fast[OF A(1) c t] obtain A' where A': "cache_inv t A'" "tb \<in> A'" "blk_pc (tbs t tb) = env_pc (ex_cpu s)"
    "blk_flags (tbs t tb) = ?flags" "tb_invalidated_flag t \<or> nb_tbs (ex_tb s) \<le> nb_tbs t" by blast
  let ?t = "t\<lparr>tb_invalidated_flag := False\<rparr>"
  have nx: "p < nb_tbs ?t \<and> n < 2" if "next1 = Some (p, n)" for p n using that n1 A'(5) A(3)[of p n] by (auto split: if_splits)
  have "cache_inv (ex_tb s') A' \<and> same_bytes ?t (ex_tb s') \<and> blk_flags (tbs (ex_tb s') tb) = blk_flags (tbs t tb)"
  proof (cases "\<not> chaining_disabled s \<and> \<not> block_finished_hook_present s \<and> next1 \<noteq> None \<and> blk_page_addr (tbs t tb) 1 = - 1")
    case True
    then obtain p n where pn: "next1 = Some (p, n)" by auto
    have "hview (tbs (tb_add_jump p n tb ?t) tb) = hview (tbs ?t tb)" by (rule jump_frameD(6)[OF jump_frame_add])
    then have "blk_flags (tbs (tb_add_jump p n tb ?t) tb) = blk_flags (tbs t tb)" by (simp add: hview_def)
    moreover have "ex_tb s' = tb_add_jump p n tb ?t" using True pn by (simp add: s')
    ultimately show ?thesis using cache_inv_add_jump[of ?t A' p n tb] nx[OF pn] A'(1,2) by (simp add: cache_inv_flag)
  next
    case False
    then have "ex_tb s' = ?t" unfolding s' by (simp only: if_False) simp
    then show ?thesis using A'(1) by (simp add: cache_inv_flag)
  qed
  moreover have "tb_cache_disabled s' = tb_cache_disabled s" "ex_mach s' = ex_mach s" by (simp_all add: s')
  moreover have "?flags = (if env_skip_en (ex_cpu s) \<noteq> 0 then ucast TB_FLAG_SKIP else 0)" by (simp add: TB_FLAG_SKIP_def)
  ultimately show ?thesis using A' nx A(2) by (intro exI[of _ A']) (auto simp: exec_inv_def same_bytes_def)
qed

text \<open>Every way through an iteration keeps the invariant.\<close>

lemma handle_requests_tb:
  assumes "handle_requests next_tb s = r"
  shows "(case r of Step_abort e \<Rightarrow> True | Step_exit s' \<Rightarrow> ex_tb s' = ex_tb s \<and> tb_cache_disabled s' = tb_cache_disabled s
    | Step_next n s' \<Rightarrow> ex_tb s' = ex_tb s \<and> tb_cache_disabled s' = tb_cache_disabled s \<and> (n = None \<or> n = next_tb))"
  using assms unfolding handle_requests_def
  by (auto simp: Let_def cpu_loop_exit_def split: sum.splits prod.splits if_splits)

lemma check_exit_tb:
  assumes "check_exit next_tb s = r"
  shows "(case r of Step_abort e \<Rightarrow> False | Step_exit s' \<Rightarrow> ex_tb s' = ex_tb s \<and> tb_cache_disabled s' = tb_cache_disabled s
    | Step_next n s' \<Rightarrow> ex_tb s' = ex_tb s \<and> tb_cache_disabled s' = tb_cache_disabled s \<and> n = next_tb)"
  using assms unfolding check_exit_def by (auto simp: Let_def cpu_loop_exit_def)

lemma exec_inv_same: "exec_inv next_tb s \<Longrightarrow> ex_tb s' = ex_tb s \<Longrightarrow> tb_cache_disabled s' = tb_cache_disabled s \<Longrightarrow>
    n = None \<or> n = next_tb \<Longrightarrow> exec_inv n s'"
  by (auto simp: exec_inv_def)

definition step_inv :: "loop_step \<Rightarrow> bool" where
  "step_inv r \<longleftrightarrow> (case r of Step_abort e \<Rightarrow> True | Step_exit s \<Rightarrow> exec_inv None s | Step_next n s \<Rightarrow> exec_inv n s)"

lemma step_inv_bind: "step_inv r \<Longrightarrow> (\<And>n s. r = Step_next n s \<Longrightarrow> exec_inv n s \<Longrightarrow> step_inv (f n s)) \<Longrightarrow> step_inv (bind_step r f)"
  by (simp add: step_inv_def bind_step_def split: loop_step.splits)

lemma handle_requests_inv: "exec_inv next_tb s \<Longrightarrow> step_inv (handle_requests next_tb s)"
  using handle_requests_tb[of next_tb s] exec_inv_same[of next_tb s]
  by (fastforce simp: step_inv_def split: loop_step.splits)

lemma check_exit_inv: "exec_inv next_tb s \<Longrightarrow> step_inv (check_exit next_tb s)"
  using check_exit_tb[of next_tb s] exec_inv_same[of next_tb s]
  by (fastforce simp: step_inv_def split: loop_step.splits)

lemma run_block_inv:
  assumes "code_ok E" "exec_inv next_tb s"
  shows "step_inv (run_block E tb next_tb s)"
proof (cases "env_exit_request (ex_cpu s) = 0")
  case False
  then show ?thesis using exec_inv_same[OF assms(2)] by (simp add: run_block_def Let_def step_inv_def)
next
  case True
  let ?s = "s\<lparr>current_tb := Some tb\<rparr>"
  obtain A where A: "cache_inv (ex_tb s) A" "\<not> tb_cache_disabled s" using assms(2) by (auto simp: exec_inv_def)
  have w: "\<exists>A. cache_inv t' A" if "code_write\<^sup>*\<^sup>* (ex_tb ?s) t'" for t'
    using code_writes_inv[OF that] A(1) by auto
  have c: "case ee_run E tb ?s of Tb_longjmp s' \<Rightarrow> code_write\<^sup>*\<^sup>* (ex_tb ?s) (ex_tb s') \<and> tb_cache_disabled s' = tb_cache_disabled ?s
      | Tb_exit next_tb s' \<Rightarrow> code_write\<^sup>*\<^sup>* (ex_tb ?s) (ex_tb s') \<and> tb_cache_disabled s' = tb_cache_disabled ?s \<and>
          (\<forall>tb' n. next_tb = Some (tb', n) \<longrightarrow> n = EXIT_TB_FORCE \<or> tb' < nb_tbs (ex_tb s') \<and> n < 2)"
    using assms(1) unfolding code_ok_def by blast
  show ?thesis
  proof (cases "ee_run E tb ?s")
    case (Tb_longjmp s')
    then have "\<exists>A. cache_inv (ex_tb s') A" "\<not> tb_cache_disabled s'" using c w A(2) by auto
    then show ?thesis using True Tb_longjmp by (simp add: run_block_def Let_def step_inv_def exec_inv_def)
  next
    case (Tb_exit n s')
    then have "\<exists>A. cache_inv (ex_tb s') A" "\<not> tb_cache_disabled s'"
      "\<And>tb' m. n = Some (tb', m) \<Longrightarrow> m = EXIT_TB_FORCE \<or> tb' < nb_tbs (ex_tb s') \<and> m < 2" using c w A(2) by auto
    then show ?thesis using True Tb_exit
      by (auto simp: run_block_def Let_def step_inv_def exec_inv_def cpu_loop_exit_def split: option.split)
  qed
qed

lemma exec_iteration_inv:
  assumes "code_ok E" "exec_inv next_tb s"
  shows "step_inv (exec_iteration E next_tb s)"
proof -
  let ?s = "s\<lparr>ex_count := cpu_sync_instructions_count (ex_count s)\<rparr>"
  have "exec_inv next_tb ?s" using exec_inv_same[OF assms(2), of ?s next_tb] by simp
  then show ?thesis unfolding exec_iteration_def
    by (intro step_inv_bind handle_requests_inv check_exit_inv)
      (auto simp: step_inv_def[of "Step_abort None"] split: option.split dest: find_and_chain_inv[OF assms(1)] intro: run_block_inv[OF assms(1)])
qed

lemma enter_loop_tb: "enter_loop s = Inl (Exec_return x s') \<Longrightarrow> ex_tb s' = ex_tb s" "enter_loop s = Inr s' \<Longrightarrow> ex_tb s' = ex_tb s \<and> tb_cache_disabled s' = tb_cache_disabled s"
  by (auto simp: enter_loop_def Let_def split: sum.splits if_splits)

text \<open>What the loop returns with.\<close>

lemma enter_loop_return: "enter_loop s = Inl (Exec_return x s') \<Longrightarrow> sint EXCP_INTERRUPT \<le> sint x \<or> return_on_exception s \<or> x = 0"
  by (auto simp: enter_loop_def Let_def split: sum.splits if_splits)

lemma cpu_exec_loop_inv:
  assumes "cpu_exec_loop E mode s = Some r" "code_ok E" "exec_inv (case mode of None \<Rightarrow> None | Some n \<Rightarrow> n) s"
  shows "case r of Exec_abort e \<Rightarrow> True | Exec_return x s' \<Rightarrow> \<exists>A. cache_inv (ex_tb s') A"
  using assms
proof (induction rule: cpu_exec_loop.raw_induct[rotated, consumes 1, case_names step])
  case (step loop E mode s r)
  show ?case
  proof (cases mode)
    case None
    then have i: "exec_inv None s" using step.prems by simp
    show ?thesis
    proof (cases "enter_loop s")
      case (Inl x)
      then have "r = x" using step.hyps None by simp
      then show ?thesis using Inl enter_loop_tb(1)[of s] i by (cases x) (auto simp: exec_inv_def)
    next
      case (Inr s')
      then have "exec_inv None s'" using enter_loop_tb(2)[OF Inr] exec_inv_same[OF i] by blast
      then show ?thesis using step.IH[of E "Some None" s' r] step.hyps step.prems None Inr by simp
    qed
  next
    case (Some n)
    then have i: "step_inv (exec_iteration E n s)" using exec_iteration_inv step.prems by simp
    show ?thesis
    proof (cases "exec_iteration E n s")
      case (Step_abort e)
      then have "r = Exec_abort e" using step.hyps Some by simp
      then show ?thesis by simp
    next
      case (Step_exit s')
      then show ?thesis using step.IH[of E None s' r] step.hyps step.prems Some i by (simp add: step_inv_def)
    next
      case (Step_next n' s')
      then show ?thesis using step.IH[of E "Some n'" s' r] step.hyps step.prems Some i by (simp add: step_inv_def)
    qed
  qed
qed

lemma cpu_exec_inv:
  assumes "cpu_exec E s = Some (Exec_return x s')" "code_ok E" "exec_inv None s"
  shows "\<exists>A. cache_inv (ex_tb s') A"
proof (cases "fst (cpu_has_work (ex_cpu s))")
  case False
  then have "ex_tb s' = ex_tb s" using assms(1) by (auto simp: cpu_exec_def Let_def split: prod.splits)
  then show ?thesis using assms(3) by (simp add: exec_inv_def)
next
  case True
  then obtain env where "cpu_exec_loop E None (set_exception (- 1) (upd_cpu (\<lambda>_. env) s)) = Some (Exec_return x s')"
    using assms(1) by (auto simp: cpu_exec_def Let_def split: prod.splits)
  from cpu_exec_loop_inv[OF this assms(2)] show ?thesis using exec_inv_same[OF assms(3)] by simp
qed

text \<open>A block runs only with nothing pending, within the limit of instructions, and with its bytes unwritten; otherwise
  the cache at most forgets it.\<close>

lemma prepare_runs:
  assumes "prepare_block_for_execution tb s = Some (0, s')"
  shows "\<not> blk_dirty_flag (tbs (ex_tb s) tb) \<and> ex_tb s' = ex_tb s \<and> ex_mach s' = ex_mach s \<and> \<not> tb_restart_request s' \<and>
    env_exit_request (ex_cpu s) = 0 \<and> sint (env_exception_index (ex_cpu s)) < 0 \<and>
    unat (blk_icount (tbs (ex_tb s) tb)) \<le> unat (instructions_count_limit s' - instructions_count_value (ex_count s'))"
  using assms unfolding prepare_block_for_execution_def
  by (auto simp: Let_def word_less_nat_alt Option.bind_eq_Some_conv split: if_splits)

lemma prepare_leaves:
  assumes "prepare_block_for_execution tb s = Some (r, s')" "r \<noteq> 0"
  shows "ex_mach s' = ex_mach s \<and> (ex_tb s' = ex_tb s \<or> ex_tb s' = tb_jmp_cache_remove tb (ex_tb s) \<or>
    tb_phys_invalidate tb (- 1) (ex_tb s) = Some (ex_tb s'))"
  using assms unfolding prepare_block_for_execution_def
  by (auto simp: Let_def Option.bind_eq_Some_conv split: if_splits)

text \<open>Whether the header comes to look at the mark of the block: no exception or exit request, and instructions enough.\<close>

definition may_start :: "nat \<Rightarrow> exec_state \<Rightarrow> bool" where
  "may_start tb s \<longleftrightarrow> sint (env_exception_index (ex_cpu s)) < 0 \<and> env_exit_request (ex_cpu s) = 0 \<and>
     (let instructions_left = instructions_count_limit s - instructions_count_value (cpu_sync_instructions_count (ex_count s))
      in instructions_left \<noteq> 0 \<and> blk_icount (tbs (ex_tb s) tb) \<le> instructions_left)"

lemma prepare_dirty:
  assumes "cache_inv (ex_tb e) A" "blk_dirty_flag (tbs (ex_tb e) tb)"
  shows "\<exists>r e'. prepare_block_for_execution tb e = Some (r, e') \<and> r \<noteq> 0 \<and> ex_mach e' = ex_mach e \<and>
    (if may_start tb e then cache_inv (ex_tb e') (A - {tb}) else cache_inv (ex_tb e') A \<and> blk_dirty_flag (tbs (ex_tb e') tb))"
proof -
  obtain C J P where "tb_inv (ex_tb e) C J P" "live C = A" using assms(1) unfolding cache_inv_def by blast
  with tb_phys_invalidate_inv[of "ex_tb e" C J P tb] obtain t where
    t: "tb_phys_invalidate tb (- 1) (ex_tb e) = Some t" "cache_inv t (A - {tb})" unfolding cache_inv_def by blast
  have f: "tbs (tb_jmp_cache_remove tb (ex_tb e)) = tbs (ex_tb e)" by (simp add: tb_jmp_cache_remove_def Let_def)
  show ?thesis
  proof (cases "may_start tb e")
    case True
    then show ?thesis using t assms(2) unfolding may_start_def prepare_block_for_execution_def
      by (simp add: Let_def word_less_nat_alt word_le_nat_alt)
  next
    case False
    then show ?thesis using assms cache_inv_forget[OF assms(1), of tb] unfolding may_start_def prepare_block_for_execution_def
      by (auto simp: Let_def f word_less_nat_alt word_le_nat_alt)
  qed
qed

text \<open>A pending exit request, or a reached instruction limit, ends the loop before another block runs.\<close>

lemma exit_request_ends:
  assumes "env_interrupt_request (ex_cpu s) = 0" "env_wfi (ex_cpu s) = 0" "\<not> mmu_fault s"
    "env_exit_request (ex_cpu s) \<noteq> 0 \<or>
     instructions_count_value (ex_count s) + instructions_count_declaration (ex_count s) = instructions_count_limit s"
  shows "\<exists>s'. cpu_exec E s = Some (Exec_return EXCP_INTERRUPT s') \<and> ex_tb s' = ex_tb s \<and> env_pc (ex_cpu s') = env_pc (ex_cpu s) \<and>
    ram (ex_mach s') = ram (ex_mach s)"
proof -
  let ?s = "set_exception (- 1) s"
  let ?q = "?s\<lparr>ex_count := cpu_sync_instructions_count (ex_count ?s)\<rparr>"
  have "cpu_has_work (ex_cpu s) = (True, ex_cpu s)" using assms(1,2) by (simp add: cpu_has_work_def)
  moreover have "upd_cpu (\<lambda>_. ex_cpu s) s = s" by (simp add: upd_cpu_def)
  ultimately have 1: "cpu_exec E s = cpu_exec_loop E None ?s" by (simp add: cpu_exec_def)
  have "enter_loop ?s = Inr ?s" by (simp add: enter_loop_def Let_def)
  then have 2: "cpu_exec_loop E None ?s = cpu_exec_loop E (Some None) ?s" by (subst cpu_exec_loop.simps) simp
  have "handle_requests None ?q = Step_next None ?q" using assms(1) by (simp add: handle_requests_def set_exception_def upd_cpu_def)
  moreover define q where "q = (if instructions_count_value (ex_count ?q) = instructions_count_limit ?q
    then upd_cpu (\<lambda>env. env\<lparr>env_exit_request := 1\<rparr>) ?q else ?q)"
  define s1 where "s1 = (set_exception EXCP_INTERRUPT q)\<lparr>current_tb := None\<rparr>"
  have q: "env_exit_request (ex_cpu q) \<noteq> 0" using assms(4) by (auto simp: q_def cpu_sync_instructions_count_def)
  have "mmu_fault ?q = mmu_fault s" by (simp add: set_exception_def upd_cpu_def)
  then have "check_exit None ?q = Step_exit s1"
    using assms(3) q unfolding check_exit_def q_def[symmetric] Let_def s1_def by (simp add: cpu_loop_exit_def)
  moreover have s1: "env_exception_index (ex_cpu s1) = EXCP_INTERRUPT" "ex_tb s1 = ex_tb s" "env_pc (ex_cpu s1) = env_pc (ex_cpu s)"
    "ram (ex_mach s1) = ram (ex_mach s)"
    by (simp_all add: s1_def q_def set_exception_def upd_cpu_def)
  ultimately have "exec_iteration E None ?s = Step_exit s1" by (simp add: exec_iteration_def bind_step_def)
  then have 3: "cpu_exec_loop E (Some None) ?s = cpu_exec_loop E None s1" by (subst cpu_exec_loop.simps) simp
  have "enter_loop s1 = Inl (Exec_return EXCP_INTERRUPT s1)" using s1(1) by (simp add: enter_loop_def EXCP_INTERRUPT_def)
  then have 4: "cpu_exec_loop E None s1 = Some (Exec_return EXCP_INTERRUPT s1)" by (subst cpu_exec_loop.simps) simp
  show ?thesis using s1(2-4) unfolding 1 2 3 4 by blast
qed

end
