(* ===== verification/TB_Coherent.thy ===== *)
theory TB_Coherent
  imports CPU_Exec
begin

text \<open>The code kept for a block is the code that translating the memory now would give, or the block is marked and
  will be dropped: where the bytes of a block are, what a lookup adds to the cache, and how the code of the blocks that
  stay in use follows changes of memory. A block is dropped or marked when one of its bytes changes.\<close>

section \<open>Where the bytes of a block are\<close>

text \<open>A byte of the guest at its page (\<^verbatim>\<open>get_page_addr_code\<close>) and its offset.\<close>

definition guest_load :: "(u32 \<Rightarrow> u64) \<Rightarrow> (u64 \<Rightarrow> u8) \<Rightarrow> u32 \<Rightarrow> u8" where
  "guest_load pg mem v = mem (pg v + ucast (v AND NOT TARGET_PAGE_MASK32))"

definition page_map :: "(u32 \<Rightarrow> u64) \<Rightarrow> bool" where
  "page_map pg \<longleftrightarrow> page_aligned pg \<and> pages_apart pg \<and> (\<forall>v. pg (v AND TARGET_PAGE_MASK32) = pg v)"

definition placed :: "(u32 \<Rightarrow> u64) \<Rightarrow> TranslationBlock \<Rightarrow> bool" where
  "placed pg b \<longleftrightarrow> blk_page_addr b 0 = pg (blk_pc b) \<and>
     blk_page_addr b 1 = (if 256 < unat (blk_pc b) mod 256 + unat (blk_size b) then pg ((blk_pc b AND TARGET_PAGE_MASK32) + 256) else - 1)"

lemma block_addrsI: "j \<in> page_bytes b 0 \<Longrightarrow> blk_page_addr b 0 + of_nat j \<in> block_addrs b"
    "j \<in> page_bytes b 1 \<Longrightarrow> blk_page_addr b 1 \<noteq> - 1 \<Longrightarrow> blk_page_addr b 1 + of_nat j \<in> block_addrs b"
  by (auto simp: block_addrs_def)

lemma guest_load_block:
  assumes "page_map pg" "placed pg b" "unat (blk_size b) \<le> 256" "j < unat (blk_size b)"
  shows "\<exists>a\<in>block_addrs b. \<forall>mem. guest_load pg mem (blk_pc b + of_nat j) = mem a"
proof -
  let ?v = "blk_pc b + of_nat j :: u32" and ?o = "unat (blk_pc b) mod 256" and ?s = "of_nat (j + 1) :: u16"
  have pm: "pg (v AND TARGET_PAGE_MASK32) = pg v" for v using assms(1) by (simp add: page_map_def)
  have "j < 256" using assms(3,4) by simp
  then have s: "unat ?s = j + 1" by (simp only: unat_of_nat) simp
  then have "(ucast ?s :: u32) = of_nat (j + 1)" by (metis of_nat_unat)
  then have e: "blk_pc b + ucast ?s - 1 = ?v" by simp
  have s256: "unat ?s \<le> 256" using s \<open>j < 256\<close> by simp
  have "unat ?v mod 256 = (unat (blk_pc b) + j) mod 256"
    using \<open>j < 256\<close> mod_mod_cancel[of 256 "2 ^ 32" "unat (blk_pc b) + j"] by (simp add: unat_word_ariths(1) unat_of_nat)
  then have off: "unat (?v AND NOT TARGET_PAGE_MASK32) = (?o + j) mod 256" by (simp add: page_off_eq mod_add_left_eq)
  then have uo: "ucast (?v AND NOT TARGET_PAGE_MASK32) = (of_nat ((?o + j) mod 256) :: u64)" by (metis of_nat_unat)
  have o: "?o < 256" by simp
  show ?thesis
  proof (cases "?o + j < 256")
    case True
    then have "blk_pc b AND TARGET_PAGE_MASK32 = ?v AND TARGET_PAGE_MASK32"
      using page_cross(1)[OF s256, of "blk_pc b"] s unfolding e by (auto simp: word_less_nat_alt)
    then have "pg ?v = blk_page_addr b 0" using pm[of ?v] pm[of "blk_pc b"] assms(2) by (simp add: placed_def)
    moreover have "?o + j \<in> page_bytes b 0" using True assms(4) by (simp add: page_bytes_def page_off_eq)
    moreover have "ucast (?v AND NOT TARGET_PAGE_MASK32) = (of_nat (?o + j) :: u64)" using uo True by (simp only: mod_less)
    ultimately show ?thesis
      by (intro bexI[OF _ block_addrsI(1)[of "?o + j"]]) (simp_all only: guest_load_def simp_thms)
  next
    case False
    then have "256 < ?o + unat ?s" using s by linarith
    from page_cross(2)[OF s256 this] have "?v AND TARGET_PAGE_MASK32 = (blk_pc b AND TARGET_PAGE_MASK32) + 256" unfolding e .
    then have "pg ?v = pg ((blk_pc b AND TARGET_PAGE_MASK32) + 256)" using pm[of ?v] by simp
    moreover have c: "256 < ?o + unat (blk_size b)" using False assms(4) by linarith
    ultimately have "pg ?v = blk_page_addr b 1" using assms(2) by (simp add: placed_def)
    moreover have "blk_page_addr b 1 \<noteq> - 1" using assms(1,2) c aligned_not_m1 by (simp add: placed_def page_map_def)
    moreover have "(?o + j) mod 256 \<in> page_bytes b 1"
    proof -
      have "unat (blk_pc b + ucast (blk_size b)) mod 256 = (unat (blk_pc b) + unat (blk_size b)) mod 256"
        using mod_mod_cancel[of 256 "2 ^ 32" "unat (blk_pc b) + unat (blk_size b)"] assms(3)
        by (simp add: unat_word_ariths(1) unsigned_ucast_eq take_bit_nat_eq_self)
      then have "unat ((blk_pc b + ucast (blk_size b)) AND NOT TARGET_PAGE_MASK32) = (?o + unat (blk_size b)) mod 256"
        by (simp add: page_off_eq mod_add_left_eq)
      moreover have m: "x mod 256 = x - 256" if "256 \<le> x" "x < 512" for x :: nat using that by (simp add: le_mod_geq)
      moreover have "(?o + j) mod 256 = ?o + j - 256" by (rule m) (use False o \<open>j < 256\<close> in linarith)+
      moreover have "(?o + unat (blk_size b)) mod 256 = ?o + unat (blk_size b) - 256" by (rule m) (use c o assms(3) in linarith)+
      moreover have "?o + j - 256 < ?o + unat (blk_size b) - 256" using assms(4) False by linarith
      ultimately show ?thesis by (simp only: page_bytes_def one_neq_zero if_False lessThan_iff)
    qed
    ultimately show ?thesis using uo
      by (intro bexI[OF _ block_addrsI(2)[of "(?o + j) mod 256"]]) (simp_all only: guest_load_def simp_thms not_False_eq_True)
  qed
qed

section \<open>New blocks\<close>

lemma flush_count_frame [simp]: "tb_flush_count (upd_tb i f s) = tb_flush_count s" "tb_flush_count (page_upd k g s) = tb_flush_count s"
  "tb_flush_count (page_alloc k s) = tb_flush_count s" "tb_flush_count (write_slot l v s) = tb_flush_count s"
  by (simp_all add: upd_tb_def page_upd_def page_alloc_def split: option.split) (cases l, simp_all add: upd_tb_def write_slot.simps)

lemma link_page_frame:
  "i \<noteq> tb \<Longrightarrow> tbs (tb_link_page tb p1 p2 s) i = tbs s i" "blk_size (tbs (tb_link_page tb p1 p2 s) tb) = blk_size (tbs s tb)"
  "blk_page_addr (tbs (tb_link_page tb p1 p2 s) tb) 1 = (if p2 \<noteq> - 1 then p2 AND NOT IO_MEM_EXECUTABLE_IO else - 1)"
  "tb_flush_count (tb_link_page tb p1 p2 s) = tb_flush_count s" "blk_dirty_flag (tbs (tb_link_page tb p1 p2 s) tb) = blk_dirty_flag (tbs s tb)"
  by (simp_all add: tb_link_page_def tb_alloc_page_def tb_reset_jump_def Let_def)

text \<open>A lookup moves a block to the front of its bucket and remembers it; nothing else of the blocks changes.\<close>

definition lookup_frame :: "tb_state \<Rightarrow> tb_state \<Rightarrow> bool" where
  "lookup_frame s s' \<longleftrightarrow> same_links s s' \<and> tb_flush_count s' = tb_flush_count s \<and> tb_invalidated_flag s' = tb_invalidated_flag s \<and>
     (\<forall>i. blk_dirty_flag (tbs s' i) = blk_dirty_flag (tbs s i))"

lemma relink_frame: "lookup_frame s ((hash_relink h ptb prev tb s)\<lparr>tb_jmp_cache := c\<rparr>)"
proof -
  have "tb_flush_count (hash_relink h ptb prev tb s) = tb_flush_count s" by (simp add: hash_relink_def Let_def split: option.split)
  moreover have "blk_dirty_flag (tbs (hash_relink h ptb prev tb s) i) = blk_dirty_flag (tbs s i)" for i
    by (simp add: hash_relink_def Let_def tbs_write_slot split: option.split)
  ultimately show ?thesis using same_links_relink[of s] by (simp add: lookup_frame_def same_links_def)
qed

text \<open>A block is new when the array of blocks grew, or was emptied before.\<close>

definition new_block :: "tb_state \<Rightarrow> tb_state \<Rightarrow> bool" where
  "new_block t t' \<longleftrightarrow> nb_tbs t' \<noteq> nb_tbs t \<or> tb_flush_count t' \<noteq> tb_flush_count t"

lemma tb_gen_code_placed:
  assumes "tb_gen_code hm pg translate pc cs_base flags cflags s = Some (tb, s')" "page_aligned pg" "unat (tr_size (translate pc flags)) \<le> 256"
  shows "blk_size (tbs s' tb) = tr_size (translate pc flags) \<and> blk_pc (tbs s' tb) = pc \<and> blk_flags (tbs s' tb) = flags \<and> placed pg (tbs s' tb) \<and>
    \<not> blk_dirty_flag (tbs s' tb) \<and>
    (nb_tbs s' = nb_tbs s + 1 \<and> tb = nb_tbs s \<and> tb_flush_count s' = tb_flush_count s \<and> tb_invalidated_flag s' = tb_invalidated_flag s \<and>
       (\<forall>i. i \<noteq> tb \<longrightarrow> tbs s' i = tbs s i) \<or>
     tb_flush_count s' = tb_flush_count s + 1 \<and> tb_invalidated_flag s')"
proof -
  let ?search = "encode_search pc (unat (tr_icount (translate pc flags))) (tr_insn_data (translate pc flags)) (tr_insn_end_off (translate pc flags))"
  let ?size = "tr_size (translate pc flags)"
  let ?p2 = "if 0 < ?size \<and> pc AND TARGET_PAGE_MASK32 \<noteq> (pc + ucast ?size - 1) AND TARGET_PAGE_MASK32
    then pg ((pc + ucast ?size - 1) AND TARGET_PAGE_MASK32) else - 1"
  obtain s1 cp where alloc: "(case tb_alloc pc s of Some r \<Rightarrow> Some r
       | None \<Rightarrow> do { f \<leftarrow> tb_flush s; (_, x) \<leftarrow> code_gen_try_expand hm f; (tb, a) \<leftarrow> tb_alloc pc x; Some (tb, a\<lparr>tb_invalidated_flag := True\<rparr>) }) = Some (tb, s1)"
    and s': "s' = tb_link_page tb (pg pc) ?p2 ((upd_tb tb (\<lambda>b. b\<lparr>blk_tc_ptr := code_gen_ptr s1, blk_cs_base := cs_base, blk_flags := flags, blk_cflags := cflags,
                blk_icount := tr_icount (translate pc flags), blk_size := tr_size (translate pc flags), blk_was_cut := tr_was_cut (translate pc flags),
                blk_tc_search := ?search\<rparr>) s1)\<lparr>code_gen_ptr := cp\<rparr>)"
    using assms(1) unfolding tb_gen_code_def Let_def by (auto simp: Option.bind_eq_Some_conv split: prod.splits)
  define s2 where "s2 = (upd_tb tb (\<lambda>b. b\<lparr>blk_tc_ptr := code_gen_ptr s1, blk_cs_base := cs_base, blk_flags := flags, blk_cflags := cflags,
                blk_icount := tr_icount (translate pc flags), blk_size := tr_size (translate pc flags), blk_was_cut := tr_was_cut (translate pc flags),
                blk_tc_search := ?search\<rparr>) s1)\<lparr>code_gen_ptr := cp\<rparr>"
  have f2: "tb_flush_count s2 = tb_flush_count s1" "nb_tbs s2 = nb_tbs s1" "tb_invalidated_flag s2 = tb_invalidated_flag s1"
    "\<And>i. i \<noteq> tb \<Longrightarrow> tbs s2 i = tbs s1 i" "blk_pc (tbs s2 tb) = blk_pc (tbs s1 tb)" "blk_flags (tbs s2 tb) = flags" "blk_size (tbs s2 tb) = ?size"
    "blk_dirty_flag (tbs s2 tb) = blk_dirty_flag (tbs s1 tb)"
    by (simp_all add: s2_def upd_tb_def)
  have p2: "?p2 = (if 256 < unat pc mod 256 + unat ?size then pg ((pc AND TARGET_PAGE_MASK32) + 256) else - 1)"
    using page_cross[OF assms(3), of pc] by auto
  have hf: "hash_frame {tb} s2 s'" unfolding s' s2_def by (rule tb_link_page_frame)
  have 1: "blk_dirty_flag (tbs s' tb) = blk_dirty_flag (tbs s1 tb)" "blk_size (tbs s' tb) = ?size" "blk_pc (tbs s' tb) = blk_pc (tbs s1 tb)" "blk_flags (tbs s' tb) = flags"
    "blk_page_addr (tbs s' tb) 0 = pg pc" "blk_page_addr (tbs s' tb) 1 = (if ?p2 \<noteq> - 1 then ?p2 AND NOT IO_MEM_EXECUTABLE_IO else - 1)"
    "tb_flush_count s' = tb_flush_count s1" "nb_tbs s' = nb_tbs s1" "tb_invalidated_flag s' = tb_invalidated_flag s1"
    "\<And>i. i \<noteq> tb \<Longrightarrow> tbs s' i = tbs s1 i"
    unfolding s' s2_def[symmetric] link_page_frame tb_link_page_block page_no_io[OF assms(2)]
    using f2 hf by (simp_all add: link_page_frame hash_frame_def s' s2_def[symmetric])
  have 2: "blk_page_addr (tbs s' tb) 1 = (if 256 < unat pc mod 256 + unat ?size then pg ((pc AND TARGET_PAGE_MASK32) + 256) else - 1)"
    unfolding 1(6) p2 using aligned_not_m1[OF assms(2)] page_no_io[OF assms(2)] by simp
  have "blk_pc (tbs s1 tb) = pc \<and> \<not> blk_dirty_flag (tbs s1 tb) \<and>
    (nb_tbs s1 = nb_tbs s + 1 \<and> tb = nb_tbs s \<and> tb_flush_count s1 = tb_flush_count s \<and> tb_invalidated_flag s1 = tb_invalidated_flag s \<and>
       (\<forall>i. i \<noteq> tb \<longrightarrow> tbs s1 i = tbs s i) \<or>
     tb_flush_count s1 = tb_flush_count s + 1 \<and> tb_invalidated_flag s1)"
  proof (cases "tb_alloc pc s")
    case (Some r)
    then show ?thesis using alloc by (auto simp: tb_alloc_def zero_tb_def split: if_splits)
  next
    case None
    then obtain f0 x a ok where a: "tb_flush s = Some f0" "code_gen_try_expand hm f0 = Some (ok, x)" "tb_alloc pc x = Some (tb, a)"
      "s1 = a\<lparr>tb_invalidated_flag := True\<rparr>" using alloc by (auto simp: Option.bind_eq_Some_conv)
    have "tb_flush_count f0 = tb_flush_count s + 1" using a(1) by (auto simp: tb_flush_def page_flush_tb_def split: if_splits)
    moreover have "tb_flush_count x = tb_flush_count f0"
      using a(2) by (auto simp: code_gen_try_expand_def code_gen_alloc_def Let_def split: if_splits option.splits prod.splits)
    ultimately show ?thesis using a(3,4) by (auto simp: tb_alloc_def zero_tb_def split: if_splits)
  qed
  then show ?thesis using 1 2 by (simp add: placed_def)
qed

lemma same_links_blocks: "same_links s s' \<Longrightarrow> blk_pc (tbs s' i) = blk_pc (tbs s i) \<and> blk_size (tbs s' i) = blk_size (tbs s i) \<and>
    blk_flags (tbs s' i) = blk_flags (tbs s i) \<and> blk_page_addr (tbs s' i) = blk_page_addr (tbs s i)"
  by (simp add: same_links_def lview_def)

lemma lookup_frame_blocks: "lookup_frame s s' \<Longrightarrow> blk_pc (tbs s' i) = blk_pc (tbs s i) \<and> blk_size (tbs s' i) = blk_size (tbs s i) \<and>
    blk_flags (tbs s' i) = blk_flags (tbs s i) \<and> blk_page_addr (tbs s' i) = blk_page_addr (tbs s i) \<and>
    blk_dirty_flag (tbs s' i) = blk_dirty_flag (tbs s i)"
  by (simp add: lookup_frame_def same_links_blocks)

lemma tb_find_slow_cases:
  assumes "tb_find_slow hm pg translate False mx pc cs_base flags s = Some (tb, s')"
  shows "(\<exists>s1. tb_gen_code hm pg translate pc cs_base flags 0 (s\<lparr>tb_invalidated_flag := False\<rparr>) = Some (tb, s1) \<and> lookup_frame s1 s') \<or>
    lookup_frame (s\<lparr>tb_invalidated_flag := False\<rparr>) s'"
proof -
  let ?s = "s\<lparr>tb_invalidated_flag := False\<rparr>" and ?h = "phys_pc_hash (pg pc) pc"
  obtain ptb1 found prev where f: "find_slow_loop pg pc cs_base flags mx (Slot_hash ?h) None ?s = Some (ptb1, found, prev)"
    using assms unfolding tb_find_slow_def Let_def by (auto simp: Option.bind_eq_Some_conv split: prod.splits)
  show ?thesis
  proof (cases found)
    case (Some t)
    then have "tb = t \<and> s' = (hash_relink ?h ptb1 prev tb ?s)\<lparr>tb_jmp_cache := (tb_jmp_cache ?s)(tb_jmp_cache_hash_func pc := Some tb)\<rparr>"
      using assms f unfolding tb_find_slow_def Let_def by (auto simp: relink_state)
    then show ?thesis using relink_frame by blast
  next
    case None
    then obtain s1 where g: "tb_gen_code hm pg translate pc cs_base flags 0 ?s = Some (tb, s1)"
      "\<exists>ptb prev' c. s' = (hash_relink ?h ptb prev' tb s1)\<lparr>tb_jmp_cache := c\<rparr>"
      using assms f unfolding tb_find_slow_def Let_def by (auto simp: Option.bind_eq_Some_conv split: prod.splits if_splits)
    then show ?thesis using relink_frame by blast
  qed
qed

lemma tb_find_slow_blocks:
  assumes "cache_inv s A" "page_aligned pg" "unat (tr_size (translate pc flags)) \<le> 256"
    "tb_find_slow hm pg translate False mx pc cs_base flags s = Some (tb, s')"
  shows "if new_block s s'
    then blk_size (tbs s' tb) = tr_size (translate pc flags) \<and> blk_pc (tbs s' tb) = pc \<and> blk_flags (tbs s' tb) = flags \<and>
      placed pg (tbs s' tb) \<and> \<not> blk_dirty_flag (tbs s' tb) \<and>
      (\<not> tb_invalidated_flag s' \<longrightarrow> tb \<notin> A \<and> (\<forall>i\<in>A. blk_pc (tbs s' i) = blk_pc (tbs s i) \<and> blk_size (tbs s' i) = blk_size (tbs s i) \<and>
        blk_flags (tbs s' i) = blk_flags (tbs s i) \<and> blk_page_addr (tbs s' i) = blk_page_addr (tbs s i) \<and>
        blk_dirty_flag (tbs s' i) = blk_dirty_flag (tbs s i)))
    else same_bytes s s' \<and> \<not> tb_invalidated_flag s' \<and> tb \<in> A"
  using tb_find_slow_cases[OF assms(4)]
proof (elim disjE exE conjE)
  assume f: "lookup_frame (s\<lparr>tb_invalidated_flag := False\<rparr>) s'"
  then have a: "same_links s s'" "tb_flush_count s' = tb_flush_count s" "\<not> tb_invalidated_flag s'"
    by (simp_all add: lookup_frame_def same_links_def)
  obtain C where C: "cache_wf s C" "live C = A" using assms(1) by (auto simp: cache_inv_def tb_inv_def)
  have n: "nb_tbs s' = nb_tbs s" using a(1) by (simp add: same_links_def)
  from tb_find_slow_wf[OF C(1) assms(2,4)] obtain C' h where C': "tb \<in> set (C' h)"
    "live C' = A \<or> (\<exists>s1. tb_gen_code hm pg translate pc cs_base flags 0 (s\<lparr>tb_invalidated_flag := False\<rparr>) = Some (tb, s1) \<and> same_links s1 s' \<and>
       tb_invalidated_flag s' = tb_invalidated_flag s1)" unfolding C(2) by blast
  have "nb_tbs s1 = nb_tbs s + 1" if "tb_gen_code hm pg translate pc cs_base flags 0 (s\<lparr>tb_invalidated_flag := False\<rparr>) = Some (tb, s1)"
    "\<not> tb_invalidated_flag s1" for s1
    using tb_gen_code_placed[OF that(1) assms(2,3)] that(2) by auto
  then have "live C' = A" using C'(2) n a(3) by (auto simp: same_links_def)
  then have "tb \<in> A" using C'(1) by (auto simp: live_iff)
  then show ?thesis using lookup_frame_blocks[OF f] a n by (simp add: new_block_def same_bytes_def)
next
  fix s1
  assume g: "tb_gen_code hm pg translate pc cs_base flags 0 (s\<lparr>tb_invalidated_flag := False\<rparr>) = Some (tb, s1)" and l: "lookup_frame s1 s'"
  note b = lookup_frame_blocks[OF l]
  have n: "nb_tbs s' = nb_tbs s1" and c: "tb_flush_count s' = tb_flush_count s1" "tb_invalidated_flag s' = tb_invalidated_flag s1"
    using l by (simp_all add: lookup_frame_def same_links_def)
  note p = tb_gen_code_placed[OF g assms(2,3)]
  have "new_block s s'" using p n c by (auto simp: new_block_def)
  moreover have "placed pg (tbs s' tb)" using p b by (simp add: placed_def)
  moreover have "tb \<notin> A \<and> (\<forall>i\<in>A. tbs s1 i = tbs s i)" if "\<not> tb_invalidated_flag s'"
  proof -
    have f: "tb = nb_tbs s" "\<And>i. i \<noteq> tb \<Longrightarrow> tbs s1 i = tbs s i" using p that c by auto
    obtain C J P where "link_inv s A J P" using assms(1) by (auto simp: cache_inv_def tb_inv_def)
    then have "A \<subseteq> {..<nb_tbs s}" by (rule link_inv_bound)
    then show ?thesis using f by auto
  qed
  ultimately show ?thesis using p b by simp
qed

section \<open>Memory, cache and host code\<close>

text \<open>\<^verbatim>\<open>gen\<close> is the translator on a view of guest memory, \<^verbatim>\<open>back\<close> what the host back end records for its
  result, \<^verbatim>\<open>accepted\<close> tells a finished translation from an aborted one.\<close>

record 'c translator =
  tr_gen :: "(u32 \<Rightarrow> u8) \<Rightarrow> u32 \<Rightarrow> u64 \<Rightarrow> 'c"
  tr_back :: "'c \<Rightarrow> translated"
  tr_accepted :: "'c \<Rightarrow> bool"

text \<open>\<^verbatim>\<open>cc_code\<close> is the host code of each block, at its \<^verbatim>\<open>tc_ptr\<close>.\<close>

record 'c code_cache =
  cc_mem :: "u64 \<Rightarrow> u8"
  cc_tb :: tb_state
  cc_code :: "nat \<Rightarrow> 'c"

definition code_now :: "'c translator \<Rightarrow> (u32 \<Rightarrow> u64) \<Rightarrow> (u64 \<Rightarrow> u8) \<Rightarrow> u32 \<Rightarrow> u64 \<Rightarrow> 'c" where
  "code_now T pg mem pc flags = tr_gen T (guest_load pg mem) pc flags"

definition mem_same :: "u64 set \<Rightarrow> (u64 \<Rightarrow> u8) \<Rightarrow> (u64 \<Rightarrow> u8) \<Rightarrow> bool" where
  "mem_same X m m' \<longleftrightarrow> (\<forall>a\<in>X. m' a = m a)"

text \<open>A lookup with the host code: a new block takes that of its translation, which must not have been aborted.\<close>

definition cache_lookup :: "host_memory \<Rightarrow> (u32 \<Rightarrow> u64) \<Rightarrow> 'c translator \<Rightarrow> u32 \<Rightarrow> u32 \<Rightarrow> u32 \<Rightarrow> u64 \<Rightarrow> 'c code_cache \<Rightarrow> (nat \<times> 'c code_cache) option" where
  "cache_lookup hm pg T mx pc cs_base flags s = do {
     (tb, t) \<leftarrow> tb_find_fast hm pg (\<lambda>pc fl. tr_back T (code_now T pg (cc_mem s) pc fl)) False mx pc cs_base flags (cc_tb s);
     let c = code_now T pg (cc_mem s) pc flags;
     if new_block (cc_tb s) t
     then (if tr_accepted T c then Some (tb, s\<lparr>cc_tb := t, cc_code := (cc_code s)(tb := c)\<rparr>) else None)
     else Some (tb, s\<lparr>cc_tb := t\<rparr>) }"

text \<open>The pages of a block at \<^verbatim>\<open>pc\<close> follow each other in memory.\<close>

definition contiguous :: "(u32 \<Rightarrow> u64) \<Rightarrow> u32 \<Rightarrow> bool" where
  "contiguous pg pc \<longleftrightarrow> pg ((pc AND TARGET_PAGE_MASK32) + 256) = pg pc + 256"

text \<open>The code of a block is that of memory that still agrees on the bytes of the block.\<close>

definition current :: "(u32 \<Rightarrow> u64) \<Rightarrow> 'c translator \<Rightarrow> (u64 \<Rightarrow> u8) \<Rightarrow> TranslationBlock \<Rightarrow> 'c \<Rightarrow> bool" where
  "current pg T mem b c \<longleftrightarrow> tr_accepted T c \<and> blk_size b = tr_size (tr_back T c) \<and> placed pg b \<and> contiguous pg (blk_pc b) \<and>
     (\<exists>mem0. c = code_now T pg mem0 (blk_pc b) (blk_flags b) \<and> mem_same (block_addrs b) mem0 mem)"

definition kept :: "(u32 \<Rightarrow> u64) \<Rightarrow> 'c translator \<Rightarrow> (u64 \<Rightarrow> u8) \<Rightarrow> TranslationBlock \<Rightarrow> 'c \<Rightarrow> bool" where
  "kept pg T mem b c \<longleftrightarrow> blk_dirty_flag b \<or> current pg T mem b c"

lemma current_cong:
  assumes "current pg T mem b c" "blk_pc b' = blk_pc b" "blk_size b' = blk_size b" "blk_flags b' = blk_flags b" "blk_page_addr b' = blk_page_addr b"
    "mem_same (block_addrs b) mem mem'"
  shows "current pg T mem' b' c"
proof -
  have "block_addrs b' = block_addrs b" using assms(2-5) by (simp add: block_addrs_def page_bytes_def)
  then show ?thesis using assms unfolding current_def placed_def mem_same_def by auto
qed

lemma kept_cong:
  assumes "kept pg T mem b c" "blk_pc b' = blk_pc b" "blk_size b' = blk_size b" "blk_flags b' = blk_flags b" "blk_page_addr b' = blk_page_addr b"
    "blk_dirty_flag b \<longrightarrow> blk_dirty_flag b'" "blk_dirty_flag b' \<or> mem_same (block_addrs b) mem mem'"
  shows "kept pg T mem' b' c"
  using assms(1) unfolding kept_def
proof
  assume "current pg T mem b c"
  from current_cong[OF this assms(2-5)] show "blk_dirty_flag b' \<or> current pg T mem' b' c" using assms(7) by blast
qed (use assms(6) in blast)

lemma mem_same_refl [simp]: "mem_same X m m"
  by (simp add: mem_same_def)

lemma current_straight: "current pg T mem b c \<Longrightarrow> straight b"
  by (simp add: current_def placed_def contiguous_def straight_def)

lemma coherent_keep:
  assumes "\<forall>i\<in>A. kept pg T mem (tbs t i) (hc i)" "A' \<subseteq> A" "same_bytes t t'" "\<And>i. i \<in> A' \<Longrightarrow> mem_same (block_addrs (tbs t i)) mem mem'"
  shows "\<forall>i\<in>A'. kept pg T mem' (tbs t' i) (hc i)"
proof
  fix i assume "i \<in> A'"
  then show "kept pg T mem' (tbs t' i) (hc i)"
  proof (intro kept_cong[of pg T mem "tbs t i" "hc i" "tbs t' i" mem'] disjI2 assms(4))
    show "kept pg T mem (tbs t i) (hc i)" using assms(1,2) \<open>i \<in> A'\<close> by blast
  qed (use assms(3) \<open>i \<in> A'\<close> in \<open>simp_all add: same_bytes_def\<close>)
qed

text \<open>A store marks the blocks whose code it makes stale.\<close>

lemma coherent_marked:
  assumes "\<forall>i\<in>A. kept pg T mem (tbs t i) (hc i)" "mem_same (- R) mem mem'"
    "\<forall>i\<in>A. straight (tbs t i) \<longrightarrow> block_addrs (tbs t i) \<inter> R \<noteq> {} \<longrightarrow> i \<in> M"
  shows "\<forall>i\<in>A. kept pg T mem' (tbs (mark_dirty M t) i) (hc i)"
proof
  fix i assume i: "i \<in> A"
  have k: "kept pg T mem (tbs t i) (hc i)" using assms(1) i by blast
  have "blk_dirty_flag (tbs (mark_dirty M t) i) \<or> mem_same (block_addrs (tbs t i)) mem mem'"
  proof (cases "blk_dirty_flag (tbs t i) \<or> i \<in> M")
    case False
    then have "straight (tbs t i)" using k current_straight by (auto simp: kept_def)
    then have "block_addrs (tbs t i) \<inter> R = {}" using False assms(3) i by blast
    then show ?thesis using assms(2) by (auto simp: mem_same_def)
  qed simp
  then show "kept pg T mem' (tbs (mark_dirty M t) i) (hc i)" using kept_cong[OF k] by simp
qed

text \<open>A lookup gives a block that is marked, or whose code is that of the memory now.\<close>

lemma lookup_current:
  assumes "cache_inv t A" "\<forall>i\<in>A. kept pg T mem (tbs t i) (hc i)" "page_map pg" "\<forall>c. unat (tr_size (tr_back T c)) \<le> 256"
    "tb_find_fast hm pg (\<lambda>pc fl. tr_back T (code_now T pg mem pc fl)) False mx pc cs_base flags t = Some (tb, t')"
    "new_block t t' \<longrightarrow> tr_accepted T (code_now T pg mem pc flags)" "contiguous pg pc"
  defines "hc' \<equiv> (if new_block t t' then hc(tb := code_now T pg mem pc flags) else hc)"
  shows "\<exists>A'. cache_inv t' A' \<and> tb \<in> A' \<and> (\<forall>i\<in>A'. kept pg T mem (tbs t' i) (hc' i)) \<and> blk_pc (tbs t' tb) = pc \<and> blk_flags (tbs t' tb) = flags \<and>
    (\<forall>i\<in>A'. \<not> (new_block t t' \<and> i = tb) \<longrightarrow> i \<in> A \<and> blk_page_addr (tbs t' i) = blk_page_addr (tbs t i)) \<and>
    (new_block t t' \<longrightarrow> placed pg (tbs t' tb))"
proof -
  let ?tr = "\<lambda>pc fl. tr_back T (code_now T pg mem pc fl)"
  have pg: "page_aligned pg" "pages_apart pg" using assms(3) by (simp_all add: page_map_def)
  show ?thesis
  proof (cases "tb_find_slow hm pg ?tr False mx pc cs_base flags t = Some (tb, t')")
    case False
    then have h: "tb_jmp_cache t (tb_jmp_cache_hash_func pc) = Some tb" "t' = t" "blk_pc (tbs t tb) = pc" "blk_flags (tbs t tb) = flags"
      using assms(5) by (auto simp: tb_find_fast_def Let_def split: option.splits if_splits)
    then have "tb \<in> A" using assms(1) by (auto simp: cache_inv_def tb_inv_def cache_wf_def live_iff)
    moreover have "hc' = hc" by (simp add: hc'_def new_block_def h(2))
    ultimately show ?thesis using assms(1,2) h by (intro exI[of _ A]) (simp add: new_block_def)
  next
    case slow: True
    let ?A = "insert tb (if tb_invalidated_flag t' then {} else A)"
    have inv: "cache_inv t' ?A" and m: "blk_pc (tbs t' tb) = pc" "blk_flags (tbs t' tb) = flags"
      using cache_inv_find_slow[OF assms(1) pg _ slow] assms(4) by (simp_all add: tb_matches_def)
    note b = tb_find_slow_blocks[OF assms(1) pg(1) _ slow]
    show ?thesis
    proof (cases "new_block t t'")
      case False
      then have s: "same_bytes t t'" "\<not> tb_invalidated_flag t'" "tb \<in> A" using b assms(4) by auto
      have "hc' = hc" using False by (simp add: hc'_def)
      then have "\<forall>i\<in>A. kept pg T mem (tbs t' i) (hc' i)" using coherent_keep[OF assms(2) subset_refl s(1)] by simp
      moreover have "?A = A" using s(2,3) by auto
      ultimately show ?thesis using inv m s(1,3) False by (intro exI[of _ A]) (auto simp: same_bytes_def)
    next
      case True
      then have n: "blk_size (tbs t' tb) = tr_size (?tr pc flags)" "placed pg (tbs t' tb)" using b assms(4) by auto
      have "current pg T mem (tbs t' tb) (hc' tb)"
        using n m assms(6,7) True mem_same_refl unfolding current_def hc'_def by (simp only: if_True fun_upd_same simp_thms) blast
      then have "kept pg T mem (tbs t' tb) (hc' tb)" by (simp add: kept_def)
      moreover have "kept pg T mem (tbs t' i) (hc' i)" if "i \<in> A" "\<not> tb_invalidated_flag t'" for i
      proof -
        have "tb \<notin> A" "blk_pc (tbs t' i) = blk_pc (tbs t i) \<and> blk_size (tbs t' i) = blk_size (tbs t i) \<and>
          blk_flags (tbs t' i) = blk_flags (tbs t i) \<and> blk_page_addr (tbs t' i) = blk_page_addr (tbs t i) \<and>
          blk_dirty_flag (tbs t' i) = blk_dirty_flag (tbs t i)"
          using b True that assms(4) by auto
        moreover have "hc' i = hc i" using calculation(1) that(1) by (auto simp: hc'_def)
        moreover have "kept pg T mem (tbs t i) (hc i)" using assms(2) that(1) by blast
        ultimately show ?thesis using kept_cong[of pg T mem "tbs t i" "hc i" "tbs t' i" mem] by simp
      qed
      moreover have "i \<in> A \<and> blk_page_addr (tbs t' i) = blk_page_addr (tbs t i)" if "i \<in> ?A" "i \<noteq> tb" for i
      proof -
        have "i \<in> A" "\<not> tb_invalidated_flag t'" using that by (simp_all split: if_splits)
        then show ?thesis using b True assms(4) by auto
      qed
      ultimately show ?thesis using inv m True n(2) by (intro exI[of _ ?A]) auto
    qed
  qed
qed

lemma cache_lookup_blocks:
  assumes "cache_inv (cc_tb s) A" "\<forall>i\<in>A. kept pg T (cc_mem s) (tbs (cc_tb s) i) (cc_code s i)" "page_map pg" "\<forall>c. unat (tr_size (tr_back T c)) \<le> 256"
    "cache_lookup hm pg T mx pc cs_base flags s = Some (tb, s')" "contiguous pg pc"
  shows "cc_mem s' = cc_mem s \<and> (\<exists>A'. cache_inv (cc_tb s') A' \<and> tb \<in> A' \<and> (\<forall>i\<in>A'. kept pg T (cc_mem s) (tbs (cc_tb s') i) (cc_code s' i)) \<and>
    blk_pc (tbs (cc_tb s') tb) = pc \<and> blk_flags (tbs (cc_tb s') tb) = flags \<and>
    (\<forall>i\<in>A'. \<not> (new_block (cc_tb s) (cc_tb s') \<and> i = tb) \<longrightarrow> i \<in> A \<and> blk_page_addr (tbs (cc_tb s') i) = blk_page_addr (tbs (cc_tb s) i)) \<and>
    (new_block (cc_tb s) (cc_tb s') \<longrightarrow> placed pg (tbs (cc_tb s') tb)))"
proof -
  let ?c = "code_now T pg (cc_mem s) pc flags"
  obtain t where t: "tb_find_fast hm pg (\<lambda>pc fl. tr_back T (code_now T pg (cc_mem s) pc fl)) False mx pc cs_base flags (cc_tb s) = Some (tb, t)"
    "new_block (cc_tb s) t \<longrightarrow> tr_accepted T ?c"
    "s' = s\<lparr>cc_tb := t, cc_code := (if new_block (cc_tb s) t then (cc_code s)(tb := ?c) else cc_code s)\<rparr>"
    using assms(5) by (auto simp: cache_lookup_def Let_def Option.bind_eq_Some_conv split: if_splits)
  have s': "cc_tb s' = t" "cc_code s' = (if new_block (cc_tb s) t then (cc_code s)(tb := ?c) else cc_code s)" "cc_mem s' = cc_mem s"
    by (simp_all add: t(3))
  from lookup_current[OF assms(1-4) t(1,2) assms(6)] show ?thesis unfolding s' by simp
qed

text \<open>Where the translator reads no other bytes than those of the block, the code found is that of translating now.\<close>

lemma current_code_now:
  assumes "current pg T mem b c" "page_map pg" "\<forall>c. unat (tr_size (tr_back T c)) \<le> 256"
    and local: "\<And>load load'. tr_accepted T (tr_gen T load (blk_pc b) (blk_flags b)) \<Longrightarrow>
      (\<And>j. j < unat (tr_size (tr_back T (tr_gen T load (blk_pc b) (blk_flags b)))) \<Longrightarrow> load' (blk_pc b + of_nat j) = load (blk_pc b + of_nat j)) \<Longrightarrow>
      tr_gen T load' (blk_pc b) (blk_flags b) = tr_gen T load (blk_pc b) (blk_flags b)"
  shows "c = code_now T pg mem (blk_pc b) (blk_flags b)"
proof -
  obtain mem0 where c: "tr_accepted T c" "blk_size b = tr_size (tr_back T c)" "placed pg b"
    "c = tr_gen T (guest_load pg mem0) (blk_pc b) (blk_flags b)" "mem_same (block_addrs b) mem0 mem"
    using assms(1) by (auto simp: current_def code_now_def)
  have s: "unat (blk_size b) \<le> 256" using c(2) assms(3) by simp
  have "guest_load pg mem (blk_pc b + of_nat j) = guest_load pg mem0 (blk_pc b + of_nat j)" if "j < unat (blk_size b)" for j
    using guest_load_block[OF assms(2) c(3) s that] c(5) by (auto simp: mem_same_def)
  then show ?thesis using local[of "guest_load pg mem0" "guest_load pg mem"] c(1,2,4) by (simp add: code_now_def)
qed

end
