(* ===== verification/TLB.thy ===== *)
theory TLB
  imports TB_Coherent
begin

text \<open>The translation lookaside buffer of \<^verbatim>\<open>src/exec.c\<close> and the map of physical pages behind it: filling, flushing and
  protecting entries, mapping and unmapping guest memory, and \<^verbatim>\<open>get_page_addr_code\<close> of
  \<^verbatim>\<open>src/include/exec-all.h\<close>. The RL78 has no MMU and its RAM is mapped at equal offsets, so the page of
  code that the TLB gives is the page of the address; this is the address translation the cache of blocks works with.\<close>

section \<open>The map of physical pages\<close>

record PhysPageDesc =
  phys_offset :: u64
  region_offset :: u64
  pd_dirty :: bool
  executable_io_mem :: bool
  external_permissions :: bool

definition IO_MEM_RAM :: u64 where "IO_MEM_RAM = 0"
definition IO_MEM_ROM :: u64 where "IO_MEM_ROM = 8"
definition IO_MEM_UNASSIGNED :: u64 where "IO_MEM_UNASSIGNED = 16"
definition IO_MEM_NOTDIRTY :: u64 where "IO_MEM_NOTDIRTY = 24"
definition IO_MEM_ROMD :: u64 where "IO_MEM_ROMD = 1"

text \<open>20 address bits give 12 bits of first level, each with its own 1024 descriptors.\<close>

type_synonym phys_map = "nat \<Rightarrow> (nat \<Rightarrow> PhysPageDesc) option"

definition phys_page_find :: "u32 \<Rightarrow> phys_map \<Rightarrow> PhysPageDesc option" where
  "phys_page_find index m = map_option (\<lambda>pd. pd (unat (index AND 0x3FF))) (m (unat (index AND 0xFFF)))"

definition phys_page_find_alloc :: "u32 \<Rightarrow> phys_map \<Rightarrow> phys_map" where
  "phys_page_find_alloc index m =
     (case m (unat (index AND 0xFFF)) of
        Some pd \<Rightarrow> m
      | None \<Rightarrow>
          let aligned_index = index AND NOT 0x3FF
          in m(unat (index AND 0xFFF) \<mapsto> (\<lambda>i. \<lparr>phys_offset = IO_MEM_UNASSIGNED, region_offset = ucast (push_bit 8 (aligned_index + of_nat i)),
               pd_dirty = False, executable_io_mem = False, external_permissions = False\<rparr>)))"

definition phys_page_upd :: "u32 \<Rightarrow> (PhysPageDesc \<Rightarrow> PhysPageDesc) \<Rightarrow> phys_map \<Rightarrow> phys_map" where
  "phys_page_upd index f m =
     (case m (unat (index AND 0xFFF)) of
        None \<Rightarrow> m
      | Some pd \<Rightarrow> m(unat (index AND 0xFFF) \<mapsto> pd(unat (index AND 0x3FF) := f (pd (unat (index AND 0x3FF))))))"

text \<open>The flags of a page allocated are those given, dirty here.\<close>

definition phys_page_alloc :: "u32 \<Rightarrow> bool \<Rightarrow> phys_map \<Rightarrow> phys_map" where
  "phys_page_alloc index dirty m =
     phys_page_upd index (\<lambda>p. p\<lparr>pd_dirty := dirty, executable_io_mem := False, external_permissions := False\<rparr>) (phys_page_find_alloc index m)"

section \<open>The buffer\<close>

record CPUTLBEntry =
  addr_read :: u32
  addr_write :: u32
  addr_code :: u32
  te_addend :: u64

record tlb_env =
  tlb_table :: "nat \<Rightarrow> nat \<Rightarrow> CPUTLBEntry"
  iotlb :: "nat \<Rightarrow> nat \<Rightarrow> u32"
  tlb_flush_addr :: u32
  tlb_flush_mask :: u32
  tlb_jmp_cache :: "nat \<Rightarrow> nat option"
  tlb_current_tb :: "nat option"
  io_access_regions :: "u32 list"

definition TLB_ONE_SHOT :: u32 where "TLB_ONE_SHOT = 4"
definition TLB_INVALID_MASK :: u32 where "TLB_INVALID_MASK = 8"
definition TLB_NOTDIRTY :: u32 where "TLB_NOTDIRTY = 0x10"
definition TLB_MMIO :: u32 where "TLB_MMIO = 0x20"
definition NB_MMU_MODES :: nat where "NB_MMU_MODES = 1"

definition s_cputlb_empty_entry :: CPUTLBEntry where
  "s_cputlb_empty_entry = \<lparr>addr_read = - 1, addr_write = - 1, addr_code = - 1, te_addend = - 1\<rparr>"

definition tlb_index :: "u32 \<Rightarrow> nat" where
  "tlb_index addr = unat (drop_bit 8 addr AND 0xFF)"

definition set_entry :: "nat \<Rightarrow> nat \<Rightarrow> CPUTLBEntry \<Rightarrow> tlb_env \<Rightarrow> tlb_env" where
  "set_entry mmu_idx i e t = t\<lparr>tlb_table := (tlb_table t)(mmu_idx := (tlb_table t mmu_idx)(i := e))\<rparr>"

section \<open>Flushing\<close>

definition tb_jmp_cache_hash_page :: "u32 \<Rightarrow> nat" where
  "tb_jmp_cache_hash_page pc = (let tmp = pc XOR drop_bit (8 - 6) pc in unat (drop_bit (8 - 6) tmp AND 0xFC0))"

definition clear_jmp_page :: "nat \<Rightarrow> (nat \<Rightarrow> nat option) \<Rightarrow> nat \<Rightarrow> nat option" where
  "clear_jmp_page i c = (\<lambda>j. if i \<le> j \<and> j < i + 64 then None else c j)"

definition tlb_flush_jmp_cache :: "u32 \<Rightarrow> tlb_env \<Rightarrow> tlb_env" where
  "tlb_flush_jmp_cache addr t =
     t\<lparr>tlb_jmp_cache := clear_jmp_page (tb_jmp_cache_hash_page addr) (clear_jmp_page (tb_jmp_cache_hash_page (addr - 256)) (tlb_jmp_cache t))\<rparr>"

definition tlb_flush :: "bool \<Rightarrow> tlb_env \<Rightarrow> tlb_env" where
  "tlb_flush from_generated_code t =
     t\<lparr>tlb_current_tb := (if from_generated_code then tlb_current_tb t else None), tlb_table := (\<lambda>_ _. s_cputlb_empty_entry),
       tlb_jmp_cache := (\<lambda>_. None), tlb_flush_addr := - 1, tlb_flush_mask := 0\<rparr>"

definition entry_tag :: "u32 \<Rightarrow> u32" where
  "entry_tag a = a AND (TARGET_PAGE_MASK32 OR TLB_INVALID_MASK)"

definition tlb_flush_entry :: "u32 \<Rightarrow> CPUTLBEntry \<Rightarrow> CPUTLBEntry" where
  "tlb_flush_entry addr e =
     (if addr = entry_tag (addr_read e) \<or> addr = entry_tag (addr_write e) \<or> addr = entry_tag (addr_code e) then s_cputlb_empty_entry else e)"

text \<open>The modes of a mask; there is one mode.\<close>

definition tlb_flush_masked :: "u32 \<Rightarrow> tlb_env \<Rightarrow> tlb_env" where
  "tlb_flush_masked mmu_indexes_mask t =
     t\<lparr>tlb_current_tb := None, tlb_table := (\<lambda>m. if m < NB_MMU_MODES \<and> bit mmu_indexes_mask m then (\<lambda>_. s_cputlb_empty_entry) else tlb_table t m),
       tlb_jmp_cache := (\<lambda>_. None)\<rparr>"

definition tlb_flush_page_masked :: "u32 \<Rightarrow> u32 \<Rightarrow> bool \<Rightarrow> tlb_env \<Rightarrow> tlb_env" where
  "tlb_flush_page_masked addr mmu_indexes_mask from_generated_code t =
     (if addr AND tlb_flush_mask t = tlb_flush_addr t then tlb_flush False t
      else let t1 = t\<lparr>tlb_current_tb := (if from_generated_code then tlb_current_tb t else None)\<rparr>;
               page = addr AND TARGET_PAGE_MASK32;
               i = tlb_index page;
               t2 = t1\<lparr>tlb_table := (\<lambda>m. if m < NB_MMU_MODES \<and> bit mmu_indexes_mask m
                      then (tlb_table t1 m)(i := tlb_flush_entry page (tlb_table t1 m i)) else tlb_table t1 m)\<rparr>
           in tlb_flush_jmp_cache page t2)"

definition tlb_flush_page :: "u32 \<Rightarrow> bool \<Rightarrow> tlb_env \<Rightarrow> tlb_env" where
  "tlb_flush_page addr from_generated_code t = tlb_flush_page_masked addr (- 1) from_generated_code t"

section \<open>Pages with accesses to be reported\<close>

function io_search :: "u32 \<Rightarrow> u32 \<Rightarrow> u32 list \<Rightarrow> int \<Rightarrow> int \<Rightarrow> bool" where
  "io_search vaddr page_address regions m_min m_max =
     (if m_min \<le> m_max
      then let m = (m_min + m_max) div 2; v = regions ! nat m
           in if v = page_address then True
              else if vaddr < v then io_search vaddr page_address regions m_min (m - 1)
              else io_search vaddr page_address regions (m + 1) m_max
      else False)"
  by pat_completeness auto
termination by (relation "measure (\<lambda>(_, _, _, lo, hi). nat (hi + 1 - lo))") auto

declare io_search.simps [simp del]

definition is_io_accessed :: "u32 \<Rightarrow> tlb_env \<Rightarrow> bool" where
  "is_io_accessed vaddr t =
     io_search vaddr (vaddr AND TARGET_PAGE_MASK32) (io_access_regions t) 0 (int (length (io_access_regions t)) - 1)"

definition MAX_IO_ACCESS_REGIONS_COUNT :: nat where "MAX_IO_ACCESS_REGIONS_COUNT = 1024"

text \<open>The sorted list with a page added; None when it is there already.\<close>

fun io_insert :: "u32 \<Rightarrow> u32 list \<Rightarrow> u32 list option" where
  "io_insert page [] = Some [page]"
| "io_insert page (r # rs) = (if r = page then None else if page < r then Some (page # r # rs) else map_option ((#) r) (io_insert page rs))"

text \<open>None is the abort on a full list.\<close>

definition tlib_set_page_io_accessed :: "u64 \<Rightarrow> tlb_env \<Rightarrow> tlb_env option" where
  "tlib_set_page_io_accessed address t =
     (if length (io_access_regions t) = MAX_IO_ACCESS_REGIONS_COUNT then None
      else case io_insert (ucast address AND TARGET_PAGE_MASK32) (io_access_regions t) of
             None \<Rightarrow> Some t
           | Some rs \<Rightarrow> Some (tlb_flush_page (ucast address) False (t\<lparr>io_access_regions := rs\<rparr>)))"

definition tlib_clear_page_io_accessed :: "u64 \<Rightarrow> tlb_env \<Rightarrow> tlb_env" where
  "tlib_clear_page_io_accessed address t =
     (let page = ucast address AND TARGET_PAGE_MASK32
      in if page \<notin> set (io_access_regions t) then t
         else tlb_flush_page (ucast address) False (t\<lparr>io_access_regions := remove1 page (io_access_regions t)\<rparr>))"

section \<open>Filling\<close>

text \<open>At most 32 shifts empty the mask.\<close>

primrec widen_mask :: "nat \<Rightarrow> u32 \<Rightarrow> u32 \<Rightarrow> u32" where
  "widen_mask 0 difference msk = msk"
| "widen_mask (Suc n) difference msk = (if difference AND msk \<noteq> 0 then widen_mask n difference (push_bit 1 msk) else msk)"

definition tlb_add_large_page :: "u32 \<Rightarrow> u32 \<Rightarrow> tlb_env \<Rightarrow> tlb_env" where
  "tlb_add_large_page vaddr sz t =
     (let msk = NOT (sz - 1)
      in if tlb_flush_addr t = - 1 then t\<lparr>tlb_flush_addr := vaddr AND msk, tlb_flush_mask := msk\<rparr>
         else let msk2 = widen_mask 32 (tlb_flush_addr t XOR vaddr) (msk AND tlb_flush_mask t)
              in t\<lparr>tlb_flush_addr := tlb_flush_addr t AND msk2, tlb_flush_mask := msk2\<rparr>)"

definition PAGE_READ :: u32 where "PAGE_READ = 1"
definition PAGE_WRITE :: u32 where "PAGE_WRITE = 2"
definition PAGE_EXEC :: u32 where "PAGE_EXEC = 4"

text \<open>\<^verbatim>\<open>host_ptr\<close> is \<^verbatim>\<open>tlib_guest_offset_to_host_ptr\<close>, \<^verbatim>\<open>allowed\<close> is \<^verbatim>\<open>tlib_check_external_permissions\<close>.\<close>

definition tlb_set_page :: "(u64 \<Rightarrow> u64) \<Rightarrow> (u32 \<Rightarrow> bool) \<Rightarrow> phys_map \<Rightarrow> u32 \<Rightarrow> u32 \<Rightarrow> u32 \<Rightarrow> nat \<Rightarrow> u32 \<Rightarrow> tlb_env \<Rightarrow> tlb_env" where
  "tlb_set_page host_ptr allowed m vaddr paddr prot mmu_idx sz t =
     (let address0 = (if sz < 256 then vaddr OR TLB_ONE_SHOT else vaddr);
          sz1 = (if sz < 256 then 256 else sz);
          t1 = (if sz1 \<noteq> 256 then tlb_add_large_page vaddr sz1 t else t);
          p = phys_page_find (drop_bit 8 paddr) m;
          pd = (case p of
              None \<Rightarrow> IO_MEM_UNASSIGNED
            | Some d \<Rightarrow> if external_permissions d \<and> \<not> allowed vaddr then IO_MEM_UNASSIGNED
                else if executable_io_mem d then (phys_offset d AND NOT (mask 8)) OR IO_MEM_EXECUTABLE_IO
                else phys_offset d);
          kind = pd AND mask 8;
          exec_io = (pd AND IO_MEM_EXECUTABLE_IO \<noteq> 0);
          romd = (pd AND IO_MEM_ROMD \<noteq> 0);
          io = (IO_MEM_ROM < kind \<and> \<not> romd);
          address1 = (if io then (address0 OR TLB_MMIO) OR (if exec_io then ucast IO_MEM_EXECUTABLE_IO else 0) else address0);
          addend = (if io then 0 else host_ptr (pd AND NOT (mask 8)));
          iotlb0 = (if kind \<le> IO_MEM_ROM \<and> \<not> exec_io
                    then ucast ((pd AND NOT (mask 8)) OR (if kind = IO_MEM_RAM then IO_MEM_NOTDIRTY else IO_MEM_ROM))
                    else ucast kind + (case p of Some d \<Rightarrow> if exec_io then paddr else ucast (region_offset d) | None \<Rightarrow> paddr)) :: u32;
          iotlb1 = (if is_io_accessed vaddr t1 then paddr else iotlb0);
          address2 = (if is_io_accessed vaddr t1 then address1 OR TLB_MMIO else address1);
          i = tlb_index vaddr;
          clean = (case p of Some d \<Rightarrow> \<not> pd_dirty d | None \<Rightarrow> False)
      in set_entry mmu_idx i
           \<lparr>addr_read = (if prot AND PAGE_READ \<noteq> 0 then address2 else - 1),
             addr_write = (if prot AND PAGE_WRITE = 0 then - 1
                           else if kind = IO_MEM_ROM \<or> romd then address2 OR TLB_MMIO
                           else if kind = IO_MEM_RAM \<and> clean then address2 OR TLB_NOTDIRTY
                           else address2),
             addr_code = (if prot AND PAGE_EXEC \<noteq> 0 then address1 else - 1),
             te_addend = addend - ucast vaddr\<rparr>
           (t1\<lparr>iotlb := (iotlb t1)(mmu_idx := (iotlb t1 mmu_idx)(i := iotlb1 - vaddr))\<rparr>))"

text \<open>Without an external MMU.\<close>

definition tlb_fill :: "(u64 \<Rightarrow> u64) \<Rightarrow> (u32 \<Rightarrow> bool) \<Rightarrow> phys_map \<Rightarrow> u32 \<Rightarrow> nat \<Rightarrow> tlb_env \<Rightarrow> tlb_env" where
  "tlb_fill host_ptr allowed m addr mmu_idx t =
     (case arch_tlb_fill addr of
        ((vaddr, vpaddr), paddr) \<Rightarrow> tlb_set_page host_ptr allowed m vaddr vpaddr (PAGE_READ OR PAGE_WRITE OR PAGE_EXEC) mmu_idx 256 t)"

text \<open>None is \<^verbatim>\<open>cpu_abort\<close>: code outside RAM and ROM. The byte load that maps a page is its fill.\<close>

definition get_page_addr_code :: "(u64 \<Rightarrow> u64) \<Rightarrow> (u32 \<Rightarrow> bool) \<Rightarrow> phys_map \<Rightarrow> u32 \<Rightarrow> bool \<Rightarrow> tlb_env \<Rightarrow> (u64 \<times> tlb_env) option" where
  "get_page_addr_code host_ptr allowed m addr map_when_needed t =
     (let page_addr = addr AND TARGET_PAGE_MASK32;
          page_index = tlb_index addr;
          code0 = addr_code (tlb_table t 0 page_index);
          code1 = (if code0 AND ucast IO_MEM_EXECUTABLE_IO \<noteq> 0 \<and> code0 \<noteq> - 1
                   then code0 AND NOT (ucast IO_MEM_EXECUTABLE_IO OR TLB_MMIO) else code0)
      in if code1 \<noteq> page_addr \<and> \<not> map_when_needed then Some (- 1, t)
         else let t1 = (if code1 \<noteq> page_addr then tlb_fill host_ptr allowed m addr 0 t else t);
                  pd = ucast (addr_code (tlb_table t1 0 page_index)) AND mask 8 :: u64
              in if IO_MEM_ROM < pd \<and> pd AND IO_MEM_ROMD = 0 \<and> pd AND IO_MEM_EXECUTABLE_IO = 0 then None
                 else Some (ucast (page_addr + iotlb t1 0 page_index) AND NOT (mask 8), t1))"

section \<open>Protecting code\<close>

definition tlb_reset_dirty_range :: "u64 \<Rightarrow> u64 \<Rightarrow> CPUTLBEntry \<Rightarrow> CPUTLBEntry" where
  "tlb_reset_dirty_range start len e =
     (let addr_type = ucast (addr_write e) AND mask 8 :: u64
      in if addr_type = IO_MEM_RAM \<or> addr_type = IO_MEM_EXECUTABLE_IO
         then let addr = (ucast (addr_write e) AND NOT (mask 8)) + te_addend e
              in if addr - start < len then e\<lparr>addr_write := (addr_write e AND TARGET_PAGE_MASK32) OR TLB_NOTDIRTY\<rparr> else e
         else e)"

definition tlb_protect_code :: "(u64 \<Rightarrow> u64) \<Rightarrow> u64 \<Rightarrow> phys_map \<times> tlb_env \<Rightarrow> phys_map \<times> tlb_env" where
  "tlb_protect_code host_ptr ram_addr x = (case x of (m, t) \<Rightarrow>
     let index = ucast (drop_bit 8 ram_addr);
         is_mapped = (case phys_page_find index m of None \<Rightarrow> True | Some d \<Rightarrow> \<not> executable_io_mem d);
         m1 = phys_page_upd index (\<lambda>d. d\<lparr>pd_dirty := False\<rparr>) m;
         start1 = (if is_mapped then host_ptr ram_addr else ram_addr)
     in (m1, t\<lparr>tlb_table := (\<lambda>k. if k < NB_MMU_MODES then (\<lambda>i. tlb_reset_dirty_range start1 256 (tlb_table t k i)) else tlb_table t k)\<rparr>))"

definition tlb_unprotect_code_phys :: "u64 \<Rightarrow> phys_map \<Rightarrow> phys_map option" where
  "tlb_unprotect_code_phys ram_addr m =
     (case phys_page_find (ucast (drop_bit 8 ram_addr)) m of
        None \<Rightarrow> None
      | Some d \<Rightarrow> Some (phys_page_upd (ucast (drop_bit 8 ram_addr)) (\<lambda>d. d\<lparr>pd_dirty := True\<rparr>) m))"

definition tlb_set_dirty1 :: "u32 \<Rightarrow> CPUTLBEntry \<Rightarrow> CPUTLBEntry" where
  "tlb_set_dirty1 vaddr e = (if addr_write e = vaddr OR TLB_NOTDIRTY then e\<lparr>addr_write := vaddr\<rparr> else e)"

definition tlb_set_dirty :: "u32 \<Rightarrow> tlb_env \<Rightarrow> tlb_env" where
  "tlb_set_dirty vaddr t =
     (let page = vaddr AND TARGET_PAGE_MASK32; i = tlb_index page
      in t\<lparr>tlb_table := (\<lambda>k. if k < NB_MMU_MODES then (tlb_table t k)(i := tlb_set_dirty1 page (tlb_table t k i)) else tlb_table t k)\<rparr>)"

section \<open>Mapping\<close>

partial_function (option) register_loop :: "u32 \<Rightarrow> u32 \<Rightarrow> u64 \<Rightarrow> u64 \<Rightarrow> phys_map \<Rightarrow> phys_map option" where
  "register_loop addr end_addr offset region m =
     (let index = drop_bit 8 addr;
          known = (case phys_page_find index m of None \<Rightarrow> False | Some p \<Rightarrow> phys_offset p \<noteq> IO_MEM_UNASSIGNED);
          m1 = (if known then phys_page_upd index (\<lambda>p. p\<lparr>phys_offset := offset, pd_dirty := True\<rparr>) m
                else phys_page_upd index (\<lambda>p. p\<lparr>phys_offset := offset, region_offset := region\<rparr>) (phys_page_alloc index True m));
          offset1 = (if offset AND mask 8 \<le> IO_MEM_ROM \<or> offset AND IO_MEM_ROMD \<noteq> 0 then offset + 256 else offset);
          addr1 = addr + 256
      in if addr1 \<noteq> end_addr then register_loop addr1 end_addr offset1 (region + 256) m1 else Some m1)"

text \<open>None is the failed assertion that there is something to map.\<close>

definition cpu_register_physical_memory_log :: "u32 \<Rightarrow> u64 \<Rightarrow> u64 \<Rightarrow> u64 \<Rightarrow> phys_map \<times> tlb_env \<Rightarrow> (phys_map \<times> tlb_env) option" where
  "cpu_register_physical_memory_log start_addr sz offset region x = (case x of (m, t) \<Rightarrow>
     if sz = 0 then None
     else let region1 = (if offset = IO_MEM_UNASSIGNED then ucast start_addr else region) AND NOT (mask 8);
              sz1 = (sz + 255) AND NOT (mask 8);
              end_addr = start_addr + ucast sz1
          in do { m1 \<leftarrow> register_loop start_addr end_addr offset region1 m; Some (m1, tlb_flush False t) })"

definition tlib_map_range :: "u64 \<Rightarrow> u64 \<Rightarrow> phys_map \<times> tlb_env \<Rightarrow> (phys_map \<times> tlb_env) option" where
  "tlib_map_range start_addr len x = cpu_register_physical_memory_log (ucast start_addr) len (start_addr OR IO_MEM_RAM) 0 x"

definition unmap_page :: "u32 \<Rightarrow> phys_map \<times> tlb_env \<Rightarrow> phys_map \<times> tlb_env" where
  "unmap_page address x = (case x of (m, t) \<Rightarrow>
     case phys_page_find (drop_bit 8 address) m of
       None \<Rightarrow> (m, t)
     | Some p \<Rightarrow>
         (if phys_offset p \<noteq> IO_MEM_UNASSIGNED
          then phys_page_upd (drop_bit 8 address) (\<lambda>p. p\<lparr>region_offset := phys_offset p, phys_offset := IO_MEM_UNASSIGNED\<rparr>) m else m,
          tlb_flush_page address False t))"

end
