(* ===== verification/TLB_Code.thy ===== *)
theory TLB_Code
  imports TLB
begin

text \<open>What the lookaside buffer promises: a flushed page is forgotten with the blocks the cache of virtual addresses has
  on it, the search of the reported pages finds exactly these, and whatever was filled, flushed, protected, mapped
  and unmapped, the page of code it gives is the page of the address.\<close>

section \<open>Bits\<close>

lemma bit_page_mask [simp]: "bit TARGET_PAGE_MASK32 n \<longleftrightarrow> 8 \<le> n \<and> n < 32"
  by (auto simp: TARGET_PAGE_MASK32_def bit_not_iff bit_mask_iff)

lemma tlb_index_page [simp]: "tlb_index (a AND TARGET_PAGE_MASK32) = tlb_index a"
proof -
  have "drop_bit 8 (a AND TARGET_PAGE_MASK32) = drop_bit 8 a"
    by (rule bit_word_eqI) (auto simp: bit_drop_bit_eq bit_and_iff dest: bit_imp_le_length)
  then show ?thesis by (simp add: tlb_index_def)
qed

text \<open>The entries of the blocks of a page are next to each other in the cache of virtual addresses.\<close>

lemma hash_of_page:
  assumes "pc AND TARGET_PAGE_MASK32 = page"
  shows "tb_jmp_cache_hash_page page \<le> tb_jmp_cache_hash_func pc \<and> tb_jmp_cache_hash_func pc < tb_jmp_cache_hash_page page + 64"
proof -
  define A where "A = (drop_bit 2 (pc XOR drop_bit 2 pc) AND 0xFC0 :: u32)"
  define B where "B = ((pc XOR drop_bit 2 pc) AND 0x3F :: u32)"
  have c: "(0xFC0 :: u32) = push_bit 6 (mask 6)" "(0x3F :: u32) = mask 6" by (simp_all add: mask_eq_exp_minus_1 push_bit_eq_mult)
  have bA: "bit A n \<longleftrightarrow> bit (drop_bit 2 (pc XOR drop_bit 2 pc)) n \<and> 6 \<le> n \<and> n < 12" for n
    unfolding A_def c by (auto simp: bit_and_iff bit_push_bit_iff bit_mask_iff)
  have bB: "bit B n \<longleftrightarrow> bit (pc XOR drop_bit 2 pc) n \<and> n < 6" for n unfolding B_def c by (auto simp: bit_and_iff bit_mask_iff)
  have s: "A OR B = A + B" by (rule disjunctive_add[symmetric]) (auto simp: bA bB)
  have "A \<le> 0xFC0" unfolding A_def by (rule word_and_le1)
  moreover have "B \<le> 0x3F" unfolding B_def by (rule word_and_le1)
  ultimately have u: "unat A \<le> 0xFC0" "unat B \<le> 0x3F" by (simp_all add: word_le_nat_alt)
  have "tb_jmp_cache_hash_func pc = unat (A OR B)" by (simp add: tb_jmp_cache_hash_func_def A_def B_def)
  then have f: "tb_jmp_cache_hash_func pc = unat A + unat B" using u by (simp add: s unat_word_ariths(1))
  have "drop_bit 2 (page XOR drop_bit 2 page) AND 0xFC0 = A"
    unfolding A_def c using assms
    by (intro bit_word_eqI) (auto simp: bit_and_iff bit_push_bit_iff bit_mask_iff bit_drop_bit_eq bit_xor_iff dest: bit_imp_le_length)
  then have "tb_jmp_cache_hash_page page = unat A" by (simp add: tb_jmp_cache_hash_page_def)
  then show ?thesis using f u by simp
qed

section \<open>Flushing a page\<close>

definition misses :: "CPUTLBEntry \<Rightarrow> u32 \<Rightarrow> bool" where
  "misses e page \<longleftrightarrow> page \<noteq> entry_tag (addr_read e) \<and> page \<noteq> entry_tag (addr_write e) \<and> page \<noteq> entry_tag (addr_code e)"

lemma empty_misses: "misses s_cputlb_empty_entry (a AND TARGET_PAGE_MASK32)"
proof -
  have "bit (entry_tag (- 1)) 3"
  proof -
    have "TLB_INVALID_MASK = 2 ^ 3" by (simp add: TLB_INVALID_MASK_def)
    then have "bit TLB_INVALID_MASK 3 = bit (2 ^ 3 :: u32) 3" by simp
    then have "bit TLB_INVALID_MASK 3" unfolding bit_exp_iff by simp
    then show ?thesis by (simp add: entry_tag_def bit_or_iff)
  qed
  moreover have "\<not> bit (a AND TARGET_PAGE_MASK32) 3" by (simp add: bit_and_iff)
  ultimately have "a AND TARGET_PAGE_MASK32 \<noteq> entry_tag (- 1)" by metis
  then show ?thesis by (simp add: misses_def s_cputlb_empty_entry_def)
qed

lemma flush_entry_misses: "misses (tlb_flush_entry (a AND TARGET_PAGE_MASK32) e) (a AND TARGET_PAGE_MASK32)"
  using empty_misses by (auto simp: tlb_flush_entry_def misses_def)

lemma tlb_flush_page_forgets:
  "misses (tlb_table (tlb_flush_page addr g t) 0 (tlb_index addr)) (addr AND TARGET_PAGE_MASK32) \<and>
   (\<forall>pc. pc AND TARGET_PAGE_MASK32 = addr AND TARGET_PAGE_MASK32 \<or> pc AND TARGET_PAGE_MASK32 = (addr AND TARGET_PAGE_MASK32) - 256 \<longrightarrow>
     tlb_jmp_cache (tlb_flush_page addr g t) (tb_jmp_cache_hash_func pc) = None)"
proof (cases "addr AND tlb_flush_mask t = tlb_flush_addr t")
  case True
  then have "tlb_flush_page addr g t = tlb_flush False t" by (simp add: tlb_flush_page_def tlb_flush_page_masked_def)
  then show ?thesis using empty_misses by (simp add: tlb_flush_def)
next
  case False
  then have f: "tlb_table (tlb_flush_page addr g t) 0 (tlb_index addr) = tlb_flush_entry (addr AND TARGET_PAGE_MASK32) (tlb_table t 0 (tlb_index addr))"
    "tlb_jmp_cache (tlb_flush_page addr g t) = clear_jmp_page (tb_jmp_cache_hash_page (addr AND TARGET_PAGE_MASK32))
      (clear_jmp_page (tb_jmp_cache_hash_page ((addr AND TARGET_PAGE_MASK32) - 256)) (tlb_jmp_cache t))"
    by (simp_all add: tlb_flush_page_def tlb_flush_page_masked_def tlb_flush_jmp_cache_def NB_MMU_MODES_def Let_def)
  have "clear_jmp_page (tb_jmp_cache_hash_page page) c (tb_jmp_cache_hash_func pc) = None" if "pc AND TARGET_PAGE_MASK32 = page" for pc page c
    using hash_of_page[OF that] by (simp add: clear_jmp_page_def)
  moreover have "clear_jmp_page i c j = None" if "c j = None" for i c j using that by (simp add: clear_jmp_page_def)
  ultimately show ?thesis using f flush_entry_misses by metis
qed

section \<open>The search of reported pages\<close>

lemma page_floor:
  assumes "r AND TARGET_PAGE_MASK32 = r" "r \<le> v"
  shows "r \<le> v AND TARGET_PAGE_MASK32"
proof -
  have "unat r = unat r div 256 * 256" using page_base_nat[of r] assms(1) by simp
  moreover have "unat r div 256 \<le> unat v div 256" using assms(2) by (simp add: word_le_nat_alt div_le_mono)
  ultimately show ?thesis by (simp add: word_le_nat_alt page_base_nat)
qed

lemma restrict_ex:
  assumes "\<And>i. lo \<le> int i \<Longrightarrow> int i \<le> hi \<Longrightarrow> P i \<Longrightarrow> lo' \<le> int i \<and> int i \<le> hi'" "\<And>i. lo' \<le> int i \<Longrightarrow> int i \<le> hi' \<Longrightarrow> lo \<le> int i \<and> int i \<le> hi"
  shows "(\<exists>i. lo \<le> int i \<and> int i \<le> hi \<and> P i) \<longleftrightarrow> (\<exists>i. lo' \<le> int i \<and> int i \<le> hi' \<and> P i)"
  using assms by blast

lemma io_search_iff:
  assumes "sorted_wrt (<) rs" "\<forall>r\<in>set rs. r AND TARGET_PAGE_MASK32 = r" "0 \<le> lo" "hi < int (length rs)" "page = v AND TARGET_PAGE_MASK32"
  shows "io_search v page rs lo hi \<longleftrightarrow> (\<exists>i. lo \<le> int i \<and> int i \<le> hi \<and> rs ! i = page)"
  using assms
proof (induction v page rs lo hi rule: io_search.induct)
  case (1 v page rs lo hi)
  define m where "m = (lo + hi) div 2"
  show ?case
  proof (cases "lo \<le> hi")
    case True
    then have m: "lo \<le> m" "m \<le> hi" "0 \<le> m" "nat m < length rs" using "1.prems"(3,4) by (simp_all add: m_def)
    let ?r = "rs ! nat m"
    have lt: "rs ! i < rs ! j" if "i < j" "j < length rs" for i j using sorted_wrt_nth_less[OF "1.prems"(1) that] .
    have al: "?r AND TARGET_PAGE_MASK32 = ?r" using "1.prems"(2) m(4) by simp
    consider "?r = page" | "?r \<noteq> page" "v < ?r" | "?r \<noteq> page" "\<not> v < ?r" by blast
    then show ?thesis
    proof cases
      case 1
      then show ?thesis using m True by (subst io_search.simps) (auto simp: m_def[symmetric] Let_def intro!: exI[of _ "nat m"])
    next
      case 2
      have ne: "rs ! i \<noteq> page" if "m \<le> int i" "int i \<le> hi" for i
      proof -
        have "nat m \<le> i" "i < length rs" using that m(3) "1.prems"(4) by linarith+
        then have "?r \<le> rs ! i" using lt[of "nat m" i] by (cases "nat m = i") simp_all
        moreover have "page \<le> v" unfolding "1.prems"(5) by (rule word_and_le2)
        ultimately show ?thesis using 2(2) by auto
      qed
      have "(\<exists>i. lo \<le> int i \<and> int i \<le> hi \<and> rs ! i = page) \<longleftrightarrow> (\<exists>i. lo \<le> int i \<and> int i \<le> m - 1 \<and> rs ! i = page)"
        by (rule restrict_ex) (use ne m(2) in force)+
      moreover have "io_search v page rs lo hi = io_search v page rs lo (m - 1)"
        using True 2 by (subst io_search.simps) (simp add: m_def[symmetric] Let_def)
      ultimately show ?thesis
        using "1.IH"(1)[OF True m_def refl] 2 "1.prems" m(2) by simp
    next
      case 3
      have "?r \<le> page" unfolding "1.prems"(5) by (rule page_floor[OF al]) (use 3(2) in simp)
      then have "?r < page" using 3(1) by simp
      have ne: "rs ! i \<noteq> page" if "int i \<le> m" for i
      proof -
        have "i \<le> nat m" using that m(3) by linarith
        then have "rs ! i \<le> ?r" using lt[of i "nat m"] m(4) by (cases "nat m = i") simp_all
        then show ?thesis using \<open>?r < page\<close> by auto
      qed
      have "(\<exists>i. lo \<le> int i \<and> int i \<le> hi \<and> rs ! i = page) \<longleftrightarrow> (\<exists>i. m + 1 \<le> int i \<and> int i \<le> hi \<and> rs ! i = page)"
        by (rule restrict_ex) (use ne m(1) in force)+
      moreover have "io_search v page rs lo hi = io_search v page rs (m + 1) hi"
        using True 3 by (subst io_search.simps) (simp add: m_def[symmetric] Let_def)
      ultimately show ?thesis
        using "1.IH"(2)[OF True m_def refl] 3 "1.prems" m(1) by simp
    qed
  next
    case False
    then show ?thesis by (subst io_search.simps) auto
  qed
qed

text \<open>Adding a page keeps the list sorted and without repetitions.\<close>

lemma io_insert_spec:
  assumes "sorted_wrt (<) rs"
  shows "case io_insert page rs of None \<Rightarrow> page \<in> set rs | Some rs' \<Rightarrow> page \<notin> set rs \<and> sorted_wrt (<) rs' \<and> set rs' = insert page (set rs)"
  using assms by (induction rs) (auto split: option.splits)

lemma flush_page_regions [simp]: "io_access_regions (tlb_flush_page a g t) = io_access_regions t"
  by (simp add: tlb_flush_page_def tlb_flush_page_masked_def tlb_flush_def tlb_flush_jmp_cache_def Let_def)

lemma set_io_regions:
  assumes "sorted_wrt (<) (io_access_regions t)" "tlib_set_page_io_accessed a t = Some t'"
  shows "sorted_wrt (<) (io_access_regions t') \<and> set (io_access_regions t') = insert (ucast a AND TARGET_PAGE_MASK32) (set (io_access_regions t))"
proof (cases "io_insert (ucast a AND TARGET_PAGE_MASK32) (io_access_regions t)")
  case None
  then have "t' = t" using assms(2) by (simp add: tlib_set_page_io_accessed_def split: if_splits)
  then show ?thesis using io_insert_spec[OF assms(1), of "ucast a AND TARGET_PAGE_MASK32"] None assms(1) by (simp add: insert_absorb)
next
  case (Some rs)
  then have "t' = tlb_flush_page (ucast a) False (t\<lparr>io_access_regions := rs\<rparr>)" using assms(2) by (simp add: tlib_set_page_io_accessed_def split: if_splits)
  then show ?thesis using io_insert_spec[OF assms(1), of "ucast a AND TARGET_PAGE_MASK32"] Some by simp
qed

lemma clear_io_regions:
  assumes "sorted_wrt (<) (io_access_regions t)"
  shows "sorted_wrt (<) (io_access_regions (tlib_clear_page_io_accessed a t)) \<and>
    set (io_access_regions (tlib_clear_page_io_accessed a t)) = set (io_access_regions t) - {ucast a AND TARGET_PAGE_MASK32}"
proof -
  have d: "sorted (io_access_regions t)" "distinct (io_access_regions t)" using assms by (simp_all add: strict_sorted_iff)
  then have "sorted_wrt (<) (remove1 v (io_access_regions t))" "set (remove1 v (io_access_regions t)) = set (io_access_regions t) - {v}" for v
    by (simp_all add: strict_sorted_iff sorted_remove1)
  then show ?thesis using assms by (simp add: tlib_clear_page_io_accessed_def Let_def)
qed

lemma is_io_accessed_iff:
  assumes "sorted_wrt (<) (io_access_regions t)" "\<forall>r\<in>set (io_access_regions t). r AND TARGET_PAGE_MASK32 = r"
  shows "is_io_accessed v t \<longleftrightarrow> v AND TARGET_PAGE_MASK32 \<in> set (io_access_regions t)"
proof -
  have "is_io_accessed v t \<longleftrightarrow> (\<exists>i. (0 :: int) \<le> int i \<and> int i \<le> int (length (io_access_regions t)) - 1 \<and> io_access_regions t ! i = v AND TARGET_PAGE_MASK32)"
    unfolding is_io_accessed_def by (rule io_search_iff[OF assms]) simp_all
  then show ?thesis by (auto simp: in_set_conv_nth)
qed

section \<open>The pages of code\<close>

text \<open>What a code address of an entry stands for, without the bits of pages with callbacks.\<close>

definition strip_io :: "u32 \<Rightarrow> u32" where
  "strip_io c = (if c AND ucast IO_MEM_EXECUTABLE_IO \<noteq> 0 \<and> c \<noteq> - 1 then c AND NOT (ucast IO_MEM_EXECUTABLE_IO OR TLB_MMIO) else c)"

definition code_entry_ok :: "u32 \<Rightarrow> u32 \<Rightarrow> bool" where
  "code_entry_ok c off \<longleftrightarrow> (strip_io c AND TARGET_PAGE_MASK32 = strip_io c \<and> unat (strip_io c) < 2 ^ 20 \<longrightarrow>
     ucast (strip_io c + off) AND NOT (mask 8) = (ucast (strip_io c) :: u64) \<and>
     \<not> (IO_MEM_ROM < ucast c AND mask 8 \<and> (ucast c AND mask 8) AND IO_MEM_ROMD = (0 :: u64) \<and> (ucast c AND mask 8) AND IO_MEM_EXECUTABLE_IO = 0))"

definition tlb_ok :: "tlb_env \<Rightarrow> bool" where
  "tlb_ok t \<longleftrightarrow> (\<forall>i. code_entry_ok (addr_code (tlb_table t 0 i)) (iotlb t 0 i))"

text \<open>RAM is mapped at the offset of its address, in the 20 bits of the address space.\<close>

definition identity_map :: "phys_map \<Rightarrow> bool" where
  "identity_map m \<longleftrightarrow> (\<forall>v d. v AND TARGET_PAGE_MASK32 = v \<longrightarrow> unat v < 2 ^ 20 \<longrightarrow> phys_page_find (drop_bit 8 v) m = Some d \<longrightarrow>
     executable_io_mem d \<or> phys_offset d = IO_MEM_UNASSIGNED \<or> phys_offset d = ucast v)"

definition rl78_page :: "u32 \<Rightarrow> u64" where
  "rl78_page v = ucast (v AND TARGET_PAGE_MASK32)"

lemma tlb_ok_lookup:
  assumes "tlb_ok t" "unat pc < 2 ^ 20"
  shows "\<exists>a. get_page_addr_code hp ok m pc False t = Some (a, t) \<and> (a = rl78_page pc \<or> a = - 1)"
proof -
  let ?c = "addr_code (tlb_table t 0 (tlb_index pc))" and ?p = "pc AND TARGET_PAGE_MASK32"
  have s: "(if ?c AND ucast IO_MEM_EXECUTABLE_IO \<noteq> 0 \<and> ?c \<noteq> - 1 then ?c AND NOT (ucast IO_MEM_EXECUTABLE_IO OR TLB_MMIO) else ?c) = strip_io ?c"
    by (simp add: strip_io_def)
  have e: "code_entry_ok ?c (iotlb t 0 (tlb_index pc))" using assms(1) by (simp add: tlb_ok_def)
  show ?thesis
  proof (cases "strip_io ?c = ?p")
    case True
    have "unat ?p \<le> unat pc" using word_and_le2[of pc TARGET_PAGE_MASK32] by (simp add: word_le_nat_alt)
    then have "unat (strip_io ?c) < 2 ^ 20" using assms(2) True by simp
    moreover have "strip_io ?c AND TARGET_PAGE_MASK32 = strip_io ?c" unfolding True by (simp add: and.assoc)
    ultimately show ?thesis using e True unfolding get_page_addr_code_def Let_def s code_entry_ok_def rl78_page_def by simp
  next
    case False
    then show ?thesis unfolding get_page_addr_code_def Let_def s by simp
  qed
qed

section \<open>Filling keeps the pages\<close>

text \<open>The low bits of an address of an entry are flags; they do not meet the page.\<close>

lemma ucast_page: "ucast x AND NOT (mask 8) = (ucast (x AND TARGET_PAGE_MASK32) :: u64)" for x :: u32
  by (rule bit_word_eqI) (auto simp: bit_and_iff bit_not_iff bit_mask_iff bit_ucast_iff dest: bit_imp_le_length)

lemma aligned_bit: "v AND TARGET_PAGE_MASK32 = v \<Longrightarrow> bit v n \<Longrightarrow> 8 \<le> n"
  by (metis bit_and_iff bit_page_mask)

lemma low_bit: "take_bit 8 k = k \<Longrightarrow> bit (k :: 'a::len word) n \<Longrightarrow> n < 8"
  by (metis bit_take_bit_iff)

lemma ucast_ucast_same: "ucast (ucast v :: u64) = (v :: u32)"
  by (rule bit_word_eqI) (auto simp: bit_ucast_iff dest: bit_imp_le_length)

lemma low_page:
  assumes "v AND TARGET_PAGE_MASK32 = v" "take_bit 8 k = k"
  shows "(v OR k) AND TARGET_PAGE_MASK32 = v" "k + v = v OR k"
proof -
  show "(v OR k) AND TARGET_PAGE_MASK32 = v"
    using aligned_bit[OF assms(1)] low_bit[OF assms(2)]
    by (intro bit_word_eqI) (auto simp: bit_and_iff bit_or_iff dest: leD)
  have "k + v = k OR v"
    by (rule disjunctive_add) (use aligned_bit[OF assms(1)] low_bit[OF assms(2)] in \<open>auto dest: leD\<close>)
  then show "k + v = v OR k" by (simp add: or.commute)
qed

lemma bit5: "bit TLB_MMIO n \<longleftrightarrow> n = 5" "bit (ucast IO_MEM_EXECUTABLE_IO :: u32) n \<longleftrightarrow> n = 6" "bit IO_MEM_EXECUTABLE_IO n \<longleftrightarrow> n = 6"
proof -
  have e: "TLB_MMIO = 2 ^ 5" "(ucast IO_MEM_EXECUTABLE_IO :: u32) = 2 ^ 6" "IO_MEM_EXECUTABLE_IO = 2 ^ 6"
    by (simp_all add: TLB_MMIO_def IO_MEM_EXECUTABLE_IO_def)
  show "bit TLB_MMIO n \<longleftrightarrow> n = 5" by (simp only: e(1) bit_exp_iff) auto
  show "bit (ucast IO_MEM_EXECUTABLE_IO :: u32) n \<longleftrightarrow> n = 6" by (simp only: e(2) bit_exp_iff) auto
  show "bit IO_MEM_EXECUTABLE_IO n \<longleftrightarrow> n = 6" by (simp only: e(3) bit_exp_iff) auto
qed

lemma bit_nonzero: "bit x n \<Longrightarrow> x \<noteq> 0" for x :: "'a::len word"
  by auto

lemma strip_io_cases:
  assumes "v AND TARGET_PAGE_MASK32 = v"
  shows "strip_io v = v" "strip_io ((v OR TLB_MMIO) OR ucast IO_MEM_EXECUTABLE_IO) = v" "ucast (v OR TLB_MMIO) AND mask 8 = (0x20 :: u64)"
proof -
  note al = aligned_bit[OF assms]
  have "v AND ucast IO_MEM_EXECUTABLE_IO = 0" by (auto intro!: bit_word_eqI simp: bit_and_iff bit5 dest!: al)
  then show "strip_io v = v" by (simp add: strip_io_def)
  let ?c = "(v OR TLB_MMIO) OR ucast IO_MEM_EXECUTABLE_IO"
  have "bit (?c AND ucast IO_MEM_EXECUTABLE_IO) 6" by (simp add: bit_and_iff bit_or_iff bit5)
  then have c1: "?c AND ucast IO_MEM_EXECUTABLE_IO \<noteq> 0" by (rule bit_nonzero)
  have "\<not> bit ?c 0" using al[of 0] by (auto simp: bit_or_iff bit5)
  then have c2: "?c \<noteq> - 1" by (metis bit_minus_1_iff possible_bit_word len_gt_0)
  have "?c AND NOT (ucast IO_MEM_EXECUTABLE_IO OR TLB_MMIO) = v"
    by (rule bit_word_eqI) (auto simp: bit_and_iff bit_or_iff bit_not_iff bit5 dest: al[of 5] al[of 6])
  then show "strip_io ?c = v" using c1 c2 by (simp add: strip_io_def)
  have "ucast v AND mask 8 = (0 :: u64)"
    by (auto intro!: bit_word_eqI simp: bit_and_iff bit_mask_iff bit_ucast_iff dest!: al)
  then show "ucast (v OR TLB_MMIO) AND mask 8 = (0x20 :: u64)"
    by (simp add: unsigned_or_eq bit.conj_disj_distrib2 TLB_MMIO_def mask_eq_exp_minus_1)
qed

lemma code_entry_cases:
  assumes "v AND TARGET_PAGE_MASK32 = v"
  shows "code_entry_ok (- 1) off" "code_entry_ok (v OR TLB_MMIO) off"
    "unat v < 2 ^ 20 \<longrightarrow> x AND TARGET_PAGE_MASK32 = v \<Longrightarrow> code_entry_ok v (x - v)"
    "unat v < 2 ^ 20 \<longrightarrow> x AND TARGET_PAGE_MASK32 = v \<Longrightarrow> code_entry_ok ((v OR TLB_MMIO) OR ucast IO_MEM_EXECUTABLE_IO) (x - v)"
proof -
  note al = aligned_bit[OF assms]
  have "\<not> bit (strip_io (- 1) AND TARGET_PAGE_MASK32) 0" "bit (strip_io (- 1)) 0" by (simp_all add: strip_io_def bit_and_iff)
  then have "strip_io (- 1) AND TARGET_PAGE_MASK32 \<noteq> strip_io (- 1)" by metis
  then show "code_entry_ok (- 1) off" by (simp add: code_entry_ok_def)
  have n6: "v AND ucast IO_MEM_EXECUTABLE_IO = 0" "(v OR TLB_MMIO) AND ucast IO_MEM_EXECUTABLE_IO = 0"
    by (auto intro!: bit_word_eqI simp: bit_and_iff bit_or_iff bit5 dest!: al)
  have "strip_io (v OR TLB_MMIO) = v OR TLB_MMIO" by (simp add: strip_io_def n6)
  moreover have "\<not> bit ((v OR TLB_MMIO) AND TARGET_PAGE_MASK32) 5" "bit (v OR TLB_MMIO) 5" by (simp_all add: bit_and_iff bit_or_iff bit5)
  then have "(v OR TLB_MMIO) AND TARGET_PAGE_MASK32 \<noteq> v OR TLB_MMIO" by metis
  ultimately show "code_entry_ok (v OR TLB_MMIO) off" by (simp add: code_entry_ok_def)
  have low: "(ucast v AND mask 8 :: u64) = 0"
    by (rule bit_word_eqI) (auto simp: bit_and_iff bit_mask_iff bit_ucast_iff dest!: al)
  note s = strip_io_cases(1,2)[OF assms]
  assume x: "unat v < 2 ^ 20 \<longrightarrow> x AND TARGET_PAGE_MASK32 = v"
  show "code_entry_ok v (x - v)" using x low by (simp add: code_entry_ok_def s ucast_page IO_MEM_ROM_def)
  let ?c = "(v OR TLB_MMIO) OR ucast IO_MEM_EXECUTABLE_IO"
  have "bit ((ucast ?c AND mask 8) AND IO_MEM_EXECUTABLE_IO :: u64) 6" by (simp add: bit_and_iff bit_or_iff bit_mask_iff bit_ucast_iff bit5)
  then have "(ucast ?c AND mask 8) AND IO_MEM_EXECUTABLE_IO \<noteq> (0 :: u64)" by (rule bit_nonzero)
  then show "code_entry_ok ?c (x - v)" using x by (simp add: code_entry_ok_def s ucast_page)
qed

lemma tlb_set_page_ok:
  assumes "tlb_ok t" "identity_map m" "v AND TARGET_PAGE_MASK32 = v"
  shows "tlb_ok (tlb_set_page hp ok m v v prot 0 256 t)"
proof -
  define p where "p = phys_page_find (drop_bit 8 v) m"
  define pd where "pd = (case p of
              None \<Rightarrow> IO_MEM_UNASSIGNED
            | Some d \<Rightarrow> if external_permissions d \<and> \<not> ok v then IO_MEM_UNASSIGNED
                else if executable_io_mem d then (phys_offset d AND NOT (mask 8)) OR IO_MEM_EXECUTABLE_IO
                else phys_offset d)"
  define io where "io \<longleftrightarrow> IO_MEM_ROM < pd AND mask 8 \<and> \<not> pd AND IO_MEM_ROMD \<noteq> 0"
  define exec_io where "exec_io \<longleftrightarrow> pd AND IO_MEM_EXECUTABLE_IO \<noteq> 0"
  define c where "c = (if io then (v OR TLB_MMIO) OR (if exec_io then ucast IO_MEM_EXECUTABLE_IO else 0) else v)"
  define x where "x = (if is_io_accessed v t then v else
      (if pd AND mask 8 \<le> IO_MEM_ROM \<and> \<not> exec_io
       then ucast ((pd AND NOT (mask 8)) OR (if pd AND mask 8 = IO_MEM_RAM then IO_MEM_NOTDIRTY else IO_MEM_ROM))
       else ucast (pd AND mask 8) + (case p of Some d \<Rightarrow> if exec_io then v else ucast (region_offset d) | None \<Rightarrow> v)) :: u32)"
  let ?t = "tlb_set_page hp ok m v v prot 0 256 t" and ?i = "tlb_index v"
  have new: "addr_code (tlb_table ?t 0 ?i) = (if prot AND PAGE_EXEC \<noteq> 0 then c else - 1)" "iotlb ?t 0 ?i = x - v"
    unfolding tlb_set_page_def Let_def p_def[symmetric] pd_def[symmetric] io_def[symmetric] exec_io_def[symmetric]
    by (simp_all add: set_entry_def c_def x_def)
  have old: "addr_code (tlb_table ?t 0 i) = addr_code (tlb_table t 0 i)" "iotlb ?t 0 i = iotlb t 0 i" if "i \<noteq> ?i" for i
    using that by (simp_all add: tlb_set_page_def Let_def set_entry_def)
  have low: "ucast v AND mask 8 = (0 :: u64)" "ucast v AND IO_MEM_EXECUTABLE_IO = (0 :: u64)" "ucast v AND NOT (mask 8) = (ucast v :: u64)"
    using ucast_page[of v] by (auto intro!: bit_word_eqI simp: assms(3) bit_and_iff bit_mask_iff bit_ucast_iff bit5 dest!: aligned_bit[OF assms(3)])
  have "x AND TARGET_PAGE_MASK32 = v \<and> (io \<longrightarrow> exec_io) \<or> io \<and> \<not> exec_io" if v: "unat v < 2 ^ 20"
  proof -
    have "pd = IO_MEM_UNASSIGNED \<or> (\<exists>d. p = Some d \<and> pd = ucast v) \<or> (\<exists>d. p = Some d \<and> pd = (phys_offset d AND NOT (mask 8)) OR IO_MEM_EXECUTABLE_IO)"
      using assms(2,3) v unfolding identity_map_def pd_def p_def by (auto split: option.splits)
    then show ?thesis
    proof (elim disjE exE conjE)
      assume "pd = IO_MEM_UNASSIGNED"
      then show ?thesis by (simp add: io_def exec_io_def IO_MEM_UNASSIGNED_def IO_MEM_ROM_def IO_MEM_ROMD_def IO_MEM_EXECUTABLE_IO_def mask_eq_exp_minus_1)
    next
      fix d assume d: "p = Some d" "pd = ucast v"
      have f: "\<not> io" "\<not> exec_io" by (simp_all add: io_def exec_io_def d(2) low IO_MEM_ROM_def)
      have "x = v \<or> x = v OR 24"
        using f(2) by (simp add: x_def d(2) low IO_MEM_ROM_def IO_MEM_RAM_def IO_MEM_NOTDIRTY_def unsigned_or_eq ucast_ucast_same)
      moreover have "(v OR 24) AND TARGET_PAGE_MASK32 = v" by (rule low_page(1)[OF assms(3)]) (simp add: take_bit_eq_mask mask_eq_exp_minus_1)
      ultimately show ?thesis using f assms(3) by auto
    next
      fix d assume d: "p = Some d" "pd = (phys_offset d AND NOT (mask 8)) OR IO_MEM_EXECUTABLE_IO"
      have k: "pd AND mask 8 = 64" unfolding d(2) IO_MEM_EXECUTABLE_IO_def by (simp add: bit.conj_disj_distrib2 and.assoc mask_eq_exp_minus_1)
      have "bit (pd AND IO_MEM_EXECUTABLE_IO) 6" by (simp add: d(2) bit_and_iff bit_or_iff bit5)
      then have f: exec_io unfolding exec_io_def by (rule bit_nonzero)
      have "x = v \<or> x = 64 + v" using f by (simp add: x_def d(1) k)
      moreover have "(64 + v) AND TARGET_PAGE_MASK32 = v"
        using low_page[OF assms(3), of 64] by (simp add: take_bit_eq_mask mask_eq_exp_minus_1)
      ultimately show ?thesis using f assms(3) by auto
    qed
  qed
  then have "code_entry_ok c (x - v)"
    using code_entry_cases[OF assms(3)] unfolding c_def by (cases io; cases exec_io) auto
  then have "code_entry_ok (addr_code (tlb_table ?t 0 ?i)) (iotlb ?t 0 ?i)" unfolding new using code_entry_cases(1)[OF assms(3)] by simp
  then have "code_entry_ok (addr_code (tlb_table ?t 0 i)) (iotlb ?t 0 i)" for i
    using old[of i] assms(1) unfolding tlb_ok_def by (cases "i = ?i") simp_all
  then show ?thesis by (simp add: tlb_ok_def)
qed

section \<open>Flushing, protecting and mapping keep the pages\<close>

lemma tlb_ok_forget:
  assumes "tlb_ok t" "\<And>i. addr_code (tlb_table t' 0 i) = addr_code (tlb_table t 0 i) \<or> addr_code (tlb_table t' 0 i) = - 1" "iotlb t' = iotlb t"
  shows "tlb_ok t'"
  unfolding tlb_ok_def
proof
  fix i
  have "code_entry_ok (addr_code (tlb_table t 0 i)) (iotlb t 0 i)" using assms(1) by (simp add: tlb_ok_def)
  moreover have "code_entry_ok (- 1) (iotlb t 0 i)" by (rule code_entry_cases(1)[of 0]) simp
  ultimately show "code_entry_ok (addr_code (tlb_table t' 0 i)) (iotlb t' 0 i)" using assms(2)[of i] unfolding assms(3) by auto
qed

lemma tlb_flush_ok: "tlb_ok (tlb_flush g t)"
  using code_entry_cases(1)[of 0] by (simp add: tlb_ok_def tlb_flush_def s_cputlb_empty_entry_def)

lemma flush_entry_code: "addr_code (tlb_flush_entry a e) = addr_code e \<or> addr_code (tlb_flush_entry a e) = - 1"
  by (simp add: tlb_flush_entry_def s_cputlb_empty_entry_def)

lemma tlb_flush_page_ok:
  assumes "tlb_ok t"
  shows "tlb_ok (tlb_flush_page a g t)"
proof (cases "a AND tlb_flush_mask t = tlb_flush_addr t")
  case True
  then show ?thesis by (simp add: tlb_flush_page_def tlb_flush_page_masked_def tlb_flush_ok)
next
  case False
  show ?thesis
  proof (rule tlb_ok_forget[OF assms])
    fix i
    show "addr_code (tlb_table (tlb_flush_page a g t) 0 i) = addr_code (tlb_table t 0 i) \<or> addr_code (tlb_table (tlb_flush_page a g t) 0 i) = - 1"
      using False flush_entry_code[of "a AND TARGET_PAGE_MASK32" "tlb_table t 0 i"]
      by (cases "i = tlb_index a") (simp_all add: tlb_flush_page_def tlb_flush_page_masked_def Let_def tlb_flush_jmp_cache_def)
  qed (use False in \<open>simp add: tlb_flush_page_def tlb_flush_page_masked_def Let_def tlb_flush_jmp_cache_def\<close>)
qed

lemma tlb_flush_masked_ok: "tlb_ok t \<Longrightarrow> tlb_ok (tlb_flush_masked k t)"
  by (rule tlb_ok_forget) (auto simp: tlb_flush_masked_def s_cputlb_empty_entry_def)

lemma io_accessed_ok: "tlib_set_page_io_accessed a t = Some t' \<Longrightarrow> tlb_ok t \<Longrightarrow> tlb_ok t'"
  by (auto simp: tlib_set_page_io_accessed_def split: if_splits option.splits intro!: tlb_flush_page_ok intro: tlb_ok_forget)

lemma io_clear_ok: "tlb_ok t \<Longrightarrow> tlb_ok (tlib_clear_page_io_accessed a t)"
  by (auto simp: tlib_clear_page_io_accessed_def Let_def intro!: tlb_flush_page_ok intro: tlb_ok_forget)

lemma reset_dirty_code: "addr_code (tlb_reset_dirty_range a n e) = addr_code e"
  by (simp add: tlb_reset_dirty_range_def Let_def)

lemma protect_ok: "tlb_protect_code h a (m, t) = (m', t') \<Longrightarrow> tlb_ok t \<Longrightarrow> tlb_ok t'"
  by (rule tlb_ok_forget[of t]) (auto simp: tlb_protect_code_def Let_def reset_dirty_code)

lemma set_dirty_ok: "tlb_ok t \<Longrightarrow> tlb_ok (tlb_set_dirty a t)"
  by (rule tlb_ok_forget[of t]) (auto simp: tlb_set_dirty_def tlb_set_dirty1_def Let_def)

lemma tlb_fill_ok:
  assumes "tlb_ok t" "identity_map m"
  shows "tlb_ok (tlb_fill hp ok m a 0 t)"
  using tlb_set_page_ok[OF assms, of "a AND TARGET_PAGE_MASK32"] by (simp add: tlb_fill_def arch_tlb_fill_def Let_def and.assoc TARGET_PAGE_MASK32_def TARGET_PAGE_MASK_def mask_eq_exp_minus_1)

lemma page_number:
  fixes v :: u32
  assumes "unat v < 2 ^ 20"
  shows "unat (drop_bit 8 v AND 0xFFF) = unat v div 256"
proof -
  have "drop_bit 8 v AND 0xFFF = take_bit 12 (drop_bit 8 v)" by (simp add: take_bit_eq_mask mask_eq_exp_minus_1)
  then have "unat (drop_bit 8 v AND 0xFFF) = unat v div 256 mod 4096"
    by (simp only: unat_drop_bit_eq unsigned_take_bit_eq) (simp add: drop_bit_eq_div take_bit_eq_mod)
  then show ?thesis using assms by simp
qed

text \<open>The descriptor a step leaves at a page is the one there, changed by the step when it is its page.\<close>

lemma find_upd:
  assumes "phys_page_find i (phys_page_upd j f m) = Some d"
  obtains d' where "phys_page_find i m = Some d'" "d = d' \<or> d = f d'"
  using assms by (auto simp: phys_page_find_def phys_page_upd_def split: option.splits if_splits)

lemma find_upd_here:
  assumes "phys_page_find j (phys_page_upd j f m) = Some d"
  obtains d' where "phys_page_find j m = Some d'" "d = f d'"
  using assms by (auto simp: phys_page_find_def phys_page_upd_def split: option.splits)

lemma find_upd_other:
  assumes "unat v < 2 ^ 20" "unat w < 2 ^ 20" "unat v div 256 \<noteq> unat w div 256"
  shows "phys_page_find (drop_bit 8 v) (phys_page_upd (drop_bit 8 w) f m) = phys_page_find (drop_bit 8 v) m"
  using assms by (auto simp: phys_page_find_def phys_page_upd_def page_number split: option.splits)

lemma find_alloc:
  assumes "phys_page_find i (phys_page_find_alloc j m) = Some d"
  shows "phys_page_find i m = Some d \<or> phys_offset d = IO_MEM_UNASSIGNED"
  using assms by (auto simp: phys_page_find_def phys_page_find_alloc_def Let_def split: option.splits if_splits)

lemma identity_upd:
  assumes "identity_map m" "\<And>d. executable_io_mem (f d) = executable_io_mem d" "\<And>d. phys_offset (f d) = phys_offset d \<or> phys_offset (f d) = IO_MEM_UNASSIGNED"
  shows "identity_map (phys_page_upd j f m)"
  unfolding identity_map_def
proof (intro allI impI)
  fix v d assume v: "v AND TARGET_PAGE_MASK32 = v" "unat v < 2 ^ 20" and "phys_page_find (drop_bit 8 v) (phys_page_upd j f m) = Some d"
  from this(3) obtain d' where "phys_page_find (drop_bit 8 v) m = Some d'" "d = d' \<or> d = f d'" by (rule find_upd)
  then show "executable_io_mem d \<or> phys_offset d = IO_MEM_UNASSIGNED \<or> phys_offset d = ucast v"
    using assms v unfolding identity_map_def by metis
qed

lemma page_addr_unique:
  assumes "v AND TARGET_PAGE_MASK32 = v" "w AND TARGET_PAGE_MASK32 = w" "unat v div 256 = unat w div 256"
  shows "v = w"
proof (rule bit_word_eqI)
  fix n
  have "unat (drop_bit 8 v) = unat (drop_bit 8 w)" using assms(3) by (simp only: unat_drop_bit_eq) (simp add: drop_bit_eq_div)
  then have "drop_bit 8 v = drop_bit 8 w" by (rule word_unat_eq_iff[THEN iffD2])
  then have "bit (drop_bit 8 v) (n - 8) \<longleftrightarrow> bit (drop_bit 8 w) (n - 8)" by simp
  then show "bit v n \<longleftrightarrow> bit w n"
    using aligned_bit[OF assms(1), of n] aligned_bit[OF assms(2), of n] by (auto simp: bit_drop_bit_eq)
qed

lemma identity_at:
  assumes "identity_map m" "a AND TARGET_PAGE_MASK32 = a" "unat a < 2 ^ 20" "\<And>p. phys_offset (f p) = ucast a"
  shows "identity_map (phys_page_upd (drop_bit 8 a) f m)"
  unfolding identity_map_def
proof (intro allI impI)
  fix v d assume v: "v AND TARGET_PAGE_MASK32 = v" "unat v < 2 ^ 20" and d: "phys_page_find (drop_bit 8 v) (phys_page_upd (drop_bit 8 a) f m) = Some d"
  show "executable_io_mem d \<or> phys_offset d = IO_MEM_UNASSIGNED \<or> phys_offset d = ucast v"
  proof (cases "unat v div 256 = unat a div 256")
    case True
    then have "v = a" using page_addr_unique v(1) assms(2) by blast
    then obtain d' where "d = f d'" using d find_upd_here by metis
    then show ?thesis using assms(4) \<open>v = a\<close> by simp
  next
    case False
    then show ?thesis using d find_upd_other[OF v(2) assms(3) False] assms(1) v unfolding identity_map_def by simp
  qed
qed

lemma identity_alloc:
  assumes "identity_map m"
  shows "identity_map (phys_page_find_alloc i m)"
  using assms find_alloc unfolding identity_map_def by metis

lemma identity_register:
  assumes "identity_map m" "a AND TARGET_PAGE_MASK32 = a" "unat a < 2 ^ 20"
  shows "identity_map (phys_page_upd (drop_bit 8 a) (\<lambda>p. p\<lparr>phys_offset := ucast a, pd_dirty := True\<rparr>) m)"
    "identity_map (phys_page_upd (drop_bit 8 a) (\<lambda>p. p\<lparr>phys_offset := ucast a, region_offset := r\<rparr>) (phys_page_alloc (drop_bit 8 a) True m))"
proof -
  show "identity_map (phys_page_upd (drop_bit 8 a) (\<lambda>p. p\<lparr>phys_offset := ucast a, pd_dirty := True\<rparr>) m)"
    by (rule identity_at[OF assms]) simp_all
  let ?f = "\<lambda>p. p\<lparr>phys_offset := ucast a, region_offset := r\<rparr>" and ?g = "\<lambda>p. p\<lparr>pd_dirty := True, executable_io_mem := False, external_permissions := False\<rparr>"
  have "identity_map (phys_page_upd (drop_bit 8 a) (\<lambda>p. ?f (?g p)) (phys_page_find_alloc (drop_bit 8 a) m))"
    by (rule identity_at[OF identity_alloc[OF assms(1)] assms(2,3)]) simp
  moreover have "phys_page_upd i h (phys_page_upd i k m) = phys_page_upd i (\<lambda>p. h (k p)) m" for i h k m
    by (auto simp: phys_page_upd_def split: option.splits)
  ultimately show "identity_map (phys_page_upd (drop_bit 8 a) ?f (phys_page_alloc (drop_bit 8 a) True m))"
    by (simp add: phys_page_alloc_def)
qed

lemma page_mod: "x AND TARGET_PAGE_MASK32 = x \<longleftrightarrow> unat x mod 256 = 0"
proof -
  have "x AND TARGET_PAGE_MASK32 = x \<longleftrightarrow> take_bit 8 x = 0"
  proof
    assume x: "x AND TARGET_PAGE_MASK32 = x"
    show "take_bit 8 x = 0" by (rule bit_word_eqI) (auto simp: bit_take_bit_iff dest: aligned_bit[OF x])
  next
    assume x: "take_bit 8 x = 0"
    have "\<not> bit (take_bit 8 x) n" for n by (simp add: x)
    then have "bit x n \<Longrightarrow> 8 \<le> n" for n unfolding bit_take_bit_iff by (meson not_le)
    then show "x AND TARGET_PAGE_MASK32 = x" by (auto intro!: bit_word_eqI simp: bit_and_iff)
  qed
  also have "\<dots> \<longleftrightarrow> unat (take_bit 8 x) = 0" by (simp only: unat_eq_0)
  finally show ?thesis by (simp only: unsigned_take_bit_eq) (simp add: take_bit_eq_mod)
qed

lemma page_step:
  assumes "a AND TARGET_PAGE_MASK32 = a"
  shows "(a + 256) AND TARGET_PAGE_MASK32 = a + 256"
proof -
  have "unat (a + 256) = (unat a + 256) mod 2 ^ 32" by (simp add: unat_word_ariths)
  then have "unat (a + 256) mod 256 = unat a mod 256" by (simp add: mod_mod_cancel)
  then show ?thesis using assms by (simp add: page_mod)
qed

text \<open>RAM mapped at its own offset, page by page; the loop ends after the pages of the range.\<close>

lemma register_loop_identity:
  assumes "identity_map m" "a AND TARGET_PAGE_MASK32 = a" "unat a + 256 * Suc n \<le> 2 ^ 20"
  shows "\<exists>m'. register_loop a (a + of_nat (256 * Suc n)) (ucast a) r m = Some m' \<and> identity_map m'"
  using assms
proof (induction n arbitrary: a r m)
  case 0
  then show ?case using identity_register(1)[of m a] identity_register(2)[of m a r] by (subst register_loop.simps) (auto simp: Let_def)
next
  case (Suc n)
  have b: "unat (a + 256) = unat a + 256" using Suc.prems(3) by (subst unat_add_lem[THEN iffD1]) simp_all
  have al: "(a + 256) AND TARGET_PAGE_MASK32 = a + 256" using page_step[OF Suc.prems(2)] .
  have "unat (ucast a + 256 :: u64) = unat a + 256"
    using unat_ucast_u64[of a] Suc.prems(3) by (subst unat_add_lem[THEN iffD1]) simp_all
  then have "unat (ucast a + 256 :: u64) = unat (ucast (a + 256) :: u64)" by (simp only: unat_ucast_u64 b)
  then have off: "(ucast a + 256 :: u64) = ucast (a + 256)" by (rule word_unat_eq_iff[THEN iffD2])
  have fin: "a + of_nat (256 * Suc (Suc n)) = (a + 256) + of_nat (256 * Suc n)" by (simp add: algebra_simps)
  have w: "unat (of_nat k :: u32) = k" if "k < 2 ^ 32" for k using that by (simp add: unat_of_nat)
  have "unat (of_nat (256 * Suc n) :: u32) = 256 * Suc n" by (rule w) (use Suc.prems(3) in simp)
  then have ne: "a + 256 \<noteq> (a + 256) + of_nat (256 * Suc n)" by (metis add_cancel_left_right unat_0 mult_is_0 nat.distinct(1) numeral_eq_iff zero_neq_numeral)
  have low: "ucast a AND mask 8 = (0 :: u64)"
    by (auto intro!: bit_word_eqI simp: bit_and_iff bit_mask_iff bit_ucast_iff dest!: aligned_bit[OF Suc.prems(2)])
  note idm = identity_register(1)[OF Suc.prems(1,2)] identity_register(2)[OF Suc.prems(1,2), of r]
  have a: "unat a < 2 ^ 20" "unat (a + 256) + 256 * Suc n \<le> 2 ^ 20" using Suc.prems(3) b by simp_all
  show ?case unfolding fin
    by (subst register_loop.simps) (use idm(1)[OF a(1)] idm(2)[OF a(1)] Suc.IH[OF idm(1)[OF a(1)] al a(2), of "r + 256"] Suc.IH[OF idm(2)[OF a(1)] al a(2), of "r + 256"]
      in \<open>simp add: Let_def low ne off IO_MEM_ROM_def\<close>)
qed

lemma map_range_ok:
  assumes "identity_map m" "start AND NOT (mask 8) = start" "0 < len" "unat start + unat len \<le> 2 ^ 20"
  shows "\<exists>m'. tlib_map_range start len (m, t) = Some (m', tlb_flush False t) \<and> identity_map m'"
proof -
  define a where "a = (ucast start :: u32)"
  define n where "n = (unat len - 1) div 256"
  have st: "unat a = unat start" "ucast a = start"
  proof -
    show "unat a = unat start" using assms(4) by (simp add: a_def unsigned_ucast_eq take_bit_nat_eq_self)
    then have "unat (ucast a :: u64) = unat start" by (simp only: unat_ucast_u64)
    then show "ucast a = start" by (rule word_unat_eq_iff[THEN iffD2])
  qed
  have al: "a AND TARGET_PAGE_MASK32 = a"
  proof -
    have "bit (start AND NOT (mask 8)) n \<Longrightarrow> 8 \<le> n" for n by (auto simp: bit_and_iff bit_not_iff bit_mask_iff)
    then have "bit start n \<Longrightarrow> 8 \<le> n" for n unfolding assms(2) .
    then show ?thesis by (auto intro!: bit_word_eqI simp: a_def bit_and_iff bit_ucast_iff)
  qed
  have "0 < unat len" using assms(3) by (simp add: word_less_nat_alt)
  then have n: "(unat len + 255) div 256 = Suc n" "256 * n < unat len" unfolding n_def by (simp_all add: div_if[of "unat len + 255"] less_eq_div_iff_mult_less_eq flip: Suc_diff_le)
  have l: "unat (len + 255) = unat len + 255" using assms(4) by (subst unat_add_lem[THEN iffD1]) simp_all
  have "(len + 255) AND NOT (mask 8) = push_bit 8 (drop_bit 8 (len + 255))"
    by (rule bit_word_eqI) (auto simp: bit_and_iff bit_not_iff bit_mask_iff bit_push_bit_iff bit_drop_bit_eq)
  also have "drop_bit 8 (len + 255) = of_nat (unat (drop_bit 8 (len + 255)))" by simp
  also have "unat (drop_bit 8 (len + 255)) = Suc n" by (simp only: unat_drop_bit_eq l) (simp add: drop_bit_eq_div n)
  also have "push_bit 8 (of_nat (Suc n)) = (of_nat (256 * Suc n) :: u64)" by (simp add: push_bit_eq_mult algebra_simps)
  finally have sz: "(len + 255) AND NOT (mask 8) = of_nat (256 * Suc n)" .
  have fit: "unat a + 256 * Suc n \<le> 2 ^ 20"
  proof -
    have "unat a mod 256 = 0" using al by (simp only: page_mod)
    then obtain k where k: "unat a = 256 * k" by (metis mod_0_imp_dvd dvdE)
    then have "256 * (k + n) < 256 * 4096" using n(2) assms(4) st(1) by simp
    then have "k + n < 4096" by simp
    then show ?thesis unfolding k by simp
  qed
  then have u: "(ucast (of_nat (256 * Suc n) :: u64) :: u32) = of_nat (256 * Suc n)"
    by (simp only: unsigned_of_nat) (simp add: take_bit_nat_eq_self)
  define k where "k = 256 * Suc n"
  obtain m' where m': "register_loop a (a + of_nat k) start ((if start = IO_MEM_UNASSIGNED then start else 0) AND NOT (mask 8)) m = Some m'" "identity_map m'"
    using register_loop_identity[OF assms(1) al fit] unfolding st(2) k_def by blast
  have "tlib_map_range start len (m, t) = Some (m', tlb_flush False t)"
    using assms(3) m'(1) sz u unfolding k_def[symmetric]
    by (simp add: word_gt_0 tlib_map_range_def cpu_register_physical_memory_log_def Let_def a_def[symmetric] st(2) IO_MEM_RAM_def split del: if_split cong: if_cong)
  then show ?thesis using m'(2) by blast
qed

section \<open>The life of the buffer\<close>

text \<open>What may happen to the buffer and the map between two lookups: fills, flushes, pages reported as I/O, code
  protected and no longer, RAM mapped at its own address, pages unmapped.\<close>

inductive tlb_step :: "(u64 \<Rightarrow> u64) \<Rightarrow> (u32 \<Rightarrow> bool) \<Rightarrow> phys_map \<times> tlb_env \<Rightarrow> phys_map \<times> tlb_env \<Rightarrow> bool"
  for hp allowed where
  fill: "tlb_step hp allowed (m, t) (m, tlb_fill hp allowed m a 0 t)"
| flush: "tlb_step hp allowed (m, t) (m, tlb_flush g t)"
| flush_page: "tlb_step hp allowed (m, t) (m, tlb_flush_page a g t)"
| flush_masked: "tlb_step hp allowed (m, t) (m, tlb_flush_masked k t)"
| io_accessed: "tlib_set_page_io_accessed p t = Some t' \<Longrightarrow> tlb_step hp allowed (m, t) (m, t')"
| io_cleared: "tlb_step hp allowed (m, t) (m, tlib_clear_page_io_accessed p t)"
| protect: "tlb_step hp allowed x (tlb_protect_code hp a x)"
| unprotect: "tlb_unprotect_code_phys a m = Some m' \<Longrightarrow> tlb_step hp allowed (m, t) (m', t)"
| set_dirty: "tlb_step hp allowed (m, t) (m, tlb_set_dirty a t)"
| map_range: "start AND NOT (mask 8) = start \<Longrightarrow> unat start + unat len \<le> 2 ^ 20 \<Longrightarrow> tlib_map_range start len x = Some x' \<Longrightarrow> tlb_step hp allowed x x'"
| unmap: "tlb_step hp allowed x (unmap_page a x)"

definition tlb_inv :: "phys_map \<times> tlb_env \<Rightarrow> bool" where
  "tlb_inv x \<longleftrightarrow> identity_map (fst x) \<and> tlb_ok (snd x)"

lemma tlb_step_inv:
  assumes "tlb_step hp allowed x y" "tlb_inv x"
  shows "tlb_inv y"
  using assms
proof cases
  case (io_accessed p t t' m)
  then show ?thesis using assms(2) io_accessed_ok by (simp add: tlb_inv_def)
next
  case (protect a)
  obtain m t m' t' where x: "x = (m, t)" "tlb_protect_code hp a (m, t) = (m', t')" by (metis surj_pair)
  then have "m' = phys_page_upd (ucast (drop_bit 8 a)) (\<lambda>d. d\<lparr>pd_dirty := False\<rparr>) m" by (simp add: tlb_protect_code_def Let_def)
  then show ?thesis using assms(2) protect_ok[OF x(2)] x by (simp add: protect tlb_inv_def identity_upd)
next
  case (unprotect a m m' t)
  then show ?thesis using assms(2) by (auto simp: tlb_inv_def tlb_unprotect_code_phys_def split: option.splits intro!: identity_upd)
next
  case (map_range start len)
  obtain m t where x: "x = (m, t)" by fastforce
  then have "0 < len" using map_range(3) by (auto simp: tlib_map_range_def cpu_register_physical_memory_log_def word_gt_0)
  then show ?thesis using map_range_ok[OF _ map_range(1) _ map_range(2), of m t] map_range(3) assms(2) by (auto simp: x tlb_inv_def tlb_flush_ok)
next
  case (unmap a)
  obtain m t where x: "x = (m, t)" by fastforce
  show ?thesis unfolding unmap using assms(2)
    by (auto simp: x tlb_inv_def unmap_page_def split: option.splits intro!: identity_upd tlb_flush_page_ok)
qed (use assms(2) in \<open>simp_all add: tlb_inv_def tlb_fill_ok tlb_flush_ok tlb_flush_page_ok tlb_flush_masked_ok set_dirty_ok io_clear_ok\<close>)

text \<open>The entry of a fill is for the page, or for a page that no code runs from.\<close>

lemma fill_code:
  defines "c \<equiv> \<lambda>hp ok m a t. addr_code (tlb_table (tlb_fill hp ok m a 0 t) 0 (tlb_index a))"
  shows "strip_io (c hp ok m a t) = a AND TARGET_PAGE_MASK32 \<or> ucast (c hp ok m a t) AND mask 8 = (0x20 :: u64)"
proof -
  let ?v = "a AND TARGET_PAGE_MASK32"
  have v: "?v AND TARGET_PAGE_MASK32 = ?v" by (simp add: and.assoc)
  have f: "tlb_fill hp ok m a 0 t = tlb_set_page hp ok m ?v ?v 7 0 256 t"
    by (simp add: tlb_fill_def arch_tlb_fill_def Let_def TARGET_PAGE_MASK32_def TARGET_PAGE_MASK_def mask_eq_exp_minus_1 PAGE_READ_def PAGE_WRITE_def PAGE_EXEC_def)
  have "addr_code (tlb_table (tlb_set_page hp ok m ?v ?v 7 0 256 t) 0 (tlb_index ?v)) \<in>
    {?v, ?v OR TLB_MMIO, (?v OR TLB_MMIO) OR ucast IO_MEM_EXECUTABLE_IO}"
    unfolding tlb_set_page_def Let_def by (simp add: set_entry_def PAGE_EXEC_def)
  then have "c hp ok m a t \<in> {?v, ?v OR TLB_MMIO, (?v OR TLB_MMIO) OR ucast IO_MEM_EXECUTABLE_IO}" unfolding c_def f by simp
  then show ?thesis using strip_io_cases[OF v] by auto
qed

lemma code_page_mapped:
  assumes "tlb_inv (m, t)" "unat pc < 2 ^ 20" "get_page_addr_code hp ok m pc b t = Some (a, t')"
  shows "(a = rl78_page pc \<or> \<not> b \<and> a = - 1) \<and> tlb_inv (m, t')"
proof -
  let ?p = "pc AND TARGET_PAGE_MASK32"
  have s: "(if c AND ucast IO_MEM_EXECUTABLE_IO \<noteq> 0 \<and> c \<noteq> - 1 then c AND NOT (ucast IO_MEM_EXECUTABLE_IO OR TLB_MMIO) else c) = strip_io c" for c
    by (simp add: strip_io_def)
  have "unat ?p \<le> unat pc" using word_and_le2[of pc TARGET_PAGE_MASK32] by (simp add: word_le_nat_alt)
  then have p: "unat ?p < 2 ^ 20" "?p AND TARGET_PAGE_MASK32 = ?p" using assms(2) by (simp_all add: and.assoc)
  define t1 where "t1 = (if strip_io (addr_code (tlb_table t 0 (tlb_index pc))) \<noteq> ?p then tlb_fill hp ok m pc 0 t else t)"
  let ?c = "addr_code (tlb_table t1 0 (tlb_index pc))"
  have inv: "tlb_inv (m, t1)" using assms(1) by (simp add: t1_def tlb_inv_def tlb_fill_ok)
  have hit: "strip_io ?c = ?p \<or> ucast ?c AND mask 8 = (0x20 :: u64)" using fill_code[of hp ok m pc t] by (simp add: t1_def)
  show ?thesis
  proof (cases "strip_io (addr_code (tlb_table t 0 (tlb_index pc))) \<noteq> ?p \<and> \<not> b")
    case True
    then show ?thesis using assms(1,3) unfolding get_page_addr_code_def Let_def s by simp
  next
    case False
    have g: "get_page_addr_code hp ok m pc b t = (let pd = ucast ?c AND mask 8 :: u64
        in if IO_MEM_ROM < pd \<and> pd AND IO_MEM_ROMD = 0 \<and> pd AND IO_MEM_EXECUTABLE_IO = 0 then None
           else Some (ucast (?p + iotlb t1 0 (tlb_index pc)) AND NOT (mask 8), t1))"
      unfolding get_page_addr_code_def Let_def s t1_def by (rule if_not_P[OF False])
    have "\<not> ucast ?c AND mask 8 = (0x20 :: u64)"
      using assms(3) g by (auto simp: IO_MEM_ROM_def IO_MEM_ROMD_def IO_MEM_EXECUTABLE_IO_def)
    then have "strip_io ?c = ?p" using hit by blast
    moreover have "code_entry_ok ?c (iotlb t1 0 (tlb_index pc))" using inv by (simp add: tlb_inv_def tlb_ok_def)
    ultimately show ?thesis using assms(3) p inv unfolding g code_entry_ok_def rl78_page_def by (simp add: Let_def split: if_splits)
  qed
qed

text \<open>Code runs from RAM: the fill of a page of RAM gives it, so that the lookup does not abort.\<close>

definition ram_page :: "phys_map \<Rightarrow> u32 \<Rightarrow> bool" where
  "ram_page m pc \<longleftrightarrow> (case phys_page_find (drop_bit 8 pc) m of
     None \<Rightarrow> False
   | Some d \<Rightarrow> phys_offset d = rl78_page pc \<and> \<not> executable_io_mem d \<and> \<not> external_permissions d)"

lemma fill_ram:
  assumes "ram_page m a"
  shows "addr_code (tlb_table (tlb_fill hp ok m a 0 t) 0 (tlb_index a)) = a AND TARGET_PAGE_MASK32"
proof -
  let ?v = "a AND TARGET_PAGE_MASK32"
  have v: "?v AND TARGET_PAGE_MASK32 = ?v" by (simp add: and.assoc)
  have f: "tlb_fill hp ok m a 0 t = tlb_set_page hp ok m ?v ?v 7 0 256 t"
    by (simp add: tlb_fill_def arch_tlb_fill_def Let_def TARGET_PAGE_MASK32_def TARGET_PAGE_MASK_def mask_eq_exp_minus_1 PAGE_READ_def PAGE_WRITE_def PAGE_EXEC_def)
  have "drop_bit 8 ?v = drop_bit 8 a" by (rule bit_word_eqI) (auto simp: bit_drop_bit_eq bit_and_iff dest: bit_imp_le_length)
  then obtain d where d: "phys_page_find (drop_bit 8 ?v) m = Some d" "phys_offset d = ucast ?v" "\<not> executable_io_mem d" "\<not> external_permissions d"
    using assms by (auto simp: ram_page_def rl78_page_def split: option.splits)
  have "ucast ?v AND mask 8 = (0 :: u64)" "ucast ?v AND IO_MEM_EXECUTABLE_IO = (0 :: u64)"
    by (auto intro!: bit_word_eqI simp: bit_and_iff bit_mask_iff bit_ucast_iff bit5)
  then have "addr_code (tlb_table (tlb_set_page hp ok m ?v ?v 7 0 256 t) 0 (tlb_index ?v)) = ?v"
    unfolding tlb_set_page_def Let_def d(1) option.case by (simp add: d(2-4) set_entry_def PAGE_EXEC_def IO_MEM_ROM_def)
  then show ?thesis unfolding f by simp
qed

lemma code_page_ram:
  assumes "tlb_inv (m, t)" "unat pc < 2 ^ 20" "ram_page m pc"
  shows "get_page_addr_code hp ok m pc True t \<noteq> None"
proof -
  let ?p = "pc AND TARGET_PAGE_MASK32" and ?c = "addr_code (tlb_table t 0 (tlb_index pc))"
  have s: "(if c AND ucast IO_MEM_EXECUTABLE_IO \<noteq> 0 \<and> c \<noteq> - 1 then c AND NOT (ucast IO_MEM_EXECUTABLE_IO OR TLB_MMIO) else c) = strip_io c" for c
    by (simp add: strip_io_def)
  have "unat ?p \<le> unat pc" using word_and_le2[of pc TARGET_PAGE_MASK32] by (simp add: word_le_nat_alt)
  then have p: "unat ?p < 2 ^ 20" "?p AND TARGET_PAGE_MASK32 = ?p" using assms(2) by (simp_all add: and.assoc)
  have e: "code_entry_ok ?c (iotlb t 0 (tlb_index pc))" using assms(1) by (simp add: tlb_inv_def tlb_ok_def)
  have l: "ucast ?p AND mask 8 = (0 :: u64)" by (auto intro!: bit_word_eqI simp: bit_and_iff bit_mask_iff bit_ucast_iff)
  show ?thesis
  proof (cases "strip_io ?c = ?p")
    case True
    then show ?thesis using e p unfolding get_page_addr_code_def Let_def s code_entry_ok_def by auto
  next
    case False
    then show ?thesis unfolding get_page_addr_code_def Let_def s by (simp add: fill_ram[OF assms(3)] l IO_MEM_ROM_def)
  qed
qed

text \<open>Whoever asks for pages of code relies on this: whatever happens to the source of the pages, a lookup that
  gives a page gives the one of the address.\<close>

locale code_pages =
  fixes step :: "'s \<Rightarrow> 's \<Rightarrow> bool" and inv :: "'s \<Rightarrow> bool" and lookup :: "u32 \<Rightarrow> bool \<Rightarrow> 's \<Rightarrow> (u64 \<times> 's) option"
    and space :: "u32 \<Rightarrow> bool" and page :: "u32 \<Rightarrow> u64"
  assumes keeps: "step x y \<Longrightarrow> inv x \<Longrightarrow> inv y"
    and lookup_page: "inv x \<Longrightarrow> space pc \<Longrightarrow> lookup pc b x = Some (a, y) \<Longrightarrow> (a = page pc \<or> \<not> b \<and> a = - 1) \<and> inv y"
    and lookup_total: "space pc \<Longrightarrow> inv x \<Longrightarrow> lookup pc False x \<noteq> None"
    and page_low: "space pc \<Longrightarrow> unat (page pc) + 256 < 2 ^ 32"
begin

lemma kept:
  assumes "step\<^sup>*\<^sup>* x y" "inv x"
  shows "inv y"
  using assms by (induction rule: rtranclp_induct) (auto intro: keeps)

lemma later_page:
  assumes "step\<^sup>*\<^sup>* x y" "inv x" "space pc"
  shows "lookup pc True y = Some (a, z) \<Longrightarrow> a = page pc"
  using lookup_page[OF kept[OF assms(1,2)] assms(3), of True] by blast

lemma later_sees:
  assumes "step\<^sup>*\<^sup>* x y" "inv x" "space pc" "debug pc = page pc + ucast (pc AND NOT TARGET_PAGE_MASK32)"
  shows "lookup pc False y \<noteq> None \<and> sees_page page (\<lambda>v. case lookup v False y of Some (a, z) \<Rightarrow> a | None \<Rightarrow> - 1) debug pc"
  using lookup_page[OF kept[OF assms(1,2)] assms(3), of False] lookup_total[OF assms(3) kept[OF assms(1,2)]] assms(4) page_low[OF assms(3)]
  by (auto simp: sees_page_def split: option.splits)

end

definition buffer_lookup :: "(u64 \<Rightarrow> u64) \<Rightarrow> (u32 \<Rightarrow> bool) \<Rightarrow> u32 \<Rightarrow> bool \<Rightarrow> phys_map \<times> tlb_env \<Rightarrow> (u64 \<times> phys_map \<times> tlb_env) option" where
  "buffer_lookup hp allowed pc b x = map_option (\<lambda>(a, t). (a, fst x, t)) (get_page_addr_code hp allowed (fst x) pc b (snd x))"

interpretation buffer: code_pages "tlb_step hp allowed" tlb_inv "buffer_lookup hp allowed" "\<lambda>pc. unat pc < 2 ^ 20" rl78_page for hp allowed
proof
  fix x y :: "phys_map \<times> tlb_env" and pc b a
  assume "tlb_inv x" "unat (pc :: u32) < 2 ^ 20" "buffer_lookup hp allowed pc b x = Some (a, y)"
  then show "(a = rl78_page pc \<or> \<not> b \<and> a = - 1) \<and> tlb_inv y"
    using code_page_mapped[of "fst x" "snd x" pc hp allowed b a "snd y"] by (auto simp: buffer_lookup_def)
next
  fix x :: "phys_map \<times> tlb_env" and pc
  assume "unat (pc :: u32) < 2 ^ 20" "tlb_inv x"
  then show "buffer_lookup hp allowed pc False x \<noteq> None"
    using tlb_ok_lookup[of "snd x" pc hp allowed "fst x"] by (auto simp: buffer_lookup_def tlb_inv_def)
next
  fix pc :: u32 assume "unat pc < 2 ^ 20"
  moreover have "unat (pc AND TARGET_PAGE_MASK32) \<le> unat pc"
    using word_and_le2[of pc TARGET_PAGE_MASK32] by (simp add: word_le_nat_alt)
  ultimately have "unat (rl78_page pc) \<le> unat pc" "unat pc < 2 ^ 20"
    by (simp_all add: rl78_page_def unsigned_ucast_eq take_bit_nat_eq_self)
  then show "unat (rl78_page pc) + 256 < 2 ^ 32" by simp
qed (rule tlb_step_inv)

lemma flushed_inv: "tlb_inv (Map.empty, tlb_flush g t)"
  by (simp add: tlb_inv_def tlb_flush_ok identity_map_def phys_page_find_def)

lemma rl78_debug: "ucast (cpu_get_phys_page_debug pc) = rl78_page pc + ucast (pc AND NOT TARGET_PAGE_MASK32)"
proof -
  have "rl78_page pc + ucast (pc AND NOT TARGET_PAGE_MASK32) = rl78_page pc OR ucast (pc AND NOT TARGET_PAGE_MASK32)"
    unfolding rl78_page_def by (rule disjunctive_add) (auto simp: bit_and_iff bit_ucast_iff bit_not_iff)
  also have "\<dots> = ucast (cpu_get_phys_page_debug pc)"
    by (rule bit_word_eqI) (auto simp: rl78_page_def cpu_get_phys_page_debug_def bit_and_iff bit_or_iff bit_ucast_iff bit_not_iff dest: bit_imp_le_length)
  finally show ?thesis by simp
qed

end
