(* ===== verification/TLB_Store.thy ===== *)
theory TLB_Store
  imports TLB_Code
begin

text \<open>Loads and stores of generated code: the comparison with the lookaside buffer that the host code makes
  (\<^verbatim>\<open>tcg_out_tlb_load\<close> of \<^verbatim>\<open>src/tcg/i386/tcg-target.c\<close>), whose hits mark no block, and the slow path of
  \<^verbatim>\<open>src/include/softmmu_template.h\<close>, which ends a store by marking the blocks of the bytes. A page with code in
  use never hits: it was protected when its first block was linked, and no fill gives it back. Accesses to device
  pages, and those that cross a page, are left out (None).\<close>

section \<open>Accesses\<close>

text \<open>\<^verbatim>\<open>field\<close> is \<^verbatim>\<open>addr_read\<close> or \<^verbatim>\<open>addr_write\<close>, \<^verbatim>\<open>w\<close> the width in bytes, 1 or 2.\<close>

definition inline_hit :: "(CPUTLBEntry \<Rightarrow> u32) \<Rightarrow> u32 \<Rightarrow> u32 \<Rightarrow> tlb_env \<Rightarrow> bool" where
  "inline_hit field w a t \<longleftrightarrow> field (tlb_table t 0 (tlb_index a)) = a AND (TARGET_PAGE_MASK32 OR (w - 1))"

text \<open>The slow path up to the access to the host memory; after one fill the entry is that of the page.\<close>

definition slow_access :: "(CPUTLBEntry \<Rightarrow> u32) \<Rightarrow> (u64 \<Rightarrow> u64) \<Rightarrow> (u32 \<Rightarrow> bool) \<Rightarrow> u32 \<Rightarrow> u32 \<Rightarrow> phys_map \<times> tlb_env \<Rightarrow> (phys_map \<times> tlb_env) option" where
  "slow_access field host_ptr allowed w a x = (case x of (m, t) \<Rightarrow>
     let index = tlb_index a;
         addr0 = field (tlb_table t 0 index);
         t0 = (if addr0 \<noteq> - 1 \<and> addr0 AND TLB_ONE_SHOT \<noteq> 0 then tlb_flush_page a True t else t);
         found = (\<lambda>t. a AND TARGET_PAGE_MASK32 = (field (tlb_table t 0 index) AND NOT TLB_ONE_SHOT) AND (TARGET_PAGE_MASK32 OR TLB_INVALID_MASK));
         t1 = (if found t0 then t0 else tlb_fill host_ptr allowed m a 0 t0);
         tlb_addr = field (tlb_table t1 0 index) AND NOT TLB_ONE_SHOT
     in if \<not> found t1 \<or> tlb_addr AND TLB_MMIO = TLB_MMIO \<or> 256 \<le> (a AND NOT TARGET_PAGE_MASK32) + w - 1 then None
        else Some (m, t1))"

definition soft_load :: "(u64 \<Rightarrow> u64) \<Rightarrow> (u32 \<Rightarrow> bool) \<Rightarrow> u32 \<Rightarrow> u32 \<Rightarrow> phys_map \<times> tlb_env \<Rightarrow> (phys_map \<times> tlb_env) option" where
  "soft_load host_ptr allowed w a x =
     (if inline_hit addr_read w a (snd x) then Some x else slow_access addr_read host_ptr allowed w a x)"

text \<open>The page of code that marking looks up, without filling.\<close>

definition code_tlb :: "(u64 \<Rightarrow> u64) \<Rightarrow> (u32 \<Rightarrow> bool) \<Rightarrow> phys_map \<times> tlb_env \<Rightarrow> u32 \<Rightarrow> u64" where
  "code_tlb host_ptr allowed x v = (case get_page_addr_code host_ptr allowed (fst x) v False (snd x) of Some (a, _) \<Rightarrow> a | None \<Rightarrow> - 1)"

definition mark_store :: "(u64 \<Rightarrow> u64) \<Rightarrow> (u32 \<Rightarrow> bool) \<Rightarrow> TranslationBlock option \<Rightarrow> u32 \<Rightarrow> u32 \<Rightarrow> (phys_map \<times> tlb_env) \<times> tb_state \<Rightarrow> tb_state option" where
  "mark_store host_ptr allowed cur w a y =
     helper_mark_tbs_as_dirty False cur (code_tlb host_ptr allowed (fst y)) (\<lambda>v. ucast (cpu_get_phys_page_debug v)) a w (snd y)"

definition soft_store :: "(u64 \<Rightarrow> u64) \<Rightarrow> (u32 \<Rightarrow> bool) \<Rightarrow> TranslationBlock option \<Rightarrow> u32 \<Rightarrow> u32 \<Rightarrow> (phys_map \<times> tlb_env) \<times> tb_state \<Rightarrow>
    ((phys_map \<times> tlb_env) \<times> tb_state) option" where
  "soft_store host_ptr allowed cur w a y =
     (if inline_hit addr_write w a (snd (fst y)) then Some y
      else do {
        x \<leftarrow> slow_access addr_write host_ptr allowed w a (fst y);
        s \<leftarrow> mark_store host_ptr allowed cur w a (x, snd y);
        Some (x, s) })"

text \<open>What \<^verbatim>\<open>tb_alloc_page\<close> does besides linking a new block: the first block of a page protects it.\<close>

definition protect_block :: "(u64 \<Rightarrow> u64) \<Rightarrow> TranslationBlock \<Rightarrow> phys_map \<times> tlb_env \<Rightarrow> phys_map \<times> tlb_env" where
  "protect_block host_ptr b x =
     (let x1 = (if blk_page_next b 0 = None then tlb_protect_code host_ptr (blk_page_addr b 0) x else x)
      in if blk_page_addr b 1 \<noteq> - 1 \<and> blk_page_next b 1 = None then tlb_protect_code host_ptr (blk_page_addr b 1) x1 else x1)"

section \<open>Protected pages\<close>

definition guest_page :: "u32 \<Rightarrow> bool" where
  "guest_page v \<longleftrightarrow> v AND TARGET_PAGE_MASK32 = v \<and> unat v < 2 ^ 20"

definition guarded :: "phys_map \<times> tlb_env \<Rightarrow> u32 \<Rightarrow> bool" where
  "guarded x v \<longleftrightarrow> (\<forall>d. phys_page_find (drop_bit 8 v) (fst x) = Some d \<longrightarrow> \<not> pd_dirty d) \<and>
     (\<forall>i. addr_write (tlb_table (snd x) 0 i) \<noteq> v)"

text \<open>Entries that hit are those of RAM, at its place in the host.\<close>

definition write_entry_ok :: "(u64 \<Rightarrow> u64) \<Rightarrow> phys_map \<Rightarrow> CPUTLBEntry \<Rightarrow> bool" where
  "write_entry_ok hp m e \<longleftrightarrow> (addr_write e = - 1 \<or> \<not> bit (addr_write e) 0) \<and>
     (guest_page (addr_write e) \<longrightarrow> te_addend e = hp (ucast (addr_write e)) - ucast (addr_write e) \<and>
        (\<forall>d. phys_page_find (drop_bit 8 (addr_write e)) m = Some d \<longrightarrow> \<not> executable_io_mem d))"

definition buffer_ok :: "(u64 \<Rightarrow> u64) \<Rightarrow> phys_map \<times> tlb_env \<Rightarrow> bool" where
  "buffer_ok hp x \<longleftrightarrow> tlb_inv x \<and> (\<forall>i. write_entry_ok hp (fst x) (tlb_table (snd x) 0 i))"

definition guards :: "tb_state \<Rightarrow> nat set \<Rightarrow> phys_map \<times> tlb_env \<Rightarrow> bool" where
  "guards s A x \<longleftrightarrow> (\<forall>i\<in>A. \<forall>n<2. blk_page_addr (tbs s i) n = - 1 \<or>
     (\<exists>v. blk_page_addr (tbs s i) n = ucast v \<and> guest_page v \<and> guarded x v))"

lemma guest_page_of: "unat a < 2 ^ 20 \<Longrightarrow> guest_page (a AND TARGET_PAGE_MASK32)"
  using word_and_le2[of a TARGET_PAGE_MASK32] by (simp add: guest_page_def and.assoc word_le_nat_alt)

lemma flagged_page: "guest_page v \<Longrightarrow> bit w n \<Longrightarrow> n < 8 \<Longrightarrow> w \<noteq> v"
  unfolding guest_page_def using aligned_bit[of v n] by force

lemma page_flags_none:
  assumes "guest_page v" "take_bit 8 k = k" "v OR k = v"
  shows "k = 0"
proof (rule bit_word_eqI)
  fix n
  have "bit k n \<longrightarrow> bit v n" using assms(3) by (metis bit_or_iff)
  then show "bit k n \<longleftrightarrow> bit 0 n" using low_bit[OF assms(2), of n] assms(1) aligned_bit[of v n] by (auto simp: guest_page_def)
qed

text \<open>What a fill writes.\<close>

lemma fill_entry:
  fixes hp allowed t
  assumes "identity_map m" "unat a < 2 ^ 20"
  defines "v \<equiv> a AND TARGET_PAGE_MASK32" and "t' \<equiv> tlb_fill hp allowed m a 0 t"
  shows "i \<noteq> tlb_index a \<Longrightarrow> tlb_table t' 0 i = tlb_table t 0 i"
    "\<exists>k. addr_write (tlb_table t' 0 (tlb_index a)) = v OR k \<and> take_bit 8 k = k \<and> \<not> bit k 0 \<and> \<not> bit k 3 \<and>
      (k = 0 \<longrightarrow> te_addend (tlb_table t' 0 (tlb_index a)) = hp (ucast v) - ucast v \<and>
        (\<exists>d. phys_page_find (drop_bit 8 v) m = Some d \<and> \<not> executable_io_mem d \<and> pd_dirty d))"
proof -
  have v: "v AND TARGET_PAGE_MASK32 = v" "unat v < 2 ^ 20" "tlb_index v = tlb_index a"
    using guest_page_of[OF assms(2)] by (simp_all add: v_def guest_page_def)
  have f: "t' = tlb_set_page hp allowed m v v 7 0 256 t"
    by (simp add: t'_def v_def tlb_fill_def arch_tlb_fill_def Let_def TARGET_PAGE_MASK32_def TARGET_PAGE_MASK_def mask_eq_exp_minus_1 PAGE_READ_def PAGE_WRITE_def PAGE_EXEC_def)
  show "i \<noteq> tlb_index a \<Longrightarrow> tlb_table t' 0 i = tlb_table t 0 i"
    unfolding f tlb_set_page_def Let_def by (simp add: set_entry_def v(3))
  define p where "p = phys_page_find (drop_bit 8 v) m"
  define pd where "pd = (case p of
              None \<Rightarrow> IO_MEM_UNASSIGNED
            | Some d \<Rightarrow> if external_permissions d \<and> \<not> allowed v then IO_MEM_UNASSIGNED
                else if executable_io_mem d then (phys_offset d AND NOT (mask 8)) OR IO_MEM_EXECUTABLE_IO
                else phys_offset d)"
  define io where "io \<longleftrightarrow> IO_MEM_ROM < pd AND mask 8 \<and> \<not> pd AND IO_MEM_ROMD \<noteq> 0"
  define exec_io where "exec_io \<longleftrightarrow> pd AND IO_MEM_EXECUTABLE_IO \<noteq> 0"
  define clean where "clean \<longleftrightarrow> (case p of Some d \<Rightarrow> \<not> pd_dirty d | None \<Rightarrow> False)"
  define c where "c = (if io then (v OR TLB_MMIO) OR (if exec_io then ucast IO_MEM_EXECUTABLE_IO else 0) else v)"
  define c2 where "c2 = (if is_io_accessed v t then c OR TLB_MMIO else c)"
  let ?e = "tlb_table t' 0 (tlb_index a)"
  have e: "addr_write ?e = (if pd AND mask 8 = IO_MEM_ROM \<or> pd AND IO_MEM_ROMD \<noteq> 0 then c2 OR TLB_MMIO
      else if pd AND mask 8 = IO_MEM_RAM \<and> clean then c2 OR TLB_NOTDIRTY else c2)"
    "te_addend ?e = (if io then 0 else hp (pd AND NOT (mask 8))) - ucast v"
    unfolding f tlb_set_page_def Let_def p_def[symmetric] pd_def[symmetric] io_def[symmetric] exec_io_def[symmetric] clean_def[symmetric]
    by (simp_all add: set_entry_def v(3) PAGE_WRITE_def c_def c2_def)
  have low: "ucast v AND mask 8 = (0 :: u64)" "ucast v AND IO_MEM_ROMD = (0 :: u64)" "ucast v AND NOT (mask 8) = (ucast v :: u64)"
    using ucast_page[of v]
    by (auto intro!: bit_word_eqI simp: v(1) bit_and_iff bit_mask_iff bit_ucast_iff IO_MEM_ROMD_def bit_1_iff dest!: aligned_bit[OF v(1)])
  have tb: "take_bit 8 TLB_MMIO = TLB_MMIO" "take_bit 8 TLB_NOTDIRTY = TLB_NOTDIRTY" "take_bit 8 (ucast IO_MEM_EXECUTABLE_IO :: u32) = ucast IO_MEM_EXECUTABLE_IO"
    "TLB_MMIO \<noteq> 0" "TLB_NOTDIRTY \<noteq> 0" "\<not> bit TLB_MMIO 0" "\<not> bit TLB_NOTDIRTY 0" "\<not> bit (ucast IO_MEM_EXECUTABLE_IO :: u32) 0"
    "\<not> bit TLB_MMIO 3" "\<not> bit TLB_NOTDIRTY 3" "\<not> bit (ucast IO_MEM_EXECUTABLE_IO :: u32) 3"
    by (simp_all add: TLB_MMIO_def TLB_NOTDIRTY_def IO_MEM_EXECUTABLE_IO_def take_bit_eq_mask mask_eq_exp_minus_1)
  have flag: "\<exists>k. w = v OR k \<and> take_bit 8 k = k \<and> \<not> bit k 0 \<and> \<not> bit k 3 \<and> (k = 0 \<longrightarrow> Q)" if "w = v OR k" "take_bit 8 k = k" "\<not> bit k 0" "\<not> bit k 3" "k \<noteq> 0 \<or> Q" for w k Q
    using that by blast
  have or0: "k OR l \<noteq> 0" if "k \<noteq> 0" for k l :: u32 using that by (metis or_eq_0_iff)
  consider (un) "pd = IO_MEM_UNASSIGNED" | (ram) d where "p = Some d" "\<not> executable_io_mem d" "pd = ucast v" | (ex) d :: PhysPageDesc where "pd = (phys_offset d AND NOT (mask 8)) OR IO_MEM_EXECUTABLE_IO"
  proof (cases p)
    case None
    then show ?thesis using that(1) by (simp add: pd_def)
  next
    case (Some d)
    have i: "executable_io_mem d \<or> phys_offset d = IO_MEM_UNASSIGNED \<or> phys_offset d = ucast v"
      using assms(1) v(1,2) Some unfolding identity_map_def p_def by blast
    show ?thesis
    proof (cases "external_permissions d \<and> \<not> allowed v")
      case True
      then show ?thesis using that(1) by (simp add: pd_def Some)
    next
      case False
      show ?thesis
      proof (cases "executable_io_mem d")
        case True
        have "pd = (phys_offset d AND NOT (mask 8)) OR IO_MEM_EXECUTABLE_IO"
          unfolding pd_def Some option.case if_not_P[OF False] if_P[OF True] ..
        then show ?thesis using that(3) by blast
      next
        case nex: False
        have "pd = phys_offset d" unfolding pd_def Some option.case if_not_P[OF False] if_not_P[OF nex] ..
        then show ?thesis using i nex that(1) that(2)[OF Some nex] by metis
      qed
    qed
  qed
  then show "\<exists>k. addr_write ?e = v OR k \<and> take_bit 8 k = k \<and> \<not> bit k 0 \<and> \<not> bit k 3 \<and>
      (k = 0 \<longrightarrow> te_addend ?e = hp (ucast v) - ucast v \<and>
        (\<exists>d. phys_page_find (drop_bit 8 v) m = Some d \<and> \<not> executable_io_mem d \<and> pd_dirty d))"
  proof cases
    case ram
    have n: "\<not> io" by (simp add: io_def ram(3) low IO_MEM_ROM_def)
    have k: "addr_write ?e = v OR ((if is_io_accessed v t then TLB_MMIO else 0) OR (if clean then TLB_NOTDIRTY else 0))"
      by (simp add: e(1) ram(3) low IO_MEM_ROM_def IO_MEM_RAM_def c2_def c_def n or.assoc)
    have "te_addend ?e = hp (ucast v) - ucast v" by (simp add: e(2) n ram(3) low)
    moreover have "clean \<longleftrightarrow> \<not> pd_dirty d" by (simp add: clean_def ram(1))
    moreover have "p = Some d" using ram(1) .
    ultimately show ?thesis using ram(2) by (intro flag[OF k]) (auto simp: tb bit_or_iff p_def[symmetric] or0)
  next
    case un
    have io: io by (simp add: io_def un IO_MEM_UNASSIGNED_def IO_MEM_ROM_def IO_MEM_ROMD_def mask_eq_exp_minus_1)
    have kind: "\<not> (pd AND mask 8 = IO_MEM_ROM \<or> pd AND IO_MEM_ROMD \<noteq> 0)" "pd AND mask 8 \<noteq> IO_MEM_RAM"
      by (simp_all add: un IO_MEM_UNASSIGNED_def IO_MEM_ROM_def IO_MEM_ROMD_def IO_MEM_RAM_def mask_eq_exp_minus_1)
    have k: "addr_write ?e = v OR (TLB_MMIO OR ((if exec_io then ucast IO_MEM_EXECUTABLE_IO else 0) OR (if is_io_accessed v t then TLB_MMIO else 0)))"
      by (simp add: e(1) kind c2_def c_def io or.assoc)
    show ?thesis by (rule flag[OF k]) (auto simp: tb bit_or_iff or0)
  next
    case ex
    have "bit (pd AND mask 8) 6" by (simp add: ex bit_and_iff bit_or_iff bit5 bit_mask_iff)
    moreover have kk: "pd AND mask 8 = 64" unfolding ex IO_MEM_EXECUTABLE_IO_def by (simp add: bit.conj_disj_distrib2 and.assoc mask_eq_exp_minus_1)
    have romd: "pd AND IO_MEM_ROMD = 0"
    proof -
      have "(pd AND mask 8) AND 1 = pd AND 1" by (simp add: and.assoc mask_eq_exp_minus_1)
      then show ?thesis by (simp add: kk IO_MEM_ROMD_def)
    qed
    have io: io by (simp add: io_def kk romd IO_MEM_ROM_def)
    have k: "addr_write ?e = v OR (TLB_MMIO OR ((if exec_io then ucast IO_MEM_EXECUTABLE_IO else 0) OR (if is_io_accessed v t then TLB_MMIO else 0)))"
      by (simp add: e(1) kk romd IO_MEM_ROM_def IO_MEM_RAM_def c2_def c_def io or.assoc)
    show ?thesis by (rule flag[OF k]) (auto simp: tb bit_or_iff or0)
  qed
qed

text \<open>So a store misses at most once: behind a fill the slow path finds its page.\<close>

lemma fill_found:
  assumes "identity_map m" "unat a < 2 ^ 20"
  shows "(addr_write (tlb_table (tlb_fill hp allowed m a 0 t) 0 (tlb_index a)) AND NOT TLB_ONE_SHOT) AND (TARGET_PAGE_MASK32 OR TLB_INVALID_MASK) =
    a AND TARGET_PAGE_MASK32"
proof -
  obtain k where k: "addr_write (tlb_table (tlb_fill hp allowed m a 0 t) 0 (tlb_index a)) = (a AND TARGET_PAGE_MASK32) OR k" "take_bit 8 k = k" "\<not> bit k 3"
    using fill_entry(2)[OF assms, where hp = hp and allowed = allowed and t = t] by blast
  have e: "TLB_ONE_SHOT = 2 ^ 2" "TLB_INVALID_MASK = 2 ^ 3" by (simp_all add: TLB_ONE_SHOT_def TLB_INVALID_MASK_def)
  have b: "bit TLB_ONE_SHOT n \<longleftrightarrow> n = 2" "bit TLB_INVALID_MASK n \<longleftrightarrow> n = 3" for n
    by (simp_all only: e bit_exp_iff) auto
  show ?thesis unfolding k(1)
    by (rule bit_word_eqI) (use k(3) in \<open>auto simp: bit_and_iff bit_or_iff bit_not_iff b dest: low_bit[OF k(2)]\<close>)
qed

lemma fill_ok:
  assumes "buffer_ok hp (m, t)" "unat a < 2 ^ 20"
  shows "buffer_ok hp (m, tlb_fill hp allowed m a 0 t)"
proof -
  let ?t = "tlb_fill hp allowed m a 0 t" and ?v = "a AND TARGET_PAGE_MASK32"
  have id: "identity_map m" and inv: "tlb_inv (m, ?t)" and old: "\<And>i. write_entry_ok hp m (tlb_table t 0 i)"
    using assms(1) by (simp_all add: buffer_ok_def tlb_inv_def tlb_fill_ok)
  note new = fill_entry[OF id assms(2), where hp = hp and allowed = allowed and t = t]
  have v: "guest_page ?v" by (rule guest_page_of[OF assms(2)])
  obtain k where k: "addr_write (tlb_table ?t 0 (tlb_index a)) = ?v OR k" "take_bit 8 k = k" "\<not> bit k 0"
    "k = 0 \<longrightarrow> te_addend (tlb_table ?t 0 (tlb_index a)) = hp (ucast ?v) - ucast ?v \<and>
        (\<exists>d. phys_page_find (drop_bit 8 ?v) m = Some d \<and> \<not> executable_io_mem d \<and> pd_dirty d)" using new(2) by blast
  have "k = 0" if "guest_page (?v OR k)"
  proof -
    have "(?v OR k) AND TARGET_PAGE_MASK32 = ?v" using v k(2) by (intro low_page(1)) (simp_all add: guest_page_def)
    then have "?v OR k = ?v" using that by (simp add: guest_page_def)
    then show "k = 0" by (rule page_flags_none[OF v k(2)])
  qed
  moreover have "\<not> bit (?v OR k) 0" using k(3) v aligned_bit[of ?v 0] by (auto simp: bit_or_iff guest_page_def)
  ultimately have "write_entry_ok hp m (tlb_table ?t 0 (tlb_index a))"
    using k(4) by (auto simp: write_entry_ok_def k(1))
  then have "write_entry_ok hp m (tlb_table ?t 0 i)" for i using new(1)[of i] old[of i] by (cases "i = tlb_index a") auto
  then show ?thesis using inv by (simp add: buffer_ok_def)
qed

lemma fill_guarded:
  assumes "buffer_ok hp (m, t)" "unat a < 2 ^ 20" "guest_page u" "guarded (m, t) u"
  shows "guarded (m, tlb_fill hp allowed m a 0 t) u"
proof -
  let ?t = "tlb_fill hp allowed m a 0 t" and ?v = "a AND TARGET_PAGE_MASK32"
  have id: "identity_map m" using assms(1) by (simp add: buffer_ok_def tlb_inv_def)
  note new = fill_entry[OF id assms(2), where hp = hp and allowed = allowed and t = t]
  have "addr_write (tlb_table ?t 0 (tlb_index a)) \<noteq> u"
  proof
    assume u: "addr_write (tlb_table ?t 0 (tlb_index a)) = u"
    obtain k where k: "addr_write (tlb_table ?t 0 (tlb_index a)) = ?v OR k" "take_bit 8 k = k"
      "k = 0 \<longrightarrow> (\<exists>d. phys_page_find (drop_bit 8 ?v) m = Some d \<and> pd_dirty d)" using new(2) by blast
    then have "u = ?v" using low_page(1)[of ?v k] guest_page_of[OF assms(2)] u assms(3) by (simp add: guest_page_def)
    then have "k = 0" using page_flags_none[OF guest_page_of[OF assms(2)] k(2)] k(1) u by simp
    then show False using k(3) assms(4) \<open>u = ?v\<close> by (auto simp: guarded_def)
  qed
  then have "addr_write (tlb_table ?t 0 i) \<noteq> u" for i using new(1)[of i] assms(4) by (cases "i = tlb_index a") (auto simp: guarded_def)
  then show ?thesis using assms(4) by (simp add: guarded_def)
qed

text \<open>An access that forgets a page first.\<close>

lemma flush_entries: "tlb_table (tlb_flush_page a g t) 0 i = tlb_table t 0 i \<or> tlb_table (tlb_flush_page a g t) 0 i = s_cputlb_empty_entry"
  by (auto simp: tlb_flush_page_def tlb_flush_page_masked_def tlb_flush_def tlb_flush_jmp_cache_def tlb_flush_entry_def Let_def)

lemma empty_entry_ok: "write_entry_ok hp m s_cputlb_empty_entry" "guest_page v \<Longrightarrow> addr_write s_cputlb_empty_entry \<noteq> v"
proof -
  show n: "guest_page v \<Longrightarrow> addr_write s_cputlb_empty_entry \<noteq> v" for v
    using flagged_page[of v "- 1" 0] by (auto simp: s_cputlb_empty_entry_def)
  show "write_entry_ok hp m s_cputlb_empty_entry" 
    using n[of "addr_write s_cputlb_empty_entry"] unfolding write_entry_ok_def by (auto simp: s_cputlb_empty_entry_def)
qed

lemma flush_page_ok: "buffer_ok hp (m, t) \<Longrightarrow> buffer_ok hp (m, tlb_flush_page a g t)"
  using flush_entries[of a g t] empty_entry_ok(1)[of hp m] tlb_flush_page_ok[of t a g] by (auto simp: buffer_ok_def tlb_inv_def) metis+

lemma flush_page_guarded: "guest_page v \<Longrightarrow> guarded (m, t) v \<Longrightarrow> guarded (m, tlb_flush_page a g t) v"
  using flush_entries[of a g t] empty_entry_ok(2)[of v] unfolding guarded_def fst_conv snd_conv by metis

text \<open>Protecting a page guards it, and takes no guard away.\<close>

lemma protect_entries:
  "tlb_table (snd (tlb_protect_code hp r (m, t))) 0 i = tlb_reset_dirty_range
     (if case phys_page_find (ucast (drop_bit 8 r)) m of None \<Rightarrow> True | Some d \<Rightarrow> \<not> executable_io_mem d then hp r else r) 256 (tlb_table t 0 i)"
  by (simp add: tlb_protect_code_def Let_def NB_MMU_MODES_def)

lemma reset_cases:
  "tlb_reset_dirty_range start len e = e \<or> bit (addr_write (tlb_reset_dirty_range start len e)) 4 \<and> \<not> bit (addr_write (tlb_reset_dirty_range start len e)) 0"
proof -
  have "bit ((addr_write e AND TARGET_PAGE_MASK32) OR TLB_NOTDIRTY) 4" "\<not> bit ((addr_write e AND TARGET_PAGE_MASK32) OR TLB_NOTDIRTY) 0"
    by (simp_all add: bit_or_iff bit_and_iff TLB_NOTDIRTY_def)
  then show ?thesis by (auto simp: tlb_reset_dirty_range_def Let_def)
qed

lemma protect_map: "fst (tlb_protect_code hp r (m, t)) = phys_page_upd (ucast (drop_bit 8 r)) (\<lambda>d. d\<lparr>pd_dirty := False\<rparr>) m"
  by (simp add: tlb_protect_code_def Let_def)

lemma protect_keeps:
  assumes "buffer_ok hp x"
  shows "buffer_ok hp (tlb_protect_code hp r x)" "guest_page v \<Longrightarrow> guarded x v \<Longrightarrow> guarded (tlb_protect_code hp r x) v"
proof -
  obtain m t where x: "x = (m, t)" by fastforce
  let ?y = "tlb_protect_code hp r (m, t)"
  have same: "\<exists>d'. phys_page_find j m = Some d' \<and> executable_io_mem d' = executable_io_mem d \<and> (pd_dirty d \<longrightarrow> pd_dirty d')"
    if "phys_page_find j (fst ?y) = Some d" for j d
    using that[unfolded protect_map] by (rule find_upd) auto
  have e: "tlb_table (snd ?y) 0 i = tlb_table t 0 i \<or> bit (addr_write (tlb_table (snd ?y) 0 i)) 4 \<and> \<not> bit (addr_write (tlb_table (snd ?y) 0 i)) 0" for i
    using protect_entries[of hp r m t i] reset_cases by metis
  have "write_entry_ok hp (fst ?y) (tlb_table (snd ?y) 0 i)" for i
    using e[of i]
  proof
    assume s: "tlb_table (snd ?y) 0 i = tlb_table t 0 i"
    have "write_entry_ok hp m (tlb_table t 0 i)" using assms by (simp add: x buffer_ok_def)
    then show ?thesis unfolding s write_entry_ok_def using same by metis
  next
    assume b: "bit (addr_write (tlb_table (snd ?y) 0 i)) 4 \<and> \<not> bit (addr_write (tlb_table (snd ?y) 0 i)) 0"
    then have "\<not> guest_page (addr_write (tlb_table (snd ?y) 0 i))" using flagged_page[of _ _ 4] by (metis numeral_less_iff semiring_norm(76,78))
    then show ?thesis using b by (simp add: write_entry_ok_def)
  qed
  moreover have "tlb_inv ?y" using tlb_step_inv[OF tlb_step.protect] assms by (auto simp: x buffer_ok_def)
  ultimately show "buffer_ok hp (tlb_protect_code hp r x)" by (simp add: x buffer_ok_def)
  show "guarded (tlb_protect_code hp r x) v" if "guest_page v" "guarded x v"
  proof -
    have "addr_write (tlb_table (snd ?y) 0 i) \<noteq> v" for i
      using e[of i] that flagged_page[OF that(1), of "addr_write (tlb_table (snd ?y) 0 i)" 4] by (auto simp: x guarded_def)
    moreover have "\<not> pd_dirty d" if "phys_page_find (drop_bit 8 v) (fst ?y) = Some d" for d
      using same[OF that] \<open>guarded x v\<close> by (auto simp: x guarded_def)
    ultimately show ?thesis by (simp add: x guarded_def)
  qed
qed

lemma protect_guards:
  assumes "buffer_ok hp x" "guest_page v"
  shows "guarded (tlb_protect_code hp (ucast v) x) v"
proof -
  obtain m t where x: "x = (m, t)" by fastforce
  let ?y = "tlb_protect_code hp (ucast v) (m, t)"
  have v: "v AND TARGET_PAGE_MASK32 = v" using assms(2) by (simp add: guest_page_def)
  have idx: "ucast (drop_bit 8 (ucast v :: u64)) = drop_bit 8 v"
    by (rule bit_word_eqI) (auto simp: bit_ucast_iff bit_drop_bit_eq dest: bit_imp_le_length)
  have "\<not> pd_dirty d" if "phys_page_find (drop_bit 8 v) (fst ?y) = Some d" for d
    using that unfolding protect_map idx by (rule find_upd_here) simp
  moreover have "addr_write (tlb_table (snd ?y) 0 i) \<noteq> v" for i
  proof (cases "addr_write (tlb_table t 0 i) = v")
    case True
    let ?e = "tlb_table t 0 i"
    have "write_entry_ok hp m ?e" using assms(1) by (simp add: x buffer_ok_def)
    then have e: "te_addend ?e = hp (ucast v) - ucast v" "\<And>d. phys_page_find (drop_bit 8 v) m = Some d \<Longrightarrow> \<not> executable_io_mem d"
      using assms(2) unfolding write_entry_ok_def True by blast+
    have low: "ucast v AND mask 8 = (0 :: u64)" "ucast v AND NOT (mask 8) = (ucast v :: u64)"
      using ucast_page[of v] by (auto intro!: bit_word_eqI simp: v bit_and_iff bit_mask_iff bit_ucast_iff dest!: aligned_bit[OF v])
    have "(case phys_page_find (drop_bit 8 v) m of None \<Rightarrow> True | Some d \<Rightarrow> \<not> executable_io_mem d)" using e(2) by (auto split: option.split)
    then have "addr_write (tlb_table (snd ?y) 0 i) = v OR TLB_NOTDIRTY"
      by (simp add: protect_entries idx tlb_reset_dirty_range_def Let_def True low e(1) IO_MEM_RAM_def v)
    moreover have "bit (v OR TLB_NOTDIRTY) 4" by (simp add: bit_or_iff TLB_NOTDIRTY_def)
    ultimately show ?thesis using flagged_page[OF assms(2), of "v OR TLB_NOTDIRTY" 4] by simp
  next
    case False
    then show ?thesis using reset_cases[of _ 256 "tlb_table t 0 i"] flagged_page[OF assms(2), of _ 4]
      by (metis protect_entries numeral_less_iff semiring_norm(76,78))
  qed
  ultimately show ?thesis by (simp add: x guarded_def)
qed

section \<open>Stores\<close>

lemma page_div:
  fixes u j k :: nat
  shows "u mod 256 = 0 \<Longrightarrow> j < 256 \<Longrightarrow> (u + j) div 256 = u div 256"
    "u mod 256 + k \<le> 256 \<Longrightarrow> u \<le> j \<Longrightarrow> j < u + k \<Longrightarrow> j div 256 = u div 256"
proof -
  have q: "u = 256 * (u div 256) + u mod 256" by simp
  have d: "(256 * q + r) div 256 = q" if "r < 256" for q r :: nat using that by simp
  show "(u + j) div 256 = u div 256" if "u mod 256 = 0" "j < 256" using d[of j "u div 256"] q that by simp
  show "j div 256 = u div 256" if "u mod 256 + k \<le> 256" "u \<le> j" "j < u + k"
  proof -
    have "j = 256 * (u div 256) + (u mod 256 + (j - u))" "u mod 256 + (j - u) < 256" using q that by linarith+
    then show ?thesis using d by metis
  qed
qed

lemma page_bytes_bound: "j \<in> page_bytes b n \<Longrightarrow> j < 256"
  by (auto simp: page_bytes_def page_off_eq split: if_splits intro: less_trans[OF _ mod_less_divisor])

lemma guarded_addrs:
  assumes "guards s A x" "guest_page v" "\<not> guarded x v" "i \<in> A" "p \<in> block_addrs (tbs s i)" "blk_page_addr (tbs s i) 0 \<noteq> - 1"
  shows "unat p div 256 \<noteq> unat v div 256"
proof -
  have "\<exists>n<2. \<exists>j<256. blk_page_addr (tbs s i) n \<noteq> - 1 \<and> p = blk_page_addr (tbs s i) n + of_nat j"
  proof (cases "p \<in> (\<lambda>j. blk_page_addr (tbs s i) 0 + of_nat j) ` page_bytes (tbs s i) 0")
    case True
    then show ?thesis using assms(6) page_bytes_bound by (intro exI[of _ 0]) auto
  next
    case False
    then have "blk_page_addr (tbs s i) 1 \<noteq> - 1" "p \<in> (\<lambda>j. blk_page_addr (tbs s i) 1 + of_nat j) ` page_bytes (tbs s i) 1"
      using assms(5) unfolding block_addrs_def by (simp_all split: if_splits)
    then show ?thesis using page_bytes_bound by (intro exI[of _ 1]) auto
  qed
  then obtain n j where n: "n < 2" "j < 256" "blk_page_addr (tbs s i) n \<noteq> - 1" "p = blk_page_addr (tbs s i) n + of_nat j" by blast
  then obtain u where u: "blk_page_addr (tbs s i) n = ucast u" "guest_page u" "guarded x u"
    using assms(1,4) unfolding guards_def by blast
  have al: "unat u mod 256 = 0" "unat u < 2 ^ 20" using u(2) page_mod[of u] by (simp_all add: guest_page_def)
  have "unat p = unat u + j"
    using n(2) al(2) by (simp add: n(4) u(1) unat_word_ariths(1) unat_of_nat unsigned_ucast_eq take_bit_nat_eq_self)
  then have "unat p div 256 = unat u div 256" using page_div(1)[OF al(1) n(2)] by simp
  moreover have "u \<noteq> v" using u(3) assms(3) by blast
  ultimately show ?thesis using page_addr_unique[of u v] u(2) assms(2) by (auto simp: guest_page_def)
qed

lemma hit_page:
  assumes "buffer_ok hp x" "w = 1 \<or> w = 2" "inline_hit addr_write w a (snd x)"
  shows "addr_write (tlb_table (snd x) 0 (tlb_index a)) = a AND TARGET_PAGE_MASK32" "unat a mod 256 + unat w \<le> 256"
proof -
  let ?e = "tlb_table (snd x) 0 (tlb_index a)"
  have h: "addr_write ?e = a AND (TARGET_PAGE_MASK32 OR (w - 1))" using assms(3) by (simp add: inline_hit_def)
  have "write_entry_ok hp (fst x) ?e" using assms(1) by (simp add: buffer_ok_def)
  moreover have "\<not> bit (addr_write ?e) 1" using assms(2) by (auto simp: h bit_and_iff bit_or_iff bit_1_iff)
  ultimately have b: "\<not> bit (addr_write ?e) 0" by (auto simp: write_entry_ok_def)
  have "a AND (TARGET_PAGE_MASK32 OR (w - 1)) = a AND TARGET_PAGE_MASK32 \<and> unat a mod 256 + unat w \<le> 256"
    using assms(2)
  proof
    assume w: "w = 2"
    have b0: "\<not> bit a 0" using b unfolding h w by (simp add: bit_and_iff bit_or_iff)
    have "take_bit 1 a = 0"
    proof (rule bit_word_eqI)
      fix n
      show "bit (take_bit 1 a) n \<longleftrightarrow> bit 0 n"
      proof (cases n)
        case 0
        then show ?thesis unfolding bit_take_bit_iff using b0 by (metis bit_0_eq bot_apply bot_bool_def)
      qed (simp add: bit_take_bit_iff)
    qed
    then have "take_bit 1 (unat a) = 0" by (metis unsigned_take_bit_eq unsigned_0)
    then have e: "even (unat a)" by (simp add: take_bit_eq_mod even_iff_mod_2_eq_zero)
    have "a AND (TARGET_PAGE_MASK32 OR 1) = a AND TARGET_PAGE_MASK32"
    proof (intro bit_word_eqI)
      fix n
      show "bit (a AND (TARGET_PAGE_MASK32 OR 1)) n \<longleftrightarrow> bit (a AND TARGET_PAGE_MASK32) n"
      proof (cases n)
        case 0
        then show ?thesis unfolding bit_and_iff using b0 by blast
      qed (simp add: bit_and_iff bit_or_iff bit_1_iff)
    qed
    moreover have "unat a mod 256 \<noteq> 255" using e by presburger
    moreover have "unat a mod 256 < 256" by simp
    ultimately show ?thesis using w by simp
  qed (simp add: less_eq_Suc_le[symmetric])
  then show "addr_write ?e = a AND TARGET_PAGE_MASK32" "unat a mod 256 + unat w \<le> 256" by (simp_all add: h)
qed

lemma hit_outside:
  assumes "cache_inv s A" "guards s A x" "buffer_ok hp x" "unat a < 2 ^ 20" "w = 1 \<or> w = 2" "inline_hit addr_write w a (snd x)" "i \<in> A"
  shows "block_addrs (tbs s i) \<inter> {ucast a..<ucast a + ucast w} = {}"
proof -
  note h = hit_page[OF assms(3,5,6)]
  let ?v = "a AND TARGET_PAGE_MASK32"
  have v: "guest_page ?v" by (rule guest_page_of[OF assms(4)])
  have ng: "\<not> guarded x ?v" using h(1) by (auto simp: guarded_def)
  have vd: "unat ?v div 256 = unat a div 256"
  proof -
    have "drop_bit 8 ?v = drop_bit 8 a" by (rule bit_word_eqI) (auto simp: bit_drop_bit_eq bit_and_iff dest: bit_imp_le_length)
    then have "unat (drop_bit 8 ?v) = unat (drop_bit 8 a)" by simp
    then show ?thesis by (simp only: unat_drop_bit_eq) (simp add: drop_bit_eq_div)
  qed
  have "block_ok (tbs s i)" using assms(1,7) by (auto simp: cache_inv_def tb_inv_def link_inv_def)
  then have z: "blk_page_addr (tbs s i) 0 \<noteq> - 1" by (auto simp: block_ok_def)
  have "unat p div 256 = unat a div 256" if "ucast a \<le> p" "p < ucast a + ucast w" for p :: u64
  proof -
    have w: "unat w \<le> 2" "(unat (ucast a + ucast w :: u64)) = unat a + unat w" using assms(4,5)
      by (auto simp: unat_word_ariths(1) unsigned_ucast_eq take_bit_nat_eq_self)
    then have "unat a \<le> unat p" "unat p < unat a + unat w"
      using that assms(4) by (simp_all add: word_le_nat_alt word_less_nat_alt unsigned_ucast_eq take_bit_nat_eq_self)
    then have "unat p div 256 = unat a div 256" using page_div(2)[OF h(2)] by blast
    then show ?thesis .
  qed
  then show ?thesis using guarded_addrs[OF assms(2) v ng assms(7) _ z] vd by fastforce
qed

text \<open>The slow path keeps the buffer and all guards; after its fill the entry is that of the page.\<close>

lemma slow_access_keeps:
  assumes "slow_access field hp allowed w a x = Some y" "buffer_ok hp x" "unat a < 2 ^ 20" "w = 1 \<or> w = 2"
  shows "buffer_ok hp y" "guest_page v \<Longrightarrow> guarded x v \<Longrightarrow> guarded y v" "unat a mod 256 + unat w \<le> 256"
proof -
  obtain m t where x: "x = (m, t)" by fastforce
  define t0 where "t0 = (if field (tlb_table t 0 (tlb_index a)) \<noteq> - 1 \<and> field (tlb_table t 0 (tlb_index a)) AND TLB_ONE_SHOT \<noteq> 0 then tlb_flush_page a True t else t)"
  have "y = (m, t0) \<or> y = (m, tlb_fill hp allowed m a 0 t0)"
    using assms(1) unfolding slow_access_def x prod.case Let_def t0_def[symmetric] by (auto split: if_splits)
  moreover have 0: "buffer_ok hp (m, t0)" "\<And>v. guest_page v \<Longrightarrow> guarded (m, t) v \<Longrightarrow> guarded (m, t0) v"
    using assms(2) flush_page_ok flush_page_guarded by (auto simp: x t0_def)
  ultimately show "buffer_ok hp y" "guest_page v \<Longrightarrow> guarded x v \<Longrightarrow> guarded y v"
    using fill_ok[OF 0(1) assms(3)] fill_guarded[OF 0(1) assms(3)] by (auto simp: x)
  have "\<not> 256 \<le> (a AND NOT TARGET_PAGE_MASK32) + w - 1" using assms(1) by (auto simp: slow_access_def x Let_def split: if_splits)
  moreover have "unat ((a AND NOT TARGET_PAGE_MASK32) + w - 1) = unat a mod 256 + unat w - 1"
    using assms(4) page_off_eq[of a] by (auto simp: unat_word_ariths(1) add.assoc)
  ultimately show "unat a mod 256 + unat w \<le> 256" by (simp add: word_le_nat_alt)
qed

lemma guards_mono:
  assumes "guards s A x" "A' \<subseteq> A" "\<And>i n. i \<in> A' \<Longrightarrow> blk_page_addr (tbs s' i) n = blk_page_addr (tbs s i) n"
    "\<And>v. guest_page v \<Longrightarrow> guarded x v \<Longrightarrow> guarded y v"
  shows "guards s' A' y"
  using assms unfolding guards_def by (metis subsetD)

lemma code_tlb_sees:
  assumes "buffer_ok hp x" "unat a < 2 ^ 20"
  shows "sees_page rl78_page (code_tlb hp allowed x) (\<lambda>v. ucast (cpu_get_phys_page_debug v)) a"
proof -
  have "code_tlb hp allowed x = (\<lambda>v. case buffer_lookup hp allowed v False x of Some (a, z) \<Rightarrow> a | None \<Rightarrow> - 1)"
    by (auto simp: fun_eq_iff code_tlb_def buffer_lookup_def split: option.split)
  moreover have "tlb_inv x" using assms(1) by (simp add: buffer_ok_def)
  ultimately show ?thesis
    using buffer.later_sees[where debug = "\<lambda>v. ucast (cpu_get_phys_page_debug v)", OF rtranclp.rtrancl_refl _ assms(2) rl78_debug] by metis
qed

text \<open>The page of an address is that of its page number, and pages that follow each other have different lists.\<close>

lemma pkey_page: "pkey (drop_bit 8 (ucast v :: u64)) = unat v div 256 mod 4096" for v :: u32
proof -
  have "(0xFFF :: u64) = mask 12" by (simp add: mask_eq_exp_minus_1)
  then have "pkey (drop_bit 8 (ucast v :: u64)) = take_bit 12 (unat (drop_bit 8 (ucast v :: u64)))"
    by (simp only: pkey_def take_bit_eq_mask[symmetric] unsigned_take_bit_eq)
  also have "unat (drop_bit 8 (ucast v :: u64)) = unat v div 256"
    using unsigned_less[of v, where ?'a = nat] by (simp only: unsigned_drop_bit_eq unsigned_ucast_eq) (simp add: take_bit_nat_eq_self drop_bit_eq_div)
  finally show ?thesis by (simp add: take_bit_eq_mod)
qed

lemma rl78_page_map: "page_map rl78_page"
proof -
  have "pkey (drop_bit 8 (rl78_page pc)) \<noteq> pkey (drop_bit 8 (rl78_page ((pc AND TARGET_PAGE_MASK32) + 256)))" for pc
  proof -
    define q where "q = unat pc div 256"
    have b: "unat (pc AND TARGET_PAGE_MASK32) = q * 256" by (simp add: page_base_nat q_def)
    have "q < 2 ^ 24" using unsigned_less[of pc, where ?'a = nat] by (simp add: q_def)
    have "unat ((pc AND TARGET_PAGE_MASK32) + 256) = (q * 256 + 256) mod 2 ^ 32" by (simp add: unat_word_ariths b)
    also have "\<dots> = (q + 1) mod 2 ^ 24 * 256" using mult_mod_left[of "q + 1" "2 ^ 24" 256] by (simp add: add.commute)
    finally have "unat (((pc AND TARGET_PAGE_MASK32) + 256) AND TARGET_PAGE_MASK32) = (q + 1) mod 2 ^ 24 * 256"
      by (simp add: page_base_nat)
    then have "pkey (drop_bit 8 (rl78_page ((pc AND TARGET_PAGE_MASK32) + 256))) = (q + 1) mod 2 ^ 24 mod 4096"
      by (simp add: rl78_page_def pkey_page)
    also have "\<dots> = (q + 1) mod 4096" by (rule mod_mod_cancel) simp
    finally have 2: "pkey (drop_bit 8 (rl78_page ((pc AND TARGET_PAGE_MASK32) + 256))) = (q + 1) mod 4096" .
    have 1: "pkey (drop_bit 8 (rl78_page pc)) = q mod 4096" by (simp add: rl78_page_def pkey_page b)
    have "(q + 1) mod 4096 \<noteq> q mod 4096" by (simp add: mod_Suc)
    then show ?thesis unfolding 1 2 by simp
  qed
  moreover have "rl78_page pc \<noteq> - 256" for pc
  proof
    assume "rl78_page pc = - 256"
    then have "unat (rl78_page pc) = unat (- 256 :: u64)" by simp
    moreover have "unat (rl78_page pc) < 2 ^ 32"
      using unsigned_less[of "pc AND TARGET_PAGE_MASK32", where ?'a = nat] by (simp add: rl78_page_def unsigned_ucast_eq take_bit_nat_eq_self)
    ultimately show False by simp
  qed
  moreover have "rl78_page pc AND mask 8 = 0" for pc
    by (rule bit_word_eqI) (auto simp: rl78_page_def TARGET_PAGE_MASK32_def bit_and_iff bit_ucast_iff bit_not_iff bit_mask_iff)
  moreover have "rl78_page (pc AND TARGET_PAGE_MASK32) = rl78_page pc" for pc by (simp add: rl78_page_def and.assoc)
  ultimately show ?thesis by (simp add: page_map_def pages_apart_def page_aligned_def)
qed

lemma rl78_addr: "rl78_page a + ucast (a AND NOT TARGET_PAGE_MASK32) = ucast a"
  using rl78_debug[of a] by (simp add: cpu_get_phys_page_debug_def)

text \<open>A store leaves no unmarked block with a byte it wrote: on a hit there is none on the page, otherwise all are marked.\<close>

lemma soft_store_keeps:
  assumes "soft_store hp allowed cur w a (x, s) = Some (y, s')" "cache_inv s A" "guards s A x" "buffer_ok hp x" "unat a < 2 ^ 20" "w = 1 \<or> w = 2"
    "case cur of None \<Rightarrow> True | Some b \<Rightarrow> unat (blk_pc b) + unat (blk_size b) < 2 ^ 32"
  shows "\<exists>M. s' = mark_dirty M s \<and> cache_inv s' A \<and> guards s' A y \<and> buffer_ok hp y \<and>
    (\<forall>i\<in>A. straight (tbs s i) \<longrightarrow> block_addrs (tbs s i) \<inter> {ucast a..<ucast a + ucast w} \<noteq> {} \<longrightarrow> i \<in> M)"
proof (cases "inline_hit addr_write w a (snd x)")
  case True
  then have "y = x" "s' = mark_dirty {} s" using assms(1) by (simp_all add: soft_store_def)
  then show ?thesis using assms(2-4) hit_outside[OF assms(2-6) True] by (intro exI[of _ "{}"]) auto
next
  case False
  then obtain sl: "slow_access addr_write hp allowed w a x = Some y" and mk: "mark_store hp allowed cur w a (y, s) = Some s'"
    using assms(1) by (auto simp: soft_store_def Option.bind_eq_Some_conv)
  note k = slow_access_keeps[OF sl assms(4-6)]
  have pg: "page_aligned rl78_page" "pages_apart rl78_page" using rl78_page_map by (simp_all add: page_map_def)
  have "0 < w" using assms(6) by auto
  from mark_covers[OF assms(2) pg code_tlb_sees[OF k(1) assms(5), of allowed] k(3) this assms(7)] mk
  obtain M where M: "s' = mark_dirty M s" "cache_inv s' A"
    "\<forall>i\<in>A. straight (tbs s i) \<longrightarrow> block_addrs (tbs s i) \<inter> {ucast a..<ucast a + ucast w} \<noteq> {} \<longrightarrow> i \<in> M"
    unfolding mark_store_def rl78_addr by auto
  moreover have "guards s' A y" by (rule guards_mono[OF assms(3) subset_refl]) (simp_all add: M(1) k(2))
  ultimately show ?thesis using k(1) by blast
qed

text \<open>Where marking would change nothing, the blocks with the byte are marked already.\<close>

lemma marked_already:
  assumes "mark_store hp allowed cur 1 a (x, s) = Some s" "cache_inv s A" "buffer_ok hp x" "unat a < 2 ^ 20"
    "case cur of None \<Rightarrow> True | Some b \<Rightarrow> unat (blk_pc b) + unat (blk_size b) < 2 ^ 32"
    "i \<in> A" "straight (tbs s i)" "ucast a \<in> block_addrs (tbs s i)"
  shows "blk_dirty_flag (tbs s i)"
proof -
  have pg: "page_aligned rl78_page" "pages_apart rl78_page" using rl78_page_map by (simp_all add: page_map_def)
  have o: "unat a mod 256 + unat (1 :: u32) \<le> 256" "(0 :: u32) < 1" by (simp_all add: less_eq_Suc_le[symmetric])
  from mark_covers[OF assms(2) pg code_tlb_sees[OF assms(3,4), of allowed] o assms(5)] assms(1)
  obtain M where M: "s = mark_dirty M s"
    "\<forall>i\<in>A. straight (tbs s i) \<longrightarrow> block_addrs (tbs s i) \<inter> {ucast a..<ucast a + ucast (1 :: u32)} \<noteq> {} \<longrightarrow> i \<in> M"
    unfolding mark_store_def rl78_addr by auto
  have "(ucast a :: u64) < ucast a + 1"
    using assms(4) by (simp add: word_less_nat_alt unat_word_ariths(1) unsigned_ucast_eq take_bit_nat_eq_self)
  then have "block_addrs (tbs s i) \<inter> {ucast a..<ucast a + ucast (1 :: u32)} \<noteq> {}" using assms(8) by auto
  then have "i \<in> M" using M(2) assms(6,7) by blast
  then show ?thesis using M(1) mark_dirty_fields(9)[of M s i] by metis
qed

section \<open>Linking a block protects its pages\<close>

lemma chain_next:
  assumes "chain nx p xs" "distinct xs" "c \<in> set xs" "nx c = Some d"
  shows "d \<in> set xs \<and> d \<noteq> c"
  using assms
proof (induction xs arbitrary: p)
  case (Cons x xs)
  show ?case
  proof (cases "c = x")
    case True
    then show ?thesis using Cons.prems by (cases xs) auto
  next
    case False
    then show ?thesis using Cons.IH[of "nx x"] Cons.prems by auto
  qed
qed simp

lemma block_pages:
  assumes "placed rl78_page b" "unat (blk_pc b) < 0xFFF00" "n < 2"
  shows "blk_page_addr b n = - 1 \<or> (\<exists>v. blk_page_addr b n = ucast v \<and> guest_page v)"
proof -
  have "unat (blk_pc b AND TARGET_PAGE_MASK32) \<le> unat (blk_pc b)"
    using word_and_le2[of "blk_pc b" TARGET_PAGE_MASK32] by (simp add: word_le_nat_alt)
  then have "unat ((blk_pc b AND TARGET_PAGE_MASK32) + 256) < 2 ^ 20" using assms(2) by (simp add: unat_word_ariths(1))
  then have "guest_page (blk_pc b AND TARGET_PAGE_MASK32)" "guest_page (((blk_pc b AND TARGET_PAGE_MASK32) + 256) AND TARGET_PAGE_MASK32)"
    using guest_page_of[of "blk_pc b"] guest_page_of[of "(blk_pc b AND TARGET_PAGE_MASK32) + 256"] assms(2) by simp_all
  moreover have "n = 0 \<or> n = 1" using assms(3) by auto
  ultimately show ?thesis using assms(1) by (auto simp: placed_def rl78_page_def)
qed

text \<open>A page whose list was not empty is guarded already.\<close>

lemma next_on_page:
  assumes "cache_inv s A" "i \<in> A" "guards s (A - {i}) x" "n < 2" "blk_page_addr (tbs s i) n = ucast v" "guest_page v"
    "blk_page_next (tbs s i) n = Some c"
  shows "guarded x v"
proof -
  obtain C J P where inv: "tb_inv s C J P" "live C = A" using assms(1) unfolding cache_inv_def by blast
  let ?k = "unat v div 256"
  have pw: "pages_wf s P" and pm: "page_members s A P" using inv by (simp_all add: tb_inv_def link_inv_def)
  have key: "pkey (drop_bit 8 (ucast u :: u64)) = unat u div 256" if "guest_page u" for u :: u32
  proof -
    have "unat u div 256 < 4096" using that less_mult_imp_div_less[of "unat u" 4096 256] by (simp add: guest_page_def)
    then show ?thesis by (simp only: pkey_page mod_less)
  qed
  have "unat (ucast v :: u64) < 2 ^ 20" using assms(6) by (simp add: guest_page_def unsigned_ucast_eq take_bit_nat_eq_self)
  moreover have "unat (- 1 :: u64) = 2 ^ 64 - 1" by (simp add: unsigned_minus_1_eq_mask mask_eq_exp_minus_1)
  ultimately have "unat (ucast v :: u64) \<noteq> unat (- 1 :: u64)" by simp
  then have "(ucast v :: u64) \<noteq> - 1" by metis
  then have "on_page (tbs s i) n ?k" using assms(4,5) key[OF assms(6)] by (auto simp: on_page_def less_2_cases_iff)
  then have "(i, n) \<in> set (P ?k)" using pm assms(2) by (simp add: page_members_def)
  moreover note pages_wfD[OF pw, of ?k]
  moreover have "pnext s (i, n) = Some c" using assms(7) by (simp add: pnext_def)
  ultimately have c: "c \<in> set (P ?k)" "c \<noteq> (i, n)" and d: "distinct (map fst (P ?k))" and i: "(i, n) \<in> set (P ?k)"
    using chain_next[of "pnext s" "pfirst s ?k" "P ?k" "(i, n)" c] by (auto simp: distinct_map)
  have "fst c \<noteq> i" using d i c unfolding distinct_map inj_on_def by (metis fst_conv)
  moreover have "fst c \<in> A" "on_page (tbs s (fst c)) (snd c) ?k" using pm[unfolded page_members_def] c(1) by metis+
  ultimately obtain u where u: "blk_page_addr (tbs s (fst c)) (snd c) = ucast u" "guest_page u" "guarded x u"
  proof -
    assume t: "\<And>u. blk_page_addr (tbs s (fst c)) (snd c) = ucast u \<Longrightarrow> guest_page u \<Longrightarrow> guarded x u \<Longrightarrow> thesis"
      "fst c \<noteq> i" "fst c \<in> A" "on_page (tbs s (fst c)) (snd c) ?k"
    have "block_ok (tbs s (fst c))" using inv t(3) by (auto simp: tb_inv_def link_inv_def)
    then have "blk_page_addr (tbs s (fst c)) 0 \<noteq> - 1" by (auto simp: block_ok_def)
    then have "snd c < 2" "blk_page_addr (tbs s (fst c)) (snd c) \<noteq> - 1" using t(4) by (auto simp: on_page_def)
    then show thesis using assms(3) t(1-3) unfolding guards_def by blast
  qed
  moreover have "pkey (drop_bit 8 (blk_page_addr (tbs s (fst c)) (snd c))) = ?k"
    using \<open>on_page (tbs s (fst c)) (snd c) ?k\<close> by (simp add: on_page_def)
  ultimately have "u = v" using page_addr_unique[of u v] assms(6) key[OF u(2)] by (simp add: guest_page_def)
  then show ?thesis using u(3) by simp
qed

lemma protect_block_guards:
  assumes "cache_inv s A" "i \<in> A" "guards s (A - {i}) x" "buffer_ok hp x" "placed rl78_page (tbs s i)" "unat (blk_pc (tbs s i)) < 0xFFF00"
  shows "guards s A (protect_block hp (tbs s i) x) \<and> buffer_ok hp (protect_block hp (tbs s i) x)"
proof -
  let ?b = "tbs s i"
  define x1 where "x1 = (if blk_page_next ?b 0 = None then tlb_protect_code hp (blk_page_addr ?b 0) x else x)"
  define y where "y = (if blk_page_addr ?b 1 \<noteq> - 1 \<and> blk_page_next ?b 1 = None then tlb_protect_code hp (blk_page_addr ?b 1) x1 else x1)"
  have y: "protect_block hp ?b x = y" unfolding protect_block_def Let_def x1_def y_def ..
  have x1: "buffer_ok hp x1" "\<And>v. guest_page v \<Longrightarrow> guarded x v \<Longrightarrow> guarded x1 v" using assms(4) protect_keeps by (auto simp: x1_def)
  have y1: "buffer_ok hp y" "\<And>v. guest_page v \<Longrightarrow> guarded x1 v \<Longrightarrow> guarded y v" using x1(1) protect_keeps by (auto simp: y_def)
  have "guarded y v" if v: "n < 2" "blk_page_addr ?b n = ucast v" "guest_page v" "(ucast v :: u64) \<noteq> - 1" for n v
  proof (cases "blk_page_next ?b n")
    case (Some c)
    then show ?thesis using next_on_page[OF assms(1-3) v(1-3)] x1(2) y1(2) v(3) by blast
  next
    case None
    have "n = 0 \<or> n = 1" using v(1) by auto
    then show ?thesis
    proof
      assume n: "n = 0"
      then have "guarded x1 v" using None v(2) protect_guards[OF assms(4) v(3)] by (simp add: x1_def)
      then show ?thesis using y1(2) v(3) by blast
    next
      assume "n = 1"
      then show ?thesis using None v(2,4) protect_guards[OF x1(1) v(3)] by (simp add: y_def)
    qed
  qed
  then have "\<forall>n<2. blk_page_addr ?b n = - 1 \<or> (\<exists>v. blk_page_addr ?b n = ucast v \<and> guest_page v \<and> guarded y v)"
    using block_pages[OF assms(5,6)] by metis
  moreover have "guards s (A - {i}) y" by (rule guards_mono[OF assms(3) subset_refl]) (use x1(2) y1(2) in blast)+
  ultimately show ?thesis using y1(1) unfolding y guards_def by blast
qed

end
