(* ===== verification/RL78_Extent.thy ===== *)
theory RL78_Extent
  imports RL78_Run
begin

text \<open>The generated code depends on the bytes of its block only: the size recorded for a block
  (\<^verbatim>\<open>tb->size\<close>) spans every byte of guest memory its translation has read, so that code may be kept as long as
  these bytes stay the same.\<close>

section \<open>Congruence\<close>

lemma wp_cong:
  assumes "wp g P s" "\<And>a s'. P a s' \<Longrightarrow> Q a s' = Q' a s'"
  shows "wp g Q s = wp g Q' s"
  using assms by (simp add: wp_def split: prod.splits)

lemma run_eqI:
  assumes "\<And>Q. wp g Q s = wp g' Q s"
  shows "run_state g s = run_state g' s"
proof -
  have "wp g (\<lambda>a t. (a, t) = run_state g' s) s" unfolding assms by (simp add: wp_def split: prod.split)
  then show ?thesis by (simp add: wp_def split: prod.splits)
qed

lemma decode_cong:
  assumes "decode_insn load (base_pc (dc s)) (dc_use_es (dc s)) = decode_insn load' (base_pc (dc s)) (dc_use_es (dc s))"
  shows "wp (decode load) Q s = wp (decode load') Q s"
  using assms by (simp add: decode_def wp_bind wp_get_dc)

lemma insn_tail_cong:
  assumes "decode_insn load (base_pc (dc s)) False = decode_insn load' (base_pc (dc s)) False"
  shows "wp (insn_tail load pc g) Q s = wp (insn_tail load' pc g) Q s"
  unfolding insn_tail_def wp_bind wp_upd_dc_eq by (rule decode_cong) (simp add: assms)

lemma gen_intermediate_code_cong:
  assumes "At E c Map.empty Map.empty m s" "decode_insn load (base_pc c) False = decode_insn load' (base_pc c) False"
  shows "wp (gen_intermediate_code load) Q s = wp (gen_intermediate_code load') Q s"
proof -
  let ?c = "c\<lparr>dc_skip_flag := False\<rparr>"
  let ?t = "\<lambda>load. if dc_skip_flag c then skip_prefix \<bind> (\<lambda>l. insn_tail load (base_pc c) (after_label l))
     else insn_tail load (base_pc c) (State_Monad.return ())"
  have d: "dc s = c" using assms(1) by (simp add: At_def)
  have "wp (?t load) Q s2 = wp (?t load') Q s2" if A: "At E ?c Map.empty Map.empty m s2" for s2
  proof -
    have "wp skip_prefix (\<lambda>l s'. dc s' = ?c) s2"
      by (rule wp_mono[OF wp_skip_prefix[OF A]]) (auto simp: At_def Jump_def split: if_splits)
    then have "wp skip_prefix (\<lambda>l. wp (insn_tail load (base_pc c) (after_label l)) Q) s2 =
        wp skip_prefix (\<lambda>l. wp (insn_tail load' (base_pc c) (after_label l)) Q) s2"
      by (rule wp_cong) (rule insn_tail_cong, use assms(2) in simp)
    moreover have "wp (insn_tail load (base_pc c) (State_Monad.return ())) Q s2 = wp (insn_tail load' (base_pc c) (State_Monad.return ())) Q s2"
      by (rule insn_tail_cong) (use A assms(2) in \<open>simp add: At_def\<close>)
    ultimately show ?thesis by (simp add: wp_bind)
  qed
  moreover have w: "wp (tcg_gen_insn_start (base_pc c)) (\<lambda>_. wp (upd_dc (\<lambda>d. d\<lparr>dc_skip_flag := False\<rparr>)) (\<lambda>_ s2. At E ?c Map.empty Map.empty m s2)) s"
    by (rule wp_insn_start[OF assms(1)], erule wp_upd_dc)
  ultimately show ?thesis unfolding gen_intermediate_code_tail wp_bind wp_get_dc d
    by (intro wp_cong[OF w]) (erule wp_cong, simp add: wp_bind)
qed

section \<open>The bytes of a block\<close>

lemma inner_local:
  assumes "decode_insn load (env_pc (cpu m)) False = decode_insn load' (env_pc (cpu m)) False \<or> env_pc (cpu m) \<in> set bps"
  shows "run_state (cpu_gen_code_inner load bps sync mx) (block_start h m) = run_state (cpu_gen_code_inner load' bps sync mx) (block_start h m)"
proof (rule run_eqI)
  fix Q
  obtain S :: rt_state where S: "rmode S = Running" "mach S = m" by (metis rt_state.select_convs(1,5))
  show "wp (cpu_gen_code_inner load bps sync mx) Q (block_start h m) = wp (cpu_gen_code_inner load' bps sync mx) Q (block_start h m)"
  proof (cases "env_pc (cpu m) \<in> set bps")
    case False
    have A: "At (undefined, S) (block_ctx m) Map.empty Map.empty m (block_ready h sync m)" by (rule At_ready) (use S in auto)
    show ?thesis unfolding wp_inner_start[OF False]
      by (rule gen_intermediate_code_cong[OF A]) (use assms False in \<open>simp add: block_ctx_def\<close>)
  next
    case True
    have ne: "bps \<noteq> []" using True by auto
    have A: "At (undefined, S) (block_ctx m) Map.empty Map.empty m (block_ready h False m)" by (rule At_ready) (use S in auto)
    have g: "wp gen_breakpoint (\<lambda>r s'. r = 1) (block_ready h False m)"
      unfolding gen_breakpoint_def wp_bind wp_return_ext
      by (rule wp_sync_pc[OF A], erule wp_exit_no_chaining) simp
    show ?thesis
      unfolding cpu_gen_code_inner_def wp_bind setup_block_start gen_code_loop_once
      apply (subst wp_get_dc)
      apply (subst wp_get_dc)
      apply (simp only: dc_block_ready block_ctx_def DisasContext.simps ne if_False at_breakpoint[OF True] option.case)
      apply (unfold wp_bind wp_return_ext)
      apply (rule wp_cong[OF g])
      apply (simp add: wp_return_ext)
      done
  qed
qed

lemma inner_extent:
  assumes "at_rest S" "run_state (cpu_gen_code_inner load bps sync mx) (block_start h (mach S)) = (n, s)" "gen_abort s = None"
  defines "pc \<equiv> env_pc (cpu (mach S))"
  shows "\<exists>k\<le>5. tb_size (dc s) = of_nat k \<and> (\<forall>load'. (\<forall>j<k. load' (pc + of_nat j) = load (pc + of_nat j)) \<longrightarrow>
    run_state (cpu_gen_code_inner load' bps sync mx) (block_start h (mach S)) = (n, s))"
proof (cases "pc \<in> set bps")
  case True
  have "wp (cpu_gen_code_inner load bps sync mx) (\<lambda>n s'. n = 0 \<and> (\<exists>c. Left (undefined, S) c (mach S) s' \<and> tb_size c = 0)) (block_start h (mach S))"
    by (rule wp_breakpoint) (use assms(1) True in \<open>simp_all add: at_rest_def pc_def\<close>)
  then have "tb_size (dc s) = of_nat 0" using assms(2) by (auto simp: wp_def Left_def)
  moreover have "run_state (cpu_gen_code_inner load' bps sync mx) (block_start h (mach S)) = (n, s)" for load'
    using inner_local[of load "mach S" load' bps] True assms(2) by (simp add: pc_def)
  ultimately show ?thesis by (intro exI[of _ 0]) simp
next
  case False
  define P :: platform where "P = undefined"
  have "refuses load pc = None"
  proof (rule ccontr)
    assume "refuses load pc \<noteq> None"
    then obtain e where "refuses load pc = Some e" by blast
    from wp_block_refuses[OF this[unfolded pc_def] False[unfolded pc_def], of sync mx h] assms(2,3) show False by (simp add: wp_def)
  qed
  then obtain i npc es m' where d: "decode_insn load pc False = (Some i, npc, es)" "mnemonic i \<noteq> INSN_HALT" "mnemonic i \<noteq> INSN_STOP"
    "isa_step (pl_host_ptr P) load (mach S) = Some m'"
    unfolding pc_def by (rule isa_step_total)
  have "tb_size (dc s) = npc - pc"
    using wp_block[of S "mach S" bps load i npc es P m' sync mx h] assms(1,2) d False
    by (auto simp: at_rest_def pc_def wp_def Left_def)
  moreover obtain k where k: "k \<le> 5" "npc = pc + of_nat k"
    "\<And>load'. (\<And>j. j < k \<Longrightarrow> load' (pc + of_nat j) = load (pc + of_nat j)) \<Longrightarrow> decode_insn load' pc False = (Some i, npc, es)"
    using decode_insn_extent[OF d(1)] by blast
  moreover have "run_state (cpu_gen_code_inner load' bps sync mx) (block_start h (mach S)) = (n, s)"
    if "\<forall>j<k. load' (pc + of_nat j) = load (pc + of_nat j)" for load'
    using inner_local[of load "mach S" load' bps sync mx h] k(3)[of load'] that d(1) assms(2) by (simp add: pc_def)
  ultimately show ?thesis by (intro exI[of _ k]) simp
qed

end
