(* ===== verification/RL78_Cached.thy ===== *)
theory RL78_Cached
  imports TLB_Store RL78_Extent
begin

text \<open>Running the RL78 from the cache of translated blocks. Every turn looks its block up, protecting the pages of a new
  one, and enters its header, which drops a block whose bytes were written and leaves without running it; otherwise the
  host code kept for the block runs operation by operation: a store that misses the lookaside buffer marks the blocks
  with the bytes it writes, one that hits and the writes of helpers mark nothing. Hits never meet a page with code in
  use; as long as no helper writes a byte of an unmarked block, the cache does what translating every block anew does,
  and so what the instruction set does. A block entered by a chained jump is looked up all the same.\<close>

section \<open>The host code of a block\<close>

type_synonym rl78_code = "nat \<times> gen_state"

definition rl78_translator :: "tcg_target \<Rightarrow> u32 list \<Rightarrow> bool \<Rightarrow> nat \<Rightarrow> (rl78_code \<Rightarrow> translated) \<Rightarrow> rl78_code translator" where
  "rl78_translator h bps sync mx back =
     \<lparr>tr_gen = (\<lambda>load pc flags. run_state (cpu_gen_code_inner load bps sync mx) (tcg_func_start h pc (ucast flags))),
      tr_back = back, tr_accepted = (\<lambda>c. gen_abort (snd c) = None)\<rparr>"

text \<open>The back end records the size that the translator counted (\<^verbatim>\<open>tb->size\<close>), on 16 bits.\<close>

definition records_size :: "(rl78_code \<Rightarrow> translated) \<Rightarrow> bool" where
  "records_size back \<longleftrightarrow> (\<forall>c. unat (tr_size (back c)) \<le> 256) \<and>
     (\<forall>c. unat (tb_size (dc (snd c))) \<le> 256 \<longrightarrow> tr_size (back c) = ucast (tb_size (dc (snd c))))"

definition run_code :: "platform \<Rightarrow> rl78_code \<Rightarrow> rt_state \<Rightarrow> rt_state option" where
  "run_code P c S = (case c of (n, s) \<Rightarrow>
     (if n = 0 \<or> gen_abort s \<noteq> None \<or> tcg_overrun s then None
      else case exec_ops P (code s) S of
          S' \<Rightarrow> (case rmode S' of Exited _ \<Rightarrow> Some (S'\<lparr>rmode := Running\<rparr>) | _ \<Rightarrow> None)))"

lemma exec_block_run_code:
  "exec_block P h bps sync mx S = run_code P (run_state (cpu_gen_code_inner (ram (mach S)) bps sync mx) (block_start h (mach S))) S"
  by (simp add: exec_block_def run_code_def)

section \<open>Operations over the cache\<close>

definition mo_width :: "TCGMemOp \<Rightarrow> u32" where
  "mo_width mo = (case mo of MO_8 \<Rightarrow> 1 | MO_16 \<Rightarrow> 2)"

text \<open>What an operation does to the buffer and the blocks; \<^verbatim>\<open>tb\<close> is the block that runs. Addresses beyond the
  20 bits of the address space have no page.\<close>

definition mmu_op :: "(u64 \<Rightarrow> u64) \<Rightarrow> (u32 \<Rightarrow> bool) \<Rightarrow> nat \<Rightarrow> tcg_op \<Rightarrow> rt_state \<Rightarrow> (phys_map \<times> tlb_env) \<times> tb_state \<Rightarrow>
    ((phys_map \<times> tlb_env) \<times> tb_state) option" where
  "mmu_op hp allowed tb op S y =
     (if rmode S \<noteq> Running then Some y
      else case op of
        Op_qemu_ld r a mo \<Rightarrow>
          if unat (rval S a) < 2 ^ 20 then map_option (\<lambda>x. (x, snd y)) (soft_load hp allowed (mo_width mo) (rval S a) (fst y)) else None
      | Op_qemu_st v a mo \<Rightarrow>
          if unat (rval S a) < 2 ^ 20 then soft_store hp allowed (Some (tbs (snd y) tb)) (mo_width mo) (rval S a) y else None
      | _ \<Rightarrow> Some y)"

text \<open>Helpers write memory behind the back of the cache. Such a write is harmless where marking would change nothing.\<close>

definition harmless :: "(u64 \<Rightarrow> u64) \<Rightarrow> (u32 \<Rightarrow> bool) \<Rightarrow> nat \<Rightarrow> rt_state \<Rightarrow> rt_state \<Rightarrow> (phys_map \<times> tlb_env) \<times> tb_state \<Rightarrow> bool" where
  "harmless hp allowed tb S S' y \<longleftrightarrow> (\<forall>a. ram (mach S') a \<noteq> ram (mach S) a \<longrightarrow>
     unat a < 2 ^ 20 \<and> mark_store hp allowed (Some (tbs (snd y) tb)) 1 a y = Some (snd y))"

definition is_call :: "tcg_op \<Rightarrow> bool" where
  "is_call op = (case op of Op_call h r args \<Rightarrow> True | _ \<Rightarrow> False)"

text \<open>The flag of the result tells whether all writes of helpers were harmless.\<close>

primrec cached_ops :: "platform \<Rightarrow> (u64 \<Rightarrow> u64) \<Rightarrow> (u32 \<Rightarrow> bool) \<Rightarrow> nat \<Rightarrow> tcg_op list \<Rightarrow> rt_state \<Rightarrow> (phys_map \<times> tlb_env) \<times> tb_state \<Rightarrow>
    (rt_state \<times> ((phys_map \<times> tlb_env) \<times> tb_state) \<times> bool) option" where
  "cached_ops P hp allowed tb [] S y = Some (S, y, True)"
| "cached_ops P hp allowed tb (op # ops) S y =
     (case mmu_op hp allowed tb op S y of
        None \<Rightarrow> None
      | Some y' \<Rightarrow> map_option (\<lambda>(S', z, q). (S', z, (is_call op \<longrightarrow> harmless hp allowed tb S (exec_op P op S) y) \<and> q))
          (cached_ops P hp allowed tb ops (exec_op P op S) y'))"

definition run_cached :: "platform \<Rightarrow> (u64 \<Rightarrow> u64) \<Rightarrow> (u32 \<Rightarrow> bool) \<Rightarrow> nat \<Rightarrow> rl78_code \<Rightarrow> rt_state \<Rightarrow> (phys_map \<times> tlb_env) \<times> tb_state \<Rightarrow>
    (rt_state \<times> ((phys_map \<times> tlb_env) \<times> tb_state) \<times> bool) option" where
  "run_cached P hp allowed tb c S y = (case c of (n, s) \<Rightarrow>
     (if n = 0 \<or> gen_abort s \<noteq> None \<or> tcg_overrun s then None
      else case cached_ops P hp allowed tb (code s) S y of
          None \<Rightarrow> None
        | Some (S', z, q) \<Rightarrow> (case rmode S' of Exited _ \<Rightarrow> Some (S'\<lparr>rmode := Running\<rparr>, z, q) | _ \<Rightarrow> None)))"

section \<open>Turns\<close>

text \<open>The machine, the blocks and their host code, the map of pages and the buffer.\<close>

record cached =
  ca_rt :: rt_state
  ca_tb :: tb_state
  ca_code :: "nat \<Rightarrow> rl78_code"
  ca_buf :: "phys_map \<times> tlb_env"

definition phys_mem :: "(u32 \<Rightarrow> u8) \<Rightarrow> u64 \<Rightarrow> u8" where
  "phys_mem r p = (if p < 2 ^ 32 then r (ucast p) else 0)"

text \<open>Code in the last page of the address space is left out: its blocks may not end.\<close>

definition cached_lookup :: "(u64 \<Rightarrow> u64) \<Rightarrow> host_memory \<Rightarrow> rl78_code translator \<Rightarrow> u32 \<Rightarrow> cached \<Rightarrow> (nat \<times> cached) option" where
  "cached_lookup hp hm T mx c = (case cpu_get_tb_cpu_state (cpu (mach (ca_rt c))) of (pc, cs_base, flags) \<Rightarrow>
     if 0xFFF00 \<le> unat pc then None
     else do {
       (tb, s) \<leftarrow> cache_lookup hm rl78_page T mx pc cs_base (scast flags)
         \<lparr>cc_mem = phys_mem (ram (mach (ca_rt c))), cc_tb = ca_tb c, cc_code = ca_code c\<rparr>;
       Some (tb, c\<lparr>ca_tb := cc_tb s, ca_code := cc_code s,
         ca_buf := (if new_block (ca_tb c) (cc_tb s) then protect_block hp (tbs (cc_tb s) tb) (ca_buf c) else ca_buf c)\<rparr>) })"

text \<open>What happens to the blocks between two turns.\<close>

inductive tidy_step :: "tb_state \<Rightarrow> tb_state \<Rightarrow> bool" where
  kill: "tb_phys_invalidate tb (- 1) s = Some t \<Longrightarrow> tidy_step s t"
| chain: "tb < nb_tbs s \<Longrightarrow> n < 2 \<Longrightarrow> tb_jmp_cache s j = Some tb' \<Longrightarrow> tidy_step s (tb_add_jump tb n tb' s)"
| forget: "tidy_step s (tb_jmp_cache_remove tb s)"
| acknowledge: "tidy_step s (s\<lparr>tb_invalidated_flag := False\<rparr>)"
| flush: "tb_flush s = Some t \<Longrightarrow> tidy_step s t"

text \<open>A turn runs \<^verbatim>\<open>k\<close> blocks: none when the buffer is filled, the cache tidied, or the header leaves, whatever
  the counters and requests of the execution state \<^verbatim>\<open>e\<close> are. \<^verbatim>\<open>q\<close>: all writes of helpers were harmless.\<close>

inductive cached_turn :: "platform \<Rightarrow> (u64 \<Rightarrow> u64) \<Rightarrow> (u32 \<Rightarrow> bool) \<Rightarrow> host_memory \<Rightarrow> rl78_code translator \<Rightarrow> nat \<Rightarrow> bool \<Rightarrow> cached \<Rightarrow> cached \<Rightarrow> bool"
  for P hp allowed hm T where
  fill: "unat a < 2 ^ 20 \<Longrightarrow>
    cached_turn P hp allowed hm T 0 True c (c\<lparr>ca_buf := (fst (ca_buf c), tlb_fill hp allowed (fst (ca_buf c)) a 0 (snd (ca_buf c)))\<rparr>)"
| tidy: "tidy_step (ca_tb c) t \<Longrightarrow> cached_turn P hp allowed hm T 0 True c (c\<lparr>ca_tb := t\<rparr>)"
| leave: "cached_lookup hp hm T mx c = Some (tb, c1) \<Longrightarrow> ex_mach e = mach (ca_rt c) \<Longrightarrow> ex_tb e = ca_tb c1 \<Longrightarrow>
    prepare_block_for_execution tb e = Some (r, e') \<Longrightarrow> r \<noteq> 0 \<Longrightarrow>
    cached_turn P hp allowed hm T 0 True c (c1\<lparr>ca_tb := ex_tb e'\<rparr>)"
| run: "cached_lookup hp hm T mx c = Some (tb, c1) \<Longrightarrow> ex_mach e = mach (ca_rt c) \<Longrightarrow> ex_tb e = ca_tb c1 \<Longrightarrow>
    prepare_block_for_execution tb e = Some (0, e') \<Longrightarrow>
    run_cached P hp allowed tb (ca_code c1 tb) (ca_rt c) (ca_buf c1, ca_tb c1) = Some (S, (x, t), q) \<Longrightarrow>
    cached_turn P hp allowed hm T 1 q c (c1\<lparr>ca_rt := S, ca_buf := x, ca_tb := t\<rparr>)"

inductive cached_run :: "platform \<Rightarrow> (u64 \<Rightarrow> u64) \<Rightarrow> (u32 \<Rightarrow> bool) \<Rightarrow> host_memory \<Rightarrow> rl78_code translator \<Rightarrow> nat \<Rightarrow> bool \<Rightarrow> cached \<Rightarrow> cached \<Rightarrow> bool"
  for P hp allowed hm T where
  stop: "cached_run P hp allowed hm T 0 True c c"
| turn: "cached_turn P hp allowed hm T k q c d \<Longrightarrow> cached_run P hp allowed hm T n q' d e \<Longrightarrow> cached_run P hp allowed hm T (k + n) (q \<and> q') c e"

section \<open>Invariant\<close>

definition cache_good :: "(u64 \<Rightarrow> u64) \<Rightarrow> rl78_code translator \<Rightarrow> (u32 \<Rightarrow> u8) \<Rightarrow> (nat \<Rightarrow> rl78_code) \<Rightarrow> nat set \<Rightarrow> (phys_map \<times> tlb_env) \<times> tb_state \<Rightarrow> bool" where
  "cache_good hp T r hc A y \<longleftrightarrow> cache_inv (snd y) A \<and> (\<forall>i\<in>A. kept rl78_page T (phys_mem r) (tbs (snd y) i) (hc i)) \<and>
     guards (snd y) A (fst y) \<and> buffer_ok hp (fst y)"

definition cached_ok :: "(u64 \<Rightarrow> u64) \<Rightarrow> rl78_code translator \<Rightarrow> cached \<Rightarrow> bool" where
  "cached_ok hp T c \<longleftrightarrow> at_rest (ca_rt c) \<and> (\<exists>A. cache_good hp T (ram (mach (ca_rt c))) (ca_code c) A (ca_buf c, ca_tb c))"

lemma phys_mem_load [simp]: "guest_load rl78_page (phys_mem r) = r"
proof
  fix a :: u32
  have "unat (ucast a :: u64) = unat a" by (rule unat_ucast_u64)
  then have "(ucast a :: u64) < 2 ^ 32" using unsigned_less[of a, where ?'a = nat] by (simp add: word_less_nat_alt)
  then show "guest_load rl78_page (phys_mem r) a = r a" by (simp add: guest_load_def phys_mem_def rl78_addr ucast_ucast_same)
qed

lemma block_start_flags: "cpu_get_tb_cpu_state (cpu m) = (pc, cs_base, flags) \<Longrightarrow> tcg_func_start h pc (ucast (scast flags :: u64)) = block_start h m"
proof -
  assume a: "cpu_get_tb_cpu_state (cpu m) = (pc, cs_base, flags)"
  have "(ucast (scast flags :: u64) :: u32) = flags"
  proof (rule bit_word_eqI)
    fix n assume "n < LENGTH(32)"
    then show "bit (ucast (scast flags :: u64) :: u32) n = bit flags n"
      by (cases "n = 31") (auto simp: bit_ucast_iff bit_signed_iff min_def)
  qed
  then show ?thesis using a by (simp add: block_start_def)
qed

lemma rl78_local:
  assumes "at_rest S" "cpu_get_tb_cpu_state (cpu (mach S)) = (pc, cs_base, flags)" "records_size back"
    and T_def: "T = rl78_translator h bps sync mx back"
    and "tr_accepted T (tr_gen T load pc (scast flags))"
    "\<And>j. j < unat (tr_size (tr_back T (tr_gen T load pc (scast flags)))) \<Longrightarrow> load' (pc + of_nat j) = load (pc + of_nat j)"
  shows "tr_gen T load' pc (scast flags) = tr_gen T load pc (scast flags)"
proof -
  obtain n s where r: "run_state (cpu_gen_code_inner load bps sync mx) (block_start h (mach S)) = (n, s)" by fastforce
  note start = block_start_flags[OF assms(2)]
  have g: "tr_gen T load pc (scast flags) = (n, s)" using r by (simp add: T_def rl78_translator_def start)
  have pc: "pc = env_pc (cpu (mach S))" using assms(2) by (simp add: cpu_get_tb_cpu_state_def)
  have "gen_abort s = None" using assms(5) g by (simp add: T_def rl78_translator_def)
  from inner_extent[OF assms(1) r this] obtain k where k: "k \<le> 5" "tb_size (dc s) = of_nat k"
    "\<And>load'. (\<And>j. j < k \<Longrightarrow> load' (pc + of_nat j) = load (pc + of_nat j)) \<Longrightarrow>
      run_state (cpu_gen_code_inner load' bps sync mx) (block_start h (mach S)) = (n, s)" unfolding pc by blast
  have "unat (tb_size (dc s)) = k" using k(1,2) by (simp add: unat_of_nat)
  then have "tr_size (back (n, s)) = ucast (tb_size (dc s))" "unat (ucast (tb_size (dc s)) :: u16) = k"
    using assms(3) k(1,2) by (simp_all add: records_size_def unsigned_ucast_eq take_bit_nat_eq_self)
  then have "unat (tr_size (tr_back T (n, s))) = k" by (simp add: T_def rl78_translator_def)
  then have "run_state (cpu_gen_code_inner load' bps sync mx) (block_start h (mach S)) = (n, s)" using assms(6) g k(3)[of load'] by simp
  then show ?thesis unfolding g by (simp add: T_def rl78_translator_def start)
qed

section \<open>Operations keep the cache\<close>

lemma ram_rset [simp]: "ram (mach (rset r x S)) = ram (mach S)" "ram (mach (rset64 v z S)) = ram (mach S)" "ram (mach (bb_end P S)) = ram (mach S)"
proof -
  show "ram (mach (rset r x S)) = ram (mach S)" by (cases r) simp_all
  show "ram (mach (rset64 v z S)) = ram (mach S)" by (cases v) simp_all
qed (simp add: bb_end_def)

lemma exec_op_ram:
  assumes "\<not> is_call op" "\<And>v a mo. op \<noteq> Op_qemu_st v a mo \<or> rmode S \<noteq> Running"
  shows "ram (mach (exec_op P op S)) = ram (mach S)"
  using assms by (cases op; cases "rmode S") (auto simp: exec_op_def is_call_def split: option.split)

lemma store_bytes:
  assumes "unat a < 2 ^ 20"
  shows "mem_same (- {ucast a..<ucast a + ucast (mo_width mo)}) (phys_mem (ram m)) (phys_mem (ram (ram_st mo a v m)))"
  unfolding mem_same_def
proof
  fix p :: u64 assume p: "p \<in> - {ucast a..<ucast a + ucast (mo_width mo)}"
  show "phys_mem (ram (ram_st mo a v m)) p = phys_mem (ram m) p"
  proof (cases "p < 2 ^ 32")
    case True
    have u: "unat (ucast p :: u32) = unat p" using True by (simp add: word_less_nat_alt unsigned_ucast_eq take_bit_nat_eq_self)
    have w: "unat (ucast (mo_width mo) :: u64) = (case mo of MO_8 \<Rightarrow> 1 | MO_16 \<Rightarrow> 2)" "unat (ucast a :: u64) = unat a"
      by (simp_all add: mo_width_def unat_ucast_u64 split: TCGMemOp.split)
    then have s: "unat (ucast a + ucast (mo_width mo) :: u64) = unat a + (case mo of MO_8 \<Rightarrow> 1 | MO_16 \<Rightarrow> 2)"
      using assms by (simp add: unat_word_ariths(1) split: TCGMemOp.split)
    have r: "\<not> (unat a \<le> unat p \<and> unat p < unat a + (case mo of MO_8 \<Rightarrow> 1 | MO_16 \<Rightarrow> 2))"
      using p w(2) s by (auto simp: word_le_nat_alt word_less_nat_alt)
    have 0: "ucast p \<noteq> a"
    proof
      assume "ucast p = a"
      then have "unat a = unat p" using u by simp
      then show False using r by (simp split: TCGMemOp.splits)
    qed
    have 1: "mo = MO_16 \<longrightarrow> ucast p \<noteq> a + 1"
    proof (intro impI notI)
      assume m: "mo = MO_16" and "ucast p = a + 1"
      then have "unat p = unat a + 1" using u assms by (simp add: unat_word_ariths(1))
      then show False using r m by simp
    qed
    show ?thesis using 0 1 by (cases mo) (simp_all add: phys_mem_def ram_st_def)
  qed (simp add: phys_mem_def)
qed

lemma kept_same_ram:
  assumes "cache_good hp T r hc A (x, s)" "guards s A x'" "buffer_ok hp x'"
  shows "cache_good hp T r hc A (x', s)"
  using assms by (simp add: cache_good_def)

lemma store_op_good:
  assumes "cache_good hp T (ram m) hc A (x, s)" "soft_store hp allowed (Some (tbs s tb)) (mo_width mo) a (x, s) = Some (x', s')" "unat a < 2 ^ 20"
    "unat (blk_pc (tbs s tb)) + unat (blk_size (tbs s tb)) < 2 ^ 32"
  shows "cache_good hp T (ram (ram_st mo a v m)) hc A (x', s') \<and> (\<exists>M. s' = mark_dirty M s)"
proof -
  have i: "cache_inv s A" "\<forall>i\<in>A. kept rl78_page T (phys_mem (ram m)) (tbs s i) (hc i)" "guards s A x" "buffer_ok hp x"
    using assms(1) by (simp_all add: cache_good_def)
  have w: "mo_width mo = 1 \<or> mo_width mo = 2" by (cases mo) (simp_all add: mo_width_def)
  have c: "case Some (tbs s tb) of None \<Rightarrow> True | Some b \<Rightarrow> unat (blk_pc b) + unat (blk_size b) < 2 ^ 32" using assms(4) by simp
  from soft_store_keeps[OF assms(2) i(1,3,4) assms(3) w c] obtain M where M: "s' = mark_dirty M s" "cache_inv s' A" "guards s' A x'" "buffer_ok hp x'"
    "\<forall>i\<in>A. straight (tbs s i) \<longrightarrow> block_addrs (tbs s i) \<inter> {ucast a..<ucast a + ucast (mo_width mo)} \<noteq> {} \<longrightarrow> i \<in> M" by blast
  from coherent_marked[OF i(2) store_bytes[OF assms(3)] M(5)] show ?thesis using M(1-4) by (auto simp: cache_good_def)
qed

text \<open>A harmless write of a helper changes bytes of marked blocks only.\<close>

lemma call_op_good:
  assumes "cache_good hp T (ram (mach S)) hc A (x, s)" "harmless hp allowed tb S S' (x, s)"
    "unat (blk_pc (tbs s tb)) + unat (blk_size (tbs s tb)) < 2 ^ 32"
  shows "cache_good hp T (ram (mach S')) hc A (x, s)"
proof -
  have g: "cache_inv s A" "\<forall>i\<in>A. kept rl78_page T (phys_mem (ram (mach S))) (tbs s i) (hc i)" "guards s A x" "buffer_ok hp x"
    using assms(1) by (simp_all add: cache_good_def)
  have c: "case Some (tbs s tb) of None \<Rightarrow> True | Some b \<Rightarrow> unat (blk_pc b) + unat (blk_size b) < 2 ^ 32" using assms(3) by simp
  have "kept rl78_page T (phys_mem (ram (mach S'))) (tbs s i) (hc i)" if i: "i \<in> A" for i
  proof (cases "blk_dirty_flag (tbs s i)")
    case False
    have k: "kept rl78_page T (phys_mem (ram (mach S))) (tbs s i) (hc i)" using g(2) i by blast
    then have st: "straight (tbs s i)" using False current_straight by (auto simp: kept_def)
    have "mem_same (block_addrs (tbs s i)) (phys_mem (ram (mach S))) (phys_mem (ram (mach S')))"
      unfolding mem_same_def
    proof
      fix p assume p: "p \<in> block_addrs (tbs s i)"
      show "phys_mem (ram (mach S')) p = phys_mem (ram (mach S)) p"
      proof (rule ccontr)
        assume n: "phys_mem (ram (mach S')) p \<noteq> phys_mem (ram (mach S)) p"
        then have lo: "p < 2 ^ 32" and ch: "ram (mach S') (ucast p) \<noteq> ram (mach S) (ucast p)" by (auto simp: phys_mem_def split: if_splits)
        then have h: "unat (ucast p :: u32) < 2 ^ 20" "mark_store hp allowed (Some (tbs s tb)) 1 (ucast p) (x, s) = Some s"
          using assms(2) by (auto simp: harmless_def)
        have "(ucast (ucast p :: u32) :: u64) = p" using lo
          by (simp add: word_unat_eq_iff word_less_nat_alt unsigned_ucast_eq take_bit_nat_eq_self)
        then show False using marked_already[OF h(2) g(1,4) h(1) c i st] p False by simp
      qed
    qed
    then show ?thesis using kept_cong[OF k, of "tbs s i" "phys_mem (ram (mach S'))"] by simp
  qed (simp add: kept_def)
  then show ?thesis using g by (simp add: cache_good_def)
qed

lemma mmu_op_good:
  assumes "cache_good hp T (ram (mach S)) hc A y" "mmu_op hp allowed tb op S y = Some y'"
    "is_call op \<longrightarrow> harmless hp allowed tb S (exec_op P op S) y"
    "unat (blk_pc (tbs (snd y) tb)) + unat (blk_size (tbs (snd y) tb)) < 2 ^ 32"
  shows "cache_good hp T (ram (mach (exec_op P op S))) hc A y' \<and>
    blk_pc (tbs (snd y') tb) = blk_pc (tbs (snd y) tb) \<and> blk_size (tbs (snd y') tb) = blk_size (tbs (snd y) tb)"
proof -
  obtain x s where y: "y = (x, s)" by fastforce
  obtain x' s' where y': "y' = (x', s')" by fastforce
  consider (st) v a mo where "op = Op_qemu_st v a mo" "rmode S = Running" | (ld) r a mo where "op = Op_qemu_ld r a mo" "rmode S = Running"
    | (call) "is_call op" | (other) "\<not> is_call op" "\<And>v a mo. op \<noteq> Op_qemu_st v a mo \<or> rmode S \<noteq> Running" "\<And>r a mo. op \<noteq> Op_qemu_ld r a mo \<or> rmode S \<noteq> Running"
    by metis
  then show ?thesis
  proof cases
    case (st v a mo)
    then have "unat (rval S a) < 2 ^ 20" "soft_store hp allowed (Some (tbs s tb)) (mo_width mo) (rval S a) (x, s) = Some (x', s')"
      using assms(2) by (auto simp: mmu_op_def y y' split: if_splits)
    from store_op_good[OF assms(1)[unfolded y] this(2,1), of "rval S v"] assms(4)
    show ?thesis using st by (auto simp: y y' exec_op_def)
  next
    case (ld r a mo)
    then have l: "unat (rval S a) < 2 ^ 20" "soft_load hp allowed (mo_width mo) (rval S a) x = Some x'" "s' = s"
      using assms(2) by (auto simp: mmu_op_def y y' split: if_splits)
    have w: "mo_width mo = 1 \<or> mo_width mo = 2" by (cases mo) (simp_all add: mo_width_def)
    have g: "guards s A x" "buffer_ok hp x" using assms(1) by (simp_all add: cache_good_def y)
    have "guards s A x' \<and> buffer_ok hp x'"
    proof (cases "inline_hit addr_read (mo_width mo) (rval S a) (snd x)")
      case True
      then show ?thesis using l(2) g by (simp add: soft_load_def)
    next
      case False
      then have "slow_access addr_read hp allowed (mo_width mo) (rval S a) x = Some x'" using l(2) by (simp add: soft_load_def)
      note k = slow_access_keeps[OF this g(2) l(1) w]
      have "guards s A x'" by (rule guards_mono[OF g(1) subset_refl]) (simp_all add: k(2))
      then show ?thesis using k(1) by blast
    qed
    then show ?thesis using kept_same_ram[OF assms(1)[unfolded y]] ld by (simp add: y y' l(3) exec_op_def)
  next
    case call
    then have "y' = y" using assms(2) by (cases op) (auto simp: mmu_op_def is_call_def split: if_splits)
    then show ?thesis using call_op_good[of hp T S hc A x s allowed tb "exec_op P op S"] assms(1,3,4) call by (simp add: y)
  next
    case other
    then have "y' = y" using assms(2) by (cases op) (auto simp: mmu_op_def split: if_splits)
    then show ?thesis using exec_op_ram[OF other(1,2)] assms(1) by simp
  qed
qed

lemma cached_ops_good:
  assumes "cached_ops P hp allowed tb ops S y = Some (S', z, True)" "cache_good hp T (ram (mach S)) hc A y"
    "unat (blk_pc (tbs (snd y) tb)) + unat (blk_size (tbs (snd y) tb)) < 2 ^ 32"
  shows "S' = exec_ops P ops S \<and> cache_good hp T (ram (mach S')) hc A z"
  using assms
proof (induction ops arbitrary: S y)
  case (Cons op ops)
  obtain y' where y': "mmu_op hp allowed tb op S y = Some y'" "cached_ops P hp allowed tb ops (exec_op P op S) y' = Some (S', z, True)"
    "is_call op \<longrightarrow> harmless hp allowed tb S (exec_op P op S) y"
    using Cons.prems(1) by (auto split: option.splits)
  note k = mmu_op_good[OF Cons.prems(2) y'(1,3) Cons.prems(3)]
  show ?case using Cons.IH[OF y'(2)] k Cons.prems(3) by auto
qed simp

section \<open>Turns keep the cache\<close>

text \<open>Fewer blocks, unchanged but for their lists.\<close>

lemma cache_good_fewer:
  assumes "cache_good hp T r hc A (x, s)" "cache_inv t A'" "A' \<subseteq> A" "A' = {} \<or> same_bytes s t"
  shows "cache_good hp T r hc A' (x, t)"
proof (cases "A' = {}")
  case True
  then show ?thesis using assms(1,2) by (simp add: cache_good_def guards_def)
next
  case False
  then have sb: "same_bytes s t" using assms(4) by blast
  have g: "\<forall>i\<in>A. kept rl78_page T (phys_mem r) (tbs s i) (hc i)" "guards s A x" "buffer_ok hp x"
    using assms(1) by (simp_all add: cache_good_def)
  have "guards t A' x" by (rule guards_mono[OF g(2) assms(3)]) (use sb in \<open>simp_all add: same_bytes_def\<close>)
  moreover have "\<forall>i\<in>A'. kept rl78_page T (phys_mem r) (tbs t i) (hc i)" by (rule coherent_keep[OF g(1) assms(3) sb]) simp
  ultimately show ?thesis using assms(2) g(3) by (simp add: cache_good_def)
qed

lemma tidy_good:
  assumes "tidy_step s t" "cache_good hp T r hc A (x, s)"
  shows "\<exists>A'. cache_good hp T r hc A' (x, t)"
proof -
  have inv: "cache_inv s A" using assms(2) by (simp add: cache_good_def)
  have "\<exists>A'. cache_inv t A' \<and> A' \<subseteq> A \<and> (A' = {} \<or> same_bytes s t)" using assms(1)
  proof cases
    case (kill tb)
    obtain C J P where "tb_inv s C J P" "live C = A" using inv unfolding cache_inv_def by blast
    with tb_phys_invalidate_inv[of s C J P tb] kill have "cache_inv t (A - {tb})" "same_bytes s t" unfolding cache_inv_def by auto
    then show ?thesis by blast
  next
    case (chain tb n j tb')
    have "tb' \<in> A" using inv chain(4) by (auto simp: cache_inv_def tb_inv_def cache_wf_def live_iff)
    then show ?thesis using cache_inv_add_jump[OF inv chain(2,3)] chain(1) by blast
  next
    case (forget tb)
    have "same_bytes s t" by (simp add: forget same_bytes_def tb_jmp_cache_remove_def Let_def)
    then show ?thesis using cache_inv_forget[OF inv] forget by blast
  next
    case acknowledge
    have "same_bytes s t" by (simp add: acknowledge same_bytes_def)
    then show ?thesis using inv acknowledge by (auto simp: cache_inv_flag)
  next
    case flush
    then show ?thesis using cache_inv_flush by blast
  qed
  then show ?thesis using cache_good_fewer[OF assms(2)] by blast
qed

lemma contiguous_page: "unat pc < 0xFFF00 \<Longrightarrow> contiguous rl78_page pc"
proof -
  assume pc: "unat pc < 0xFFF00"
  let ?p = "pc AND TARGET_PAGE_MASK32"
  have "unat ?p \<le> unat pc" using word_and_le2[of pc TARGET_PAGE_MASK32] by (simp add: word_le_nat_alt)
  then have u: "unat (?p + 256) = unat ?p + 256" using pc by (simp add: unat_word_ariths(1))
  have "unat ?p mod 256 = 0" using page_mod[of ?p] by (simp add: and.assoc)
  then have "(?p + 256) AND TARGET_PAGE_MASK32 = ?p + 256" using page_mod[of "?p + 256"] u by simp
  moreover have "(ucast (?p + 256) :: u64) = ucast ?p + 256"
    using u pc \<open>unat ?p \<le> unat pc\<close> by (simp add: word_unat_eq_iff unat_ucast_u64 unat_word_ariths(1))
  ultimately show ?thesis by (simp add: contiguous_def rl78_page_def)
qed

lemma cached_lookup_good:
  assumes "cached_lookup hp hm T mx c = Some (tb, c1)" "cache_good hp T (ram (mach (ca_rt c))) (ca_code c) A (ca_buf c, ca_tb c)"
    "\<forall>c. unat (tr_size (tr_back T c)) \<le> 256" "cpu_get_tb_cpu_state (cpu (mach (ca_rt c))) = (pc, cs_base, flags)"
  shows "ca_rt c1 = ca_rt c \<and> (\<exists>A'. tb \<in> A' \<and> cache_good hp T (ram (mach (ca_rt c))) (ca_code c1) A' (ca_buf c1, ca_tb c1)) \<and>
    blk_pc (tbs (ca_tb c1) tb) = pc \<and> blk_flags (tbs (ca_tb c1) tb) = scast flags \<and> unat pc < 0xFFF00"
proof -
  let ?s = "\<lparr>cc_mem = phys_mem (ram (mach (ca_rt c))), cc_tb = ca_tb c, cc_code = ca_code c\<rparr>"
  obtain s where s: "cache_lookup hm rl78_page T mx pc cs_base (scast flags) ?s = Some (tb, s)" and pc: "unat pc < 0xFFF00"
    and c1: "c1 = c\<lparr>ca_tb := cc_tb s, ca_code := cc_code s,
         ca_buf := (if new_block (ca_tb c) (cc_tb s) then protect_block hp (tbs (cc_tb s) tb) (ca_buf c) else ca_buf c)\<rparr>"
    using assms(1) unfolding cached_lookup_def assms(4) by (auto simp: Option.bind_eq_Some_conv not_le split: if_splits)
  have g: "cache_inv (cc_tb ?s) A" "\<forall>i\<in>A. kept rl78_page T (cc_mem ?s) (tbs (cc_tb ?s) i) (cc_code ?s i)" "guards (ca_tb c) A (ca_buf c)" "buffer_ok hp (ca_buf c)"
    using assms(2) by (simp_all add: cache_good_def)
  from cache_lookup_blocks[OF g(1,2) rl78_page_map assms(3) s contiguous_page[OF pc]]
  obtain A' where A': "cache_inv (cc_tb s) A'" "tb \<in> A'" "\<forall>i\<in>A'. kept rl78_page T (phys_mem (ram (mach (ca_rt c)))) (tbs (cc_tb s) i) (cc_code s i)"
    "blk_pc (tbs (cc_tb s) tb) = pc" "blk_flags (tbs (cc_tb s) tb) = scast flags"
    "\<forall>i\<in>A'. \<not> (new_block (ca_tb c) (cc_tb s) \<and> i = tb) \<longrightarrow> i \<in> A \<and> blk_page_addr (tbs (cc_tb s) i) = blk_page_addr (tbs (ca_tb c) i)"
    "new_block (ca_tb c) (cc_tb s) \<longrightarrow> placed rl78_page (tbs (cc_tb s) tb)" by auto
  have "guards (cc_tb s) A' (ca_buf c1) \<and> buffer_ok hp (ca_buf c1)"
  proof (cases "new_block (ca_tb c) (cc_tb s)")
    case True
    have "guards (cc_tb s) (A' - {tb}) (ca_buf c)" by (rule guards_mono[OF g(3)]) (use A'(6) in auto)
    moreover have "placed rl78_page (tbs (cc_tb s) tb)" using A'(7) True by blast
    ultimately show ?thesis using protect_block_guards[OF A'(1,2) _ g(4)] A'(4) pc True by (simp add: c1)
  next
    case False
    have "guards (cc_tb s) A' (ca_buf c)" by (rule guards_mono[OF g(3)]) (use A'(6) False in auto)
    then show ?thesis using False g(4) by (simp add: c1)
  qed
  then have "cache_good hp T (ram (mach (ca_rt c))) (ca_code c1) A' (ca_buf c1, ca_tb c1)" using A'(1,3) by (simp add: cache_good_def c1)
  then show ?thesis using A'(2,4,5) pc by (auto simp: c1)
qed

lemma run_cached_good:
  assumes "run_cached P hp allowed tb c S y = Some (S', z, True)" "cache_good hp T (ram (mach S)) hc A y"
    "unat (blk_pc (tbs (snd y) tb)) + unat (blk_size (tbs (snd y) tb)) < 2 ^ 32"
  shows "run_code P c S = Some S' \<and> cache_good hp T (ram (mach S')) hc A z"
proof -
  obtain n s where c: "c = (n, s)" by fastforce
  obtain S1 where o: "cached_ops P hp allowed tb (code s) S y = Some (S1, z, True)" "\<not> (n = 0 \<or> gen_abort s \<noteq> None \<or> tcg_overrun s)"
    "S' = S1\<lparr>rmode := Running\<rparr>" "\<exists>v. rmode S1 = Exited v"
    using assms(1) unfolding run_cached_def c by (auto split: if_splits option.splits run_mode.splits)
  from cached_ops_good[OF o(1) assms(2,3)] show ?thesis using o(2-4) by (auto simp: run_code_def c)
qed

lemma cached_turn_fresh:
  assumes "cached_turn P hp allowed hm T k True c d" "cached_ok hp T c" "records_size back" "T = rl78_translator h bps sync mx back"
  shows "steps (exec_block P h bps sync mx) k (ca_rt c) = Some (ca_rt d) \<and> cached_ok hp T d"
proof -
  have rest: "at_rest (ca_rt c)" using assms(2) by (simp add: cached_ok_def)
  obtain A where A: "cache_good hp T (ram (mach (ca_rt c))) (ca_code c) A (ca_buf c, ca_tb c)" using assms(2) by (auto simp: cached_ok_def)
  have b: "\<forall>c. unat (tr_size (tr_back T c)) \<le> 256" using assms(3) by (simp add: assms(4) rl78_translator_def records_size_def)
  obtain pc cs_base flags where f: "cpu_get_tb_cpu_state (cpu (mach (ca_rt c))) = (pc, cs_base, flags)" by (metis prod_cases3)
  show ?thesis using assms(1)
  proof cases
    case (fill a)
    obtain m t where x: "ca_buf c = (m, t)" by fastforce
    have g: "guards (ca_tb c) A (m, t)" "buffer_ok hp (m, t)" using A by (simp_all add: cache_good_def x)
    have "guards (ca_tb c) A (m, tlb_fill hp allowed m a 0 t)"
      by (rule guards_mono[OF g(1) subset_refl]) (use fill_guarded[OF g(2) fill(3)] in simp_all)
    then have "cache_good hp T (ram (mach (ca_rt c))) (ca_code c) A ((m, tlb_fill hp allowed m a 0 t), ca_tb c)"
      using kept_same_ram[OF A] fill_ok[OF g(2) fill(3)] by blast
    then show ?thesis using rest by (auto simp: fill cached_ok_def x)
  next
    case (tidy t)
    then show ?thesis using tidy_good[OF tidy(3) A] rest by (auto simp: cached_ok_def)
  next
    case (leave lim tb c1 e r e')
    from cached_lookup_good[OF leave(3) A b f] obtain A' where A': "ca_rt c1 = ca_rt c"
      "cache_good hp T (ram (mach (ca_rt c))) (ca_code c1) A' (ca_buf c1, ca_tb c1)" by blast
    from prepare_leaves[OF leave(6,7)] leave(5)
    have "tidy_step (ca_tb c1) (ex_tb e') \<or> ex_tb e' = ca_tb c1" using tidy_step.kill tidy_step.forget by metis
    then have "\<exists>A'. cache_good hp T (ram (mach (ca_rt c))) (ca_code c1) A' (ca_buf c1, ex_tb e')" using tidy_good[OF _ A'(2)] A'(2) by metis
    then show ?thesis using rest A'(1) leave by (auto simp: cached_ok_def)
  next
    case (run lim tb c1 e e' S x t)
    from cached_lookup_good[OF run(3) A b f] obtain A' where A': "ca_rt c1 = ca_rt c" "tb \<in> A'"
      "cache_good hp T (ram (mach (ca_rt c))) (ca_code c1) A' (ca_buf c1, ca_tb c1)"
      "blk_pc (tbs (ca_tb c1) tb) = pc" "blk_flags (tbs (ca_tb c1) tb) = scast flags" "unat pc < 0xFFF00" by blast
    have g: "cache_inv (ca_tb c1) A'" "kept rl78_page T (phys_mem (ram (mach (ca_rt c)))) (tbs (ca_tb c1) tb) (ca_code c1 tb)"
      using A'(2,3) by (simp_all add: cache_good_def)
    have "\<not> blk_dirty_flag (tbs (ca_tb c1) tb)" using prepare_runs[OF run(6)] run(5) by simp
    then have cur: "current rl78_page T (phys_mem (ram (mach (ca_rt c)))) (tbs (ca_tb c1) tb) (ca_code c1 tb)" using g(2) by (simp add: kept_def)
    have "ca_code c1 tb = code_now T rl78_page (phys_mem (ram (mach (ca_rt c)))) pc (scast flags)"
      by (rule current_code_now[OF cur rl78_page_map b, unfolded A'(4,5)]) (rule rl78_local[OF rest f assms(3,4)])
    then have code: "ca_code c1 tb = run_state (cpu_gen_code_inner (ram (mach (ca_rt c))) bps sync mx) (block_start h (mach (ca_rt c)))"
      using block_start_flags[OF f, of h] by (simp add: code_now_def assms(4) rl78_translator_def)
    have "block_ok (tbs (ca_tb c1) tb)" using g(1) A'(2) by (auto simp: cache_inv_def tb_inv_def link_inv_def)
    then have "unat (blk_pc (tbs (ca_tb c1) tb)) + unat (blk_size (tbs (ca_tb c1) tb)) < 2 ^ 32" using A'(4,6) by (simp add: block_ok_def)
    from run_cached_good[OF run(7) A'(3)] this
    have r: "run_code P (ca_code c1 tb) (ca_rt c) = Some S" "cache_good hp T (ram (mach S)) (ca_code c1) A' (x, t)" by simp_all
    have e: "exec_block P h bps sync mx (ca_rt c) = Some S" using r(1) by (simp add: exec_block_run_code code)
    then have "at_rest S" by (rule exec_block_at_rest[OF rest])
    then show ?thesis using e r(2) run(1,2) by (auto simp: cached_ok_def)
  qed
qed

lemma steps_add: "steps f (k + n) x = Option.bind (steps f k x) (steps f n)"
  by (induction k arbitrary: x) (simp_all split: Option.bind_split)

lemma cached_run_fresh:
  assumes "cached_run P hp allowed hm T n q c d" "q" "cached_ok hp T c" "records_size back" "T = rl78_translator h bps sync mx back"
  shows "steps (exec_block P h bps sync mx) n (ca_rt c) = Some (ca_rt d) \<and> cached_ok hp T d"
  using assms(1-3)
proof (induction rule: cached_run.induct)
  case (turn k q c d n q' e)
  then have "q = True" "q'" by simp_all
  note t = cached_turn_fresh[OF turn.hyps(1)[unfolded \<open>q = True\<close>] turn.prems(2) assms(4,5)]
  then show ?case using turn.IH[OF \<open>q'\<close>] by (simp add: steps_add)
qed simp

text \<open>An empty cache over a flushed buffer is a start.\<close>

lemma cached_start:
  assumes "at_rest (ca_rt c)" "cache_inv (ca_tb c) {}" "identity_map (fst (ca_buf c))" "snd (ca_buf c) = tlb_flush g t0"
  shows "cached_ok hp T c"
proof -
  have "write_entry_ok hp (fst (ca_buf c)) (tlb_table (snd (ca_buf c)) 0 i)" for i
    using empty_entry_ok(1) by (simp add: assms(4) tlb_flush_def)
  then have "buffer_ok hp (ca_buf c)" using assms(3,4) by (simp add: buffer_ok_def tlb_inv_def tlb_flush_ok)
  then show ?thesis using assms(1,2) by (auto simp: cached_ok_def cache_good_def guards_def intro!: exI[of _ "{}"])
qed

end
