(* ===== verification/TB_Break.thy ===== *)
theory TB_Break
  imports TB_Smc
begin

text \<open>Breakpoints (\<^verbatim>\<open>cpu_breakpoint_insert\<close>, \<^verbatim>\<open>cpu_breakpoint_remove\<close>, \<^verbatim>\<open>cpu_breakpoint_remove_all\<close>,
  \<^verbatim>\<open>cpu_breakpoint_count\<close> and \<^verbatim>\<open>cpu_breakpoint_list\<close> of \<^verbatim>\<open>src/exec.c\<close>): the queue of breakpoints, and the
  invalidation of the blocks of an address whenever a breakpoint there comes or goes. No block that starts at the address
  stays in use, so that the next lookup translates it with the breakpoints as they are then.\<close>

section \<open>The queue\<close>

record CPUBreakpoint =
  bp_pc :: u32
  bp_flags :: u32

definition BP_GDB :: u32 where "BP_GDB = 0x10"

text \<open>All blocks ever allocated are looked at, the end of a block included; None is a range over two pages.\<close>

primrec breakpoint_invalidate_loop :: "u32 \<Rightarrow> nat list \<Rightarrow> tb_state \<Rightarrow> tb_state option" where
  "breakpoint_invalidate_loop pc [] s = Some s"
| "breakpoint_invalidate_loop pc (i # is) s =
     (let tb = tbs s i
      in if pc < blk_pc tb \<or> blk_pc tb + ucast (blk_size tb) < pc then breakpoint_invalidate_loop pc is s
         else let physical_addr = (blk_page_addr tb 0 AND NOT (mask 8)) OR ucast (pc AND NOT TARGET_PAGE_MASK32)
              in do {
                s' \<leftarrow> tb_invalidate_phys_page_range_inner physical_addr (physical_addr + 1) False s;
                breakpoint_invalidate_loop pc is s' })"

definition breakpoint_invalidate :: "u32 \<Rightarrow> tb_state \<Rightarrow> tb_state option" where
  "breakpoint_invalidate pc s = breakpoint_invalidate_loop pc [0..<nb_tbs s] s"

definition cpu_breakpoint_insert :: "u32 \<Rightarrow> u32 \<Rightarrow> CPUBreakpoint list \<Rightarrow> tb_state \<Rightarrow> (CPUBreakpoint list \<times> tb_state) option" where
  "cpu_breakpoint_insert pc flags bps s =
     (let bp = \<lparr>bp_pc = pc, bp_flags = flags\<rparr>;
          bps' = (if flags AND BP_GDB \<noteq> 0 then bp # bps else bps @ [bp])
      in do { s' \<leftarrow> breakpoint_invalidate pc s; Some (bps', s') })"

text \<open>A breakpoint is referred to by its place in the queue.\<close>

definition cpu_breakpoint_remove_by_ref :: "nat \<Rightarrow> CPUBreakpoint list \<Rightarrow> tb_state \<Rightarrow> (CPUBreakpoint list \<times> tb_state) option" where
  "cpu_breakpoint_remove_by_ref n bps s = do {
     s' \<leftarrow> breakpoint_invalidate (bp_pc (bps ! n)) s;
     Some (take n bps @ drop (n + 1) bps, s') }"

fun find_breakpoint :: "u32 \<Rightarrow> u32 \<Rightarrow> CPUBreakpoint list \<Rightarrow> nat \<Rightarrow> nat option" where
  "find_breakpoint pc flags [] n = None"
| "find_breakpoint pc flags (bp # bps) n =
     (if bp_pc bp = pc \<and> bp_flags bp = flags then Some n else find_breakpoint pc flags bps (n + 1))"

definition ENOENT :: int where "ENOENT = 2"

definition cpu_breakpoint_remove :: "u32 \<Rightarrow> u32 \<Rightarrow> CPUBreakpoint list \<Rightarrow> tb_state \<Rightarrow> (int \<times> CPUBreakpoint list \<times> tb_state) option" where
  "cpu_breakpoint_remove pc flags bps s =
     (case find_breakpoint pc flags bps 0 of
        Some n \<Rightarrow> do { (bps', s') \<leftarrow> cpu_breakpoint_remove_by_ref n bps s; Some (0, bps', s') }
      | None \<Rightarrow> Some (- ENOENT, bps, s))"

text \<open>\<^verbatim>\<open>n\<close> is the place of the loop in the queue.\<close>

function remove_all_from :: "u32 \<Rightarrow> nat \<Rightarrow> CPUBreakpoint list \<Rightarrow> tb_state \<Rightarrow> (CPUBreakpoint list \<times> tb_state) option" where
  "remove_all_from msk n bps s =
     (if length bps \<le> n then Some (bps, s)
      else if bp_flags (bps ! n) AND msk \<noteq> 0
      then (case breakpoint_invalidate (bp_pc (bps ! n)) s of
          None \<Rightarrow> None
        | Some s' \<Rightarrow> remove_all_from msk n (take n bps @ drop (n + 1) bps) s')
      else remove_all_from msk (n + 1) bps s)"
  by pat_completeness auto
termination by (relation "measure (\<lambda>(_, n, bps, _). length bps - n)") auto

declare remove_all_from.simps [simp del]

definition cpu_breakpoint_remove_all :: "u32 \<Rightarrow> CPUBreakpoint list \<Rightarrow> tb_state \<Rightarrow> (CPUBreakpoint list \<times> tb_state) option" where
  "cpu_breakpoint_remove_all msk bps s = remove_all_from msk 0 bps s"

definition cpu_breakpoint_count :: "u32 \<Rightarrow> CPUBreakpoint list \<Rightarrow> nat" where
  "cpu_breakpoint_count flags bps = fold (\<lambda>bp n. if bp_flags bp AND flags \<noteq> 0 then n + 1 else n) bps 0"

text \<open>What is written to the array, and the result; without an array nothing is written.\<close>

fun breakpoint_list_loop :: "u32 \<Rightarrow> bool \<Rightarrow> nat \<Rightarrow> CPUBreakpoint list \<Rightarrow> u32 list \<Rightarrow> nat \<Rightarrow> u32 list \<times> nat" where
  "breakpoint_list_loop flags addrs capacity [] written n_found = (written, n_found)"
| "breakpoint_list_loop flags addrs capacity (bp # bps) written n_found =
     (if bp_flags bp AND flags = 0 then breakpoint_list_loop flags addrs capacity bps written n_found
      else breakpoint_list_loop flags addrs capacity bps
        (if addrs \<and> length written < capacity then written @ [bp_pc bp] else written) (n_found + 1))"

definition cpu_breakpoint_list :: "u32 \<Rightarrow> bool \<Rightarrow> nat \<Rightarrow> CPUBreakpoint list \<Rightarrow> u32 list \<times> nat" where
  "cpu_breakpoint_list flags addrs capacity bps =
     (case breakpoint_list_loop flags addrs capacity bps [] 0 of
        (written, n_found) \<Rightarrow> (written, if addrs then length written else n_found))"

section \<open>Listing and removing\<close>

lemma cpu_breakpoint_count_filter: "cpu_breakpoint_count flags bps = length (filter (\<lambda>bp. bp_flags bp AND flags \<noteq> 0) bps)"
proof -
  have "fold (\<lambda>bp n. if bp_flags bp AND flags \<noteq> 0 then n + 1 else n) bps k = k + length (filter (\<lambda>bp. bp_flags bp AND flags \<noteq> 0) bps)" for k
    by (induction bps arbitrary: k) auto
  then show ?thesis by (simp add: cpu_breakpoint_count_def)
qed

lemma breakpoint_list_loop_eq:
  "length written \<le> capacity \<Longrightarrow> breakpoint_list_loop flags addrs capacity bps written n_found =
     (let found = map bp_pc (filter (\<lambda>bp. bp_flags bp AND flags \<noteq> 0) bps)
      in (if addrs then written @ take (capacity - length written) found else written, n_found + length found))"
proof (induction bps arbitrary: written n_found)
  case (Cons bp bps)
  show ?case
  proof (cases "bp_flags bp AND flags = 0")
    case False
    show ?thesis
    proof (cases "addrs \<and> length written < capacity")
      case True
      then obtain k where k: "capacity - length written = Suc k" "capacity - Suc (length written) = k" by (metis Suc_diff_Suc)
      show ?thesis using False True Cons.IH[of "written @ [bp_pc bp]" "n_found + 1"] k by (simp add: Let_def)
    next
      case full: False
      then show ?thesis using False Cons.IH[of written "n_found + 1"] Cons.prems by (auto simp: Let_def)
    qed
  qed (use Cons in simp)
qed simp

text \<open>The list has the addresses in the order of the queue, as many as fit; the count is that of the queue.\<close>

lemma cpu_breakpoint_list_eq:
  "cpu_breakpoint_list flags addrs capacity bps =
     (let found = map bp_pc (filter (\<lambda>bp. bp_flags bp AND flags \<noteq> 0) bps)
      in if addrs then (take capacity found, min capacity (cpu_breakpoint_count flags bps)) else ([], cpu_breakpoint_count flags bps))"
  by (simp add: cpu_breakpoint_list_def breakpoint_list_loop_eq cpu_breakpoint_count_filter Let_def min.commute)

lemma find_breakpoint_Some:
  "find_breakpoint pc flags bps k = Some n \<Longrightarrow> k \<le> n \<and> n - k < length bps \<and> bp_pc (bps ! (n - k)) = pc \<and> bp_flags (bps ! (n - k)) = flags"
proof (induction bps arbitrary: k)
  case (Cons bp bps)
  show ?case
  proof (cases "bp_pc bp = pc \<and> bp_flags bp = flags")
    case False
    with Cons.prems have "find_breakpoint pc flags bps (k + 1) = Some n" by auto
    from Cons.IH[OF this] have i: "k + 1 \<le> n" "n - (k + 1) < length bps" "bp_pc (bps ! (n - (k + 1))) = pc" "bp_flags (bps ! (n - (k + 1))) = flags" by auto
    moreover obtain j where "n - k = Suc j" "n - (k + 1) = j" using i(1) by (metis Suc_diff_Suc Suc_eq_plus1 Suc_le_lessD)
    ultimately show ?thesis by simp
  qed (use Cons.prems in auto)
qed simp

lemma find_breakpoint_None: "find_breakpoint pc flags bps k = None \<longleftrightarrow> (\<forall>bp\<in>set bps. \<not> (bp_pc bp = pc \<and> bp_flags bp = flags))"
  by (induction bps arbitrary: k) auto

section \<open>Blocks at a breakpoint\<close>

lemma phys_of_block:
  assumes "block_ok b"
  shows "(blk_page_addr b 0 AND NOT (mask 8)) OR ucast (blk_pc b AND NOT TARGET_PAGE_MASK32) = fst (tb_extent b 0)"
proof -
  have al: "blk_page_addr b 0 AND mask 8 = 0" using assms by (simp add: block_ok_def)
  have "blk_page_addr b 0 AND NOT (mask 8) = blk_page_addr b 0"
  proof (rule bit_word_eqI)
    fix n assume "n < LENGTH(64)"
    have "\<not> bit (blk_page_addr b 0 AND mask 8) n" using al by simp
    then show "bit (blk_page_addr b 0 AND NOT (mask 8)) n = bit (blk_page_addr b 0) n"
      using \<open>n < LENGTH(64)\<close> by (auto simp: bit_and_iff bit_not_iff bit_mask_iff)
  qed
  then show ?thesis using aligned_disjoint[OF al] by (simp add: tb_extent_def EXIT_TB_NO_JUMP_def Let_def)
qed

lemma invalidate_loop_spec:
  assumes "cache_inv s A" "unat pc + 256 < 2 ^ 32"
  shows "\<exists>s' A'. breakpoint_invalidate_loop pc is s = Some s' \<and> cache_inv s' A' \<and> A' \<subseteq> A \<and> same_bytes s s' \<and>
    (\<forall>i\<in>A'. i \<in> set is \<longrightarrow> blk_pc (tbs s i) \<noteq> pc)"
  using assms(1)
proof (induction "is" arbitrary: s A)
  case Nil
  then show ?case by (intro exI[of _ s] exI[of _ A]) simp
next
  case (Cons i "is")
  let ?b = "tbs s i" and ?a = "(blk_page_addr (tbs s i) 0 AND NOT (mask 8)) OR ucast (pc AND NOT TARGET_PAGE_MASK32) :: u64"
  have ok: "block_ok ?b" if "i \<in> A" using that Cons.prems by (auto simp: cache_inv_def tb_inv_def link_inv_def)
  show ?case
  proof (cases "pc < blk_pc ?b \<or> blk_pc ?b + ucast (blk_size ?b) < pc")
    case True
    have "blk_pc ?b \<noteq> pc" if "i \<in> A"
    proof
      assume "blk_pc ?b = pc"
      moreover have "unat (blk_size ?b) \<le> 256" using ok[OF that] by (simp add: block_ok_def)
      then have "unat (pc + ucast (blk_size ?b)) = unat pc + unat (blk_size ?b)"
        using assms(2) by (simp add: unat_word_ariths(1) unsigned_ucast_eq take_bit_nat_eq_self)
      ultimately show False using True by (simp add: word_less_nat_alt)
    qed
    moreover have "breakpoint_invalidate_loop pc (i # is) s = breakpoint_invalidate_loop pc is s" using True by simp
    moreover from Cons.IH[OF Cons.prems] obtain s' A' where s': "breakpoint_invalidate_loop pc is s = Some s'" "cache_inv s' A'" "A' \<subseteq> A"
      "same_bytes s s'" "\<And>j. j \<in> A' \<Longrightarrow> j \<in> set is \<Longrightarrow> blk_pc (tbs s j) \<noteq> pc" by blast
    ultimately have "blk_pc (tbs s j) \<noteq> pc" if "j \<in> A'" "j \<in> set (i # is)" for j using that by auto
    then show ?thesis using s'(2-4) \<open>breakpoint_invalidate_loop pc (i # is) s = breakpoint_invalidate_loop pc is s\<close> s'(1)
      by (intro exI[of _ s'] exI[of _ A']) simp
  next
    case False
    have one: "?a div 256 = (?a + 1 - 1) div 256" by simp
    from invalidate_inner_hits[OF Cons.prems one, of False] obtain s1 A1 where s1: "tb_invalidate_phys_page_range_inner ?a (?a + 1) False s = Some s1"
      "cache_inv s1 A1" "A1 \<subseteq> A" "same_bytes s s1"
      "\<And>j n. j \<in> A1 \<Longrightarrow> on_page (tbs s j) n (pkey (drop_bit 8 ?a)) \<Longrightarrow> \<not> range_hit ?a (?a + 1) (tb_extent (tbs s j) n)" by blast
    from Cons.IH[OF s1(2)] obtain s' A' where s': "breakpoint_invalidate_loop pc is s1 = Some s'" "cache_inv s' A'" "A' \<subseteq> A1" "same_bytes s1 s'"
      "\<And>j. j \<in> A' \<Longrightarrow> j \<in> set is \<Longrightarrow> blk_pc (tbs s1 j) \<noteq> pc" by blast
    have "blk_pc ?b \<noteq> pc" if "i \<in> A'"
    proof
      assume pc: "blk_pc ?b = pc"
      have iA: "i \<in> A1" "block_ok ?b" using that s'(3) s1(3) ok by auto
      have a: "?a = fst (tb_extent ?b 0)" using phys_of_block[OF iA(2)] pc by simp
      have al: "blk_page_addr ?b 0 AND mask 8 = 0" "blk_page_addr ?b 0 \<noteq> - 256" using iA(2) by (simp_all add: block_ok_def)
      have o: "unat (blk_pc ?b AND NOT TARGET_PAGE_MASK32) < 256" by (simp add: page_off_eq)
      have e: "?a = blk_page_addr ?b 0 + of_nat (unat (blk_pc ?b AND NOT TARGET_PAGE_MASK32))"
        unfolding a by (simp add: tb_extent_def EXIT_TB_NO_JUMP_def Let_def of_nat_unat)
      have "drop_bit 8 ?a = drop_bit 8 (blk_page_addr ?b 0)" unfolding e by (rule byte_addr(2)[OF al(1) o])
      then have "on_page ?b 0 (pkey (drop_bit 8 ?a))" by (simp add: on_page_def)
      moreover have "unat ?a < unat (?a + 1)"
        using byte_addr(1)[OF al(1) o] aligned_room(3)[OF al] o unfolding e[symmetric] by (simp add: unat_word_ariths(1))
      then have "range_hit ?a (?a + 1) (tb_extent ?b 0)" using a by (auto simp: range_hit_def word_less_nat_alt split: prod.split)
      ultimately show False using s1(5)[OF iA(1)] by blast
    qed
    moreover have "blk_pc (tbs s1 j) = blk_pc (tbs s j)" for j using s1(4) by (simp add: same_bytes_def)
    moreover have "breakpoint_invalidate_loop pc (i # is) s = Some s'" using False s1(1) s'(1) by (simp add: Let_def)
    ultimately show ?thesis using s'(2,3,5) s1(3) same_bytes_trans[OF s1(4) s'(4)] by (intro exI[of _ s'] exI[of _ A']) auto
  qed
qed

lemma breakpoint_invalidate_spec:
  assumes "cache_inv s A" "unat pc + 256 < 2 ^ 32"
  shows "\<exists>s' A'. breakpoint_invalidate pc s = Some s' \<and> cache_inv s' A' \<and> A' \<subseteq> A \<and> same_bytes s s' \<and> (\<forall>i\<in>A'. blk_pc (tbs s i) \<noteq> pc)"
proof -
  have "A \<subseteq> {..<nb_tbs s}" using assms(1) unfolding cache_inv_def tb_inv_def using link_inv_bound by blast
  then have "i \<in> set [0..<nb_tbs s]" if "i \<in> A" for i using that by auto
  with invalidate_loop_spec[OF assms, of "[0..<nb_tbs s]"] show ?thesis unfolding breakpoint_invalidate_def by blast
qed

text \<open>Removing all breakpoints with one of some flags leaves the others in order.\<close>

lemma remove_all_from_spec:
  assumes "cache_inv s A" "\<forall>bp\<in>set bps. unat (bp_pc bp) + 256 < 2 ^ 32"
  shows "\<exists>s' A'. remove_all_from msk n bps s = Some (take n bps @ filter (\<lambda>bp. bp_flags bp AND msk = 0) (drop n bps), s') \<and>
    cache_inv s' A' \<and> A' \<subseteq> A \<and> same_bytes s s'"
  using assms
proof (induction msk n bps s arbitrary: A rule: remove_all_from.induct)
  case (1 msk n bps s)
  show ?case
  proof (cases "length bps \<le> n")
    case True
    then show ?thesis using "1.prems"(1) by (intro exI[of _ s] exI[of _ A]) (simp add: remove_all_from.simps)
  next
    case False
    then have d: "drop n bps = bps ! n # drop (n + 1) bps" "take (n + 1) bps = take n bps @ [bps ! n]"
      by (simp_all add: Cons_nth_drop_Suc take_Suc_conv_app_nth)
    show ?thesis
    proof (cases "bp_flags (bps ! n) AND msk = 0")
      case True
      have "remove_all_from msk n bps s = remove_all_from msk (n + 1) bps s" using False True by (subst remove_all_from.simps) simp
      then show ?thesis using "1.IH"(2)[OF False _ "1.prems"] True d by simp
    next
      case f: False
      let ?bps = "take n bps @ drop (n + 1) bps"
      have "bps ! n \<in> set bps" using False by simp
      then have "unat (bp_pc (bps ! n)) + 256 < 2 ^ 32" using "1.prems"(2) by blast
      from breakpoint_invalidate_spec[OF "1.prems"(1) this] obtain s1 A1 where s1: "breakpoint_invalidate (bp_pc (bps ! n)) s = Some s1"
        "cache_inv s1 A1" "A1 \<subseteq> A" "same_bytes s s1" by blast
      have "set ?bps \<subseteq> set bps" using set_take_subset[of n bps] set_drop_subset[of "n + 1" bps] by auto
      then have "\<forall>bp\<in>set ?bps. unat (bp_pc bp) + 256 < 2 ^ 32" using "1.prems"(2) by blast
      from "1.IH"(1)[OF False _ s1(1,2) this] f obtain s' A' where
        s': "remove_all_from msk n ?bps s1 = Some (take n ?bps @ filter (\<lambda>bp. bp_flags bp AND msk = 0) (drop n ?bps), s')"
          "cache_inv s' A'" "A' \<subseteq> A1" "same_bytes s1 s'" by blast
      have "take n ?bps = take n bps" "drop n ?bps = drop (n + 1) bps" using False by simp_all
      moreover have "remove_all_from msk n bps s = remove_all_from msk n ?bps s1" using False f s1(1) by (subst remove_all_from.simps) simp
      ultimately show ?thesis using s' d(1) f s1(3) same_bytes_trans[OF s1(4) s'(4)] by (intro exI[of _ s'] exI[of _ A']) auto
    qed
  qed
qed

end
