(* ===== verification/RL78_Break.thy ===== *)
theory RL78_Break
  imports RL78_Cached TB_Break
begin

text \<open>Breakpoints while running from the cache: the code of a block depends on the breakpoints only at its first
  instruction, and the blocks of an address are dropped when a breakpoint there comes or goes, so that the cache stays
  coherent with the new breakpoints.\<close>

section \<open>Code and breakpoints\<close>

lemma gen_code_loop_bps:
  assumes "base_pc (dc s) \<in> set bps \<longleftrightarrow> base_pc (dc s) \<in> set bps'"
  shows "wp (gen_code_loop load bps sync mx k) Q s = wp (gen_code_loop load bps' sync mx k) Q s"
proof (cases "base_pc (dc s) \<in> set bps")
  case True
  then have ne: "bps \<noteq> []" "bps' \<noteq> []" and T: "base_pc (dc s) \<in> set bps'" using assms by auto
  show ?thesis unfolding gen_code_loop_once wp_bind
    by (subst (1 2) wp_get_dc) (simp only: ne if_False at_breakpoint[OF True] at_breakpoint[OF T] option.case)
next
  case False
  have n: "(if bs = [] then State_Monad.return False else case process_breakpoints bs (base_pc (dc s)) of
      None \<Rightarrow> State_Monad.return False | Some bp \<Rightarrow> gen_breakpoint \<bind> (\<lambda>r. State_Monad.return (r \<noteq> 0))) = State_Monad.return False"
    if "base_pc (dc s) \<notin> set bs" for bs using no_breakpoint[OF that] by simp
  have F: "base_pc (dc s) \<notin> set bps'" using False assms by simp
  show ?thesis unfolding gen_code_loop_once wp_bind
    by (subst (1 2) wp_get_dc) (simp only: n[OF False] n[OF F] wp_return_ext if_False)
qed

lemma inner_bps:
  assumes "pc \<in> set bps \<longleftrightarrow> pc \<in> set bps'"
  shows "run_state (cpu_gen_code_inner load bps sync mx) (tcg_func_start h pc fl) = run_state (cpu_gen_code_inner load bps' sync mx) (tcg_func_start h pc fl)"
proof (rule run_eqI)
  fix Q
  have "wp setup_disas_context (\<lambda>_ s. base_pc (dc s) = pc) (tcg_func_start h pc fl)"
    by (simp add: setup_disas_context_def upd_dc_def wp_update tcg_func_start_def)
  then show "wp (cpu_gen_code_inner load bps sync mx) Q (tcg_func_start h pc fl) = wp (cpu_gen_code_inner load bps' sync mx) Q (tcg_func_start h pc fl)"
    unfolding cpu_gen_code_inner_def wp_bind by (rule wp_cong) (rule gen_code_loop_bps, use assms in simp)
qed

section \<open>The cache after a change of the breakpoints\<close>

text \<open>The blocks that start at the address are dropped; the code of all others does not depend on it.\<close>

lemma new_breakpoints_good:
  assumes "cache_good hp (rl78_translator h bps sync mx back) r hc A (x, s)" "unat pc + 256 < 2 ^ 32"
    "\<And>v. v \<noteq> pc \<Longrightarrow> v \<in> set bps \<longleftrightarrow> v \<in> set bps'"
  shows "\<exists>t A'. breakpoint_invalidate pc s = Some t \<and> cache_good hp (rl78_translator h bps' sync mx back) r hc A' (x, t) \<and>
    (\<forall>i\<in>A'. blk_pc (tbs t i) \<noteq> pc)"
proof -
  let ?T = "rl78_translator h bps sync mx back" and ?T' = "rl78_translator h bps' sync mx back"
  have "cache_inv s A" using assms(1) by (simp add: cache_good_def)
  from breakpoint_invalidate_spec[OF this assms(2)] obtain t A' where t: "breakpoint_invalidate pc s = Some t" "cache_inv t A'" "A' \<subseteq> A"
    "same_bytes s t" "\<And>i. i \<in> A' \<Longrightarrow> blk_pc (tbs s i) \<noteq> pc" by blast
  have gone: "blk_pc (tbs t i) \<noteq> pc" if "i \<in> A'" for i using t(4,5) that by (simp add: same_bytes_def)
  have g: "cache_good hp ?T r hc A' (x, t)" using cache_good_fewer[OF assms(1) t(2,3)] t(4) by blast
  have same: "code_now ?T rl78_page m v fl = code_now ?T' rl78_page m v fl" if "v \<noteq> pc" for m v fl
    using inner_bps[of v bps bps'] assms(3)[OF that] by (simp add: code_now_def rl78_translator_def)
  have "kept rl78_page ?T' (phys_mem r) (tbs t i) (hc i)" if i: "i \<in> A'" for i
  proof -
    have "kept rl78_page ?T (phys_mem r) (tbs t i) (hc i)" using g i by (simp add: cache_good_def)
    moreover have "current rl78_page ?T' (phys_mem r) (tbs t i) (hc i)" if "current rl78_page ?T (phys_mem r) (tbs t i) (hc i)"
      using that same[OF gone[OF i]] by (simp add: current_def rl78_translator_def)
    ultimately show ?thesis by (auto simp: kept_def)
  qed
  then have "cache_good hp ?T' r hc A' (x, t)" using g by (simp add: cache_good_def)
  then show ?thesis using t(1) gone by blast
qed

text \<open>Setting and removing, with what is known of the cache afterwards.\<close>

lemma breakpoint_inserted:
  assumes "cached_ok hp (rl78_translator h (map bp_pc q) sync mx back) c" "unat pc + 256 < 2 ^ 32"
  shows "\<exists>q' t. cpu_breakpoint_insert pc flags q (ca_tb c) = Some (q', t) \<and> set (map bp_pc q') = insert pc (set (map bp_pc q)) \<and>
    cached_ok hp (rl78_translator h (map bp_pc q') sync mx back) (c\<lparr>ca_tb := t\<rparr>) \<and>
    (\<exists>A. cache_inv t A \<and> (\<forall>i\<in>A. blk_pc (tbs t i) \<noteq> pc))"
proof -
  define q' where "q' = (if flags AND BP_GDB \<noteq> 0 then \<lparr>bp_pc = pc, bp_flags = flags\<rparr> # q else q @ [\<lparr>bp_pc = pc, bp_flags = flags\<rparr>])"
  have q': "set (map bp_pc q') = insert pc (set (map bp_pc q))" by (simp add: q'_def)
  obtain A where "cache_good hp (rl78_translator h (map bp_pc q) sync mx back) (ram (mach (ca_rt c))) (ca_code c) A (ca_buf c, ca_tb c)"
    using assms(1) by (auto simp: cached_ok_def)
  from new_breakpoints_good[OF this assms(2), of "map bp_pc q'"] q' obtain t A' where
    t: "breakpoint_invalidate pc (ca_tb c) = Some t" "\<forall>i\<in>A'. blk_pc (tbs t i) \<noteq> pc"
    "cache_good hp (rl78_translator h (map bp_pc q') sync mx back) (ram (mach (ca_rt c))) (ca_code c) A' (ca_buf c, t)" by auto
  have "cache_inv t A'" using t(3) by (simp add: cache_good_def)
  moreover have "cached_ok hp (rl78_translator h (map bp_pc q') sync mx back) (c\<lparr>ca_tb := t\<rparr>)"
    using assms(1) t(3) by (auto simp: cached_ok_def)
  moreover have "cpu_breakpoint_insert pc flags q (ca_tb c) = Some (q', t)"
    using t(1) by (simp add: cpu_breakpoint_insert_def q'_def[symmetric])
  ultimately show ?thesis using q' t(2) by blast
qed

lemma breakpoint_removed:
  assumes "cached_ok hp (rl78_translator h (map bp_pc q) sync mx back) c" "unat pc + 256 < 2 ^ 32"
    "bp \<in> set q" "bp_pc bp = pc" "bp_flags bp = flags"
  shows "\<exists>q' t. cpu_breakpoint_remove pc flags q (ca_tb c) = Some (0, q', t) \<and> length q = length q' + 1 \<and>
    cached_ok hp (rl78_translator h (map bp_pc q') sync mx back) (c\<lparr>ca_tb := t\<rparr>)"
proof -
  have "find_breakpoint pc flags q 0 \<noteq> None" using assms(3-5) by (auto simp: find_breakpoint_None)
  then obtain n where n: "find_breakpoint pc flags q 0 = Some n" by blast
  from find_breakpoint_Some[OF this] have f: "n < length q" "bp_pc (q ! n) = pc" by simp_all
  let ?q = "take n q @ drop (n + 1) q"
  have "q = take n q @ q ! n # drop (n + 1) q" using f(1) by (simp add: id_take_nth_drop)
  then have q: "set q = insert (q ! n) (set ?q)" by (metis Un_insert_right list.simps(15) set_append)
  have s: "v \<in> set (map bp_pc q) \<longleftrightarrow> v \<in> set (map bp_pc ?q)" if "v \<noteq> pc" for v using that f(2) unfolding set_map q by blast
  obtain A where "cache_good hp (rl78_translator h (map bp_pc q) sync mx back) (ram (mach (ca_rt c))) (ca_code c) A (ca_buf c, ca_tb c)"
    using assms(1) by (auto simp: cached_ok_def)
  from new_breakpoints_good[OF this assms(2) s] obtain t A' where
    t: "breakpoint_invalidate pc (ca_tb c) = Some t"
    "cache_good hp (rl78_translator h (map bp_pc ?q) sync mx back) (ram (mach (ca_rt c))) (ca_code c) A' (ca_buf c, t)" by auto
  have "cached_ok hp (rl78_translator h (map bp_pc ?q) sync mx back) (c\<lparr>ca_tb := t\<rparr>)" using assms(1) t(2) by (auto simp: cached_ok_def)
  then show ?thesis using n f t(1) by (intro exI[of _ ?q] exI[of _ t]) (simp add: cpu_breakpoint_remove_def cpu_breakpoint_remove_by_ref_def)
qed

end
