(* ===== verification/Spec2Isabelle.thy ===== *)
theory Spec2Isabelle
  imports RL78_Stack RL78_Break
begin

text \<open>Verification of the RL78 target of tlib, a dynamic binary translator (\<^verbatim>\<open>src/arch/rl78\<close>), of the parts of the
  code generator it uses (\<^verbatim>\<open>src/tcg\<close>) and of the cache of translated code (\<^verbatim>\<open>src/exec.c\<close>, \<^verbatim>\<open>src/cpu-exec.c\<close>,
  \<^verbatim>\<open>src/arch/translate-all.c\<close>).

  \<^bold>\<open>The program.\<close> The execution loop (\<^verbatim>\<open>cpu_exec\<close>) serves interrupts and exit requests, looks the block of host code
  for the program counter up (\<^verbatim>\<open>tb_find_fast\<close>, \<^verbatim>\<open>tb_find_slow\<close>) and runs it. A block that is not in the cache is generated
  (\<^verbatim>\<open>tb_gen_code\<close>, \<^verbatim>\<open>cpu_gen_code\<close>): the RL78 front end decodes an instruction and emits intermediate
  operations (\<^verbatim>\<open>translate.c\<close>), which the back end turns into host code. Blocks are linked into a hash table, into the lists of
  the one or two pages they lie on, which are protected in the lookaside buffer, and, when they jump directly, into the lists
  of their targets. A store of the guest that misses the buffer marks the blocks it writes over; the header of a block
  drops it when marked.

  \<^bold>\<open>Theories.\<close>
  \<^item> \<^verbatim>\<open>Prelude\<close>: words, named collections of rewrite rules, masks and bytes.
  \<^item> \<^verbatim>\<open>RL78_CPU\<close> (\<^verbatim>\<open>cpu.h\<close>, \<^verbatim>\<open>cpu_registers.c\<close>), \<^verbatim>\<open>RL78_Op_Helper\<close> (\<^verbatim>\<open>op_helper.c\<close>), \<^verbatim>\<open>RL78_Interrupt\<close> (\<^verbatim>\<open>helper.c\<close>,
    \<^verbatim>\<open>arch_exports.c\<close>): processor state as the record \<^verbatim>\<open>CPUState\<close>, memory-mapped registers, the
    multiply and divide unit, reset and interrupts. A \<^verbatim>\<open>machine\<close> is a processor, the bytes of guest memory, and
    the acknowledged interrupts.
  \<^item> \<^verbatim>\<open>RL78_Insn\<close>, \<^verbatim>\<open>RL78_Decode_Tables\<close>, \<^verbatim>\<open>RL78_Decode\<close> (\<^verbatim>\<open>decode.h\<close>, \<^verbatim>\<open>decode.c\<close>): the four opcode maps row
    by row and the decoder.
  \<^item> \<^verbatim>\<open>TCG_Context\<close>, \<^verbatim>\<open>TCG_Op\<close> (\<^verbatim>\<open>tcg.c\<close>, \<^verbatim>\<open>tcg-op.h\<close>): temporaries, labels and the generators, as a state monad
    over \<^verbatim>\<open>gen_state\<close>, whose errors are the aborts of the code; \<^verbatim>\<open>TCG_Exec\<close> gives the operations their meaning.
  \<^item> \<^verbatim>\<open>RL78_Operand\<close>, \<^verbatim>\<open>RL78_Translate\<close> (\<^verbatim>\<open>translate.c\<close>): one definition per function, and the block loop of
    \<^verbatim>\<open>translate-all.c\<close>.
  \<^item> \<^verbatim>\<open>TB_Search\<close> (\<^verbatim>\<open>translate-all.c\<close>): the search table of a block. \<^verbatim>\<open>TB_Cache\<close>, \<^verbatim>\<open>TB_Smc\<close>, \<^verbatim>\<open>TB_Dirty\<close>, \<^verbatim>\<open>TB_Break\<close>
    (\<^verbatim>\<open>exec.c\<close>, \<^verbatim>\<open>exec-all.h\<close>): the cache with its pointers as indices of blocks and its tagged pointers as
    pairs, writes to code, breakpoints. \<^verbatim>\<open>CPU_Exec\<close> (\<^verbatim>\<open>cpu-exec.c\<close>, \<^verbatim>\<open>src/helper.c\<close>): the loop, its long jumps as
    values. \<^verbatim>\<open>TLB\<close> (\<^verbatim>\<open>exec.c\<close>, \<^verbatim>\<open>exports.c\<close>): lookaside buffer and map of physical pages. \<^verbatim>\<open>TLB_Store\<close>
    (\<^verbatim>\<open>tcg/i386/tcg-target.c\<close>, \<^verbatim>\<open>softmmu_template.h\<close>): loads and stores of generated code, inline and on
    the slow path, and that a store which marks nothing never meets code in use.

  \<^bold>\<open>Lemmas.\<close>
  \<^item> \<^verbatim>\<open>TCG_Logic\<close>, \<^verbatim>\<open>TCG_Rules\<close>, \<^verbatim>\<open>TCG_Rules64\<close>, \<^verbatim>\<open>TCG_Flow\<close>: a program logic for generated code; one rule per generator,
    for every host, and what generators append.
  \<^item> \<^verbatim>\<open>RL78_ISA\<close> is the abstract specification, the instruction set on numbers and truth values.
    \<^verbatim>\<open>RL78_Operand_Rules\<close> to \<^verbatim>\<open>RL78_Dispatch\<close> show that each translator implements its instruction, \<^verbatim>\<open>RL78_Block\<close>,
    \<^verbatim>\<open>RL78_Run\<close> lift it to blocks and runs (locale \<^verbatim>\<open>step_refinement\<close>), \<^verbatim>\<open>RL78_Stack\<close> composes instructions.
  \<^item> \<^verbatim>\<open>TB_Hash\<close>, \<^verbatim>\<open>TB_Jump\<close>, \<^verbatim>\<open>TB_Pages\<close>: the lists of the cache as sequences without repetition; \<^verbatim>\<open>TB_Inv\<close> joins them in
    \<^verbatim>\<open>cache_inv s A\<close>, \<^verbatim>\<open>A\<close> the blocks in use, kept by every operation.
  \<^item> \<^verbatim>\<open>TB_Coherent\<close>: code kept for a block not marked is what translating the memory now would give, through lookups and
    marking. \<^verbatim>\<open>RL78_Extent\<close>: the generated code depends only on the bytes of its block. \<^verbatim>\<open>RL78_Cached\<close> runs the host
    code over cache and buffer, operation by operation: runs from the cache are runs of the instruction set, and
    \<^verbatim>\<open>RL78_Break\<close>: with breakpoints that come and go.
  \<^item> \<^verbatim>\<open>TLB_Code\<close>: after any steps of the lookaside buffer and the page map the page of code it gives is the page of the
    address (locale \<^verbatim>\<open>code_pages\<close>, the contract between who maps pages and who looks code up).

  \<^bold>\<open>Bounds.\<close> A block of this target holds one instruction of at most 5 bytes (\<^verbatim>\<open>gen_intermediate_code\<close> ends it), needs
  at most 256 of the 512 temporaries and 211 of the 512 labels; a block is at most 256 bytes for the cache, hence on at most
  two pages. The signed LEB128 numbers of the search table take at most 5 bytes. Loops over lists of the cache are partial
  functions whose None is a list that does not end; the theorems show that it does not occur.

  \<^bold>\<open>Hypotheses.\<close> The host code of a block and the place of guest pages are parameters. \<^verbatim>\<open>page_map\<close> and \<^verbatim>\<open>contiguous\<close>: pages
  are aligned, neighbours are kept apart by the page table and follow each other. \<^verbatim>\<open>sees_page\<close>: the lookup for marking finds
  the page the translation used (\<^verbatim>\<open>TLB_Code\<close> shows it of the lookaside buffer). The flag of a run from the cache: no
  helper wrote a byte of an unmarked block, since the code marks nothing then. \<^verbatim>\<open>code_ok\<close>: the generated code changes the
  cache only by the writes of \<^verbatim>\<open>code_write\<close>. \<^verbatim>\<open>records_size\<close>: the back end passes on the size of the
  block. \<^verbatim>\<open>platform\<close> collects what is unspecified for a host; the results hold for all.

  \<^bold>\<open>Not modelled.\<close> The other guest architectures and softfloat, which this port does not use; the back ends, optimizer and
  register allocation of TCG, whose interface is the meaning of the operations; accesses to device pages and across pages, I/O
  dispatch and the external memory management unit, which call host callbacks; the dirty addresses sent to other cores; hooks,
  profilers and the host API glue.\<close>

section \<open>A concrete machine for the witnesses\<close>

definition demo_cpu :: CPUState where
  "demo_cpu = \<lparr>env_psw = reset_psw, env_regs = (\<lambda>_ _. 0), env_sp = 0xFE00, env_pc = 0x100, env_pmc = 0,
     env_mem = 0, env_es = 0x0F, env_cs = 0, env_macr = 0, env_skip_en = 0, env_skip_req = 0,
     env_irq_index = - 1, env_irq_priority = 0, env_exception_index = - 1, env_interrupt_request = 0,
     env_exit_request = 0, env_wfi = 0\<rparr>"

definition demo_machine :: machine where
  "demo_machine = \<lparr>cpu = demo_cpu, ram = (\<lambda>_. 0), irq_acks = []\<rparr>"

lemma demo_cpu_ok: "cpu_ok (cpu demo_machine)"
  by (simp add: cpu_ok_def demo_machine_def demo_cpu_def psw_ok_def reset_psw_def)

definition demo_platform :: platform where
  "demo_platform = \<lparr>pl_host_ptr = (\<lambda>_. True), pl_env_base = 0x1000, pl_clobber32 = (\<lambda>_ _. 7), pl_clobber64 = (\<lambda>_ _. 7),
     pl_of32_hi = 0, pl_shift_junk = (\<lambda>_ _. 0)\<rparr>"

definition demo_host :: tcg_target where
  "demo_host = \<lparr>HAS_deposit_i32 = True, deposit_i32_valid = (\<lambda>ofs len. len = 8), HAS_extract_i32 = False,
     extract_i32_valid = (\<lambda>_ _. False), HAS_ext8u_i32 = True, HAS_ext16u_i32 = True, HAS_movcond_i32 = True,
     HAS_neg_i32 = True, HAS_not_i32 = True, HAS_andc_i32 = False, HAS_ext32s_i64 = True, helper_ptr = (\<lambda>_. 0)\<rparr>"

text \<open>A state of the execution loop at a machine, with nothing in the temporaries.\<close>

definition resting :: "machine \<Rightarrow> rt_state" where
  "resting m = \<lparr>mach = m, rtemps = (\<lambda>_. 0), ltemps = (\<lambda>_. 0), temps64 = (\<lambda>_. 0), rmode = Running\<rparr>"

lemma resting_simps [simp]: "mach (resting m) = m" "rmode (resting m) = Running"
  by (simp_all add: resting_def)

lemma at_rest_demo: "at_rest (resting demo_machine)"
  using demo_cpu_ok by (simp add: at_rest_def demo_machine_def demo_cpu_def)

lemma decode_nop: "decode_insn (\<lambda>_. 0) 0x100 False = (Some (ENTRY INSN_NOP OP_NONE OP_NONE), 0x101, False)"
  by code_simp

lemma decode_same_bytes:
  assumes "decode_insn load pc es = (Some i, pc + of_nat n, es')" "n \<le> 5" "\<And>j. j < n \<Longrightarrow> load' (pc + of_nat j) = load (pc + of_nat j)"
  shows "decode_insn load' pc es = (Some i, pc + of_nat n, es')"
proof -
  obtain k where k: "k \<le> 5" "pc + of_nat n = pc + of_nat k"
    "(\<forall>j<k. load' (pc + of_nat j) = load (pc + of_nat j)) \<longrightarrow> decode_insn load' pc es = (Some i, pc + of_nat n, es')"
    using decode_insn_extent[OF assms(1)] by auto
  have "unat (of_nat n :: u32) = unat (of_nat k :: u32)" using k(2) by simp
  then have "n = k" using k(1) assms(2) by (simp add: unat_of_nat)
  then show ?thesis using k(3) assms(3) by blast
qed

definition demo_tbs :: tb_state where
  "demo_tbs = \<lparr>tbs = (\<lambda>_. zero_tb), nb_tbs = 0, code_gen_ptr = 0x10000, tb_phys_hash = (\<lambda>_. None), tb_jmp_cache = (\<lambda>_. None),
     l1_map = (\<lambda>_. None), tb_invalidated_flag = False, tb_phys_invalidate_count = 0, tb_flush_count = 0,
     code_buf = \<lparr>tcg_rw_buffer = 0x10000, tcg_rx_buffer = 0x20000, tcg_wx_diff = 0x10000 - 0x20000, code_gen_buffer_size = 0x1000\<rparr>,
     code_gen_buffer_max_size = 0x800, code_gen_max_blocks = 32\<rparr>"

definition demo_memory :: host_memory where
  "demo_memory = \<lparr>alloc_code_gen_buf = (\<lambda>_. None), translation_cache_size_min = 0x1000, translation_cache_size_max = 0x10000,
     MAX_CODE_GEN_BUFFER_SIZE = 0x100000, TCG_MAX_CODE_SIZE = 0x100, TCG_MAX_SEARCH_SIZE = 0x100\<rparr>"

lemma demo_tbs_inv: "cache_inv demo_tbs {}"
  unfolding cache_inv_def tb_inv_def
  by (intro exI[of _ "\<lambda>_. []"] conjI)
    (simp_all add: live_def link_inv_empty cache_wf_def hash_wf_def bucket_def demo_tbs_def pfirst_def pbits_def page_desc_def)

lemma demo_find: "\<exists>t. tb_find_fast hm pg tr False mx pc cs_base flags demo_tbs = Some (0, t) \<and> nb_tbs t = 1"
proof -
  obtain s1 where g: "tb_gen_code hm pg tr pc cs_base flags 0 demo_tbs = Some (0, s1)"
    by (simp add: tb_gen_code_def tb_alloc_def demo_tbs_def Let_def)
  then have n: "nb_tbs s1 = 1" by (rule tb_gen_code_new) (simp_all add: demo_tbs_def)
  have d: "demo_tbs\<lparr>tb_invalidated_flag := False\<rparr> = demo_tbs" by (simp add: demo_tbs_def)
  have "find_slow_loop pg pc cs_base flags mx (Slot_hash h) None demo_tbs = Some (Slot_hash h, None, None)" for h
    by (subst find_slow_loop.simps) (simp add: demo_tbs_def)
  then show ?thesis using n by (simp add: tb_find_fast_def demo_tbs_def[THEN arg_cong[where f = tb_jmp_cache]] tb_find_slow_def d g relink_state Let_def)
qed

definition demo_back :: "rl78_code \<Rightarrow> translated" where
  "demo_back c = \<lparr>tr_icount = of_nat (fst c), tr_size = (if unat (tb_size (dc (snd c))) \<le> 256 then ucast (tb_size (dc (snd c))) else 0),
     tr_was_cut = False, tr_code_size = 64, tr_insn_data = (\<lambda>_. base_pc (dc (snd c))), tr_insn_end_off = (\<lambda>_. 64)\<rparr>"

lemma demo_back_size: "records_size demo_back"
proof -
  have "unat (ucast x :: u16) \<le> 256" if "unat x \<le> 256" for x :: u32
    using that by (simp add: unsigned_ucast_eq take_bit_nat_eq_self)
  then show ?thesis by (simp add: records_size_def demo_back_def)
qed

abbreviation demo_translator :: "rl78_code translator" where
  "demo_translator \<equiv> rl78_translator demo_host [] True 8 demo_back"

definition demo_tlb :: tlb_env where
  "demo_tlb = \<lparr>tlb_table = (\<lambda>_ _. s_cputlb_empty_entry), iotlb = (\<lambda>_ _. 0), tlb_flush_addr = 0, tlb_flush_mask = 0,
     tlb_jmp_cache = (\<lambda>_. None), tlb_current_tb = None, io_access_regions = []\<rparr>"

definition demo_cached :: cached where
  "demo_cached = \<lparr>ca_rt = resting demo_machine, ca_tb = demo_tbs, ca_code = (\<lambda>_. undefined), ca_buf = (Map.empty, tlb_flush False demo_tlb)\<rparr>"

definition demo_exec :: exec_state where
  "demo_exec = \<lparr>ex_mach = demo_machine, ex_tb = demo_tbs,
     ex_count = \<lparr>instructions_count_value = 0, instructions_count_total_value = 0, instructions_count_declaration = 0\<rparr>,
     instructions_count_limit = 8, tb_restart_request = False, mmu_fault = False, return_on_exception = False,
     chaining_disabled = False, block_finished_hook_present = False, tb_cache_disabled = False, current_tb = None\<rparr>"

lemma demo_contiguous: "contiguous rl78_page 0x100" "contiguous rl78_page 0x1FF"
  by (simp_all add: contiguous_def rl78_page_def TARGET_PAGE_MASK32_def mask_eq_exp_minus_1)

text \<open>A new block passes its header.\<close>

lemma demo_enters:
  assumes "\<not> blk_dirty_flag (tbs t tb)"
  shows "\<exists>e e'. ex_mach e = demo_machine \<and> ex_tb e = t \<and> prepare_block_for_execution tb e = Some (0, e')"
proof -
  have n: "\<not> - 1 < (x :: u32)" for x by (simp add: not_less)
  show ?thesis
    by (rule exI[of _ "demo_exec\<lparr>ex_tb := t, instructions_count_limit := - 1\<rparr>"])
      (simp add: prepare_block_for_execution_def demo_exec_def demo_machine_def demo_cpu_def cpu_sync_instructions_count_def Let_def n assms)
qed

text \<open>Code without accesses to memory but the check for exceptions leaves cache and buffer alone.\<close>

definition quiet_op :: "tcg_op \<Rightarrow> bool" where
  "quiet_op op = (case op of Op_qemu_ld r a mo \<Rightarrow> False | Op_qemu_st v a mo \<Rightarrow> False
     | Op_call h r args \<Rightarrow> (case h of HELPER_try_exit_cpu_loop \<Rightarrow> True | _ \<Rightarrow> False) | _ \<Rightarrow> True)"

lemma quiet_ram: "ram (mach (call_helper P HELPER_try_exit_cpu_loop r args S)) = ram (mach S)"
  by (cases r; cases args) simp_all

lemma quiet_run:
  assumes "list_all quiet_op ops"
  shows "cached_ops P hp allowed tb ops S y = Some (exec_ops P ops S, y, True)"
  using assms
proof (induction ops arbitrary: S)
  case (Cons op ops)
  have q: "quiet_op op" "list_all quiet_op ops" using Cons.prems by simp_all
  have "mmu_op hp allowed tb op S y = Some y" using q(1) by (cases op) (simp_all add: mmu_op_def quiet_op_def)
  moreover have "ram (mach (exec_op P op S)) = ram (mach S)" if "is_call op"
    using q(1) that by (cases op; cases "rmode S") (auto simp: quiet_op_def is_call_def exec_op_def quiet_ram split: tcg_helper.splits)
  then have "is_call op \<longrightarrow> harmless hp allowed tb S (exec_op P op S) y" by (simp add: harmless_def)
  ultimately show ?case using Cons.IH[OF q(2)] by simp
qed simp

lemma nop_quiet: "list_all quiet_op (code (snd (run_state (cpu_gen_code_inner (\<lambda>_. 0) [] True 8) (block_start demo_host demo_machine))))"
  by code_simp

text \<open>A first turn on the empty cache.\<close>

lemma demo_turn: "\<exists>d. cached_turn demo_platform id (\<lambda>_. True) demo_memory demo_translator 1 True demo_cached d \<and> mach (ca_rt d) = set_pc 0x101 demo_machine"
proof -
  let ?gen = "run_state (cpu_gen_code_inner (\<lambda>_. 0) [] True 8) (block_start demo_host demo_machine)"
  have m: "ram demo_machine = (\<lambda>_. 0)" "env_pc (cpu demo_machine) = 0x100" by (simp_all add: demo_machine_def demo_cpu_def)
  have pm: "phys_mem (\<lambda>_. 0) = (\<lambda>_. 0)" by (simp add: fun_eq_iff phys_mem_def)
  have "isa_step (pl_host_ptr demo_platform) (ram demo_machine) demo_machine = Some (set_pc 0x101 demo_machine)"
    "refuses (ram demo_machine) (env_pc (cpu demo_machine)) = None"
    using decode_nop by (simp_all add: m isa_step_def isa_insn_def isa_data_def refuses_def) (simp add: demo_machine_def demo_cpu_def)
  then obtain S' where S': "exec_block demo_platform demo_host [] True 8 (resting demo_machine) = Some S'" "mach S' = set_pc 0x101 demo_machine"
    using exec_block_runs[OF at_rest_demo, of "[]" demo_platform "set_pc 0x101 demo_machine" demo_host True 8] by auto
  then have r: "run_code demo_platform ?gen (resting demo_machine) = Some S'" by (simp add: exec_block_run_code m)
  then have a: "gen_abort (snd ?gen) = None" by (auto simp: run_code_def split: prod.splits if_splits)
  have rc: "run_cached demo_platform id (\<lambda>_. True) 0 ?gen (resting demo_machine) y = Some (S', y, True)" for y
  proof -
    obtain n s where g: "?gen = (n, s)" by fastforce
    have "list_all quiet_op (code s)" using nop_quiet g by simp
    from quiet_run[OF this] show ?thesis using r unfolding g
      by (auto simp: run_code_def run_cached_def split: if_splits run_mode.splits)
  qed
  obtain pc cs_base flags where f: "cpu_get_tb_cpu_state (cpu demo_machine) = (pc, cs_base, flags)" by (metis prod_cases3)
  have pc: "pc = 0x100" using f m(2) by (simp add: cpu_get_tb_cpu_state_def)
  have c: "code_now demo_translator rl78_page (\<lambda>_. 0) pc (scast flags) = ?gen"
    using block_start_flags[OF f, of demo_host] by (simp add: code_now_def rl78_translator_def guest_load_def[abs_def])
  obtain t where t: "tb_find_fast demo_memory rl78_page (\<lambda>pc fl. tr_back demo_translator (code_now demo_translator rl78_page (\<lambda>_. 0) pc fl))
      False 1 pc cs_base (scast flags) demo_tbs = Some (0, t)" "nb_tbs t = 1" using demo_find by blast
  have pa: "page_aligned rl78_page" using rl78_page_map by (simp add: page_map_def)
  have "unat (tr_size (demo_back c)) \<le> 256" for c using demo_back_size unfolding records_size_def by blast
  then have sz: "unat (tr_size (tr_back demo_translator c)) \<le> 256" for c by (simp add: rl78_translator_def)
  have n: "new_block demo_tbs t" using t(2) by (simp add: new_block_def demo_tbs_def)
  have "tb_find_slow demo_memory rl78_page (\<lambda>pc fl. tr_back demo_translator (code_now demo_translator rl78_page (\<lambda>_. 0) pc fl))
      False 1 pc cs_base (scast flags) demo_tbs = Some (0, t)"
    using t(1) by (simp add: tb_find_fast_def demo_tbs_def[THEN arg_cong[where f = tb_jmp_cache]])
  from tb_find_slow_blocks[OF demo_tbs_inv pa sz this] n have "\<not> blk_dirty_flag (tbs t 0)" by simp
  from demo_enters[OF this] obtain e e' where e: "ex_mach e = demo_machine" "ex_tb e = t" "prepare_block_for_execution 0 e = Some (0, e')" by blast
  have acc: "tr_accepted demo_translator ?gen" using a by (simp add: rl78_translator_def)
  let ?s = "\<lparr>cc_mem = \<lambda>_. 0, cc_tb = demo_tbs, cc_code = ca_code demo_cached\<rparr>"
  let ?b = "protect_block id (tbs t 0) (ca_buf demo_cached)"
  have "cache_lookup demo_memory rl78_page demo_translator 1 pc cs_base (scast flags) ?s =
      Some (0, ?s\<lparr>cc_tb := t, cc_code := (ca_code demo_cached)(0 := ?gen)\<rparr>)"
    using t(1) c n acc by (simp add: cache_lookup_def)
  then have l: "cached_lookup id demo_memory demo_translator 1 demo_cached =
      Some (0, demo_cached\<lparr>ca_tb := t, ca_code := (ca_code demo_cached)(0 := ?gen), ca_buf := ?b\<rparr>)" (is "_ = Some (0, ?c1)")
    using f pc n by (simp add: cached_lookup_def demo_cached_def m pm)
  have x: "ex_mach e = mach (ca_rt demo_cached)" "ex_tb e = ca_tb ?c1" "ca_rt demo_cached = resting demo_machine" "ca_code ?c1 0 = ?gen"
    using e by (simp_all add: demo_cached_def)
  have "run_cached demo_platform id (\<lambda>_. True) 0 (ca_code ?c1 0) (ca_rt demo_cached) (ca_buf ?c1, ca_tb ?c1) = Some (S', (?b, t), True)"
    unfolding x(3,4) using rc by simp
  from cached_turn.run[OF l x(1,2) e(3) this] show ?thesis using S'(2) by (intro exI[of _ "?c1\<lparr>ca_rt := S', ca_buf := ?b, ca_tb := t\<rparr>"]) simp
qed

lemma demo_run: "\<exists>d. cached_run demo_platform id (\<lambda>_. True) demo_memory demo_translator 1 True demo_cached d \<and> mach (ca_rt d) = set_pc 0x101 demo_machine"
  using demo_turn cached_run.turn[OF _ cached_run.stop] by fastforce

lemma demo_start: "at_rest (ca_rt demo_cached)" "cache_inv (ca_tb demo_cached) {}" "identity_map (fst (ca_buf demo_cached))"
    "snd (ca_buf demo_cached) = tlb_flush False demo_tlb" "mach (ca_rt demo_cached) = demo_machine" "pl_host_ptr demo_platform = (\<lambda>_. True)"
  using at_rest_demo demo_tbs_inv by (simp_all add: demo_cached_def identity_map_def phys_page_find_def demo_platform_def)

section \<open>Translated code implements the instruction set\<close>

text \<open>C1. Translating and running block after block, for any number of blocks, does to the guest
  machine what the instruction set does, instruction by instruction, and stops exactly where it
  stops (at a breakpoint, or at an instruction the translator refuses). It holds whatever the host
  supports, whatever the unspecified results of the host operations are, with and without the
  synchronisation of the program counter, and for every limit of the block length.\<close>

theorem block_run_refines:
  assumes "at_rest S"
  shows "map_option mach (steps (exec_block P h bps sync mx) n S) = steps (isa_next (pl_host_ptr P) bps) n (mach S)"
  using assms by (rule blocks.run_refines)

theorem block_run_refines_witness:
  "map_option mach (steps (exec_block demo_platform demo_host [0x101] True 8) 1 (resting demo_machine)) =
     Some (set_pc 0x101 demo_machine)"
proof -
  have d: "decode_insn (ram demo_machine) (env_pc (cpu demo_machine)) False = (Some (ENTRY INSN_NOP OP_NONE OP_NONE), 0x101, False)"
    using decode_nop by (simp add: demo_machine_def demo_cpu_def)
  then have "isa_next hp [0x101] demo_machine = Some (set_pc 0x101 demo_machine)" for hp
    by (simp add: isa_next_def refuses_def isa_step_def isa_insn_def isa_data_def  demo_machine_def demo_cpu_def)
  then show ?thesis using block_run_refines[OF at_rest_demo, of demo_platform demo_host "[0x101]" True 8 1] by simp
qed

text \<open>C2. Running from the cache of translation blocks is running the instruction set, for any number of blocks, from an
  empty cache over a flushed lookaside buffer. Each turn looks its block up, translating it only when the cache has
  none and then protecting its pages, and enters its header, which leaves a block that is marked, after dropping it,
  or that some request or limit forbids to run. Otherwise the host code kept for the block runs operation by operation. A store
  that misses the buffer fills it and marks the blocks with the bytes it writes; one that hits marks nothing. Between
  turns the buffer may be filled, and blocks be dropped, chained or flushed. The flag \<^verbatim>\<open>True\<close> of the run is its only condition: no helper
  wrote a byte of an unmarked block, since those writes mark nothing. Runs cover accesses of one or two bytes on one page
  of RAM and code below the last page.\<close>

theorem cached_run_refines:
  assumes "cached_run P hp allowed hm (rl78_translator h bps sync mx back) n True c d" "at_rest (ca_rt c)"
    "cache_inv (ca_tb c) {}" "identity_map (fst (ca_buf c))" "snd (ca_buf c) = tlb_flush g t0" "records_size back"
  shows "steps (isa_next (pl_host_ptr P) bps) n (mach (ca_rt c)) = Some (mach (ca_rt d)) \<and> at_rest (ca_rt d)"
proof -
  note r = cached_run_fresh[OF assms(1) TrueI cached_start[OF assms(2-5)] assms(6) refl]
  then show ?thesis using blocks.run_refines[OF assms(2), of P h bps sync mx n] by (simp add: cached_ok_def)
qed

theorem cached_run_refines_witness:
  "\<exists>d. cached_run demo_platform id (\<lambda>_. True) demo_memory demo_translator 1 True demo_cached d \<and>
     steps (isa_next (\<lambda>_. True) []) 1 demo_machine = Some (mach (ca_rt d))"
proof -
  obtain d where d: "cached_run demo_platform id (\<lambda>_. True) demo_memory demo_translator 1 True demo_cached d" using demo_run by blast
  from cached_run_refines[OF d demo_start(1-4) demo_back_size] d show ?thesis by (auto simp: demo_start(5,6))
qed

text \<open>C3. A breakpoint set while running from the cache takes effect at once: the insertion succeeds and leaves no block in
  use that starts at its address, and whatever runs from then on, under the condition of C2, does what the
  instruction set does with the new breakpoint, which no block passes any more.\<close>

theorem breakpoint_takes_effect:
  assumes "cached_run P hp allowed hm (rl78_translator h (map bp_pc q) sync mx back) n True c d" "at_rest (ca_rt c)"
    "cache_inv (ca_tb c) {}" "identity_map (fst (ca_buf c))" "snd (ca_buf c) = tlb_flush g t0" "records_size back" "unat pc + 256 < 2 ^ 32"
  shows "\<exists>q' t. cpu_breakpoint_insert pc flags q (ca_tb d) = Some (q', t) \<and> set (map bp_pc q') = insert pc (set (map bp_pc q)) \<and>
    (\<exists>A. cache_inv t A \<and> (\<forall>i\<in>A. blk_pc (tbs t i) \<noteq> pc)) \<and>
    (\<forall>k e. cached_run P hp allowed hm (rl78_translator h (map bp_pc q') sync mx back) k True (d\<lparr>ca_tb := t\<rparr>) e \<longrightarrow>
      steps (isa_next (pl_host_ptr P) (map bp_pc q')) k (mach (ca_rt d)) = Some (mach (ca_rt e)))"
proof -
  have "cached_ok hp (rl78_translator h (map bp_pc q) sync mx back) d"
    using cached_run_fresh[OF assms(1) TrueI cached_start[OF assms(2-5)] assms(6) refl] by blast
  from breakpoint_inserted[OF this assms(7), of flags] obtain q' t where i: "cpu_breakpoint_insert pc flags q (ca_tb d) = Some (q', t)"
    "set (map bp_pc q') = insert pc (set (map bp_pc q))" "\<exists>A. cache_inv t A \<and> (\<forall>i\<in>A. blk_pc (tbs t i) \<noteq> pc)"
    "cached_ok hp (rl78_translator h (map bp_pc q') sync mx back) (d\<lparr>ca_tb := t\<rparr>)" by blast
  have "steps (isa_next (pl_host_ptr P) (map bp_pc q')) k (mach (ca_rt d)) = Some (mach (ca_rt e))"
    if "cached_run P hp allowed hm (rl78_translator h (map bp_pc q') sync mx back) k True (d\<lparr>ca_tb := t\<rparr>) e" for k e
    using cached_run_fresh[OF that TrueI i(4) assms(6) refl] blocks.run_refines[of "ca_rt d" P h "map bp_pc q'" sync mx k] i(4)
    by (simp add: cached_ok_def)
  then show ?thesis using i(1-3) by blast
qed

theorem breakpoint_takes_effect_witness:
  "\<exists>d q' t. cached_run demo_platform id (\<lambda>_. True) demo_memory demo_translator 1 True demo_cached d \<and>
     cpu_breakpoint_insert 0x101 BP_GDB [] (ca_tb d) = Some (q', t) \<and>
     (\<forall>e. \<not> cached_run demo_platform id (\<lambda>_. True) demo_memory (rl78_translator demo_host (map bp_pc q') True 8 demo_back) 1 True (d\<lparr>ca_tb := t\<rparr>) e)"
proof -
  obtain d where "cached_run demo_platform id (\<lambda>_. True) demo_memory demo_translator 1 True demo_cached d"
    and pc: "mach (ca_rt d) = set_pc 0x101 demo_machine" using demo_run by blast
  then have d: "cached_run demo_platform id (\<lambda>_. True) demo_memory (rl78_translator demo_host (map bp_pc []) True 8 demo_back) 1 True demo_cached d" by simp
  have "unat (0x101 :: u32) + 256 < 2 ^ 32" by simp
  from breakpoint_takes_effect[OF d demo_start(1-4) demo_back_size this, of BP_GDB] obtain q' t where
    q: "cpu_breakpoint_insert 0x101 BP_GDB [] (ca_tb d) = Some (q', t)" "0x101 \<in> set (map bp_pc q')"
    "\<And>k e. cached_run demo_platform id (\<lambda>_. True) demo_memory (rl78_translator demo_host (map bp_pc q') True 8 demo_back) k True (d\<lparr>ca_tb := t\<rparr>) e \<Longrightarrow>
      steps (isa_next (pl_host_ptr demo_platform) (map bp_pc q')) k (mach (ca_rt d)) = Some (mach (ca_rt e))" by blast
  have "steps (isa_next (pl_host_ptr demo_platform) (map bp_pc q')) 1 (mach (ca_rt d)) = None"
    using q(2) by (simp add: pc isa_next_def set_pc_def)
  then have "\<not> cached_run demo_platform id (\<lambda>_. True) demo_memory (rl78_translator demo_host (map bp_pc q') True 8 demo_back) 1 True (d\<lparr>ca_tb := t\<rparr>) e" for e
    using q(3)[of 1 e] by auto
  then show ?thesis using d q(1) by auto
qed

text \<open>C4. The block translated for an instruction that is neither HALT nor STOP, run from the state
  it was translated for, leaves by a block exit, and the machine is then the one the instruction
  set gives: exactly one instruction was translated, nothing was aborted.\<close>

theorem block_implements_insn:
  assumes "at_rest S" "env_pc (cpu (mach S)) \<notin> set bps" "env_skip_en (cpu (mach S)) = 0"
    "decode_insn load (env_pc (cpu (mach S))) False = (Some i, npc, es)" "mnemonic i \<notin> {INSN_HALT, INSN_STOP}"
    "run_state (cpu_gen_code_inner load bps sync mx) (block_start h (mach S)) = (n, s)"
  shows "n = 1 \<and> gen_abort s = None \<and> (\<exists>v. rmode (exec_ops P (code s) S) = Exited v) \<and>
    isa_insn (pl_host_ptr P) es npc i (mach S) = Some (mach (exec_ops P (code s) S))"
proof -
  have "\<exists>m'. isa_insn (pl_host_ptr P) es npc i (mach S) = Some m'"
    using isa_insn_total decode_insn_wf[OF assms(4)] assms(5) by blast
  then obtain m' where m': "isa_insn (pl_host_ptr P) es npc i (mach S) = Some m'" ..
  then have "isa_step (pl_host_ptr P) load (mach S) = Some m'" using assms(3,4) by (simp add: isa_step_def)
  then show ?thesis using wp_block[of S "mach S" bps load i npc es P m' sync mx h] assms m'
    by (auto simp: wp_def at_rest_def Left_def rt_after_def)
qed

theorem block_implements_insn_witness:
  "case run_state (cpu_gen_code_inner (\<lambda>_. 0) [] True 8) (block_start demo_host demo_machine) of (n, s) \<Rightarrow>
     n = 1 \<and> mach (exec_ops demo_platform (code s) (resting demo_machine)) = set_pc 0x101 demo_machine"
proof (cases "run_state (cpu_gen_code_inner (\<lambda>_. 0) [] True 8) (block_start demo_host demo_machine)")
  case r: (Pair n s)
  have "isa_insn hp False 0x101 (ENTRY INSN_NOP OP_NONE OP_NONE) demo_machine = Some (set_pc 0x101 demo_machine)" for hp
    by (simp add: isa_insn_def isa_data_def)
  moreover have p: "env_skip_en (cpu demo_machine) = 0" "env_pc (cpu demo_machine) = 0x100"
    by (simp_all add: demo_machine_def demo_cpu_def)
  ultimately show ?thesis
    using block_implements_insn[of "resting demo_machine" "[]" "\<lambda>_. 0" "ENTRY INSN_NOP OP_NONE OP_NONE" "0x101" False
        True 8 demo_host n s demo_platform] at_rest_demo r decode_nop by simp
qed

text \<open>C5. When a skip was requested, the block consumes the next instruction without executing it:
  it clears the request and sets the program counter behind the instruction, and changes nothing
  else.\<close>

theorem block_skips_insn:
  assumes "at_rest S" "env_pc (cpu (mach S)) \<notin> set bps" "env_skip_en (cpu (mach S)) \<noteq> 0" "env_skip_req (cpu (mach S)) \<noteq> 0"
    "decode_insn load (env_pc (cpu (mach S))) False = (Some i, npc, es)" "mnemonic i \<notin> {INSN_HALT, INSN_STOP}"
    "run_state (cpu_gen_code_inner load bps sync mx) (block_start h (mach S)) = (n, s)"
  shows "(\<exists>v. rmode (exec_ops P (code s) S) = Exited v) \<and>
    mach (exec_ops P (code s) S) = (mach S)\<lparr>cpu := (cpu (mach S))\<lparr>env_pc := npc, env_skip_en := 0, env_skip_req := 0\<rparr>\<rparr>"
proof -
  have "isa_step (pl_host_ptr P) load (mach S) =
      Some ((mach S)\<lparr>cpu := (cpu (mach S))\<lparr>env_pc := npc, env_skip_en := 0, env_skip_req := 0\<rparr>\<rparr>)"
    using assms(3,4,5) by (simp add: isa_step_def set_pc_def)
  then show ?thesis using wp_block[of S "mach S" bps load i npc es P _ sync mx h] assms
    by (auto simp: wp_def at_rest_def Left_def rt_after_def)
qed

theorem block_skips_insn_witness:
  "case run_state (cpu_gen_code_inner (\<lambda>_. 0) [] True 8) (block_start demo_host (isa_skip True demo_machine)) of (n, s) \<Rightarrow>
     mach (exec_ops demo_platform (code s) (resting (isa_skip True demo_machine))) = set_pc 0x101 demo_machine"
proof (cases "run_state (cpu_gen_code_inner (\<lambda>_. 0) [] True 8) (block_start demo_host (isa_skip True demo_machine))")
  case r: (Pair n s)
  let ?S = "resting (isa_skip True demo_machine)"
  have "at_rest ?S" using at_rest_demo by (simp add: at_rest_def isa_skip_def cpu_ok_def)
  moreover have "env_pc (cpu (mach ?S)) = 0x100" "env_skip_en (cpu (mach ?S)) \<noteq> 0" "env_skip_req (cpu (mach ?S)) \<noteq> 0"
    by (simp_all add: isa_skip_def demo_machine_def demo_cpu_def flag_def)
  ultimately have "mach (exec_ops demo_platform (code s) ?S) = set_pc 0x101 demo_machine"
    using block_skips_insn[of ?S "[]" "\<lambda>_. 0" "ENTRY INSN_NOP OP_NONE OP_NONE" "0x101" False True 8 demo_host n s demo_platform]
      r decode_nop by (simp add: set_pc_def isa_skip_def demo_machine_def demo_cpu_def)
  then show ?thesis using r by simp
qed

text \<open>C6. The machine after a run does not depend on the host the code is generated for (which
  operations it has, which deposits and extracts are valid), on the unspecified results of host
  operations, on what the temporaries held, on program counter synchronisation or on the limit of
  the block length.\<close>

theorem block_run_host_independent:
  assumes "at_rest S" "at_rest S'" "mach S = mach S'" "pl_host_ptr P = pl_host_ptr P'"
  shows "map_option mach (steps (exec_block P h bps sync mx) n S) = map_option mach (steps (exec_block P' h' bps sync' mx') n S')"
  using blocks.run_refines[OF assms(1), of P h bps sync mx n] blocks.run_refines[OF assms(2), of P' h' bps sync' mx' n] assms(3,4)
  by simp

theorem block_run_host_independent_witness:
  "map_option mach (steps (exec_block demo_platform demo_host [] True 8) 3 (resting demo_machine)) =
   map_option mach (steps (exec_block (demo_platform\<lparr>pl_of32_hi := 9\<rparr>) (demo_host\<lparr>HAS_movcond_i32 := False\<rparr>) [] False 1) 3
     ((resting demo_machine)\<lparr>rtemps := (\<lambda>_. 5)\<rparr>))"
proof (rule block_run_host_independent)
  show "at_rest (resting demo_machine)" by (rule at_rest_demo)
  then show "at_rest ((resting demo_machine)\<lparr>rtemps := (\<lambda>_. 5)\<rparr>)" by (simp add: at_rest_def)
qed simp_all

text \<open>C7. The well-formedness of the processor (flags and registers inside their widths, no pending
  exception, the loop running) holds after any number of blocks.\<close>

theorem block_run_invariant:
  assumes "at_rest S" "steps (exec_block P h bps sync mx) n S = Some S'"
  shows "at_rest S'"
  using assms by (rule blocks.run_inv)

theorem block_run_invariant_witness:
  "\<exists>S'. steps (exec_block demo_platform demo_host [] True 8) 1 (resting demo_machine) = Some S' \<and> at_rest S'"
proof -
  have "refuses (ram demo_machine) (env_pc (cpu demo_machine)) = None"
    using decode_nop by (simp add: demo_machine_def demo_cpu_def refuses_def)
  then obtain S' where S': "steps (exec_block demo_platform demo_host [] True 8) 1 (resting demo_machine) = Some S'"
    using exec_block_progress[OF at_rest_demo, of "[]" demo_platform demo_host True 8] by auto
  then show ?thesis using block_run_invariant[OF at_rest_demo S'] by blast
qed

text \<open>C8. A block always gets on: unless the program counter is at a breakpoint or the translator
  refuses the instruction, the generated code leaves by a block exit, whatever the instruction.\<close>

theorem block_progress:
  assumes "at_rest S" "env_pc (cpu (mach S)) \<notin> set bps" "refuses (ram (mach S)) (env_pc (cpu (mach S))) = None"
  shows "\<exists>S'. exec_block P h bps sync mx S = Some S'"
  using assms by (rule exec_block_progress)

theorem block_progress_witness: "\<exists>S'. exec_block demo_platform demo_host [0] False 1 (resting demo_machine) = Some S'"
  by (rule block_progress[OF at_rest_demo])
    (use decode_nop in \<open>simp_all add: demo_machine_def demo_cpu_def refuses_def\<close>)

text \<open>C9. A block generated at a breakpoint holds no instruction, and running it leaves the machine
  as it was.\<close>

theorem breakpoint_stops:
  assumes "rmode S = Running" "env_pc (cpu (mach S)) \<in> set bps"
    "run_state (cpu_gen_code_inner load bps sync mx) (block_start h (mach S)) = (n, s)"
  shows "n = 0 \<and> gen_abort s = None \<and> (\<exists>v. rmode (exec_ops P (code s) S) = Exited v) \<and> mach (exec_ops P (code s) S) = mach S"
  using wp_breakpoint[OF assms(1) refl assms(2), of load sync mx P h] assms(3) by (auto simp: wp_def Left_def rt_after_def)

theorem breakpoint_stops_witness:
  "case run_state (cpu_gen_code_inner (\<lambda>_. 0) [0x100] True 8) (block_start demo_host demo_machine) of (n, s) \<Rightarrow>
     n = 0 \<and> mach (exec_ops demo_platform (code s) (resting demo_machine)) = demo_machine"
  using breakpoint_stops[of "resting demo_machine" "[0x100]" "\<lambda>_. 0" True 8 demo_host _ _ demo_platform]
  by (auto simp: demo_machine_def demo_cpu_def split: prod.splits)

text \<open>C10. Bytes that are no instruction abort the translation with their address, HALT and STOP
  abort it as unimplemented, and nothing else does: the reason recorded for a block is exactly
  the one the decoded bytes give.\<close>

theorem block_errors:
  assumes "env_pc (cpu m) \<notin> set bps" "cpu_ok (cpu m)" "sint (env_exception_index (cpu m)) < 0"
    "run_state (cpu_gen_code_inner load bps sync mx) (block_start h m) = (n, s)"
  shows "gen_abort s = (case decode_insn load (env_pc (cpu m)) False of
       (None, _, _) \<Rightarrow> Some (Abort_decode (env_pc (cpu m)))
     | (Some i, _, _) \<Rightarrow> if mnemonic i \<in> {INSN_HALT, INSN_STOP} then Some (Abort_unimplemented (mnemonic i)) else None)"
proof -
  have "gen_abort s = refuses load (env_pc (cpu m))"
  proof (cases "refuses load (env_pc (cpu m))")
    case (Some e)
    then show ?thesis using wp_block_refuses[OF Some assms(1), of sync mx h] assms(4) by (simp add: wp_def)
  next
    case None
    then obtain i npc es m' where "decode_insn load (env_pc (cpu m)) False = (Some i, npc, es)"
      "mnemonic i \<noteq> INSN_HALT" "mnemonic i \<noteq> INSN_STOP" "isa_step (pl_host_ptr demo_platform) load m = Some m'"
      by (rule isa_step_total)
    then show ?thesis using wp_block[of "resting m" m bps load i npc es demo_platform m' sync mx h] assms None
      by (auto simp: wp_def Left_def)
  qed
  then show ?thesis by (auto simp: refuses_def split: prod.split option.split)
qed

lemma decode_halt: "decode_insn (\<lambda>a. if a = 0x100 then 0x61 else 0xED) 0x100 False = (Some (ENTRY INSN_HALT OP_NONE OP_NONE), 0x102, False)"
  by code_simp

theorem block_errors_witness:
  "case run_state (cpu_gen_code_inner (\<lambda>a. if a = 0x100 then 0x61 else 0xED) [] True 8) (block_start demo_host demo_machine) of
     (n, s) \<Rightarrow> gen_abort s = Some (Abort_unimplemented INSN_HALT)"
  using block_errors[of demo_machine "[]" "\<lambda>a. if a = 0x100 then 0x61 else 0xED" True 8 demo_host] demo_cpu_ok decode_halt
  by (auto simp: demo_machine_def demo_cpu_def split: prod.splits)

text \<open>C11. Whatever the code, the breakpoints and the machine, one block never overruns the tables of
  the code generator: at most 256 of the 512 temporaries and 211 of the 512 labels are used.\<close>

theorem block_tables:
  assumes "run_state (cpu_gen_code_inner load bps sync mx) (block_start h m) = (n, s)"
  shows "\<not> tcg_overrun s \<and> nb_temps s \<le> TCG_MAX_TEMPS div 2 \<and> nb_labels s \<le> 211 \<and> 211 < TCG_MAX_LABELS"
  using inner_tables[OF assms] by (simp add: TCG_MAX_TEMPS_def TCG_MAX_LABELS_def)

theorem block_tables_witness:
  "case run_state (cpu_gen_code_inner (\<lambda>_. 0xFF) [7] True 8) (block_start demo_host demo_machine) of (n, s) \<Rightarrow> \<not> tcg_overrun s"
  using block_tables[of "\<lambda>_. 0xFF" "[7]" True 8 demo_host demo_machine] by (auto split: prod.splits)

text \<open>C12. The block loop ends after one turn for every code and every limit: it counts one
  instruction, or none at a breakpoint.\<close>

theorem gen_code_loop_ends:
  "fst (run_state (gen_code_loop load bps sync mx k) s) = (if base_pc (dc s) \<in> set bps then k else k + 1)"
  by (rule gen_code_loop_count)

section \<open>The cache of translation blocks\<close>

text \<open>C13. A lookup gives a block in use whose program counter, code segment base and flags are those asked
  for and which runs no more instructions than are left of the limit, and leaves every list of the
  cache consistent; when a block that fits is in use already, nothing is translated.\<close>

theorem lookup_returns_matching_block:
  assumes "cache_inv s A" "page_map pg" "unat (tr_size (translate pc flags)) \<le> 256" "tr_icount (translate pc flags) \<le> mx"
    "tb_find_fast hm pg translate False mx pc cs_base flags s = Some (tb, s')"
  shows "(\<exists>A'. cache_inv s' A' \<and> tb \<in> A') \<and> blk_pc (tbs s' tb) = pc \<and> blk_cs_base (tbs s' tb) = cs_base \<and> blk_flags (tbs s' tb) = flags \<and>
    blk_icount (tbs s' tb) \<le> mx \<and>
    ((\<exists>i\<in>A. tb_fits pg pc cs_base flags mx (tbs s i)) \<longrightarrow> nb_tbs s' = nb_tbs s \<and> tb \<in> A)"
proof -
  have pg: "page_aligned pg" "pages_apart pg" using assms(2) by (simp_all add: page_map_def)
  obtain C J P where C: "cache_wf s C" using assms(1) unfolding cache_inv_def tb_inv_def by blast
  have "blk_icount (tbs s' tb) \<le> mx" using tb_find_fast_wf[OF C pg(1) assms(5,4)] by blast
  then show ?thesis
    using cache_inv_find_fast[OF assms(1) pg assms(3,5)] lookup_reuses[OF assms(1) pg(1) _ _ assms(5)] by blast
qed

definition demo_translate :: "u32 \<Rightarrow> u64 \<Rightarrow> translated" where
  "demo_translate pc flags = \<lparr>tr_icount = 1, tr_size = 2, tr_was_cut = False, tr_code_size = 64,
     tr_insn_data = (\<lambda>_. pc), tr_insn_end_off = (\<lambda>_. 64)\<rparr>"

theorem lookup_returns_matching_block_witness:
  "case tb_find_fast demo_memory rl78_page demo_translate False 8 0x1FF 0 0 demo_tbs of
     Some (tb, s) \<Rightarrow> blk_pc (tbs s tb) = 0x1FF \<and> blk_icount (tbs s tb) \<le> 8 | None \<Rightarrow> False"
proof -
  obtain t where t: "tb_find_fast demo_memory rl78_page demo_translate False 8 0x1FF 0 0 demo_tbs = Some (0, t)" using demo_find by blast
  from lookup_returns_matching_block[OF demo_tbs_inv rl78_page_map _ _ t] show ?thesis by (simp add: t demo_translate_def)
qed

text \<open>C14. Invalidating a block always succeeds and leaves it unreachable: it is in no bucket of the hash
  table and not in the cache of virtual addresses, no branch of another block in use jumps to it, and all
  other blocks stay in use.\<close>

theorem invalidated_block_unreachable:
  assumes "cache_inv s A"
  shows "\<exists>s'. tb_phys_invalidate tb (- 1) s = Some s' \<and> cache_inv s' (A - {tb}) \<and>
    (\<forall>j. tb_jmp_cache s' j \<noteq> Some tb) \<and> (\<forall>h. tb_remove tb (Slot_hash h) s' = Some (False, s')) \<and>
    (\<forall>p\<in>A - {tb}. \<forall>n. blk_jmp_target (tbs s' p) n \<noteq> Some tb)"
proof -
  obtain C J P where inv: "tb_inv s C J P" "live C = A" using assms unfolding cache_inv_def by blast
  from tb_phys_invalidate_inv[OF inv(1), of tb] obtain s' C' J' P' where s': "tb_phys_invalidate tb (- 1) s = Some s'" "tb_inv s' C' J' P'"
    "live C' = A - {tb}" "same_bytes s s'" using inv(2) by blast
  have c: "cache_wf s' C'" and l: "link_inv s' (A - {tb}) J' P'" using s'(2,3) by (simp_all add: tb_inv_def)
  have tb: "tb \<notin> set (C' h)" for h using s'(3) by (auto simp: live_def)
  have "tb_jmp_cache s' j \<noteq> Some tb" for j using c tb by (auto simp: cache_wf_def)
  moreover have "tb_remove tb (Slot_hash h) s' = Some (False, s')" for h
    using tb_remove_walk[of s' h "[]" "C' h" tb] c tb by (simp add: cache_wf_def hash_wf_def)
  moreover have "blk_jmp_target (tbs s' p) n \<noteq> Some tb" if p: "p \<in> A - {tb}" for p n
  proof
    assume t: "blk_jmp_target (tbs s' p) n = Some tb"
    have w: "jmp_wf s' {..<nb_tbs s'} (A - {tb}) J'" and e: "\<And>u. u < nb_tbs s' \<Longrightarrow> u \<notin> A - {tb} \<Longrightarrow> J' u = []" using l by (simp_all add: link_inv_def)
    have "jtarget s' (p, n) = Some tb" using t by (simp add: jtarget_def)
    then have "tb < nb_tbs s' \<and> (p, n) \<in> set (J' tb)" using w p unfolding jmp_wf_def by (metis fst_conv lessThan_iff)
    then show False using e[of tb] by simp
  qed
  moreover have "cache_inv s' (A - {tb})" using s'(2,3) unfolding cache_inv_def by blast
  ultimately show ?thesis using s'(1) by blast
qed

theorem invalidated_block_unreachable_witness:
  "case tb_find_fast demo_memory rl78_page demo_translate False 8 0x1FF 0 0 demo_tbs of
     Some (tb, s) \<Rightarrow> (case tb_phys_invalidate tb (- 1) s of
         Some s' \<Rightarrow> tb_jmp_cache s' (tb_jmp_cache_hash_func 0x1FF) \<noteq> Some tb | None \<Rightarrow> False)
   | None \<Rightarrow> False"
proof -
  obtain t where t: "tb_find_fast demo_memory rl78_page demo_translate False 8 0x1FF 0 0 demo_tbs = Some (0, t)" using demo_find by blast
  have "page_aligned rl78_page" "pages_apart rl78_page" using rl78_page_map by (simp_all add: page_map_def)
  from cache_inv_find_fast[OF demo_tbs_inv this _ t] obtain A where "cache_inv t A" by (auto simp: demo_translate_def)
  from invalidated_block_unreachable[OF this, of 0] show ?thesis by (auto simp: t)
qed

text \<open>C15. Invalidating a range of physical memory (\<^verbatim>\<open>tb_invalidate_phys_page_range\<close>, which \<^verbatim>\<open>stb_phys\<close>
  and the writes of the host to memory call) always succeeds and leaves no block in use that has a byte of the range, on its
  first or on its second page, however many pages the range covers. The short cut through the bitmap of code bytes
  (\<^verbatim>\<open>tb_invalidate_phys_page_fast\<close>) does the same for a range inside an aligned group of 8 bytes. Stores of
  generated code call neither.\<close>

theorem code_write_invalidates:
  assumes "cache_inv s A" "0 < len" "start < start + of_nat len"
  shows "(\<exists>s' A'. tb_invalidate_phys_page_range start (start + of_nat len) is_write s = Some s' \<and> cache_inv s' A' \<and> A' \<subseteq> A \<and>
      (\<forall>i\<in>A'. block_addrs (tbs s i) \<inter> {start..<start + of_nat len} = {})) \<and>
    (unat start mod 8 + len \<le> 8 \<longrightarrow> (\<exists>s' A'. tb_invalidate_phys_page_fast start len s = Some s' \<and> cache_inv s' A' \<and> A' \<subseteq> A \<and>
      (\<forall>i\<in>A'. block_addrs (tbs s i) \<inter> {start..<start + of_nat len} = {})))"
proof -
  have gone: "\<exists>A'. cache_inv s' A' \<and> A' \<subseteq> A \<and> (\<forall>i\<in>A'. block_addrs (tbs s i) \<inter> R = {})" if "range_gone s A R s' B" for s' B R
    using that same_bytes_addrs[of s s'] unfolding range_gone_def by blast
  show ?thesis
    using invalidate_checked_gone[OF assms(1,3), of is_write] invalidate_fast_gone[OF assms(1) _ assms(2,3)] gone
    unfolding tb_invalidate_phys_page_range_def by meson
qed

text \<open>A block whose two bytes are on two pages.\<close>

lemma demo_code: "\<exists>t A. tb_find_fast demo_memory rl78_page demo_translate False 8 0x1FF 0 0 demo_tbs = Some (0, t) \<and> cache_inv t A \<and> 0 \<in> A \<and>
    blk_pc (tbs t 0) = 0x1FF \<and> blk_size (tbs t 0) = 2 \<and> straight (tbs t 0) \<and> 0x200 \<in> block_addrs (tbs t 0)"
proof -
  obtain t where t: "tb_find_fast demo_memory rl78_page demo_translate False 8 0x1FF 0 0 demo_tbs = Some (0, t)" using demo_find by blast
  have pg: "page_aligned rl78_page" "pages_apart rl78_page" using rl78_page_map by (simp_all add: page_map_def)
  have size: "unat (tr_size (demo_translate 0x1FF 0)) \<le> 256" "tr_size (demo_translate 0x1FF 0) = 2" by (simp_all add: demo_translate_def)
  from cache_inv_find_fast[OF demo_tbs_inv pg size(1) t] obtain A where A: "cache_inv t A" "0 \<in> A" by blast
  have "tb_find_slow demo_memory rl78_page demo_translate False 8 0x1FF 0 0 demo_tbs = Some (0, t)"
    using t by (simp add: tb_find_fast_def demo_tbs_def)
  from tb_find_slow_blocks[OF demo_tbs_inv pg(1) size(1) this]
  have b: "blk_size (tbs t 0) = 2" "blk_pc (tbs t 0) = 0x1FF" "placed rl78_page (tbs t 0)" unfolding size(2) by (auto split: if_splits)
  have pa: "blk_page_addr (tbs t 0) 0 = 0x100" "blk_page_addr (tbs t 0) 1 = 0x200"
    using b by (simp_all add: placed_def rl78_page_def TARGET_PAGE_MASK32_def mask_eq_exp_minus_1)
  moreover have "0 \<in> page_bytes (tbs t 0) 1" using b(1,2) by (simp add: page_bytes_def TARGET_PAGE_MASK32_def mask_eq_exp_minus_1)
  ultimately have "0x200 \<in> block_addrs (tbs t 0)" using block_addrsI(2)[of 0 "tbs t 0"] by simp
  moreover have "straight (tbs t 0)" using pa by (simp add: straight_def)
  ultimately show ?thesis using t A b by blast
qed

theorem code_write_invalidates_witness:
  "case tb_find_fast demo_memory rl78_page demo_translate False 8 0x1FF 0 0 demo_tbs of
     Some (tb, s) \<Rightarrow> (case tb_invalidate_phys_page_range 0x200 0x201 False s of
         Some s' \<Rightarrow> (\<exists>A. cache_inv s' A \<and> tb \<notin> A) | None \<Rightarrow> False)
   | None \<Rightarrow> False"
proof -
  obtain t A where t: "tb_find_fast demo_memory rl78_page demo_translate False 8 0x1FF 0 0 demo_tbs = Some (0, t)" "cache_inv t A"
    "0x200 \<in> block_addrs (tbs t 0)" using demo_code by blast
  moreover have "(0x200 :: u64) \<in> {0x200..<0x200 + of_nat 1}" by simp
  ultimately have n: "block_addrs (tbs t 0) \<inter> {0x200..<0x200 + of_nat 1} \<noteq> {}" by blast
  obtain s' A' where "tb_invalidate_phys_page_range 0x200 (0x200 + of_nat 1) False t = Some s'" "cache_inv s' A'"
    "\<forall>i\<in>A'. block_addrs (tbs t i) \<inter> {0x200..<0x200 + of_nat 1} = {}"
    using code_write_invalidates[OF t(2), of 1 "0x200" False] by auto
  then show ?thesis using n by (auto simp: t(1) intro!: exI[of _ A'])
qed

text \<open>C16. A store of the slow path of the soft MMU that stays on one page marks every block in use that has one of the
  bytes written and whose pages follow each other, wherever the page is looked up. The header of a marked block
  never lets it run: when no exception or exit request is pending and enough instructions are left it drops the block,
  otherwise the block stays in use and marked. (Stores that hit the lookaside buffer and byte stores of
  helpers mark nothing.)\<close>

theorem written_block_not_run:
  assumes "cache_inv s A" "page_map pg" "sees_page pg page_seen phys_debug pc" "unat pc mod 256 + unat w \<le> 256" "0 < w"
    "unat (blk_pc b) + unat (blk_size b) < 2 ^ 32" "a = pg pc + ucast (pc AND NOT TARGET_PAGE_MASK32)"
  shows "\<exists>t. helper_mark_tbs_as_dirty False (Some b) page_seen phys_debug pc w s = Some t \<and> cache_inv t A \<and>
    (\<forall>i\<in>A. straight (tbs s i) \<longrightarrow> block_addrs (tbs s i) \<inter> {a..<a + ucast w} \<noteq> {} \<longrightarrow> blk_dirty_flag (tbs t i) \<and>
      (\<forall>e. ex_tb e = t \<longrightarrow> (\<exists>r e'. prepare_block_for_execution i e = Some (r, e') \<and> r \<noteq> 0 \<and> ex_mach e' = ex_mach e \<and>
        (if may_start i e then cache_inv (ex_tb e') (A - {i}) else cache_inv (ex_tb e') A \<and> blk_dirty_flag (tbs (ex_tb e') i)))))"
proof -
  have pg: "page_aligned pg" "pages_apart pg" and cur: "case Some b of None \<Rightarrow> True | Some b \<Rightarrow> unat (blk_pc b) + unat (blk_size b) < 2 ^ 32"
    using assms(2,6) by (simp_all add: page_map_def)
  from mark_covers[OF assms(1) pg assms(3-5) cur] obtain M where
    M: "helper_mark_tbs_as_dirty False (Some b) page_seen phys_debug pc w s = Some (mark_dirty M s)" "cache_inv (mark_dirty M s) A"
      "\<forall>i\<in>A. straight (tbs s i) \<longrightarrow> block_addrs (tbs s i) \<inter> {a..<a + ucast w} \<noteq> {} \<longrightarrow> i \<in> M"
    unfolding assms(7) by blast
  have "\<exists>r e'. prepare_block_for_execution i e = Some (r, e') \<and> r \<noteq> 0 \<and> ex_mach e' = ex_mach e \<and>
      (if may_start i e then cache_inv (ex_tb e') (A - {i}) else cache_inv (ex_tb e') A \<and> blk_dirty_flag (tbs (ex_tb e') i))"
    if "i \<in> M" "ex_tb e = mark_dirty M s" for i e using prepare_dirty[of e A i] M(2) that by simp
  moreover have "blk_dirty_flag (tbs (mark_dirty M s) i)" if "i \<in> M" for i using that by simp
  ultimately show ?thesis using M by blast
qed

theorem written_block_not_run_witness:
  "case tb_find_fast demo_memory rl78_page demo_translate False 8 0x1FF 0 0 demo_tbs of
     Some (tb, s) \<Rightarrow> (case helper_mark_tbs_as_dirty False (Some (tbs s tb)) (\<lambda>_. - 1) ucast 0x200 1 s of
         Some t \<Rightarrow> may_start tb (demo_exec\<lparr>ex_tb := t, instructions_count_limit := - 1\<rparr>) \<and>
           (\<exists>r e' A. prepare_block_for_execution tb (demo_exec\<lparr>ex_tb := t, instructions_count_limit := - 1\<rparr>) = Some (r, e') \<and> r \<noteq> 0 \<and>
             cache_inv (ex_tb e') (A - {tb})) | None \<Rightarrow> False)
   | None \<Rightarrow> False"
proof -
  obtain t A where t: "tb_find_fast demo_memory rl78_page demo_translate False 8 0x1FF 0 0 demo_tbs = Some (0, t)" "cache_inv t A" "0 \<in> A"
    "blk_pc (tbs t 0) = 0x1FF" "blk_size (tbs t 0) = 2" "straight (tbs t 0)" "0x200 \<in> block_addrs (tbs t 0)" using demo_code by blast
  moreover have "(0x200 :: u64) \<in> {0x200..<0x200 + ucast (1 :: u32)}" by simp
  ultimately have n: "block_addrs (tbs t 0) \<inter> {0x200..<0x200 + ucast (1 :: u32)} \<noteq> {}" by blast
  have s: "sees_page rl78_page (\<lambda>_. - 1) ucast 0x200"
    by (simp add: sees_page_def rl78_page_def TARGET_PAGE_MASK32_def mask_eq_exp_minus_1)
  have a: "0x200 = rl78_page 0x200 + ucast ((0x200 :: u32) AND NOT TARGET_PAGE_MASK32)"
    by (simp add: rl78_page_def TARGET_PAGE_MASK32_def mask_eq_exp_minus_1)
  have "unat (0x200 :: u32) mod 256 + unat (1 :: u32) \<le> 256" "(0 :: u32) < 1" "unat (blk_pc (tbs t 0)) + unat (blk_size (tbs t 0)) < 2 ^ 32"
    by (simp_all add: t(4,5))
  from written_block_not_run[OF t(2) rl78_page_map s this a] obtain t' where
    t': "helper_mark_tbs_as_dirty False (Some (tbs t 0)) (\<lambda>_. - 1) ucast 0x200 1 t = Some t'"
      "\<forall>e. ex_tb e = t' \<longrightarrow> (\<exists>r e'. prepare_block_for_execution 0 e = Some (r, e') \<and> r \<noteq> 0 \<and> (may_start 0 e \<longrightarrow> cache_inv (ex_tb e') (A - {0})))"
    using n t(3,6) by (metis (no_types, lifting))
  let ?e = "demo_exec\<lparr>ex_tb := t', instructions_count_limit := - 1\<rparr>"
  have n: "(x :: u32) \<le> - 1" for x by (metis max_word_max)
  have m: "may_start 0 ?e"
    by (simp add: may_start_def demo_exec_def demo_machine_def demo_cpu_def cpu_sync_instructions_count_def Let_def n)
  have "ex_tb ?e = t'" by simp
  with t'(2) m obtain r e' where "prepare_block_for_execution 0 ?e = Some (r, e')" "r \<noteq> 0" "cache_inv (ex_tb e') (A - {0})" by blast
  then show ?thesis using t(1) t'(1) m by (simp del: fun_upd_apply) blast
qed

text \<open>C17. A store that hits the lookaside buffer, and so marks nothing, writes no byte of a block in use: whatever ran from
  an empty cache and a flushed buffer under the condition of C2, no entry that a store can hit is for a page with code in
  use. The pages of a block are protected when it is linked, and no fill and no flush of the buffer undoes that.\<close>

theorem hit_store_misses_code:
  assumes "cached_run P hp allowed hm (rl78_translator h bps sync mx back) n True c d" "at_rest (ca_rt c)"
    "cache_inv (ca_tb c) {}" "identity_map (fst (ca_buf c))" "snd (ca_buf c) = tlb_flush g t0" "records_size back"
    "unat a < 2 ^ 20" "inline_hit addr_write (mo_width mo) a (snd (ca_buf d))"
  shows "\<exists>A. cache_inv (ca_tb d) A \<and> (\<forall>i\<in>A. block_addrs (tbs (ca_tb d) i) \<inter> {ucast a..<ucast a + ucast (mo_width mo)} = {})"
proof -
  have "cached_ok hp (rl78_translator h bps sync mx back) d"
    using cached_run_fresh[OF assms(1) TrueI cached_start[OF assms(2-5)] assms(6) refl] by blast
  then obtain A where "cache_inv (ca_tb d) A" "guards (ca_tb d) A (ca_buf d)" "buffer_ok hp (ca_buf d)"
    by (auto simp: cached_ok_def cache_good_def)
  moreover have "mo_width mo = 1 \<or> mo_width mo = 2" by (cases mo) (simp_all add: mo_width_def)
  ultimately show ?thesis using hit_outside[OF _ _ _ assms(7) _ assms(8)] by blast
qed

lemma demo_map: "\<exists>m d. tlib_map_range 0x200 0x100 (Map.empty, tlb_flush False demo_tlb) = Some (m, tlb_flush False demo_tlb) \<and>
    phys_page_find 2 m = Some d \<and> phys_offset d = 0x200 \<and> pd_dirty d \<and> \<not> executable_io_mem d \<and> \<not> external_permissions d"
proof -
  have "\<exists>m d. register_loop 0x200 0x300 0x200 0 Map.empty = Some m \<and>
      phys_page_find 2 m = Some d \<and> phys_offset d = 0x200 \<and> pd_dirty d \<and> \<not> executable_io_mem d \<and> \<not> external_permissions d"
    by (subst register_loop.simps) (simp add: Let_def phys_page_find_def phys_page_alloc_def phys_page_upd_def phys_page_find_alloc_def)
  then show ?thesis
    by (auto simp: tlib_map_range_def cpu_register_physical_memory_log_def Let_def mask_eq_exp_minus_1
        IO_MEM_RAM_def IO_MEM_UNASSIGNED_def tlb_flush_def)
qed

text \<open>The entry for a page of RAM without code.\<close>

theorem hit_store_misses_code_witness:
  "\<exists>m t d. tlib_map_range 0x200 0x100 (Map.empty, tlb_flush False demo_tlb) = Some (m, t) \<and>
     cached_run demo_platform id (\<lambda>_. True) demo_memory demo_translator 0 True (demo_cached\<lparr>ca_buf := (m, t)\<rparr>) d \<and>
     inline_hit addr_write 2 0x234 (snd (ca_buf d)) \<and>
     (\<exists>A. cache_inv (ca_tb d) A \<and> (\<forall>i\<in>A. block_addrs (tbs (ca_tb d) i) \<inter> {0x234..<0x236} = {}))"
proof -
  let ?t = "tlb_flush False demo_tlb"
  obtain m e where m: "tlib_map_range 0x200 0x100 (Map.empty, ?t) = Some (m, ?t)" and e: "phys_page_find 2 m = Some e" "phys_offset e = 0x200"
    "pd_dirty e" "\<not> executable_io_mem e" "\<not> external_permissions e" using demo_map by blast
  let ?c = "demo_cached\<lparr>ca_buf := (m, ?t)\<rparr>" and ?u = "tlb_fill id (\<lambda>_. True) m 0x234 0 ?t"
  let ?d = "?c\<lparr>ca_buf := (m, ?u)\<rparr>"
  have "tlb_step id (\<lambda>_. True) (Map.empty, ?t) (m, ?t)"
    by (rule tlb_step.map_range[OF _ _ m]) (simp_all add: mask_eq_exp_minus_1)
  from tlb_step_inv[OF this flushed_inv] have id: "identity_map m" by (simp add: tlb_inv_def)
  have "cached_turn demo_platform id (\<lambda>_. True) demo_memory demo_translator 0 True ?c ?d"
    using cached_turn.fill[of "0x234" demo_platform id "\<lambda>_. True" demo_memory demo_translator ?c] by simp
  from cached_run.turn[OF this cached_run.stop]
  have run: "cached_run demo_platform id (\<lambda>_. True) demo_memory demo_translator 0 True ?c ?d" by simp
  have f: "?u = tlb_set_page id (\<lambda>_. True) m 0x200 0x200 7 0 256 ?t"
    by (simp add: tlb_fill_def arch_tlb_fill_def Let_def TARGET_PAGE_MASK_def PAGE_READ_def PAGE_WRITE_def PAGE_EXEC_def)
  have "\<not> is_io_accessed 0x200 ?t" by (simp add: is_io_accessed_def demo_tlb_def tlb_flush_def io_search.simps)
  then have "addr_write (tlb_table ?u 0 2) = 0x200"
    unfolding f tlb_set_page_def Let_def
    by (simp add: e set_entry_def tlb_index_def PAGE_WRITE_def IO_MEM_ROM_def IO_MEM_RAM_def IO_MEM_ROMD_def IO_MEM_EXECUTABLE_IO_def mask_eq_exp_minus_1)
  then have hit: "inline_hit addr_write (mo_width MO_16) 0x234 (snd (ca_buf ?d))"
    by (simp add: inline_hit_def tlb_index_def TARGET_PAGE_MASK32_def mo_width_def mask_eq_exp_minus_1)
  have st: "at_rest (ca_rt ?c)" "cache_inv (ca_tb ?c) {}" "identity_map (fst (ca_buf ?c))" "snd (ca_buf ?c) = tlb_flush False demo_tlb"
    using demo_start(1,2) id by simp_all
  have "unat (0x234 :: u32) < 2 ^ 20" by simp
  from hit_store_misses_code[OF run st demo_back_size this hit] obtain A where
    "cache_inv (ca_tb ?d) A" "\<forall>i\<in>A. block_addrs (tbs (ca_tb ?d) i) \<inter> {0x234..<0x236} = {}" by (auto simp: mo_width_def)
  then show ?thesis using m run hit by (intro exI[of _ m] exI[of _ ?t] exI[of _ ?d]) (auto simp: mo_width_def)
qed

text \<open>C18. Whatever the lookaside buffer and the map of physical pages have gone through since a flush, a lookup of code
  that returns gives the page of the address, and it returns for code in RAM; the marking of blocks by stores sees the
  page the translation saw.\<close>

theorem code_page_is_identity:
  assumes "(tlb_step hp allowed)\<^sup>*\<^sup>* (Map.empty, tlb_flush g t0) (m, t)" "unat pc < 2 ^ 20"
  shows "(case get_page_addr_code hp allowed m pc True t of None \<Rightarrow> \<not> ram_page m pc | Some (a, t') \<Rightarrow> a = rl78_page pc) \<and>
    sees_page rl78_page (\<lambda>v. case get_page_addr_code hp allowed m v False t of Some (a, t') \<Rightarrow> a | None \<Rightarrow> - 1)
      (\<lambda>v. ucast (cpu_get_phys_page_debug v)) pc"
proof
  note run = buffer.kept[OF assms(1) flushed_inv] buffer.later_page[OF assms(1) flushed_inv assms(2)]
    buffer.later_sees[where debug = "\<lambda>v. ucast (cpu_get_phys_page_debug v)", OF assms(1) flushed_inv assms(2) rl78_debug]
  show "case get_page_addr_code hp allowed m pc True t of None \<Rightarrow> \<not> ram_page m pc | Some (a, t') \<Rightarrow> a = rl78_page pc"
    using run(2) code_page_ram[OF run(1) assms(2), of hp allowed] by (auto simp: buffer_lookup_def split: option.splits)
  have "(case buffer_lookup hp allowed v False (m, t) of Some (a, z) \<Rightarrow> a | None \<Rightarrow> - 1) =
      (case get_page_addr_code hp allowed m v False t of Some (a, t') \<Rightarrow> a | None \<Rightarrow> - 1)" for v
    by (simp add: buffer_lookup_def split: option.splits)
  then show "sees_page rl78_page (\<lambda>v. case get_page_addr_code hp allowed m v False t of Some (a, t') \<Rightarrow> a | None \<Rightarrow> - 1)
      (\<lambda>v. ucast (cpu_get_phys_page_debug v)) pc" using run(3) by simp
qed

lemma demo_ram: "\<exists>m. tlib_map_range 0x200 0x100 (Map.empty, tlb_flush False demo_tlb) = Some (m, tlb_flush False demo_tlb) \<and> ram_page m 0x234"
  using demo_map by (auto simp: ram_page_def rl78_page_def TARGET_PAGE_MASK32_def mask_eq_exp_minus_1)

theorem code_page_is_identity_witness:
  "\<exists>m t t'. tlib_map_range 0x200 0x100 (Map.empty, tlb_flush False demo_tlb) = Some (m, t) \<and>
     get_page_addr_code id (\<lambda>_. True) m 0x234 True t = Some (0x200, t')"
proof -
  obtain m where m: "tlib_map_range 0x200 0x100 (Map.empty, tlb_flush False demo_tlb) = Some (m, tlb_flush False demo_tlb)" "ram_page m 0x234"
    using demo_ram by blast
  have "tlb_step id (\<lambda>_. True) (Map.empty, tlb_flush False demo_tlb) (m, tlb_flush False demo_tlb)"
    by (rule tlb_step.map_range[OF _ _ m(1)]) (simp_all add: mask_eq_exp_minus_1)
  then have s: "(tlb_step id (\<lambda>_. True))\<^sup>*\<^sup>* (Map.empty, tlb_flush False demo_tlb) (m, tlb_flush False demo_tlb)" by blast
  have "unat (0x234 :: u32) < 2 ^ 20" "rl78_page 0x234 = 0x200" by (simp_all add: rl78_page_def TARGET_PAGE_MASK32_def mask_eq_exp_minus_1)
  with code_page_is_identity[OF s this(1)] m show ?thesis by (auto split: option.splits)
qed

text \<open>C19. When the execution loop returns, however many blocks it looked up, chained and ran and however they
  ended, all lists of the cache are consistent. The generated code may write over code, its own included.\<close>

theorem cpu_exec_keeps_cache:
  assumes "cpu_exec E s = Some (Exec_return x s')" "code_ok E" "cache_inv (ex_tb s) A" "\<not> tb_cache_disabled s"
  shows "\<exists>A'. cache_inv (ex_tb s') A'"
  by (rule cpu_exec_inv[OF assms(1,2)]) (use assms(3,4) in \<open>auto simp: exec_inv_def\<close>)

definition demo_env :: exec_env where
  "demo_env = \<lparr>ee_host = demo_memory, ee_page = rl78_page, ee_translate = (\<lambda>_. demo_translate),
     ee_run = (\<lambda>tb s. Tb_longjmp (set_exception EXCP_INTERRUPT s))\<rparr>"

lemma demo_env_ok: "code_ok demo_env"
  using rl78_page_map by (simp add: code_ok_def demo_env_def demo_translate_def page_map_def)

lemma demo_cpu_exec: "\<exists>s'. cpu_exec demo_env demo_exec = Some (Exec_return EXCP_INTERRUPT s')"
proof -
  let ?s = "set_exception (- 1) demo_exec"
  have h: "cpu_has_work (ex_cpu demo_exec) = (True, ex_cpu demo_exec)" by (simp add: cpu_has_work_def demo_exec_def demo_machine_def demo_cpu_def)
  have "upd_cpu (\<lambda>_. ex_cpu demo_exec) demo_exec = demo_exec" by (simp add: upd_cpu_def)
  then have 1: "cpu_exec demo_env demo_exec = cpu_exec_loop demo_env None ?s" using h by (simp add: cpu_exec_def)
  have "enter_loop ?s = Inr ?s" by (simp add: enter_loop_def Let_def)
  then have 2: "cpu_exec_loop demo_env None ?s = cpu_exec_loop demo_env (Some None) ?s" by (subst cpu_exec_loop.simps) simp
  define q where "q = ?s\<lparr>ex_count := cpu_sync_instructions_count (ex_count ?s)\<rparr>"
  have r: "handle_requests None q = Step_next None q" "check_exit None q = Step_next None q"
    by (simp_all add: q_def handle_requests_def check_exit_def cpu_sync_instructions_count_def set_exception_def upd_cpu_def demo_exec_def demo_machine_def demo_cpu_def)
  have tb: "ex_tb q = demo_tbs" "\<not> tb_cache_disabled q" by (simp_all add: q_def demo_exec_def)
  obtain pc cs_base flags where f: "cpu_get_tb_cpu_state (ex_cpu q) = (pc, cs_base, flags)" by (metis prod_cases3)
  obtain t where t: "tb_find_fast (ee_host demo_env) (ee_page demo_env) (ee_translate demo_env (ex_mach q)) False
      (instructions_count_limit q - instructions_count_value (ex_count q)) pc cs_base (scast flags) demo_tbs = Some (0, t)"
    using demo_find by blast
  obtain s2 where s2: "find_and_chain demo_env None q = Some (0, None, s2)" "ex_mach s2 = ex_mach q"
    using t tb by (simp add: find_and_chain_def f Let_def)
  have "env_exit_request (ex_cpu s2) = 0" unfolding s2(2) by (simp add: q_def set_exception_def upd_cpu_def demo_exec_def demo_machine_def demo_cpu_def)
  then have "run_block demo_env 0 None s2 = Step_exit (set_exception EXCP_INTERRUPT (s2\<lparr>current_tb := Some 0\<rparr>))"
    by (simp add: run_block_def demo_env_def)
  then have "exec_iteration demo_env None ?s = Step_exit (set_exception EXCP_INTERRUPT (s2\<lparr>current_tb := Some 0\<rparr>))"
    unfolding exec_iteration_def q_def[symmetric] by (simp add: r bind_step_def s2(1))
  then have 3: "cpu_exec_loop demo_env (Some None) ?s = cpu_exec_loop demo_env None (set_exception EXCP_INTERRUPT (s2\<lparr>current_tb := Some 0\<rparr>))"
    by (subst cpu_exec_loop.simps) simp
  have "enter_loop (set_exception EXCP_INTERRUPT s) = Inl (Exec_return EXCP_INTERRUPT (set_exception EXCP_INTERRUPT s))" for s
    by (simp add: enter_loop_def EXCP_INTERRUPT_def)
  then have "cpu_exec_loop demo_env None (set_exception EXCP_INTERRUPT s) = Some (Exec_return EXCP_INTERRUPT (set_exception EXCP_INTERRUPT s))" for s
    by (subst cpu_exec_loop.simps) simp
  then show ?thesis unfolding 1 2 3 by blast
qed

theorem cpu_exec_keeps_cache_witness:
  "case cpu_exec demo_env demo_exec of Some (Exec_return x s') \<Rightarrow> \<exists>A. cache_inv (ex_tb s') A | _ \<Rightarrow> False"
proof -
  obtain s' where s': "cpu_exec demo_env demo_exec = Some (Exec_return EXCP_INTERRUPT s')" using demo_cpu_exec by blast
  have "cache_inv (ex_tb demo_exec) {}" "\<not> tb_cache_disabled demo_exec" using demo_tbs_inv by (simp_all add: demo_exec_def)
  from cpu_exec_keeps_cache[OF s' demo_env_ok this] show ?thesis by (simp add: s')
qed

text \<open>C20. With an exit requested, or the limit of instructions reached, the execution loop returns at once
  with EXCP_INTERRUPT: no block is looked up or run and memory, program counter and cache are as before. This is without a
  pending interrupt request, which is served first, a processor waiting for an interrupt, or a fault of the external memory
  management unit.\<close>

theorem exit_request_returns:
  assumes "env_interrupt_request (ex_cpu s) = 0" "env_wfi (ex_cpu s) = 0" "\<not> mmu_fault s"
    "env_exit_request (ex_cpu s) \<noteq> 0 \<or>
     instructions_count_value (ex_count s) + instructions_count_declaration (ex_count s) = instructions_count_limit s"
  shows "\<exists>s'. cpu_exec E s = Some (Exec_return EXCP_INTERRUPT s') \<and> ex_tb s' = ex_tb s \<and> env_pc (ex_cpu s') = env_pc (ex_cpu s) \<and>
    ram (ex_mach s') = ram (ex_mach s)"
  using assms by (rule exit_request_ends)

theorem exit_request_returns_witness:
  "\<exists>s'. cpu_exec demo_env (demo_exec\<lparr>instructions_count_limit := 0\<rparr>) = Some (Exec_return EXCP_INTERRUPT s') \<and> ex_tb s' = demo_tbs \<and>
     env_pc (ex_cpu s') = 0x100"
  using exit_request_returns[of "demo_exec\<lparr>instructions_count_limit := 0\<rparr>" demo_env]
  by (simp add: demo_exec_def demo_machine_def demo_cpu_def) blast

text \<open>C21. A fault in the host code of instruction i of a block restores the guest state of that
  instruction: the search table that was encoded when the block was translated gives back its address,
  and the counters count the instructions up to it.\<close>

theorem fault_restores_instruction:
  assumes "rw_ptr_to_rx b (blk_tc_ptr tb) = Some base" "blk_tc_search tb = encode_search (blk_pc tb) (unat (blk_icount tb)) D F @ rest"
    "base \<le> searched" "i < unat (blk_icount tb)" "searched < row_host base F i" "\<forall>l<i. row_host base F l \<le> searched"
  shows "cpu_restore_state_and_restore_instructions_count b env c tb searched True =
    Some (int i + 1, env\<lparr>env_pc := D i\<rparr>, c\<lparr>instructions_count_value := instructions_count_value c + of_nat (i + 1),
       instructions_count_total_value := instructions_count_total_value c + of_nat (i + 1), instructions_count_declaration := 0\<rparr>)"
  using restore_state_at[OF assms(1-5)] assms(6) by blast

definition demo_block :: TranslationBlock where
  "demo_block = zero_tb\<lparr>blk_pc := 0x100, blk_icount := 2, blk_tc_ptr := 0x10010,
     blk_tc_search := encode_search 0x100 2 (\<lambda>i. 0x100 + 3 * of_nat i) (\<lambda>i. 10 * of_nat i + 10)\<rparr>"

theorem fault_restores_instruction_witness:
  "case cpu_restore_state_and_restore_instructions_count (code_buf demo_tbs) demo_cpu
       \<lparr>instructions_count_value = 5, instructions_count_total_value = 5, instructions_count_declaration = 2\<rparr> demo_block 0x2001C True of
     Some (i, env, c) \<Rightarrow> i = 2 \<and> env_pc env = 0x103 \<and> instructions_count_value c = 7
   | None \<Rightarrow> False"
proof -
  let ?F = "\<lambda>i. 10 * of_nat i + 10 :: u16"
  have "rw_ptr_to_rx (code_buf demo_tbs) (blk_tc_ptr demo_block) = Some 0x20010"
    by (simp add: rw_ptr_to_rx_def is_ptr_in_rx_buf_def demo_tbs_def demo_block_def TCG_PROLOGUE_SIZE_def)
  moreover have "blk_tc_search demo_block = encode_search (blk_pc demo_block) (unat (blk_icount demo_block)) (\<lambda>i. 0x100 + 3 * of_nat i) ?F @ []"
    by (simp add: demo_block_def)
  ultimately show ?thesis
    using fault_restores_instruction[of "code_buf demo_tbs" demo_block "0x20010" "\<lambda>i. 0x100 + 3 * of_nat i" ?F "[]" "0x2001C" 1 demo_cpu
       "\<lparr>instructions_count_value = 5, instructions_count_total_value = 5, instructions_count_declaration = 2\<rparr>"]
    by (simp add: row_host_def demo_block_def)
qed


section \<open>Calls, returns, the stack and skips\<close>

text \<open>C22. A routine entered by CALL, CALLT or BRK that hands back its stack pointer and the four bytes of
  its frame returns behind the call: the return block gives back the program counter and the
  stack pointer of the caller, and RETB also the status word that BRK saved.\<close>

theorem call_return:
  assumes "at_rest S" "env_skip_en (cpu (mach S)) = 0" "4 \<le> unat (env_sp (cpu (mach S)))" "unat (env_sp (cpu (mach S))) \<le> 65536"
    and i: "decode_insn (ram (mach S)) (env_pc (cpu (mach S))) False = (Some i, npc, False)" "enters (mnemonic i)" "unat npc < 2 ^ 20"
    and S1: "exec_block P h bps sync mx S = Some S1"
    and S2: "at_rest S2" "env_skip_en (cpu (mach S2)) = 0" "env_pc (cpu (mach S2)) \<notin> set bps"
      "frame_kept (env_sp (cpu (mach S))) (mach S1) (mach S2)"
    and j: "decode_insn (ram (mach S2)) (env_pc (cpu (mach S2))) False = (Some j, pc', False)" "leaves (mnemonic j)"
  shows "\<exists>S3. exec_block P h bps sync mx S2 = Some S3 \<and> env_pc (cpu (mach S3)) = npc \<and>
    env_sp (cpu (mach S3)) = env_sp (cpu (mach S)) \<and>
    (mnemonic j = INSN_RET \<longrightarrow> env_psw (cpu (mach S3)) = env_psw (cpu (mach S2))) \<and>
    (mnemonic i = INSN_BRK \<and> mnemonic j \<noteq> INSN_RET \<longrightarrow> env_psw (cpu (mach S3)) = env_psw (cpu (mach S)))"
proof -
  let ?sp = "env_sp (cpu (mach S))"
  have "isa_step (pl_host_ptr P) (ram (mach S)) (mach S) = Some (mach S1)"
    using exec_block_isa[OF assms(1), of P h bps sync mx] S1 by (auto simp: isa_next_def split: if_splits)
  note f = isa_enter[OF i(1,2) assms(2-4) i(3) this]
  then have "frame_at ?sp npc (mach S2)" using frame_at_kept S2(4) by blast
  from exec_leave[OF S2(1,3,2) j assms(3,4) this, of P h sync mx]
  obtain S3 where S3: "exec_block P h bps sync mx S2 = Some S3" "env_pc (cpu (mach S3)) = npc" "env_sp (cpu (mach S3)) = ?sp"
    "env_psw (cpu (mach S3)) = (if mnemonic j = INSN_RET then env_psw (cpu (mach S2))
      else rl78_cpu_unpack_psw (ucast (mem_ld MO_8 (mach S2) (?sp - 4 + 0xF0000 + 3))))" by blast
  have "psw_ok (env_psw (cpu (mach S)))" using assms(1) by (simp add: at_rest_def cpu_okD)
  then show ?thesis using S3 f frame_kept_byte(4)[OF S2(4)] by (auto simp: ucast_u8_id)
qed

definition demo_call :: machine where
  "demo_call = demo_machine\<lparr>ram := (\<lambda>a. if a = 0x100 then 0xFC else if a = 0x102 then 2 else if a = 0x200 then 0xD7 else 0)\<rparr>"

lemma demo_call_rest: "at_rest (resting demo_call)"
  using at_rest_demo by (simp add: at_rest_def demo_call_def)

lemma decode_call: "decode_insn (ram demo_call) 0x100 False = (Some (ENTRY INSN_CALL (OP_ABS20 0x200) OP_NONE), 0x104, False)"
  unfolding demo_call_def by code_simp

lemma decode_ret:
  assumes "load 0x200 = 0xD7"
  shows "decode_insn load 0x200 False = (Some (ENTRY INSN_RET OP_NONE OP_NONE), 0x201, False)"
proof -
  have "decode_insn load 0x200 False = (Some (ENTRY INSN_RET OP_NONE OP_NONE), 0x200 + of_nat 1, False)"
  proof (rule decode_same_bytes[of "\<lambda>a. 0xD7"])
    have "decode_insn (\<lambda>a. 0xD7) 0x200 False = (Some (ENTRY INSN_RET OP_NONE OP_NONE), 0x201, False)" by code_simp
    then show "decode_insn (\<lambda>a. 0xD7) 0x200 False = (Some (ENTRY INSN_RET OP_NONE OP_NONE), 0x200 + of_nat 1, False)" by simp
  qed (use assms in auto)
  then show ?thesis by simp
qed

theorem call_return_witness:
  "\<exists>S1 S3. exec_block demo_platform demo_host [] True 8 (resting demo_call) = Some S1 \<and> env_pc (cpu (mach S1)) = 0x200 \<and>
     exec_block demo_platform demo_host [] True 8 S1 = Some S3 \<and> env_pc (cpu (mach S3)) = 0x104 \<and> env_sp (cpu (mach S3)) = 0xFE00"
proof -
  have c: "env_pc (cpu demo_call) = 0x100" "env_skip_en (cpu demo_call) = 0" "env_sp (cpu demo_call) = 0xFE00"
    by (simp_all add: demo_call_def demo_machine_def demo_cpu_def)
  let ?m1 = "set_pc 0x200 (isa_push_ret False False 0x104 demo_call)"
  have "isa_step hp (ram demo_call) demo_call = Some ?m1" for hp
    by (simp add: isa_step_def c decode_call isa_insn_call enters_def isa_ctrl_def)
  then obtain S1 where S1: "exec_block demo_platform demo_host [] True 8 (resting demo_call) = Some S1" "mach S1 = ?m1"
    using exec_block_runs[OF demo_call_rest, of "[]" demo_platform ?m1 demo_host True 8] by (auto simp: refuses_def c decode_call)
  have m1: "ram ?m1 0x200 = 0xD7" "env_pc (cpu ?m1) = 0x200" "env_skip_en (cpu ?m1) = 0"
    using c by (simp_all add: set_pc_def isa_push_ret_def Let_def set_sp_def mem_st_def ram_st_def stack_at_def bank_base_def align_def demo_call_def)
  have "frame_kept sp m m" for sp m by (simp add: frame_kept_def)
  then show ?thesis
    using call_return[OF demo_call_rest _ _ _ _ _ _ S1(1) exec_block_at_rest[OF demo_call_rest S1(1)], of "ENTRY INSN_CALL (OP_ABS20 0x200) OP_NONE" "0x104"
        "ENTRY INSN_RET OP_NONE OP_NONE" "0x201"] c S1 m1 decode_call decode_ret[of "ram ?m1", OF m1(1)]
    by (auto simp: enters_def leaves_def)
qed

text \<open>C23. An interrupt is transparent: when the service routine hands back its stack pointer and the four
  bytes of its frame, the RETI block restores the program counter, the stack pointer and
  the status word that \<^verbatim>\<open>do_interrupt\<close> saved.\<close>

theorem interrupt_return:
  assumes "cpu_ok (cpu m)" "4 \<le> unat (env_sp (cpu m))" "unat (env_sp (cpu m)) \<le> 65536" "unat (env_pc (cpu m)) < 2 ^ 24"
    "do_interrupt m = Inr m1"
    and S: "at_rest S" "env_skip_en (cpu (mach S)) = 0" "env_pc (cpu (mach S)) \<notin> set bps" "frame_kept (env_sp (cpu m)) m1 (mach S)"
    and j: "decode_insn (ram (mach S)) (env_pc (cpu (mach S))) False = (Some j, pc', False)" "mnemonic j = INSN_RETI"
  shows "\<exists>S'. exec_block P h bps sync mx S = Some S' \<and> env_pc (cpu (mach S')) = env_pc (cpu m) \<and>
    env_sp (cpu (mach S')) = env_sp (cpu m) \<and> env_psw (cpu (mach S')) = env_psw (cpu m)"
proof -
  note f = interrupt_frame[OF assms(2-5)]
  then have "frame_at (env_sp (cpu m)) (env_pc (cpu m)) (mach S)" using frame_at_kept S(4) by blast
  then show ?thesis using exec_leave[OF S(1,3,2) j(1) _ assms(2,3), of "env_pc (cpu m)" P h sync mx] j(2)
      f frame_kept_byte(4)[OF S(4)] cpu_okD(1)[OF assms(1)] by (auto simp: leaves_def ucast_u8_id)
qed

definition demo_service :: machine where
  "demo_service = demo_machine\<lparr>cpu := demo_cpu\<lparr>env_irq_index := 1, env_exception_index := 1\<rparr>,
     ram := (\<lambda>a. if a = 0x200 then 0x61 else if a = 0x201 then 0xFC else if a = 7 then 2 else 0)\<rparr>"

lemma decode_reti:
  assumes "load 0x200 = 0x61" "load 0x201 = 0xFC"
  shows "decode_insn load 0x200 False = (Some (ENTRY INSN_RETI OP_NONE OP_NONE), 0x202, False)"
proof -
  have "decode_insn load 0x200 False = (Some (ENTRY INSN_RETI OP_NONE OP_NONE), 0x200 + of_nat 2, False)"
  proof (rule decode_same_bytes[of "\<lambda>a. if a = 0x200 then 0x61 else 0xFC"])
    have "decode_insn (\<lambda>a. if a = 0x200 then 0x61 else 0xFC) 0x200 False = (Some (ENTRY INSN_RETI OP_NONE OP_NONE), 0x202, False)"
      by code_simp
    then show "decode_insn (\<lambda>a. if a = 0x200 then 0x61 else 0xFC) 0x200 False = (Some (ENTRY INSN_RETI OP_NONE OP_NONE), 0x200 + of_nat 2, False)"
      by simp
  qed (use assms in \<open>auto simp: less_Suc_eq numeral_2_eq_2\<close>)
  then show ?thesis by simp
qed

theorem interrupt_return_witness:
  "\<exists>m1 S'. do_interrupt demo_service = Inr m1 \<and> exec_block demo_platform demo_host [] True 8 (resting m1) = Some S' \<and>
     env_pc (cpu (mach S')) = 0x100 \<and> env_sp (cpu (mach S')) = 0xFE00 \<and> env_psw (cpu (mach S')) = reset_psw"
proof -
  obtain m1 where m1: "do_interrupt demo_service = Inr m1" by (simp add: do_interrupt_eq)
  have ram: "ram m1 0x200 = 0x61" "ram m1 0x201 = 0xFC"
    and cpu: "env_pc (cpu m1) = 0x200" "env_skip_en (cpu m1) = 0" "sint (env_exception_index (cpu m1)) < 0"
    using m1 by (auto simp: do_interrupt_eq demo_service_def demo_machine_def demo_cpu_def push_frame_def vector_at_def)
  have c: "cpu_ok (cpu demo_service)" "unat (env_irq_priority (cpu demo_service)) < 4"
    using demo_cpu_ok by (simp_all add: demo_service_def demo_machine_def demo_cpu_def cpu_ok_def)
  have "at_rest (resting m1)" using do_interrupt_ok[OF c m1] cpu by (simp add: at_rest_def)
  moreover have "frame_kept sp m1 m1" for sp by (simp add: frame_kept_def)
  ultimately show ?thesis
    using interrupt_return[OF c(1) _ _ _ m1, of "resting m1" "[]" "ENTRY INSN_RETI OP_NONE OP_NONE" "0x202" demo_platform demo_host True 8]
      decode_reti[OF ram] cpu m1 by (auto simp: demo_service_def demo_machine_def demo_cpu_def)
qed

text \<open>C24. PUSH of a register pair followed by POP into a pair moves the value and gives the stack
  pointer back; PUSH PSW followed by POP PSW restores the status word.\<close>

theorem push_pop_blocks:
  assumes "at_rest S" "env_skip_en (cpu (mach S)) = 0"
    and i: "decode_insn (ram (mach S)) (env_pc (cpu (mach S))) False = (Some i, npc, es)" "mnemonic i = INSN_PUSH"
    and S1: "exec_block P h bps sync mx S = Some S1"
    and j: "decode_insn (ram (mach S1)) npc False = (Some j, npc', es)" "mnemonic j = INSN_POP" "npc \<notin> set bps"
    and "operand0 i = OP_PSW \<longleftrightarrow> operand0 j = OP_PSW"
  shows "\<exists>S2. exec_block P h bps sync mx S1 = Some S2 \<and> env_pc (cpu (mach S2)) = npc' \<and>
    env_sp (cpu (mach S2)) = env_sp (cpu (mach S)) \<and>
    (case (operand0 i, operand0 j) of
       (OP_WORD_REG r, OP_WORD_REG r') \<Rightarrow> gpr16 (mach S2) r' = gpr16 (mach S) r
     | _ \<Rightarrow> env_psw (cpu (mach S2)) = env_psw (cpu (mach S)))"
proof -
  have "isa_step (pl_host_ptr P) (ram (mach S)) (mach S) = Some (mach S1)"
    using exec_block_isa[OF assms(1), of P h bps sync mx] S1 by (auto simp: isa_next_def split: if_splits)
  then have e: "isa_insn (pl_host_ptr P) es npc i (mach S) = Some (mach S1)" using i assms(2) by (simp add: isa_step_def)
  have r: "at_rest S1" by (rule exec_block_at_rest[OF assms(1) S1])
  have run: "\<exists>S2. exec_block P h bps sync mx S1 = Some S2 \<and> mach S2 = m2"
    if "isa_insn (pl_host_ptr P) es npc' j (mach S1) = Some m2" "env_pc (cpu (mach S1)) = npc" "env_skip_en (cpu (mach S1)) = 0" for m2
    using exec_block_runs[OF r, of bps P m2 h sync mx] j that by (auto simp: isa_step_def refuses_def)
  have pc: "env_pc (cpu (set_pc npc (isa_push es v (mach S)))) = npc" "env_skip_en (cpu (set_pc npc (isa_push es v (mach S)))) = 0" for v
    using assms(2) by (simp_all add: set_pc_def isa_push_def Let_def set_sp_def)
  have n: "env_pc (cpu (set_pc npc' m2)) = npc'" for m2 by (simp add: set_pc_def)
  show ?thesis
  proof (rule push_pop_insn[OF decode_insn_wf[OF i(1)] i(2) decode_insn_wf[OF j(1)] j(2) e assms(9)])
    fix r r' assume *: "operand0 i = OP_WORD_REG r" "operand0 j = OP_WORD_REG r'" "mach S1 = set_pc npc (isa_push es (gpr16 (mach S) r) (mach S))"
      "isa_insn (pl_host_ptr P) es npc' j (mach S1) = Some (set_pc npc' (isa_pop es (set_gpr16 r') (mach S1)))"
    then show ?thesis using run[OF *(4)] pc pop_pushed_pair n by fastforce
  next
    assume *: "operand0 i = OP_PSW" "operand0 j = OP_PSW"
      "mach S1 = set_pc npc (isa_push es (push_bit 8 (ucast (rl78_cpu_pack_psw (env_psw (cpu (mach S)))))) (mach S))"
      "isa_insn (pl_host_ptr P) es npc' j (mach S1) = Some (set_pc npc' (isa_pop es (\<lambda>v. set_psw (drop_bit 8 v)) (mach S1)))"
    have "psw_ok (env_psw (cpu (mach S)))" using assms(1) by (simp add: at_rest_def cpu_okD)
    then show ?thesis using run[OF *(4)] pc * pop_pushed_psw n by fastforce
  qed
qed

definition demo_push :: machine where
  "demo_push = demo_machine\<lparr>ram := (\<lambda>a. if a = 0x100 then 0xC1 else if a = 0x101 then 0xC2 else 0)\<rparr>"

theorem push_pop_blocks_witness:
  "\<exists>S1 S2. exec_block demo_platform demo_host [] True 8 (resting demo_push) = Some S1 \<and>
     exec_block demo_platform demo_host [] True 8 S1 = Some S2 \<and> gpr16 (mach S2) REG_BC = gpr16 demo_push REG_AX"
proof -
  have c: "env_pc (cpu demo_push) = 0x100" "env_skip_en (cpu demo_push) = 0" "env_sp (cpu demo_push) = 0xFE00"
    by (simp_all add: demo_push_def demo_machine_def demo_cpu_def)
  have r: "at_rest (resting demo_push)" using at_rest_demo by (simp add: at_rest_def demo_push_def)
  have d: "decode_insn (ram demo_push) 0x100 False = (Some (ENTRY INSN_PUSH (OP_WORD_REG REG_AX) OP_NONE), 0x101, False)"
    unfolding demo_push_def by code_simp
  let ?m1 = "set_pc 0x101 (isa_push False (gpr16 demo_push REG_AX) demo_push)"
  have "isa_step hp (ram demo_push) demo_push = Some ?m1" for hp
    by (simp add: isa_step_def c d isa_insn_def isa_data_def)
  then obtain S1 where S1: "exec_block demo_platform demo_host [] True 8 (resting demo_push) = Some S1" "mach S1 = ?m1"
    using exec_block_runs[OF r, of "[]" demo_platform ?m1 demo_host True 8] by (auto simp: refuses_def c d)
  have m1: "ram ?m1 0x101 = 0xC2"
    using c by (simp add: set_pc_def isa_push_def Let_def set_sp_def mem_st_def ram_st_def stack_at_def bank_base_def align_def demo_push_def)
  have "decode_insn (ram ?m1) 0x101 False = (Some (ENTRY INSN_POP (OP_WORD_REG REG_BC) OP_NONE), 0x101 + of_nat 1, False)"
  proof (rule decode_same_bytes[of "\<lambda>a. 0xC2"])
    have "decode_insn (\<lambda>a. 0xC2) 0x101 False = (Some (ENTRY INSN_POP (OP_WORD_REG REG_BC) OP_NONE), 0x102, False)" by code_simp
    then show "decode_insn (\<lambda>a. 0xC2) 0x101 False = (Some (ENTRY INSN_POP (OP_WORD_REG REG_BC) OP_NONE), 0x101 + of_nat 1, False)" by simp
  qed (use m1 in auto)
  then show ?thesis
    using push_pop_blocks[OF r _ _ _ S1(1), of "ENTRY INSN_PUSH (OP_WORD_REG REG_AX) OP_NONE" "0x101" False
        "ENTRY INSN_POP (OP_WORD_REG REG_BC) OP_NONE" "0x102"] c S1 d by auto
qed

text \<open>C25. A conditional skip whose condition holds makes the next instruction have no effect, whatever its length and
  whatever it is, HALT and STOP apart, which abort the translation even when skipped: after the two blocks only the
  program counter differs, and it is behind the skipped instruction.\<close>

theorem skip_skips:
  assumes "at_rest S" "env_skip_en (cpu (mach S)) = 0" "env_skip_req (cpu (mach S)) = 0"
    and i: "decode_insn (ram (mach S)) (env_pc (cpu (mach S))) False = (Some i, npc, es)" "skips (mnemonic i) (env_psw (cpu (mach S))) = Some True"
    and j: "decode_insn (ram (mach S)) npc False = (Some j, npc', es')" "mnemonic j \<notin> {INSN_HALT, INSN_STOP}"
    and "env_pc (cpu (mach S)) \<notin> set bps" "npc \<notin> set bps"
  shows "map_option mach (steps (exec_block P h bps sync mx) 2 S) = Some ((mach S)\<lparr>cpu := (cpu (mach S))\<lparr>env_pc := npc'\<rparr>\<rparr>)"
proof -
  let ?m = "mach S"
  have "mnemonic i \<notin> {INSN_HALT, INSN_STOP}" using i(2) by (auto simp: skips_def)
  then have 1: "isa_next hp bps ?m = isa_step hp (ram ?m) ?m" for hp using i(1) assms(8) by (simp add: isa_next_def refuses_def)
  have s: "isa_step hp (ram ?m) ?m = Some (set_pc npc (isa_skip True ?m))" for hp
    using assms(2) i isa_data_skip[OF i(2)] by (simp add: isa_step_def isa_insn_def)
  have 2: "isa_next hp bps (set_pc npc (isa_skip True ?m)) = isa_step hp (ram ?m) (set_pc npc (isa_skip True ?m))" for hp
    using j assms(9) by (simp add: isa_next_def refuses_def set_pc_def isa_skip_def)
  have "isa_step hp (ram ?m) (set_pc npc (isa_skip True ?m)) = Some (set_pc npc' ?m)" for hp
    using isa_skip_skipped[OF assms(2,3) i(2,1) j(1), of hp] s[of hp] by simp
  then show ?thesis using blocks.run_refines[OF assms(1), of P h bps sync mx 2] 1 2 s
    by (simp add: numeral_2_eq_2 set_pc_def)
qed

definition demo_skip :: machine where
  "demo_skip = demo_machine\<lparr>ram := (\<lambda>a. if a = 0x100 then 0x61 else if a = 0x101 then 0xD8 else if a = 0x102 then 0xFC else 0)\<rparr>"

theorem skip_skips_witness:
  "map_option mach (steps (exec_block demo_platform demo_host [] True 8) 2 (resting demo_skip)) =
   Some (demo_skip\<lparr>cpu := demo_cpu\<lparr>env_pc := 0x106\<rparr>\<rparr>)"
proof -
  have i: "decode_insn (ram demo_skip) 0x100 False = (Some (ENTRY INSN_SKNC OP_NONE OP_NONE), 0x102, False)"
    and j: "decode_insn (ram demo_skip) 0x102 False = (Some (ENTRY INSN_CALL (OP_ABS20 0) OP_NONE), 0x106, False)"
    unfolding demo_skip_def by code_simp+
  have c: "cpu demo_skip = demo_cpu" "at_rest (resting demo_skip)"
    using at_rest_demo by (simp_all add: demo_skip_def demo_machine_def at_rest_def)
  show ?thesis using skip_skips[OF c(2), of "ENTRY INSN_SKNC OP_NONE OP_NONE" "0x102" False
      "ENTRY INSN_CALL (OP_ABS20 0) OP_NONE" "0x106" False "[]" demo_platform demo_host True 8] i j
    by (simp add: c demo_cpu_def reset_psw_def skips_def)
qed

section \<open>Processor state\<close>

text \<open>C26. Packing and unpacking the program status word are inverse: every byte survives
  unpack-then-pack, every status word whose fields are inside their widths survives
  pack-then-unpack.\<close>

theorem psw_roundtrip:
  assumes "psw_ok p"
  shows "rl78_cpu_pack_psw (rl78_cpu_unpack_psw b) = b \<and> rl78_cpu_unpack_psw (rl78_cpu_pack_psw p) = p"
  using assms by simp_all

theorem psw_roundtrip_witness:
  "psw_ok reset_psw \<and> rl78_cpu_unpack_psw (rl78_cpu_pack_psw reset_psw) = reset_psw"
proof -
  have "psw_ok reset_psw" by (simp add: psw_ok_def reset_psw_def)
  then show ?thesis using psw_roundtrip by blast
qed

text \<open>C27. While the selected bank is one of the four, a register written through the host interface, other than the bank
  selector itself (number 14, which changes the registers that numbers 0 to 7 stand for), reads back, and every other
  register number keeps its value; an undefined number is an error on both sides and changes nothing.\<close>

theorem host_register_roundtrip:
  assumes "reg \<noteq> 14" "reg' \<noteq> reg" "unat (psw_rbs (env_psw env)) < REGISTER_BANK_NUM"
  shows "case tlib_set_register_value_32 env reg v of
      Inl e \<Rightarrow> e = Abort_undefined_register reg \<and> tlib_get_register_value_32 env reg = Inl e
    | Inr env' \<Rightarrow> tlib_get_register_value_32 env' reg = Inr v \<and>
        tlib_get_register_value_32 env' reg' = tlib_get_register_value_32 env reg'"
proof (cases "get_reg_pointer_32 env reg")
  case None
  then show ?thesis by (simp add: tlib_set_register_value_32_def tlib_get_register_value_32_def)
next
  case (Some p)
  then have "tlib_set_register_value_32 env reg v = Inr (write_ref p v env)"
    by (simp add: tlib_set_register_value_32_def)
  then show ?thesis using register_roundtrip(1)[of env reg v] register_roundtrip(2)[of env reg v _ reg'] assms by simp
qed

theorem host_register_roundtrip_witness:
  "tlib_get_register_value_32 (write_ref (Ref_bank 0 1) 42 demo_cpu) 1 = Inr 42"
  using host_register_roundtrip[of 1 2 demo_cpu 42]
  by (simp add: tlib_set_register_value_32_def get_reg_pointer_32_def demo_cpu_def reset_psw_def REGISTER_BANK_NUM_def)

text \<open>With more the registers are other fields: register 0 of bank 4 is the stack pointer.\<close>

lemma bank_out_of_range: "get_reg_pointer_32 (env\<lparr>env_psw := (env_psw env)\<lparr>psw_rbs := 4\<rparr>\<rparr>) 0 = get_reg_pointer_32 env 9"
  by (simp add: get_reg_pointer_32_def bank_pointer_aliases)

section \<open>Multiply / divide / accumulate unit\<close>

text \<open>Command MULHU leaves the full 32-bit product of AX and BC in BC:AX.\<close>

theorem mulhu_product:
  "unat (rl78_get_rp (cpu (helper_rl78_mdu_cmd hp m 1)) REG_AX) +
     65536 * unat (rl78_get_rp (cpu (helper_rl78_mdu_cmd hp m 1)) REG_BC) =
   unat (rl78_get_rp (cpu m) REG_AX) * unat (rl78_get_rp (cpu m) REG_BC)"
  using mdu_mulhu_product[of "cpu m"] by (simp add: helper_rl78_mdu_cmd.simps Let_def)

text \<open>C28. Command DIVHU divides AX by DE without sign, quotient to AX and remainder to DE; a
  zero divisor gives the quotient 0xFFFF and the dividend as remainder.\<close>

theorem divhu_result:
  fixes hp m
  defines "c \<equiv> cpu m" and "c' \<equiv> cpu (helper_rl78_mdu_cmd hp m 3)"
  shows "if rl78_get_rp c REG_DE = 0
     then rl78_get_rp c' REG_AX = 0xFFFF \<and> rl78_get_rp c' REG_DE = rl78_get_rp c REG_AX
     else unat (rl78_get_rp c' REG_AX) = unat (rl78_get_rp c REG_AX) div unat (rl78_get_rp c REG_DE) \<and>
          unat (rl78_get_rp c' REG_DE) = unat (rl78_get_rp c REG_AX) mod unat (rl78_get_rp c REG_DE)"
  using mdu_divhu_result[of c] mdu_divhu_zero[of c]
  by (simp add: helper_rl78_mdu_cmd.simps Let_def c_def c'_def)

text \<open>Command MULH leaves the signed 32-bit product of AX and BC in BC:AX.\<close>

theorem mulh_product:
  fixes hp m
  defines "c \<equiv> cpu m" and "c' \<equiv> cpu (helper_rl78_mdu_cmd hp m 2)"
  shows "sint (rl78_get_rp c' REG_AX OR push_bit 16 (rl78_get_rp c' REG_BC)) =
     sint (ucast (rl78_get_rp c REG_AX) :: u16) * sint (ucast (rl78_get_rp c REG_BC) :: u16)"
  using mdu_mulh_product[of c] by (simp add: helper_rl78_mdu_cmd.simps Let_def c_def c'_def)

text \<open>C29. Command DIVWU divides BC:AX by HL:DE without sign, quotient to BC:AX and remainder to
  HL:DE; a zero divisor gives the quotient 0xFFFFFFFF and the dividend as remainder.\<close>

theorem divwu_result:
  fixes hp m
  defines "c \<equiv> cpu m" and "c' \<equiv> cpu (helper_rl78_mdu_cmd hp m 0x0B)"
  defines "n \<equiv> unat (rp32 c REG_AX REG_BC)" and "d \<equiv> unat (rp32 c REG_DE REG_HL)"
  shows "unat (rp32 c' REG_AX REG_BC) = (if d = 0 then 2 ^ 32 - 1 else n div d) \<and>
     unat (rp32 c' REG_DE REG_HL) = (if d = 0 then n else n mod d)"
proof -
  have c': "c' = mdu_divwu c" by (simp add: helper_rl78_mdu_cmd.simps Let_def c_def c'_def)
  have "d = 0 \<longleftrightarrow> rp32 c REG_DE REG_HL = 0" by (simp add: d_def unat_eq_0)
  moreover have "unat (- 1 :: u32) = 2 ^ 32 - 1" by (simp add: unsigned_minus_1_eq_mask mask_eq_exp_minus_1)
  ultimately show ?thesis unfolding c' n_def d_def
    using mdu_divwu_result[of c] mdu_divwu_zero[of c] by (simp add: unat_div unat_mod)
qed

text \<open>Command MACHU adds the unsigned product of AX and BC to the accumulator modulo 2^32 and sets the
  carry exactly on overflow, clearing the other arithmetic flags.\<close>

theorem machu_accumulates:
  fixes hp m
  defines "m' \<equiv> helper_rl78_mdu_cmd hp m 5"
    and "s \<equiv> unat (macr_val m) + unat (rl78_get_rp (cpu m) REG_AX) * unat (rl78_get_rp (cpu m) REG_BC)"
  shows "unat (macr_val m') = s mod 2 ^ 32 \<and>
    cpu m' = (cpu m)\<lparr>env_psw := (env_psw (cpu m))\<lparr>psw_cy := (if s < 2 ^ 32 then 0 else 1), psw_ac := 0, psw_z := 0\<rparr>\<rparr>"
  using mdu_machu[where hp = hp and m = m] unfolding m'_def s_def by blast

text \<open>C30. Command MACH adds the signed product of AX and BC to the accumulator in two's complement, sets the carry
  exactly when the signed sum overflows and AC to the sign of the new accumulator.\<close>

theorem mach_accumulates:
  fixes hp m
  defines "m' \<equiv> helper_rl78_mdu_cmd hp m 6"
    and "s \<equiv> sint (macr_val m) + sint (ucast (rl78_get_rp (cpu m) REG_AX) :: u16) * sint (ucast (rl78_get_rp (cpu m) REG_BC) :: u16)"
  shows "sint (macr_val m') = signed_take_bit 31 s \<and> cpu m' = (cpu m)\<lparr>env_psw := (env_psw (cpu m))\<lparr>
     psw_cy := (if - (2 ^ 31) \<le> s \<and> s < 2 ^ 31 then 0 else 1), psw_ac := (if sint (macr_val m') < 0 then 1 else 0), psw_z := 0\<rparr>\<rparr>"
  using mdu_mach[where hp = hp and m = m] unfolding m'_def s_def by blast

section \<open>Memory-mapped registers\<close>

text \<open>C31. A byte written by a helper reads back, at every address but 0xFFFFB, where a write is a command to the multiplier:
  ordinary memory and the PSW byte keep all its bits, the low byte of SP loses bit 0, CS and ES keep
  four bits.\<close>

theorem byte_write_reads_back:
  assumes "paddr \<noteq> 0xFFFFB"
  shows "rl78_read_byte hp (rl78_write_byte hp m paddr v) paddr =
    v AND (if paddr = 0xFFFF8 then 0xFE else if paddr = 0xFFFFC \<or> paddr = 0xFFFFD then 0x0F else 0xFF)"
  using read_write_byte[OF assms] by (simp add: writable_mask_def)

theorem byte_write_reads_back_witness:
  "rl78_read_byte (\<lambda>_. True) (rl78_write_byte (\<lambda>_. True) demo_machine 0xFFFFD 0x37) 0xFFFFD = 0x07"
  using byte_write_reads_back[of "0xFFFFD" "\<lambda>_. True" demo_machine "0x37"] by simp

text \<open>C32. The test-and-clear helper on an address (\<^verbatim>\<open>helper_rl78_btclr_paddr\<close>, for every form of BTCLR on memory), other than
  the command register 0xFFFFB, reports the bit as it was and clears it, and nothing is written when it was
  clear.\<close>

theorem btclr_tests_and_clears:
  fixes hp m paddr b
  defines "n \<equiv> unat (b AND 7)" and "r \<equiv> fst (helper_rl78_btclr_paddr hp m paddr b)"
    and "m' \<equiv> snd (helper_rl78_btclr_paddr hp m paddr b)" and "old \<equiv> rl78_read_byte hp m paddr"
  assumes "paddr \<noteq> 0xFFFFB"
  shows "r = (if bit old n then 1 else 0) \<and> (\<not> bit old n \<longrightarrow> m' = m) \<and>
    (bit old n \<longrightarrow> rl78_read_byte hp m' paddr = (old AND NOT (push_bit n 1)) AND writable_mask paddr)"
  using btclr_paddr_spec[OF assms(5), of hp m b] unfolding n_def r_def m'_def old_def
  by (auto simp: helper_rl78_btclr_paddr_def Let_def)

theorem btclr_tests_and_clears_witness:
  "fst (helper_rl78_btclr_paddr (\<lambda>_. True) demo_machine 0x300 2) = 0"
  using btclr_tests_and_clears[of "0x300" "\<lambda>_. True" demo_machine 2]
  by (simp add: rl78_read_byte_def demo_machine_def ldub_phys_def)

text \<open>C33. Every run-time helper keeps the processor well formed.\<close>

theorem helpers_keep_invariant:
  assumes "cpu_ok (cpu m)"
  shows "cpu_ok (cpu (helper_rl78_mdu_cmd hp m cmd)) \<and> cpu_ok (cpu (rl78_write_byte hp m paddr v)) \<and>
    cpu_ok (cpu (snd (helper_rl78_btclr hp m kind addr b es)))"
  using mdu_cmd_ok[OF assms] write_byte_ok[OF assms] btclr_ok[OF assms] by blast

theorem helpers_keep_invariant_witness: "cpu_ok (cpu (helper_rl78_mdu_cmd (\<lambda>_. True) demo_machine 6))"
  using helpers_keep_invariant[OF demo_cpu_ok] by blast

section \<open>Interrupts\<close>

text \<open>C34. From any reachable state of the interrupt line, a latched request keeps the hard
  interrupt pending (it is never lost) and only latched requests have been
  acknowledged.\<close>

theorem irq_never_lost:
  assumes "irq_step\<^sup>*\<^sup>* m m'" "irq_inv m"
  shows "(0 \<le> sint (env_irq_index (cpu m')) \<longrightarrow> is_interrupt_pending (cpu m') CPU_INTERRUPT_HARD) \<and>
    list_all (\<lambda>i. 0 \<le> sint i) (irq_acks m')"
  using irq_inv_reachable[OF assms] by (simp_all add: irq_inv_def)

theorem irq_never_lost_witness:
  "list_all (\<lambda>i. 0 \<le> sint i) (irq_acks (demo_machine\<lparr>cpu := tlib_set_rl78_irq 3 1 1 demo_cpu\<rparr>))"
proof (rule irq_never_lost[THEN conjunct2])
  show "irq_inv demo_machine"
    by (simp add: irq_inv_def demo_machine_def demo_cpu_def psw_ok_def reset_psw_def)
  show "irq_step\<^sup>*\<^sup>* demo_machine (demo_machine\<lparr>cpu := tlib_set_rl78_irq 3 1 1 demo_cpu\<rparr>)"
    using irq_raise[of 1 demo_machine 3 1] by (simp add: demo_machine_def)
qed

text \<open>C35. An interrupt is taken exactly when the line is pending, interrupts are enabled, no skip is in flight and
  the latched request is at least as urgent as the level in service. Then the four bytes of program counter and status word
  are pushed, interrupts are disabled, the level is that of the request, execution goes on at the vector, the request is
  acknowledged once and no longer latched, and nothing else of the machine changes. Otherwise nothing changes, but for a
  hard interrupt that finds interrupts enabled and no request latched, which is dropped.\<close>

theorem interrupt_decision:
  assumes "psw_ok (env_psw (cpu m))"
  shows "process_interrupt req m = Inr (
    if irq_accepts req (cpu m)
    then (1, m\<lparr>
      cpu := (cpu m)\<lparr>env_sp := env_sp (cpu m) - 4,
        env_psw := (env_psw (cpu m))\<lparr>psw_ie := 0, psw_isp := ucast (env_irq_priority (cpu m))\<rparr>,
        env_pc := vector_at (m\<lparr>ram := push_frame (ram m) (0xF0000 OR (env_sp (cpu m) - 4)) (env_pc (cpu m)) (env_psw (cpu m))\<rparr>)
          (env_irq_index (cpu m) * 2 + 4),
        env_irq_index := - 1, env_exception_index := - 1\<rparr>,
      ram := push_frame (ram m) (0xF0000 OR (env_sp (cpu m) - 4)) (env_pc (cpu m)) (env_psw (cpu m)),
      irq_acks := irq_acks m @ [env_irq_index (cpu m)]\<rparr>)
    else (0, if req AND CPU_INTERRUPT_HARD \<noteq> 0 \<and> psw_ie (env_psw (cpu m)) \<noteq> 0 \<and> env_skip_en (cpu m) = 0 \<and> sint (env_irq_index (cpu m)) < 0
      then m\<lparr>cpu := (cpu m)\<lparr>env_exception_index := - 1,
        env_interrupt_request := env_interrupt_request (cpu m) AND NOT CPU_INTERRUPT_HARD\<rparr>\<rparr> else m))"
proof (cases "irq_accepts req (cpu m)")
  case True
  then show ?thesis using process_interrupt_accept[OF assms True] by (auto simp: do_interrupt_eq vector_at_def)
next
  case False
  then show ?thesis using process_interrupt_reject[OF assms False] by (simp add: irq_dropped_def)
qed

text \<open>A request taken, and one without interrupts enabled.\<close>

theorem interrupt_decision_witness:
  "(\<exists>m'. process_interrupt CPU_INTERRUPT_HARD
       (demo_machine\<lparr>cpu := demo_cpu\<lparr>env_psw := reset_psw\<lparr>psw_ie := 1\<rparr>, env_irq_index := 3, env_irq_priority := 1\<rparr>\<rparr>) = Inr (1, m') \<and>
     env_sp (cpu m') = 0xFDFC \<and> ram m' 0xFFDFD = 1 \<and> ram m' 0xFFDFF = 0x86 \<and> env_pc (cpu m') = 0 \<and> irq_acks m' = [3]) \<and>
   process_interrupt CPU_INTERRUPT_HARD demo_machine = Inr (0, demo_machine)"
proof
  let ?m = "demo_machine\<lparr>cpu := demo_cpu\<lparr>env_psw := reset_psw\<lparr>psw_ie := 1\<rparr>, env_irq_index := 3, env_irq_priority := 1\<rparr>\<rparr>"
  have ok: "psw_ok (env_psw (cpu ?m))" by (simp add: psw_ok_def reset_psw_def)
  have acc: "irq_accepts CPU_INTERRUPT_HARD (cpu ?m)" by (simp add: irq_accepts_def demo_cpu_def reset_psw_def CPU_INTERRUPT_HARD_def)
  have "rl78_cpu_pack_psw (reset_psw\<lparr>psw_ie := 1\<rparr>) = 0x86" by code_simp
  then show "\<exists>m'. process_interrupt CPU_INTERRUPT_HARD ?m = Inr (1, m') \<and>
     env_sp (cpu m') = 0xFDFC \<and> ram m' 0xFFDFD = 1 \<and> ram m' 0xFFDFF = 0x86 \<and> env_pc (cpu m') = 0 \<and> irq_acks m' = [3]"
    using interrupt_decision[OF ok, of CPU_INTERRUPT_HARD] acc
    by (simp add: demo_machine_def demo_cpu_def push_frame_def vector_at_def)
  have "psw_ok (env_psw (cpu demo_machine))" using demo_cpu_ok by (rule cpu_okD)
  from interrupt_decision[OF this, of CPU_INTERRUPT_HARD] show "process_interrupt CPU_INTERRUPT_HARD demo_machine = Inr (0, demo_machine)"
    by (simp add: irq_accepts_def demo_machine_def demo_cpu_def reset_psw_def)
qed

lemma interrupt_keeps_invariant:
  assumes "cpu_ok (cpu m)"
  shows "\<exists>k m'. process_interrupt req m = Inr (k, m') \<and> cpu_ok (cpu m')"
proof (cases "irq_accepts req (cpu m)")
  case True
  with process_interrupt_accept[OF cpu_okD(1)[OF assms] True] show ?thesis using process_interrupt_ok[OF assms] by blast
next
  case False
  with process_interrupt_reject[OF cpu_okD(1)[OF assms] False] show ?thesis using process_interrupt_ok[OF assms] by blast
qed

text \<open>C36. Reset succeeds from any state, keeps memory, loads the program counter from the reset vector, and gives
  a well-formed processor.\<close>

theorem reset_establishes_invariant:
  "\<exists>m'. cpu_reset m = Inr m' \<and> cpu_ok (cpu m') \<and> env_pc (cpu m') = vector_at m 0 \<and> ram m' = ram m"
  by (rule cpu_reset_ok)

section \<open>Decoder\<close>

text \<open>C37. A decoded instruction is 1 to 5 bytes long, the program counter ends right after it,
  and the result depends on those bytes only.\<close>

theorem decode_extent:
  assumes "decode_insn load pc es = (Some i, pc', es')"
  shows "\<exists>n. 1 \<le> n \<and> n \<le> 5 \<and> pc' = pc + of_nat n \<and>
    (\<forall>load'. (\<forall>j<n. load' (pc + of_nat j) = load (pc + of_nat j)) \<longrightarrow> decode_insn load' pc es = (Some i, pc', es'))"
  by (rule decode_insn_extent[OF assms])

lemma decode_demo: "decode_insn (\<lambda>_. 0) 0 False = (Some (ENTRY INSN_NOP OP_NONE OP_NONE), 1, False)"
  by code_simp

theorem decode_extent_witness:
  "\<exists>n. 1 \<le> n \<and> n \<le> 5 \<and> (1 :: u32) = 0 + of_nat n \<and>
    (\<forall>load'. (\<forall>j<n. load' (0 + of_nat j) = 0) \<longrightarrow>
       decode_insn load' 0 False = (Some (ENTRY INSN_NOP OP_NONE OP_NONE), 1, False))"
  using decode_extent[OF decode_demo] by simp

text \<open>C38. A decoded instruction always has the operands its translator expects: the mnemonic is known and has a
  handler, both operands are of a shape the handler accepts, and their constants are
  inside their fields.\<close>

theorem decode_well_formed:
  assumes "decode_insn load pc es = (Some i, pc', es')"
  shows "insn_ok i \<and> translator_table (mnemonic i) \<noteq> None"
proof -
  have "insn_ok i" by (rule decode_insn_wf[OF assms])
  then show ?thesis by (cases "mnemonic i") (simp_all add: insn_ok_def)
qed

theorem decode_well_formed_witness: "insn_ok (ENTRY INSN_NOP OP_NONE OP_NONE)"
  using decode_well_formed[OF decode_nop] by simp

text \<open>C39. The ES bank is selected exactly by the prefix byte 0x11 in front of the instruction.\<close>

theorem decode_es_prefix:
  assumes "decode_insn load pc es = (Some i, pc', es')"
  shows "es' = (es \<or> load pc = 0x11)"
  using assms by (rule decode_insn_es)

theorem decode_es_prefix_witness:
  "\<exists>i pc' es'. decode_insn (\<lambda>a. if a = 0 then 0x11 else 0x8B) 0 False = (Some i, pc', es') \<and> es'"
proof -
  have "fst (decode_insn (\<lambda>a. if a = 0 then 0x11 else 0x8B) 0 False) \<noteq> None" by code_simp
  then obtain i pc' es' where d: "decode_insn (\<lambda>a. if a = 0 then 0x11 else 0x8B) 0 False = (Some i, pc', es')" by (auto simp: prod_eq_iff)
  then show ?thesis using decode_es_prefix[OF d] by fastforce
qed

section \<open>Code generator\<close>

text \<open>C40. Two temporaries taken one after the other are different and both in use, whatever was
  released before and whatever their kinds; giving the second back leaves exactly the
  temporaries that were in use before it was taken.\<close>

theorem temporaries_never_alias:
  assumes "temps_wf s" "tcg_temp_new_internal k s = (t, s')" "tcg_temp_new_internal k' s' = (t', s'')"
  shows "t \<noteq> t' \<and> t \<in> live_temps s'' k \<and> t' \<in> live_temps s'' k' \<and>
    live_temps (tcg_temp_free_internal t' s'') k'' = live_temps s' k''"
proof -
  have "temps_wf s'" using assms(1,2) by (rule ta.alloc_inv)
  then show ?thesis using ta.alloc_alloc_distinct[OF assms] ta.alloc_release_same[OF _ assms(3)] by blast
qed

theorem temporaries_never_alias_witness:
  "case tcg_temp_new_internal K_I32 (block_start demo_host demo_machine) of (t, s') \<Rightarrow>
     (case tcg_temp_new_internal K_I64 s' of (t', s'') \<Rightarrow> t \<noteq> t')"
proof -
  have "temps_wf (block_start demo_host demo_machine)"
    by (simp add: block_start_def cpu_get_tb_cpu_state_def tcg_func_start_def temps_wf_def)
  then show ?thesis using temporaries_never_alias by (auto split: prod.split)
qed

end
